(* ===== verification/Prelude.thy ===== *)
theory Prelude
  imports Complex_Main "HOL-Library.AList"
begin

text \<open>
  The vocabulary every component shares: the values of the TypeScript run time that the modelled
  code uses (exceptions, bigint division, number truncation, Latin-1 strings, insertion-ordered
  maps), the generic lemmas about them, and three locales: \<open>machine\<close>, the contract of a component
  whose operations keep an invariant, \<open>ledger\<close>, the contract of one whose operations add what they
  are given to an accounted quantity, and \<open>refinement\<close>, the contract of one that implements an
  abstract machine.
\<close>

named_theorems js_simps \<open>evaluation of the run-time primitives\<close>

section \<open>Errors\<close>

text \<open>
  A thrown exception is the left side of a sum. The engine's own exceptions keep their class;
  a \<open>throw\<close> of the program is a type of the component that throws it.
\<close>

datatype js_error = RangeError | TypeError | SyntaxError | ErrorMsg string

section \<open>Numbers\<close>

text \<open>
  \<open>bigint\<close> division truncates towards zero and throws \<open>RangeError\<close> on a zero divisor.
  A finite number value is a rational; \<open>Math.trunc\<close>, \<open>Math.floor\<close> and comparisons are
  exact on those.
\<close>

definition tdiv :: "int \<Rightarrow> int \<Rightarrow> int" where
  "tdiv a b = sgn a * sgn b * (\<bar>a\<bar> div \<bar>b\<bar>)"

definition bigint_div :: "int \<Rightarrow> int \<Rightarrow> js_error + int" where
  "bigint_div a b = (if b = 0 then Inl RangeError else Inr (tdiv a b))"

definition js_trunc :: "rat \<Rightarrow> int" where
  "js_trunc x = (if x < 0 then \<lceil>x\<rceil> else \<lfloor>x\<rfloor>)"

lemma tdiv_nonneg [js_simps]: "0 \<le> a \<Longrightarrow> 0 < b \<Longrightarrow> tdiv a b = a div b"
  by (cases "a = 0") (simp_all add: tdiv_def)

lemma bigint_div_pos [js_simps]: "0 \<le> a \<Longrightarrow> 0 < b \<Longrightarrow> bigint_div a b = Inr (a div b)"
  by (simp add: bigint_div_def tdiv_nonneg)

lemma js_trunc_of_int [simp, js_simps]: "js_trunc (of_int i) = i"
  by (simp add: js_trunc_def)

lemma js_trunc_numeral [simp, js_simps]: "js_trunc (numeral n) = numeral n"
  by (simp add: js_trunc_def)

lemma js_trunc_one [simp, js_simps]: "js_trunc 1 = 1"
  by (simp add: js_trunc_def)

lemma js_trunc_zero [simp, js_simps]: "js_trunc 0 = 0"
  by (simp add: js_trunc_def)

lemma js_trunc_nonneg: "0 \<le> x \<Longrightarrow> 0 \<le> js_trunc x"
  by (simp add: js_trunc_def)

lemma js_trunc_le: "0 \<le> x \<Longrightarrow> of_int (js_trunc x) \<le> x"
  by (simp add: js_trunc_def)

section \<open>Strings\<close>

text \<open>
  A string is a list of characters, read as the UTF-16 code units U+0000 to U+00FF. On that range
  \<open>trim\<close> removes the seven white-space and line-terminator characters below, and
  \<open>toLowerCase\<close> adds 32 to the Latin capitals (A to Z, and U+00C0 to U+00DE without the
  multiplication sign U+00D7).
\<close>

definition js_space :: "char \<Rightarrow> bool" where
  "js_space c \<longleftrightarrow> (of_char c :: nat) \<in> {9, 10, 11, 12, 13, 32, 160}"

definition js_trim :: "string \<Rightarrow> string" where
  "js_trim s = rev (dropWhile js_space (rev (dropWhile js_space s)))"

definition js_lower_char :: "char \<Rightarrow> char" where
  "js_lower_char c =
     (let n = (of_char c :: nat)
      in if 65 \<le> n \<and> n \<le> 90 \<or> 192 \<le> n \<and> n \<le> 222 \<and> n \<noteq> 215 then char_of (n + 32) else c)"

definition js_lower :: "string \<Rightarrow> string" where
  "js_lower s = map js_lower_char s"

lemma of_char_lt_256: "(of_char c :: nat) < 256"
  by simp

lemma js_lower_char_idem [simp]: "js_lower_char (js_lower_char c) = js_lower_char c"
proof -
  have "(of_char c :: nat) < 256" by (rule of_char_lt_256)
  then show ?thesis
    by (auto simp: js_lower_char_def Let_def of_char_of)
qed

lemma js_lower_idem [simp]: "js_lower (js_lower s) = js_lower s"
  by (simp add: js_lower_def)

text \<open>\<open>split\<close> on one character and \<open>join\<close>, \<open>includes\<close> and \<open>startsWith\<close>.\<close>

fun js_split :: "char \<Rightarrow> string \<Rightarrow> string list" where
  "js_split c [] = [[]]"
| "js_split c (d # ds) =
     (if d = c then [] # js_split c ds
      else case js_split c ds of [] \<Rightarrow> [[d]] | w # ws \<Rightarrow> (d # w) # ws)"

fun js_join :: "string \<Rightarrow> string list \<Rightarrow> string" where
  "js_join sep [] = []"
| "js_join sep [w] = w"
| "js_join sep (w # v # ws) = w @ sep @ js_join sep (v # ws)"

fun js_starts_with :: "string \<Rightarrow> string \<Rightarrow> bool" where
  "js_starts_with s [] = True"
| "js_starts_with [] (p # ps) = False"
| "js_starts_with (c # cs) (p # ps) = (c = p \<and> js_starts_with cs ps)"

fun js_includes :: "string \<Rightarrow> string \<Rightarrow> bool" where
  "js_includes [] p = (p = [])"
| "js_includes (c # s) p = (js_starts_with (c # s) p \<or> js_includes s p)"

text \<open>The pattern of four groups of one to three digits with dots between them.\<close>

definition ascii_digit :: "char \<Rightarrow> bool" where
  "ascii_digit c \<longleftrightarrow> 48 \<le> (of_char c :: nat) \<and> (of_char c :: nat) \<le> 57"

definition dotted_quad :: "string \<Rightarrow> bool" where
  "dotted_quad s =
     (let ps = js_split CHR ''.'' s
      in length ps = 4 \<and> list_all (\<lambda>p. 1 \<le> length p \<and> length p \<le> 3 \<and> list_all ascii_digit p) ps)"

text \<open>\<open>indexOf\<close> of a character, and the two sides of its first occurrence.\<close>

definition split_first :: "char \<Rightarrow> string \<Rightarrow> (string \<times> string) option" where
  "split_first c s = (if c \<in> set s then Some (takeWhile (\<lambda>d. d \<noteq> c) s, tl (dropWhile (\<lambda>d. d \<noteq> c) s)) else None)"

lemma js_split_not_Nil [simp]: "js_split c s \<noteq> []"
  by (induction s) (auto split: list.split)

lemma js_join_split: "js_join [c] (js_split c s) = s"
proof (induction s)
  case Nil
  then show ?case by simp
next
  case (Cons d ds)
  then show ?case
    by (cases "js_split c ds"; cases "tl (js_split c ds)") auto
qed

lemma js_starts_with_append: "js_starts_with s p \<longleftrightarrow> (\<exists>r. s = p @ r)"
  by (induction s p rule: js_starts_with.induct) auto

text \<open>The decimal numeral of a natural number, as template literals print it.\<close>

fun digits :: "nat \<Rightarrow> string" where
  "digits n = (if n < 10 then [char_of (n + 48)] else digits (n div 10) @ [char_of (n mod 10 + 48)])"

declare digits.simps [simp del]

definition show_int :: "int \<Rightarrow> string" where
  "show_int i = (if i < 0 then ''-'' @ digits (nat (- i)) else digits (nat i))"

section \<open>Insertion-ordered maps\<close>

text \<open>
  A \<open>Map\<close> keeps its entries in insertion order; \<open>set\<close> on a present key replaces the value in
  place and on a new key appends. These are the association-list operations of the library.
\<close>

type_synonym ('k, 'v) js_map = "('k \<times> 'v) list"

abbreviation map_get :: "('k, 'v) js_map \<Rightarrow> 'k \<Rightarrow> 'v option" where
  "map_get m k \<equiv> map_of m k"

abbreviation map_set :: "('k, 'v) js_map \<Rightarrow> 'k \<Rightarrow> 'v \<Rightarrow> ('k, 'v) js_map" where
  "map_set m k v \<equiv> AList.update k v m"

abbreviation map_delete :: "('k, 'v) js_map \<Rightarrow> 'k \<Rightarrow> ('k, 'v) js_map" where
  "map_delete m k \<equiv> AList.delete k m"

abbreviation map_keys :: "('k, 'v) js_map \<Rightarrow> 'k list" where
  "map_keys m \<equiv> map fst m"

abbreviation map_values :: "('k, 'v) js_map \<Rightarrow> 'v list" where
  "map_values m \<equiv> map snd m"

definition wf_map :: "('k, 'v) js_map \<Rightarrow> bool" where
  "wf_map m \<longleftrightarrow> distinct (map_keys m)"

lemma wf_map_Nil [simp]: "wf_map []"
  by (simp add: wf_map_def)

lemma map_get_set [simp]: "map_get (map_set m k v) k' = (if k' = k then Some v else map_get m k')"
  by (simp add: update_conv')

lemma map_get_delete [simp]: "map_get (map_delete m k) k' = (if k' = k then None else map_get m k')"
  by (simp add: delete_conv')

lemma wf_map_set [simp]: "wf_map m \<Longrightarrow> wf_map (map_set m k v)"
  by (simp add: wf_map_def distinct_update)

lemma wf_map_delete [simp]: "wf_map m \<Longrightarrow> wf_map (map_delete m k)"
  by (simp add: wf_map_def distinct_delete)

lemma map_get_in_values: "map_get m k = Some v \<Longrightarrow> v \<in> set (map_values m)"
  by (force dest: map_of_SomeD)

lemma list_all_map_set: "list_all P m \<Longrightarrow> P (k, v) \<Longrightarrow> list_all P (map_set m k v)"
  by (induction m) (auto split: if_splits)

lemma map_get_filter: "map_get m k = Some v \<Longrightarrow> P (k, v) \<Longrightarrow> map_get (filter P m) k = Some v"
  by (induction m) (auto split: if_splits)

lemma map_set_values:
  "map_get m k = None \<Longrightarrow> map_values (map_set m k v) = map_values m @ [v]"
  by (induction m) (auto split: if_splits)

text \<open>
  How a quantity summed over the values of a map changes with one \<open>set\<close> or one \<open>delete\<close>.
\<close>

lemma sum_map_set:
  fixes f :: "'v \<Rightarrow> 'n :: ab_group_add"
  assumes "wf_map m"
  shows "sum_list (map (f \<circ> snd) (map_set m k v)) =
    sum_list (map (f \<circ> snd) m) + f v - (case map_get m k of None \<Rightarrow> 0 | Some w \<Rightarrow> f w)"
  using assms
proof (induction m)
  case Nil
  then show ?case by simp
next
  case (Cons p m)
  then show ?case by (cases p) (auto simp: wf_map_def algebra_simps split: option.splits)
qed

lemma sum_map_delete:
  fixes f :: "'v \<Rightarrow> int"
  assumes "wf_map m"
  shows "sum_list (map (f \<circ> snd) (map_delete m k)) =
    sum_list (map (f \<circ> snd) m) - (case map_get m k of None \<Rightarrow> 0 | Some w \<Rightarrow> f w)"
  using assms
proof (induction m)
  case Nil
  then show ?case by simp
next
  case (Cons p m)
  then show ?case
    by (cases p) (auto simp: wf_map_def delete_idem split: option.splits)
qed

section \<open>Optional fields\<close>

text \<open>The operator \<open>??\<close>: the right operand where the left one is \<open>null\<close> or \<open>undefined\<close>.\<close>

definition or_else :: "'a option \<Rightarrow> 'a \<Rightarrow> 'a" where
  "or_else x d = (case x of None \<Rightarrow> d | Some v \<Rightarrow> v)"

lemma or_else_simps [simp]: "or_else None d = d" "or_else (Some v) d = v"
  by (simp_all add: or_else_def)

text \<open>A string where it is truthy: present and not empty.\<close>

definition truthy_text :: "string option \<Rightarrow> string option" where
  "truthy_text x = (case x of None \<Rightarrow> None | Some s \<Rightarrow> if s = [] then None else Some s)"

text \<open>An operation that may refuse: the state is kept where it does.\<close>

definition attempt :: "('s \<Rightarrow> 'e \<Rightarrow> 's option) \<Rightarrow> 's \<Rightarrow> 'e \<Rightarrow> 's" where
  "attempt f s e = or_else (f s e) s"

lemma attempt_cases:
  obtains (refused) "attempt f s e = s" "f s e = None"
  | (accepted) s' where "attempt f s e = s'" "f s e = Some s'"
  by (cases "f s e") (auto simp: attempt_def)

section \<open>Components as machines\<close>

text \<open>
  The contract of a component with private state: an invariant that its initial state satisfies and
  that each of its operations keeps, on the calls \<open>pre\<close> admits. It then holds after every
  sequence of such calls.
\<close>

locale machine =
  fixes init :: 's
    and step :: "'s \<Rightarrow> 'e \<Rightarrow> 's"
    and inv :: "'s \<Rightarrow> bool"
    and pre :: "'e \<Rightarrow> bool"
  assumes inv_init: "inv init"
    and inv_step: "inv s \<Longrightarrow> pre e \<Longrightarrow> inv (step s e)"
begin

lemma inv_run: "inv s \<Longrightarrow> list_all pre es \<Longrightarrow> inv (foldl step s es)"
  by (induction es arbitrary: s) (simp_all add: inv_step)

lemma inv_reachable: "list_all pre es \<Longrightarrow> inv (foldl step init es)"
  by (rule inv_run [OF inv_init])

end

text \<open>
  A machine that accounts for what it is given: \<open>acct\<close> starts at zero and each admitted operation
  adds its amount. After every sequence of calls the accounted quantity is the sum of the amounts.
\<close>

locale ledger = machine init step inv pre
  for init :: 's and step :: "'s \<Rightarrow> 'e \<Rightarrow> 's" and inv :: "'s \<Rightarrow> bool" and pre :: "'e \<Rightarrow> bool" +
  fixes acct :: "'s \<Rightarrow> int"
    and amount :: "'e \<Rightarrow> int"
  assumes acct_init: "acct init = 0"
    and acct_step: "inv s \<Longrightarrow> pre e \<Longrightarrow> acct (step s e) = acct s + amount e"
begin

lemma acct_run:
  "inv s \<Longrightarrow> list_all pre es \<Longrightarrow> acct (foldl step s es) = acct s + sum_list (map amount es)"
  by (induction es arbitrary: s) (simp_all add: acct_step inv_step)

lemma acct_reachable: "list_all pre es \<Longrightarrow> acct (foldl step init es) = sum_list (map amount es)"
  by (simp add: acct_run [OF inv_init] acct_init)

end

text \<open>
  A machine that implements an abstract one: \<open>abs\<close> reads the abstract state off the concrete one
  and commutes with every admitted operation. Then the abstract run can stand for the concrete run.
\<close>

locale refinement = machine init step inv pre
  for init :: 's and step :: "'s \<Rightarrow> 'e \<Rightarrow> 's" and inv :: "'s \<Rightarrow> bool" and pre :: "'e \<Rightarrow> bool" +
  fixes astep :: "'a \<Rightarrow> 'e \<Rightarrow> 'a"
    and abs :: "'s \<Rightarrow> 'a"
  assumes abs_step: "inv s \<Longrightarrow> pre e \<Longrightarrow> abs (step s e) = astep (abs s) e"
begin

lemma abs_run: "inv s \<Longrightarrow> list_all pre es \<Longrightarrow> abs (foldl step s es) = foldl astep (abs s) es"
  by (induction es arbitrary: s) (simp_all add: abs_step inv_step)

lemma abs_reachable: "list_all pre es \<Longrightarrow> abs (foldl step init es) = foldl astep (abs init) es"
  by (rule abs_run [OF inv_init])

end

lemma list_all_True [simp]: "list_all (\<lambda>_. True) xs"
  by (simp add: list_all_iff)

text \<open>
  A map of entries, each with an operation that may refuse: the calls for one key act on its entry
  in their order, and nothing else does.
\<close>

definition keyed_step :: "('k \<Rightarrow> 'p \<Rightarrow> 'e \<Rightarrow> 'p option) \<Rightarrow> ('k, 'p) js_map \<Rightarrow> 'k \<times> 'e \<Rightarrow> ('k, 'p) js_map" where
  "keyed_step f m c =
     (case map_get m (fst c) of None \<Rightarrow> m
      | Some p \<Rightarrow> (case f (fst c) p (snd c) of None \<Rightarrow> m | Some p' \<Rightarrow> map_set m (fst c) p'))"

lemma keyed_run:
  "map_get m k = Some p \<Longrightarrow>
     map_get (foldl (keyed_step f) m cs) k = Some (foldl (attempt (f k)) p (map snd (filter (\<lambda>c. fst c = k) cs)))"
proof (induction cs arbitrary: m p)
  case Nil
  then show ?case by simp
next
  case (Cons c cs)
  have "map_get (keyed_step f m c) k = Some (if fst c = k then attempt (f k) p (snd c) else p)"
    using Cons.prems by (auto simp: keyed_step_def attempt_def or_else_def split: option.split)
  with Cons.IH show ?case by simp
qed

section \<open>Untrusted values\<close>

text \<open>
  A value of type \<^verbatim>\<open>unknown\<close>: what a JSON body can hold, and \<open>undefined\<close>. Reading a
  field of anything but an object gives \<open>undefined\<close> (the fields the program reads are not among the
  names that strings, arrays and functions inherit).
\<close>

datatype js_value =
    JUndefined | JNull | JBool bool | JNum rat | JStr string | JArr "js_value list" | JObj "(string \<times> js_value) list"

definition js_field :: "js_value \<Rightarrow> string \<Rightarrow> js_value" where
  "js_field v k = (case v of JObj kvs \<Rightarrow> or_else (map_get kvs k) JUndefined | _ \<Rightarrow> JUndefined)"

text \<open>\<open>typeof v === "number" && Number.isInteger(v)\<close>, with its value.\<close>

definition js_integer :: "js_value \<Rightarrow> int option" where
  "js_integer v = (case v of JNum x \<Rightarrow> if of_int \<lfloor>x\<rfloor> = x then Some \<lfloor>x\<rfloor> else None | _ \<Rightarrow> None)"

text \<open>\<open>v === undefined || v === null\<close>.\<close>

definition js_absent :: "js_value \<Rightarrow> bool" where
  "js_absent v = (case v of JUndefined \<Rightarrow> True | JNull \<Rightarrow> True | _ \<Rightarrow> False)"

end
