(* ===== verification/Tranche.thy ===== *)
theory Tranche
  imports Prelude
begin

text \<open>
  The waterfall distribution of \<^verbatim>\<open>backend/src/services/trancheDistribution.ts\<close>: the fixed-point
  split \<open>distributeWaterfall\<close> over bigints and the class \<open>TrancheDustLedger\<close>, whose private
  fields are the record \<open>dust_ledger\<close> and whose method \<open>distribute\<close> returns the new fields
  with its result. The lemmas show that no stroop is lost by a split, how large the dust can be, and
  what the ledger's totals account for over many cycles under each dust policy.
\<close>

section \<open>One split\<close>

datatype dust_policy = Sweep_treasury | Carry_forward

record waterfall_result =
  payouts :: "int list"
  dust :: int
  treasuryDust :: int
  carriedDust :: int

definition distributeWaterfall :: "int \<Rightarrow> int list \<Rightarrow> dust_policy \<Rightarrow> js_error + waterfall_result" where
  "distributeWaterfall tot weights policy =
     (if tot < 0 then Inl (ErrorMsg ''total must be non-negative'')
      else if length weights = 0 then Inl (ErrorMsg ''at least one tranche weight is required'')
      else if list_ex (\<lambda>w. w < 0) weights then Inl (ErrorMsg ''weights must be non-negative'')
      else let totalWeight = foldl (+) 0 weights in
        if totalWeight \<le> 0 then
          Inr \<lparr>payouts = map (\<lambda>_. 0) weights, dust = tot,
               treasuryDust = (if policy = Sweep_treasury then tot else 0),
               carriedDust = (if policy = Carry_forward then tot else 0)\<rparr>
        else
          let ps = map (\<lambda>w. tdiv (tot * w) totalWeight) weights;
              paid = foldl (+) 0 ps;
              d = tot - paid
          in Inr \<lparr>payouts = ps, dust = d,
                  treasuryDust = (if policy = Sweep_treasury then d else 0),
                  carriedDust = (if policy = Carry_forward then d else 0)\<rparr>)"

text \<open>The calls that do not throw.\<close>

definition valid_weights :: "int list \<Rightarrow> bool" where
  "valid_weights ws \<longleftrightarrow> ws \<noteq> [] \<and> list_all (\<lambda>w. 0 \<le> w) ws"

lemma foldl_plus: "foldl (+) a (xs :: int list) = a + sum_list xs"
  by (induction xs arbitrary: a) (simp_all add: add.assoc)

lemma valid_weights_no_ex: "valid_weights ws \<Longrightarrow> \<not> list_ex (\<lambda>w. w < 0) ws"
  by (induction ws) (auto simp: valid_weights_def list_ex_iff list_all_iff not_less)

lemma valid_weights_iff: "valid_weights ws \<longleftrightarrow> length ws \<noteq> 0 \<and> \<not> list_ex (\<lambda>w. w < 0) ws"
  by (auto simp: valid_weights_def list_ex_iff list_all_iff not_less)

lemma waterfall_error_iff:
  "(\<exists>e. distributeWaterfall tot ws p = Inl e) \<longleftrightarrow> tot < 0 \<or> \<not> valid_weights ws"
  by (auto simp: distributeWaterfall_def valid_weights_iff Let_def)

lemma waterfall_conserves:
  "distributeWaterfall tot ws p = Inr r \<Longrightarrow> sum_list (payouts r) + dust r = tot"
  by (auto simp: distributeWaterfall_def Let_def foldl_plus split: if_splits)

lemma waterfall_policy:
  "distributeWaterfall tot ws p = Inr r \<Longrightarrow>
     (p = Sweep_treasury \<longrightarrow> treasuryDust r = dust r \<and> carriedDust r = 0) \<and>
     (p = Carry_forward \<longrightarrow> carriedDust r = dust r \<and> treasuryDust r = 0)"
  by (cases p) (auto simp: distributeWaterfall_def Let_def split: if_splits)

lemma sum_mods_eq:
  fixes W :: int
  assumes "0 < W"
  shows "sum_list (map (\<lambda>w. (a * w) mod W) ws) = a * sum_list ws - W * sum_list (map (\<lambda>w. (a * w) div W) ws)"
  by (induction ws) (simp_all add: algebra_simps minus_div_mult_eq_mod [symmetric])

lemma sum_mods_bounds:
  fixes W :: int
  assumes "0 < W" "ws \<noteq> []"
  shows "0 \<le> sum_list (map (\<lambda>w. (a * w) mod W) ws)"
    and "sum_list (map (\<lambda>w. (a * w) mod W) ws) < W * int (length ws)"
proof -
  show "0 \<le> sum_list (map (\<lambda>w. (a * w) mod W) ws)"
    using assms by (intro sum_list_nonneg) auto
  show "sum_list (map (\<lambda>w. (a * w) mod W) ws) < W * int (length ws)"
    using assms(2)
  proof (induction ws rule: list_nonempty_induct)
    case (single x)
    then show ?case using assms(1) by simp
  next
    case (cons x xs)
    moreover have "(a * x) mod W < W" using assms(1) by simp
    ultimately show ?case by (simp add: algebra_simps)
  qed
qed

lemma floor_split_dust:
  fixes W :: int
  assumes "0 < W" "ws \<noteq> []" "sum_list ws = W"
  shows "0 \<le> a - sum_list (map (\<lambda>w. (a * w) div W) ws)"
    and "a - sum_list (map (\<lambda>w. (a * w) div W) ws) < int (length ws)"
proof -
  let ?d = "a - sum_list (map (\<lambda>w. (a * w) div W) ws)"
  have "W * ?d = sum_list (map (\<lambda>w. (a * w) mod W) ws)"
    by (simp add: sum_mods_eq [OF assms(1)] assms(3) right_diff_distrib mult.commute [of a W])
  with sum_mods_bounds [OF assms(1,2), of a] have "0 \<le> W * ?d" "W * ?d < W * int (length ws)"
    by simp_all
  with assms(1) show "0 \<le> ?d" "?d < int (length ws)"
    by (simp_all add: zero_le_mult_iff)
qed

lemma waterfall_Inr:
  assumes "0 \<le> tot" "valid_weights ws" "0 < sum_list ws"
  shows "distributeWaterfall tot ws p =
    Inr \<lparr>payouts = map (\<lambda>w. (tot * w) div sum_list ws) ws,
         dust = tot - sum_list (map (\<lambda>w. (tot * w) div sum_list ws) ws),
         treasuryDust = (if p = Sweep_treasury
           then tot - sum_list (map (\<lambda>w. (tot * w) div sum_list ws) ws) else 0),
         carriedDust = (if p = Carry_forward
           then tot - sum_list (map (\<lambda>w. (tot * w) div sum_list ws) ws) else 0)\<rparr>"
proof -
  have "map (\<lambda>w. tdiv (tot * w) (sum_list ws)) ws = map (\<lambda>w. (tot * w) div sum_list ws) ws"
    using assms by (intro map_cong refl tdiv_nonneg) (auto simp: valid_weights_def list_all_iff)
  moreover have "foldl (+) 0 ws = sum_list ws" by (simp add: foldl_plus)
  ultimately show ?thesis
    using assms unfolding distributeWaterfall_def valid_weights_iff Let_def
    by (simp only: foldl_plus if_False not_less [symmetric] add_0) simp
qed

lemma waterfall_zero:
  assumes "0 \<le> tot" "valid_weights ws" "sum_list ws \<le> 0"
  shows "distributeWaterfall tot ws p =
    Inr \<lparr>payouts = map (\<lambda>_. 0) ws, dust = tot,
         treasuryDust = (if p = Sweep_treasury then tot else 0),
         carriedDust = (if p = Carry_forward then tot else 0)\<rparr>"
  using assms by (simp add: distributeWaterfall_def valid_weights_iff foldl_plus Let_def)

lemma waterfall_dust_nonneg:
  assumes "distributeWaterfall tot ws p = Inr r"
  shows "0 \<le> dust r"
proof -
  from assms have ok: "0 \<le> tot" "valid_weights ws"
    by (auto simp: distributeWaterfall_def valid_weights_iff split: if_splits)
  show ?thesis
  proof (cases "0 < sum_list ws")
    case True
    moreover have "ws \<noteq> []" using ok by (simp add: valid_weights_def)
    ultimately show ?thesis
      using assms waterfall_Inr [OF ok, of p] floor_split_dust(1) [of "sum_list ws" ws tot] by auto
  next
    case False
    with assms waterfall_zero [OF ok, of p] ok show ?thesis by auto
  qed
qed

section \<open>The dust ledger\<close>

record dust_ledger =
  lg_policy :: dust_policy
  lg_carried :: int
  lg_sweptTotal :: int
  lg_distributedTotal :: int
  lg_paidTotal :: int

definition new_ledger :: "dust_policy \<Rightarrow> dust_ledger" where
  "new_ledger p = \<lparr>lg_policy = p, lg_carried = 0, lg_sweptTotal = 0, lg_distributedTotal = 0,
     lg_paidTotal = 0\<rparr>"

definition distribute :: "dust_ledger \<Rightarrow> int \<Rightarrow> int list \<Rightarrow> js_error + (dust_ledger \<times> waterfall_result)" where
  "distribute l tot weights =
     (let effective = tot + (if lg_policy l = Carry_forward then lg_carried l else 0) in
      case distributeWaterfall effective weights (lg_policy l) of
        Inl e \<Rightarrow> Inl e
      | Inr result \<Rightarrow>
          let l1 = (if lg_policy l = Carry_forward then l\<lparr>lg_carried := carriedDust result\<rparr>
                    else l\<lparr>lg_sweptTotal := lg_sweptTotal l + treasuryDust result\<rparr>);
              l2 = l1\<lparr>lg_distributedTotal := lg_distributedTotal l1 + effective\<rparr>;
              l3 = l2\<lparr>lg_paidTotal := lg_paidTotal l2 + foldl (+) 0 (payouts result)\<rparr>
          in Inr (l3, result))"

definition accountedTotal :: "dust_ledger \<Rightarrow> int" where
  "accountedTotal l = lg_paidTotal l + lg_sweptTotal l + lg_carried l"

text \<open>One call as a step: a call that throws leaves the fields as they were.\<close>

definition ledger_step :: "dust_ledger \<Rightarrow> int \<times> int list \<Rightarrow> dust_ledger" where
  "ledger_step l e = (case distribute l (fst e) (snd e) of Inl _ \<Rightarrow> l | Inr (l', _) \<Rightarrow> l')"

definition ledger_inv :: "dust_policy \<Rightarrow> dust_ledger \<Rightarrow> bool" where
  "ledger_inv p l \<longleftrightarrow> lg_policy l = p \<and> 0 \<le> lg_carried l \<and>
     (p = Sweep_treasury \<longrightarrow> lg_carried l = 0 \<and> lg_distributedTotal l = accountedTotal l) \<and>
     (p = Carry_forward \<longrightarrow> lg_sweptTotal l = 0)"

definition cycle_amount :: "int \<times> int list \<Rightarrow> int" where
  "cycle_amount e = (if valid_weights (snd e) then fst e else 0)"

lemma ledger_step_cases:
  assumes "ledger_inv p l" "0 \<le> fst e"
  shows "ledger_inv p (ledger_step l e)"
    and "accountedTotal (ledger_step l e) = accountedTotal l + cycle_amount e"
proof -
  let ?eff = "fst e + (if lg_policy l = Carry_forward then lg_carried l else 0)"
  have eff: "0 \<le> ?eff" using assms by (simp add: ledger_inv_def)
  have "ledger_inv p (ledger_step l e) \<and>
    accountedTotal (ledger_step l e) = accountedTotal l + cycle_amount e"
  proof (cases "distributeWaterfall ?eff (snd e) (lg_policy l)")
    case (Inl x)
    with eff waterfall_error_iff [of ?eff "snd e" "lg_policy l"] have "\<not> valid_weights (snd e)"
      by auto
    with Inl assms show ?thesis
      by (simp add: ledger_step_def distribute_def cycle_amount_def)
  next
    case (Inr r)
    have "valid_weights (snd e)"
      using Inr waterfall_error_iff [of ?eff "snd e" "lg_policy l"] by auto
    with Inr assms waterfall_conserves [OF Inr] waterfall_policy [OF Inr] waterfall_dust_nonneg [OF Inr]
    show ?thesis
      by (cases p)
        (auto simp: ledger_step_def distribute_def cycle_amount_def ledger_inv_def
          accountedTotal_def foldl_plus Let_def)
  qed
  then show "ledger_inv p (ledger_step l e)"
    and "accountedTotal (ledger_step l e) = accountedTotal l + cycle_amount e" by simp_all
qed

interpretation sweep: ledger "new_ledger Sweep_treasury" ledger_step "ledger_inv Sweep_treasury"
    "\<lambda>e. 0 \<le> fst e" accountedTotal cycle_amount
  by unfold_locales
    (auto simp: ledger_step_cases, simp_all add: ledger_inv_def new_ledger_def accountedTotal_def)

interpretation carry: ledger "new_ledger Carry_forward" ledger_step "ledger_inv Carry_forward"
    "\<lambda>e. 0 \<le> fst e" accountedTotal cycle_amount
  by unfold_locales
    (auto simp: ledger_step_cases, simp_all add: ledger_inv_def new_ledger_def accountedTotal_def)

section \<open>Properties\<close>



text \<open>
  C2. Over any sequence of cycles with non-negative totals the ledger accounts for exactly what it
  was given, whichever dust policy it runs: what was paid, swept and is still carried is the sum of
  the totals of the accepted cycles.
\<close>

theorem ledger_accounts_for_inputs:
  assumes "list_all (\<lambda>e. 0 \<le> fst e) es"
  shows "accountedTotal (foldl ledger_step (new_ledger p) es) = sum_list (map cycle_amount es)"
  using sweep.acct_reachable [OF assms] carry.acct_reachable [OF assms] by (cases p) simp_all

theorem ledger_accounts_for_inputs_witness:
  "accountedTotal (foldl ledger_step (new_ledger Carry_forward) [(10, [1, 1, 1]), (10, [1, 1, 1])]) = 20"
  using ledger_accounts_for_inputs [of "[(10, [1, 1, 1]), (10, [1, 1, 1])]" Carry_forward]
  by (simp add: cycle_amount_def valid_weights_def)

text \<open>
  The stated conservation invariant, \<open>paid + (swept | carried) = distributed\<close>, holds under
  the sweep policy after every sequence of cycles, and fails under the carry-forward policy: there
  the dust a cycle carries over is counted again in the next cycle's \<open>distributed\<close> total.
\<close>

theorem ledger_distributed_invariant:
  "(list_all (\<lambda>e. 0 \<le> fst e) es \<longrightarrow>
      lg_distributedTotal (foldl ledger_step (new_ledger Sweep_treasury) es) =
      accountedTotal (foldl ledger_step (new_ledger Sweep_treasury) es)) \<and>
   lg_distributedTotal (foldl ledger_step (new_ledger Carry_forward) [(10, [1, 1, 1]), (10, [1, 1, 1])]) \<noteq>
   accountedTotal (foldl ledger_step (new_ledger Carry_forward) [(10, [1, 1, 1]), (10, [1, 1, 1])])"
proof -
  have "lg_distributedTotal (foldl ledger_step (new_ledger Sweep_treasury) es) =
      accountedTotal (foldl ledger_step (new_ledger Sweep_treasury) es)"
    if "list_all (\<lambda>e. 0 \<le> fst e) es"
    using sweep.inv_reachable [OF that] by (simp add: ledger_inv_def)
  moreover have "lg_distributedTotal
      (foldl ledger_step (new_ledger Carry_forward) [(10, [1, 1, 1]), (10, [1, 1, 1])]) = 21"
    by (simp add: ledger_step_def distribute_def distributeWaterfall_def new_ledger_def tdiv_def)
  moreover have "accountedTotal
      (foldl ledger_step (new_ledger Carry_forward) [(10, [1, 1, 1]), (10, [1, 1, 1])]) = 20"
    by (simp add: ledger_step_def distribute_def distributeWaterfall_def new_ledger_def tdiv_def
        accountedTotal_def)
  ultimately show ?thesis by simp
qed

theorem ledger_distributed_invariant_witness:
  "lg_distributedTotal (foldl ledger_step (new_ledger Sweep_treasury) [(10, [1, 1, 1])]) =
   accountedTotal (foldl ledger_step (new_ledger Sweep_treasury) [(10, [1, 1, 1])])"
  using ledger_distributed_invariant [of "[(10, [1, 1, 1])]"] by simp

end
