(* ===== verification/Amortization.thy ===== *)
theory Amortization
  imports Prelude
begin

text \<open>
  The loan schedule of \<^verbatim>\<open>frontend/src/lib/amortization.ts\<close>, in bigint stroops (\<open>int\<close>), with
  the interest rate and the term as numbers (\<open>rat\<close>) that the code truncates. The record
  \<open>schedule_terms\<close> holds the constants of the schedule loop and the three accumulators of the loop
  are arguments of \<open>schedule_loop\<close>. The lemmas give the exact list of installments, show that each
  row splits into principal and interest, and that the rows close at the total owed.
\<close>

section \<open>Data\<close>

definition STROOPS_PER_UNIT :: int where
  "STROOPS_PER_UNIT = 10000000"

definition BPS_SCALE :: int where
  "BPS_SCALE = 10000"

datatype payment_status = Paid | Due | Upcoming

record amortization_row =
  row_month :: int
  row_payment :: int
  row_principal :: int
  row_interest :: int
  row_remainingPrincipal :: int
  row_remainingBalance :: int
  row_cumulativeInterest :: int
  row_status :: payment_status

record amortization_summary =
  sm_monthlyPayment :: int
  sm_totalInterest :: int
  sm_totalRepayment :: int
  sm_amountPaid :: int
  sm_amountRemaining :: int

record amortization_input =
  in_principal :: int
  in_interestRateBps :: rat
  in_durationMonths :: rat
  in_paymentsMade :: "int option"

record amortization_schedule =
  sc_rows :: "amortization_row list"
  sc_summary :: amortization_summary

section \<open>Operations\<close>

definition calculateTotalInterest :: "int \<Rightarrow> rat \<Rightarrow> int" where
  "calculateTotalInterest princ interestRateBps =
     (if princ \<le> 0 \<or> interestRateBps \<le> 0 then 0
      else tdiv (princ * js_trunc interestRateBps) BPS_SCALE)"

text \<open>The divisor is zero, and the division throws, for a term strictly between 0 and 1.\<close>

definition calculateMonthlyPayment :: "int \<Rightarrow> rat \<Rightarrow> rat \<Rightarrow> js_error + int" where
  "calculateMonthlyPayment princ interestRateBps durationMonths =
     (if princ \<le> 0 \<or> durationMonths \<le> 0 then Inr 0
      else let totalOwed = princ + calculateTotalInterest princ interestRateBps
           in bigint_div totalOwed (js_trunc durationMonths))"

record schedule_terms =
  t_principal :: int
  t_months :: int
  t_totalInterest :: int
  t_totalRepayment :: int
  t_monthlyPayment :: int
  t_interestPerMonth :: int
  t_principalPerMonth :: int
  t_paymentsMade :: int

definition row_status_of :: "int \<Rightarrow> int \<Rightarrow> payment_status" where
  "row_status_of month paymentsMade =
     (if month \<le> paymentsMade then Paid else if month = paymentsMade + 1 then Due else Upcoming)"

fun schedule_loop :: "schedule_terms \<Rightarrow> int list \<Rightarrow> int \<Rightarrow> int \<Rightarrow> int \<Rightarrow> amortization_row list" where
  "schedule_loop t [] principalPaid cumulativeInterest paidSoFar = []"
| "schedule_loop t (month # ms) principalPaid cumulativeInterest paidSoFar =
     (let isFinal = (month = t_months t);
          pay = (if isFinal then t_totalRepayment t - paidSoFar else t_monthlyPayment t);
          interestPortion = (if isFinal then t_totalInterest t - cumulativeInterest
                             else t_interestPerMonth t);
          principalPortion = (if isFinal then pay - interestPortion else t_principalPerMonth t);
          principalPaid' = principalPaid + principalPortion;
          cumulativeInterest' = cumulativeInterest + interestPortion;
          paidSoFar' = paidSoFar + pay
      in \<lparr>row_month = month, row_payment = pay, row_principal = principalPortion,
          row_interest = interestPortion,
          row_remainingPrincipal = t_principal t - principalPaid',
          row_remainingBalance = t_totalRepayment t - paidSoFar',
          row_cumulativeInterest = cumulativeInterest',
          row_status = row_status_of month (t_paymentsMade t)\<rparr>
         # schedule_loop t ms principalPaid' cumulativeInterest' paidSoFar')"

definition terms_of :: "int \<Rightarrow> rat \<Rightarrow> int \<Rightarrow> int \<Rightarrow> schedule_terms" where
  "terms_of princ rate months made =
     (let totalInterest = calculateTotalInterest princ rate;
          totalRepayment = princ + totalInterest;
          monthlyPayment = tdiv totalRepayment months;
          interestPerMonth = tdiv totalInterest months
      in \<lparr>t_principal = princ, t_months = months, t_totalInterest = totalInterest,
          t_totalRepayment = totalRepayment, t_monthlyPayment = monthlyPayment,
          t_interestPerMonth = interestPerMonth,
          t_principalPerMonth = monthlyPayment - interestPerMonth, t_paymentsMade = made\<rparr>)"

definition buildAmortizationSchedule :: "amortization_input \<Rightarrow> amortization_schedule" where
  "buildAmortizationSchedule i =
     (let months = max 0 (js_trunc (in_durationMonths i)) in
      if in_principal i \<le> 0 \<or> months = 0 then
        \<lparr>sc_rows = [], sc_summary = \<lparr>sm_monthlyPayment = 0, sm_totalInterest = 0,
           sm_totalRepayment = 0, sm_amountPaid = 0, sm_amountRemaining = 0\<rparr>\<rparr>
      else
        let t = terms_of (in_principal i) (in_interestRateBps i) months (or_else (in_paymentsMade i) 0);
            rows = schedule_loop t [1..months] 0 0 0;
            amountPaid = foldl (\<lambda>s r. s + row_payment r) 0 (filter (\<lambda>r. row_status r = Paid) rows)
        in \<lparr>sc_rows = rows,
            sc_summary = \<lparr>sm_monthlyPayment = t_monthlyPayment t, sm_totalInterest = t_totalInterest t,
              sm_totalRepayment = t_totalRepayment t, sm_amountPaid = amountPaid,
              sm_amountRemaining = t_totalRepayment t - amountPaid\<rparr>\<rparr>)"

section \<open>Rendering a stroop amount\<close>

text \<open>
  \<open>toLocaleString("en-US")\<close> on a bigint groups the digits by three with commas; \<open>padStart\<close>
  fills on the left. A negative \<open>decimals\<close> makes the exponentiation throw.
\<close>

function group_thousands :: "string \<Rightarrow> string" where
  "group_thousands s =
     (if length s \<le> 3 then s
      else group_thousands (take (length s - 3) s) @ '','' @ drop (length s - 3) s)"
  by pat_completeness auto
termination
  by (relation "measure length") auto

declare group_thousands.simps [simp del]

definition pad_start :: "nat \<Rightarrow> char \<Rightarrow> string \<Rightarrow> string" where
  "pad_start n c s = replicate (n - length s) c @ s"

definition formatStroops :: "int \<Rightarrow> int \<Rightarrow> js_error + string" where
  "formatStroops stroops decimals =
     (let negative = stroops < 0;
          absolute = (if negative then - stroops else stroops);
          whole = tdiv absolute STROOPS_PER_UNIT;
          remainder = absolute mod STROOPS_PER_UNIT
      in if decimals < 0 then Inl RangeError
         else
           let scale = 10 ^ nat decimals;
               fraction = (if decimals > 0 then tdiv (remainder * scale) STROOPS_PER_UNIT else 0);
               wholeText = group_thousands (show_int whole);
               fractionText = (if decimals > 0
                 then ''.'' @ pad_start (nat decimals) (CHR ''0'') (show_int fraction) else '''')
           in Inr ((if negative then ''-'' else '''') @ wholeText @ fractionText))"

section \<open>The shape of the schedule\<close>

lemma calculateTotalInterest_nonneg: "0 \<le> calculateTotalInterest p r"
proof (cases "p \<le> 0 \<or> r \<le> 0")
  case True
  then show ?thesis by (simp add: calculateTotalInterest_def)
next
  case False
  then have "0 \<le> p * js_trunc r" by (simp add: js_trunc_nonneg)
  with False show ?thesis
    by (simp add: calculateTotalInterest_def BPS_SCALE_def tdiv_nonneg pos_imp_zdiv_nonneg_iff)
qed

lemma calculateTotalInterest_floor:
  "0 < p \<Longrightarrow> 0 \<le> r \<Longrightarrow> calculateTotalInterest p r = (p * js_trunc r) div 10000"
  by (auto simp: calculateTotalInterest_def BPS_SCALE_def js_simps js_trunc_nonneg)

lemma schedule_loop_months: "map row_month (schedule_loop t ms pp ci paid) = ms"
  by (induction t ms pp ci paid rule: schedule_loop.induct) (simp_all add: Let_def)

text \<open>The last \<open>k + 1\<close> months of the loop, for the inductions below.\<close>

lemma upto_Suc_from: "[n - int (Suc k)..n] = (n - int (Suc k)) # [n - int k..n]"
  by (subst upto_rec1) (simp_all add: algebra_simps)

lemma schedule_loop_payments_from:
  "t_months t = n \<Longrightarrow> map row_payment (schedule_loop t [n - int k..n] pp ci paid) =
     replicate k (t_monthlyPayment t) @ [t_totalRepayment t - paid - int k * t_monthlyPayment t]"
proof (induction k arbitrary: pp ci paid)
  case 0
  then show ?case by (simp add: Let_def)
next
  case (Suc k)
  then show ?case unfolding upto_Suc_from by (simp add: Let_def distrib_right)
qed

lemma schedule_loop_interests_from:
  "t_months t = n \<Longrightarrow> map row_interest (schedule_loop t [n - int k..n] pp ci paid) =
     replicate k (t_interestPerMonth t) @ [t_totalInterest t - ci - int k * t_interestPerMonth t]"
proof (induction k arbitrary: pp ci paid)
  case 0
  then show ?case by (simp add: Let_def)
next
  case (Suc k)
  then show ?case unfolding upto_Suc_from by (simp add: Let_def distrib_right)
qed

lemma schedule_loop_last_from:
  assumes "t_months t = n" "paid = pp + ci"
    and "t_totalRepayment t = t_principal t + t_totalInterest t"
    and "t_principalPerMonth t = t_monthlyPayment t - t_interestPerMonth t"
  shows "let r = last (schedule_loop t [n - int k..n] pp ci paid) in
    row_remainingPrincipal r = 0 \<and> row_remainingBalance r = 0"
  using assms
proof (induction k arbitrary: pp ci paid)
  case 0
  then show ?case by (simp add: Let_def)
next
  case (Suc k)
  have ne: "schedule_loop t [n - int k..n] a b c \<noteq> []" for a b c
    using schedule_loop_months [of t "[n - int k..n]" a b c] by (auto simp: upto_rec1)
  show ?case
    using Suc.prems Suc.IH [of "paid + t_monthlyPayment t" "pp + t_principalPerMonth t"
        "ci + t_interestPerMonth t"] ne
    unfolding upto_Suc_from by (simp add: Let_def)
qed

text \<open>The whole loop, from month 1.\<close>

lemma upto_from_one: "0 < n \<Longrightarrow> [1..n] = [n - int (nat (n - 1))..n]"
  by simp

lemma schedule_loop_payments:
  assumes "0 < n" "t_months t = n"
  shows "map row_payment (schedule_loop t [1..n] 0 0 0) =
    replicate (nat (n - 1)) (t_monthlyPayment t) @
    [t_totalRepayment t - (n - 1) * t_monthlyPayment t]"
  unfolding upto_from_one [OF assms(1)] schedule_loop_payments_from [OF assms(2)]
  using assms(1) by simp

lemma schedule_loop_interests:
  assumes "0 < n" "t_months t = n"
  shows "map row_interest (schedule_loop t [1..n] 0 0 0) =
    replicate (nat (n - 1)) (t_interestPerMonth t) @
    [t_totalInterest t - (n - 1) * t_interestPerMonth t]"
  unfolding upto_from_one [OF assms(1)] schedule_loop_interests_from [OF assms(2)]
  using assms(1) by simp

lemma schedule_loop_split:
  assumes "t_principalPerMonth t = t_monthlyPayment t - t_interestPerMonth t"
  shows "list_all (\<lambda>r. row_principal r + row_interest r = row_payment r) (schedule_loop t ms pp ci paid)"
  using assms by (induction t ms pp ci paid rule: schedule_loop.induct) (simp_all add: Let_def)

lemma schedule_loop_status:
  "list_all (\<lambda>r. row_status r = row_status_of (row_month r) (t_paymentsMade t)) (schedule_loop t ms pp ci paid)"
  by (induction t ms pp ci paid rule: schedule_loop.induct) (simp_all add: Let_def)

lemma last_share_ge: "0 < n \<Longrightarrow> (a :: int) - (n - 1) * (a div n) = a div n + a mod n"
  using minus_mod_eq_mult_div [of a n] by (simp add: algebra_simps)

lemma sum_level_last:
  "0 < n \<Longrightarrow> sum_list (replicate (nat (n - 1)) (a div n) @ [a div n + a mod n]) = (a :: int)"
  using last_share_ge [of n a] by (simp add: sum_list_replicate algebra_simps)

lemma sum_row_split:
  "list_all (\<lambda>r. row_principal r + row_interest r = row_payment r) rs \<Longrightarrow>
     sum_list (map row_principal rs) + sum_list (map row_interest rs) = sum_list (map row_payment rs)"
  by (induction rs) (auto simp: algebra_simps)

text \<open>The bundle of facts about a schedule with a positive principal and at least one month.\<close>

lemma terms_of_sel:
  "t_principal (terms_of p r n k) = p" "t_months (terms_of p r n k) = n"
  "t_totalInterest (terms_of p r n k) = calculateTotalInterest p r"
  "t_totalRepayment (terms_of p r n k) = p + calculateTotalInterest p r"
  "t_paymentsMade (terms_of p r n k) = k"
  "t_principalPerMonth (terms_of p r n k) =
     t_monthlyPayment (terms_of p r n k) - t_interestPerMonth (terms_of p r n k)"
  by (simp_all add: terms_of_def Let_def)

lemma terms_of_monthly:
  assumes "0 < p" "0 < n"
  shows "t_monthlyPayment (terms_of p r n k) = (p + calculateTotalInterest p r) div n"
    and "t_interestPerMonth (terms_of p r n k) = calculateTotalInterest p r div n"
  using assms calculateTotalInterest_nonneg [of p r]
  by (simp_all add: terms_of_def Let_def tdiv_nonneg)

lemma build_rows:
  assumes "0 < in_principal i" "1 \<le> in_durationMonths i"
  shows "sc_rows (buildAmortizationSchedule i) =
    schedule_loop (terms_of (in_principal i) (in_interestRateBps i) (js_trunc (in_durationMonths i))
      (or_else (in_paymentsMade i) 0)) [1..js_trunc (in_durationMonths i)] 0 0 0"
    and "0 < js_trunc (in_durationMonths i)"
proof -
  show pos: "0 < js_trunc (in_durationMonths i)"
    using assms(2) by (simp add: js_trunc_def one_le_floor less_le_trans [OF zero_less_one])
  then have "max 0 (js_trunc (in_durationMonths i)) = js_trunc (in_durationMonths i)" by simp
  with assms(1) pos show "sc_rows (buildAmortizationSchedule i) =
    schedule_loop (terms_of (in_principal i) (in_interestRateBps i) (js_trunc (in_durationMonths i))
      (or_else (in_paymentsMade i) 0)) [1..js_trunc (in_durationMonths i)] 0 0 0"
    unfolding buildAmortizationSchedule_def Let_def by simp
qed

section \<open>Properties\<close>

text \<open>
  The schedule of a loan over \<open>n\<close> months has \<open>n\<close> rows; every row but the last charges the
  floor of the total owed over \<open>n\<close>, and the last one charges that plus the whole remainder of the
  division, so the rows add up to exactly principal plus interest.
\<close>

theorem schedule_installments:
  assumes "0 < in_principal i" "1 \<le> in_durationMonths i"
  shows "let n = js_trunc (in_durationMonths i);
             owed = in_principal i + calculateTotalInterest (in_principal i) (in_interestRateBps i);
             rows = sc_rows (buildAmortizationSchedule i)
         in map row_month rows = [1..n] \<and>
            map row_payment rows = replicate (nat (n - 1)) (owed div n) @ [owed div n + owed mod n] \<and>
            sum_list (map row_payment rows) = owed"
proof -
  let ?n = "js_trunc (in_durationMonths i)"
  let ?owed = "in_principal i + calculateTotalInterest (in_principal i) (in_interestRateBps i)"
  let ?rows = "sc_rows (buildAmortizationSchedule i)"
  note n = build_rows(2) [OF assms]
  have pay: "map row_payment ?rows = replicate (nat (?n - 1)) (?owed div ?n) @ [?owed div ?n + ?owed mod ?n]"
    using assms n by (simp add: build_rows(1) schedule_loop_payments terms_of_sel terms_of_monthly
        last_share_ge)
  moreover have "sum_list (map row_payment ?rows) = ?owed"
    using n unfolding pay by (rule sum_level_last)
  ultimately show ?thesis
    using assms by (simp add: Let_def build_rows(1) schedule_loop_months)
qed

theorem schedule_installments_witness:
  "sum_list (map row_payment (sc_rows (buildAmortizationSchedule
     \<lparr>in_principal = 1000, in_interestRateBps = 800, in_durationMonths = 12, in_paymentsMade = None\<rparr>))) = 1080"
  using schedule_installments [of "\<lparr>in_principal = 1000, in_interestRateBps = 800,
    in_durationMonths = 12, in_paymentsMade = None\<rparr>"]
  unfolding Let_def
  by (simp add: calculateTotalInterest_def BPS_SCALE_def tdiv_def sum_list_replicate)

text \<open>
  C8. Every row of a schedule splits its payment exactly into principal and interest, both
  non-negative, and the schedule closes: the interest rows add up to the total interest, the
  principal rows to the principal, and after the last row nothing remains owed.
\<close>

theorem schedule_rows_close:
  assumes "0 < in_principal i" "1 \<le> in_durationMonths i"
  shows "let rows = sc_rows (buildAmortizationSchedule i);
             interest = calculateTotalInterest (in_principal i) (in_interestRateBps i)
         in (\<forall>r \<in> set rows. row_principal r + row_interest r = row_payment r \<and> 0 \<le> row_interest r \<and> 0 \<le> row_payment r) \<and>
            sum_list (map row_interest rows) = interest \<and>
            sum_list (map row_principal rows) = in_principal i \<and>
            row_remainingPrincipal (last rows) = 0 \<and> row_remainingBalance (last rows) = 0"
  proof -
  let ?n = "js_trunc (in_durationMonths i)"
  let ?int = "calculateTotalInterest (in_principal i) (in_interestRateBps i)"
  let ?rows = "sc_rows (buildAmortizationSchedule i)"
  note n = build_rows(2) [OF assms] and rows = build_rows(1) [OF assms]
  have int0: "0 \<le> ?int" by (rule calculateTotalInterest_nonneg)
  have split: "list_all (\<lambda>r. row_principal r + row_interest r = row_payment r) ?rows"
    unfolding rows by (rule schedule_loop_split) (simp add: terms_of_sel)
  have ints: "map row_interest ?rows = replicate (nat (?n - 1)) (?int div ?n) @ [?int div ?n + ?int mod ?n]"
    using assms n by (simp add: rows schedule_loop_interests terms_of_sel terms_of_monthly last_share_ge)
  have pays: "map row_payment ?rows = replicate (nat (?n - 1)) ((in_principal i + ?int) div ?n)
      @ [(in_principal i + ?int) div ?n + (in_principal i + ?int) mod ?n]"
    using assms n by (simp add: rows schedule_loop_payments terms_of_sel terms_of_monthly last_share_ge)
  have "x \<in> set (map row_interest ?rows) \<Longrightarrow> 0 \<le> x" for x
    using n int0 unfolding ints by (auto simp: pos_imp_zdiv_nonneg_iff split: if_splits)
  moreover have "x \<in> set (map row_payment ?rows) \<Longrightarrow> 0 \<le> x" for x
    using n int0 assms(1) unfolding pays by (auto simp: pos_imp_zdiv_nonneg_iff split: if_splits)
  moreover have sint: "sum_list (map row_interest ?rows) = ?int"
    using n unfolding ints by (rule sum_level_last)
  moreover have spay: "sum_list (map row_payment ?rows) = in_principal i + ?int"
    using n unfolding pays by (rule sum_level_last)
  moreover have "sum_list (map row_principal ?rows) + sum_list (map row_interest ?rows) =
      sum_list (map row_payment ?rows)"
    using split by (rule sum_row_split)
  moreover have "row_remainingPrincipal (last ?rows) = 0 \<and> row_remainingBalance (last ?rows) = 0"
    using schedule_loop_last_from [of "terms_of (in_principal i) (in_interestRateBps i) ?n
      (or_else (in_paymentsMade i) 0)" ?n 0 0 0 "nat (?n - 1)"]
    unfolding rows upto_from_one [OF n] by (simp add: terms_of_sel Let_def)
  ultimately show ?thesis
    using split by (auto simp: Let_def list_all_iff)
qed

theorem schedule_rows_close_witness:
  "row_remainingBalance (last (sc_rows (buildAmortizationSchedule
     \<lparr>in_principal = 1000, in_interestRateBps = 800, in_durationMonths = 7, in_paymentsMade = Some 2\<rparr>))) = 0"
  using schedule_rows_close [of "\<lparr>in_principal = 1000, in_interestRateBps = 800,
    in_durationMonths = 7, in_paymentsMade = Some 2\<rparr>"]
  by (simp add: Let_def)

text \<open>
  The level installment is the floor of the total owed over the truncated term; a term
  strictly between 0 and 1 passes the guard and makes the bigint division throw.
\<close>

theorem monthly_payment_result:
  "calculateMonthlyPayment p r d =
     (if p \<le> 0 \<or> d \<le> 0 then Inr 0
      else if d < 1 then Inl RangeError
      else Inr ((p + calculateTotalInterest p r) div \<lfloor>d\<rfloor>))"
proof (cases "d < 1")
  case True
  then have "0 < d \<Longrightarrow> js_trunc d = 0"
    by (simp add: js_trunc_def floor_eq_iff)
  then show ?thesis
    using True by (auto simp: calculateMonthlyPayment_def Let_def bigint_div_def)
next
  case False
  then obtain n where "\<lfloor>d\<rfloor> = n" "js_trunc d = n" "1 \<le> n"
    by (simp add: js_trunc_def le_floor_iff)
  then show ?thesis
    using False calculateTotalInterest_nonneg [of p r]
    by (auto simp: calculateMonthlyPayment_def Let_def bigint_div_def tdiv_nonneg)
qed

end
