(* ===== verification/FairQueue.thy ===== *)
theory FairQueue
  imports Prelude "HOL-Library.Product_Lexorder" "HOL-Library.Multiset"
begin

text \<open>
  The job scheduler of \<^verbatim>\<open>backend/src/services/queueFairness.ts\<close>: the class
  \<open>FairQueueScheduler\<close> as the record \<open>scheduler\<close> of its private fields and one function per
  method, the clock passed in as the code's \<open>now\<close>. \<open>queue_step\<close> is one call; the
  interpretation of \<open>machine\<close> carries the per-tenant cap through every sequence of calls. The worker
  weights and the average wait are left to the floating-point part of the development.
\<close>

section \<open>Data\<close>

datatype priority_class = SECURITY | URGENT | NORMAL | BULK

primrec priority_number :: "priority_class \<Rightarrow> nat" where
  "priority_number SECURITY = 1"
| "priority_number URGENT = 2"
| "priority_number NORMAL = 3"
| "priority_number BULK = 4"

lemma priority_number_inj: "priority_number a = priority_number b \<longleftrightarrow> a = b"
  by (cases a; cases b) simp_all

instantiation priority_class :: linorder
begin

definition less_eq_priority_class :: "priority_class \<Rightarrow> priority_class \<Rightarrow> bool" where
  "less_eq_priority_class a b \<longleftrightarrow> priority_number a \<le> priority_number b"

definition less_priority_class :: "priority_class \<Rightarrow> priority_class \<Rightarrow> bool" where
  "less_priority_class a b \<longleftrightarrow> priority_number a < priority_number b"

instance
  by standard
    (auto simp: less_eq_priority_class_def less_priority_class_def priority_number_inj
      dest: antisym [of "priority_number _" "priority_number _"])

end

definition PRIORITY_CLASSES :: "priority_class list" where
  "PRIORITY_CLASSES = [SECURITY, URGENT, NORMAL, BULK]"

record pending_job =
  job_id :: string
  job_tenant :: string
  job_priority :: priority_class
  job_enqueuedAt :: int

record starvation_report =
  sr_starving :: bool
  sr_priority :: "priority_class option"
  sr_oldestWaitMs :: int
  sr_thresholdMs :: int

record scheduler =
  perTenantCap :: int
  starvationThresholdMs :: int
  pending :: "pending_job list"
  active :: "(string, pending_job) js_map"
  tenantActive :: "(string, int) js_map"
  waitSamples :: "priority_class \<Rightarrow> int list"

section \<open>Operations\<close>

definition new_scheduler :: "int option \<Rightarrow> int option \<Rightarrow> scheduler" where
  "new_scheduler cap threshold =
     \<lparr>perTenantCap = or_else cap 10, starvationThresholdMs = or_else threshold 30000,
      pending = [], active = [], tenantActive = [], waitSamples = (\<lambda>_. [])\<rparr>"

definition submit :: "scheduler \<Rightarrow> string \<Rightarrow> string \<Rightarrow> priority_class \<Rightarrow> int \<Rightarrow> scheduler \<times> pending_job" where
  "submit s i tenant prio now =
     (let job = \<lparr>job_id = i, job_tenant = tenant, job_priority = prio, job_enqueuedAt = now\<rparr>
      in (s\<lparr>pending := pending s @ [job]\<rparr>, job))"

definition activeCount :: "scheduler \<Rightarrow> string \<Rightarrow> int" where
  "activeCount s tenant = or_else (map_get (tenantActive s) tenant) 0"

text \<open>The stable sort of the waiting jobs, and the scan for the first one below its cap.\<close>

definition dispatch_key :: "pending_job \<Rightarrow> priority_class \<times> int" where
  "dispatch_key j = (job_priority j, job_enqueuedAt j)"

fun take_runnable :: "scheduler \<Rightarrow> pending_job list \<Rightarrow> (pending_job \<times> pending_job list) option" where
  "take_runnable s [] = None"
| "take_runnable s (job # js) =
     (if activeCount s (job_tenant job) \<ge> perTenantCap s
      then map_option (\<lambda>(j, rest). (j, job # rest)) (take_runnable s js)
      else Some (job, js))"

definition dequeue :: "scheduler \<Rightarrow> scheduler \<times> pending_job option" where
  "dequeue s =
     (let sorted_jobs = sort_key dispatch_key (pending s);
          s1 = s\<lparr>pending := sorted_jobs\<rparr>
      in case take_runnable s1 sorted_jobs of
           None \<Rightarrow> (s1, None)
         | Some (job, rest) \<Rightarrow>
             (s1\<lparr>pending := rest,
                 active := map_set (active s1) (job_id job) job,
                 tenantActive := map_set (tenantActive s1) (job_tenant job)
                   (activeCount s1 (job_tenant job) + 1)\<rparr>, Some job))"

definition complete_job :: "scheduler \<Rightarrow> string \<Rightarrow> int \<Rightarrow> scheduler \<times> int option" where
  "complete_job s i now =
     (case map_get (active s) i of
        None \<Rightarrow> (s, None)
      | Some job \<Rightarrow>
          let s1 = s\<lparr>active := map_delete (active s) i\<rparr>;
              remaining = activeCount s1 (job_tenant job) - 1;
              s2 = (if remaining > 0
                    then s1\<lparr>tenantActive := map_set (tenantActive s1) (job_tenant job) remaining\<rparr>
                    else s1\<lparr>tenantActive := map_delete (tenantActive s1) (job_tenant job)\<rparr>);
              waitMs = max 0 (now - job_enqueuedAt job)
          in (s2\<lparr>waitSamples := (waitSamples s2)
                  (job_priority job := waitSamples s2 (job_priority job) @ [waitMs])\<rparr>,
              Some waitMs))"

definition totalActive :: "scheduler \<Rightarrow> nat" where
  "totalActive s = length (active s)"

definition waitingCounts :: "scheduler \<Rightarrow> priority_class \<Rightarrow> int" where
  "waitingCounts s =
     foldl (\<lambda>acc job. acc(job_priority job := acc (job_priority job) + 1)) (\<lambda>_. 0) (pending s)"

fun starvation_scan ::
  "int \<Rightarrow> int \<Rightarrow> pending_job list \<Rightarrow> priority_class option \<Rightarrow> int \<Rightarrow> priority_class option \<times> int" where
  "starvation_scan threshold now [] prio oldest = (prio, oldest)"
| "starvation_scan threshold now (job # js) prio oldest =
     (let waitMs = max 0 (now - job_enqueuedAt job) in
      if waitMs \<le> threshold then starvation_scan threshold now js prio oldest
      else starvation_scan threshold now js
        (case prio of None \<Rightarrow> Some (job_priority job)
         | Some p \<Rightarrow> if job_priority job < p then Some (job_priority job) else Some p)
        (max oldest waitMs))"

definition starvationReport :: "scheduler \<Rightarrow> int \<Rightarrow> starvation_report" where
  "starvationReport s now =
     (let (prio, oldest) = starvation_scan (starvationThresholdMs s) now (pending s) None 0
      in \<lparr>sr_starving = (prio \<noteq> None), sr_priority = prio, sr_oldestWaitMs = oldest,
          sr_thresholdMs = starvationThresholdMs s\<rparr>)"

definition isStarving :: "scheduler \<Rightarrow> int \<Rightarrow> bool" where
  "isStarving s now = sr_starving (starvationReport s now)"

definition reset_scheduler :: "scheduler \<Rightarrow> scheduler" where
  "reset_scheduler s = s\<lparr>pending := [], active := [], tenantActive := [], waitSamples := (\<lambda>_. [])\<rparr>"

datatype queue_call =
    Submit string string priority_class int
  | Dequeue
  | Complete string int
  | Reset

fun queue_step :: "scheduler \<Rightarrow> queue_call \<Rightarrow> scheduler" where
  "queue_step s (Submit i tenant prio now) = fst (submit s i tenant prio now)"
| "queue_step s Dequeue = fst (dequeue s)"
| "queue_step s (Complete i now) = fst (complete_job s i now)"
| "queue_step s Reset = reset_scheduler s"

section \<open>The dispatch order\<close>

lemma take_runnable_None: "take_runnable s js = None \<longleftrightarrow>
    list_all (\<lambda>j. perTenantCap s \<le> activeCount s (job_tenant j)) js"
  by (induction js) auto

lemma take_runnable_Some:
  "take_runnable s js = Some (j, rest) \<Longrightarrow>
     mset js = add_mset j (mset rest) \<and> activeCount s (job_tenant j) < perTenantCap s"
  by (induction js arbitrary: rest) (auto split: if_splits)

lemma take_runnable_first:
  "take_runnable s js = Some (j, rest) \<Longrightarrow> sorted (map dispatch_key js) \<Longrightarrow>
     k \<in> set js \<Longrightarrow> activeCount s (job_tenant k) < perTenantCap s \<Longrightarrow>
     dispatch_key j \<le> dispatch_key k"
  by (induction js arbitrary: rest) (auto split: if_splits)

lemma activeCount_pending [simp]: "activeCount (s\<lparr>pending := js\<rparr>) t = activeCount s t"
  by (simp add: activeCount_def)

lemma take_runnable_pending [simp]: "take_runnable (s\<lparr>pending := ps\<rparr>) js = take_runnable s js"
  by (induction js) simp_all

section \<open>The cap invariant\<close>

text \<open>How many of the active jobs belong to a tenant.\<close>

definition in_flight :: "scheduler \<Rightarrow> string \<Rightarrow> int" where
  "in_flight s t = sum_list (map (\<lambda>j. if job_tenant j = t then 1 else 0) (map_values (active s)))"

definition queue_inv :: "int \<Rightarrow> scheduler \<Rightarrow> bool" where
  "queue_inv cap s \<longleftrightarrow> perTenantCap s = cap \<and> wf_map (active s) \<and>
     (\<forall>t. in_flight s t \<le> activeCount s t \<and> activeCount s t \<le> max 0 cap)"

lemma in_flight_cong: "active s = active s' \<Longrightarrow> in_flight s t = in_flight s' t"
  by (simp add: in_flight_def)

lemma in_flight_nonneg: "0 \<le> in_flight s t"
  unfolding in_flight_def by (intro sum_list_nonneg) auto

lemma in_flight_set:
  "wf_map (active s) \<Longrightarrow>
     in_flight (s\<lparr>active := map_set (active s) i j\<rparr>) t \<le> in_flight s t + (if job_tenant j = t then 1 else 0)"
  by (auto simp: in_flight_def sum_map_set split: option.splits)

lemma in_flight_delete:
  "wf_map (active s) \<Longrightarrow> map_get (active s) i = Some j \<Longrightarrow>
     in_flight (s\<lparr>active := map_delete (active s) i\<rparr>) t = in_flight s t - (if job_tenant j = t then 1 else 0)"
  by (simp add: in_flight_def sum_map_delete)

lemma dequeue_cases:
  obtains (none) "dequeue s = (s\<lparr>pending := sort_key dispatch_key (pending s)\<rparr>, None)"
    and "list_all (\<lambda>j. perTenantCap s \<le> activeCount s (job_tenant j)) (pending s)"
  | (some) j rest where
      "dequeue s = (s\<lparr>pending := rest, active := map_set (active s) (job_id j) j,
         tenantActive := map_set (tenantActive s) (job_tenant j) (activeCount s (job_tenant j) + 1)\<rparr>, Some j)"
    and "mset (pending s) = add_mset j (mset rest)"
    and "activeCount s (job_tenant j) < perTenantCap s"
    and "\<And>k. k \<in> set (pending s) \<Longrightarrow> activeCount s (job_tenant k) < perTenantCap s \<Longrightarrow>
      dispatch_key j \<le> dispatch_key k"
proof (cases "take_runnable s
    (sort_key dispatch_key (pending s))")
  case None
  show ?thesis
  proof (rule none)
    show "dequeue s = (s\<lparr>pending := sort_key dispatch_key (pending s)\<rparr>, None)"
      using None by (simp add: dequeue_def Let_def)
    show "list_all (\<lambda>j. perTenantCap s \<le> activeCount s (job_tenant j)) (pending s)"
      using None take_runnable_None [of s "sort_key dispatch_key (pending s)"] by (simp add: list_all_iff)
  qed
next
  case (Some p)
  then obtain j rest where p: "take_runnable s
      (sort_key dispatch_key (pending s)) = Some (j, rest)"
    by (cases p) auto
  show ?thesis
  proof (rule some [of j rest])
    show "dequeue s = (s\<lparr>pending := rest, active := map_set (active s) (job_id j) j,
         tenantActive := map_set (tenantActive s) (job_tenant j) (activeCount s (job_tenant j) + 1)\<rparr>, Some j)"
      using p by (simp add: dequeue_def Let_def)
    show "mset (pending s) = add_mset j (mset rest)" "activeCount s (job_tenant j) < perTenantCap s"
      using take_runnable_Some [OF p] by simp_all
    show "dispatch_key j \<le> dispatch_key k"
      if "k \<in> set (pending s)" "activeCount s (job_tenant k) < perTenantCap s" for k
      using that take_runnable_first [OF p, of k] by simp
  qed
qed

lemma submit_inv: "queue_inv cap s \<Longrightarrow> queue_inv cap (fst (submit s i t p n))"
  by (auto simp: queue_inv_def submit_def Let_def in_flight_def)

lemma dequeue_inv:
  assumes "queue_inv cap s"
  shows "queue_inv cap (fst (dequeue s))"
proof (cases s rule: dequeue_cases)
  case none
  with assms show ?thesis by (simp add: queue_inv_def in_flight_def)
next
  case (some j rest)
  let ?s' = "s\<lparr>pending := rest, active := map_set (active s) (job_id j) j,
    tenantActive := map_set (tenantActive s) (job_tenant j) (activeCount s (job_tenant j) + 1)\<rparr>"
  have ok: "in_flight ?s' t \<le> activeCount ?s' t \<and> activeCount ?s' t \<le> max 0 cap" for t
  proof -
    have "in_flight ?s' t = in_flight (s\<lparr>active := map_set (active s) (job_id j) j\<rparr>) t"
      by (rule in_flight_cong) simp
    also have "\<dots> \<le> in_flight s t + (if job_tenant j = t then 1 else 0)"
      using assms by (intro in_flight_set) (simp add: queue_inv_def)
    finally have "in_flight ?s' t \<le> in_flight s t + (if job_tenant j = t then 1 else 0)" .
    moreover have "activeCount ?s' t = activeCount s t + (if t = job_tenant j then 1 else 0)"
      by (simp add: activeCount_def)
    moreover have "in_flight s t \<le> activeCount s t" "activeCount s t \<le> max 0 cap" "perTenantCap s = cap"
      using assms by (simp_all add: queue_inv_def)
    ultimately show ?thesis
      using some(3) by (cases "job_tenant j = t") auto
  qed
  with assms some(1) show ?thesis by (simp add: queue_inv_def)
qed

lemma complete_inv:
  assumes "queue_inv cap s"
  shows "queue_inv cap (fst (complete_job s i now))"
proof (cases "map_get (active s) i")
  case None
  with assms show ?thesis by (simp add: complete_job_def)
next
  case (Some j)
  let ?s' = "fst (complete_job s i now)"
  have wf: "wf_map (active s)" and le: "\<And>t. in_flight s t \<le> activeCount s t"
    and cap: "\<And>t. activeCount s t \<le> max 0 cap" "perTenantCap s = cap"
    using assms by (simp_all add: queue_inv_def)
  have act: "active ?s' = map_delete (active s) i" "perTenantCap ?s' = perTenantCap s"
    using Some by (simp_all add: complete_job_def Let_def)
  have cnt: "activeCount ?s' t = (if t = job_tenant j then max 0 (activeCount s t - 1) else activeCount s t)" for t
    using Some by (auto simp: complete_job_def Let_def activeCount_def)
  have fl: "in_flight ?s' t = in_flight s t - (if job_tenant j = t then 1 else 0)" for t
    using in_flight_delete [OF wf Some, of t] act(1) in_flight_cong [of ?s' "s\<lparr>active := map_delete (active s) i\<rparr>" t]
    by simp
  have "in_flight ?s' t \<le> activeCount ?s' t \<and> activeCount ?s' t \<le> max 0 cap" for t
    using le [of t] cap(1) [of t] by (auto simp: fl cnt)
  with wf cap(2) act show ?thesis by (simp add: queue_inv_def)
qed

interpretation fair_queue: machine "new_scheduler c th" queue_step "queue_inv (or_else c 10)" "\<lambda>_. True"
proof
  show "queue_inv (or_else c 10) (new_scheduler c th)"
    by (simp add: queue_inv_def new_scheduler_def in_flight_def activeCount_def)
  show "queue_inv (or_else c 10) (queue_step s e)" if "queue_inv (or_else c 10) s" for s e
    using that
    by (cases e) (simp_all add: submit_inv dequeue_inv complete_inv,
      simp add: queue_inv_def reset_scheduler_def in_flight_def activeCount_def)
qed

section \<open>Starvation\<close>

lemma starvation_scan_None:
  "fst (starvation_scan th now js p old) = None \<longleftrightarrow>
     p = None \<and> list_all (\<lambda>j. max 0 (now - job_enqueuedAt j) \<le> th) js"
  by (induction th now js p old rule: starvation_scan.induct) (auto simp: Let_def split: option.splits)

lemma starvation_scan_least:
  "fst (starvation_scan th now js p old) = Some q \<Longrightarrow>
     (p = Some q \<or> (\<exists>j \<in> set js. job_priority j = q \<and> th < max 0 (now - job_enqueuedAt j))) \<and>
     (\<forall>r. p = Some r \<longrightarrow> q \<le> r) \<and>
     (\<forall>j \<in> set js. th < max 0 (now - job_enqueuedAt j) \<longrightarrow> q \<le> job_priority j)"
proof (induction th now js p old rule: starvation_scan.induct)
  case (1 th now p old)
  then show ?case by simp
next
  case (2 th now job js p old)
  show ?case
  proof (cases "max 0 (now - job_enqueuedAt job) \<le> th")
    case True
    with 2(1) [OF refl True] 2(3) show ?thesis by (auto simp: Let_def not_less)
  next
    case False
    with 2(2) [OF refl False] 2(3) show ?thesis
      by (auto simp: Let_def split: option.splits if_splits)
  qed
qed

section \<open>Properties\<close>

text \<open>
  C12. No sequence of submissions, dispatches, completions and resets lets a tenant hold more jobs
  in flight than the scheduler's per-tenant cap, whatever ids and clock values the calls carry.
\<close>

theorem tenant_cap_respected:
  "in_flight (foldl queue_step (new_scheduler c th) calls) t \<le> max 0 (or_else c 10)"
proof -
  have "list_all (\<lambda>_. True) calls" by (simp add: list_all_iff)
  then have "queue_inv (or_else c 10) (foldl queue_step (new_scheduler c th) calls)"
    by (rule fair_queue.inv_reachable)
  then show ?thesis by (auto simp: queue_inv_def intro: order_trans)
qed

text \<open>
  A dispatch returns nothing exactly when every waiting job's tenant is at its cap; otherwise it
  removes one waiting job, marks it active, and that job comes first in (class, arrival) order
  among all the waiting jobs whose tenant is below its cap.
\<close>

theorem dequeue_picks_first_runnable:
  "case snd (dequeue s) of
     None \<Rightarrow> list_all (\<lambda>j. perTenantCap s \<le> activeCount s (job_tenant j)) (pending s) \<and>
       mset (pending (fst (dequeue s))) = mset (pending s)
   | Some j \<Rightarrow> mset (pending s) = add_mset j (mset (pending (fst (dequeue s)))) \<and>
       activeCount s (job_tenant j) < perTenantCap s \<and>
       map_get (active (fst (dequeue s))) (job_id j) = Some j \<and>
       activeCount (fst (dequeue s)) (job_tenant j) = activeCount s (job_tenant j) + 1 \<and>
       list_all (\<lambda>k. dispatch_key j \<le> dispatch_key k)
         (filter (\<lambda>k. activeCount s (job_tenant k) < perTenantCap s) (pending s))"
proof (cases s rule: dequeue_cases)
  case none
  then show ?thesis by simp
next
  case (some j rest)
  then show ?thesis by (simp add: list_all_iff activeCount_def)
qed

text \<open>
  The starvation report is raised exactly when some waiting job is older than the threshold, and
  the class it names is the most urgent one among the jobs that are.
\<close>

theorem starvation_report_names_most_urgent:
  "(isStarving s now \<longleftrightarrow>
      (\<exists>j \<in> set (pending s). starvationThresholdMs s < max 0 (now - job_enqueuedAt j))) \<and>
   (\<forall>q. sr_priority (starvationReport s now) = Some q \<longrightarrow>
      (\<exists>j \<in> set (pending s). job_priority j = q \<and> starvationThresholdMs s < max 0 (now - job_enqueuedAt j)) \<and>
      (\<forall>j \<in> set (pending s). starvationThresholdMs s < max 0 (now - job_enqueuedAt j) \<longrightarrow> q \<le> job_priority j))"
proof -
  obtain p old where p: "starvation_scan (starvationThresholdMs s) now (pending s) None 0 = (p, old)"
    by (cases "starvation_scan (starvationThresholdMs s) now (pending s) None 0") auto
  have "p = None \<longleftrightarrow> list_all (\<lambda>j. max 0 (now - job_enqueuedAt j) \<le> starvationThresholdMs s) (pending s)"
    using starvation_scan_None [of "starvationThresholdMs s" now "pending s" None 0] p by simp
  moreover have "(\<exists>j \<in> set (pending s). job_priority j = q \<and> starvationThresholdMs s < max 0 (now - job_enqueuedAt j)) \<and>
      (\<forall>j \<in> set (pending s). starvationThresholdMs s < max 0 (now - job_enqueuedAt j) \<longrightarrow> q \<le> job_priority j)"
    if "p = Some q" for q
    using starvation_scan_least [of "starvationThresholdMs s" now "pending s" None 0 q] p that by simp
  ultimately show ?thesis
    by (auto simp: isStarving_def starvationReport_def p list_all_iff not_le)
qed

theorem starvation_report_witness:
  "isStarving \<lparr>perTenantCap = 1, starvationThresholdMs = 10,
     pending = [\<lparr>job_id = ''a'', job_tenant = ''t'', job_priority = BULK, job_enqueuedAt = 0\<rparr>],
     active = [], tenantActive = [], waitSamples = (\<lambda>_. [])\<rparr> 20"
  using starvation_report_names_most_urgent [of "\<lparr>perTenantCap = 1, starvationThresholdMs = 10,
     pending = [\<lparr>job_id = ''a'', job_tenant = ''t'', job_priority = BULK, job_enqueuedAt = 0\<rparr>],
     active = [], tenantActive = [], waitSamples = (\<lambda>_. [])\<rparr>" 20]
  by simp

end
