(* ===== verification/Decimal.thy ===== *)
theory Decimal
  imports Prelude
begin

text \<open>
  The conversions between a bigint and its text: \<open>BigInt(s)\<close> as \<open>js_bigint\<close>, following the
  grammar of the language (white space trimmed, the empty string is zero, an optional sign on
  decimal digits, the unsigned prefixes 0x, 0o and 0b, a \<open>SyntaxError\<close> on everything else), and
  \<open>toString()\<close> as \<open>show_int\<close> of the prelude. The round trip below is what the components that
  keep amounts as decimal strings rest on.
\<close>

definition digit_value :: "char \<Rightarrow> nat option" where
  "digit_value c =
     (let n = (of_char c :: nat)
      in if 48 \<le> n \<and> n \<le> 57 then Some (n - 48)
         else if 97 \<le> n \<and> n \<le> 122 then Some (n - 87)
         else if 65 \<le> n \<and> n \<le> 90 then Some (n - 55)
         else None)"

fun radix_value :: "nat \<Rightarrow> nat \<Rightarrow> string \<Rightarrow> nat option" where
  "radix_value b acc [] = Some acc"
| "radix_value b acc (c # cs) =
     (case digit_value c of
        None \<Rightarrow> None
      | Some d \<Rightarrow> if d < b then radix_value b (acc * b + d) cs else None)"

definition parse_radix :: "nat \<Rightarrow> string \<Rightarrow> js_error + int" where
  "parse_radix b s =
     (if s = [] then Inl SyntaxError
      else case radix_value b 0 s of None \<Rightarrow> Inl SyntaxError | Some n \<Rightarrow> Inr (int n))"

definition js_bigint :: "string \<Rightarrow> js_error + int" where
  "js_bigint s =
     (let t = js_trim s
      in if t = [] then Inr 0
         else if hd t = CHR ''-'' then map_sum id uminus (parse_radix 10 (tl t))
         else if hd t = CHR ''+'' then parse_radix 10 (tl t)
         else if take 2 t \<in> {''0x'', ''0X''} then parse_radix 16 (drop 2 t)
         else if take 2 t \<in> {''0o'', ''0O''} then parse_radix 8 (drop 2 t)
         else if take 2 t \<in> {''0b'', ''0B''} then parse_radix 2 (drop 2 t)
         else parse_radix 10 t)"

text \<open>
  \<open>parseInt(s, 10)\<close>: leading white space and a sign, then the longest run of decimal digits; not a
  number where there is none.
\<close>

definition dec_digit :: "char \<Rightarrow> bool" where
  "dec_digit c \<longleftrightarrow> 48 \<le> (of_char c :: nat) \<and> (of_char c :: nat) \<le> 57"

definition js_parse_int :: "string \<Rightarrow> int option" where
  "js_parse_int s =
     (let t = dropWhile js_space s;
          neg = (t \<noteq> [] \<and> hd t = CHR ''-'');
          body = (if t \<noteq> [] \<and> hd t \<in> {CHR ''-'', CHR ''+''} then tl t else t);
          ds = takeWhile dec_digit body
      in if ds = [] then None
         else map_option (\<lambda>n. if neg then - int n else int n) (radix_value 10 0 ds))"

text \<open>
  \<open>Number(s)\<close> of a text, absent where it is not a number or infinite: white space trimmed, nothing is zero, an
  unsigned literal of another radix, or an optional sign, a decimal with an optional point and an optional
  exponent. The value is the exact one; its rounding to a double is not modelled.
\<close>

definition decimal_exponent :: "string \<Rightarrow> int option" where
  "decimal_exponent s =
     (if s = [] then Some 0
      else if hd s \<notin> {CHR ''e'', CHR ''E''} then None
      else (let neg = (tl s \<noteq> [] \<and> hd (tl s) = CHR ''-'');
                body = (if tl s \<noteq> [] \<and> hd (tl s) \<in> {CHR ''-'', CHR ''+''} then tl (tl s) else tl s)
            in if body = [] \<or> \<not> list_all dec_digit body then None
               else map_option (\<lambda>n. if neg then - int n else int n) (radix_value 10 0 body)))"

definition unsigned_decimal :: "string \<Rightarrow> rat option" where
  "unsigned_decimal s =
     (let whole = takeWhile dec_digit s;
          rest = dropWhile dec_digit s;
          pointed = (rest \<noteq> [] \<and> hd rest = CHR ''.'');
          frac = (if pointed then takeWhile dec_digit (tl rest) else []);
          after = (if pointed then dropWhile dec_digit (tl rest) else rest)
      in if whole @ frac = [] then None
         else case (radix_value 10 0 (whole @ frac), decimal_exponent after) of
                (Some n, Some e) \<Rightarrow>
                  (let x = e - int (length frac)
                   in Some (if 0 \<le> x then of_nat n * 10 ^ nat x else of_nat n / 10 ^ nat (- x)))
              | _ \<Rightarrow> None)"

definition unsigned_radix :: "nat \<Rightarrow> string \<Rightarrow> rat option" where
  "unsigned_radix b s = (case parse_radix b s of Inl _ \<Rightarrow> None | Inr n \<Rightarrow> Some (of_int n))"

definition js_number :: "string \<Rightarrow> rat option" where
  "js_number s =
     (let t = js_trim s
      in if t = [] then Some 0
         else if take 2 t \<in> {''0x'', ''0X''} then unsigned_radix 16 (drop 2 t)
         else if take 2 t \<in> {''0o'', ''0O''} then unsigned_radix 8 (drop 2 t)
         else if take 2 t \<in> {''0b'', ''0B''} then unsigned_radix 2 (drop 2 t)
         else if hd t = CHR ''-'' then map_option uminus (unsigned_decimal (tl t))
         else if hd t = CHR ''+'' then unsigned_decimal (tl t)
         else unsigned_decimal t)"

section \<open>The round trip\<close>

lemma dec_digit_char [simp]: "n < 10 \<Longrightarrow> dec_digit (char_of (n + 48 :: nat))"
  by (simp add: dec_digit_def of_char_of)

lemma digit_value_char [simp]: "n < 10 \<Longrightarrow> digit_value (char_of (n + 48)) = Some n"
  by (simp add: digit_value_def Let_def of_char_of)

lemma digits_are_digits: "list_all dec_digit (digits n)"
  by (induction n rule: digits.induct) (subst digits.simps, simp)

lemma digits_not_Nil [simp]: "digits n \<noteq> []"
  by (subst digits.simps) simp

lemma radix_value_append:
  "radix_value b acc (xs @ ys) =
     (case radix_value b acc xs of None \<Rightarrow> None | Some m \<Rightarrow> radix_value b m ys)"
  by (induction b acc xs rule: radix_value.induct) (auto split: option.splits)

lemma radix_value_digits: "radix_value 10 0 (digits n) = Some n"
proof (induction n rule: digits.induct)
  case (1 n)
  show ?case
  proof (cases "n < 10")
    case True
    then show ?thesis by (subst digits.simps) simp
  next
    case False
    with 1 show ?thesis by (subst digits.simps) (simp add: radix_value_append)
  qed
qed

lemma dec_digit_not_space: "dec_digit c \<Longrightarrow> \<not> js_space c"
  by (auto simp: dec_digit_def js_space_def)

lemma js_trim_id: "s = [] \<or> \<not> js_space (hd s) \<and> \<not> js_space (last s) \<Longrightarrow> js_trim s = s"
proof -
  assume s: "s = [] \<or> \<not> js_space (hd s) \<and> \<not> js_space (last s)"
  then have "dropWhile js_space s = s" "dropWhile js_space (rev s) = rev s"
    by (auto simp: dropWhile_eq_self_iff hd_rev)
  then show ?thesis by (simp add: js_trim_def)
qed

lemma js_trim_digits [simp]: "js_trim (digits n) = digits n" "js_trim (CHR ''-'' # digits n) = CHR ''-'' # digits n"
proof -
  have "\<not> js_space (hd (digits n))" "\<not> js_space (last (digits n))"
    using digits_are_digits [of n] by (auto simp: list_all_iff intro!: dec_digit_not_space)
  moreover have "\<not> js_space (CHR ''-'')" by (simp add: js_space_def)
  ultimately show "js_trim (digits n) = digits n" "js_trim (CHR ''-'' # digits n) = CHR ''-'' # digits n"
    by (auto intro!: js_trim_id)
qed

lemma digits_no_prefix: "hd (digits n) \<noteq> CHR ''-''" "hd (digits n) \<noteq> CHR ''+''"
proof -
  have "dec_digit (hd (digits n))"
    using digits_are_digits [of n] by (simp add: list_all_iff)
  then show "hd (digits n) \<noteq> CHR ''-''" "hd (digits n) \<noteq> CHR ''+''"
    by (auto simp: dec_digit_def)
qed

lemma take2_digits: "take 2 (digits n) = [a, b] \<Longrightarrow> dec_digit b"
proof -
  assume "take 2 (digits n) = [a, b]"
  then have "b \<in> set (digits n)"
    by (metis in_set_takeD list.set_intros(1) list.set_intros(2))
  with digits_are_digits [of n] show ?thesis by (simp add: list_all_iff)
qed

lemma js_bigint_digits [simp]: "js_bigint (digits n) = Inr (int n)"
proof -
  have "take 2 (digits n) \<noteq> [a, b]" if "\<not> dec_digit b" for a b
    using take2_digits that by blast
  moreover have "\<not> dec_digit (CHR ''x'')" "\<not> dec_digit (CHR ''X'')" "\<not> dec_digit (CHR ''o'')"
    "\<not> dec_digit (CHR ''O'')" "\<not> dec_digit (CHR ''b'')" "\<not> dec_digit (CHR ''B'')"
    by (simp_all add: dec_digit_def)
  ultimately show ?thesis
    by (simp add: js_bigint_def Let_def digits_no_prefix parse_radix_def radix_value_digits)
qed

theorem js_bigint_show_int [simp]: "js_bigint (show_int i) = Inr i"
  by (simp add: show_int_def js_bigint_def [of "CHR ''-'' # _"] parse_radix_def radix_value_digits)

lemma js_parse_int_digits [simp]: "js_parse_int (digits n) = Some (int n)"
proof -
  have d: "dec_digit (hd (digits n))" and all: "\<forall>c \<in> set (digits n). dec_digit c"
    using digits_are_digits [of n] by (simp_all add: list_all_iff)
  have "dropWhile js_space (digits n) = digits n"
    using dec_digit_not_space [OF d] by (simp add: dropWhile_eq_self_iff)
  moreover have "takeWhile dec_digit (digits n) = digits n"
    using all by (simp add: takeWhile_eq_all_conv)
  ultimately show ?thesis
    using digits_no_prefix [of n]
    by (simp add: js_parse_int_def Let_def radix_value_digits del: takeWhile_eq_all_conv)
qed

lemma takeWhile_digits [simp]: "takeWhile dec_digit (digits n) = digits n" "dropWhile dec_digit (digits n) = []"
  using digits_are_digits [of n] by (simp_all add: list_all_iff takeWhile_eq_all_conv dropWhile_eq_Nil_conv)

lemma unsigned_decimal_digits [simp]: "unsigned_decimal (digits n) = Some (of_nat n)"
  by (simp add: unsigned_decimal_def radix_value_digits decimal_exponent_def)

lemma js_number_show_int [simp]: "js_number (show_int i) = Some (of_int i)"
proof (cases "i < 0")
  case True
  then show ?thesis by (simp add: js_number_def show_int_def)
next
  case False
  have prefix: "take 2 (digits m) \<noteq> [a, b]" if "\<not> dec_digit b" for m a b
    using take2_digits [of m a b] that by blast
  show ?thesis using False
    by (simp add: js_number_def show_int_def prefix dec_digit_def digits_no_prefix)
qed

end
