(* ===== verification/Balances.thy ===== *)
theory Balances
  imports Decimal
begin

text \<open>
  The borrower balances of \<^verbatim>\<open>backend/src/services/balanceStore.ts\<close>:
  \<open>InMemoryBalanceRepository\<close> as the map of its private field, balances kept as decimal strings
  the way the code keeps them, and one function per method. A method whose amount is not an integer
  literal throws before it has written anything, so its model is an error beside an unchanged store.
  The time stamp each write takes from the clock is an argument. The refinement at the end reads
  the strings back as integers: the store computes, per account, the fold of its events.
\<close>

section \<open>The store\<close>

record borrower_balance =
  bb_address :: string
  bb_escrowBalance :: string
  bb_loanOutstanding :: string
  bb_lastEventLedger :: int
  bb_updatedAt :: string

type_synonym balance_store = "(string, borrower_balance) js_map"

definition addStroops :: "string \<Rightarrow> string \<Rightarrow> js_error + string" where
  "addStroops a b =
     (case js_bigint a of Inl e \<Rightarrow> Inl e | Inr x \<Rightarrow>
      case js_bigint b of Inl e \<Rightarrow> Inl e | Inr y \<Rightarrow> Inr (show_int (x + y)))"

definition subStroops :: "string \<Rightarrow> string \<Rightarrow> js_error + string" where
  "subStroops a b =
     (case js_bigint a of Inl e \<Rightarrow> Inl e | Inr x \<Rightarrow>
      case js_bigint b of Inl e \<Rightarrow> Inl e | Inr y \<Rightarrow>
        (let result = x - y in Inr (show_int (if result < 0 then 0 else result))))"

definition get_balance :: "balance_store \<Rightarrow> string \<Rightarrow> borrower_balance option" where
  "get_balance store address = map_get store address"

definition list_balances :: "balance_store \<Rightarrow> borrower_balance list" where
  "list_balances store = map_values store"

definition new_balance :: "string \<Rightarrow> string \<Rightarrow> borrower_balance" where
  "new_balance address now = \<lparr>bb_address = address, bb_escrowBalance = ''0'',
     bb_loanOutstanding = ''0'', bb_lastEventLedger = 0, bb_updatedAt = now\<rparr>"

definition upsert :: "balance_store \<Rightarrow> string \<Rightarrow> int \<Rightarrow> string \<Rightarrow>
    (borrower_balance \<Rightarrow> js_error + borrower_balance) \<Rightarrow> js_error + (balance_store \<times> borrower_balance)" where
  "upsert store address seq now mutate =
     (case mutate (or_else (map_get store address) (new_balance address now)) of
        Inl e \<Rightarrow> Inl e
      | Inr b \<Rightarrow>
          (let existing = b\<lparr>bb_lastEventLedger := max (bb_lastEventLedger b) seq, bb_updatedAt := now\<rparr>
           in Inr (map_set store address existing, existing)))"

definition applyEscrowDeposit where
  "applyEscrowDeposit store address amount seq now =
     upsert store address seq now (\<lambda>b. map_sum id (\<lambda>v. b\<lparr>bb_escrowBalance := v\<rparr>)
       (addStroops (bb_escrowBalance b) amount))"

definition applyEscrowWithdraw where
  "applyEscrowWithdraw store address amount seq now =
     upsert store address seq now (\<lambda>b. map_sum id (\<lambda>v. b\<lparr>bb_escrowBalance := v\<rparr>)
       (subStroops (bb_escrowBalance b) amount))"

definition applyDisbursement where
  "applyDisbursement store address amount seq now =
     upsert store address seq now (\<lambda>b. map_sum id (\<lambda>v. b\<lparr>bb_loanOutstanding := v\<rparr>)
       (addStroops (bb_loanOutstanding b) amount))"

definition applyRepayment where
  "applyRepayment store address amount seq now =
     upsert store address seq now (\<lambda>b. map_sum id (\<lambda>v. b\<lparr>bb_loanOutstanding := v\<rparr>)
       (subStroops (bb_loanOutstanding b) amount))"

text \<open>One call of the repository: the method, the account, the amount, the ledger and the clock.\<close>

datatype balance_op = Escrow_deposit | Escrow_withdraw | Disbursement | Repayment

type_synonym balance_event = "balance_op \<times> string \<times> string \<times> int \<times> string"

fun balance_call :: "balance_store \<Rightarrow> balance_event \<Rightarrow> js_error + (balance_store \<times> borrower_balance)" where
  "balance_call st (Escrow_deposit, a, x, l, t) = applyEscrowDeposit st a x l t"
| "balance_call st (Escrow_withdraw, a, x, l, t) = applyEscrowWithdraw st a x l t"
| "balance_call st (Disbursement, a, x, l, t) = applyDisbursement st a x l t"
| "balance_call st (Repayment, a, x, l, t) = applyRepayment st a x l t"

definition balance_step :: "balance_store \<Rightarrow> balance_event \<Rightarrow> balance_store" where
  "balance_step st ev = (case balance_call st ev of Inl _ \<Rightarrow> st | Inr (st', _) \<Rightarrow> st')"

section \<open>The abstract account\<close>

text \<open>
  What an account amounts to: the escrow savings and the outstanding loan as integers, and the last
  ledger. \<open>account_event\<close> is what one call means for it.
\<close>

type_synonym account = "int \<times> int \<times> int"

fun account_event :: "string \<Rightarrow> account \<Rightarrow> balance_event \<Rightarrow> account" where
  "account_event a (esc, loan, seq) (k, b, x, l, t) =
     (case js_bigint x of
        Inl _ \<Rightarrow> (esc, loan, seq)
      | Inr v \<Rightarrow>
          if a \<noteq> b then (esc, loan, seq)
          else (case k of
                  Escrow_deposit \<Rightarrow> (esc + v, loan, max seq l)
                | Escrow_withdraw \<Rightarrow> (max 0 (esc - v), loan, max seq l)
                | Disbursement \<Rightarrow> (esc, loan + v, max seq l)
                | Repayment \<Rightarrow> (esc, max 0 (loan - v), max seq l)))"

definition stored_int :: "string \<Rightarrow> int" where
  "stored_int s = (case js_bigint s of Inl _ \<Rightarrow> 0 | Inr v \<Rightarrow> v)"

definition account_view :: "balance_store \<Rightarrow> string \<Rightarrow> account" where
  "account_view st a =
     (case get_balance st a of
        None \<Rightarrow> (0, 0, 0)
      | Some b \<Rightarrow> (stored_int (bb_escrowBalance b), stored_int (bb_loanOutstanding b), bb_lastEventLedger b))"

section \<open>The simulation\<close>

definition ok_balance :: "borrower_balance \<Rightarrow> bool" where
  "ok_balance b \<longleftrightarrow> js_bigint (bb_escrowBalance b) = Inr (stored_int (bb_escrowBalance b)) \<and>
     js_bigint (bb_loanOutstanding b) = Inr (stored_int (bb_loanOutstanding b))"

definition ok_store :: "balance_store \<Rightarrow> bool" where
  "ok_store st \<longleftrightarrow> (\<forall>a b. map_get st a = Some b \<longrightarrow> ok_balance b)"

lemma stored_int_show [simp]: "stored_int (show_int i) = i"
  by (simp add: stored_int_def)

lemma zero_text [simp]: "js_bigint ''0'' = Inr 0" "stored_int ''0'' = 0"
  by (simp_all add: stored_int_def js_bigint_def js_trim_def js_space_def parse_radix_def digit_value_def)

lemma ok_new_balance [simp]: "ok_balance (new_balance a t)"
  by (simp add: ok_balance_def new_balance_def)

lemma ok_entry: "ok_store st \<Longrightarrow> ok_balance (or_else (map_get st a) (new_balance a t))"
  by (cases "map_get st a") (auto simp: ok_store_def)

lemma view_entry:
  "account_view st a =
     (let b = or_else (map_get st a) (new_balance a t)
      in (stored_int (bb_escrowBalance b), stored_int (bb_loanOutstanding b), bb_lastEventLedger b))"
  by (simp add: account_view_def get_balance_def Let_def new_balance_def or_else_def split: option.split)

lemma add_sub_ok:
  assumes "js_bigint a = Inr x"
  shows "addStroops a s = (case js_bigint s of Inl e \<Rightarrow> Inl e | Inr y \<Rightarrow> Inr (show_int (x + y)))"
    and "subStroops a s = (case js_bigint s of Inl e \<Rightarrow> Inl e | Inr y \<Rightarrow> Inr (show_int (max 0 (x - y))))"
  using assms by (auto simp: addStroops_def subStroops_def Let_def max_def split: sum.split)

lemmas balance_ops = applyEscrowDeposit_def applyEscrowWithdraw_def applyDisbursement_def applyRepayment_def

lemma balance_step_sim:
  assumes ok: "ok_store st"
  shows "ok_store (balance_step st ev) \<and>
    account_view (balance_step st ev) a = account_event a (account_view st a) ev"
proof -
  obtain k b x l t where ev: "ev = (k, b, x, l, t)" by (cases ev)
  let ?e = "or_else (map_get st b) (new_balance b t)"
  have e: "ok_balance ?e" by (rule ok_entry [OF ok])
  have other: "account_view (map_set st b v) a = account_view st a" if "a \<noteq> b" for v
    using that by (simp add: account_view_def get_balance_def)
  show ?thesis
  proof (cases "js_bigint x")
    case (Inl err)
    then have "balance_step st ev = st"
      using e by (cases k) (simp_all add: ev balance_step_def balance_ops upsert_def ok_balance_def add_sub_ok)
    then show ?thesis using ok Inl by (cases "account_view st a") (simp add: ev)
  next
    case (Inr v)
    then show ?thesis
      using e ok other
      by (cases k; cases "a = b")
        (auto simp: ev balance_step_def balance_ops upsert_def ok_balance_def add_sub_ok Let_def ok_store_def
          view_entry [of st b t] account_view_def [of "map_set _ _ _"] get_balance_def
          intro: prod_cases3 [of "account_view st a"])
  qed
qed

interpretation balances: refinement "[]" balance_step ok_store "\<lambda>_. True" "account_event a" "\<lambda>st. account_view st a"
  by unfold_locales (simp_all add: balance_step_sim, simp add: ok_store_def)

section \<open>Property\<close>

text \<open>
  C9. After any sequence of deposits, withdrawals, disbursements and repayments, in any order and
  with any amount strings, the stored strings of an account read back as the fold of its own
  events: deposits and disbursements add, withdrawals and repayments subtract down to zero, the
  ledger is the largest seen, and a call whose amount is not an integer literal counts for nothing.
\<close>

theorem balances_are_event_folds:
  "account_view (foldl balance_step [] evs) a = foldl (account_event a) (0, 0, 0) evs"
  using balances.abs_reachable [of evs a]
  by (simp add: account_view_def [of "[]"] get_balance_def)

end
