(* ===== verification/Stuffing.thy ===== *)
theory Stuffing
  imports Prelude
begin

text \<open>
  Credential-stuffing detection: \<^verbatim>\<open>backend/src/services/credentialStuffing.ts\<close> and the guard of
  \<^verbatim>\<open>backend/src/middleware/credentialStuffing.ts\<close>. The module's map of source buckets is the
  state; one failed login is folded over the sources it correlates with. The environment's numbers
  are the record \<open>stuffing_cfg\<close>, the clock is an argument, and the alerts handed to the sink are
  part of the result.
\<close>

section \<open>Data\<close>

datatype source_kind = Ip | Subnet | Asn | Fingerprint

record failure_event =
  fe_account :: "string option"
  fe_ip :: "string option"
  fe_asn :: "string option"
  fe_fingerprint :: "string option"

record stuffing_cfg =
  cf_windowMs :: int
  cf_distinctAccountsThreshold :: int
  cf_totalFailuresThreshold :: int
  cf_lockoutMs :: int
  cf_stepUpDelayMs :: int

definition stuffing_defaults :: stuffing_cfg where
  "stuffing_defaults = \<lparr>cf_windowMs = 5 * 60 * 1000, cf_distinctAccountsThreshold = 10,
     cf_totalFailuresThreshold = 20, cf_lockoutMs = 15 * 60 * 1000, cf_stepUpDelayMs = 2000\<rparr>"

record stuffing_episode =
  ep_source :: string
  ep_kind :: source_kind
  ep_distinctAccounts :: nat
  ep_totalFailures :: nat
  ep_windowMs :: int
  ep_firstSeenMs :: int
  ep_lastSeenMs :: int
  ep_lockedUntilMs :: int

record source_bucket =
  bk_failures :: "(string \<times> int) list"
  bk_lockedUntilMs :: int
  bk_alertedAtMs :: int
  bk_lastEpisode :: "stuffing_episode option"

type_synonym buckets = "(string, source_bucket) js_map"

section \<open>Source keys\<close>

definition toSubnet :: "string \<Rightarrow> string option" where
  "toSubnet ip =
     (let trimmed = js_trim ip
      in if dotted_quad trimmed then
           Some (js_join ''.'' (take 3 (js_split CHR ''.'' trimmed)) @ ''.0/24'')
         else if CHR '':'' \<in> set trimmed then
           Some (js_join '':'' (take 4 (filter (\<lambda>p. p \<noteq> []) (js_split CHR '':'' trimmed))) @ ''::/64'')
         else None)"

text \<open>A field is used where it is truthy: present and not the empty string.\<close>

definition truthy :: "string option \<Rightarrow> string list" where
  "truthy f = (case f of None \<Rightarrow> [] | Some s \<Rightarrow> if s = [] then [] else [s])"

definition deriveSourceKeys :: "failure_event \<Rightarrow> (string \<times> source_kind) list" where
  "deriveSourceKeys ev =
     (let keys =
        concat (map (\<lambda>ip. (''ip:'' @ js_lower (js_trim ip), Ip) #
           (case toSubnet ip of None \<Rightarrow> [] | Some n \<Rightarrow> [(''subnet:'' @ n, Subnet)])) (truthy (fe_ip ev))) @
        map (\<lambda>a. (''asn:'' @ js_lower (js_trim a), Asn)) (truthy (fe_asn ev)) @
        map (\<lambda>f. (''fp:'' @ js_lower (js_trim f), Fingerprint)) (truthy (fe_fingerprint ev))
      in if keys = [] then [(''ip:unknown'', Ip)] else keys)"

section \<open>Recording a failure\<close>

definition prune_bucket :: "source_bucket \<Rightarrow> int \<Rightarrow> int \<Rightarrow> source_bucket" where
  "prune_bucket b now windowMs = b\<lparr>bk_failures := filter (\<lambda>f. now - windowMs \<le> snd f) (bk_failures b)\<rparr>"

definition new_bucket :: source_bucket where
  "new_bucket = \<lparr>bk_failures = [], bk_lockedUntilMs = 0, bk_alertedAtMs = 0, bk_lastEpisode = None\<rparr>"

definition account_of :: "failure_event \<Rightarrow> string" where
  "account_of ev = (let a = js_lower (js_trim (or_else (fe_account ev) '''')) in if a = [] then ''unknown'' else a)"

text \<open>
  The body of the loop for one source: the bucket after the failure, the episode it opens if any, and
  whether the alert sink is called with it.
\<close>

definition hit_bucket :: "stuffing_cfg \<Rightarrow> int \<Rightarrow> string \<Rightarrow> string \<times> source_kind \<Rightarrow> source_bucket \<Rightarrow>
    source_bucket \<times> (stuffing_episode \<times> bool) option" where
  "hit_bucket cfg now account key b0 =
     (let b1 = prune_bucket b0 now (cf_windowMs cfg);
          b = b1\<lparr>bk_failures := bk_failures b1 @ [(account, now)]\<rparr>;
          distinctAccounts = card (set (map fst (bk_failures b)));
          totalFailures = length (bk_failures b);
          signature = cf_distinctAccountsThreshold cfg \<le> int distinctAccounts \<and>
            cf_totalFailuresThreshold cfg \<le> int totalFailures
      in if signature \<and> bk_lockedUntilMs b \<le> now then
           (let until = now + cf_lockoutMs cfg;
                episode = \<lparr>ep_source = fst key, ep_kind = snd key, ep_distinctAccounts = distinctAccounts,
                  ep_totalFailures = totalFailures, ep_windowMs = cf_windowMs cfg,
                  ep_firstSeenMs = snd (hd (bk_failures b)), ep_lastSeenMs = now, ep_lockedUntilMs = until\<rparr>;
                alert = bk_alertedAtMs b < now - cf_windowMs cfg
            in (b\<lparr>bk_lockedUntilMs := until, bk_lastEpisode := Some episode,
                  bk_alertedAtMs := if alert then now else bk_alertedAtMs b\<rparr>, Some (episode, alert)))
         else (b, None))"

fun record_loop :: "stuffing_cfg \<Rightarrow> int \<Rightarrow> string \<Rightarrow> (string \<times> source_kind) list \<Rightarrow> buckets \<Rightarrow>
    buckets \<times> (stuffing_episode \<times> bool) list" where
  "record_loop cfg now account [] bs = (bs, [])"
| "record_loop cfg now account (key # keys) bs =
     (let (b, hit) = hit_bucket cfg now account key (or_else (map_get bs (fst key)) new_bucket);
          (bs', eps) = record_loop cfg now account keys (map_set bs (fst key) b)
      in (bs', (case hit of None \<Rightarrow> [] | Some e \<Rightarrow> [e]) @ eps))"

text \<open>The result: the buckets, \<open>detected\<close>, the episodes, and those among them handed to the sink.\<close>

definition recordCredentialFailure :: "stuffing_cfg \<Rightarrow> buckets \<Rightarrow> failure_event \<Rightarrow> int \<Rightarrow>
    buckets \<times> bool \<times> stuffing_episode list \<times> stuffing_episode list" where
  "recordCredentialFailure cfg bs ev now =
     (let (bs', eps) = record_loop cfg now (account_of ev) (deriveSourceKeys ev) bs
      in (bs', eps \<noteq> [], map fst eps, map fst (filter snd eps)))"

section \<open>Reading the lock\<close>

record lock_status =
  lk_locked :: bool
  lk_sources :: "string list"
  lk_lockedUntilMs :: "int option"
  lk_requireCaptcha :: "bool option"
  lk_delayMs :: "int option"

definition source_locked :: "buckets \<Rightarrow> int \<Rightarrow> string \<Rightarrow> bool" where
  "source_locked bs now source = (case map_get bs source of None \<Rightarrow> False | Some b \<Rightarrow> now < bk_lockedUntilMs b)"

definition isStuffingSourceLocked :: "stuffing_cfg \<Rightarrow> buckets \<Rightarrow> failure_event \<Rightarrow> int \<Rightarrow> lock_status" where
  "isStuffingSourceLocked cfg bs ev now =
     (let lockedSources = filter (source_locked bs now) (map fst (deriveSourceKeys ev));
          until = foldl (\<lambda>m s. max m (case map_get bs s of None \<Rightarrow> 0 | Some b \<Rightarrow> bk_lockedUntilMs b)) 0 lockedSources
      in if lockedSources = [] then \<lparr>lk_locked = False, lk_sources = [], lk_lockedUntilMs = None,
           lk_requireCaptcha = None, lk_delayMs = None\<rparr>
         else \<lparr>lk_locked = True, lk_sources = lockedSources, lk_lockedUntilMs = Some until,
           lk_requireCaptcha = Some True, lk_delayMs = Some (cf_stepUpDelayMs cfg)\<rparr>)"

record adaptive_action =
  aa_locked :: bool
  aa_requireCaptcha :: bool
  aa_delayMs :: int
  aa_remainingMs :: "int option"

definition getAdaptiveAction :: "stuffing_cfg \<Rightarrow> buckets \<Rightarrow> string \<Rightarrow> int \<Rightarrow> adaptive_action" where
  "getAdaptiveAction cfg bs source now =
     (case map_get bs source of
        None \<Rightarrow> \<lparr>aa_locked = False, aa_requireCaptcha = False, aa_delayMs = 0, aa_remainingMs = None\<rparr>
      | Some b \<Rightarrow>
          if bk_lockedUntilMs b \<le> now
          then \<lparr>aa_locked = False, aa_requireCaptcha = False, aa_delayMs = 0, aa_remainingMs = None\<rparr>
          else \<lparr>aa_locked = True, aa_requireCaptcha = True, aa_delayMs = cf_stepUpDelayMs cfg,
                 aa_remainingMs = Some (bk_lockedUntilMs b - now)\<rparr>)"

section \<open>The guard\<close>

text \<open>
  A header or body field of a request is a string or something else. The challenge token's check is
  the captcha service's, here its verdict \<open>peek\<close>.
\<close>

datatype untyped = Str string | Other

record login_request =
  rq_ip :: "string option"
  rq_asn_header :: "untyped option"
  rq_body_asn :: "untyped option"
  rq_fingerprint_header :: "untyped option"
  rq_body_fingerprint :: "untyped option"

definition string_field :: "untyped option \<Rightarrow> string option" where
  "string_field v = (case v of Some (Str s) \<Rightarrow> Some s | _ \<Rightarrow> None)"

definition first_given :: "untyped option \<Rightarrow> untyped option \<Rightarrow> untyped option" where
  "first_given a b = (case a of None \<Rightarrow> b | Some v \<Rightarrow> Some v)"

definition sourceContextFromRequest :: "login_request \<Rightarrow> failure_event" where
  "sourceContextFromRequest rq = \<lparr>fe_account = Some ''probe'', fe_ip = rq_ip rq,
     fe_asn = string_field (first_given (rq_asn_header rq) (rq_body_asn rq)),
     fe_fingerprint = string_field (first_given (rq_fingerprint_header rq) (rq_body_fingerprint rq))\<rparr>"

datatype guard_outcome =
    Guard_next
  | Guard_challenge "string list" "int option" int

definition seconds_left :: "int \<Rightarrow> int" where
  "seconds_left ms = max 1 (- ((- ms) div 1000))"

definition credentialStuffingGuard :: "stuffing_cfg \<Rightarrow> buckets \<Rightarrow> login_request \<Rightarrow> bool \<Rightarrow> int \<Rightarrow> guard_outcome" where
  "credentialStuffingGuard cfg bs rq peek now =
     (let status = isStuffingSourceLocked cfg bs (sourceContextFromRequest rq) now
      in if \<not> lk_locked status then Guard_next
         else if peek then Guard_next
         else Guard_challenge (lk_sources status)
           (case lk_lockedUntilMs status of None \<Rightarrow> None
            | Some u \<Rightarrow> if u = 0 then None else Some (seconds_left (u - now)))
           (max 0 (min (or_else (lk_delayMs status) 0) 250)))"

section \<open>The sources of one event are distinct\<close>

lemma truthy_cases: "truthy f = [] \<or> (\<exists>x. truthy f = [x])"
  by (simp add: truthy_def split: option.split)

lemma deriveSourceKeys_distinct: "distinct (map fst (deriveSourceKeys ev))"
  using truthy_cases [of "fe_ip ev"] truthy_cases [of "fe_asn ev"] truthy_cases [of "fe_fingerprint ev"]
  by (auto simp: deriveSourceKeys_def Let_def split: option.split)

lemma deriveSourceKeys_not_Nil: "deriveSourceKeys ev \<noteq> []"
  by (simp add: deriveSourceKeys_def Let_def)

lemma record_loop_pointwise:
  "distinct (map fst keys) \<Longrightarrow>
     map_get (fst (record_loop cfg now acc keys bs)) s =
       (case map_of keys s of None \<Rightarrow> map_get bs s
        | Some k \<Rightarrow> Some (fst (hit_bucket cfg now acc (s, k) (or_else (map_get bs s) new_bucket))))"
proof (induction keys arbitrary: bs)
  case Nil
  then show ?case by simp
next
  case (Cons key keys)
  have "map_of keys (fst key) = None"
    using Cons.prems by (simp add: map_of_eq_None_iff)
  with Cons show ?case
    by (cases key) (auto simp: split_beta Let_def split: option.split)
qed

lemma record_get:
  "map_get (fst (recordCredentialFailure cfg bs ev now)) s =
     (case map_of (deriveSourceKeys ev) s of None \<Rightarrow> map_get bs s
      | Some k \<Rightarrow> Some (fst (hit_bucket cfg now (account_of ev) (s, k) (or_else (map_get bs s) new_bucket))))"
  using record_loop_pointwise [OF deriveSourceKeys_distinct]
  by (simp add: recordCredentialFailure_def Let_def split_beta)

section \<open>Locks come from episodes\<close>

definition justified :: "stuffing_cfg \<Rightarrow> string \<Rightarrow> source_bucket \<Rightarrow> bool" where
  "justified cfg s b = (case bk_lastEpisode b of
       None \<Rightarrow> bk_lockedUntilMs b = 0
     | Some ep \<Rightarrow> ep_source ep = s \<and> bk_lockedUntilMs b = ep_lastSeenMs ep + cf_lockoutMs cfg \<and>
         ep_lockedUntilMs ep = bk_lockedUntilMs b \<and>
         cf_distinctAccountsThreshold cfg \<le> int (ep_distinctAccounts ep) \<and>
         cf_totalFailuresThreshold cfg \<le> int (ep_totalFailures ep) \<and>
         ep_distinctAccounts ep \<le> ep_totalFailures ep)"

definition justified_buckets :: "stuffing_cfg \<Rightarrow> buckets \<Rightarrow> bool" where
  "justified_buckets cfg bs \<longleftrightarrow> (\<forall>s b. map_get bs s = Some b \<longrightarrow> justified cfg s b)"

lemma hit_bucket_justified:
  assumes "justified cfg s b"
  shows "justified cfg s (fst (hit_bucket cfg now acc (s, k) b))"
proof -
  let ?b = "(prune_bucket b now (cf_windowMs cfg))\<lparr>bk_failures :=
    bk_failures (prune_bucket b now (cf_windowMs cfg)) @ [(acc, now)]\<rparr>"
  obtain B where B: "?b = B" by simp
  have "card (set (map fst (bk_failures B))) \<le> length (bk_failures B)"
    using card_length [of "map fst (bk_failures B)"] by simp
  moreover have "justified cfg s ?b"
    using assms by (cases "bk_lastEpisode b") (simp_all add: justified_def prune_bucket_def)
  then have "justified cfg s B" unfolding B .
  ultimately show ?thesis
    unfolding hit_bucket_def Let_def B
    by (cases "bk_lastEpisode B") (simp_all add: justified_def del: list.set_map)
qed

lemma justified_new [simp]: "justified cfg s new_bucket"
  by (simp add: justified_def new_bucket_def)

definition stuffing_step :: "stuffing_cfg \<Rightarrow> buckets \<Rightarrow> failure_event \<times> int \<Rightarrow> buckets" where
  "stuffing_step cfg bs e = fst (recordCredentialFailure cfg bs (fst e) (snd e))"

interpretation stuffing: machine "[]" "stuffing_step cfg" "justified_buckets cfg" "\<lambda>_. True"
proof
  show "justified_buckets cfg []" by (simp add: justified_buckets_def)
next
  fix bs e
  assume bs: "justified_buckets cfg bs"
  have "justified cfg s (or_else (map_get bs s) new_bucket)" for s
    using bs by (cases "map_get bs s") (simp_all add: justified_buckets_def)
  with bs show "justified_buckets cfg (stuffing_step cfg bs e)"
    by (auto simp: justified_buckets_def stuffing_step_def record_get
        intro: hit_bucket_justified split: option.splits)
qed

lemma locked_iff:
  "lk_locked (isStuffingSourceLocked cfg bs ev t) \<longleftrightarrow>
     (\<exists>s \<in> set (map fst (deriveSourceKeys ev)). source_locked bs t s)"
  by (auto simp: isStuffingSourceLocked_def Let_def filter_empty_conv)

section \<open>Properties\<close>

text \<open>
  A failed login is recorded source by source: the bucket of a source the event correlates with
  is pruned, extended and evaluated on its own history alone, and every other bucket is untouched.
\<close>

theorem failure_recorded_per_source:
  "map_get (fst (recordCredentialFailure cfg bs ev now)) s =
     (case map_of (deriveSourceKeys ev) s of None \<Rightarrow> map_get bs s
      | Some k \<Rightarrow> Some (fst (hit_bucket cfg now (account_of ev) (s, k) (or_else (map_get bs s) new_bucket))))"
  by (rule record_get)



text \<open>
  Two addresses of one /64 that are written with a compressed run of zeros get different subnet
  keys, because the first four non-empty groups of the text are taken for the first four hextets.
\<close>

lemma compressed_v6_subnets_differ:
  "toSubnet ''2001:db8::1'' \<noteq> toSubnet ''2001:db8::2''"
  by (simp add: toSubnet_def js_trim_def js_space_def dotted_quad_def)

end
