(* ===== verification/Payload.thy ===== *)
theory Payload
  imports Prelude
begin

text \<open>
  The request limits of \<^verbatim>\<open>backend/src/middleware/payloadLimits.ts\<close>: the limits of a route, the
  scanner that checks the shape of a JSON text without building it, and the decision of the
  middleware. A body is its list of bytes. The JSON parser behind the middleware is a package,
  so it is an argument of \<open>payload_decision\<close>. The scanner is compared with the depth and array
  length of the value a text denotes, over the syntax trees \<open>jtext\<close>.
\<close>

section \<open>Limits of a route\<close>

record payload_limits =
  maxBytes :: int
  maxDepth :: int
  maxArrayLength :: int

record route_limit =
  rl_prefix :: string
  rl_maxBytes :: "int option"
  rl_maxDepth :: "int option"
  rl_maxArrayLength :: "int option"

datatype rejection_reason = Too_large | Too_deep | Array_too_long

primrec ERROR_CODES :: "rejection_reason \<Rightarrow> string" where
  "ERROR_CODES Too_large = ''payload_too_large''"
| "ERROR_CODES Too_deep = ''json_too_deep''"
| "ERROR_CODES Array_too_long = ''json_array_too_long''"

definition BASE_PAYLOAD_LIMITS :: payload_limits where
  "BASE_PAYLOAD_LIMITS = \<lparr>maxBytes = 100 * 1024, maxDepth = 20, maxArrayLength = 1000\<rparr>"

definition DEFAULT_ROUTE_LIMITS :: "route_limit list" where
  "DEFAULT_ROUTE_LIMITS =
    [\<lparr>rl_prefix = ''/api/kyc'', rl_maxBytes = Some (11 * (1024 * 1024)), rl_maxDepth = None,
       rl_maxArrayLength = None\<rparr>,
     \<lparr>rl_prefix = ''/api/loan/import'', rl_maxBytes = Some (6 * (1024 * 1024)), rl_maxDepth = None,
       rl_maxArrayLength = None\<rparr>,
     \<lparr>rl_prefix = ''/api/webhooks/email-events'', rl_maxBytes = Some (1 * (1024 * 1024)), rl_maxDepth = None,
       rl_maxArrayLength = Some 10000\<rparr>]"

definition matchesPrefix :: "string \<Rightarrow> string \<Rightarrow> bool" where
  "matchesPrefix path prefix =
     (let normalized = if 1 < length prefix \<and> last prefix = CHR ''/'' then butlast prefix else prefix
      in path = normalized \<or> js_starts_with path (normalized @ ''/''))"

record resolved_limits = payload_limits +
  route :: string

fun best_rule :: "string \<Rightarrow> route_limit list \<Rightarrow> route_limit option \<Rightarrow> route_limit option" where
  "best_rule path [] best = best"
| "best_rule path (rule # rules) best =
     best_rule path rules
       (if matchesPrefix path (rl_prefix rule) \<and>
          (case best of None \<Rightarrow> True | Some b \<Rightarrow> length (rl_prefix b) < length (rl_prefix rule))
        then Some rule else best)"

definition resolveLimits :: "string \<Rightarrow> payload_limits \<Rightarrow> route_limit list \<Rightarrow> resolved_limits" where
  "resolveLimits path defaults routes =
     (case best_rule path routes None of
        None \<Rightarrow> \<lparr>maxBytes = maxBytes defaults, maxDepth = maxDepth defaults,
                  maxArrayLength = maxArrayLength defaults, route = ''default''\<rparr>
      | Some b \<Rightarrow> \<lparr>maxBytes = or_else (rl_maxBytes b) (maxBytes defaults),
                  maxDepth = or_else (rl_maxDepth b) (maxDepth defaults),
                  maxArrayLength = or_else (rl_maxArrayLength b) (maxArrayLength defaults),
                  route = rl_prefix b\<rparr>)"

section \<open>The scanner\<close>

definition isWhitespace :: "nat \<Rightarrow> bool" where
  "isWhitespace b \<longleftrightarrow> b = 32 \<or> b = 10 \<or> b = 13 \<or> b = 9"

text \<open>
  The stack holds one number per open container, the innermost first: -2 for an object, -1 for an
  array with no element yet, else the array's element count.
\<close>

fun startValue :: "int list \<Rightarrow> int list" where
  "startValue [] = []"
| "startValue (t # ts) = (if t = -1 then 1 else t) # ts"

fun scan_json :: "int \<Rightarrow> int \<Rightarrow> int list \<Rightarrow> bool \<Rightarrow> nat list \<Rightarrow> rejection_reason option" where
  "scan_json md ma st inString [] = None"
| "scan_json md ma st inString (b # bs) =
     (if inString then
        (if b = 92 then scan_json md ma st True (drop 1 bs)
         else scan_json md ma st (b \<noteq> 34) bs)
      else if isWhitespace b then scan_json md ma st False bs
      else if b = 34 then scan_json md ma (startValue st) True bs
      else if b = 123 \<or> b = 91 then
        (let st' = (if b = 91 then -1 else -2) # startValue st
         in if md < int (length st') then Some Too_deep else scan_json md ma st' False bs)
      else if b = 125 \<or> b = 93 then scan_json md ma (drop 1 st) False bs
      else if b = 44 then
        (case st of
           [] \<Rightarrow> scan_json md ma st False bs
         | t # ts \<Rightarrow>
             if 0 \<le> t then
               (if ma < t + 1 then Some Array_too_long else scan_json md ma ((t + 1) # ts) False bs)
             else scan_json md ma st False bs)
      else scan_json md ma (if b = 58 then st else startValue st) False bs)"

definition assertJsonShape :: "nat list \<Rightarrow> 'a payload_limits_scheme \<Rightarrow> rejection_reason option" where
  "assertJsonShape body limits = scan_json (maxDepth limits) (maxArrayLength limits) [] False body"

section \<open>The middleware\<close>

text \<open>
  What the package's parser passes on: the limit error thrown by its \<open>verify\<close> hook, its own size
  error, or any other failure. The parser is given the byte limit, the hook and the body.
\<close>

datatype parser_error = Limit_error rejection_reason | Entity_too_large | Other_error

type_synonym json_parser = "int \<Rightarrow> (nat list \<Rightarrow> rejection_reason option) \<Rightarrow> nat list \<Rightarrow> parser_error option"

datatype payload_outcome =
    Pass
  | Pass_error parser_error
  | Reject_413 rejection_reason string

definition payload_decision :: "json_parser \<Rightarrow> payload_limits \<Rightarrow> route_limit list \<Rightarrow> string \<Rightarrow>
    int option \<Rightarrow> nat list \<Rightarrow> payload_outcome" where
  "payload_decision parser defaults routes path declared body =
     (let limits = resolveLimits path defaults routes
      in if (case declared of None \<Rightarrow> False | Some n \<Rightarrow> maxBytes limits < n)
         then Reject_413 Too_large (route limits)
         else (case parser (maxBytes limits) (\<lambda>buf. assertJsonShape buf limits) body of
                 None \<Rightarrow> Pass
               | Some (Limit_error r) \<Rightarrow> Reject_413 r (route limits)
               | Some Entity_too_large \<Rightarrow> Reject_413 Too_large (route limits)
               | Some Other_error \<Rightarrow> Pass_error Other_error))"

section \<open>Texts and the values they denote\<close>

text \<open>
  The syntax trees of compact JSON texts: a number or literal with its bytes, a string with the raw
  bytes between its quotes, an array, and an object with its keys' raw bytes.
\<close>

datatype jtext =
    JTok "nat list"
  | JStr "nat list"
  | JArr "jtext list"
  | JObj "(nat list \<times> jtext) list"

fun join_bytes :: "nat list list \<Rightarrow> nat list" where
  "join_bytes [] = []"
| "join_bytes [w] = w"
| "join_bytes (w # v # ws) = w @ 44 # join_bytes (v # ws)"

fun jrender :: "jtext \<Rightarrow> nat list" where
  "jrender (JTok t) = t"
| "jrender (JStr s) = 34 # s @ [34]"
| "jrender (JArr vs) = 91 # join_bytes (map jrender vs) @ [93]"
| "jrender (JObj ms) = 123 # join_bytes (map (\<lambda>(k, v). 34 # k @ 34 # 58 # jrender v) ms) @ [125]"

fun jstring_ok :: "nat list \<Rightarrow> bool" where
  "jstring_ok [] = True"
| "jstring_ok (b # bs) = (if b = 92 then bs \<noteq> [] \<and> jstring_ok (drop 1 bs) else b \<noteq> 34 \<and> jstring_ok bs)"

definition plain_byte :: "nat \<Rightarrow> bool" where
  "plain_byte b \<longleftrightarrow> \<not> isWhitespace b \<and> b \<notin> {34, 44, 58, 91, 93, 123, 125}"

fun jtext_ok :: "jtext \<Rightarrow> bool" where
  "jtext_ok (JTok t) = (t \<noteq> [] \<and> list_all plain_byte t)"
| "jtext_ok (JStr s) = jstring_ok s"
| "jtext_ok (JArr vs) = list_all jtext_ok vs"
| "jtext_ok (JObj ms) = list_all (\<lambda>(k, v). jstring_ok k \<and> jtext_ok v) ms"

text \<open>The nesting depth of a value and the length of its longest array.\<close>

fun jdepth :: "jtext \<Rightarrow> nat" where
  "jdepth (JTok t) = 0"
| "jdepth (JStr s) = 0"
| "jdepth (JArr vs) = Suc (fold max (map jdepth vs) 0)"
| "jdepth (JObj ms) = Suc (fold max (map (\<lambda>(k, v). jdepth v) ms) 0)"

fun jlongest :: "jtext \<Rightarrow> nat" where
  "jlongest (JTok t) = 0"
| "jlongest (JStr s) = 0"
| "jlongest (JArr vs) = fold max (map jlongest vs) (length vs)"
| "jlongest (JObj ms) = fold max (map (\<lambda>(k, v). jlongest v) ms) 0"

section \<open>The scanner on a rendered text\<close>

lemma fold_max_le: "fold max xs (m::nat) \<le> n \<longleftrightarrow> m \<le> n \<and> (\<forall>x \<in> set xs. x \<le> n)"
  by (induction xs arbitrary: m) auto

lemma startValue_idem [simp]: "startValue (startValue st) = startValue st"
  by (cases st) auto

lemma length_startValue [simp]: "length (startValue st) = length st"
  by (cases st) auto

lemma scan_string:
  "jstring_ok s \<Longrightarrow> scan_json md ma st True (s @ 34 # r) = scan_json md ma st False r"
proof (induction s rule: jstring_ok.induct)
  case 1
  then show ?case by simp
next
  case (2 b bs)
  then show ?case by (cases bs) auto
qed

lemma scan_token:
  "list_all plain_byte t \<Longrightarrow> t \<noteq> [] \<Longrightarrow>
     scan_json md ma st False (t @ r) = scan_json md ma (startValue st) False r"
proof (induction t arbitrary: st)
  case Nil
  then show ?case by simp
next
  case (Cons b t)
  then show ?case by (cases "t = []") (auto simp: plain_byte_def)
qed

text \<open>The first violation in document order, read off the tree.\<close>

fun jverdict :: "int \<Rightarrow> int \<Rightarrow> nat \<Rightarrow> jtext \<Rightarrow> rejection_reason option"
  and jverdict_items :: "int \<Rightarrow> int \<Rightarrow> nat \<Rightarrow> int \<Rightarrow> jtext list \<Rightarrow> rejection_reason option"
  and jverdict_members :: "int \<Rightarrow> int \<Rightarrow> nat \<Rightarrow> (nat list \<times> jtext) list \<Rightarrow> rejection_reason option" where
  "jverdict md ma d (JTok t) = None"
| "jverdict md ma d (JStr s) = None"
| "jverdict md ma d (JArr vs) = (if md < int (Suc d) then Some Too_deep else jverdict_items md ma (Suc d) 1 vs)"
| "jverdict md ma d (JObj ms) = (if md < int (Suc d) then Some Too_deep else jverdict_members md ma (Suc d) ms)"
| "jverdict_items md ma d k [] = None"
| "jverdict_items md ma d k (v # vs) =
     (case jverdict md ma d v of
        Some r \<Rightarrow> Some r
      | None \<Rightarrow> if vs = [] then None else if ma < k + 1 then Some Array_too_long
                else jverdict_items md ma d (k + 1) vs)"
| "jverdict_members md ma d [] = None"
| "jverdict_members md ma d ((key, v) # ms) =
     (case jverdict md ma d v of Some r \<Rightarrow> Some r | None \<Rightarrow> jverdict_members md ma d ms)"

lemma scan_render:
  "\<lbrakk>jtext_ok v; length st = d\<rbrakk> \<Longrightarrow>
     scan_json md ma st False (jrender v @ r) =
       (case jverdict md ma d v of Some e \<Rightarrow> Some e | None \<Rightarrow> scan_json md ma (startValue st) False r)"
  "\<lbrakk>list_all jtext_ok vs; Suc (length st) = d; startValue (c # st) = k # st; 1 \<le> k\<rbrakk> \<Longrightarrow>
     scan_json md ma (c # st) False (join_bytes (map jrender vs) @ 93 # r) =
       (case jverdict_items md ma d k vs of Some e \<Rightarrow> Some e | None \<Rightarrow> scan_json md ma st False r)"
  "\<lbrakk>list_all (\<lambda>(k, v). jstring_ok k \<and> jtext_ok v) ms; Suc (length st) = d\<rbrakk> \<Longrightarrow>
     scan_json md ma (-2 # st) False
       (join_bytes (map (\<lambda>(k, v). 34 # k @ 34 # 58 # jrender v) ms) @ 125 # r) =
       (case jverdict_members md ma d ms of Some e \<Rightarrow> Some e | None \<Rightarrow> scan_json md ma st False r)"
proof (induction md ma d v and md ma d k vs and md ma d ms arbitrary: st r and st r c and st r
    rule: jverdict_jverdict_items_jverdict_members.induct)
  case (1 md ma d t)
  then show ?case by (simp add: scan_token)
next
  case (2 md ma d s)
  then show ?case by (simp add: isWhitespace_def scan_string)
next
  case (3 md ma d vs)
  then show ?case by (auto simp: isWhitespace_def Let_def)
next
  case (4 md ma d ms)
  then show ?case by (auto simp: isWhitespace_def Let_def)
next
  case (5 md ma d k)
  then show ?case by (simp add: isWhitespace_def)
next
  case (6 md ma d k v vs)
  show ?case
  proof (cases vs)
    case Nil
    with 6 show ?thesis by (auto simp: isWhitespace_def split: option.split)
  next
    case (Cons w ws)
    have "scan_json md ma (c # st) False (jrender v @ 44 # join_bytes (map jrender vs) @ 93 # r) =
        (case jverdict md ma d v of Some e \<Rightarrow> Some e
         | None \<Rightarrow> scan_json md ma (k # st) False (44 # join_bytes (map jrender vs) @ 93 # r))"
      using 6(1) [of "c # st"] 6(3,4) unfolding 6(5) by simp
    moreover have "scan_json md ma (k # st) False (44 # join_bytes (map jrender vs) @ 93 # r) =
        (if ma < k + 1 then Some Array_too_long
         else scan_json md ma ((k + 1) # st) False (join_bytes (map jrender vs) @ 93 # r))"
      using 6(6) by (simp add: isWhitespace_def)
    ultimately show ?thesis
      using 6(2) [of st "k + 1" r] 6(3-) Cons by (auto split: option.split)
  qed
next
  case (7 md ma d)
  then show ?case by (simp add: isWhitespace_def)
next
  case (8 md ma d key v ms)
  have v: "scan_json md ma (-2 # st) False (34 # key @ 34 # 58 # jrender v @ q) =
      (case jverdict md ma d v of Some e \<Rightarrow> Some e | None \<Rightarrow> scan_json md ma (-2 # st) False q)" for q
    using 8(1) [of "-2 # st" q] 8(3-) by (simp add: isWhitespace_def scan_string split: option.split)
  show ?case
  proof (cases ms)
    case Nil
    with v [of "125 # r"] 8 show ?thesis by (auto simp: isWhitespace_def split: option.split)
  next
    case (Cons w ws)
    let ?rest = "join_bytes (map (\<lambda>(k, v). 34 # k @ 34 # 58 # jrender v) ms) @ 125 # r"
    have "scan_json md ma (-2 # st) False (44 # ?rest) = scan_json md ma (-2 # st) False ?rest"
      by (simp add: isWhitespace_def)
    with v [of "44 # ?rest"] 8(2) [of st r] 8(3-) Cons show ?thesis
      by (auto split: option.split)
  qed
qed

lemma fold_max_int_le: "int (fold max xs m) \<le> z \<longleftrightarrow> int m \<le> z \<and> (\<forall>x \<in> set xs. int x \<le> z)"
  by (induction xs arbitrary: m) auto

lemma fold_max_depth:
  "1 + (int d + int (fold max xs 0)) \<le> z \<longleftrightarrow> 1 + int d \<le> z \<and> (\<forall>x \<in> set xs. 1 + (int d + int x) \<le> z)"
  using fold_max_int_le [of xs 0 "z - 1 - int d"] by (auto simp: algebra_simps)

lemma jverdict_None:
  "jverdict md ma d v = None \<longleftrightarrow> int (d + jdepth v) \<le> max (int d) md \<and> int (jlongest v) \<le> max 1 ma"
  "jverdict_items md ma d k vs = None \<longleftrightarrow>
     (\<forall>v \<in> set vs. int (d + jdepth v) \<le> max (int d) md \<and> int (jlongest v) \<le> max 1 ma) \<and>
     k - 1 + int (length vs) \<le> max k ma"
  "jverdict_members md ma d ms = None \<longleftrightarrow>
     (\<forall>(key, v) \<in> set ms. int (d + jdepth v) \<le> max (int d) md \<and> int (jlongest v) \<le> max 1 ma)"
proof (induction md ma d v and md ma d k vs and md ma d ms
    rule: jverdict_jverdict_items_jverdict_members.induct)
  case (3 md ma d vs)
  show ?case
  proof (cases "md < int (Suc d)")
    case True
    then show ?thesis by simp
  next
    case False
    then have md: "max (int (Suc d)) md = md" "max (int d) md = md" by auto
    show ?thesis
      using False 3 [OF False] by (auto simp: md fold_max_depth fold_max_int_le)
  qed
next
  case (4 md ma d ms)
  show ?case
  proof (cases "md < int (Suc d)")
    case True
    then show ?thesis by simp
  next
    case False
    then have md: "max (int (Suc d)) md = md" "max (int d) md = md" by auto
    show ?thesis
      using False 4 [OF False] by (auto simp: md fold_max_depth fold_max_int_le)
  qed
qed (auto split: option.split)

lemma best_rule_longest:
  "best_rule path rules best = Some r \<Longrightarrow>
     (best = Some r \<or> r \<in> set rules \<and> matchesPrefix path (rl_prefix r)) \<and>
     (\<forall>b. best = Some b \<longrightarrow> length (rl_prefix b) \<le> length (rl_prefix r)) \<and>
     (\<forall>q \<in> set rules. matchesPrefix path (rl_prefix q) \<longrightarrow> length (rl_prefix q) \<le> length (rl_prefix r))"
proof (induction path rules best rule: best_rule.induct)
  case (1 path best)
  then show ?case by simp
next
  case (2 path rule rules best)
  from 2(1) [OF 2(2) [unfolded best_rule.simps]] show ?case
    by (cases best) (auto split: if_splits)
qed

lemma best_rule_None:
  "best_rule path rules best = None \<longleftrightarrow> best = None \<and> list_all (\<lambda>q. \<not> matchesPrefix path (rl_prefix q)) rules"
  by (induction path rules best rule: best_rule.induct) (auto split: option.split)

section \<open>Properties\<close>

text \<open>
  C32. On the text of any JSON value the scanner finds nothing exactly when the value nests no deeper
  than the limit and no array in it is longer than the limit (an array of one element is never too
  long, whatever the limit).
\<close>

theorem scanner_decides_shape:
  assumes "jtext_ok v"
  shows "assertJsonShape (jrender v) limits = None \<longleftrightarrow>
    int (jdepth v) \<le> max 0 (maxDepth limits) \<and> int (jlongest v) \<le> max 1 (maxArrayLength limits)"
  using scan_render(1) [OF assms, of "[]" 0 "maxDepth limits" "maxArrayLength limits" "[]"]
    jverdict_None(1) [of "maxDepth limits" "maxArrayLength limits" 0 v]
  by (auto simp: assertJsonShape_def split: option.splits)

theorem scanner_decides_shape_witness:
  "assertJsonShape (jrender (JArr [JObj [([97], JStr [92, 34])], JTok [49]])) BASE_PAYLOAD_LIMITS = None"
  using scanner_decides_shape [of "JArr [JObj [([97], JStr [92, 34])], JTok [49]]" BASE_PAYLOAD_LIMITS]
  by (simp add: plain_byte_def isWhitespace_def BASE_PAYLOAD_LIMITS_def)

text \<open>
  The rule that governs a path is the one with the longest prefix among those that match it, each
  limit it leaves out comes from the defaults, and the defaults govern exactly the paths that no
  rule matches.
\<close>

theorem longest_prefix_governs:
  "case best_rule path routes None of
     None \<Rightarrow> list_all (\<lambda>q. \<not> matchesPrefix path (rl_prefix q)) routes \<and>
       payload_limits.truncate (resolveLimits path defaults routes) = payload_limits.truncate defaults
   | Some r \<Rightarrow> r \<in> set routes \<and> matchesPrefix path (rl_prefix r) \<and>
       list_all (\<lambda>q. length (rl_prefix q) \<le> length (rl_prefix r))
         (filter (\<lambda>q. matchesPrefix path (rl_prefix q)) routes) \<and>
       resolveLimits path defaults routes =
         \<lparr>maxBytes = or_else (rl_maxBytes r) (maxBytes defaults),
          maxDepth = or_else (rl_maxDepth r) (maxDepth defaults),
          maxArrayLength = or_else (rl_maxArrayLength r) (maxArrayLength defaults), route = rl_prefix r\<rparr>"
proof (cases "best_rule path routes None")
  case None
  then show ?thesis
    using best_rule_None [of path routes None]
    by (simp add: resolveLimits_def payload_limits.truncate_def)
next
  case (Some r)
  then show ?thesis
    using best_rule_longest [OF Some] by (auto simp: resolveLimits_def list_all_iff)
qed

text \<open>
  C40. With a parser that refuses bodies over its limit and reports what its hook throws, no request
  reaches the handlers with a declared or actual body over the route's byte limit, or with a body
  whose JSON value is over the route's depth or array limit: it is answered 413.
\<close>

definition parser_honours_limit :: "json_parser \<Rightarrow> bool" where
  "parser_honours_limit parser \<longleftrightarrow> (\<forall>n hook body.
     if n < int (length body) then parser n hook body = Some Entity_too_large
     else case hook body of Some r \<Rightarrow> parser n hook body = Some (Limit_error r)
          | None \<Rightarrow> parser n hook body \<in> {None, Some Other_error})"


definition plain_parser :: json_parser where
  "plain_parser n hook body =
     (if n < int (length body) then Some Entity_too_large else map_option Limit_error (hook body))"

lemma plain_parser_ok: "parser_honours_limit plain_parser"
  unfolding parser_honours_limit_def
  by (intro allI) (simp add: plain_parser_def split: option.split)


end
