(* ===== verification/LoanHistory.thy ===== *)
theory LoanHistory
  imports Prelude
begin

text \<open>
  The point-in-time history of loan applications, \<^verbatim>\<open>backend/src/services/loanHistory.ts\<close>: the
  field-level diff, the two writers of the audit trail and the replay that reconstructs a past state.
  The database behind the trail is the client library's, so its two operations (append a row, query
  the rows of one application up to a date) are arguments, with \<open>audit_table\<close> as what they promise.
  A date is its epoch milliseconds. An amount is a value, since the store compares the number of the row with the text
  of the view.
\<close>

section \<open>Snapshots and change sets\<close>

record loan_snapshot =
  ls_borrowerAddress :: string
  ls_amount :: js_value
  ls_status :: string
  ls_reason :: "string option"

type_synonym 'a field_change = "('a \<times> 'a) option"

record loan_change_set =
  cs_borrowerAddress :: "string field_change"
  cs_amount :: "js_value field_change"
  cs_status :: "string field_change"
  cs_reason :: "string option field_change"

definition LOAN_AUDIT_ACTION_PREFIX :: string where
  "LOAN_AUDIT_ACTION_PREFIX = ''loan_application.''"

definition LOAN_CREATED_ACTION :: string where
  "LOAN_CREATED_ACTION = LOAN_AUDIT_ACTION_PREFIX @ ''created''"

definition LOAN_UPDATED_ACTION :: string where
  "LOAN_UPDATED_ACTION = LOAN_AUDIT_ACTION_PREFIX @ ''updated''"

definition field_diff :: "'a \<Rightarrow> 'a \<Rightarrow> 'a field_change" where
  "field_diff before after = (if before \<noteq> after then Some (before, after) else None)"

definition diffLoanSnapshot :: "loan_snapshot \<Rightarrow> loan_snapshot \<Rightarrow> loan_change_set" where
  "diffLoanSnapshot before after =
     \<lparr>cs_borrowerAddress = field_diff (ls_borrowerAddress before) (ls_borrowerAddress after),
      cs_amount = field_diff (ls_amount before) (ls_amount after),
      cs_status = field_diff (ls_status before) (ls_status after),
      cs_reason = field_diff (ls_reason before) (ls_reason after)\<rparr>"

definition no_changes :: loan_change_set where
  "no_changes = \<lparr>cs_borrowerAddress = None, cs_amount = None, cs_status = None, cs_reason = None\<rparr>"

section \<open>Writing the trail\<close>

datatype audit_metadata =
    Snapshot_meta loan_snapshot
  | Changes_meta loan_change_set
  | Other_meta

record audit_row =
  ar_action :: string
  ar_actorAddress :: "string option"
  ar_ipAddress :: "string option"
  ar_applicationId :: string
  ar_metadata :: audit_metadata

record audit_context =
  ac_actorAddress :: "string option"
  ac_ipAddress :: "string option"

text \<open>\<open>create db row now\<close> is the client's insert at a clock value.\<close>

definition recordLoanCreation ::
    "('db \<Rightarrow> audit_row \<Rightarrow> int \<Rightarrow> 'db) \<Rightarrow> 'db \<Rightarrow> string \<Rightarrow> loan_snapshot \<Rightarrow> audit_context \<Rightarrow> int \<Rightarrow> 'db" where
  "recordLoanCreation create db app snapshot ctx now =
     create db \<lparr>ar_action = LOAN_CREATED_ACTION, ar_actorAddress = ac_actorAddress ctx,
       ar_ipAddress = ac_ipAddress ctx, ar_applicationId = app, ar_metadata = Snapshot_meta snapshot\<rparr> now"

definition recordLoanChange ::
    "('db \<Rightarrow> audit_row \<Rightarrow> int \<Rightarrow> 'db) \<Rightarrow> 'db \<Rightarrow> string \<Rightarrow> loan_change_set \<Rightarrow> audit_context \<Rightarrow> string \<Rightarrow>
     int \<Rightarrow> 'db" where
  "recordLoanChange create db app changes ctx action now =
     (if changes = no_changes then db
      else create db \<lparr>ar_action = action, ar_actorAddress = ac_actorAddress ctx,
        ar_ipAddress = ac_ipAddress ctx, ar_applicationId = app, ar_metadata = Changes_meta changes\<rparr> now)"

section \<open>Reading it back\<close>

record audit_entry =
  ae_action :: string
  ae_createdAt :: int
  ae_metadata :: audit_metadata

text \<open>\<open>findMany db prefix asOf app\<close> is the query with its three filters and its ordering.\<close>

definition loadLoanAuditTrail ::
    "('db \<Rightarrow> string \<Rightarrow> int \<Rightarrow> string \<Rightarrow> audit_entry list) \<Rightarrow> 'db \<Rightarrow> string \<Rightarrow> int \<Rightarrow> audit_entry list" where
  "loadLoanAuditTrail findMany db app asOf = findMany db LOAN_AUDIT_ACTION_PREFIX asOf app"

definition apply_change :: "'a field_change \<Rightarrow> 'a \<Rightarrow> 'a" where
  "apply_change c v = (case c of None \<Rightarrow> v | Some (from, to) \<Rightarrow> to)"

definition apply_changes :: "loan_snapshot \<Rightarrow> loan_change_set \<Rightarrow> loan_snapshot" where
  "apply_changes s cs =
     \<lparr>ls_borrowerAddress = apply_change (cs_borrowerAddress cs) (ls_borrowerAddress s),
      ls_amount = apply_change (cs_amount cs) (ls_amount s),
      ls_status = apply_change (cs_status cs) (ls_status s),
      ls_reason = apply_change (cs_reason cs) (ls_reason s)\<rparr>"

fun replay :: "audit_entry list \<Rightarrow> loan_snapshot \<Rightarrow> int \<Rightarrow> loan_snapshot \<times> int" where
  "replay [] s upd = (s, upd)"
| "replay (e # es) s upd =
     (if ae_action e = LOAN_CREATED_ACTION then replay es s upd
      else case ae_metadata e of
             Changes_meta cs \<Rightarrow> replay es (apply_changes s cs) (ae_createdAt e)
           | _ \<Rightarrow> replay es s upd)"

record live_record =
  lr_id :: string
  lr_createdAt :: int

record loan_view =
  lv_id :: string
  lv_snapshot :: loan_snapshot
  lv_createdAt :: int
  lv_updatedAt :: int
  lv_version :: nat

text \<open>
  The snapshot a creation entry carries; an entry without one leaves the fields undefined, which is
  outside the model, so the option marks it. The seed is the caller's fallback for a trail without a
  creation entry.
\<close>

definition creation_seed :: "audit_entry \<Rightarrow> loan_snapshot option" where
  "creation_seed e = (case ae_metadata e of Snapshot_meta s \<Rightarrow> Some s | _ \<Rightarrow> None)"

definition reconstructLoanApplicationAt ::
    "('db \<Rightarrow> string \<Rightarrow> int \<Rightarrow> string \<Rightarrow> audit_entry list) \<Rightarrow> 'db \<Rightarrow> live_record option \<Rightarrow> string \<Rightarrow> int \<Rightarrow>
     loan_snapshot option \<Rightarrow> loan_view option" where
  "reconstructLoanApplicationAt findMany db live app asOf fallbackSeed =
     (case live of None \<Rightarrow> None
      | Some rec \<Rightarrow>
          if asOf < lr_createdAt rec then None
          else
            (let trail = loadLoanAuditTrail findMany db app asOf;
                 seed = (case find (\<lambda>e. ae_action e = LOAN_CREATED_ACTION) trail of
                     Some c \<Rightarrow> map_option (\<lambda>s. (s, ae_createdAt c)) (creation_seed c)
                   | None \<Rightarrow> map_option (\<lambda>s. (s, lr_createdAt rec)) fallbackSeed)
             in case seed of None \<Rightarrow> None
                | Some (s, upd) \<Rightarrow>
                    (let (s', upd') = replay trail s upd
                     in Some \<lparr>lv_id = lr_id rec, lv_snapshot = s', lv_createdAt = lr_createdAt rec,
                               lv_updatedAt = upd', lv_version = 0\<rparr>)))"

section \<open>The table\<close>

text \<open>
  What the code relies on: an inserted row is found by exactly the queries whose filters it passes,
  after every row of an earlier time. (The rows of one instant come in the order of their random ids,
  so the law speaks of a clock that has advanced.)
\<close>

definition entry_of :: "audit_row \<Rightarrow> int \<Rightarrow> audit_entry" where
  "entry_of r now = \<lparr>ae_action = ar_action r, ae_createdAt = now, ae_metadata = ar_metadata r\<rparr>"

definition audit_table ::
    "('db \<Rightarrow> audit_row \<Rightarrow> int \<Rightarrow> 'db) \<Rightarrow> ('db \<Rightarrow> string \<Rightarrow> int \<Rightarrow> string \<Rightarrow> audit_entry list) \<Rightarrow> ('db \<Rightarrow> int) \<Rightarrow> bool" where
  "audit_table create findMany latest \<longleftrightarrow>
     (\<forall>db r now p asOf app. latest db < now \<longrightarrow>
        latest (create db r now) = now \<and>
        findMany (create db r now) p asOf app =
          findMany db p asOf app @
          (if js_starts_with (ar_action r) p \<and> now \<le> asOf \<and> ar_applicationId r = app
           then [entry_of r now] else []))"

text \<open>
  The life of one application as its callers write it: the states it went through after its
  creation, each written as the diff from the one before it.
\<close>

fun write_changes ::
    "('db \<Rightarrow> audit_row \<Rightarrow> int \<Rightarrow> 'db) \<Rightarrow> string \<Rightarrow> audit_context \<Rightarrow> 'db \<Rightarrow> loan_snapshot \<Rightarrow>
     (loan_snapshot \<times> int) list \<Rightarrow> 'db" where
  "write_changes create app ctx db prev [] = db"
| "write_changes create app ctx db prev ((s, now) # rest) =
     write_changes create app ctx
       (recordLoanChange create db app (diffLoanSnapshot prev s) ctx LOAN_UPDATED_ACTION now) s rest"

text \<open>The state that was current at a date.\<close>

fun state_at :: "loan_snapshot \<Rightarrow> (loan_snapshot \<times> int) list \<Rightarrow> int \<Rightarrow> loan_snapshot" where
  "state_at s [] asOf = s"
| "state_at s ((s', t) # rest) asOf = (if t \<le> asOf then state_at s' rest asOf else s)"

fun increasing_from :: "int \<Rightarrow> (loan_snapshot \<times> int) list \<Rightarrow> bool" where
  "increasing_from t [] = True"
| "increasing_from t ((s, t') # rest) = (t < t' \<and> increasing_from t' rest)"

lemma apply_diff: "apply_changes s (diffLoanSnapshot s s') = s'"
  by (simp add: apply_changes_def diffLoanSnapshot_def field_diff_def apply_change_def)

lemma diff_empty: "diffLoanSnapshot s s' = no_changes \<longleftrightarrow> s = s'"
  by (cases s; cases s') (auto simp: diffLoanSnapshot_def no_changes_def field_diff_def)

lemma action_prefixes [simp]:
  "js_starts_with LOAN_CREATED_ACTION LOAN_AUDIT_ACTION_PREFIX"
  "js_starts_with LOAN_UPDATED_ACTION LOAN_AUDIT_ACTION_PREFIX"
  "LOAN_UPDATED_ACTION \<noteq> LOAN_CREATED_ACTION"
  by (auto simp: LOAN_CREATED_ACTION_def LOAN_UPDATED_ACTION_def js_starts_with_append)

lemma replay_append:
  "replay (xs @ ys) s u = (let (s', u') = replay xs s u in replay ys s' u')"
  by (induction xs arbitrary: s u) (auto split: audit_metadata.split)

lemma increasing_from_mono: "increasing_from t xs \<Longrightarrow> u \<le> t \<Longrightarrow> increasing_from u xs"
  by (cases xs) auto

lemma find_append_Some: "find P xs = Some x \<Longrightarrow> find P (xs @ ys) = Some x"
  by (induction xs) auto

lemma recordLoanChange_row:
  assumes "audit_table create findMany latest" and "latest db < now"
  shows "latest (recordLoanChange create db app (diffLoanSnapshot s s') ctx LOAN_UPDATED_ACTION now) \<le> now \<and>
    findMany (recordLoanChange create db app (diffLoanSnapshot s s') ctx LOAN_UPDATED_ACTION now)
      LOAN_AUDIT_ACTION_PREFIX asOf app =
    findMany db LOAN_AUDIT_ACTION_PREFIX asOf app @
      (if s \<noteq> s' \<and> now \<le> asOf
       then [\<lparr>ae_action = LOAN_UPDATED_ACTION, ae_createdAt = now,
               ae_metadata = Changes_meta (diffLoanSnapshot s s')\<rparr>] else [])"
  using assms by (auto simp: recordLoanChange_def diff_empty audit_table_def entry_of_def)

lemma writes_after_asOf:
  assumes "audit_table create findMany latest"
  shows "latest db \<le> t \<Longrightarrow> increasing_from t rest \<Longrightarrow> asOf \<le> t \<Longrightarrow>
    findMany (write_changes create app ctx db prev rest) LOAN_AUDIT_ACTION_PREFIX asOf app =
    findMany db LOAN_AUDIT_ACTION_PREFIX asOf app"
proof (induction rest arbitrary: db prev t)
  case Nil
  then show ?case by simp
next
  case (Cons p rest)
  obtain s' t' where p: "p = (s', t')" by (cases p)
  with Cons.prems have "latest db < t'" "increasing_from t' rest" "asOf < t'" by auto
  with recordLoanChange_row [OF assms this(1), of app prev s' ctx asOf] p
    Cons.IH [of "recordLoanChange create db app (diffLoanSnapshot prev s') ctx LOAN_UPDATED_ACTION t'" t' s']
  show ?case by simp
qed

lemma writes_trail:
  assumes "audit_table create findMany latest"
  shows "latest db \<le> t \<Longrightarrow> increasing_from t rest \<Longrightarrow> \<exists>tail.
    findMany (write_changes create app ctx db prev rest) LOAN_AUDIT_ACTION_PREFIX asOf app =
      findMany db LOAN_AUDIT_ACTION_PREFIX asOf app @ tail \<and>
    (\<forall>u. fst (replay tail prev u) = state_at prev rest asOf)"
proof (induction rest arbitrary: db prev t)
  case Nil
  then show ?case by simp
next
  case (Cons p rest)
  obtain s' t' where p: "p = (s', t')" by (cases p)
  with Cons.prems have lt: "latest db < t'" and inc: "increasing_from t' rest" by auto
  let ?db = "recordLoanChange create db app (diffLoanSnapshot prev s') ctx LOAN_UPDATED_ACTION t'"
  note row = recordLoanChange_row [OF assms lt, of app prev s' ctx asOf]
  show ?case
  proof (cases "t' \<le> asOf")
    case True
    obtain tail where "findMany (write_changes create app ctx ?db s' rest) LOAN_AUDIT_ACTION_PREFIX asOf app =
        findMany ?db LOAN_AUDIT_ACTION_PREFIX asOf app @ tail"
      "\<forall>u. fst (replay tail s' u) = state_at s' rest asOf"
      using Cons.IH [of ?db t' s'] row inc by blast
    with True row show ?thesis
      by (cases "prev = s'") (auto simp: p apply_diff)
  next
    case False
    then show ?thesis
      using writes_after_asOf [OF assms _ inc, of ?db asOf app ctx s'] row by (simp add: p)
  qed
qed

section \<open>Property\<close>


text \<open>A table kept as the list of its rows in insertion order satisfies the law.\<close>

definition list_create :: "(audit_row \<times> int) list \<Rightarrow> audit_row \<Rightarrow> int \<Rightarrow> (audit_row \<times> int) list" where
  "list_create db r now = db @ [(r, now)]"

definition list_find :: "(audit_row \<times> int) list \<Rightarrow> string \<Rightarrow> int \<Rightarrow> string \<Rightarrow> audit_entry list" where
  "list_find db p asOf app =
     map (\<lambda>(r, t). entry_of r t)
       (filter (\<lambda>(r, t). js_starts_with (ar_action r) p \<and> t \<le> asOf \<and> ar_applicationId r = app) db)"

definition list_latest :: "(audit_row \<times> int) list \<Rightarrow> int" where
  "list_latest db = (if db = [] then 0 else snd (last db))"

lemma list_audit_table: "audit_table list_create list_find list_latest"
  by (simp add: audit_table_def list_create_def list_find_def list_latest_def)


end
