(* ===== verification/Signing.thy ===== *)
theory Signing
  imports Prelude
begin

text \<open>
  The two stores of weighted signatures: the signature queue of
  \<^verbatim>\<open>frontend/src/lib/signatureQueueStore.ts\<close> and the milestone committee of
  \<^verbatim>\<open>frontend/src/lib/milestoneSigningStore.ts\<close>. Each is a map from proposal ids to proposals with
  the operations of its module, the time of the call passed in. The locale \<open>weighted_quorum\<close> is the
  contract they share: a proposal passes on the weight of its approved signers and is then closed.
  Weights are integers; the state container behind the first store is state passing.
\<close>

section \<open>Signers\<close>

datatype signer_status = Pending | Approved

record signer =
  sg_address :: string
  sg_label :: string
  sg_weight :: int
  sg_status :: signer_status

datatype proposal_status = Open | Passed

definition find_pending :: "string \<Rightarrow> signer list \<Rightarrow> signer option" where
  "find_pending a ss = find (\<lambda>s. sg_address s = a \<and> sg_status s = Pending) ss"

definition sum_weights :: "signer list \<Rightarrow> int" where
  "sum_weights ss = sum_list (map sg_weight ss)"

definition approved_weight :: "signer list \<Rightarrow> int" where
  "approved_weight ss = sum_weights (filter (\<lambda>s. sg_status s = Approved) ss)"

section \<open>The signature queue\<close>

record cached_proposal =
  cp_proposalId :: string
  cp_milestoneId :: string
  cp_evidenceCid :: string
  cp_signers :: "signer list"
  cp_requiredWeight :: int
  cp_totalWeight :: int
  cp_currentWeight :: int
  cp_status :: proposal_status
  cp_transactionEnvelope :: string
  cp_createdAt :: string
  cp_updatedAt :: string

type_synonym signature_queue = "(string, cached_proposal) js_map"

text \<open>A signer as the caller gives it, without a status: address, label and weight.\<close>

definition pending_signer :: "string \<times> string \<times> int \<Rightarrow> signer" where
  "pending_signer s = \<lparr>sg_address = fst s, sg_label = fst (snd s), sg_weight = snd (snd s), sg_status = Pending\<rparr>"

definition new_proposal :: "string \<Rightarrow> string \<Rightarrow> string \<Rightarrow> (string \<times> string \<times> int) list \<Rightarrow> int \<Rightarrow> string \<Rightarrow>
    cached_proposal" where
  "new_proposal pid mid cid signers required now =
     \<lparr>cp_proposalId = pid, cp_milestoneId = mid, cp_evidenceCid = cid,
      cp_signers = map pending_signer signers, cp_requiredWeight = required,
      cp_totalWeight = sum_list (map (\<lambda>s. snd (snd s)) signers), cp_currentWeight = 0, cp_status = Open,
      cp_transactionEnvelope = ''envelope:'' @ pid @ '':base'', cp_createdAt = now, cp_updatedAt = now\<rparr>"

definition addProposal :: "signature_queue \<Rightarrow> string \<Rightarrow> string \<Rightarrow> string \<Rightarrow> (string \<times> string \<times> int) list \<Rightarrow>
    int \<Rightarrow> string \<Rightarrow> signature_queue" where
  "addProposal q pid mid cid signers required now =
     map_set q pid (new_proposal pid mid cid signers required now)"

definition sign_proposal :: "string \<Rightarrow> cached_proposal \<Rightarrow> string \<times> string \<times> string \<Rightarrow> cached_proposal option" where
  "sign_proposal pid p call =
     (let (addr, xdr, now) = call in
      if cp_status p \<noteq> Open then None
      else case find_pending addr (cp_signers p) of
             None \<Rightarrow> None
           | Some signer \<Rightarrow>
               (let newWeight = cp_currentWeight p + sg_weight signer;
                    isPassed = cp_requiredWeight p \<le> newWeight
                in Some (p\<lparr>
                  cp_signers := map (\<lambda>s. if sg_address s = addr then s\<lparr>sg_status := Approved\<rparr> else s) (cp_signers p),
                  cp_currentWeight := newWeight,
                  cp_status := if isPassed then Passed else Open,
                  cp_transactionEnvelope :=
                    ''envelope:'' @ pid @ '':'' @ (if isPassed then ''fully-signed'' else xdr),
                  cp_updatedAt := now\<rparr>)))"

definition recordSignature :: "signature_queue \<Rightarrow> string \<Rightarrow> string \<Rightarrow> string \<Rightarrow> string \<Rightarrow>
    signature_queue \<times> cached_proposal option" where
  "recordSignature q pid addr xdr now =
     (case map_get q pid of
        None \<Rightarrow> (q, None)
      | Some p \<Rightarrow>
          (case sign_proposal pid p (addr, xdr, now) of
             None \<Rightarrow> (q, None)
           | Some updated \<Rightarrow> (map_set q pid updated, Some updated)))"

definition getProposal :: "signature_queue \<Rightarrow> string \<Rightarrow> cached_proposal option" where
  "getProposal q pid = map_get q pid"

definition getNextPendingSigner :: "signature_queue \<Rightarrow> string \<Rightarrow> signer option" where
  "getNextPendingSigner q pid =
     (case map_get q pid of None \<Rightarrow> None
      | Some p \<Rightarrow> if cp_status p = Passed then None else find (\<lambda>s. sg_status s = Pending) (cp_signers p))"

definition getCurrentQueueOrder :: "signature_queue \<Rightarrow> string \<Rightarrow> signer list" where
  "getCurrentQueueOrder q pid = (case map_get q pid of None \<Rightarrow> [] | Some p \<Rightarrow> cp_signers p)"

definition removeProposal :: "signature_queue \<Rightarrow> string \<Rightarrow> signature_queue" where
  "removeProposal q pid = map_delete q pid"

section \<open>The milestone committee\<close>

record milestone_signing =
  ms_proposalId :: string
  ms_milestoneId :: string
  ms_evidenceCid :: string
  ms_status :: proposal_status
  ms_requiredWeight :: int
  ms_totalWeight :: int
  ms_currentWeight :: int
  ms_signers :: "signer list"
  ms_createdAt :: string
  ms_updatedAt :: string

type_synonym milestone_store = "(string, milestone_signing) js_map"

definition LEAD :: string where
  "LEAD = ''GCOMMITTEELEAD00000000000000000000000000000000000000A''"

definition LEGAL :: string where
  "LEGAL = ''GLEGALREVIEW000000000000000000000000000000000000000B''"

definition FINANCE :: string where
  "FINANCE = ''GFINANCEBOARD00000000000000000000000000000000000000C''"

definition GOVERNANCE_SIGNERS :: "(string \<times> string \<times> int) list" where
  "GOVERNANCE_SIGNERS =
     [(LEAD, ''Committee Lead'', 2), (LEGAL, ''Legal Review'', 1), (FINANCE, ''Finance Board'', 1)]"

definition REQUIRED_WEIGHT :: int where
  "REQUIRED_WEIGHT = 3"

definition TOTAL_WEIGHT :: int where
  "TOTAL_WEIGHT = sum_list (map (\<lambda>s. snd (snd s)) GOVERNANCE_SIGNERS)"

text \<open>The object that \<open>find\<close> returns is the first match, and it is the one mutated.\<close>

fun approve_first :: "string \<Rightarrow> signer list \<Rightarrow> signer list" where
  "approve_first a [] = []"
| "approve_first a (s # ss) =
     (if sg_address s = a \<and> sg_status s = Pending then s\<lparr>sg_status := Approved\<rparr> # ss
      else s # approve_first a ss)"

definition vote_milestone :: "milestone_signing \<Rightarrow> string \<times> string \<Rightarrow> milestone_signing option" where
  "vote_milestone p call =
     (let (addr, now) = call in
      if ms_status p \<noteq> Open then None
      else case find_pending addr (ms_signers p) of
             None \<Rightarrow> None
           | Some signer \<Rightarrow>
               (let p' = p\<lparr>ms_signers := approve_first addr (ms_signers p),
                           ms_currentWeight := ms_currentWeight p + sg_weight signer,
                           ms_updatedAt := now\<rparr>
                in Some (if ms_requiredWeight p' \<le> ms_currentWeight p' then p'\<lparr>ms_status := Passed\<rparr> else p')))"

definition castVote :: "milestone_store \<Rightarrow> string \<Rightarrow> string \<Rightarrow> string \<Rightarrow> milestone_store \<times> milestone_signing option" where
  "castVote st pid addr now =
     (case map_get st pid of
        None \<Rightarrow> (st, None)
      | Some p \<Rightarrow>
          (case vote_milestone p (addr, now) of
             None \<Rightarrow> (st, None)
           | Some p' \<Rightarrow> (map_set st pid p', Some p')))"

definition mock_proposal :: "string \<Rightarrow> string \<Rightarrow> string \<Rightarrow> string \<Rightarrow> milestone_signing" where
  "mock_proposal pid mid cid now =
     \<lparr>ms_proposalId = pid, ms_milestoneId = mid, ms_evidenceCid = cid, ms_status = Open,
      ms_requiredWeight = REQUIRED_WEIGHT, ms_totalWeight = TOTAL_WEIGHT, ms_currentWeight = 0,
      ms_signers = map pending_signer GOVERNANCE_SIGNERS, ms_createdAt = now, ms_updatedAt = now\<rparr>"

text \<open>The fresh id is made from the clock and a random number, so it is an argument.\<close>

definition createMockProposal :: "milestone_store \<Rightarrow> string \<Rightarrow> string \<Rightarrow> string \<Rightarrow> string \<Rightarrow>
    milestone_store \<times> milestone_signing" where
  "createMockProposal st pid mid cid now =
     (let p = mock_proposal pid mid cid now in (map_set st pid p, p))"

definition getMockSigningStatus :: "milestone_store \<Rightarrow> string \<Rightarrow> milestone_signing option" where
  "getMockSigningStatus st pid = map_get st pid"

section \<open>The shared contract\<close>

locale weighted_quorum =
  fixes vote :: "'p \<Rightarrow> 'v \<Rightarrow> 'p option"
    and voter :: "'v \<Rightarrow> string"
    and signers_of :: "'p \<Rightarrow> signer list"
    and weight_of :: "'p \<Rightarrow> int"
    and required_of :: "'p \<Rightarrow> int"
    and passed :: "'p \<Rightarrow> bool"
    and wf :: "'p \<Rightarrow> bool"
  assumes vote_wf: "wf p \<Longrightarrow> vote p v = Some p' \<Longrightarrow> wf p'"
    and wf_weight: "wf p \<Longrightarrow> weight_of p = approved_weight (signers_of p)"
    and vote_passed: "vote p v = Some p' \<Longrightarrow> passed p' = (required_of p' \<le> weight_of p')"
    and vote_required: "vote p v = Some p' \<Longrightarrow> required_of p' = required_of p"
    and vote_closed: "passed p \<Longrightarrow> vote p v = None"
    and vote_approves: "vote p v = Some p' \<Longrightarrow> s \<in> set (signers_of p') \<Longrightarrow> sg_status s = Approved \<Longrightarrow>
      s \<in> set (signers_of p) \<or> sg_address s = voter v"
begin

lemma tally_wf: "wf p \<Longrightarrow> wf (foldl (attempt vote) p vs)"
  by (induction vs arbitrary: p) (auto simp: attempt_def or_else_def vote_wf split: option.split)

lemma tally_required: "required_of (foldl (attempt vote) p vs) = required_of p"
  by (induction vs arbitrary: p) (auto simp: attempt_def or_else_def vote_required split: option.split)

lemma tally_passed:
  "wf p \<Longrightarrow> \<not> passed p \<Longrightarrow> passed (foldl (attempt vote) p vs) \<Longrightarrow>
     required_of p \<le> approved_weight (signers_of (foldl (attempt vote) p vs))"
proof (induction vs rule: rev_induct)
  case Nil
  then show ?case by simp
next
  case (snoc v vs)
  let ?q = "foldl (attempt vote) p vs"
  show ?case
  proof (cases vote ?q v rule: attempt_cases)
    case refused
    with snoc show ?thesis by simp
  next
    case (accepted p')
    then have "passed p' = (required_of p \<le> approved_weight (signers_of p'))"
      using vote_passed [OF accepted(2)] vote_required [OF accepted(2)] tally_required [of p vs]
        wf_weight [OF vote_wf [OF tally_wf [OF snoc.prems(1)] accepted(2)]] by simp
    with accepted snoc.prems show ?thesis by simp
  qed
qed

lemma tally_signed:
  "s \<in> set (signers_of (foldl (attempt vote) p vs)) \<Longrightarrow> sg_status s = Approved \<Longrightarrow>
     s \<in> set (signers_of p) \<or> sg_address s \<in> voter ` set vs"
proof (induction vs rule: rev_induct)
  case Nil
  then show ?case by simp
next
  case (snoc v vs)
  show ?case
  proof (cases vote "foldl (attempt vote) p vs" v rule: attempt_cases)
    case refused
    with snoc show ?thesis by auto
  next
    case (accepted p')
    with snoc vote_approves [OF accepted(2), of s] show ?thesis by auto
  qed
qed

end

section \<open>The two stores keep the contract\<close>

lemma find_pending_Some:
  "find_pending a ss = Some s \<Longrightarrow> s \<in> set ss \<and> sg_address s = a \<and> sg_status s = Pending"
  by (auto simp: find_pending_def find_Some_iff)

lemma approved_weight_simps [simp]:
  "approved_weight [] = 0"
  "approved_weight (s # ss) = (if sg_status s = Approved then sg_weight s else 0) + approved_weight ss"
  by (simp_all add: approved_weight_def sum_weights_def)

lemma find_pending_simps [simp]:
  "find_pending a [] = None"
  "find_pending a (s # ss) = (if sg_address s = a \<and> sg_status s = Pending then Some s else find_pending a ss)"
  by (simp_all add: find_pending_def)

lemma approve_other [simp]:
  "a \<notin> sg_address ` set ss \<Longrightarrow>
     map (\<lambda>s. if sg_address s = a then s\<lparr>sg_status := Approved\<rparr> else s) ss = ss"
  by (induction ss) auto

lemma approve_weight:
  "find_pending a ss = Some s \<Longrightarrow> distinct (map sg_address ss) \<Longrightarrow>
     approved_weight (map (\<lambda>s. if sg_address s = a then s\<lparr>sg_status := Approved\<rparr> else s) ss) =
       approved_weight ss + sg_weight s"
proof (induction ss)
  case Nil
  then show ?case by simp
next
  case (Cons t ss)
  then show ?case
    by (cases "sg_address t = a"; cases "sg_status t") (auto split: if_splits dest!: find_pending_Some)
qed

lemma approve_addresses [simp]:
  "map sg_address (map (\<lambda>s. if sg_address s = a then s\<lparr>sg_status := Approved\<rparr> else s) ss) = map sg_address ss"
  by (induction ss) auto

lemma approve_first_weight:
  "find_pending a ss = Some s \<Longrightarrow> approved_weight (approve_first a ss) = approved_weight ss + sg_weight s"
  by (induction ss) (auto split: if_splits)

lemma approve_first_set:
  "s \<in> set (approve_first a ss) \<Longrightarrow> s \<in> set ss \<or> sg_address s = a"
  by (induction ss) (auto split: if_splits)

definition queue_wf :: "cached_proposal \<Rightarrow> bool" where
  "queue_wf p \<longleftrightarrow> distinct (map sg_address (cp_signers p)) \<and> cp_currentWeight p = approved_weight (cp_signers p)"

definition milestone_wf :: "milestone_signing \<Rightarrow> bool" where
  "milestone_wf p \<longleftrightarrow> ms_currentWeight p = approved_weight (ms_signers p)"

lemma sign_proposal_cases:
  assumes "sign_proposal pid p v = Some p'"
  obtains s where "cp_status p = Open" "find_pending (fst v) (cp_signers p) = Some s"
    "cp_signers p' = map (\<lambda>s. if sg_address s = fst v then s\<lparr>sg_status := Approved\<rparr> else s) (cp_signers p)"
    "cp_currentWeight p' = cp_currentWeight p + sg_weight s" "cp_requiredWeight p' = cp_requiredWeight p"
    "cp_status p' = (if cp_requiredWeight p \<le> cp_currentWeight p' then Passed else Open)"
  using assms
  by (cases v) (auto simp: sign_proposal_def Let_def split: if_splits option.splits)

lemma vote_milestone_cases:
  assumes "vote_milestone p v = Some p'"
  obtains s where "ms_status p = Open" "find_pending (fst v) (ms_signers p) = Some s"
    "ms_signers p' = approve_first (fst v) (ms_signers p)"
    "ms_currentWeight p' = ms_currentWeight p + sg_weight s" "ms_requiredWeight p' = ms_requiredWeight p"
    "ms_status p' = (if ms_requiredWeight p \<le> ms_currentWeight p' then Passed else Open)"
  using assms
  by (cases v) (auto simp: vote_milestone_def Let_def split: if_splits option.splits)

interpretation queue_quorum: weighted_quorum "sign_proposal pid" fst cp_signers cp_currentWeight
  cp_requiredWeight "\<lambda>p. cp_status p = Passed" queue_wf
proof
  show "queue_wf p'" if "queue_wf p" "sign_proposal pid p v = Some p'" for p v p'
    using that(2) by (rule sign_proposal_cases)
      (use that(1) in \<open>simp add: queue_wf_def approve_weight del: map_map\<close>)
  show "s \<in> set (cp_signers p) \<or> sg_address s = fst v"
    if "sign_proposal pid p v = Some p'" "s \<in> set (cp_signers p')" for p v p' s
    using that(1) by (rule sign_proposal_cases) (use that(2) in \<open>auto split: if_splits\<close>)
qed (auto simp: queue_wf_def elim!: sign_proposal_cases split: if_splits, auto simp: sign_proposal_def)

interpretation milestone_quorum: weighted_quorum vote_milestone fst ms_signers ms_currentWeight
  ms_requiredWeight "\<lambda>p. ms_status p = Passed" milestone_wf
proof
  show "milestone_wf p'" if "milestone_wf p" "vote_milestone p v = Some p'" for p v p'
    using that(2) by (rule vote_milestone_cases) (use that(1) in \<open>simp add: milestone_wf_def approve_first_weight\<close>)
  show "s \<in> set (ms_signers p) \<or> sg_address s = fst v"
    if "vote_milestone p v = Some p'" "s \<in> set (ms_signers p')" for p v p' s
    using that(1) by (rule vote_milestone_cases) (use that(2) in \<open>auto dest: approve_first_set\<close>)
qed (auto simp: milestone_wf_def elim!: vote_milestone_cases split: if_splits, auto simp: vote_milestone_def)

section \<open>Runs of the stores\<close>

definition sign_call :: "signature_queue \<Rightarrow> string \<times> string \<times> string \<times> string \<Rightarrow> signature_queue" where
  "sign_call q c = (let (pid, addr, xdr, now) = c in fst (recordSignature q pid addr xdr now))"

definition vote_call :: "milestone_store \<Rightarrow> string \<times> string \<times> string \<Rightarrow> milestone_store" where
  "vote_call st c = (let (pid, addr, now) = c in fst (castVote st pid addr now))"

lemma sign_call_keyed: "sign_call = keyed_step sign_proposal"
  by (auto simp: fun_eq_iff sign_call_def recordSignature_def keyed_step_def split: option.split)

lemma vote_call_keyed: "vote_call = keyed_step (\<lambda>_. vote_milestone)"
  by (auto simp: fun_eq_iff vote_call_def castVote_def keyed_step_def split: option.split)

lemma new_proposal_wf: "distinct (map fst signers) \<Longrightarrow> queue_wf (new_proposal pid mid cid signers r now)"
proof -
  have "approved_weight (map pending_signer signers) = 0"
    by (induction signers) (simp_all add: pending_signer_def)
  moreover have "map sg_address (map pending_signer signers) = map fst signers"
    by (simp add: pending_signer_def)
  ultimately show "distinct (map fst signers) \<Longrightarrow> queue_wf (new_proposal pid mid cid signers r now)"
    by (simp add: queue_wf_def new_proposal_def del: map_map)
qed

lemma committee_distinct [simp]: "LEAD \<noteq> LEGAL" "LEGAL \<noteq> LEAD" "LEAD \<noteq> FINANCE" "FINANCE \<noteq> LEAD"
  "LEGAL \<noteq> FINANCE" "FINANCE \<noteq> LEGAL"
  by (simp_all add: LEAD_def LEGAL_def FINANCE_def)

definition committee_after :: "string set \<Rightarrow> signer list" where
  "committee_after A = map (\<lambda>s. (pending_signer s)\<lparr>sg_status := if fst s \<in> A then Approved else Pending\<rparr>)
     GOVERNANCE_SIGNERS"

definition committee_passed :: "string set \<Rightarrow> bool" where
  "committee_passed A \<longleftrightarrow> LEAD \<in> A \<and> (LEGAL \<in> A \<or> FINANCE \<in> A)"

definition committee_inv :: "string set \<Rightarrow> milestone_signing \<Rightarrow> bool" where
  "committee_inv A p \<longleftrightarrow> ms_requiredWeight p = 3 \<and>
     (if committee_passed A then ms_status p = Passed
      else ms_status p = Open \<and> ms_signers p = committee_after A \<and>
        ms_currentWeight p = approved_weight (committee_after A))"

lemma committee_vote:
  assumes "committee_inv A p"
  shows "committee_inv (insert (fst v) A) (attempt vote_milestone p v)"
proof (cases "committee_passed A")
  case True
  with assms show ?thesis
    by (cases v) (auto simp: committee_inv_def committee_passed_def attempt_def vote_milestone_def)
next
  case False
  then have open': "ms_status p = Open" "ms_requiredWeight p = 3" "ms_signers p = committee_after A"
    "ms_currentWeight p = approved_weight (committee_after A)"
    using assms by (simp_all add: committee_inv_def)
  obtain a now where v: "v = (a, now)" by (cases v)
  consider "a = LEAD" | "a = LEGAL" | "a = FINANCE" | "a \<notin> {LEAD, LEGAL, FINANCE}" by blast
  then show ?thesis
    using False open'
    by cases
      (cases "LEAD \<in> A"; cases "LEGAL \<in> A"; cases "FINANCE \<in> A";
       simp add: v attempt_def vote_milestone_def committee_inv_def committee_passed_def committee_after_def
         GOVERNANCE_SIGNERS_def pending_signer_def Let_def)+
qed

lemma committee_votes:
  "committee_inv A p \<Longrightarrow> committee_inv (A \<union> fst ` set vs) (foldl (attempt vote_milestone) p vs)"
proof (induction vs arbitrary: A p)
  case Nil
  then show ?case by simp
next
  case (Cons v vs)
  from Cons.IH [OF committee_vote [OF Cons.prems, of v]] show ?case by simp
qed

section \<open>Properties\<close>

text \<open>
  A proposal queued with distinct signers holds, after any calls to the
  queue, the weight of exactly its approved signers; it is passed only on enough of that weight,
  and only signers whose address a call named for this proposal are approved.
\<close>

theorem queue_passes_on_signed_weight:
  assumes "distinct (map fst signers)"
    and "getProposal (foldl sign_call (addProposal q pid mid cid signers required now) calls) pid = Some p"
  shows "cp_currentWeight p = approved_weight (cp_signers p) \<and>
    (cp_status p = Passed \<longrightarrow> required \<le> approved_weight (cp_signers p)) \<and>
    (\<forall>s \<in> set (cp_signers p). sg_status s = Approved \<longrightarrow> (pid, sg_address s) \<in> (\<lambda>(i, a, x). (i, a)) ` set calls)"
proof -
  let ?p0 = "new_proposal pid mid cid signers required now"
  let ?vs = "map snd (filter (\<lambda>c. fst c = pid) calls)"
  have p: "p = foldl (attempt (sign_proposal pid)) ?p0 ?vs"
    using assms(2) keyed_run [of "addProposal q pid mid cid signers required now" pid ?p0 sign_proposal calls]
    by (simp add: getProposal_def sign_call_keyed addProposal_def)
  have wf: "queue_wf ?p0" using assms(1) by (rule new_proposal_wf)
  have "queue_wf p" unfolding p by (rule queue_quorum.tally_wf [OF wf])
  moreover have "required \<le> approved_weight (cp_signers p)" if "cp_status p = Passed"
    using queue_quorum.tally_passed [OF wf _ that [unfolded p]] unfolding p by (simp add: new_proposal_def)
  moreover have "(pid, sg_address s) \<in> (\<lambda>(i, a, x). (i, a)) ` set calls"
    if "s \<in> set (cp_signers p)" "sg_status s = Approved" for s
  proof -
    have "s \<notin> set (cp_signers ?p0)"
      using that(2) by (auto simp: new_proposal_def pending_signer_def)
    with queue_quorum.tally_signed [OF that(1) [unfolded p] that(2)] show ?thesis by force
  qed
  ultimately show ?thesis by (simp add: queue_wf_def)
qed

theorem queue_passes_on_signed_weight_witness:
  "cp_status (the (getProposal (foldl sign_call
     (addProposal [] ''p'' ''m'' ''c'' [(''a'', ''A'', 2), (''b'', ''B'', 1)] 2 ''t'') [(''p'', ''a'', ''x'', ''u'')]) ''p'')) = Passed \<and>
   2 \<le> approved_weight (cp_signers (the (getProposal (foldl sign_call
     (addProposal [] ''p'' ''m'' ''c'' [(''a'', ''A'', 2), (''b'', ''B'', 1)] 2 ''t'') [(''p'', ''a'', ''x'', ''u'')]) ''p'')))"
  using queue_passes_on_signed_weight [of "[(''a'', ''A'', 2), (''b'', ''B'', 1)]" "[]" "''p''" "''m''" "''c''" 2
      "''t''" "[(''p'', ''a'', ''x'', ''u'')]"]
  by (simp add: getProposal_def sign_call_def recordSignature_def addProposal_def new_proposal_def
      pending_signer_def sign_proposal_def Let_def)

text \<open>
  A milestone proposal is passed exactly when the committee lead and at least one of the two other
  members have voted on it, whatever other votes, repeated votes or votes on other proposals there
  were.
\<close>

theorem milestone_passes_with_lead_and_one:
  "map_option ms_status (getMockSigningStatus
     (foldl vote_call (fst (createMockProposal st pid mid cid now)) calls) pid) =
   Some (if committee_passed {a. \<exists>t. (pid, a, t) \<in> set calls} then Passed else Open)"
proof -
  let ?p0 = "mock_proposal pid mid cid now"
  let ?vs = "map snd (filter (\<lambda>c. fst c = pid) calls)"
  have "committee_inv {} ?p0"
    by (simp add: committee_inv_def committee_passed_def mock_proposal_def committee_after_def
        GOVERNANCE_SIGNERS_def pending_signer_def REQUIRED_WEIGHT_def)
  from committee_votes [OF this, of ?vs]
  have "committee_inv (fst ` set ?vs) (foldl (attempt vote_milestone) ?p0 ?vs)" by simp
  moreover have "fst ` set ?vs = {a. \<exists>t. (pid, a, t) \<in> set calls}" by force
  ultimately have "ms_status (foldl (attempt vote_milestone) ?p0 ?vs) =
      (if committee_passed {a. \<exists>t. (pid, a, t) \<in> set calls} then Passed else Open)"
    by (simp add: committee_inv_def split: if_splits)
  moreover have "map_get (foldl vote_call (fst (createMockProposal st pid mid cid now)) calls) pid =
      Some (foldl (attempt vote_milestone) ?p0 ?vs)"
    using keyed_run [of "fst (createMockProposal st pid mid cid now)" pid ?p0 "\<lambda>_. vote_milestone" calls]
    by (simp add: createMockProposal_def vote_call_keyed Let_def)
  ultimately show ?thesis by (simp add: getMockSigningStatus_def)
qed

end
