(* ===== verification/Failover.thy ===== *)
theory Failover
  imports Prelude
begin

text \<open>
  The two failover components: the circuit breaker of
  \<^verbatim>\<open>backend/src/services/kycProviderFailover.ts\<close> (class \<open>FailoverKycProvider\<close>) and the RPC node
  manager of \<^verbatim>\<open>backend/src/services/rpcFailover.ts\<close>. What a provider or a node answers is an argument;
  a call that outlasts its timer is the outcome \<open>Timed_out\<close>. A KYC request awaits its primary call,
  so it is two steps, \<open>begin_extract\<close> and \<open>finish_primary\<close>, which other requests may separate;
  the clock is read once in each. The code's log lines are left out.
\<close>

section \<open>The circuit breaker\<close>

record ocr_fields =
  of_name :: "string option"
  of_idNumber :: "string option"
  of_address :: "string option"

record ocr_result =
  or_fields :: ocr_fields
  or_success :: bool
  or_error :: "string option"

datatype provider_outcome = Returned ocr_result | Thrown string | Timed_out

datatype alert_kind = Activated | Persisting | Recovered

record failover_alert =
  al_kind :: alert_kind
  al_consecutiveFailures :: nat
  al_activeSince :: "int option"
  al_lastError :: "string option"

record failover_options =
  fo_failureThreshold :: nat
  fo_timeoutMs :: int
  fo_cooldownMs :: int
  fo_persistAlertAfterMs :: int

definition failover_defaults :: failover_options where
  "failover_defaults = \<lparr>fo_failureThreshold = 3, fo_timeoutMs = 10000, fo_cooldownMs = 60000,
     fo_persistAlertAfterMs = 15 * 60000\<rparr>"

record failover_state =
  consecutiveFailures :: nat
  failoverSince :: "int option"
  lastPrimaryAttempt :: int
  persistAlertSent :: bool
  lastError :: "string option"
  alerts :: "failover_alert list"

definition new_failover :: failover_state where
  "new_failover = \<lparr>consecutiveFailures = 0, failoverSince = None, lastPrimaryAttempt = 0,
     persistAlertSent = False, lastError = None, alerts = []\<rparr>"

definition isFailoverActive :: "failover_state \<Rightarrow> bool" where
  "isFailoverActive st \<longleftrightarrow> failoverSince st \<noteq> None"

definition emit :: "failover_state \<Rightarrow> failover_alert \<Rightarrow> failover_state" where
  "emit st a = st\<lparr>alerts := alerts st @ [a]\<rparr>"

definition checkPersisting :: "failover_options \<Rightarrow> failover_state \<Rightarrow> int \<Rightarrow> failover_state" where
  "checkPersisting opts st now =
     (case failoverSince st of
        None \<Rightarrow> st
      | Some since \<Rightarrow>
          if persistAlertSent st then st
          else if now - since < fo_persistAlertAfterMs opts then st
          else emit (st\<lparr>persistAlertSent := True\<rparr>)
            \<lparr>al_kind = Persisting, al_consecutiveFailures = consecutiveFailures st,
             al_activeSince = Some since, al_lastError = lastError st\<rparr>)"

definition recordPrimarySuccess :: "failover_state \<Rightarrow> failover_state" where
  "recordPrimarySuccess st =
     (let wasActive = failoverSince st \<noteq> None;
          failures = consecutiveFailures st;
          st' = st\<lparr>consecutiveFailures := 0, failoverSince := None, persistAlertSent := False, lastError := None\<rparr>
      in if wasActive then emit st' \<lparr>al_kind = Recovered, al_consecutiveFailures = failures,
           al_activeSince = None, al_lastError = None\<rparr> else st')"

definition recordPrimaryFailure :: "failover_options \<Rightarrow> failover_state \<Rightarrow> string \<Rightarrow> int \<Rightarrow> failover_state" where
  "recordPrimaryFailure opts st err now =
     (let st' = st\<lparr>consecutiveFailures := consecutiveFailures st + 1, lastError := Some err\<rparr>
      in if failoverSince st' = None \<and> fo_failureThreshold opts \<le> consecutiveFailures st'
         then emit (st'\<lparr>failoverSince := Some now\<rparr>)
           \<lparr>al_kind = Activated, al_consecutiveFailures = consecutiveFailures st',
            al_activeSince = Some now, al_lastError = lastError st'\<rparr>
         else st')"

text \<open>One provider call: the message it fails with, or the successful result.\<close>

definition call_provider :: "failover_options \<Rightarrow> provider_outcome \<Rightarrow> string + ocr_result" where
  "call_provider opts out =
     (case out of
        Timed_out \<Rightarrow> Inl (''KYC provider timed out after '' @ show_int (fo_timeoutMs opts) @ ''ms'')
      | Thrown msg \<Rightarrow> Inl msg
      | Returned r \<Rightarrow>
          if or_success r then Inr r
          else Inl (or_else (or_error r) ''KYC provider reported failure''))"

definition failedResult :: "string \<Rightarrow> ocr_result" where
  "failedResult e = \<lparr>or_fields = \<lparr>of_name = None, of_idNumber = None, of_address = None\<rparr>,
     or_success = False, or_error = Some e\<rparr>"

definition runBackup :: "failover_options \<Rightarrow> provider_outcome \<Rightarrow> ocr_result" where
  "runBackup opts backup = (case call_provider opts backup of Inl e \<Rightarrow> failedResult e | Inr r \<Rightarrow> r)"

text \<open>
  \<open>extract\<close> up to its primary call: whether the primary is tried, or the request goes straight to the
  backup. After it: the state and either the primary's result or the fall back to the backup.
\<close>

definition begin_extract :: "failover_options \<Rightarrow> failover_state \<Rightarrow> int \<Rightarrow> failover_state \<times> bool" where
  "begin_extract opts st now =
     (if failoverSince st \<noteq> None then
        (let st1 = checkPersisting opts st now
         in if now - lastPrimaryAttempt st1 < fo_cooldownMs opts then (st1, False)
            else (st1\<lparr>lastPrimaryAttempt := now\<rparr>, True))
      else (st\<lparr>lastPrimaryAttempt := now\<rparr>, True))"

definition finish_primary :: "failover_options \<Rightarrow> failover_state \<Rightarrow> provider_outcome \<Rightarrow> int \<Rightarrow>
    failover_state \<times> ocr_result option" where
  "finish_primary opts st out now =
     (case call_provider opts out of
        Inr r \<Rightarrow> (recordPrimarySuccess st, Some r)
      | Inl e \<Rightarrow> (recordPrimaryFailure opts st e now, None))"

definition extract_document :: "failover_options \<Rightarrow> failover_state \<Rightarrow> provider_outcome \<Rightarrow> provider_outcome \<Rightarrow> int \<Rightarrow> int \<Rightarrow>
    failover_state \<times> ocr_result" where
  "extract_document opts st primary backup t0 t1 =
     (let (st1, tried) = begin_extract opts st t0
      in if \<not> tried then (st1, runBackup opts backup)
         else (let (st2, res) = finish_primary opts st1 primary t1
               in (st2, case res of Some r \<Rightarrow> r | None \<Rightarrow> runBackup opts backup)))"

text \<open>Requests interleave: the state sees their beginnings and the completions of primary calls.\<close>

datatype failover_event = Begin int | Finish provider_outcome int

fun failover_step :: "failover_options \<Rightarrow> failover_state \<Rightarrow> failover_event \<Rightarrow> failover_state" where
  "failover_step opts st (Begin t) = fst (begin_extract opts st t)"
| "failover_step opts st (Finish out t) = fst (finish_primary opts st out t)"

section \<open>What the breaker tracks\<close>

text \<open>The number of primary failures since the last primary success.\<close>

fun failure_streak :: "failover_options \<Rightarrow> nat \<Rightarrow> failover_event \<Rightarrow> nat" where
  "failure_streak opts k (Begin t) = k"
| "failure_streak opts k (Finish out t) = (case call_provider opts out of Inr r \<Rightarrow> 0 | Inl e \<Rightarrow> k + 1)"

text \<open>
  The order alerts may come in: activation while inactive, at most one reminder per activation, and
  recovery only from an activation. The state is whether one is open and whether it was reminded of.
\<close>

fun alert_order :: "(bool \<times> bool) option \<Rightarrow> alert_kind \<Rightarrow> (bool \<times> bool) option" where
  "alert_order (Some (False, False)) Activated = Some (True, False)"
| "alert_order (Some (True, False)) Persisting = Some (True, True)"
| "alert_order (Some (True, r)) Recovered = Some (False, False)"
| "alert_order _ _ = None"

definition failover_inv :: "failover_options \<Rightarrow> failover_state \<Rightarrow> bool" where
  "failover_inv opts st \<longleftrightarrow>
     (failoverSince st \<noteq> None \<longleftrightarrow> max 1 (fo_failureThreshold opts) \<le> consecutiveFailures st) \<and>
     (persistAlertSent st \<longrightarrow> failoverSince st \<noteq> None) \<and>
     foldl alert_order (Some (False, False)) (map al_kind (alerts st)) =
       Some (failoverSince st \<noteq> None, persistAlertSent st)"

lemmas failover_ops = begin_extract_def finish_primary_def recordPrimarySuccess_def recordPrimaryFailure_def
  checkPersisting_def emit_def Let_def

lemma failover_step_inv: "failover_inv opts st \<Longrightarrow> failover_inv opts (failover_step opts st e)"
proof (cases e)
  case (Begin t)
  moreover assume "failover_inv opts st"
  ultimately show ?thesis
    by (cases "failoverSince st"; cases "persistAlertSent st")
      (auto simp: failover_inv_def failover_ops)
next
  case (Finish out t)
  moreover assume "failover_inv opts st"
  ultimately show ?thesis
    by (cases "call_provider opts out"; cases "failoverSince st"; cases "persistAlertSent st")
      (auto simp: failover_inv_def failover_ops max_def split: if_splits)
qed

interpretation kyc_failover: refinement new_failover "failover_step opts" "failover_inv opts" "\<lambda>_. True"
  "failure_streak opts" consecutiveFailures
proof
  show "failover_inv opts new_failover"
    by (simp add: failover_inv_def new_failover_def)
  show "failover_inv opts (failover_step opts st e)" if "failover_inv opts st" for st e
    using that by (rule failover_step_inv)
  show "consecutiveFailures (failover_step opts st e) = failure_streak opts (consecutiveFailures st) e" for st e
    by (cases e) (auto simp: failover_ops split: sum.split option.split)
qed

section \<open>The RPC manager\<close>

text \<open>
  The nodes are the indices below \<open>node_count\<close>; the map of failure counts has the timers that
  clear a count as a list of due times beside it. \<open>answer i\<close> is what the operation gives on node i,
  an error message or a value, a timeout being its message.
\<close>

record rpc_manager =
  urls :: "string list"
  currentIndex :: nat
  failedAttempts :: "(nat, nat) js_map"
  timers :: "(int \<times> nat) list"

definition maxFailures :: nat where
  "maxFailures = 3"

definition failureResetMs :: int where
  "failureResetMs = 60000"

definition new_rpc_manager :: "string list \<Rightarrow> js_error + rpc_manager" where
  "new_rpc_manager us =
     (if us = [] then Inl (ErrorMsg ''At least one RPC URL must be provided'')
      else Inr \<lparr>urls = us, currentIndex = 0, failedAttempts = [], timers = []\<rparr>)"

definition failures_of :: "rpc_manager \<Rightarrow> nat \<Rightarrow> nat" where
  "failures_of m i = or_else (map_get (failedAttempts m) i) 0"

definition isServerUnhealthy :: "rpc_manager \<Rightarrow> nat \<Rightarrow> bool" where
  "isServerUnhealthy m i \<longleftrightarrow> maxFailures \<le> failures_of m i"

definition resetFailureCount :: "rpc_manager \<Rightarrow> nat \<Rightarrow> rpc_manager" where
  "resetFailureCount m i = m\<lparr>failedAttempts := map_delete (failedAttempts m) i\<rparr>"

definition recordFailure :: "rpc_manager \<Rightarrow> nat \<Rightarrow> int \<Rightarrow> rpc_manager" where
  "recordFailure m i now =
     m\<lparr>failedAttempts := map_set (failedAttempts m) i (failures_of m i + 1),
       timers := timers m @ [(now + failureResetMs, i)]\<rparr>"

text \<open>The timers due by a time fire in the order of their due times.\<close>

definition fire_timers :: "rpc_manager \<Rightarrow> int \<Rightarrow> rpc_manager" where
  "fire_timers m now =
     foldl (\<lambda>m t. resetFailureCount m (snd t))
       (m\<lparr>timers := filter (\<lambda>t. now < fst t) (timers m)\<rparr>)
       (sort_key fst (filter (\<lambda>t. fst t \<le> now) (timers m)))"

text \<open>The loop over the nodes still to try, with the last error and the number attempted.\<close>

fun execute_loop :: "(nat \<Rightarrow> string + 'a) \<Rightarrow> string \<Rightarrow> int \<Rightarrow> rpc_manager \<Rightarrow> nat list \<Rightarrow> string option \<Rightarrow> nat \<Rightarrow>
    rpc_manager \<times> (js_error + 'a)" where
  "execute_loop answer context now m [] lastErr attempted =
     (m, Inl (ErrorMsg (context @ '' failed on all '' @ show_int (int attempted) @
        '' available RPC nodes. Last error: '' @ or_else lastErr ''undefined'')))"
| "execute_loop answer context now m (i # is) lastErr attempted =
     (if isServerUnhealthy m i then execute_loop answer context now m is lastErr attempted
      else case answer i of
             Inr v \<Rightarrow> ((resetFailureCount m i)\<lparr>currentIndex := (i + 1) mod length (urls m)\<rparr>, Inr v)
           | Inl e \<Rightarrow> execute_loop answer context now (recordFailure m i now) is (Some e) (attempted + 1))"

definition round_robin :: "rpc_manager \<Rightarrow> nat list" where
  "round_robin m = map (\<lambda>i. (currentIndex m + i) mod length (urls m)) [0..<length (urls m)]"

definition execute_rpc :: "(nat \<Rightarrow> string + 'a) \<Rightarrow> string \<Rightarrow> int \<Rightarrow> rpc_manager \<Rightarrow> rpc_manager \<times> (js_error + 'a)" where
  "execute_rpc answer context now m = execute_loop answer context now m (round_robin m) None 0"

definition getCurrentServer :: "rpc_manager \<Rightarrow> nat" where
  "getCurrentServer m = currentIndex m"

definition getHealthStatus :: "rpc_manager \<Rightarrow> (string \<times> bool \<times> nat) list" where
  "getHealthStatus m =
     map (\<lambda>(i, u). (u, \<not> isServerUnhealthy m i, failures_of m i)) (enumerate 0 (urls m))"

section \<open>What one execution does\<close>

lemma failures_reset [simp]: "failures_of (resetFailureCount m i) k = (if k = i then 0 else failures_of m k)"
  by (simp add: failures_of_def resetFailureCount_def)

lemma failures_record [simp]:
  "failures_of (recordFailure m i now) k = (if k = i then failures_of m i + 1 else failures_of m k)"
  by (simp add: failures_of_def recordFailure_def)

lemma manager_fields [simp]:
  "urls (recordFailure m i now) = urls m" "urls (resetFailureCount m i) = urls m"
  "currentIndex (recordFailure m i now) = currentIndex m"
  "failures_of (m\<lparr>currentIndex := c\<rparr>) k = failures_of m k"
  by (simp_all add: recordFailure_def resetFailureCount_def failures_of_def)

lemma unhealthy_record [simp]: "k \<noteq> i \<Longrightarrow> isServerUnhealthy (recordFailure m i now) k = isServerUnhealthy m k"
  by (simp add: isServerUnhealthy_def)

definition answers :: "(nat \<Rightarrow> string + 'a) \<Rightarrow> nat \<Rightarrow> bool" where
  "answers answer i \<longleftrightarrow> (case answer i of Inr v \<Rightarrow> True | Inl e \<Rightarrow> False)"

lemma execute_loop_result:
  "distinct is \<Longrightarrow> execute_loop answer context now m is lastErr n = (m', r) \<Longrightarrow>
     healthy = filter (\<lambda>i. \<not> isServerUnhealthy m i) is \<Longrightarrow>
     (case find (answers answer) healthy of
        Some i \<Rightarrow> (\<exists>v. answer i = Inr v \<and> r = Inr v) \<and> currentIndex m' = (i + 1) mod length (urls m)
      | None \<Rightarrow> (\<exists>msg. r = Inl (ErrorMsg msg)) \<and> currentIndex m' = currentIndex m) \<and>
     urls m' = urls m \<and>
     (\<forall>k. failures_of m' k =
        (if find (answers answer) healthy = Some k then 0
         else if k \<in> set (takeWhile (\<lambda>i. \<not> answers answer i) healthy) then failures_of m k + 1
         else failures_of m k))"
proof (induction "is" arbitrary: m lastErr n healthy)
  case Nil
  then show ?case by auto
next
  case (Cons i "is")
  show ?case
  proof (cases "isServerUnhealthy m i")
    case True
    with Cons show ?thesis by simp
  next
    case False
    show ?thesis
    proof (cases "answer i")
      case (Inr v)
      with Cons.prems False show ?thesis by (auto simp: answers_def)
    next
      case (Inl e)
      let ?healthy = "filter (\<lambda>i. \<not> isServerUnhealthy m i) is"
      have same: "filter (\<lambda>k. \<not> isServerUnhealthy (recordFailure m i now) k) is = ?healthy"
      proof (rule filter_cong [OF refl])
        fix k assume "k \<in> set is"
        with Cons.prems(1) have "k \<noteq> i" by auto
        then show "(\<not> isServerUnhealthy (recordFailure m i now) k) = (\<not> isServerUnhealthy m k)" by simp
      qed
      have healthy: "healthy = i # ?healthy" "\<not> answers answer i" "i \<notin> set ?healthy"
        using Cons.prems False Inl by (simp_all add: answers_def)
      then have nf: "find (answers answer) ?healthy \<noteq> Some i"
        "i \<notin> set (takeWhile (\<lambda>i. \<not> answers answer i) ?healthy)"
        by (auto simp: find_Some_iff dest: set_takeWhileD)
      from Cons.IH [of "recordFailure m i now" "Some e" "n + 1" ?healthy] Cons.prems False Inl same
      show ?thesis
        using nf by (cases "find (answers answer) ?healthy") (auto simp: healthy)
    qed
  qed
qed

lemma round_robin_rotate: "round_robin m = rotate (currentIndex m) [0..<length (urls m)]"
proof (rule nth_equalityI)
  fix i assume "i < length (round_robin m)"
  then have i: "i < length (urls m)" by (simp add: round_robin_def)
  then have "(currentIndex m + i) mod length (urls m) < length (urls m)"
    by (intro mod_less_divisor) linarith
  with i show "round_robin m ! i = rotate (currentIndex m) [0..<length (urls m)] ! i"
    by (simp add: round_robin_def nth_rotate)
qed (simp add: round_robin_def)

lemma round_robin_distinct: "distinct (round_robin m)"
  by (simp add: round_robin_rotate)

section \<open>Properties\<close>

text \<open>
  However requests and completions interleave, the breaker counts the primary failures since the
  last primary success, failover is active exactly when that count has reached the threshold, and
  operators are told of each activation once, of each recovery once, and reminded at most once
  between the two.
\<close>

theorem failover_active_iff_streak:
  "let st = foldl (failover_step opts) new_failover events;
       streak = foldl (failure_streak opts) 0 events
   in consecutiveFailures st = streak \<and>
      (isFailoverActive st \<longleftrightarrow> max 1 (fo_failureThreshold opts) \<le> streak) \<and>
      foldl alert_order (Some (False, False)) (map al_kind (alerts st)) =
        Some (isFailoverActive st, persistAlertSent st)"
proof -
  have "consecutiveFailures (foldl (failover_step opts) new_failover events) = foldl (failure_streak opts) 0 events"
    using kyc_failover.abs_reachable [of events opts] by (simp add: new_failover_def)
  moreover have "failover_inv opts (foldl (failover_step opts) new_failover events)"
    by (rule kyc_failover.inv_reachable) simp
  ultimately show ?thesis
    by (simp add: failover_inv_def isFailoverActive_def Let_def)
qed

text \<open>
  One RPC execution returns the answer of the first healthy node, in round-robin order from the
  current one, that answers at all, and an error exactly when no healthy node does; the winner's
  failure count is cleared and the turn moves past it, each node that failed before it counts one
  more failure, and no other count changes.
\<close>

theorem execute_uses_first_answering_node:
  "let healthy = filter (\<lambda>i. \<not> isServerUnhealthy m i) (round_robin m);
       winner = find (answers answer) healthy;
       (m', r) = execute_rpc answer context now m
   in (case winner of
         Some i \<Rightarrow> (\<exists>v. answer i = Inr v \<and> r = Inr v) \<and> currentIndex m' = (i + 1) mod length (urls m)
       | None \<Rightarrow> (\<exists>msg. r = Inl (ErrorMsg msg)) \<and> currentIndex m' = currentIndex m) \<and>
      failures_of m' k =
        (if winner = Some k then 0
         else if k \<in> set (takeWhile (\<lambda>i. \<not> answers answer i) healthy) then failures_of m k + 1
         else failures_of m k)"
proof -
  obtain m' r where run: "execute_rpc answer context now m = (m', r)"
    by (cases "execute_rpc answer context now m")
  show ?thesis
    using execute_loop_result [OF round_robin_distinct run [unfolded execute_rpc_def] refl]
    by (simp add: run Let_def)
qed

text \<open>
  A timer clears the whole count, so the first failure's timer also forgets the later ones: a node
  that failed at 0, 59 and 59 seconds is skipped for one second and not for a minute.
\<close>

lemma early_reset:
  "(let m = recordFailure (recordFailure (recordFailure
      \<lparr>urls = [''a''], currentIndex = 0, failedAttempts = [], timers = []\<rparr> 0 0) 0 59000) 0 59000
    in isServerUnhealthy m 0 \<and> \<not> isServerUnhealthy (fire_timers m 60000) 0)"
  by (simp add: recordFailure_def failures_of_def isServerUnhealthy_def maxFailures_def fire_timers_def
      failureResetMs_def resetFailureCount_def)

end
