(* ===== verification/Lockout.thy ===== *)
theory Lockout
  imports Decimal
begin

text \<open>
  Account lockout, \<^verbatim>\<open>backend/src/services/lockoutService.ts\<close> with its guard
  \<^verbatim>\<open>backend/src/middleware/lockout.ts\<close>, and the wallet challenges of
  \<^verbatim>\<open>backend/src/services/challengeStore.ts\<close>. The environment's numbers are the record
  \<open>lockout_cfg\<close>. The Redis client is a record of its commands over its own state, each of which may
  fail; without a client, or after a failure, the module's own map is used, as in the code.
\<close>

section \<open>Lockout\<close>

record lockout_cfg =
  LOCKOUT_THRESHOLD :: nat
  BASE_LOCKOUT_SECONDS :: int
  MAX_LOCKOUT_SECONDS :: int
  SLIDING_WINDOW_SECONDS :: int

definition lockout_defaults :: lockout_cfg where
  "lockout_defaults = \<lparr>LOCKOUT_THRESHOLD = 5, BASE_LOCKOUT_SECONDS = 30, MAX_LOCKOUT_SECONDS = 3600,
     SLIDING_WINDOW_SECONDS = 900\<rparr>"

record lockout_record =
  lo_failedAttempts :: nat
  lo_lockedUntilMs :: int
  lo_lastFailedAtMs :: int

type_synonym lockout_map = "(string, lockout_record) js_map"

definition calculateBackoffDuration :: "lockout_cfg \<Rightarrow> nat \<Rightarrow> int" where
  "calculateBackoffDuration cfg failed =
     (if failed < LOCKOUT_THRESHOLD cfg then 0
      else min (MAX_LOCKOUT_SECONDS cfg) (BASE_LOCKOUT_SECONDS cfg * 2 ^ (failed - LOCKOUT_THRESHOLD cfg)))"

definition ceil_div :: "int \<Rightarrow> int \<Rightarrow> int" where
  "ceil_div a b = - ((- a) div b)"

definition normalize_id :: "string \<Rightarrow> string" where
  "normalize_id s = js_lower (js_trim s)"

text \<open>A command gives the client's next state and its reply, or nothing where it throws.\<close>

record 'r redis =
  rd_get :: "'r \<Rightarrow> string \<Rightarrow> 'r \<times> string option option"
  rd_incr :: "'r \<Rightarrow> string \<Rightarrow> 'r \<times> nat option"
  rd_expire :: "'r \<Rightarrow> string \<Rightarrow> int \<Rightarrow> 'r \<times> unit option"
  rd_setex :: "'r \<Rightarrow> string \<Rightarrow> int \<Rightarrow> string \<Rightarrow> 'r \<times> unit option"
  rd_del :: "'r \<Rightarrow> string list \<Rightarrow> 'r \<times> unit option"

record lockout_status =
  st_locked :: bool
  st_lockedUntilMs :: "int option"
  st_remainingSeconds :: "int option"

definition not_locked :: lockout_status where
  "not_locked = \<lparr>st_locked = False, st_lockedUntilMs = None, st_remainingSeconds = None\<rparr>"

definition locked_until :: "int \<Rightarrow> int \<Rightarrow> lockout_status" where
  "locked_until until now = \<lparr>st_locked = True, st_lockedUntilMs = Some until,
     st_remainingSeconds = Some (ceil_div (until - now) 1000)\<rparr>"

definition count_key :: "string \<Rightarrow> string" where
  "count_key i = ''lockout:failed_count:'' @ i"

definition until_key :: "string \<Rightarrow> string" where
  "until_key i = ''lockout:until:'' @ i"

definition isLockedOut_memory :: "lockout_map \<Rightarrow> string \<Rightarrow> int \<Rightarrow> lockout_status" where
  "isLockedOut_memory mem normalized now =
     (case map_get mem normalized of
        None \<Rightarrow> not_locked
      | Some r \<Rightarrow> if now < lo_lockedUntilMs r then locked_until (lo_lockedUntilMs r) now else not_locked)"

definition isLockedOut :: "('r redis \<times> 'r) option \<Rightarrow> lockout_map \<Rightarrow> string \<Rightarrow> int \<Rightarrow> lockout_status" where
  "isLockedOut client mem identifier now =
     (let normalized = normalize_id identifier in
      case client of
        None \<Rightarrow> isLockedOut_memory mem normalized now
      | Some (rd, r) \<Rightarrow>
          (case snd (rd_get rd r (until_key normalized)) of
             None \<Rightarrow> isLockedOut_memory mem normalized now
           | Some reply \<Rightarrow>
               (case truthy_text reply of
                  None \<Rightarrow> not_locked
                | Some text \<Rightarrow>
                    (case js_parse_int text of
                       None \<Rightarrow> not_locked
                     | Some until \<Rightarrow> if now < until then locked_until until now else not_locked))))"

record attempt_result =
  ar_locked :: bool
  ar_failedAttempts :: nat
  ar_lockedUntilMs :: "int option"
  ar_lockoutDurationSeconds :: int

definition attempt_result_of :: "lockout_cfg \<Rightarrow> nat \<Rightarrow> int \<Rightarrow> attempt_result" where
  "attempt_result_of cfg failed now =
     (let d = calculateBackoffDuration cfg failed
      in \<lparr>ar_locked = 0 < d, ar_failedAttempts = failed,
          ar_lockedUntilMs = if 0 < d then Some (now + d * 1000) else None, ar_lockoutDurationSeconds = d\<rparr>)"

text \<open>The notification sent on an attempt: the address, the minutes it names, the source.\<close>

definition lockout_email :: "lockout_cfg \<Rightarrow> nat \<Rightarrow> string option \<Rightarrow> string option \<Rightarrow>
    (string \<times> int \<times> string option) list" where
  "lockout_email cfg failed email ip =
     (case truthy_text email of
        None \<Rightarrow> []
      | Some a \<Rightarrow> if LOCKOUT_THRESHOLD cfg \<le> failed
          then [(a, max 1 (ceil_div (calculateBackoffDuration cfg failed) 60), ip)] else [])"

definition record_redis :: "lockout_cfg \<Rightarrow> 'r redis \<Rightarrow> 'r \<Rightarrow> string \<Rightarrow> int \<Rightarrow> 'r \<times> nat option" where
  "record_redis cfg rd r normalized now =
     (case rd_incr rd r (count_key normalized) of
        (r1, None) \<Rightarrow> (r1, None)
      | (r1, Some newCount) \<Rightarrow>
          (case rd_expire rd r1 (count_key normalized) (SLIDING_WINDOW_SECONDS cfg) of
             (r2, None) \<Rightarrow> (r2, None)
           | (r2, Some _) \<Rightarrow>
               (let d = calculateBackoffDuration cfg newCount
                in if 0 < d
                   then (case rd_setex rd r2 (until_key normalized) d (show_int (now + d * 1000)) of
                           (r3, None) \<Rightarrow> (r3, None)
                         | (r3, Some _) \<Rightarrow> (r3, Some newCount))
                   else (r2, Some newCount))))"

definition record_memory :: "lockout_cfg \<Rightarrow> lockout_map \<Rightarrow> string \<Rightarrow> int \<Rightarrow> lockout_map \<times> nat" where
  "record_memory cfg mem normalized now =
     (let fresh = \<lparr>lo_failedAttempts = 1, lo_lockedUntilMs = 0, lo_lastFailedAtMs = now\<rparr>;
          r = (case map_get mem normalized of
                 None \<Rightarrow> fresh
               | Some r \<Rightarrow>
                   if SLIDING_WINDOW_SECONDS cfg * 1000 < now - lo_lastFailedAtMs r then fresh
                   else r\<lparr>lo_failedAttempts := lo_failedAttempts r + 1, lo_lastFailedAtMs := now\<rparr>);
          d = calculateBackoffDuration cfg (lo_failedAttempts r);
          r' = (if 0 < d then r\<lparr>lo_lockedUntilMs := now + d * 1000\<rparr> else r)
      in (map_set mem normalized r', lo_failedAttempts r))"

definition recordFailedAttempt :: "lockout_cfg \<Rightarrow> ('r redis \<times> 'r) option \<Rightarrow> lockout_map \<Rightarrow> string \<Rightarrow>
    string option \<Rightarrow> string option \<Rightarrow> int \<Rightarrow>
    ('r redis \<times> 'r) option \<times> lockout_map \<times> attempt_result \<times> (string \<times> int \<times> string option) list" where
  "recordFailedAttempt cfg client mem identifier email ip now =
     (let normalized = normalize_id identifier;
          (client', reply) = (case client of None \<Rightarrow> (None, None)
             | Some (rd, r) \<Rightarrow> (let (r', n) = record_redis cfg rd r normalized now in (Some (rd, r'), n)))
      in case reply of
           Some n \<Rightarrow> (client', mem, attempt_result_of cfg n now, lockout_email cfg n email ip)
         | None \<Rightarrow>
             (let (mem', n) = record_memory cfg mem normalized now
              in (client', mem', attempt_result_of cfg n now, lockout_email cfg n email ip)))"

definition resetLockoutState :: "('r redis \<times> 'r) option \<Rightarrow> lockout_map \<Rightarrow> string \<Rightarrow>
    ('r redis \<times> 'r) option \<times> lockout_map" where
  "resetLockoutState client mem identifier =
     (let normalized = normalize_id identifier
      in (map_option (\<lambda>(rd, r). (rd, fst (rd_del rd r [count_key normalized, until_key normalized]))) client,
          map_delete mem normalized))"

text \<open>
  The guard takes the first truthy of email, wallet, user name and address; a request it does not
  pass is answered 429 with the status. The service's own failures are handled inside it, so the
  guard's catch branch is never taken.
\<close>

definition login_identifier :: "string option \<Rightarrow> string option \<Rightarrow> string option \<Rightarrow> string option \<Rightarrow> string" where
  "login_identifier email wallet username ip =
     (case List.map_filter truthy_text [email, wallet, username, ip] of [] \<Rightarrow> ''unknown'' | i # _ \<Rightarrow> i)"

definition loginLockoutGuard :: "('r redis \<times> 'r) option \<Rightarrow> lockout_map \<Rightarrow> string \<Rightarrow> int \<Rightarrow> lockout_status option" where
  "loginLockoutGuard client mem identifier now =
     (let status = isLockedOut client mem identifier now in if st_locked status then Some status else None)"

section \<open>The progression of a lockout\<close>

definition attempt_step :: "lockout_cfg \<Rightarrow> lockout_map \<Rightarrow> string \<times> int \<Rightarrow> lockout_map" where
  "attempt_step cfg mem a =
     fst (snd (recordFailedAttempt cfg (None :: (unit redis \<times> unit) option) mem (fst a) None None (snd a)))"

definition own_times :: "string \<Rightarrow> (string \<times> int) list \<Rightarrow> int list" where
  "own_times i attempts = map snd (filter (\<lambda>a. normalize_id (fst a) = normalize_id i) attempts)"

fun within_window :: "int \<Rightarrow> int list \<Rightarrow> bool" where
  "within_window w (t # u # ts) = (u - t \<le> w \<and> within_window w (u # ts))"
| "within_window w _ = True"

lemma within_window_snoc:
  "within_window w (ts @ [u]) \<longleftrightarrow> within_window w ts \<and> (ts \<noteq> [] \<longrightarrow> u - last ts \<le> w)"
  by (induction w ts rule: within_window.induct) auto

lemma backoff_pos_mono:
  "0 < calculateBackoffDuration cfg m \<Longrightarrow> m \<le> n \<Longrightarrow> 0 < calculateBackoffDuration cfg n"
  by (auto simp: calculateBackoffDuration_def zero_less_mult_iff split: if_splits)

lemma backoff_max: "LOCKOUT_THRESHOLD cfg \<le> n \<Longrightarrow> calculateBackoffDuration cfg n \<le> MAX_LOCKOUT_SECONDS cfg"
  by (simp add: calculateBackoffDuration_def)

lemma attempt_step_get:
  "map_get (attempt_step cfg mem (j, now)) i =
     (if i = normalize_id j then map_get (fst (record_memory cfg mem i now)) i else map_get mem i)"
  by (auto simp: attempt_step_def recordFailedAttempt_def record_memory_def Let_def)

lemma attempts_record:
  assumes "within_window (SLIDING_WINDOW_SECONDS cfg * 1000) (own_times i attempts)"
  shows "map_get (foldl (attempt_step cfg) [] attempts) (normalize_id i) =
    (let ts = own_times i attempts; d = calculateBackoffDuration cfg (length ts)
     in if ts = [] then None
        else Some \<lparr>lo_failedAttempts = length ts,
          lo_lockedUntilMs = if 0 < d then last ts + d * 1000 else 0, lo_lastFailedAtMs = last ts\<rparr>)"
  using assms
proof (induction attempts rule: rev_induct)
  case Nil
  then show ?case by (simp add: own_times_def)
next
  case (snoc a attempts)
  obtain j now where a: "a = (j, now)" by (cases a)
  show ?case
  proof (cases "normalize_id i = normalize_id j")
    case False
    then have "own_times i (attempts @ [a]) = own_times i attempts"
      by (simp add: own_times_def a)
    with snoc False show ?thesis by (simp add: a attempt_step_get)
  next
    case True
    then have own: "own_times i (attempts @ [a]) = own_times i attempts @ [now]"
      by (simp add: own_times_def a)
    note IH = snoc.IH [OF snoc.prems [unfolded own within_window_snoc, THEN conjunct1]]
    show ?thesis
    proof (cases "own_times i attempts = []")
      case True': True
      with IH show ?thesis
        using True own by (simp add: a attempt_step_get record_memory_def Let_def)
    next
      case False
      let ?n = "length (own_times i attempts)"
      have "now - last (own_times i attempts) \<le> SLIDING_WINDOW_SECONDS cfg * 1000"
        using snoc.prems False by (simp add: own within_window_snoc)
      moreover have "0 < calculateBackoffDuration cfg (Suc ?n)" if "0 < calculateBackoffDuration cfg ?n"
        using that by (rule backoff_pos_mono) simp
      ultimately show ?thesis
        using IH True False own by (auto simp: a attempt_step_get record_memory_def Let_def)
    qed
  qed
qed

section \<open>Challenges\<close>

record challenge_entry =
  ch_challenge :: string
  ch_expiresAt :: int
  ch_used :: bool

type_synonym challenge_store = "(string, challenge_entry) js_map"

definition TTL_MS :: int where
  "TTL_MS = 5 * 60 * 1000"

text \<open>The random UUID is an argument.\<close>

definition challenge_text :: "string \<Rightarrow> int \<Rightarrow> string" where
  "challenge_text uuid now =
     ''RemitMortgage-verify-'' @ filter (\<lambda>c. c \<noteq> CHR ''-'') uuid @ ''-'' @ show_int now"

definition createChallenge :: "challenge_store \<Rightarrow> string \<Rightarrow> string \<Rightarrow> int \<Rightarrow> challenge_store \<times> string" where
  "createChallenge st wallet uuid now =
     (let c = challenge_text uuid now
      in (map_set st wallet \<lparr>ch_challenge = c, ch_expiresAt = now + TTL_MS, ch_used = False\<rparr>, c))"

datatype consume_result = Consumed string | Not_found | Expired | Already_used

definition consumeChallenge :: "challenge_store \<Rightarrow> string \<Rightarrow> string \<Rightarrow> int \<Rightarrow> challenge_store \<times> consume_result" where
  "consumeChallenge st wallet challenge now =
     (case map_get st wallet of
        None \<Rightarrow> (st, Not_found)
      | Some entry \<Rightarrow>
          if ch_challenge entry \<noteq> challenge then (st, Not_found)
          else if ch_used entry then (st, Already_used)
          else if ch_expiresAt entry < now then (st, Expired)
          else (map_set st wallet (entry\<lparr>ch_used := True\<rparr>), Consumed (ch_challenge entry)))"

datatype challenge_call = Create string string int | Consume string string int

text \<open>The wallet and challenge pairs consumed, in order, over a sequence of calls.\<close>

fun consumed :: "challenge_store \<Rightarrow> challenge_call list \<Rightarrow> (string \<times> string) list" where
  "consumed st [] = []"
| "consumed st (Create w u t # cs) = consumed (fst (createChallenge st w u t)) cs"
| "consumed st (Consume w c t # cs) =
     (case snd (consumeChallenge st w c t) of Consumed c' \<Rightarrow> [(w, c')] | _ \<Rightarrow> []) @
     consumed (fst (consumeChallenge st w c t)) cs"

fun issued :: "challenge_call list \<Rightarrow> (string \<times> string) list" where
  "issued [] = []"
| "issued (Create w u t # cs) = (w, challenge_text u t) # issued cs"
| "issued (Consume w c t # cs) = issued cs"

definition spent :: "challenge_store \<Rightarrow> (string \<times> string) set \<Rightarrow> bool" where
  "spent st D \<longleftrightarrow> (\<forall>w e. map_get st w = Some e \<longrightarrow> (w, ch_challenge e) \<in> D \<longrightarrow> ch_used e)"

lemma consumed_once:
  "spent st D \<Longrightarrow> distinct (issued cs) \<Longrightarrow> set (issued cs) \<inter> D = {} \<Longrightarrow>
     (\<forall>w e. map_get st w = Some e \<longrightarrow> (w, ch_challenge e) \<notin> set (issued cs)) \<Longrightarrow>
     distinct (consumed st cs) \<and> set (consumed st cs) \<inter> D = {}"
proof (induction st cs arbitrary: D rule: consumed.induct)
  case (1 st)
  then show ?case by simp
next
  case (2 st w u t cs)
  let ?st' = "fst (createChallenge st w u t)"
  have "spent ?st' D"
    using 2(2,4) by (auto simp: createChallenge_def Let_def spent_def)
  moreover have "\<forall>v e. map_get ?st' v = Some e \<longrightarrow> (v, ch_challenge e) \<notin> set (issued cs)"
    using 2(3,5) by (auto simp: createChallenge_def Let_def)
  ultimately show ?case
    using 2(1) [of D] 2(3,4) by simp
next
  case (3 st w c t cs)
  show ?case
  proof (cases "snd (consumeChallenge st w c t)")
    case (Consumed c')
    then obtain e where e: "map_get st w = Some e" "ch_challenge e = c" "c' = c" "\<not> ch_used e"
      "fst (consumeChallenge st w c t) = map_set st w (e\<lparr>ch_used := True\<rparr>)"
      by (auto simp: consumeChallenge_def split: option.splits if_splits)
    have "(w, c) \<notin> D" and "spent (map_set st w (e\<lparr>ch_used := True\<rparr>)) (insert (w, c) D)"
      using 3(2) e by (auto simp: spent_def)
    moreover have "set (issued cs) \<inter> insert (w, c) D = {}"
      and "\<forall>v f. map_get (map_set st w (e\<lparr>ch_used := True\<rparr>)) v = Some f \<longrightarrow> (v, ch_challenge f) \<notin> set (issued cs)"
      using 3(4,5) e by auto
    ultimately show ?thesis
      using 3(1) [of "insert (w, c) D"] 3(3) e Consumed by auto
  qed (use 3 in \<open>auto simp: consumeChallenge_def split: option.splits if_splits\<close>)
qed

section \<open>Properties\<close>


lemma own_times_example:
  "own_times ''a'' [('' A'', 1000), (''b'', 2000), (''a'', 3000), (''a '', 4000)] = [1000, 3000, 4000]"
  by code_simp


text \<open>
  A challenge is good for one verification: over any calls in which no challenge text is issued
  twice to a wallet, no wallet's challenge is consumed more than once.
\<close>

theorem challenge_single_use:
  assumes "distinct (issued calls)"
  shows "distinct (consumed [] calls)"
  using consumed_once [of "[]" "{}" calls] assms by (simp add: spent_def)

theorem challenge_single_use_witness:
  "distinct (consumed [] [Create ''w'' ''u'' 1, Consume ''w'' (challenge_text ''u'' 1) 2,
     Consume ''w'' (challenge_text ''u'' 1) 3])"
  using challenge_single_use [of "[Create ''w'' ''u'' 1, Consume ''w'' (challenge_text ''u'' 1) 2,
     Consume ''w'' (challenge_text ''u'' 1) 3]"]
  by simp

text \<open>
  A failure that comes after the window starts a new record without a lock, even where the old
  record's lock, which may be longer than the window, had not run out.
\<close>

lemma stale_failure_clears_lock:
  "let mem = [(''a'', \<lparr>lo_failedAttempts = 12, lo_lockedUntilMs = 3600000, lo_lastFailedAtMs = 0\<rparr>)]
   in st_locked (isLockedOut None mem ''a'' 1000000) \<and>
      \<not> st_locked (isLockedOut None (attempt_step lockout_defaults mem (''a'', 1000000)) ''a'' 1000000)"
  by (simp add: Let_def isLockedOut_def isLockedOut_memory_def normalize_id_def js_trim_def js_space_def
      js_lower_def js_lower_char_def attempt_step_def recordFailedAttempt_def record_memory_def
      lockout_defaults_def calculateBackoffDuration_def locked_until_def not_locked_def)

end
