(* ===== verification/Totp.thy ===== *)
theory Totp
  imports Lockout
begin

text \<open>
  The administrators' second factor, \<^verbatim>\<open>backend/src/services/totpAuth.ts\<close>: the rate limiter, the
  one-time password of RFC 6238 and the login with a password or a recovery code. The two hash
  functions belong to the crypto library and are arguments: \<open>hmac\<close> on byte lists and \<open>sha\<close> from a
  string's code units to its hex digest. A login that throws (the clock outside 32 bits) gives no state. The clock is an argument; the QR image and the enrolment links, which only
  carry strings to the browser, are left out.
\<close>

section \<open>The one-time password\<close>

definition base32Chars :: string where
  "base32Chars = ''ABCDEFGHIJKLMNOPQRSTUVWXYZ234567''"

definition ascii_upper :: "char \<Rightarrow> char" where
  "ascii_upper c = (let n = (of_char c :: nat) in if 97 \<le> n \<and> n \<le> 122 then char_of (n - 32) else c)"

fun index_of :: "char \<Rightarrow> string \<Rightarrow> nat option" where
  "index_of c [] = None"
| "index_of c (d # ds) = (if c = d then Some 0 else map_option Suc (index_of c ds))"

fun bits_of :: "nat \<Rightarrow> nat \<Rightarrow> bool list" where
  "bits_of 0 n = []"
| "bits_of (Suc k) n = bits_of k (n div 2) @ [odd n]"

definition base32_bits :: "string \<Rightarrow> bool list" where
  "base32_bits secret =
     concat (map (\<lambda>c. case index_of (ascii_upper c) base32Chars of None \<Rightarrow> [] | Some v \<Rightarrow> bits_of 5 v) secret)"

definition bits_value :: "bool list \<Rightarrow> nat" where
  "bits_value bs = foldl (\<lambda>acc b. 2 * acc + (if b then 1 else 0)) 0 bs"

function octets :: "bool list \<Rightarrow> nat list" where
  "octets bits = (if length bits < 8 then [] else bits_value (take 8 bits) # octets (drop 8 bits))"
  by auto
termination by (relation "measure length") auto

declare octets.simps [simp del]

definition time_bytes :: "nat \<Rightarrow> nat list" where
  "time_bytes step = [0, 0, 0, 0, step div 2 ^ 24 mod 256, step div 2 ^ 16 mod 256, step div 2 ^ 8 mod 256, step mod 256]"

definition pad6 :: "string \<Rightarrow> string" where
  "pad6 s = replicate (6 - length s) CHR ''0'' @ s"

text \<open>
  \<open>writeUInt32BE\<close> throws on a step outside 32 bits. The truncation takes four digest bytes from an
  offset below 16, the first without its top bit; the shifted parts do not overlap, so the
  disjunction is their sum.
\<close>

definition truncate_digest :: "nat list \<Rightarrow> nat" where
  "truncate_digest h =
     (let offset = last h mod 16
      in (h ! offset mod 128) * 2 ^ 24 + (h ! (offset + 1)) * 2 ^ 16 + (h ! (offset + 2)) * 2 ^ 8 + h ! (offset + 3))"

definition generateTotpCode :: "(nat list \<Rightarrow> nat list \<Rightarrow> nat list) \<Rightarrow> string \<Rightarrow> int \<Rightarrow> js_error + string" where
  "generateTotpCode hmac secret timeStep =
     (if timeStep < 0 \<or> 2 ^ 32 \<le> timeStep then Inl RangeError
      else Inr (pad6 (digits (truncate_digest
        (hmac (octets (base32_bits secret)) (time_bytes (nat timeStep))) mod 1000000))))"

definition utf8_length :: "string \<Rightarrow> nat" where
  "utf8_length s = sum_list (map (\<lambda>c. if (of_char c :: nat) < 128 then 1 else 2) s)"

fun try_steps :: "(nat list \<Rightarrow> nat list \<Rightarrow> nat list) \<Rightarrow> string \<Rightarrow> string \<Rightarrow> int list \<Rightarrow> js_error + bool" where
  "try_steps hmac secret candidate [] = Inr False"
| "try_steps hmac secret candidate (t # ts) =
     (case generateTotpCode hmac secret t of
        Inl e \<Rightarrow> Inl e
      | Inr expected \<Rightarrow> if candidate = expected then Inr True else try_steps hmac secret candidate ts)"

definition verifyTotpCode :: "(nat list \<Rightarrow> nat list \<Rightarrow> nat list) \<Rightarrow> string \<Rightarrow> string \<Rightarrow> int \<Rightarrow> js_error + bool" where
  "verifyTotpCode hmac secret token now =
     (let candidate = js_trim token; currentStep = now div 1000 div 30
      in if utf8_length candidate \<noteq> 6 then Inr False
         else try_steps hmac secret candidate [currentStep - 1, currentStep, currentStep + 1])"

section \<open>The rate limiter\<close>

record totp_attempts =
  ta_attempts :: nat
  ta_lockUntil :: int

type_synonym attempts_map = "(string, totp_attempts) js_map"

definition MAX_ATTEMPTS :: nat where
  "MAX_ATTEMPTS = 5"

definition LOCKOUT_MS :: int where
  "LOCKOUT_MS = 15 * 60 * 1000"

record rate_status =
  rs_allowed :: bool
  rs_remainingAttempts :: int
  rs_retryAfterSec :: "int option"

definition attempts_of :: "attempts_map \<Rightarrow> string \<Rightarrow> nat" where
  "attempts_of m key = (case map_get m key of None \<Rightarrow> 0 | Some r \<Rightarrow> ta_attempts r)"

definition checkRateLimit :: "attempts_map \<Rightarrow> string \<Rightarrow> int \<Rightarrow> attempts_map \<times> rate_status" where
  "checkRateLimit m key now =
     (let allow = (\<lambda>m. (m, \<lparr>rs_allowed = True, rs_remainingAttempts = int MAX_ATTEMPTS - int (attempts_of m key),
                            rs_retryAfterSec = None\<rparr>))
      in case map_get m key of
           None \<Rightarrow> allow m
         | Some r \<Rightarrow>
             if now < ta_lockUntil r then
               (m, \<lparr>rs_allowed = False, rs_remainingAttempts = 0,
                    rs_retryAfterSec = Some (ceil_div (ta_lockUntil r - now) 1000)\<rparr>)
             else if MAX_ATTEMPTS \<le> ta_attempts r then allow (map_delete m key)
             else allow m)"

definition recordFailedTotp :: "attempts_map \<Rightarrow> string \<Rightarrow> int \<Rightarrow> attempts_map \<times> bool" where
  "recordFailedTotp m key now =
     (let r = or_else (map_get m key) \<lparr>ta_attempts = 0, ta_lockUntil = 0\<rparr>;
          r' = r\<lparr>ta_attempts := ta_attempts r + 1\<rparr>
      in if MAX_ATTEMPTS \<le> ta_attempts r' then (map_set m key (r'\<lparr>ta_lockUntil := now + LOCKOUT_MS\<rparr>), True)
         else (map_set m key r', False))"

definition clearRateLimit :: "attempts_map \<Rightarrow> string \<Rightarrow> attempts_map" where
  "clearRateLimit m key = map_delete m key"

section \<open>Settings and login\<close>

record recovery_code =
  rc_codeHash :: string
  rc_used :: bool

record admin_2fa =
  tf_adminAddress :: string
  tf_enabled :: bool
  tf_secret :: "string option"
  tf_recoveryCodes :: "recovery_code list option"

type_synonym admin_db = "(string, admin_2fa) js_map"

text \<open>
  \<open>toUpperCase\<close> leaves the Latin-1 range on three characters (the sharp s becomes two letters, the
  micro sign and y with diaeresis get capitals beyond it), so its value is a list of code units.
\<close>

definition js_upper_units :: "string \<Rightarrow> nat list" where
  "js_upper_units s = concat (map (\<lambda>c.
     let n = (of_char c :: nat)
     in if 97 \<le> n \<and> n \<le> 122 \<or> 224 \<le> n \<and> n \<le> 254 \<and> n \<noteq> 247 then [n - 32]
        else if n = 223 then [83, 83] else if n = 181 then [924] else if n = 255 then [376] else [n]) s)"

definition hashRecoveryCode :: "(nat list \<Rightarrow> string) \<Rightarrow> string \<Rightarrow> string" where
  "hashRecoveryCode sha code = sha (js_upper_units (js_trim code))"

definition fresh_codes :: "(nat list \<Rightarrow> string) \<Rightarrow> string list \<Rightarrow> recovery_code list" where
  "fresh_codes sha codes = map (\<lambda>c. \<lparr>rc_codeHash = hashRecoveryCode sha c, rc_used = False\<rparr>) codes"

definition enableAdmin2FA :: "(nat list \<Rightarrow> nat list \<Rightarrow> nat list) \<Rightarrow> (nat list \<Rightarrow> string) \<Rightarrow> admin_db \<Rightarrow> string \<Rightarrow>
    string \<Rightarrow> string \<Rightarrow> string list \<Rightarrow> int \<Rightarrow> js_error + (admin_db \<times> bool)" where
  "enableAdmin2FA hmac sha db admin secret token codes now =
     (case verifyTotpCode hmac secret token now of
        Inl e \<Rightarrow> Inl e
      | Inr valid \<Rightarrow>
          if \<not> valid then Inr (db, False)
          else Inr (map_set db (js_lower admin) \<lparr>tf_adminAddress = js_lower admin, tf_enabled = True,
            tf_secret = Some secret, tf_recoveryCodes = Some (fresh_codes sha codes)\<rparr>, True))"

fun use_code :: "string \<Rightarrow> recovery_code list \<Rightarrow> recovery_code list option" where
  "use_code h [] = None"
| "use_code h (rc # rcs) =
     (if rc_codeHash rc = h \<and> \<not> rc_used rc then Some (rc\<lparr>rc_used := True\<rparr> # rcs)
      else map_option (Cons rc) (use_code h rcs))"

datatype login_method = No_second_factor | Totp_code | Recovery_code

datatype login_result =
    Authenticated login_method
  | Rate_limited "int option"
  | Locked_now
  | Wrong_code int

record totp_state =
  ts_db :: admin_db
  ts_attempts :: attempts_map

definition authenticateAdmin2FA :: "(nat list \<Rightarrow> nat list \<Rightarrow> nat list) \<Rightarrow> (nat list \<Rightarrow> string) \<Rightarrow> totp_state \<Rightarrow>
    string \<Rightarrow> string \<Rightarrow> int \<Rightarrow> js_error + (totp_state \<times> login_result)" where
  "authenticateAdmin2FA hmac sha st admin code now =
     (let key = js_lower admin in
      case map_get (ts_db st) key of
        None \<Rightarrow> Inr (st, Authenticated No_second_factor)
      | Some settings \<Rightarrow>
          (case (tf_enabled settings, truthy_text (tf_secret settings)) of
             (True, Some secret) \<Rightarrow>
               (let (am, rate) = checkRateLimit (ts_attempts st) key now;
                    st1 = st\<lparr>ts_attempts := am\<rparr>
                in if \<not> rs_allowed rate then Inr (st1, Rate_limited (rs_retryAfterSec rate))
                   else case verifyTotpCode hmac secret code now of
                     Inl e \<Rightarrow> Inl e
                   | Inr True \<Rightarrow>
                       Inr (st1\<lparr>ts_attempts := clearRateLimit am key\<rparr>, Authenticated Totp_code)
                   | Inr False \<Rightarrow>
                       (case use_code (hashRecoveryCode sha code) (or_else (tf_recoveryCodes settings) []) of
                          Some rcs \<Rightarrow>
                            Inr (\<lparr>ts_db = map_set (ts_db st) key (settings\<lparr>tf_recoveryCodes := Some rcs\<rparr>),
                                  ts_attempts = clearRateLimit am key\<rparr>, Authenticated Recovery_code)
                        | None \<Rightarrow>
                            (let (am', locked) = recordFailedTotp am key now
                             in Inr (st1\<lparr>ts_attempts := am'\<rparr>,
                                  if locked then Locked_now else Wrong_code (rs_remainingAttempts rate - 1)))))
           | _ \<Rightarrow> Inr (st, Authenticated No_second_factor)))"

definition getAdmin2FAStatus :: "admin_db \<Rightarrow> string \<Rightarrow> bool \<times> nat" where
  "getAdmin2FAStatus db admin =
     (case map_get db (js_lower admin) of
        None \<Rightarrow> (False, 0)
      | Some s \<Rightarrow> if \<not> tf_enabled s then (False, 0)
          else (True, length (filter (\<lambda>rc. \<not> rc_used rc) (or_else (tf_recoveryCodes s) []))))"

text \<open>The fresh random codes are an argument.\<close>

definition regenerateAdminRecoveryCodes :: "(nat list \<Rightarrow> string) \<Rightarrow> admin_db \<Rightarrow> string \<Rightarrow> string list \<Rightarrow>
    admin_db \<times> string list option" where
  "regenerateAdminRecoveryCodes sha db admin codes =
     (case map_get db (js_lower admin) of
        None \<Rightarrow> (db, None)
      | Some s \<Rightarrow> if \<not> tf_enabled s then (db, None)
          else (map_set db (js_lower admin) (s\<lparr>tf_recoveryCodes := Some (fresh_codes sha codes)\<rparr>), Some codes))"

definition disableAdmin2FA :: "admin_db \<Rightarrow> string \<Rightarrow> admin_db" where
  "disableAdmin2FA db admin = map_delete db (js_lower admin)"

section \<open>Sequences of logins\<close>

text \<open>The results of a sequence of logins, each under its account's key; a login that throws has none.\<close>

fun logins :: "(nat list \<Rightarrow> nat list \<Rightarrow> nat list) \<Rightarrow> (nat list \<Rightarrow> string) \<Rightarrow> totp_state \<Rightarrow>
    (string \<times> string \<times> int) list \<Rightarrow> totp_state \<times> (string \<times> login_result) list" where
  "logins hmac sha st [] = (st, [])"
| "logins hmac sha st ((admin, code, now) # ls) =
     (case authenticateAdmin2FA hmac sha st admin code now of
        Inl e \<Rightarrow> logins hmac sha st ls
      | Inr (st', r) \<Rightarrow> (let (st'', rs) = logins hmac sha st' ls in (st'', (js_lower admin, r) # rs)))"

definition unused :: "recovery_code list \<Rightarrow> nat" where
  "unused rcs = length (filter (\<lambda>rc. \<not> rc_used rc) rcs)"

lemma use_code_unused: "use_code h rcs = Some rcs' \<Longrightarrow> unused rcs = Suc (unused rcs')"
  by (induction rcs arbitrary: rcs') (auto simp: unused_def split: if_splits)

lemma status_unused:
  "snd (getAdmin2FAStatus db admin) =
     (case map_get db (js_lower admin) of None \<Rightarrow> 0
      | Some s \<Rightarrow> if tf_enabled s then unused (or_else (tf_recoveryCodes s) []) else 0)"
  by (simp add: getAdmin2FAStatus_def unused_def split: option.split)

lemma authenticate_unused:
  assumes "authenticateAdmin2FA hmac sha st login code now = Inr (st', r)"
  shows "snd (getAdmin2FAStatus (ts_db st) admin) = snd (getAdmin2FAStatus (ts_db st') admin) +
    (if js_lower login = js_lower admin \<and> r = Authenticated Recovery_code then 1 else 0)"
  using assms
  by (auto simp: authenticateAdmin2FA_def Let_def status_unused split_beta
      split: option.splits bool.splits prod.splits sum.splits if_splits dest!: use_code_unused)

lemma digits_length: "n < 10 ^ k \<Longrightarrow> 0 < k \<Longrightarrow> length (digits n) \<le> k"
proof (induction n arbitrary: k rule: digits.induct)
  case (1 n)
  show ?case
  proof (cases "n < 10")
    case True
    with 1(3) show ?thesis by (subst digits.simps) simp
  next
    case False
    then obtain j where k: "k = Suc j" "0 < j"
      using 1(2,3) by (cases k; cases "k - 1") auto
    with 1(1) [OF False, of j] 1(2) False show ?thesis
      by (subst digits.simps) (simp add: less_mult_imp_div_less mult.commute)
  qed
qed

lemma totp_code_digits:
  "generateTotpCode hmac secret t = Inr c \<Longrightarrow> length c = 6 \<and> list_all dec_digit c"
  using digits_length [of "truncate_digest (hmac (octets (base32_bits secret)) (time_bytes (nat t))) mod 1000000" 6]
  by (auto simp: generateTotpCode_def pad6_def digits_are_digits list_all_iff dec_digit_def split: if_splits
      dest!: bspec [OF digits_are_digits [unfolded list_all_iff]])

lemma totp_code_utf8: "generateTotpCode hmac secret t = Inr c \<Longrightarrow> utf8_length c = 6"
proof -
  assume c: "generateTotpCode hmac secret t = Inr c"
  have "list_all dec_digit s \<Longrightarrow> utf8_length s = length s" for s
    by (induction s) (auto simp: utf8_length_def dec_digit_def)
  with totp_code_digits [OF c] show ?thesis by simp
qed

text \<open>A login whose code was looked at and refused.\<close>

fun refused_guess :: "login_result \<Rightarrow> bool" where
  "refused_guess (Wrong_code n) = True"
| "refused_guess Locked_now = True"
| "refused_guess _ = False"

fun admitted :: "login_result \<Rightarrow> bool" where
  "admitted (Authenticated m) = True"
| "admitted _ = False"

definition rate_inv :: "int \<Rightarrow> string \<Rightarrow> totp_state \<Rightarrow> nat \<Rightarrow> bool" where
  "rate_inv t0 key st k \<longleftrightarrow>
     (case map_get (ts_attempts st) key of
        None \<Rightarrow> k = 0
      | Some r \<Rightarrow> ta_attempts r = k \<and> k \<le> MAX_ATTEMPTS \<and>
          (if k = MAX_ATTEMPTS then t0 + LOCKOUT_MS \<le> ta_lockUntil r else ta_lockUntil r \<le> t0))"

lemma rate_inv_step:
  assumes inv: "rate_inv t0 key st k" and "0 \<le> t0"
    and run: "authenticateAdmin2FA hmac sha st login code now = Inr (st', r)"
    and own: "js_lower login = key \<Longrightarrow> \<not> admitted r \<and> t0 \<le> now \<and> now < t0 + LOCKOUT_MS"
  shows "rate_inv t0 key st' (k + (if js_lower login = key \<and> refused_guess r then 1 else 0))"
proof (cases "js_lower login = key")
  case False
  then have "map_get (ts_attempts st') key = map_get (ts_attempts st) key"
    using run by (auto simp: authenticateAdmin2FA_def Let_def checkRateLimit_def recordFailedTotp_def
        clearRateLimit_def split: option.splits bool.splits prod.splits sum.splits if_splits)
  with inv False show ?thesis by (simp add: rate_inv_def)
next
  case True
  with own have own: "\<not> admitted r" "t0 \<le> now" "now < t0 + LOCKOUT_MS" by auto
  obtain settings secret where *: "map_get (ts_db st) key = Some settings" "tf_enabled settings"
    "truthy_text (tf_secret settings) = Some secret"
    using run own(1) True
    by (auto simp: authenticateAdmin2FA_def Let_def split: option.splits bool.splits prod.splits)
  show ?thesis
  proof (cases "map_get (ts_attempts st) key")
    case None
    with * run own inv True \<open>0 \<le> t0\<close> show ?thesis
      by (auto simp: authenticateAdmin2FA_def Let_def checkRateLimit_def recordFailedTotp_def rate_inv_def
          MAX_ATTEMPTS_def split: option.splits bool.splits prod.splits sum.splits if_splits)
  next
    case (Some ra)
    with * run own inv True \<open>0 \<le> t0\<close> show ?thesis
      by (auto simp: authenticateAdmin2FA_def Let_def checkRateLimit_def recordFailedTotp_def rate_inv_def
          MAX_ATTEMPTS_def LOCKOUT_MS_def split: option.splits bool.splits prod.splits sum.splits if_splits)
  qed
qed

lemma logins_rate:
  assumes "0 \<le> t0"
  shows "rate_inv t0 key st k \<Longrightarrow>
    \<forall>(login, code, t) \<in> set ls. js_lower login = key \<longrightarrow> t0 \<le> t \<and> t < t0 + LOCKOUT_MS \<Longrightarrow>
    \<forall>(k', r) \<in> set (snd (logins hmac sha st ls)). k' = key \<longrightarrow> \<not> admitted r \<Longrightarrow>
    \<exists>st'. rate_inv t0 key st'
      (k + length (filter (\<lambda>(k', r). k' = key \<and> refused_guess r) (snd (logins hmac sha st ls))))"
proof (induction ls arbitrary: st k)
  case Nil
  then show ?case by auto
next
  case (Cons l ls)
  obtain login code t where l: "l = (login, code, t)" by (cases l)
  show ?case
  proof (cases "authenticateAdmin2FA hmac sha st login code t")
    case (Inl e)
    with Cons l show ?thesis by simp
  next
    case (Inr p)
    obtain st' r where p: "p = (st', r)" by (cases p)
    obtain st'' rs where rest: "logins hmac sha st' ls = (st'', rs)" by (cases "logins hmac sha st' ls")
    have "rate_inv t0 key st' (k + (if js_lower login = key \<and> refused_guess r then 1 else 0))"
      using Cons.prems Inr by (intro rate_inv_step [OF _ assms, of key st k hmac sha login code t st' r])
        (auto simp: l p rest)
    from Cons.IH [OF this] Cons.prems Inr show ?thesis
      by (auto simp: l p rest)
  qed
qed

section \<open>Properties\<close>

text \<open>
  C36. Guessing is bounded: while nobody gets in, an account with no failures on record has at most
  five codes looked at in any fifteen minutes of logins, whatever the codes and the traffic on other
  accounts.
\<close>

theorem totp_guesses_bounded:
  assumes "map_get (ts_attempts st) (js_lower admin) = None" and "0 \<le> t0"
    and "\<forall>(login, code, t) \<in> set ls. js_lower login = js_lower admin \<longrightarrow> t0 \<le> t \<and> t < t0 + LOCKOUT_MS"
    and "\<forall>(key, r) \<in> set (snd (logins hmac sha st ls)). key = js_lower admin \<longrightarrow> \<not> admitted r"
  shows "length (filter (\<lambda>(key, r). key = js_lower admin \<and> refused_guess r) (snd (logins hmac sha st ls))) \<le> MAX_ATTEMPTS"
proof -
  have "rate_inv t0 (js_lower admin) st 0" using assms(1) by (simp add: rate_inv_def)
  from logins_rate [OF assms(2) this assms(3,4)] show ?thesis
    by (auto simp: rate_inv_def split: option.splits)
qed

definition example_admin :: totp_state where
  "example_admin = \<lparr>ts_db = [(''a'', \<lparr>tf_adminAddress = ''a'', tf_enabled = True,
     tf_secret = Some ''AB'', tf_recoveryCodes = None\<rparr>)], ts_attempts = []\<rparr>"

lemma example_logins:
  "snd (logins (\<lambda>_ _. replicate 20 0) (\<lambda>_. ''h'') example_admin
     [(''a'', ''no'', 60000), (''a'', ''no'', 60001)]) = [(''a'', Wrong_code 4), (''a'', Wrong_code 3)]"
  by code_simp

theorem totp_guesses_bounded_witness:
  "length (filter (\<lambda>(key, r). key = js_lower ''a'' \<and> refused_guess r)
     (snd (logins (\<lambda>_ _. replicate 20 0) (\<lambda>_. ''h'') example_admin
       [(''a'', ''no'', 60000), (''a'', ''no'', 60001)]))) \<le> MAX_ATTEMPTS"
  by (rule totp_guesses_bounded [of _ _ 60000])
    (simp_all add: example_logins LOCKOUT_MS_def del: logins.simps, simp_all add: example_admin_def)

text \<open>
  Recovery codes are single use: over any sequence of logins, on any accounts, an account's unused
  codes go down by exactly the number of its logins that a recovery code let in.
\<close>

theorem recovery_codes_spent_once:
  "snd (getAdmin2FAStatus (ts_db st) admin) =
     snd (getAdmin2FAStatus (ts_db (fst (logins hmac sha st ls))) admin) +
     length (filter (\<lambda>p. p = (js_lower admin, Authenticated Recovery_code)) (snd (logins hmac sha st ls)))"
proof (induction ls arbitrary: st)
  case Nil
  then show ?case by simp
next
  case (Cons l ls)
  obtain login code t where l: "l = (login, code, t)" by (cases l)
  show ?case
  proof (cases "authenticateAdmin2FA hmac sha st login code t")
    case (Inl e)
    with Cons.IH [of st] l show ?thesis by simp
  next
    case (Inr p)
    obtain st' r where p: "p = (st', r)" by (cases p)
    obtain st'' rs where rest: "logins hmac sha st' ls = (st'', rs)" by (cases "logins hmac sha st' ls")
    have "snd (getAdmin2FAStatus (ts_db st') admin) = snd (getAdmin2FAStatus (ts_db st'') admin) +
        length (filter (\<lambda>p. p = (js_lower admin, Authenticated Recovery_code)) rs)"
      using Cons.IH [of st'] by (simp only: rest fst_conv snd_conv)
    with authenticate_unused [OF Inr [unfolded p], of admin] show ?thesis
      by (cases "(js_lower login, r) = (js_lower admin, Authenticated Recovery_code)") (auto simp: l Inr p rest)
  qed
qed

text \<open>
  A one-time password is accepted exactly when, trimmed, it is the code of the current thirty
  second step or of one of its neighbours; the length check before the comparison refuses no code.
\<close>

theorem totp_accepts_adjacent_steps:
  assumes "30000 \<le> now" and "now div 1000 div 30 + 1 < 2 ^ 32"
  shows "verifyTotpCode hmac secret token now =
    Inr (\<exists>d \<in> {-1, 0, 1}. generateTotpCode hmac secret (now div 1000 div 30 + d) = Inr (js_trim token))"
proof -
  have "30 \<le> now div 1000" using zdiv_mono1 [OF assms(1), of 1000] by simp
  from zdiv_mono1 [OF this, of 30] have "1 \<le> now div 1000 div 30" by simp
  then obtain s where s: "now div 1000 div 30 = s" "1 \<le> s" "s + 1 < 2 ^ 32"
    using assms(2) by blast
  obtain a b c where abc: "generateTotpCode hmac secret (s - 1) = Inr a"
    "generateTotpCode hmac secret s = Inr b" "generateTotpCode hmac secret (s + 1) = Inr c"
    using s(2,3) by (simp add: generateTotpCode_def)
  have len: "utf8_length a = 6" "utf8_length b = 6" "utf8_length c = 6"
    using abc by (blast intro: totp_code_utf8)+
  have "try_steps hmac secret tok [s - 1, s, s + 1] = Inr (tok \<in> {a, b, c})" for tok
    by (simp add: abc)
  moreover have "(\<exists>d \<in> {-1, 0, 1}. generateTotpCode hmac secret (s + d) = Inr tok) \<longleftrightarrow> tok \<in> {a, b, c}" for tok
    by (simp add: abc eq_commute [of _ tok])
  moreover have "tok \<in> {a, b, c} \<Longrightarrow> utf8_length tok = 6" for tok
    using len by blast
  ultimately show ?thesis
    unfolding verifyTotpCode_def Let_def s(1) by (cases "utf8_length (js_trim token) = 6") auto
qed

theorem totp_accepts_adjacent_steps_witness:
  "verifyTotpCode (\<lambda>_ _. replicate 20 0) ''AB'' ''000000 '' 60000 =
     Inr (\<exists>d \<in> {-1, 0, 1}. generateTotpCode (\<lambda>_ _. replicate 20 0) ''AB'' (60000 div 1000 div 30 + d) =
       Inr (js_trim ''000000 ''))"
  by (rule totp_accepts_adjacent_steps) simp_all

end
