(* ===== verification/LogSampling.thy ===== *)
theory LogSampling
  imports Decimal
begin

text \<open>
  Log sampling and volume budgets, \<^verbatim>\<open>backend/src/utils/logSampling.ts\<close>: the configuration read from
  the environment, the 1-in-N decision with its counters, the budget windows and the logger's
  filter that uses them. The metrics the filter feeds are counters of the monitoring package; they
  are kept as the module's calls to it, in \<open>metric_call\<close>. The serialized size of an entry is an argument.
  The over-budget gauge compares a quotient of doubles with one, which for byte counts below
  2 to the 52 is the comparison of the two integers.
\<close>

section \<open>Configuration\<close>

definition DEFAULT_SERVICE_NAME :: string where
  "DEFAULT_SERVICE_NAME = ''remitmortgage-backend''"

definition NEVER_SAMPLED_LEVELS :: "string set" where
  "NEVER_SAMPLED_LEVELS = {''error'', ''warn'', ''audit''}"

definition DEFAULT_INFO_SAMPLE_RATE :: int where
  "DEFAULT_INFO_SAMPLE_RATE = 10"

definition DEFAULT_DEBUG_SAMPLE_RATE :: int where
  "DEFAULT_DEBUG_SAMPLE_RATE = 100"

definition DEFAULT_VOLUME_BUDGET_BYTES :: int where
  "DEFAULT_VOLUME_BUDGET_BYTES = 1024 * 1024 * 1024"

definition DEFAULT_VOLUME_BUDGET_WINDOW_MS :: int where
  "DEFAULT_VOLUME_BUDGET_WINDOW_MS = 60 * 60 * 1000"

record log_sampling_config =
  lc_enabled :: bool
  lc_infoSampleRate :: int
  lc_debugSampleRate :: int
  lc_exemptSources :: "string list"
  lc_volumeBudgetBytes :: int
  lc_volumeBudgetWindowMs :: int

type_synonym env = "string \<Rightarrow> string option"

definition parsePositiveInt :: "string option \<Rightarrow> int \<Rightarrow> int" where
  "parsePositiveInt raw fallback =
     (case raw of None \<Rightarrow> fallback
      | Some s \<Rightarrow> (case js_parse_int s of None \<Rightarrow> fallback | Some n \<Rightarrow> if 0 < n then n else fallback))"

definition resolveEnabled :: "env \<Rightarrow> bool" where
  "resolveEnabled e =
     (if e ''LOG_SAMPLING_ENABLED'' = Some ''true'' then True
      else if e ''LOG_SAMPLING_ENABLED'' = Some ''false'' then False
      else e ''NODE_ENV'' = Some ''production'')"

definition resolveLogSamplingConfig :: "env \<Rightarrow> log_sampling_config" where
  "resolveLogSamplingConfig e =
     \<lparr>lc_enabled = resolveEnabled e,
      lc_infoSampleRate = parsePositiveInt (e ''LOG_SAMPLE_RATE_INFO'') DEFAULT_INFO_SAMPLE_RATE,
      lc_debugSampleRate = parsePositiveInt (e ''LOG_SAMPLE_RATE_DEBUG'') DEFAULT_DEBUG_SAMPLE_RATE,
      lc_exemptSources = filter (\<lambda>s. s \<noteq> [])
        (map (\<lambda>s. js_lower (js_trim s)) (js_split CHR '','' (or_else (e ''LOG_SAMPLE_EXEMPT_SOURCES'') ''''))),
      lc_volumeBudgetBytes = parsePositiveInt (e ''LOG_VOLUME_BUDGET_BYTES'') DEFAULT_VOLUME_BUDGET_BYTES,
      lc_volumeBudgetWindowMs =
        parsePositiveInt (e ''LOG_VOLUME_BUDGET_WINDOW_MS'') DEFAULT_VOLUME_BUDGET_WINDOW_MS\<rparr>"

section \<open>State and metrics\<close>

record volume_window =
  vw_start :: int
  vw_bytes :: int

datatype metric_call =
    Entries_total string string
  | Entries_dropped string string
  | Volume_bytes string int
  | Volume_budget string int
  | Utilization string int int
  | Over_budget string bool

record sampling_state =
  sl_config :: log_sampling_config
  sampleCounters :: "(string, int) js_map"
  volumeWindows :: "(string, volume_window) js_map"
  sl_metrics :: "metric_call list"

definition initLogSampling :: "sampling_state \<Rightarrow> env \<Rightarrow> sampling_state" where
  "initLogSampling st e =
     (let cfg = resolveLogSamplingConfig e
      in st\<lparr>sl_config := cfg, sampleCounters := [],
            sl_metrics := sl_metrics st @ [Volume_budget DEFAULT_SERVICE_NAME (lc_volumeBudgetBytes cfg)]\<rparr>)"

definition resetLogSamplingState :: "sampling_state \<Rightarrow> sampling_state" where
  "resetLogSamplingState st = st\<lparr>sampleCounters := [], volumeWindows := []\<rparr>"

section \<open>Sampling\<close>

definition sampleRateForLevel :: "string \<Rightarrow> log_sampling_config \<Rightarrow> int" where
  "sampleRateForLevel level cfg =
     (if js_lower level = ''debug'' then lc_debugSampleRate cfg
      else if js_lower level = ''info'' then lc_infoSampleRate cfg
      else 1)"

record log_input =
  li_level :: string
  li_source :: "string option"
  li_audit :: bool

definition log_level :: "log_input \<Rightarrow> string" where
  "log_level i = js_lower (li_level i)"

definition log_source :: "log_input \<Rightarrow> string" where
  "log_source i = js_lower (or_else (li_source i) ''unknown'')"

definition sample_key :: "log_input \<Rightarrow> string" where
  "sample_key i = log_level i @ ''|'' @ log_source i"

definition shouldKeepLog :: "sampling_state \<Rightarrow> log_input \<Rightarrow> sampling_state \<times> bool" where
  "shouldKeepLog st i =
     (let level = log_level i; source = log_source i in
      if li_audit i \<or> source = ''audit'' \<or> level \<in> NEVER_SAMPLED_LEVELS then (st, True)
      else if \<not> lc_enabled (sl_config st) then (st, True)
      else if source \<in> set (lc_exemptSources (sl_config st)) then (st, True)
      else (let rate = sampleRateForLevel level (sl_config st) in
            if rate \<le> 1 then (st, True)
            else (let key = sample_key i; count = or_else (map_get (sampleCounters st) key) 0 + 1
                  in (st\<lparr>sampleCounters := map_set (sampleCounters st) key count\<rparr>, count mod rate = 0))))"

section \<open>Volume\<close>

definition publishVolume :: "sampling_state \<Rightarrow> string \<Rightarrow> volume_window \<Rightarrow> sampling_state" where
  "publishVolume st service w =
     (let budget = lc_volumeBudgetBytes (sl_config st);
          over = (0 < budget \<and> budget < vw_bytes w)
      in st\<lparr>sl_metrics := sl_metrics st @
            [Volume_bytes service (vw_bytes w), Volume_budget service budget,
             Utilization service (if 0 < budget then vw_bytes w else 0) budget, Over_budget service over]\<rparr>)"

definition recordLogVolume :: "sampling_state \<Rightarrow> string \<Rightarrow> int \<Rightarrow> int \<Rightarrow> sampling_state" where
  "recordLogVolume st service bytes now =
     (if bytes \<le> 0 then st
      else (let w0 = (case map_get (volumeWindows st) service of
                        Some w \<Rightarrow> if lc_volumeBudgetWindowMs (sl_config st) \<le> now - vw_start w \<or> now < vw_start w
                          then \<lparr>vw_start = now, vw_bytes = 0\<rparr> else w
                      | None \<Rightarrow> \<lparr>vw_start = now, vw_bytes = 0\<rparr>);
                w = w0\<lparr>vw_bytes := vw_bytes w0 + bytes\<rparr>
            in publishVolume (st\<lparr>volumeWindows := map_set (volumeWindows st) service w\<rparr>) service w))"

definition getLogVolumeWindowBytes :: "sampling_state \<Rightarrow> string \<Rightarrow> int" where
  "getLogVolumeWindowBytes st service =
     (case map_get (volumeWindows st) service of None \<Rightarrow> 0 | Some w \<Rightarrow> vw_bytes w)"

section \<open>The logger's filter\<close>

text \<open>
  An entry as the filter reads it: the level as text, the two fields where they are strings, the
  audit mark, and the estimated size.
\<close>

record log_entry =
  le_level :: "string option"
  le_source :: "string option"
  le_service :: "string option"
  le_audit :: bool
  le_bytes :: int

definition isAuditEntry :: "bool \<Rightarrow> string \<Rightarrow> string \<Rightarrow> bool" where
  "isAuditEntry audit source level \<longleftrightarrow> audit \<or> source = ''audit'' \<or> level = ''audit''"

definition entry_input :: "log_entry \<Rightarrow> log_input" where
  "entry_input e =
     (let level = js_lower (or_else (le_level e) ''info''); source = or_else (le_source e) ''unknown''
      in \<lparr>li_level = level, li_source = Some source,
          li_audit = isAuditEntry (le_audit e) (js_lower source) level\<rparr>)"

definition logSamplingFormat :: "sampling_state \<Rightarrow> log_entry \<Rightarrow> int \<Rightarrow> sampling_state \<times> bool" where
  "logSamplingFormat st e now =
     (let i = entry_input e; service = or_else (le_service e) DEFAULT_SERVICE_NAME;
          (st1, keep) = shouldKeepLog st i
      in if keep then
           (recordLogVolume (st1\<lparr>sl_metrics := sl_metrics st1 @ [Entries_total service (li_level i)]\<rparr>)
              service (le_bytes e) now, True)
         else (st1\<lparr>sl_metrics := sl_metrics st1 @ [Entries_dropped service (li_level i)]\<rparr>, False))"

section \<open>Sequences of decisions\<close>

fun keep_decisions :: "sampling_state \<Rightarrow> log_input list \<Rightarrow> (log_input \<times> bool) list" where
  "keep_decisions st [] = []"
| "keep_decisions st (i # is) =
     (let (st', keep) = shouldKeepLog st i in (i, keep) # keep_decisions st' is)"

definition sampled :: "log_sampling_config \<Rightarrow> log_input \<Rightarrow> bool" where
  "sampled cfg i \<longleftrightarrow> \<not> li_audit i \<and> log_source i \<noteq> ''audit'' \<and> log_level i \<notin> NEVER_SAMPLED_LEVELS \<and>
     lc_enabled cfg \<and> log_source i \<notin> set (lc_exemptSources cfg) \<and> 1 < sampleRateForLevel (log_level i) cfg"

lemma shouldKeepLog_cases:
  "shouldKeepLog st i =
     (if sampled (sl_config st) i
      then (let count = or_else (map_get (sampleCounters st) (sample_key i)) 0 + 1
            in (st\<lparr>sampleCounters := map_set (sampleCounters st) (sample_key i) count\<rparr>,
                count mod sampleRateForLevel (log_level i) (sl_config st) = 0))
      else (st, True))"
  by (auto simp: shouldKeepLog_def sampled_def Let_def)

text \<open>A level that is sampled has no separator in it, so the key determines level and source.\<close>

lemma sampled_level: "sampled cfg i \<Longrightarrow> log_level i \<in> {''debug'', ''info''}"
  by (auto simp: sampled_def sampleRateForLevel_def log_level_def split: if_splits)

lemma sample_key_inj:
  "sampled cfg i \<Longrightarrow> sampled cfg j \<Longrightarrow>
     sample_key i = sample_key j \<longleftrightarrow> log_level i = log_level j \<and> log_source i = log_source j"
  using sampled_level [of cfg i] sampled_level [of cfg j] by (auto simp: sample_key_def)

lemma div_plus_one:
  assumes "1 < (r::int)"
  shows "(n + 1) div r = n div r + (if (n + 1) mod r = 0 then 1 else 0)"
proof (cases "(n + 1) mod r = 0")
  case True
  then have "n = r * ((n + 1) div r - 1) + (r - 1)"
    using mult_div_mod_eq [of r "n + 1"] by (simp add: algebra_simps)
  then have "n div r = (n + 1) div r - 1"
    by (rule int_div_pos_eq) (use assms in auto)
  with True show ?thesis by simp
next
  case False
  have eq: "n = r * ((n + 1) div r) + ((n + 1) mod r - 1)"
    using mult_div_mod_eq [of r "n + 1"] by (simp add: algebra_simps)
  have "0 < (n + 1) mod r" "(n + 1) mod r < r"
    using False assms pos_mod_sign [of r "n + 1"] pos_mod_bound [of r "n + 1"] by linarith+
  then have "n div r = (n + 1) div r"
    by (intro int_div_pos_eq [OF eq]) auto
  with False show ?thesis by simp
qed

definition counter_of :: "sampling_state \<Rightarrow> log_input \<Rightarrow> int" where
  "counter_of st i = or_else (map_get (sampleCounters st) (sample_key i)) 0"

definition same_line :: "log_input \<Rightarrow> log_input \<Rightarrow> bool" where
  "same_line i j \<longleftrightarrow> \<not> li_audit j \<and> log_level j = log_level i \<and> log_source j = log_source i"

lemma same_line_sampled: "sampled cfg i \<Longrightarrow> same_line i j \<Longrightarrow> sampled cfg j"
  by (simp add: sampled_def same_line_def)

lemma keep_decisions_count:
  assumes "sampled (sl_config st) i" and "0 \<le> counter_of st i"
  shows "int (length (filter (\<lambda>(j, keep). same_line i j \<and> keep) (keep_decisions st js))) =
    (counter_of st i + int (length (filter (same_line i) js))) div sampleRateForLevel (log_level i) (sl_config st) -
    counter_of st i div sampleRateForLevel (log_level i) (sl_config st)"
  using assms
proof (induction js arbitrary: st)
  case Nil
  then show ?case by simp
next
  case (Cons j js)
  let ?r = "sampleRateForLevel (log_level i) (sl_config st)"
  obtain st' keep where step: "shouldKeepLog st j = (st', keep)" by (cases "shouldKeepLog st j")
  have cfg: "sl_config st' = sl_config st"
    using step by (auto simp: shouldKeepLog_cases Let_def split: if_splits)
  show ?case
  proof (cases "same_line i j")
    case True
    then have sj: "sampled (sl_config st) j" "sample_key j = sample_key i" "log_level j = log_level i"
      using Cons.prems(1) same_line_sampled sample_key_inj by (auto simp: same_line_def sample_key_def)
    then have "counter_of st' i = counter_of st i + 1" "keep = ((counter_of st i + 1) mod ?r = 0)"
      using step by (auto simp: shouldKeepLog_cases counter_of_def Let_def)
    moreover have "1 < ?r" using Cons.prems(1) by (simp add: sampled_def)
    ultimately show ?thesis
      using Cons.IH [of st'] Cons.prems cfg True step div_plus_one [of ?r "counter_of st i"]
      by (auto simp: algebra_simps)
  next
    case False
    have "counter_of st' i = counter_of st i"
    proof (cases "sampled (sl_config st) j")
      case True
      with Cons.prems(1) False have "sample_key i \<noteq> sample_key j"
        by (auto simp: sample_key_inj same_line_def sampled_def)
      with True step show ?thesis by (auto simp: shouldKeepLog_cases counter_of_def Let_def)
    next
      case False
      with step show ?thesis by (simp add: shouldKeepLog_cases)
    qed
    with False Cons.IH [of st'] Cons.prems cfg step show ?thesis by simp
  qed
qed

section \<open>Properties\<close>

text \<open>
  From cleared counters, of any interleaved stream of log lines exactly one in N of each sampled
  level and source is kept: the kept ones number the floor of their count over the level's rate,
  whatever other lines come between them.
\<close>

theorem sampling_keeps_one_in_n:
  assumes "sampled (sl_config st) i"
  shows "int (length (filter (\<lambda>(j, keep). same_line i j \<and> keep) (keep_decisions (resetLogSamplingState st) js))) =
    int (length (filter (same_line i) js)) div sampleRateForLevel (log_level i) (sl_config st)"
  using keep_decisions_count [of "resetLogSamplingState st" i js] assms
  by (simp add: resetLogSamplingState_def counter_of_def)

definition example_sampling :: sampling_state where
  "example_sampling = \<lparr>sl_config = \<lparr>lc_enabled = True, lc_infoSampleRate = 10, lc_debugSampleRate = 2,
     lc_exemptSources = [], lc_volumeBudgetBytes = 5, lc_volumeBudgetWindowMs = 5\<rparr>, sampleCounters = [],
     volumeWindows = [], sl_metrics = []\<rparr>"

lemma example_sampled: "sampled (sl_config example_sampling) \<lparr>li_level = ''DEBUG'', li_source = None, li_audit = False\<rparr>"
  by code_simp

theorem sampling_keeps_one_in_n_witness:
  "int (length (filter (\<lambda>(j, keep). same_line \<lparr>li_level = ''DEBUG'', li_source = None, li_audit = False\<rparr> j \<and> keep)
     (keep_decisions (resetLogSamplingState example_sampling) [\<lparr>li_level = ''DEBUG'', li_source = None, li_audit = False\<rparr>]))) =
   int (length (filter (same_line \<lparr>li_level = ''DEBUG'', li_source = None, li_audit = False\<rparr>)
     [\<lparr>li_level = ''DEBUG'', li_source = None, li_audit = False\<rparr>])) div
   sampleRateForLevel (log_level \<lparr>li_level = ''DEBUG'', li_source = None, li_audit = False\<rparr>) (sl_config example_sampling)"
  by (rule sampling_keeps_one_in_n [OF example_sampled])

end
