(* ===== verification/IpAllowlist.thy ===== *)
theory IpAllowlist
  imports Decimal "HOL-Library.Word"
begin

text \<open>
  The network allowlist of the admin routes, \<^verbatim>\<open>backend/src/middleware/adminIpAllowlist.ts\<close>: parsing
  of addresses and ranges, the match on the masked bits, the configuration, the break-glass
  override and the gate. An IPv4 address is a 32-bit word, as the code's unsigned shifts make it; an
  IPv6 address is a bigint, so an \<open>int\<close>. The run time's address classifier (\<open>isIP\<close>: 4, 6 or 0), its
  keyed hash and \<open>Number\<close> on texts that give integers are arguments.
\<close>

unbundle bit_operations_syntax

section \<open>Addresses\<close>

fun ipv4_value :: "string list \<Rightarrow> 32 word \<Rightarrow> 32 word option" where
  "ipv4_value [] v = Some v"
| "ipv4_value (p # ps) v =
     (if \<not> (1 \<le> length p \<and> length p \<le> 3 \<and> list_all ascii_digit p) then None
      else case radix_value 10 0 p of
             None \<Rightarrow> None
           | Some octet \<Rightarrow> if 255 < octet then None else ipv4_value ps (v * 256 + of_nat octet))"

definition parseIPv4 :: "string \<Rightarrow> 32 word option" where
  "parseIPv4 address =
     (let parts = js_split CHR ''.'' address in if length parts \<noteq> 4 then None else ipv4_value parts 0)"

definition hex_char :: "nat \<Rightarrow> char" where
  "hex_char d = (if d < 10 then char_of (d + 48) else char_of (d + 87))"

fun hex_text :: "nat \<Rightarrow> string" where
  "hex_text n = (if n < 16 then [hex_char n] else hex_text (n div 16) @ [hex_char (n mod 16)])"

declare hex_text.simps [simp del]

text \<open>The leftmost suffix that is a dotted quad, with what comes before it.\<close>

fun embedded_quad :: "string \<Rightarrow> (string \<times> string) option" where
  "embedded_quad [] = None"
| "embedded_quad (c # cs) =
     (if dotted_quad (c # cs) then Some ([], c # cs)
      else map_option (\<lambda>(pre, quad). (c # pre, quad)) (embedded_quad cs))"

fun ipv6_value :: "string list \<Rightarrow> int \<Rightarrow> int option" where
  "ipv6_value [] v = Some v"
| "ipv6_value (g # gs) v =
     (if \<not> (1 \<le> length g \<and> length g \<le> 4) then None
      else case radix_value 16 0 g of
             None \<Rightarrow> None
           | Some hextet \<Rightarrow> ipv6_value gs (push_bit 16 v + int hextet))"

fun split_colons :: "string \<Rightarrow> string list" where
  "split_colons [] = [[]]"
| "split_colons [c] = [[c]]"
| "split_colons (c # d # cs) =
     (if c = CHR '':'' \<and> d = CHR '':'' then [] # split_colons cs
      else case split_colons (d # cs) of [] \<Rightarrow> [[c]] | w # ws \<Rightarrow> (c # w) # ws)"

definition groups_of :: "string \<Rightarrow> string list" where
  "groups_of half = (if half = [] then [] else js_split CHR '':'' half)"

definition parse_groups :: "string \<Rightarrow> int option" where
  "parse_groups text =
     (case split_colons text of
        [_] \<Rightarrow>
          (let groups = js_split CHR '':'' text in if length groups \<noteq> 8 then None else ipv6_value groups 0)
      | [before, after] \<Rightarrow>
          (let head = groups_of before; tail = groups_of after in
           if 7 < length head + length tail then None
           else ipv6_value (head @ replicate (8 - length head - length tail) ''0'' @ tail) 0)
      | _ \<Rightarrow> None)"

definition parseIPv6 :: "string \<Rightarrow> int option" where
  "parseIPv6 address =
     (let text = (case split_first CHR ''%'' address of None \<Rightarrow> address | Some (a, _) \<Rightarrow> a) in
      case embedded_quad text of
        None \<Rightarrow> parse_groups text
      | Some (pre, quad) \<Rightarrow>
          (case parseIPv4 quad of
             None \<Rightarrow> None
           | Some v4 \<Rightarrow>
               parse_groups (pre @ hex_text (unat (drop_bit 16 v4 AND 0xffff)) @ '':'' @
                 hex_text (unat (v4 AND 0xffff)))))"

definition ascii_lower :: "string \<Rightarrow> string" where
  "ascii_lower s = map (\<lambda>c. let n = (of_char c :: nat) in if 65 \<le> n \<and> n \<le> 90 then char_of (n + 32) else c) s"

definition normalizeAddress :: "string \<Rightarrow> string" where
  "normalizeAddress address =
     (if ascii_lower (take 7 address) = ''::ffff:'' \<and> dotted_quad (drop 7 address) then drop 7 address else address)"

section \<open>Ranges\<close>

datatype ip_range =
    Range4 "32 word" "32 word"
  | Range6 int int

definition parse_prefix :: "nat \<Rightarrow> string option \<Rightarrow> nat option" where
  "parse_prefix maxBits part =
     (case part of
        None \<Rightarrow> Some maxBits
      | Some t \<Rightarrow>
          if \<not> (1 \<le> length t \<and> length t \<le> 3 \<and> list_all ascii_digit t) then None
          else case radix_value 10 0 t of None \<Rightarrow> None | Some n \<Rightarrow> if maxBits < n then None else Some n)"

definition mask4 :: "nat \<Rightarrow> 32 word" where
  "mask4 prefix = (if prefix = 0 then 0 else push_bit (32 - prefix) 0xffffffff)"

definition all_ones6 :: int where
  "all_ones6 = 0xffffffffffffffffffffffffffffffff"

definition mask6 :: "nat \<Rightarrow> int" where
  "mask6 prefix = (if prefix = 0 then 0 else push_bit (128 - prefix) all_ones6 AND all_ones6)"

definition parseRange :: "(string \<Rightarrow> nat) \<Rightarrow> string \<Rightarrow> ip_range option" where
  "parseRange isIP entry =
     (let trimmed = js_trim entry in
      if trimmed = [] then None
      else
        (let (addressPart, prefixPart) = (case split_first CHR ''/'' trimmed of
               None \<Rightarrow> (trimmed, None) | Some (a, p) \<Rightarrow> (a, Some p));
             address = normalizeAddress addressPart;
             version = isIP address
         in if version = 0 then None
            else case parse_prefix (if version = 4 then 32 else 128) prefixPart of
                   None \<Rightarrow> None
                 | Some prefix \<Rightarrow>
                     if version = 4
                     then map_option (\<lambda>network. Range4 network (mask4 prefix)) (parseIPv4 address)
                     else map_option (\<lambda>network. Range6 network (mask6 prefix)) (parseIPv6 address)))"

fun rangeMatches :: "(string \<Rightarrow> nat) \<Rightarrow> ip_range \<Rightarrow> string \<Rightarrow> bool" where
  "rangeMatches isIP (Range4 network bits) address =
     (let normalized = normalizeAddress address in
      isIP normalized = 4 \<and>
      (case parseIPv4 normalized of None \<Rightarrow> False | Some v \<Rightarrow> v AND bits = network AND bits))"
| "rangeMatches isIP (Range6 network bits) address =
     (let normalized = normalizeAddress address in
      isIP normalized = 6 \<and>
      (case parseIPv6 normalized of None \<Rightarrow> False | Some v \<Rightarrow> v AND bits = network AND bits))"

section \<open>Configuration\<close>

definition DEFAULT_BYPASS_TTL_SECONDS :: int where
  "DEFAULT_BYPASS_TTL_SECONDS = 900"

definition MAX_BYPASS_TTL_SECONDS :: int where
  "MAX_BYPASS_TTL_SECONDS = 3600"

record allowlist_config =
  al_ranges :: "ip_range list"
  al_invalidEntries :: "string list"
  al_enabled :: bool
  al_bypassSecret :: "string option"
  al_bypassTtlSeconds :: int

definition loadAdminIpAllowlistConfig ::
    "(string \<Rightarrow> nat) \<Rightarrow> (string \<Rightarrow> int option) \<Rightarrow> (string \<Rightarrow> string option) \<Rightarrow> allowlist_config" where
  "loadAdminIpAllowlistConfig isIP number env =
     (let entries = filter (\<lambda>e. e \<noteq> []) (map js_trim (js_split CHR '','' (or_else (env ''ADMIN_IP_ALLOWLIST'') '''')));
          ranges = List.map_filter (parseRange isIP) entries;
          requestedTtl = (case env ''ADMIN_IP_BYPASS_TTL_SECONDS'' of None \<Rightarrow> None | Some t \<Rightarrow> number t);
          ttl = (case requestedTtl of None \<Rightarrow> DEFAULT_BYPASS_TTL_SECONDS
                 | Some n \<Rightarrow> if 0 < n then n else DEFAULT_BYPASS_TTL_SECONDS)
      in \<lparr>al_ranges = ranges, al_invalidEntries = filter (\<lambda>e. parseRange isIP e = None) entries,
          al_enabled = ranges \<noteq> [],
          al_bypassSecret = truthy_text (map_option js_trim (env ''ADMIN_IP_BYPASS_SECRET'')),
          al_bypassTtlSeconds = min ttl MAX_BYPASS_TTL_SECONDS\<rparr>)"

datatype trust_proxy = Trust_none | Trust_all | Trust_hops nat | Trust_list string

definition resolveTrustProxy :: "(string \<Rightarrow> string option) \<Rightarrow> trust_proxy" where
  "resolveTrustProxy env =
     (case truthy_text (map_option js_trim (env ''TRUST_PROXY'')) of
        None \<Rightarrow> Trust_none
      | Some raw \<Rightarrow>
          if list_all ascii_digit raw then
            (case radix_value 10 0 raw of
               Some hops \<Rightarrow> if hops = 0 then Trust_none else Trust_hops hops
             | None \<Rightarrow> Trust_list raw)
          else if ascii_lower raw \<in> {''false'', ''off'', ''no''} then Trust_none
          else if ascii_lower raw \<in> {''true'', ''on'', ''yes''} then Trust_all
          else Trust_list raw)"

section \<open>The override\<close>

record admin_request =
  rq_method :: string
  rq_url :: string
  rq_clientIp :: string
  rq_override :: "string option"

definition requestPath :: "admin_request \<Rightarrow> string" where
  "requestPath rq =
     (let path = takeWhile (\<lambda>c. c \<noteq> CHR ''?'') (if rq_url rq = [] then ''/'' else rq_url rq)
      in if 1 < length path \<and> last path = CHR ''/'' then butlast path else path)"

definition ascii_upper_text :: "string \<Rightarrow> string" where
  "ascii_upper_text s = map (\<lambda>c. let n = (of_char c :: nat) in if 97 \<le> n \<and> n \<le> 122 then char_of (n - 32) else c) s"

definition newline :: string where
  "newline = [char_of (10::nat)]"

definition overrideMessage :: "string \<Rightarrow> string \<Rightarrow> string \<Rightarrow> int \<Rightarrow> string" where
  "overrideMessage method path ip expiresAt =
     ascii_upper_text method @ newline @ path @ newline @ ip @ newline @ show_int expiresAt"

definition hex_digest :: "string \<Rightarrow> bool" where
  "hex_digest s \<longleftrightarrow> length s = 64 \<and> radix_value 16 0 s \<noteq> None"

text \<open>\<open>hmac secret message\<close> is the hexadecimal digest; the two compared digests are lower case.\<close>

definition verifyOverride :: "(string \<Rightarrow> string \<Rightarrow> string) \<Rightarrow> (string \<Rightarrow> int option) \<Rightarrow> allowlist_config \<Rightarrow>
    admin_request \<Rightarrow> int \<Rightarrow> int option" where
  "verifyOverride hmac number config rq nowSeconds =
     (case (al_bypassSecret config, truthy_text (rq_override rq)) of
        (Some secret, Some token) \<Rightarrow>
          (case split_first CHR ''.'' token of
             None \<Rightarrow> None
           | Some (left, provided) \<Rightarrow>
               (case number left of
                  None \<Rightarrow> None
                | Some expiresAt \<Rightarrow>
                    if \<not> hex_digest provided then None
                    else if expiresAt \<le> nowSeconds then None
                    else if al_bypassTtlSeconds config < expiresAt - nowSeconds then None
                    else if hmac secret (overrideMessage (rq_method rq) (requestPath rq) (rq_clientIp rq) expiresAt) =
                        ascii_lower provided
                      then Some expiresAt else None))
      | _ \<Rightarrow> None)"

datatype gate_outcome = Pass_gate | Pass_override int | Not_found_404

definition adminIpAllowlist :: "(string \<Rightarrow> nat) \<Rightarrow> (string \<Rightarrow> string \<Rightarrow> string) \<Rightarrow> (string \<Rightarrow> int option) \<Rightarrow>
    allowlist_config \<Rightarrow> admin_request \<Rightarrow> int \<Rightarrow> gate_outcome" where
  "adminIpAllowlist isIP hmac number config rq nowMs =
     (if \<not> al_enabled config then Pass_gate
      else if rq_clientIp rq \<noteq> [] \<and> list_ex (\<lambda>r. rangeMatches isIP r (rq_clientIp rq)) (al_ranges config) then Pass_gate
      else case verifyOverride hmac number config rq (nowMs div 1000) of
             Some expiresAt \<Rightarrow> Pass_override expiresAt
           | None \<Rightarrow> Not_found_404)"

section \<open>Masks are prefixes\<close>

lemma bit_all_ones6: "bit all_ones6 n \<longleftrightarrow> n < 128"
proof -
  have ones: "all_ones6 = mask 128" by (simp add: all_ones6_def mask_eq_exp_minus_1)
  show ?thesis by (simp only: ones bit_mask_iff) simp
qed

lemma bit_mask4:
  assumes "n < 32" "p \<le> 32"
  shows "bit (mask4 p) n \<longleftrightarrow> 32 - p \<le> n"
proof -
  have ones: "(0xffffffff :: 32 word) = mask 32" by (simp add: mask_eq_exp_minus_1)
  have "bit (push_bit k (mask 32 :: 32 word)) n \<longleftrightarrow> k \<le> n" for k
    using assms(1) by (simp only: bit_push_bit_iff bit_mask_iff possible_bit_word) auto
  with assms show ?thesis
    by (cases "p = 0") (simp add: mask4_def, simp only: mask4_def ones if_False)
qed

lemma bit_mask6: "p \<le> 128 \<Longrightarrow> bit (mask6 p) n \<longleftrightarrow> 128 - p \<le> n \<and> n < 128"
  by (auto simp: mask6_def bit_and_iff bit_push_bit_iff bit_all_ones6)

lemma drop_bit_eq_iff:
  fixes v w :: "'a::semiring_bit_operations"
  shows "drop_bit k v = drop_bit k w \<longleftrightarrow> (\<forall>n. bit v (k + n) = bit w (k + n))"
proof
  assume "drop_bit k v = drop_bit k w"
  then have "bit (drop_bit k v) n = bit (drop_bit k w) n" for n by simp
  then show "\<forall>n. bit v (k + n) = bit w (k + n)" by (simp add: bit_drop_bit_eq)
next
  assume "\<forall>n. bit v (k + n) = bit w (k + n)"
  then show "drop_bit k v = drop_bit k w" by (intro bit_eqI) (simp add: bit_drop_bit_eq)
qed

lemma mask4_prefix:
  fixes v w :: "32 word"
  assumes "p \<le> 32"
  shows "v AND mask4 p = w AND mask4 p \<longleftrightarrow> drop_bit (32 - p) v = drop_bit (32 - p) w"
proof -
  have high: "\<not> bit u n" if "32 \<le> n" for n and u :: "32 word"
    using that bit_imp_le_length [of u n] by auto
  have "v AND mask4 p = w AND mask4 p \<longleftrightarrow> (\<forall>n. bit (v AND mask4 p) n = bit (w AND mask4 p) n)"
    by (metis bit_eqI)
  also have "\<dots> \<longleftrightarrow> (\<forall>n. 32 - p \<le> n \<longrightarrow> bit v n = bit w n)"
    unfolding bit_and_iff using assms high bit_mask4 by (metis not_le)
  also have "\<dots> \<longleftrightarrow> (\<forall>n. bit v (32 - p + n) = bit w (32 - p + n))"
    by (metis le_add1 le_add_diff_inverse)
  finally show ?thesis by (simp only: drop_bit_eq_iff)
qed

lemma mask6_prefix:
  assumes "p \<le> 128" and "drop_bit 128 v = 0" and "drop_bit 128 w = 0"
  shows "v AND mask6 p = w AND mask6 p \<longleftrightarrow> drop_bit (128 - p) v = drop_bit (128 - p) w"
proof -
  have high: "\<not> bit u n" if "drop_bit 128 u = 0" "128 \<le> n" for n and u :: int
    using bit_drop_bit_eq [of 128 u] that by (metis bit_0_eq bot_apply comp_apply le_add_diff_inverse bot_bool_def)
  have "v AND mask6 p = w AND mask6 p \<longleftrightarrow> (\<forall>n. bit (v AND mask6 p) n = bit (w AND mask6 p) n)"
    by (metis bit_eqI)
  also have "\<dots> \<longleftrightarrow> (\<forall>n. 128 - p \<le> n \<longrightarrow> bit v n = bit w n)"
    unfolding bit_and_iff using assms high bit_mask6 by (metis not_le)
  also have "\<dots> \<longleftrightarrow> (\<forall>n. bit v (128 - p + n) = bit w (128 - p + n))"
    by (metis le_add1 le_add_diff_inverse)
  finally show ?thesis by (simp only: drop_bit_eq_iff)
qed

text \<open>A parsed IPv6 address has 128 bits.\<close>

lemma radix_value_bound: "radix_value b acc s = Some n \<Longrightarrow> 0 < b \<Longrightarrow> n < (acc + 1) * b ^ length s"
proof (induction b acc s rule: radix_value.induct)
  case (1 b acc)
  then show ?case by simp
next
  case (2 b acc c cs)
  then obtain d where d: "d < b" "n < (acc * b + d + 1) * b ^ length cs"
    by (auto split: option.splits if_splits)
  have "(acc * b + d + 1) * b ^ length cs \<le> ((acc + 1) * b) * b ^ length cs"
    using d(1) by (intro mult_right_mono) (auto simp: algebra_simps)
  with d(2) show ?case by (simp add: algebra_simps)
qed

lemma ipv6_value_bound:
  "ipv6_value gs v = Some n \<Longrightarrow> 0 \<le> v \<Longrightarrow> 0 \<le> n \<and> n < (v + 1) * 2 ^ (16 * length gs)"
proof (induction gs v rule: ipv6_value.induct)
  case (1 v)
  then show ?case by simp
next
  case (2 g gs v)
  from 2(2) obtain h where h: "length g \<le> 4" "radix_value 16 0 g = Some h"
    "ipv6_value gs (push_bit 16 v + int h) = Some n"
    by (auto split: if_splits option.splits)
  have "h < 16 ^ length g" using radix_value_bound [OF h(2)] by simp
  also have "\<dots> \<le> 16 ^ 4" using h(1) by (intro power_increasing) auto
  finally have hb: "int h + 1 \<le> 2 ^ 16" by simp
  have "0 \<le> n \<and> n < (push_bit 16 v + int h + 1) * 2 ^ (16 * length gs)"
    using 2(1) [of h] h 2(2,3) by (auto split: if_splits)
  moreover have "(push_bit 16 v + int h + 1) * 2 ^ (16 * length gs) \<le> ((v + 1) * 2 ^ 16) * 2 ^ (16 * length gs)"
    using hb by (intro mult_right_mono) (auto simp: push_bit_eq_mult algebra_simps)
  ultimately show ?case by (simp add: power_add algebra_simps)
qed

lemma parse_groups_bound: "parse_groups text = Some v \<Longrightarrow> drop_bit 128 v = 0"
proof -
  assume "parse_groups text = Some v"
  then have "\<exists>gs. ipv6_value gs 0 = Some v \<and> length gs = 8"
    by (auto simp: parse_groups_def Let_def split: list.splits if_splits)
  then obtain gs where gs: "length gs = 8" "ipv6_value gs 0 = Some v" by blast
  from ipv6_value_bound [OF gs(2)] gs(1) have "0 \<le> v" "v < 2 ^ 128" by simp_all
  then show ?thesis by (simp add: drop_bit_eq_div)
qed

lemma parseIPv6_bound: "parseIPv6 a = Some v \<Longrightarrow> drop_bit 128 v = 0"
  by (auto simp: parseIPv6_def Let_def dest: parse_groups_bound split: option.splits prod.splits)

lemma parse_prefix_le: "parse_prefix b t = Some p \<Longrightarrow> p \<le> b"
  by (auto simp: parse_prefix_def split: option.splits if_splits)

text \<open>The prefix length an entry names, and the agreement of two addresses on a prefix.\<close>

definition entry_prefix :: "nat \<Rightarrow> string \<Rightarrow> nat option" where
  "entry_prefix bits entry = parse_prefix bits (map_option snd (split_first CHR ''/'' (js_trim entry)))"

section \<open>Properties\<close>

text \<open>
  An address matches a parsed entry exactly when it is of the entry's family, after a mapped IPv4
  address is unwrapped, and its leading bits, as many as the entry's prefix length says, are the
  network's: the masks, with their special case for a prefix of zero, select exactly the prefix.
\<close>

theorem range_matches_prefix:
  assumes "parseRange isIP entry = Some r"
  shows "case r of
      Range4 network bits \<Rightarrow> (\<exists>p. entry_prefix 32 entry = Some p \<and> (rangeMatches isIP r address \<longleftrightarrow>
        isIP (normalizeAddress address) = 4 \<and> (\<exists>v. parseIPv4 (normalizeAddress address) = Some v \<and>
          drop_bit (32 - p) v = drop_bit (32 - p) network)))
    | Range6 network bits \<Rightarrow> (\<exists>p. entry_prefix 128 entry = Some p \<and> (rangeMatches isIP r address \<longleftrightarrow>
        isIP (normalizeAddress address) = 6 \<and> (\<exists>v. parseIPv6 (normalizeAddress address) = Some v \<and>
          drop_bit (128 - p) v = drop_bit (128 - p) network)))"
proof -
  obtain a t where at: "(case split_first CHR ''/'' (js_trim entry) of
      None \<Rightarrow> (js_trim entry, None) | Some (a, p) \<Rightarrow> (a, Some p)) = (a, t)"
    by (cases "split_first CHR ''/'' (js_trim entry)") auto
  then have t: "t = map_option snd (split_first CHR ''/'' (js_trim entry))"
    by (auto split: option.splits)
  let ?a = "normalizeAddress a"
  obtain p where p: "parse_prefix (if isIP ?a = 4 then 32 else 128) t = Some p" and
    r: "(if isIP ?a = 4 then map_option (\<lambda>network. Range4 network (mask4 p)) (parseIPv4 ?a)
      else map_option (\<lambda>network. Range6 network (mask6 p)) (parseIPv6 ?a)) = Some r"
    using assms unfolding parseRange_def Let_def at by (auto split: if_splits option.splits)
  have "r = Range4 (the (parseIPv4 ?a)) (mask4 p) \<and> entry_prefix 32 entry = Some p \<and> p \<le> 32 \<or>
     r = Range6 (the (parseIPv6 ?a)) (mask6 p) \<and> entry_prefix 128 entry = Some p \<and> p \<le> 128 \<and>
     parseIPv6 ?a \<noteq> None"
    using p r parse_prefix_le [OF p] unfolding entry_prefix_def t [symmetric]
    by (auto split: if_splits)
  then show ?thesis
  proof (elim disjE conjE)
    assume r: "r = Range4 (the (parseIPv4 ?a)) (mask4 p)" "entry_prefix 32 entry = Some p" "p \<le> 32"
    then show ?thesis
      by (auto simp: Let_def mask4_prefix split: option.split)
  next
    assume r: "r = Range6 (the (parseIPv6 ?a)) (mask6 p)" "entry_prefix 128 entry = Some p" "p \<le> 128"
      "parseIPv6 ?a \<noteq> None"
    then obtain n where n: "parseIPv6 ?a = Some n" by auto
    have "v AND mask6 p = n AND mask6 p \<longleftrightarrow> drop_bit (128 - p) v = drop_bit (128 - p) n"
      if "parseIPv6 (normalizeAddress address) = Some v" for v
      using r(3) parseIPv6_bound [OF that] parseIPv6_bound [OF n] by (rule mask6_prefix)
    with r n show ?thesis
      by (auto simp: Let_def split: option.split)
  qed
qed

lemma example_entry: "parseRange (\<lambda>_. 4) ''10.0.0.0/8'' = Some (Range4 (0x0a000000) (mask4 8))"
  by (simp add: parseRange_def js_trim_def js_space_def split_first_def normalizeAddress_def ascii_lower_def
      parse_prefix_def ascii_digit_def radix_value.simps digit_value_def parseIPv4_def Let_def)

theorem range_matches_prefix_witness:
  "\<exists>p. entry_prefix 32 ''10.0.0.0/8'' = Some p \<and> (rangeMatches (\<lambda>_. 4) (Range4 0x0a000000 (mask4 8)) ''10.1.2.3'' \<longleftrightarrow>
     (4::nat) = 4 \<and> (\<exists>v. parseIPv4 (normalizeAddress ''10.1.2.3'') = Some v \<and>
        drop_bit (32 - p) v = drop_bit (32 - p) 0x0a000000))"
  using range_matches_prefix [OF example_entry, of "''10.1.2.3''"] by simp

text \<open>
  Under the configuration read from any environment, a request passes the gate only from a
  network that one of its entries names (or with none configured), or on an override whose digest is
  the keyed hash of exactly this method, path, client address and expiry, and which expires after now
  and within an hour.
\<close>

theorem gate_opens_for_network_or_bounded_override:
  "let config = loadAdminIpAllowlistConfig isIP number env in
   case adminIpAllowlist isIP hmac number config rq nowMs of
     Pass_gate \<Rightarrow> al_ranges config = [] \<or> (\<exists>r \<in> set (al_ranges config). rangeMatches isIP r (rq_clientIp rq))
   | Pass_override e \<Rightarrow> nowMs div 1000 < e \<and> e \<le> nowMs div 1000 + MAX_BYPASS_TTL_SECONDS \<and>
       (\<exists>secret left digest. al_bypassSecret config = Some secret \<and>
          split_first CHR ''.'' (or_else (rq_override rq) '''') = Some (left, digest) \<and> number left = Some e \<and>
          hmac secret (overrideMessage (rq_method rq) (requestPath rq) (rq_clientIp rq) e) = ascii_lower digest)
   | Not_found_404 \<Rightarrow> True"
proof -
  let ?c = "loadAdminIpAllowlistConfig isIP number env"
  have c: "al_enabled ?c \<longleftrightarrow> al_ranges ?c \<noteq> []" "al_bypassTtlSeconds ?c \<le> MAX_BYPASS_TTL_SECONDS"
    by (simp_all add: loadAdminIpAllowlistConfig_def Let_def)
  obtain config where config: "config = ?c" by simp
  show ?thesis
    using c unfolding config [symmetric] Let_def
    by (auto simp: adminIpAllowlist_def verifyOverride_def truthy_text_def list_ex_iff or_else_def
        split: option.split if_splits prod.split)
qed

end
