(* ===== verification/Captcha.thy ===== *)
theory Captcha
  imports Stuffing
begin

text \<open>
  Adaptive challenges: \<^verbatim>\<open>backend/src/services/adaptiveCaptcha.ts\<close> and the gate of
  \<^verbatim>\<open>backend/src/middleware/adaptiveCaptcha.ts\<close>. The module's three maps and its set are the state. The
  keyed hashes (\<open>hash\<close> of an answer, \<open>mac\<close> of a token body), the encoding of a token's payload and the
  random numbers and ids belong to libraries and are arguments; \<open>decode\<close> gives nothing where the body
  is not the JSON of a payload. The locked-source signal is the model of the stuffing detector.
\<close>

section \<open>Data\<close>

datatype risk_reason = Repeated_failures | Bad_reputation | Unusual_request_rate | Credential_stuffing_lockout

record risk_context =
  rx_action :: string
  rx_source :: string
  rx_asn :: "string option"
  rx_fingerprint :: "string option"

record captcha_cfg =
  cc_windowMs :: int
  cc_failureThreshold :: int
  cc_requestRateThreshold :: int
  cc_challengeTtlMs :: int
  cc_tokenTtlMs :: int
  cc_maxSolveAttempts :: int
  cc_assistedDelayMs :: int
  cc_supportContact :: string
  cc_badSources :: string

definition captcha_defaults :: captcha_cfg where
  "captcha_defaults = \<lparr>cc_windowMs = 10 * 60 * 1000, cc_failureThreshold = 3, cc_requestRateThreshold = 30,
     cc_challengeTtlMs = 5 * 60 * 1000, cc_tokenTtlMs = 5 * 60 * 1000, cc_maxSolveAttempts = 3,
     cc_assistedDelayMs = 60 * 1000, cc_supportContact = ''support@remitmortgage.com'', cc_badSources = ''''\<rparr>"

record challenge =
  cl_challengeId :: string
  cl_action :: string
  cl_question :: string
  cl_expiresAtMs :: int

record challenge_record =
  cr_action :: string
  cr_source :: string
  cr_answerHash :: string
  cr_expiresAtMs :: int
  cr_createdAtMs :: int
  cr_attempts :: int

record source_activity =
  sa_failures :: "int list"
  sa_requests :: "int list"

record captcha_state =
  activity :: "(string, source_activity) js_map"
  challenges :: "(string, challenge_record) js_map"
  usedTokens :: "(string, int) js_map"
  badReputation :: "string set"

section \<open>Risk\<close>

definition normalize_source :: "string \<Rightarrow> string" where
  "normalize_source s = js_lower (js_trim s)"

definition flagBadReputation :: "captcha_state \<Rightarrow> string \<Rightarrow> captcha_state" where
  "flagBadReputation st source = st\<lparr>badReputation := insert (normalize_source source) (badReputation st)\<rparr>"

definition isBadReputation :: "captcha_cfg \<Rightarrow> captcha_state \<Rightarrow> string \<Rightarrow> bool" where
  "isBadReputation c st source \<longleftrightarrow>
     normalize_source source \<in> badReputation st \<or>
     normalize_source source \<in>
       set (filter (\<lambda>v. v \<noteq> []) (map normalize_source (js_split CHR '','' (cc_badSources c))))"

definition activityKey :: "string \<Rightarrow> string \<Rightarrow> string" where
  "activityKey action source = action @ ''|'' @ normalize_source source"

definition getActivity :: "captcha_cfg \<Rightarrow> captcha_state \<Rightarrow> string \<Rightarrow> int \<Rightarrow> source_activity" where
  "getActivity c st key now =
     (let a = or_else (map_get (activity st) key) \<lparr>sa_failures = [], sa_requests = []\<rparr>;
          cutoff = now - cc_windowMs c
      in \<lparr>sa_failures = filter (\<lambda>t. cutoff \<le> t) (sa_failures a),
          sa_requests = filter (\<lambda>t. cutoff \<le> t) (sa_requests a)\<rparr>)"

definition put_activity :: "captcha_state \<Rightarrow> string \<Rightarrow> source_activity \<Rightarrow> captcha_state" where
  "put_activity st key a = st\<lparr>activity := map_set (activity st) key a\<rparr>"

definition recordRequest :: "captcha_cfg \<Rightarrow> captcha_state \<Rightarrow> string \<Rightarrow> string \<Rightarrow> int \<Rightarrow> captcha_state" where
  "recordRequest c st action source now =
     (let key = activityKey action source; a = getActivity c st key now
      in put_activity st key (a\<lparr>sa_requests := sa_requests a @ [now]\<rparr>))"

definition record_failure :: "captcha_cfg \<Rightarrow> captcha_state \<Rightarrow> string \<Rightarrow> string \<Rightarrow> int \<Rightarrow> captcha_state" where
  "record_failure c st action source now =
     (let key = activityKey action source; a = getActivity c st key now
      in put_activity st key (a\<lparr>sa_failures := sa_failures a @ [now]\<rparr>))"

definition assessRisk :: "captcha_cfg \<Rightarrow> stuffing_cfg \<Rightarrow> buckets \<Rightarrow> captcha_state \<Rightarrow> risk_context \<Rightarrow> int \<Rightarrow>
    captcha_state \<times> risk_reason list" where
  "assessRisk c scfg bs st ctx now =
     (let key = activityKey (rx_action ctx) (rx_source ctx);
          a = getActivity c st key now;
          locked = lk_locked (isStuffingSourceLocked scfg bs
            \<lparr>fe_account = Some ''probe'', fe_ip = Some (rx_source ctx), fe_asn = rx_asn ctx,
             fe_fingerprint = rx_fingerprint ctx\<rparr> now)
      in (put_activity st key a,
          (if cc_failureThreshold c \<le> int (length (sa_failures a)) then [Repeated_failures] else []) @
          (if cc_requestRateThreshold c \<le> int (length (sa_requests a)) then [Unusual_request_rate] else []) @
          (if isBadReputation c st (rx_source ctx) then [Bad_reputation] else []) @
          (if locked then [Credential_stuffing_lockout] else [])))"

section \<open>Challenges\<close>

definition WORDS :: "string list" where
  "WORDS = [''zero'', ''one'', ''two'', ''three'', ''four'', ''five'', ''six'', ''seven'', ''eight'', ''nine'',
     ''ten'', ''eleven'', ''twelve'', ''thirteen'', ''fourteen'', ''fifteen'', ''sixteen'', ''seventeen'',
     ''eighteen'', ''nineteen'', ''twenty'']"

definition prune_captcha :: "captcha_state \<Rightarrow> int \<Rightarrow> captcha_state" where
  "prune_captcha st now =
     st\<lparr>challenges := filter (\<lambda>(i, rec). now < cr_expiresAtMs rec) (challenges st),
        usedTokens := filter (\<lambda>(j, exp). now < exp) (usedTokens st)\<rparr>"

definition issueChallenge :: "captcha_cfg \<Rightarrow> (string \<Rightarrow> string \<Rightarrow> string) \<Rightarrow> captcha_state \<Rightarrow> string \<Rightarrow> string \<Rightarrow>
    nat \<Rightarrow> nat \<Rightarrow> string \<Rightarrow> int \<Rightarrow> captcha_state \<times> challenge" where
  "issueChallenge c hash st action source a b uuid now =
     (let st1 = prune_captcha st now; expires = now + cc_challengeTtlMs c
      in (st1\<lparr>challenges := map_set (challenges st1) uuid
            \<lparr>cr_action = action, cr_source = source, cr_answerHash = hash uuid (digits (a + b)),
             cr_expiresAtMs = expires, cr_createdAtMs = now, cr_attempts = 0\<rparr>\<rparr>,
          \<lparr>cl_challengeId = uuid, cl_action = action,
           cl_question = ''What is '' @ WORDS ! a @ '' plus '' @ WORDS ! b @ ''? Answer with digits.'',
           cl_expiresAtMs = expires\<rparr>))"

record token_payload =
  tp_act :: string
  tp_src :: string
  tp_jti :: string
  tp_exp :: int

definition signToken :: "(token_payload \<Rightarrow> string) \<Rightarrow> (string \<Rightarrow> string) \<Rightarrow> token_payload \<Rightarrow> string" where
  "signToken encode mac p = (let body = encode p in body @ ''.'' @ mac body)"

definition mintToken :: "captcha_cfg \<Rightarrow> (token_payload \<Rightarrow> string) \<Rightarrow> (string \<Rightarrow> string) \<Rightarrow> string \<Rightarrow> string \<Rightarrow>
    string \<Rightarrow> int \<Rightarrow> string" where
  "mintToken c encode mac action source uuid now =
     signToken encode mac \<lparr>tp_act = action, tp_src = source, tp_jti = uuid, tp_exp = now + cc_tokenTtlMs c\<rparr>"

datatype solve_error = Challenge_not_found | Challenge_expired | Wrong_answer | Source_mismatch | Too_many_attempts

datatype solve_result = Solved string int | Unsolved solve_error bool string

definition solveChallenge :: "captcha_cfg \<Rightarrow> (string \<Rightarrow> string \<Rightarrow> string) \<Rightarrow> (token_payload \<Rightarrow> string) \<Rightarrow>
    (string \<Rightarrow> string) \<Rightarrow> captcha_state \<Rightarrow> string \<Rightarrow> string \<Rightarrow> string \<Rightarrow> string \<Rightarrow> int \<Rightarrow>
    captcha_state \<times> solve_result" where
  "solveChallenge c hash encode mac st cid answer source uuid now =
     (let fail = (\<lambda>e assisted. Unsolved e assisted (cc_supportContact c)) in
      case map_get (challenges st) cid of
        None \<Rightarrow> (st, fail Challenge_not_found False)
      | Some rec \<Rightarrow>
          if cr_expiresAtMs rec \<le> now then
            (st\<lparr>challenges := map_delete (challenges st) cid\<rparr>, fail Challenge_expired False)
          else if cr_source rec \<noteq> source then (st, fail Source_mismatch False)
          else if cc_maxSolveAttempts c \<le> cr_attempts rec then (st, fail Too_many_attempts True)
          else
            (let attempts = cr_attempts rec + 1 in
             if hash cid (js_trim answer) \<noteq> cr_answerHash rec then
               (st\<lparr>challenges := map_set (challenges st) cid (rec\<lparr>cr_attempts := attempts\<rparr>)\<rparr>,
                fail Wrong_answer (cc_maxSolveAttempts c \<le> attempts))
             else
               (st\<lparr>challenges := map_delete (challenges st) cid\<rparr>,
                Solved (mintToken c encode mac (cr_action rec) source uuid now) (cc_tokenTtlMs c))))"

datatype assisted_result =
    Assisted string int
  | Assisted_not_found string
  | Assisted_mismatch string
  | Assisted_not_available string
  | Assisted_wait int string

definition requestAssistedToken :: "captcha_cfg \<Rightarrow> (token_payload \<Rightarrow> string) \<Rightarrow> (string \<Rightarrow> string) \<Rightarrow>
    captcha_state \<Rightarrow> string \<Rightarrow> string \<Rightarrow> string \<Rightarrow> int \<Rightarrow> captcha_state \<times> assisted_result" where
  "requestAssistedToken c encode mac st cid source uuid now =
     (let base = cc_supportContact c in
      case map_get (challenges st) cid of
        None \<Rightarrow> (st, Assisted_not_found base)
      | Some rec \<Rightarrow>
          if cr_expiresAtMs rec \<le> now then (st, Assisted_not_found base)
          else if cr_source rec \<noteq> source then (st, Assisted_mismatch base)
          else if cr_attempts rec < cc_maxSolveAttempts c then (st, Assisted_not_available base)
          else
            (let readyAt = cr_createdAtMs rec + cc_assistedDelayMs c in
             if now < readyAt then (st, Assisted_wait (readyAt - now) base)
             else (st\<lparr>challenges := map_delete (challenges st) cid\<rparr>,
                   Assisted (mintToken c encode mac (cr_action rec) source uuid now) (cc_tokenTtlMs c))))"

section \<open>Tokens\<close>

datatype token_problem = Malformed | Bad_signature | Token_expired | Wrong_action | Wrong_source | Already_used

datatype verify_result = Valid string int | Invalid token_problem

definition token_parts :: "string option \<Rightarrow> (string \<times> string) option" where
  "token_parts token =
     (case token of None \<Rightarrow> None
      | Some t \<Rightarrow> (case js_split CHR ''.'' t of [body, sig] \<Rightarrow> Some (body, sig) | _ \<Rightarrow> None))"

definition verifyCaptchaToken :: "(string \<Rightarrow> token_payload option) \<Rightarrow> (string \<Rightarrow> string) \<Rightarrow> bool \<Rightarrow>
    captcha_state \<Rightarrow> string option \<Rightarrow> string \<Rightarrow> string \<Rightarrow> int \<Rightarrow> captcha_state \<times> verify_result" where
  "verifyCaptchaToken decode mac consume st token action source now =
     (case token_parts token of
        None \<Rightarrow> (st, Invalid Malformed)
      | Some (body, sig) \<Rightarrow>
          if sig \<noteq> mac body then (st, Invalid Bad_signature)
          else case decode body of
            None \<Rightarrow> (st, Invalid Malformed)
          | Some p \<Rightarrow>
              if tp_exp p \<le> now then (st, Invalid Token_expired)
              else if tp_act p \<noteq> action then (st, Invalid Wrong_action)
              else if tp_src p \<noteq> source then (st, Invalid Wrong_source)
              else if map_get (usedTokens st) (tp_jti p) \<noteq> None then (st, Invalid Already_used)
              else (if consume then st\<lparr>usedTokens := map_set (usedTokens st) (tp_jti p) (tp_exp p)\<rparr> else st,
                    Valid (tp_jti p) (tp_exp p)))"

definition peekCaptchaToken :: "(string \<Rightarrow> token_payload option) \<Rightarrow> (string \<Rightarrow> string) \<Rightarrow> captcha_state \<Rightarrow>
    string option \<Rightarrow> string \<Rightarrow> int \<Rightarrow> bool" where
  "peekCaptchaToken decode mac st token source now =
     (case token_parts token of
        None \<Rightarrow> False
      | Some (body, sig) \<Rightarrow>
          (case decode body of
             None \<Rightarrow> False
           | Some p \<Rightarrow>
               (case snd (verifyCaptchaToken decode mac False st token (tp_act p) source now) of
                  Valid _ _ \<Rightarrow> True | Invalid _ \<Rightarrow> False)))"

section \<open>The gate\<close>

record captcha_request =
  cq_header :: "untyped option"
  cq_body :: "untyped option"
  cq_ip :: "string option"
  cq_asn :: "untyped option"
  cq_fingerprint :: "untyped option"

definition captchaTokenFromRequest :: "captcha_request \<Rightarrow> string option" where
  "captchaTokenFromRequest rq =
     (case truthy_text (string_field (cq_header rq)) of
        Some t \<Rightarrow> Some t
      | None \<Rightarrow> truthy_text (string_field (cq_body rq)))"

definition sourceFromRequest :: "captcha_request \<Rightarrow> string" where
  "sourceFromRequest rq = or_else (truthy_text (cq_ip rq)) ''unknown''"

datatype captcha_outcome = Captcha_pass | Captcha_required "risk_reason list" token_problem challenge

text \<open>The random operands and id of a challenge come in \<open>draw\<close>, used only where one is issued.\<close>

definition adaptiveCaptcha :: "captcha_cfg \<Rightarrow> stuffing_cfg \<Rightarrow> buckets \<Rightarrow> (string \<Rightarrow> string \<Rightarrow> string) \<Rightarrow>
    (string \<Rightarrow> token_payload option) \<Rightarrow> (string \<Rightarrow> string) \<Rightarrow> string \<Rightarrow> captcha_state \<Rightarrow> captcha_request \<Rightarrow>
    nat \<times> nat \<times> string \<Rightarrow> int \<Rightarrow> captcha_state \<times> captcha_outcome" where
  "adaptiveCaptcha c scfg bs hash decode mac action st rq draw now =
     (let source = sourceFromRequest rq;
          ctx = \<lparr>rx_action = action, rx_source = source, rx_asn = string_field (cq_asn rq),
                 rx_fingerprint = string_field (cq_fingerprint rq)\<rparr>;
          (st1, reasons) = assessRisk c scfg bs st ctx now;
          st2 = recordRequest c st1 action source now
      in if reasons = [] then (st2, Captcha_pass)
         else
           (let (st3, verdict) = verifyCaptchaToken decode mac True st2 (captchaTokenFromRequest rq) action source now in
            case verdict of
              Valid _ _ \<Rightarrow> (st3, Captcha_pass)
            | Invalid problem \<Rightarrow>
                (let (a, b, uuid) = draw; (st4, ch) = issueChallenge c hash st3 action source a b uuid now
                 in (st4, Captcha_required reasons problem ch))))"

text \<open>When the response is finished: a client error that was not a challenge counts as a failure.\<close>

definition captcha_finish :: "captcha_cfg \<Rightarrow> string \<Rightarrow> captcha_state \<Rightarrow> captcha_request \<Rightarrow> captcha_outcome \<Rightarrow>
    nat \<Rightarrow> int \<Rightarrow> captcha_state" where
  "captcha_finish c action st rq outcome status now =
     (case outcome of
        Captcha_required _ _ _ \<Rightarrow> st
      | Captcha_pass \<Rightarrow>
          if 400 \<le> status \<and> status < 500 then record_failure c st action (sourceFromRequest rq) now else st)"

section \<open>Sequences of calls\<close>

datatype captcha_call =
    Flag string
  | Gate string captcha_request "nat \<times> nat \<times> string" stuffing_cfg buckets
  | Finish_response string captcha_request captcha_outcome nat
  | Issue string string nat nat string
  | Solve string string string string
  | Assist string string string
  | Peek "string option" string

text \<open>
  One call at a time: the state after it. \<open>spends\<close> says whether it is a gate that let its request
  through on a token.
\<close>

definition gate_spends :: "captcha_cfg \<Rightarrow> stuffing_cfg \<Rightarrow> buckets \<Rightarrow> (string \<Rightarrow> token_payload option) \<Rightarrow>
    (string \<Rightarrow> string) \<Rightarrow> string \<Rightarrow> captcha_state \<Rightarrow> captcha_request \<Rightarrow> int \<Rightarrow> bool" where
  "gate_spends c scfg bs decode mac action st rq now =
     (let source = sourceFromRequest rq;
          ctx = \<lparr>rx_action = action, rx_source = source, rx_asn = string_field (cq_asn rq),
                 rx_fingerprint = string_field (cq_fingerprint rq)\<rparr>;
          (st1, reasons) = assessRisk c scfg bs st ctx now
      in reasons \<noteq> [] \<and> (case snd (verifyCaptchaToken decode mac True (recordRequest c st1 action source now)
             (captchaTokenFromRequest rq) action source now) of Valid _ _ \<Rightarrow> True | Invalid _ \<Rightarrow> False))"

fun captcha_step :: "captcha_cfg \<Rightarrow> (string \<Rightarrow> string \<Rightarrow> string) \<Rightarrow> (token_payload \<Rightarrow> string) \<Rightarrow>
    (string \<Rightarrow> token_payload option) \<Rightarrow> (string \<Rightarrow> string) \<Rightarrow> captcha_state \<Rightarrow> captcha_call \<times> int \<Rightarrow> captcha_state" where
  "captcha_step c hash encode decode mac st (Flag s, now) = flagBadReputation st s"
| "captcha_step c hash encode decode mac st (Gate act rq draw scfg bs, now) =
     fst (adaptiveCaptcha c scfg bs hash decode mac act st rq draw now)"
| "captcha_step c hash encode decode mac st (Finish_response act rq out code, now) =
     captcha_finish c act st rq out code now"
| "captcha_step c hash encode decode mac st (Issue act src a b u, now) =
     fst (issueChallenge c hash st act src a b u now)"
| "captcha_step c hash encode decode mac st (Solve cid ans src u, now) =
     fst (solveChallenge c hash encode mac st cid ans src u now)"
| "captcha_step c hash encode decode mac st (Assist cid src u, now) =
     fst (requestAssistedToken c encode mac st cid src u now)"
| "captcha_step c hash encode decode mac st (Peek tok src, now) = st"

text \<open>The tokens that gates accepted over a sequence of calls, in order.\<close>

fun spent_tokens :: "captcha_cfg \<Rightarrow> (string \<Rightarrow> string \<Rightarrow> string) \<Rightarrow> (token_payload \<Rightarrow> string) \<Rightarrow>
    (string \<Rightarrow> token_payload option) \<Rightarrow> (string \<Rightarrow> string) \<Rightarrow> captcha_state \<Rightarrow> (captcha_call \<times> int) list \<Rightarrow>
    string list" where
  "spent_tokens c hash encode decode mac st [] = []"
| "spent_tokens c hash encode decode mac st ((call, now) # calls) =
     (case call of
        Gate act rq draw scfg bs \<Rightarrow>
          if gate_spends c scfg bs decode mac act st rq now then [or_else (captchaTokenFromRequest rq) ''''] else []
      | _ \<Rightarrow> []) @
     spent_tokens c hash encode decode mac (captcha_step c hash encode decode mac st (call, now)) calls"

section \<open>A spent token stays spent\<close>

definition kept :: "captcha_state \<Rightarrow> captcha_state \<Rightarrow> int \<Rightarrow> bool" where
  "kept st st' now \<longleftrightarrow> (\<forall>j e. now < e \<longrightarrow> map_get (usedTokens st) j = Some e \<longrightarrow> map_get (usedTokens st') j = Some e)"

lemma kept_refl: "usedTokens st' = usedTokens st \<Longrightarrow> kept st st' now"
  by (simp add: kept_def)

lemma kept_trans: "kept st st1 now \<Longrightarrow> kept st1 st2 now \<Longrightarrow> kept st st2 now"
  by (simp add: kept_def)

lemma kept_issue: "kept st (fst (issueChallenge c hash st act src a b u now)) now"
  by (simp add: kept_def issueChallenge_def prune_captcha_def Let_def map_get_filter)

lemma kept_verify: "kept st (fst (verifyCaptchaToken decode mac consume st tok act src now)) now"
  by (auto simp: kept_def verifyCaptchaToken_def split: option.split prod.split)

lemma kept_assess: "usedTokens (fst (assessRisk c scfg bs st ctx now)) = usedTokens st"
  by (simp add: assessRisk_def put_activity_def Let_def)

lemma kept_request: "usedTokens (recordRequest c st act src now) = usedTokens st"
  "usedTokens (record_failure c st act src now) = usedTokens st"
  by (simp_all add: recordRequest_def record_failure_def put_activity_def Let_def)

lemma kept_gate: "kept st (fst (adaptiveCaptcha c scfg bs hash decode mac act st rq draw now)) now"
proof -
  let ?ctx = "\<lparr>rx_action = act, rx_source = sourceFromRequest rq, rx_asn = string_field (cq_asn rq),
    rx_fingerprint = string_field (cq_fingerprint rq)\<rparr>"
  let ?st2 = "recordRequest c (fst (assessRisk c scfg bs st ?ctx now)) act (sourceFromRequest rq) now"
  let ?v = "verifyCaptchaToken decode mac True ?st2 (captchaTokenFromRequest rq) act (sourceFromRequest rq) now"
  have st2: "kept st ?st2 now" by (rule kept_refl) (simp add: kept_request kept_assess)
  have st3: "kept st (fst ?v) now" by (rule kept_trans [OF st2 kept_verify])
  have st4: "kept st (fst (issueChallenge c hash (fst ?v) act (sourceFromRequest rq) a b u now)) now" for a b u
    by (rule kept_trans [OF st3 kept_issue])
  show ?thesis
    using st2 st3 st4
    by (cases draw) (auto simp: adaptiveCaptcha_def Let_def split_beta split: verify_result.split)
qed

lemma kept_step: "kept st (captcha_step c hash encode decode mac st (call, now)) now"
proof (cases call)
  case (Finish_response act rq out code)
  then show ?thesis
    by (auto intro!: kept_refl simp: captcha_finish_def kept_request split: captcha_outcome.split)
next
  case (Solve cid ans src u)
  then show ?thesis
    by (auto intro!: kept_refl simp: solveChallenge_def Let_def split: option.split)
next
  case (Assist cid src u)
  then show ?thesis
    by (auto intro!: kept_refl simp: requestAssistedToken_def Let_def split: option.split)
qed (simp_all add: kept_gate kept_issue, simp_all add: kept_refl flagBadReputation_def)

text \<open>A token is dead from a time on: expired by then, or recorded as used until it is.\<close>

definition dead :: "(string \<Rightarrow> token_payload option) \<Rightarrow> captcha_state \<Rightarrow> int \<Rightarrow> string \<Rightarrow> bool" where
  "dead decode st now tok \<longleftrightarrow>
     (\<exists>body sig p. token_parts (Some tok) = Some (body, sig) \<and> decode body = Some p \<and>
        (tp_exp p \<le> now \<or> map_get (usedTokens st) (tp_jti p) = Some (tp_exp p)))"

lemma dead_kept: "dead decode st now tok \<Longrightarrow> now \<le> now' \<Longrightarrow> kept st st' now' \<Longrightarrow> dead decode st' now' tok"
  unfolding dead_def kept_def by (metis order_trans not_le)

lemma dead_invalid:
  "dead decode st now tok \<Longrightarrow> now \<le> now' \<Longrightarrow>
     snd (verifyCaptchaToken decode mac consume st (Some tok) act src now') \<noteq> Valid j e"
  by (auto simp: dead_def verifyCaptchaToken_def split: if_splits option.splits)

lemma valid_dead:
  "snd (verifyCaptchaToken decode mac True st tok act src now) = Valid j e \<Longrightarrow>
     tok = Some t \<Longrightarrow> dead decode (fst (verifyCaptchaToken decode mac True st tok act src now)) now t"
  by (auto simp: dead_def verifyCaptchaToken_def split: option.splits prod.splits if_splits)

lemma gate_spends_token:
  assumes "gate_spends c scfg bs decode mac act st rq now"
  obtains t where "captchaTokenFromRequest rq = Some t" "\<not> dead decode st now t"
    "dead decode (fst (adaptiveCaptcha c scfg bs hash decode mac act st rq draw now)) now t"
proof -
  let ?ctx = "\<lparr>rx_action = act, rx_source = sourceFromRequest rq, rx_asn = string_field (cq_asn rq),
    rx_fingerprint = string_field (cq_fingerprint rq)\<rparr>"
  let ?st2 = "recordRequest c (fst (assessRisk c scfg bs st ?ctx now)) act (sourceFromRequest rq) now"
  let ?v = "verifyCaptchaToken decode mac True ?st2 (captchaTokenFromRequest rq) act (sourceFromRequest rq) now"
  obtain j e where v: "snd ?v = Valid j e" and risky: "snd (assessRisk c scfg bs st ?ctx now) \<noteq> []"
    using assms by (auto simp: gate_spends_def Let_def split_beta split: verify_result.splits)
  obtain t where t: "captchaTokenFromRequest rq = Some t"
    using v by (cases "captchaTokenFromRequest rq") (auto simp: verifyCaptchaToken_def token_parts_def)
  have "usedTokens ?st2 = usedTokens st" by (simp add: kept_request kept_assess)
  then have "dead decode ?st2 now t = dead decode st now t" by (simp add: dead_def)
  with dead_invalid [of decode ?st2 now t now mac True act "sourceFromRequest rq" j e] v t
  have "\<not> dead decode st now t" by auto
  moreover have "fst (adaptiveCaptcha c scfg bs hash decode mac act st rq draw now) = fst ?v"
    using v risky by (simp add: adaptiveCaptcha_def Let_def split_beta)
  ultimately show ?thesis
    using that [OF t] valid_dead [OF v t] by simp
qed

lemma spent_tokens_once:
  "\<forall>tok \<in> D. dead decode st now tok \<Longrightarrow> sorted (now # map snd calls) \<Longrightarrow>
     distinct (spent_tokens c hash encode decode mac st calls) \<and>
     set (spent_tokens c hash encode decode mac st calls) \<inter> D = {}"
proof (induction calls arbitrary: st now D)
  case Nil
  then show ?case by simp
next
  case (Cons x calls)
  obtain call t where x: "x = (call, t)" by (cases x)
  let ?st' = "captcha_step c hash encode decode mac st (call, t)"
  have t: "now \<le> t" "sorted (t # map snd calls)" using Cons.prems(2) by (auto simp: x)
  have D: "\<forall>tok \<in> D. dead decode ?st' t tok"
    using Cons.prems(1) t(1) kept_step dead_kept by blast
  show ?case
  proof (cases "\<exists>act rq draw scfg bs. call = Gate act rq draw scfg bs \<and> gate_spends c scfg bs decode mac act st rq t")
    case False
    then have "spent_tokens c hash encode decode mac st (x # calls) = spent_tokens c hash encode decode mac ?st' calls"
      by (cases call) (auto simp: x)
    with Cons.IH [OF D t(2)] show ?thesis by simp
  next
    case True
    then obtain act rq draw scfg bs where call: "call = Gate act rq draw scfg bs"
      "gate_spends c scfg bs decode mac act st rq t" by blast
    from gate_spends_token [OF call(2), of hash draw] obtain tok where tok: "captchaTokenFromRequest rq = Some tok"
      "\<not> dead decode st t tok" "dead decode ?st' t tok"
      by (auto simp: call(1))
    have "tok \<notin> D" using tok(2) Cons.prems(1) t(1) dead_kept [of decode st now tok t st] kept_refl by blast
    moreover have "\<forall>u \<in> insert tok D. dead decode ?st' t u" using D tok(3) by simp
    from Cons.IH [OF this t(2)] have "distinct (spent_tokens c hash encode decode mac ?st' calls)"
      "set (spent_tokens c hash encode decode mac ?st' calls) \<inter> insert tok D = {}" by simp_all
    moreover have "spent_tokens c hash encode decode mac st (x # calls) =
        tok # spent_tokens c hash encode decode mac ?st' calls"
      using call tok(1) by (simp add: x)
    ultimately show ?thesis by auto
  qed
qed

section \<open>Property\<close>

text \<open>
  A token opens a gate once: over any calls whose clock does not go back, in which challenges are
  issued, solved and pruned in between, no token that a gate has accepted is accepted by any gate
  again, although used tokens are forgotten once they expire.
\<close>

theorem captcha_token_single_use:
  assumes "sorted (map snd calls)"
  shows "distinct (spent_tokens c hash encode decode mac st calls)"
proof (cases calls)
  case Nil
  then show ?thesis by simp
next
  case (Cons x xs)
  with assms show ?thesis
    using spent_tokens_once [of "{}" decode st "snd x" calls c hash encode mac] by simp
qed

theorem captcha_token_single_use_witness:
  "distinct (spent_tokens captcha_defaults (\<lambda>_ _. ''h'') tp_jti (\<lambda>b. Some \<lparr>tp_act = ''login'', tp_src = ''s'',
     tp_jti = b, tp_exp = 9\<rparr>) (\<lambda>_. ''m'') \<lparr>activity = [], challenges = [], usedTokens = [], badReputation = {''s''}\<rparr>
     [(Gate ''login'' \<lparr>cq_header = Some (Str ''j.m''), cq_body = None, cq_ip = Some ''s'', cq_asn = None,
        cq_fingerprint = None\<rparr> (1, 2, ''u'') stuffing_defaults [], 5)])"
  by (rule captcha_token_single_use) simp

end
