(* ===== verification/FourEyes.thy ===== *)
theory FourEyes
  imports Prelude
begin

text \<open>
  Second-admin approval of high-value actions: the policy of
  \<^verbatim>\<open>backend/src/services/fourEyesPolicy.ts\<close> and the queue of
  \<^verbatim>\<open>backend/src/services/fourEyesApproval.ts\<close>. The table of requests is behind the database client, so
  its operations are an argument, the record \<open>request_client\<close>, and \<open>request_table\<close> is what they
  promise. An approval is a guard that reads the request and an update that writes it, two awaited
  calls, so each is a function of its own; \<open>approveRequest\<close> is their composition. Audit entries are
  the results' second part; the in-app notifications to approvers are the list of those that are sent.
  A registered action is looked up among the four registered ones; the names every JavaScript object
  inherits (\<^verbatim>\<open>constructor\<close> and the like) are not registered here.
\<close>

section \<open>Policy\<close>

record four_eyes_action =
  fa_actionType :: string
  fa_description :: string
  fa_amountThreshold :: "rat option"

definition FOUR_EYES_ACTIONS :: "(string \<times> four_eyes_action) list" where
  "FOUR_EYES_ACTIONS =
    [(''LOAN_SERVICING_TRANSFER'', \<lparr>fa_actionType = ''LOAN_SERVICING_TRANSFER'',
        fa_description = ''Transfer servicing of a loan to a new servicer'', fa_amountThreshold = Some 50000\<rparr>),
     (''ESCROW_RECONCILE_AUTOCORRECT'', \<lparr>fa_actionType = ''ESCROW_RECONCILE_AUTOCORRECT'',
        fa_description = ''Auto-correct an escrow balance mismatch'', fa_amountThreshold = Some 10000\<rparr>),
     (''SCORING_MODEL_UPDATE'', \<lparr>fa_actionType = ''SCORING_MODEL_UPDATE'',
        fa_description = ''Change the active or shadow credit scoring model'', fa_amountThreshold = None\<rparr>),
     (''AUTO_REJECTION_RULE_CHANGE'', \<lparr>fa_actionType = ''AUTO_REJECTION_RULE_CHANGE'',
        fa_description = ''Create or update an automated application-rejection rule'', fa_amountThreshold = None\<rparr>)]"

definition getActionDefinition :: "string \<Rightarrow> four_eyes_action option" where
  "getActionDefinition actionType = map_of FOUR_EYES_ACTIONS actionType"

definition requiresFourEyesApproval :: "string \<Rightarrow> rat option \<Rightarrow> bool" where
  "requiresFourEyesApproval actionType amount =
     (case getActionDefinition actionType of
        None \<Rightarrow> False
      | Some def \<Rightarrow>
          (case fa_amountThreshold def of
             None \<Rightarrow> True
           | Some threshold \<Rightarrow> threshold \<le> or_else amount 0))"

section \<open>Requests\<close>

datatype request_status = PENDING | APPROVED | REJECTED | EXPIRED

record approval_request =
  aq_id :: string
  aq_actionType :: string
  aq_payload :: string
  aq_amount :: "rat option"
  aq_requestedBy :: string
  aq_status :: request_status
  aq_expiresAt :: int
  aq_approvedBy :: "string option"
  aq_approvedAt :: "int option"
  aq_rejectedBy :: "string option"
  aq_rejectedAt :: "int option"
  aq_rejectionReason :: "string option"
  aq_executedAt :: "int option"

record 'db request_client =
  cl_create :: "'db \<Rightarrow> approval_request \<Rightarrow> 'db \<times> string"
  cl_findUnique :: "'db \<Rightarrow> string \<Rightarrow> approval_request option"
  cl_update :: "'db \<Rightarrow> string \<Rightarrow> (approval_request \<Rightarrow> approval_request) \<Rightarrow> 'db"
  cl_findDue :: "'db \<Rightarrow> int \<Rightarrow> string list"

datatype four_eyes_error =
  Not_found | Not_pending request_status | Request_expired | Self_approval | Not_eligible_approver | Missing_reason

datatype audit_event =
    Audit_created string string "rat option"
  | Audit_approved string string
  | Audit_rejected string string string
  | Audit_expired string

record four_eyes_config =
  fc_approverAddresses :: "string list"
  fc_adminWallet :: "string option"
  fc_expiryHours :: int

definition isExpired :: "approval_request \<Rightarrow> int \<Rightarrow> bool" where
  "isExpired r now \<longleftrightarrow> aq_expiresAt r \<le> now"

definition eligibleApproverAddresses :: "four_eyes_config \<Rightarrow> string list" where
  "eligibleApproverAddresses cfg =
     (let addresses = rev (remdups (rev (fc_approverAddresses cfg))) in
      case truthy_text (map_option js_lower (fc_adminWallet cfg)) of
        None \<Rightarrow> addresses
      | Some a \<Rightarrow> if a \<in> set addresses then addresses else addresses @ [a])"

definition isEligibleApprover :: "four_eyes_config \<Rightarrow> string \<Rightarrow> bool" where
  "isEligibleApprover cfg address \<longleftrightarrow> js_lower address \<in> set (eligibleApproverAddresses cfg)"

record approval_notification =
  an_walletAddress :: string
  an_message :: string
  an_requestId :: string
  an_actionType :: string

definition notifyEligibleApprovers :: "four_eyes_config \<Rightarrow> string \<Rightarrow> string \<Rightarrow> string \<Rightarrow> string \<Rightarrow>
    approval_notification list" where
  "notifyEligibleApprovers cfg requestId actionType description requestedBy =
     map (\<lambda>approver. \<lparr>an_walletAddress = approver,
            an_message = description @ '' is pending your approval (requested by '' @ requestedBy @ '').'',
            an_requestId = requestId, an_actionType = actionType\<rparr>)
       (filter (\<lambda>addr. addr \<noteq> js_lower requestedBy) (eligibleApproverAddresses cfg))"

definition new_request :: "four_eyes_config \<Rightarrow> string \<Rightarrow> string \<Rightarrow> rat option \<Rightarrow> string \<Rightarrow> int \<Rightarrow> approval_request" where
  "new_request cfg actionType payload amount requestedBy now =
     \<lparr>aq_id = '''', aq_actionType = actionType, aq_payload = payload, aq_amount = amount, aq_requestedBy = requestedBy,
      aq_status = PENDING, aq_expiresAt = now + fc_expiryHours cfg * 60 * 60 * 1000, aq_approvedBy = None,
      aq_approvedAt = None, aq_rejectedBy = None, aq_rejectedAt = None, aq_rejectionReason = None,
      aq_executedAt = None\<rparr>"

definition createApprovalRequest :: "'db request_client \<Rightarrow> four_eyes_config \<Rightarrow> 'db \<Rightarrow> string \<Rightarrow> string \<Rightarrow>
    rat option \<Rightarrow> string \<Rightarrow> int \<Rightarrow> 'db \<times> string \<times> audit_event list \<times> approval_notification list" where
  "createApprovalRequest client cfg db actionType payload amount requestedBy now =
     (let (db', rid) = cl_create client db (new_request cfg actionType payload amount requestedBy now)
      in (db', rid, [Audit_created rid actionType amount],
         notifyEligibleApprovers cfg rid actionType
           (case getActionDefinition actionType of None \<Rightarrow> actionType | Some def \<Rightarrow> fa_description def) requestedBy))"

section \<open>Decisions\<close>

definition expireOne :: "'db request_client \<Rightarrow> 'db \<Rightarrow> string \<Rightarrow> 'db \<times> audit_event list" where
  "expireOne client db rid = (cl_update client db rid (\<lambda>r. r\<lparr>aq_status := EXPIRED\<rparr>), [Audit_expired rid])"

definition requirePendingAndNotSelf :: "'db request_client \<Rightarrow> 'db \<Rightarrow> string \<Rightarrow> string \<Rightarrow> int \<Rightarrow>
    'db \<times> audit_event list \<times> (four_eyes_error + approval_request)" where
  "requirePendingAndNotSelf client db rid caller now =
     (case cl_findUnique client db rid of
        None \<Rightarrow> (db, [], Inl Not_found)
      | Some r \<Rightarrow>
          if aq_status r \<noteq> PENDING then (db, [], Inl (Not_pending (aq_status r)))
          else if isExpired r now then
            (let (db', audit) = expireOne client db (aq_id r) in (db', audit, Inl Request_expired))
          else if js_lower (aq_requestedBy r) = js_lower caller then (db, [], Inl Self_approval)
          else (db, [], Inr r))"

definition commit_approval :: "'db request_client \<Rightarrow> 'db \<Rightarrow> string \<Rightarrow> string \<Rightarrow> int \<Rightarrow> 'db \<times> audit_event list" where
  "commit_approval client db rid approver now =
     (cl_update client db rid (\<lambda>r. r\<lparr>aq_status := APPROVED, aq_approvedBy := Some approver, aq_approvedAt := Some now\<rparr>),
      [Audit_approved rid approver])"

definition commit_rejection :: "'db request_client \<Rightarrow> 'db \<Rightarrow> string \<Rightarrow> string \<Rightarrow> string \<Rightarrow> int \<Rightarrow>
    'db \<times> audit_event list" where
  "commit_rejection client db rid approver reason now =
     (cl_update client db rid (\<lambda>r. r\<lparr>aq_status := REJECTED, aq_rejectedBy := Some approver,
        aq_rejectedAt := Some now, aq_rejectionReason := Some (js_trim reason)\<rparr>),
      [Audit_rejected rid approver (js_trim reason)])"

definition approveRequest :: "'db request_client \<Rightarrow> four_eyes_config \<Rightarrow> 'db \<Rightarrow> string \<Rightarrow> string \<Rightarrow> int \<Rightarrow>
    'db \<times> audit_event list \<times> four_eyes_error option" where
  "approveRequest client cfg db rid approver now =
     (case requirePendingAndNotSelf client db rid approver now of
        (db1, audit, Inl e) \<Rightarrow> (db1, audit, Some e)
      | (db1, audit, Inr r) \<Rightarrow>
          if \<not> isEligibleApprover cfg approver then (db1, audit, Some Not_eligible_approver)
          else (let (db2, audit2) = commit_approval client db1 rid approver now in (db2, audit @ audit2, None)))"

definition rejectRequest :: "'db request_client \<Rightarrow> four_eyes_config \<Rightarrow> 'db \<Rightarrow> string \<Rightarrow> string \<Rightarrow> string \<Rightarrow> int \<Rightarrow>
    'db \<times> audit_event list \<times> four_eyes_error option" where
  "rejectRequest client cfg db rid approver reason now =
     (if js_trim reason = [] then (db, [], Some Missing_reason)
      else case requirePendingAndNotSelf client db rid approver now of
        (db1, audit, Inl e) \<Rightarrow> (db1, audit, Some e)
      | (db1, audit, Inr r) \<Rightarrow>
          if \<not> isEligibleApprover cfg approver then (db1, audit, Some Not_eligible_approver)
          else (let (db2, audit2) = commit_rejection client db1 rid approver reason now in (db2, audit @ audit2, None)))"

definition markExecuted :: "'db request_client \<Rightarrow> 'db \<Rightarrow> string \<Rightarrow> int \<Rightarrow> 'db" where
  "markExecuted client db rid now = cl_update client db rid (\<lambda>r. r\<lparr>aq_executedAt := Some now\<rparr>)"

definition expireDueApprovalRequests :: "'db request_client \<Rightarrow> 'db \<Rightarrow> int \<Rightarrow> 'db \<times> audit_event list \<times> nat" where
  "expireDueApprovalRequests client db now =
     (let due = cl_findDue client db now;
          (db', audit) = foldl (\<lambda>(d, a) rid. let (d', a') = expireOne client d rid in (d', a @ a')) (db, []) due
      in (db', audit, length due))"

section \<open>The table's promise\<close>

text \<open>
  A row keeps its key, an update changes the one row it names, a created row is found under its fresh
  id, and the due rows are the pending ones past their expiry.
\<close>

definition request_table :: "'db request_client \<Rightarrow> bool" where
  "request_table client \<longleftrightarrow>
     (\<forall>db rid r. cl_findUnique client db rid = Some r \<longrightarrow> aq_id r = rid) \<and>
     (\<forall>db rid f k. (\<forall>r. aq_id (f r) = aq_id r) \<longrightarrow> cl_findUnique client (cl_update client db rid f) k =
        (if k = rid then map_option f (cl_findUnique client db k) else cl_findUnique client db k)) \<and>
     (\<forall>db r db' rid k. cl_create client db r = (db', rid) \<longrightarrow> cl_findUnique client db rid = None \<and>
        cl_findUnique client db' k = (if k = rid then Some (r\<lparr>aq_id := rid\<rparr>) else cl_findUnique client db k)) \<and>
     (\<forall>db now rid. rid \<in> set (cl_findDue client db now) \<longrightarrow>
        (\<exists>r. cl_findUnique client db rid = Some r \<and> aq_status r = PENDING \<and> aq_expiresAt r \<le> now))"

section \<open>Sequences of calls\<close>

datatype four_eyes_call =
    Create string string "rat option" string int
  | Approve string string int
  | Reject string string string int
  | Mark string int
  | Sweep int

fun four_eyes_step :: "'db request_client \<Rightarrow> four_eyes_config \<Rightarrow> 'db \<Rightarrow> four_eyes_call \<Rightarrow> 'db" where
  "four_eyes_step client cfg db (Create t p a by now) = fst (createApprovalRequest client cfg db t p a by now)"
| "four_eyes_step client cfg db (Approve rid who now) = fst (approveRequest client cfg db rid who now)"
| "four_eyes_step client cfg db (Reject rid who why now) = fst (rejectRequest client cfg db rid who why now)"
| "four_eyes_step client cfg db (Mark rid now) = markExecuted client db rid now"
| "four_eyes_step client cfg db (Sweep now) = fst (expireDueApprovalRequests client db now)"

section \<open>What one call does to a row\<close>

lemma table_id: "request_table client \<Longrightarrow> cl_findUnique client db rid = Some r \<Longrightarrow> aq_id r = rid"
  by (simp add: request_table_def)

lemma table_update:
  "request_table client \<Longrightarrow> (\<And>r. aq_id (f r) = aq_id r) \<Longrightarrow> cl_findUnique client (cl_update client db rid f) k =
     (if k = rid then map_option f (cl_findUnique client db k) else cl_findUnique client db k)"
  unfolding request_table_def by blast

lemma table_create:
  "request_table client \<Longrightarrow> cl_create client db r = (db', rid) \<Longrightarrow> cl_findUnique client db rid = None \<and>
     cl_findUnique client db' k = (if k = rid then Some (r\<lparr>aq_id := rid\<rparr>) else cl_findUnique client db k)"
  unfolding request_table_def by blast

lemma table_due:
  "request_table client \<Longrightarrow> rid \<in> set (cl_findDue client db now) \<Longrightarrow>
     \<exists>r. cl_findUnique client db rid = Some r \<and> aq_status r = PENDING \<and> aq_expiresAt r \<le> now"
  unfolding request_table_def by blast

lemma expireOne_find:
  "request_table client \<Longrightarrow> cl_findUnique client (fst (expireOne client db k)) rid =
     (if rid = k then map_option (\<lambda>r. r\<lparr>aq_status := EXPIRED\<rparr>) (cl_findUnique client db rid)
      else cl_findUnique client db rid)"
  by (simp add: expireOne_def table_update)

lemma sweep_find:
  assumes "request_table client"
  shows "cl_findUnique client (fst (foldl (\<lambda>(d, a) k. (fst (expireOne client d k), a @ snd (expireOne client d k))) (db, a) ks)) rid =
    (if rid \<in> set ks then map_option (\<lambda>r. r\<lparr>aq_status := EXPIRED\<rparr>) (cl_findUnique client db rid)
     else cl_findUnique client db rid)"
proof (induction ks arbitrary: db a)
  case Nil
  then show ?case by simp
next
  case (Cons k ks)
  show ?case
    using Cons [of "fst (expireOne client db k)" "a @ snd (expireOne client db k)"]
    by (cases "cl_findUnique client db rid") (auto simp: split_beta Let_def expireOne_find [OF assms])
qed

definition decided_by :: "four_eyes_config \<Rightarrow> approval_request \<Rightarrow> string \<Rightarrow> int \<Rightarrow> bool" where
  "decided_by cfg r who t \<longleftrightarrow> isEligibleApprover cfg who \<and> js_lower who \<noteq> js_lower (aq_requestedBy r) \<and> t < aq_expiresAt r"

inductive row_step :: "four_eyes_config \<Rightarrow> four_eyes_call \<Rightarrow> approval_request \<Rightarrow> approval_request \<Rightarrow> bool"
  for cfg :: four_eyes_config where
  same: "row_step cfg call r r"
| executed: "row_step cfg (Mark (aq_id r) t) r (r\<lparr>aq_executedAt := Some t\<rparr>)"
| approved: "aq_status r = PENDING \<Longrightarrow> decided_by cfg r who t \<Longrightarrow> row_step cfg (Approve (aq_id r) who t) r
    (r\<lparr>aq_status := APPROVED, aq_approvedBy := Some who, aq_approvedAt := Some t\<rparr>)"
| rejected: "aq_status r = PENDING \<Longrightarrow> decided_by cfg r who t \<Longrightarrow> row_step cfg (Reject (aq_id r) who why t) r
    (r\<lparr>aq_status := REJECTED, aq_rejectedBy := Some who, aq_rejectedAt := Some t,
       aq_rejectionReason := Some (js_trim why)\<rparr>)"
| expired: "aq_status r = PENDING \<Longrightarrow> row_step cfg call r (r\<lparr>aq_status := EXPIRED\<rparr>)"

inductive_cases row_stepE: "row_step cfg call r r'"

lemma guard_outcomes:
  assumes "request_table client"
  shows "requirePendingAndNotSelf client db rid who t =
    (case cl_findUnique client db rid of
       None \<Rightarrow> (db, [], Inl Not_found)
     | Some r \<Rightarrow>
         if aq_status r \<noteq> PENDING then (db, [], Inl (Not_pending (aq_status r)))
         else if aq_expiresAt r \<le> t then (fst (expireOne client db rid), [Audit_expired rid], Inl Request_expired)
         else if js_lower (aq_requestedBy r) = js_lower who then (db, [], Inl Self_approval)
         else (db, [], Inr r))"
  using assms by (auto simp: requirePendingAndNotSelf_def isExpired_def expireOne_def table_id split: option.split)

lemma step_row:
  assumes table: "request_table client" and r: "cl_findUnique client db rid = Some r"
  shows "\<exists>r'. cl_findUnique client (four_eyes_step client cfg db call) rid = Some r' \<and> row_step cfg call r r'"
proof (cases call)
  case (Create t p a by' now)
  obtain db' k where c: "cl_create client db (new_request cfg t p a by' now) = (db', k)" by (meson surj_pair)
  from table_create [OF table c, of rid] r Create c show ?thesis
    by (auto simp: createApprovalRequest_def intro: row_step.same)
next
  case (Approve k who t)
  show ?thesis
  proof (cases "k = rid")
    case True
    with r Approve table_id [OF table r] show ?thesis
      by (auto simp: approveRequest_def guard_outcomes [OF table] expireOne_find [OF table] commit_approval_def
          table_update [OF table] decided_by_def Let_def not_le
          intro!: row_step.same row_step.expired row_step.approved [of r cfg who t, simplified])
  next
    case False
    then have "cl_findUnique client (four_eyes_step client cfg db call) rid = Some r"
      using r Approve by (auto simp: approveRequest_def guard_outcomes [OF table] expireOne_find [OF table]
          commit_approval_def table_update [OF table] Let_def split: option.split)
    then show ?thesis by (blast intro: row_step.same)
  qed
next
  case (Reject k who why t)
  show ?thesis
  proof (cases "k = rid")
    case True
    with r Reject table_id [OF table r] show ?thesis
      by (auto simp: rejectRequest_def guard_outcomes [OF table] expireOne_find [OF table] commit_rejection_def
          table_update [OF table] decided_by_def Let_def not_le
          intro!: row_step.same row_step.expired row_step.rejected [of r cfg who t, simplified])
  next
    case False
    then have "cl_findUnique client (four_eyes_step client cfg db call) rid = Some r"
      using r Reject by (auto simp: rejectRequest_def guard_outcomes [OF table] expireOne_find [OF table]
          commit_rejection_def table_update [OF table] Let_def split: option.split)
    then show ?thesis by (blast intro: row_step.same)
  qed
next
  case (Mark k t)
  with r table_id [OF table r] row_step.executed [of cfg r t] row_step.same [of cfg call r] show ?thesis
    by (auto simp: markExecuted_def table_update [OF table])
next
  case (Sweep t)
  show ?thesis
  proof (cases "rid \<in> set (cl_findDue client db t)")
    case True
    with table_due [OF table True] r Sweep show ?thesis
      by (auto simp: expireDueApprovalRequests_def Let_def split_beta sweep_find [OF table]
          intro!: row_step.expired)
  next
    case False
    with r Sweep show ?thesis
      by (auto simp: expireDueApprovalRequests_def Let_def split_beta sweep_find [OF table] intro!: row_step.same)
  qed
qed

lemma step_absent:
  assumes table: "request_table client" and none: "cl_findUnique client db rid = None"
  shows "case cl_findUnique client (four_eyes_step client cfg db call) rid of None \<Rightarrow> True | Some r \<Rightarrow> aq_status r = PENDING"
proof (cases call)
  case (Create t p a by' now)
  obtain db' k where c: "cl_create client db (new_request cfg t p a by' now) = (db', k)" by (meson surj_pair)
  from table_create [OF table c, of rid] none Create c show ?thesis
    by (auto simp: createApprovalRequest_def new_request_def)
next
  case (Approve k who t)
  with none show ?thesis
    by (auto simp: approveRequest_def guard_outcomes [OF table] expireOne_find [OF table]
        commit_approval_def table_update [OF table] Let_def split: option.splits)
next
  case (Reject k who why t)
  with none show ?thesis
    by (auto simp: rejectRequest_def guard_outcomes [OF table] expireOne_find [OF table]
        commit_rejection_def table_update [OF table] Let_def split: option.splits)
next
  case (Mark k t)
  with none show ?thesis by (auto simp: markExecuted_def table_update [OF table])
next
  case (Sweep t)
  with none show ?thesis
    by (auto simp: expireDueApprovalRequests_def Let_def split_beta sweep_find [OF table])
qed

section \<open>Histories of a row\<close>

definition four_eyes_run :: "'db request_client \<Rightarrow> four_eyes_config \<Rightarrow> 'db \<Rightarrow> four_eyes_call list \<Rightarrow> 'db" where
  "four_eyes_run client cfg = foldl (four_eyes_step client cfg)"

definition backed :: "four_eyes_config \<Rightarrow> four_eyes_call list \<Rightarrow> approval_request \<Rightarrow> bool" where
  "backed cfg calls r \<longleftrightarrow>
     (case aq_status r of
        APPROVED \<Rightarrow> \<exists>who t. aq_approvedBy r = Some who \<and> aq_approvedAt r = Some t \<and> decided_by cfg r who t \<and>
                          Approve (aq_id r) who t \<in> set calls
      | REJECTED \<Rightarrow> \<exists>who why t. aq_rejectedBy r = Some who \<and> aq_rejectedAt r = Some t \<and> decided_by cfg r who t \<and>
                          Reject (aq_id r) who why t \<in> set calls
      | _ \<Rightarrow> True)"

definition decision :: "approval_request \<Rightarrow> request_status \<times> string option \<times> string option" where
  "decision r = (aq_status r, aq_approvedBy r, aq_rejectedBy r)"

lemma decided_by_cong:
  "aq_requestedBy r' = aq_requestedBy r \<Longrightarrow> aq_expiresAt r' = aq_expiresAt r \<Longrightarrow> decided_by cfg r' = decided_by cfg r"
  by (simp add: decided_by_def fun_eq_iff)

lemma row_step_backed: "row_step cfg call r r' \<Longrightarrow> backed cfg calls r \<Longrightarrow> backed cfg (calls @ [call]) r'"
  by (erule row_step.cases) (auto simp: backed_def decided_by_def split: request_status.splits)

lemma row_step_decided: "row_step cfg call r r' \<Longrightarrow> aq_status r \<noteq> PENDING \<Longrightarrow> decision r' = decision r"
  by (erule row_step.cases) (auto simp: decision_def)

lemma run_backed:
  assumes table: "request_table client" and start: "cl_findUnique client db rid = None"
  shows "cl_findUnique client (four_eyes_run client cfg db calls) rid = Some r \<Longrightarrow> backed cfg calls r"
proof (induction calls arbitrary: r rule: rev_induct)
  case Nil
  with start show ?case by (simp add: four_eyes_run_def)
next
  case (snoc call calls)
  let ?db = "four_eyes_run client cfg db calls"
  have step: "cl_findUnique client (four_eyes_step client cfg ?db call) rid = Some r"
    using snoc.prems by (simp add: four_eyes_run_def)
  show ?case
  proof (cases "cl_findUnique client ?db rid")
    case None
    with step_absent [OF table None, of cfg call] step show ?thesis by (simp add: backed_def)
  next
    case (Some r0)
    then show ?thesis
      using step_row [OF table Some, of cfg call] step snoc.IH row_step_backed by fastforce
  qed
qed

lemma run_decided:
  assumes table: "request_table client"
  shows "cl_findUnique client db rid = Some r \<Longrightarrow> aq_status r \<noteq> PENDING \<Longrightarrow>
    \<exists>r'. cl_findUnique client (four_eyes_run client cfg db calls) rid = Some r' \<and> decision r' = decision r"
proof (induction calls arbitrary: db r)
  case Nil
  then show ?case by (simp add: four_eyes_run_def)
next
  case (Cons call calls)
  obtain r1 where r1: "cl_findUnique client (four_eyes_step client cfg db call) rid = Some r1" "row_step cfg call r r1"
    using step_row [OF table Cons.prems(1)] by blast
  then have d: "decision r1 = decision r" using row_step_decided Cons.prems(2) by blast
  then have "aq_status r1 \<noteq> PENDING" using Cons.prems(2) by (simp add: decision_def)
  from Cons.IH [OF r1(1) this] d show ?case by (simp add: four_eyes_run_def)
qed

section \<open>A table kept as a list\<close>

definition find_row :: "approval_request list \<Rightarrow> string \<Rightarrow> approval_request option" where
  "find_row rows rid = find (\<lambda>r. aq_id r = rid) rows"

definition list_client :: "approval_request list request_client" where
  "list_client =
     \<lparr>cl_create = (\<lambda>rows r. let rid = replicate (Suc (sum_list (map (length \<circ> aq_id) rows))) CHR ''a''
                            in (r\<lparr>aq_id := rid\<rparr> # rows, rid)),
      cl_findUnique = find_row,
      cl_update = (\<lambda>rows rid f. map (\<lambda>r. if aq_id r = rid then f r else r) rows),
      cl_findDue = (\<lambda>rows now. map aq_id (filter (\<lambda>r. aq_status r = PENDING \<and> aq_expiresAt r \<le> now \<and>
                      find_row rows (aq_id r) = Some r) rows))\<rparr>"

lemma find_row_update:
  "(\<And>r. aq_id (f r) = aq_id r) \<Longrightarrow> find_row (map (\<lambda>r. if aq_id r = rid then f r else r) rows) k =
     (if k = rid then map_option f (find_row rows k) else find_row rows k)"
  by (induction rows) (auto simp: find_row_def)

lemma length_le_sum: "r \<in> set rows \<Longrightarrow> length (aq_id r) \<le> sum_list (map (length \<circ> aq_id) rows)"
  by (induction rows) auto

lemma fresh_row:
  assumes "length rid = Suc (sum_list (map (length \<circ> aq_id) rows))"
  shows "find_row rows rid = None"
proof -
  have "aq_id r \<noteq> rid" if "r \<in> set rows" for r
    using length_le_sum [OF that] assms by fastforce
  then show ?thesis by (auto simp: find_row_def find_None_iff)
qed

lemma find_row_id: "find_row rows rid = Some r \<Longrightarrow> aq_id r = rid"
  by (auto simp: find_row_def find_Some_iff)

lemma list_client_create:
  "cl_create list_client rows r = (rows', rid) \<Longrightarrow> find_row rows rid = None \<and>
     find_row rows' k = (if k = rid then Some (r\<lparr>aq_id := rid\<rparr>) else find_row rows k)"
  using fresh_row [of "replicate (Suc (sum_list (map (length \<circ> aq_id) rows))) CHR ''a''" rows]
  by (auto simp: list_client_def Let_def find_row_def simp del: replicate.simps)

lemma list_client_table: "request_table list_client"
  unfolding request_table_def
proof (intro conjI allI impI)
  fix rows rid r
  assume "cl_findUnique list_client rows rid = Some r"
  then show "aq_id r = rid" by (simp add: list_client_def find_row_id)
next
  fix rows rid k and f :: "approval_request \<Rightarrow> approval_request"
  assume "\<forall>r. aq_id (f r) = aq_id r"
  then show "cl_findUnique list_client (cl_update list_client rows rid f) k =
      (if k = rid then map_option f (cl_findUnique list_client rows k) else cl_findUnique list_client rows k)"
    by (simp add: list_client_def find_row_update)
next
  fix rows r rows' rid k
  assume c: "cl_create list_client rows r = (rows', rid)"
  show "cl_findUnique list_client rows rid = None"
    using list_client_create [OF c] by (simp add: list_client_def)
  show "cl_findUnique list_client rows' k = (if k = rid then Some (r\<lparr>aq_id := rid\<rparr>) else cl_findUnique list_client rows k)"
    using list_client_create [OF c, of k] by (simp add: list_client_def)
next
  fix rows now rid
  assume "rid \<in> set (cl_findDue list_client rows now)"
  then show "\<exists>r. cl_findUnique list_client rows rid = Some r \<and> aq_status r = PENDING \<and> aq_expiresAt r \<le> now"
    by (auto simp: list_client_def)
qed

section \<open>Properties\<close>


definition example_four_eyes_config :: four_eyes_config where
  "example_four_eyes_config = \<lparr>fc_approverAddresses = [''ga'', ''gb''], fc_adminWallet = Some ''GC'', fc_expiryHours = 24\<rparr>"

definition example_calls :: "four_eyes_call list" where
  "example_calls = [Create ''SCORING_MODEL_UPDATE'' ''{}'' None ''GA'' 0, Approve ''a'' ''ga'' 5, Approve ''a'' ''Gb'' 6,
     Reject ''a'' ''gc'' ''no'' 7]"

lemma example_four_eyes_run:
  "map_option (\<lambda>r. (aq_status r, aq_approvedBy r))
     (cl_findUnique list_client (four_eyes_run list_client example_four_eyes_config [] example_calls) ''a'') =
   Some (APPROVED, Some ''Gb'')"
  by code_simp


text \<open>
  The guard and the update are two awaited database calls, and the update does not ask for the status
  the guard saw. Two decisions on one request whose guards both run before either update both succeed,
  and the later update wins: the row below reads REJECTED, the first caller was told it is approved.
\<close>

lemma concurrent_decisions_both_succeed:
  assumes table: "request_table client"
    and approver: "requirePendingAndNotSelf client db rid a t = (db, [], Inr r)"
    and rejecter: "requirePendingAndNotSelf client db rid b t' = (db, [], Inr r)"
  shows "map_option (\<lambda>r. (aq_status r, aq_approvedBy r, aq_rejectedBy r))
      (cl_findUnique client (fst (commit_rejection client (fst (commit_approval client db rid a t)) rid b why t')) rid) =
    Some (REJECTED, Some a, Some b)"
proof -
  have find: "\<exists>r. cl_findUnique client db rid = Some r \<and> aq_approvedBy r = aq_approvedBy r"
    using approver by (auto simp: requirePendingAndNotSelf_def split: option.splits)
  then show ?thesis
    by (auto simp: commit_approval_def commit_rejection_def table_update [OF table] table_update [OF table, simplified])
qed

end
