(* ===== verification/RateSheet.thy ===== *)
theory RateSheet
  imports Prelude
begin

text \<open>
  The versioned interest rate sheet of \<^verbatim>\<open>backend/src/services/rateSheet.ts\<close>: validation of an
  untrusted sheet, the difference of two sheets, the price of an offer, and the append-only history of
  versions. The table of versions is behind the database client, the record \<open>sheet_client\<close>;
  \<open>sheet_table\<close> is what it promises. Between the read and the write of a publication other
  processes may write: their effect is an argument of the loop. The audit entry is left out; the time
  and the reading of a date are arguments. Rates and scores are integers once validated.
\<close>

section \<open>Sheets\<close>

definition LOAN_INTEREST_RATE_MIN_BPS :: int where
  "LOAN_INTEREST_RATE_MIN_BPS = 200"

definition LOAN_INTEREST_RATE_MAX_BPS :: int where
  "LOAN_INTEREST_RATE_MAX_BPS = 1800"

record credit_score_tier =
  minCreditScore :: int
  rateBps :: int

record rate_sheet_rates =
  baseRateBps :: int
  creditScoreTiers :: "credit_score_tier list option"

record rate_sheet_change =
  rc_path :: string
  rc_before :: "int option"
  rc_after :: "int option"

record rate_sheet_error =
  re_code :: string
  re_message :: string
  re_httpStatus :: int

definition MAX_CREDIT_SCORE :: int where
  "MAX_CREDIT_SCORE = 1000"

definition EFFECTIVE_AT_SKEW_MS :: int where
  "EFFECTIVE_AT_SKEW_MS = 5000"

definition PUBLISH_RETRIES :: nat where
  "PUBLISH_RETRIES = 3"

definition rate_error :: "string \<Rightarrow> string \<Rightarrow> rate_sheet_error" where
  "rate_error code message = \<lparr>re_code = code, re_message = message, re_httpStatus = 400\<rparr>"

definition validateRateBps :: "js_value \<Rightarrow> string \<Rightarrow> rate_sheet_error + int" where
  "validateRateBps v field =
     (case js_integer v of
        Some n \<Rightarrow>
          if n < LOAN_INTEREST_RATE_MIN_BPS \<or> LOAN_INTEREST_RATE_MAX_BPS < n
          then Inl (rate_error ''invalid_rate'' (field @ '' must be an integer between '' @
            show_int LOAN_INTEREST_RATE_MIN_BPS @ '' and '' @ show_int LOAN_INTEREST_RATE_MAX_BPS @ '' basis points''))
          else Inr n
      | None \<Rightarrow> Inl (rate_error ''invalid_rate'' (field @ '' must be an integer between '' @
            show_int LOAN_INTEREST_RATE_MIN_BPS @ '' and '' @ show_int LOAN_INTEREST_RATE_MAX_BPS @ '' basis points'')))"

text \<open>
  The callback of \<open>map\<close> over the raw tiers, in order: \<open>i\<close> is the index, \<open>seen\<close> the scores so far.
\<close>

fun validate_tiers :: "nat \<Rightarrow> int list \<Rightarrow> js_value list \<Rightarrow> rate_sheet_error + credit_score_tier list" where
  "validate_tiers i seen [] = Inr []"
| "validate_tiers i seen (tier # ts) =
     (case js_integer (js_field tier ''minCreditScore'') of
        None \<Rightarrow> Inl (rate_error ''invalid_rates'' (''creditScoreTiers['' @ digits i @
          ''].minCreditScore must be an integer between 0 and '' @ show_int MAX_CREDIT_SCORE))
      | Some m \<Rightarrow>
          if m < 0 \<or> MAX_CREDIT_SCORE < m then
            Inl (rate_error ''invalid_rates'' (''creditScoreTiers['' @ digits i @
              ''].minCreditScore must be an integer between 0 and '' @ show_int MAX_CREDIT_SCORE))
          else if m \<in> set seen then
            Inl (rate_error ''invalid_rates'' (''Duplicate tier for minCreditScore '' @ show_int m))
          else
            (case validateRateBps (js_field tier ''rateBps'') (''creditScoreTiers['' @ digits i @ ''].rateBps'') of
               Inl e \<Rightarrow> Inl e
             | Inr r \<Rightarrow>
                 (case validate_tiers (Suc i) (m # seen) ts of
                    Inl e \<Rightarrow> Inl e
                  | Inr tiers \<Rightarrow> Inr (\<lparr>minCreditScore = m, rateBps = r\<rparr> # tiers))))"

definition validateRates :: "js_value \<Rightarrow> rate_sheet_error + rate_sheet_rates" where
  "validateRates input =
     (case input of
        JObj _ \<Rightarrow>
          (case validateRateBps (js_field input ''baseRateBps'') ''baseRateBps'' of
             Inl e \<Rightarrow> Inl e
           | Inr base \<Rightarrow>
               (case js_field input ''creditScoreTiers'' of
                  JUndefined \<Rightarrow> Inr \<lparr>baseRateBps = base, creditScoreTiers = None\<rparr>
                | JArr raw \<Rightarrow>
                    (case validate_tiers 0 [] raw of
                       Inl e \<Rightarrow> Inl e
                     | Inr tiers \<Rightarrow> Inr \<lparr>baseRateBps = base,
                         creditScoreTiers = (if tiers = [] then None else Some (sort_key minCreditScore tiers))\<rparr>)
                | _ \<Rightarrow> Inl (rate_error ''invalid_rates'' ''creditScoreTiers must be an array'')))
      | _ \<Rightarrow> Inl (rate_error ''invalid_rates'' ''rates must be an object''))"

definition tier_map :: "rate_sheet_rates option \<Rightarrow> (int, int) js_map" where
  "tier_map rates = foldl (\<lambda>m t. map_set m (minCreditScore t) (rateBps t)) []
     (case rates of None \<Rightarrow> [] | Some r \<Rightarrow> or_else (creditScoreTiers r) [])"

definition tier_path :: "int \<Rightarrow> string" where
  "tier_path m = ''creditScoreTiers[>='' @ show_int m @ '']''"

definition diffRates :: "rate_sheet_rates option \<Rightarrow> rate_sheet_rates \<Rightarrow> rate_sheet_change list" where
  "diffRates from to =
     (let base = (if map_option baseRateBps from \<noteq> Some (baseRateBps to)
                  then [\<lparr>rc_path = ''baseRateBps'', rc_before = map_option baseRateBps from,
                         rc_after = Some (baseRateBps to)\<rparr>] else []);
          before = tier_map from;
          after = tier_map (Some to);
          mins = sort (remdups (map_keys before @ map_keys after))
      in base @ map (\<lambda>m. \<lparr>rc_path = tier_path m, rc_before = map_get before m, rc_after = map_get after m\<rparr>)
           (filter (\<lambda>m. map_get before m \<noteq> map_get after m) mins))"

definition priceOffer :: "rate_sheet_rates \<Rightarrow> rat option \<Rightarrow> int" where
  "priceOffer rates creditScore =
     (case creditScore of
        None \<Rightarrow> baseRateBps rates
      | Some score \<Rightarrow>
          (case find (\<lambda>t. of_int (minCreditScore t) \<le> score)
                  (sort_key (\<lambda>t. - minCreditScore t) (or_else (creditScoreTiers rates) [])) of
             Some tier \<Rightarrow> rateBps tier
           | None \<Rightarrow> baseRateBps rates))"

section \<open>Canonical sheets\<close>

definition rate_in_bounds :: "int \<Rightarrow> bool" where
  "rate_in_bounds r \<longleftrightarrow> LOAN_INTEREST_RATE_MIN_BPS \<le> r \<and> r \<le> LOAN_INTEREST_RATE_MAX_BPS"

abbreviation tiers_of :: "rate_sheet_rates \<Rightarrow> credit_score_tier list" where
  "tiers_of r \<equiv> or_else (creditScoreTiers r) []"

definition canonical_rates :: "rate_sheet_rates \<Rightarrow> bool" where
  "canonical_rates r \<longleftrightarrow> rate_in_bounds (baseRateBps r) \<and> creditScoreTiers r \<noteq> Some [] \<and>
     sorted (map minCreditScore (tiers_of r)) \<and> distinct (map minCreditScore (tiers_of r)) \<and>
     (\<forall>t\<in>set (tiers_of r). rate_in_bounds (rateBps t) \<and> 0 \<le> minCreditScore t \<and> minCreditScore t \<le> MAX_CREDIT_SCORE)"

definition tier_rate :: "rate_sheet_rates \<Rightarrow> int \<Rightarrow> int option" where
  "tier_rate r = map_of (map (\<lambda>t. (minCreditScore t, rateBps t)) (tiers_of r))"

lemma validateRateBps_bounds: "validateRateBps v field = Inr n \<Longrightarrow> rate_in_bounds n"
  by (auto simp: validateRateBps_def rate_in_bounds_def split: option.splits if_splits)

lemma validate_tiers_bounds:
  "validate_tiers i seen ts = Inr tiers \<Longrightarrow> distinct (map minCreditScore tiers) \<and>
     (\<forall>t\<in>set tiers. minCreditScore t \<notin> set seen \<and> rate_in_bounds (rateBps t) \<and> 0 \<le> minCreditScore t \<and>
        minCreditScore t \<le> MAX_CREDIT_SCORE)"
proof (induction i seen ts arbitrary: tiers rule: validate_tiers.induct)
  case (1 i seen)
  then show ?case by simp
next
  case (2 i seen tier ts)
  obtain m where m: "js_integer (js_field tier ''minCreditScore'') = Some m"
      "\<not> (m < 0 \<or> MAX_CREDIT_SCORE < m)" "m \<notin> set seen"
    using "2.prems" by (auto split: option.splits if_splits)
  obtain r where r: "validateRateBps (js_field tier ''rateBps'') (''creditScoreTiers['' @ digits i @ ''].rateBps'') = Inr r"
    using "2.prems" m by (auto split: sum.splits)
  obtain rest where rest: "validate_tiers (Suc i) (m # seen) ts = Inr rest" "tiers = \<lparr>minCreditScore = m, rateBps = r\<rparr> # rest"
    using "2.prems" m r by (auto split: sum.splits)
  show ?case using "2.IH" [OF m r rest(1)] rest(2) m validateRateBps_bounds [OF r] by auto
qed

lemma validateRates_canonical:
  assumes "validateRates input = Inr r"
  shows "canonical_rates r"
proof -
  obtain base where base: "validateRateBps (js_field input ''baseRateBps'') ''baseRateBps'' = Inr base"
      "baseRateBps r = base"
    using assms by (auto simp: validateRates_def split: js_value.splits sum.splits)
  have tiers: "creditScoreTiers r = None \<or>
      (\<exists>raw tiers. validate_tiers 0 [] raw = Inr tiers \<and> tiers \<noteq> [] \<and> creditScoreTiers r = Some (sort_key minCreditScore tiers))"
    using assms by (auto simp: validateRates_def split: js_value.splits sum.splits if_splits) blast
  have distinct: "distinct (map minCreditScore (sort_key minCreditScore ts))" if "distinct (map minCreditScore ts)" for ts
    using that by (simp add: distinct_map)
  from tiers show ?thesis
    using base validateRateBps_bounds [OF base(1)]
    by (auto simp: canonical_rates_def distinct dest: validate_tiers_bounds)
       (metis length_0_conv length_sort)+
qed

section \<open>Prices\<close>

lemma find_first_sorted:
  assumes "sorted (map f xs)" and "find P xs = Some t"
  shows "t \<in> set xs \<and> P t \<and> (\<forall>u\<in>set xs. P u \<longrightarrow> f t \<le> f u)"
  using assms by (induction xs) (auto split: if_splits)

lemma priceOffer_tier:
  assumes "t \<in> set (tiers_of r)" "of_int (minCreditScore t) \<le> score"
  obtains u where "u \<in> set (tiers_of r)" "of_int (minCreditScore u) \<le> score" "priceOffer r (Some score) = rateBps u"
    "\<And>v. v \<in> set (tiers_of r) \<Longrightarrow> of_int (minCreditScore v) \<le> score \<Longrightarrow> minCreditScore v \<le> minCreditScore u"
proof -
  let ?ts = "sort_key (\<lambda>t. - minCreditScore t) (tiers_of r)"
  let ?P = "\<lambda>t. of_int (minCreditScore t) \<le> score"
  obtain u where u: "find ?P ?ts = Some u"
    using assms by (cases "find ?P ?ts") (auto simp: find_None_iff)
  then have "priceOffer r (Some score) = rateBps u" by (simp add: priceOffer_def)
  with find_first_sorted [OF sorted_sort_key u] show ?thesis by (intro that [of u]) auto
qed

lemma priceOffer_base:
  "(\<And>t. t \<in> set (tiers_of r) \<Longrightarrow> score < of_int (minCreditScore t)) \<Longrightarrow> priceOffer r (Some score) = baseRateBps r"
proof -
  assume above: "\<And>t. t \<in> set (tiers_of r) \<Longrightarrow> score < of_int (minCreditScore t)"
  have "find (\<lambda>t. of_int (minCreditScore t) \<le> score) (sort_key (\<lambda>t. - minCreditScore t) (tiers_of r)) = None"
    using above by (auto simp: find_None_iff not_le)
  then show ?thesis by (simp add: priceOffer_def)
qed

section \<open>Differences\<close>

lemma tier_map_get:
  assumes "distinct (map minCreditScore ts)"
  shows "map_get (foldl (\<lambda>m t. map_set m (minCreditScore t) (rateBps t)) m ts) k =
    (case map_of (map (\<lambda>t. (minCreditScore t, rateBps t)) ts) k of Some r \<Rightarrow> Some r | None \<Rightarrow> map_get m k)"
  using assms
proof (induction ts arbitrary: m)
  case Nil
  then show ?case by simp
next
  case (Cons t ts)
  have absent: "map_of (map (\<lambda>t. (minCreditScore t, rateBps t)) ts) (minCreditScore t) = None"
    using Cons.prems by (auto simp: map_of_eq_None_iff image_image)
  then show ?case using Cons by (simp split: option.split)
qed

lemma tier_map_rate:
  "distinct (map minCreditScore (tiers_of r)) \<Longrightarrow> map_get (tier_map (Some r)) k = tier_rate r k"
  by (simp add: tier_map_def tier_map_get tier_rate_def split: option.split)

lemma equal_tiers:
  assumes a: "canonical_rates a" and b: "canonical_rates b" and rates: "tier_rate a = tier_rate b"
  shows "creditScoreTiers a = creditScoreTiers b"
proof -
  let ?pair = "\<lambda>t :: credit_score_tier. (minCreditScore t, rateBps t)"
  have inj: "inj ?pair"
  proof (rule injI)
    fix x y :: credit_score_tier
    assume "?pair x = ?pair y"
    then show "x = y" by (cases x; cases y) simp
  qed
  have keys: "map fst (map ?pair ts) = map minCreditScore ts" for ts by simp
  have "set (map ?pair (tiers_of a)) = set (map ?pair (tiers_of b))"
    using rates a b keys [of "tiers_of a"] keys [of "tiers_of b"]
    by (subst map_of_inject_set [symmetric]) (simp_all add: tier_rate_def canonical_rates_def comp_def)
  then have same: "set (tiers_of a) = set (tiers_of b)"
    using inj by (simp add: inj_image_eq_iff)
  have "tiers_of a = tiers_of b"
    by (rule map_sorted_distinct_set_unique [where f = minCreditScore])
      (use a b same in \<open>auto simp: canonical_rates_def distinct_map\<close>)
  then show ?thesis
    using a b by (cases "creditScoreTiers a"; cases "creditScoreTiers b") (auto simp: canonical_rates_def)
qed

lemma tier_rate_keys: "tier_rate r m \<noteq> None \<longleftrightarrow> m \<in> minCreditScore ` set (tiers_of r)"
  by (auto simp: tier_rate_def map_of_eq_None_iff image_image)

lemma diffRates_set:
  assumes "canonical_rates a" "canonical_rates b"
  shows "set (diffRates (Some a) b) =
    (if baseRateBps a = baseRateBps b then {}
     else {\<lparr>rc_path = ''baseRateBps'', rc_before = Some (baseRateBps a), rc_after = Some (baseRateBps b)\<rparr>}) \<union>
    {\<lparr>rc_path = tier_path m, rc_before = tier_rate a m, rc_after = tier_rate b m\<rparr> | m. tier_rate a m \<noteq> tier_rate b m}"
proof -
  have get: "map_get (tier_map (Some a)) = tier_rate a" "map_get (tier_map (Some b)) = tier_rate b"
    using assms by (simp_all add: fun_eq_iff tier_map_rate canonical_rates_def)
  have "m \<in> set (map_keys (tier_map (Some a)) @ map_keys (tier_map (Some b)))" if "tier_rate a m \<noteq> tier_rate b m" for m
  proof -
    have "map_get (tier_map (Some a)) m \<noteq> None \<or> map_get (tier_map (Some b)) m \<noteq> None"
      using that by (auto simp: get)
    then show ?thesis by (auto simp: map_of_eq_None_iff)
  qed
  then show ?thesis by (auto simp: diffRates_def Let_def get)
qed

lemma diffRates_Nil:
  assumes "canonical_rates a" "canonical_rates b"
  shows "diffRates (Some a) b = [] \<longleftrightarrow> a = b"
proof
  assume "diffRates (Some a) b = []"
  then have none: "set (diffRates (Some a) b) = {}" by simp
  have base: "baseRateBps a = baseRateBps b" and "\<And>m. tier_rate a m = tier_rate b m"
    using none by (auto simp: diffRates_set [OF assms] split: if_splits)
  then have "tier_rate a = tier_rate b" by blast
  with base equal_tiers [OF assms] show "a = b" by (auto intro: rate_sheet_rates.equality)
next
  assume eq: "a = b"
  have "set (diffRates (Some a) b) = {}" by (subst diffRates_set [OF assms]) (simp add: eq)
  then show "diffRates (Some a) b = []" by simp
qed

section \<open>Versions\<close>

record sheet_version =
  sv_id :: string
  sv_version :: int
  sv_effectiveAt :: int
  sv_rates :: rate_sheet_rates
  sv_changedValues :: "rate_sheet_change list"
  sv_changedBy :: string
  sv_changeReason :: "string option"

datatype create_error = P2002 | Database_failure string

datatype publish_error = Sheet_error rate_sheet_error | Database_error string

record 'db sheet_client =
  sc_findLatest :: "'db \<Rightarrow> sheet_version option"
  sc_findAt :: "'db \<Rightarrow> int \<Rightarrow> sheet_version option"
  sc_findUnique :: "'db \<Rightarrow> int \<Rightarrow> sheet_version option"
  sc_create :: "'db \<Rightarrow> sheet_version \<Rightarrow> 'db \<times> (create_error + sheet_version)"

definition check_reason :: "js_value \<Rightarrow> rate_sheet_error + string option" where
  "check_reason v =
     (if js_absent v then Inr None
      else case v of
        JStr s \<Rightarrow>
          if js_trim s = [] then Inl (rate_error ''invalid_field'' ''changeReason must be a non-empty string when provided'')
          else Inr (Some (js_trim s))
      | _ \<Rightarrow> Inl (rate_error ''invalid_field'' ''changeReason must be a non-empty string when provided''))"

definition check_effective :: "(js_value \<Rightarrow> int option) \<Rightarrow> js_value \<Rightarrow> int \<Rightarrow> rate_sheet_error + int" where
  "check_effective date_of v now =
     (if js_absent v then Inr now
      else case date_of v of
        None \<Rightarrow> Inl (rate_error ''invalid_field'' ''effectiveAt must be a valid date'')
      | Some t \<Rightarrow>
          if t < now - EFFECTIVE_AT_SKEW_MS
          then Inl (rate_error ''invalid_field''
            ''effectiveAt cannot be in the past; a backdated sheet would rewrite which rates were in effect'')
          else Inr t)"

text \<open>
  The publication loop with \<open>left\<close> retries to come. \<open>reads\<close> and \<open>writes\<close> are what other processes
  do to the table before the read and before the write of that attempt.
\<close>

fun publish_loop :: "'db sheet_client \<Rightarrow> (nat \<Rightarrow> 'db \<Rightarrow> 'db) \<Rightarrow> (nat \<Rightarrow> 'db \<Rightarrow> 'db) \<Rightarrow> rate_sheet_rates \<Rightarrow> int \<Rightarrow>
    string \<Rightarrow> string option \<Rightarrow> nat \<Rightarrow> 'db \<Rightarrow> 'db \<times> (publish_error + sheet_version)" where
  "publish_loop client reads writes rates effectiveAt changedBy reason left db =
     (let db1 = reads left db;
          latest = sc_findLatest client db1;
          changedValues = diffRates (map_option sv_rates latest) rates
      in if latest \<noteq> None \<and> changedValues = []
         then (db1, Inl (Sheet_error \<lparr>re_code = ''no_changes'',
                 re_message = ''Rates are identical to version '' @ show_int (sv_version (the latest)) @ ''; nothing to publish'',
                 re_httpStatus = 409\<rparr>))
         else (case sc_create client (writes left db1)
                 \<lparr>sv_id = '''', sv_version = or_else (map_option sv_version latest) 0 + 1, sv_effectiveAt = effectiveAt,
                  sv_rates = rates, sv_changedValues = changedValues, sv_changedBy = changedBy,
                  sv_changeReason = reason\<rparr> of
             (db2, Inr created) \<Rightarrow> (db2, Inr created)
           | (db2, Inl (Database_failure e)) \<Rightarrow> (db2, Inl (Database_error e))
           | (db2, Inl P2002) \<Rightarrow>
               (case left of
                  0 \<Rightarrow> (db2, Inl (Sheet_error \<lparr>re_code = ''version_conflict'',
                             re_message = ''Concurrent rate sheet updates; retry'', re_httpStatus = 409\<rparr>))
                | Suc left' \<Rightarrow> publish_loop client reads writes rates effectiveAt changedBy reason left' db2)))"

definition publishRateSheet :: "'db sheet_client \<Rightarrow> (nat \<Rightarrow> 'db \<Rightarrow> 'db) \<Rightarrow> (nat \<Rightarrow> 'db \<Rightarrow> 'db) \<Rightarrow>
    (js_value \<Rightarrow> int option) \<Rightarrow> 'db \<Rightarrow> js_value \<Rightarrow> string \<Rightarrow> js_value \<Rightarrow> js_value \<Rightarrow> int \<Rightarrow>
    'db \<times> (publish_error + sheet_version)" where
  "publishRateSheet client reads writes date_of db rates changedBy changeReason effectiveAt now =
     (case validateRates rates of
        Inl e \<Rightarrow> (db, Inl (Sheet_error e))
      | Inr sheet \<Rightarrow>
          (case check_reason changeReason of
             Inl e \<Rightarrow> (db, Inl (Sheet_error e))
           | Inr reason \<Rightarrow>
               (case check_effective date_of effectiveAt now of
                  Inl e \<Rightarrow> (db, Inl (Sheet_error e))
                | Inr t \<Rightarrow> publish_loop client reads writes sheet t changedBy reason (PUBLISH_RETRIES - 1) db)))"

definition resolveRateSheetAt :: "'db sheet_client \<Rightarrow> 'db \<Rightarrow> int \<Rightarrow> sheet_version option" where
  "resolveRateSheetAt client db at_time = sc_findAt client db at_time"

record offer_pricing =
  op_interestRateBps :: int
  op_rateSheetVersionId :: string

definition priceNewOffer :: "'db sheet_client \<Rightarrow> 'db \<Rightarrow> rat option \<Rightarrow> int \<Rightarrow> offer_pricing option" where
  "priceNewOffer client db creditScore at_time =
     map_option (\<lambda>sheet. \<lparr>op_interestRateBps = priceOffer (sv_rates sheet) creditScore, op_rateSheetVersionId = sv_id sheet\<rparr>)
       (resolveRateSheetAt client db at_time)"

definition getRateSheetVersion :: "'db sheet_client \<Rightarrow> 'db \<Rightarrow> int \<Rightarrow> sheet_version option" where
  "getRateSheetVersion client db version = sc_findUnique client db version"

definition diffRateSheetVersions :: "'db sheet_client \<Rightarrow> 'db \<Rightarrow> int \<Rightarrow> int \<Rightarrow>
    rate_sheet_error + sheet_version \<times> sheet_version \<times> rate_sheet_change list" where
  "diffRateSheetVersions client db fromVersion toVersion =
     (case (getRateSheetVersion client db fromVersion, getRateSheetVersion client db toVersion) of
        (None, _) \<Rightarrow> Inl \<lparr>re_code = ''not_found'',
            re_message = ''Rate sheet version '' @ show_int fromVersion @ '' not found'', re_httpStatus = 404\<rparr>
      | (Some _, None) \<Rightarrow> Inl \<lparr>re_code = ''not_found'',
            re_message = ''Rate sheet version '' @ show_int toVersion @ '' not found'', re_httpStatus = 404\<rparr>
      | (Some from, Some to) \<Rightarrow> Inr (from, to, diffRates (Some (sv_rates from)) (sv_rates to)))"

section \<open>The table's promise\<close>

text \<open>
  \<open>view\<close> reads the rows of the table. The reads are the ordered queries over those rows. A created row
  is the one it was given under a fresh id, and its version was not taken; a refused one changes
  nothing, and the unique constraint is the reason only where the version is taken.
\<close>

definition latest_version :: "sheet_version list \<Rightarrow> sheet_version option" where
  "latest_version rows = (case sort_key (\<lambda>r. - sv_version r) rows of [] \<Rightarrow> None | r # _ \<Rightarrow> Some r)"

definition in_effect :: "sheet_version list \<Rightarrow> int \<Rightarrow> sheet_version option" where
  "in_effect rows t =
     (case sort_key (\<lambda>r. - sv_effectiveAt r) (sort_key (\<lambda>r. - sv_version r) (filter (\<lambda>r. sv_effectiveAt r \<le> t) rows)) of
        [] \<Rightarrow> None | r # _ \<Rightarrow> Some r)"

definition sheet_table :: "'db sheet_client \<Rightarrow> ('db \<Rightarrow> sheet_version list) \<Rightarrow> bool" where
  "sheet_table client view \<longleftrightarrow>
     (\<forall>db. sc_findLatest client db = latest_version (view db)) \<and>
     (\<forall>db t. sc_findAt client db t = in_effect (view db) t) \<and>
     (\<forall>db v. sc_findUnique client db v = find (\<lambda>r. sv_version r = v) (view db)) \<and>
     (\<forall>db row. case sc_create client db row of
        (db', Inr r) \<Rightarrow> (\<exists>i. r = row\<lparr>sv_id := i\<rparr>) \<and> view db' = view db @ [r] \<and> sv_version r \<notin> sv_version ` set (view db)
      | (db', Inl P2002) \<Rightarrow> view db' = view db \<and> sv_version row \<in> sv_version ` set (view db)
      | (db', Inl (Database_failure _)) \<Rightarrow> view db' = view db)"

definition appends :: "('db \<Rightarrow> sheet_version list) \<Rightarrow> (nat \<Rightarrow> 'db \<Rightarrow> 'db) \<Rightarrow> bool" where
  "appends view others \<longleftrightarrow> (\<forall>n db. \<exists>rows. view (others n db) = view db @ rows)"

section \<open>What a publication does to the table\<close>

lemma table_reads:
  assumes "sheet_table client view"
  shows "sc_findLatest client db = latest_version (view db)" "sc_findAt client db t = in_effect (view db) t"
    "sc_findUnique client db v = find (\<lambda>r. sv_version r = v) (view db)"
  using assms by (simp_all add: sheet_table_def)

lemma table_create_row:
  assumes "sheet_table client view"
  obtains (created) db' i where "sc_create client db row = (db', Inr (row\<lparr>sv_id := i\<rparr>))"
      "view db' = view db @ [row\<lparr>sv_id := i\<rparr>]" "sv_version row \<notin> sv_version ` set (view db)"
  | (taken) db' where "sc_create client db row = (db', Inl P2002)" "view db' = view db"
      "sv_version row \<in> sv_version ` set (view db)"
  | (failed) db' e where "sc_create client db row = (db', Inl (Database_failure e))" "view db' = view db"
proof -
  obtain db' res where c: "sc_create client db row = (db', res)" by (meson surj_pair)
  have law: "case sc_create client db row of
      (db', Inr r) \<Rightarrow> (\<exists>i. r = row\<lparr>sv_id := i\<rparr>) \<and> view db' = view db @ [r] \<and> sv_version r \<notin> sv_version ` set (view db)
    | (db', Inl P2002) \<Rightarrow> view db' = view db \<and> sv_version row \<in> sv_version ` set (view db)
    | (db', Inl (Database_failure _)) \<Rightarrow> view db' = view db"
    using assms by (auto simp only: sheet_table_def)
  show ?thesis
  proof (cases res)
    case (Inl e)
    then show ?thesis using law c that(2,3) by (cases e) auto
  next
    case (Inr r)
    then show ?thesis using law c that(1) by auto
  qed
qed

definition next_version :: "sheet_version list \<Rightarrow> rate_sheet_rates \<Rightarrow> int \<Rightarrow> string \<Rightarrow> string option \<Rightarrow> string \<Rightarrow> sheet_version" where
  "next_version rows rates effectiveAt changedBy reason i =
     \<lparr>sv_id = i, sv_version = or_else (map_option sv_version (latest_version rows)) 0 + 1, sv_effectiveAt = effectiveAt,
      sv_rates = rates, sv_changedValues = diffRates (map_option sv_rates (latest_version rows)) rates,
      sv_changedBy = changedBy, sv_changeReason = reason\<rparr>"

lemma publish_loop_rule:
  assumes table: "sheet_table client view"
    and reads: "\<And>n d. I (view d) \<Longrightarrow> I (view (reads n d))"
    and writes: "\<And>n d. I (view d) \<Longrightarrow> I (view (writes n d))"
    and new: "\<And>n d i r. I (view d) \<Longrightarrow> I (view (writes n d)) \<Longrightarrow>
        r = next_version (view d) rates effectiveAt changedBy reason i \<Longrightarrow>
        latest_version (view d) = None \<or> sv_changedValues r \<noteq> [] \<Longrightarrow>
        sv_version r \<notin> sv_version ` set (view (writes n d)) \<Longrightarrow> I (view (writes n d) @ [r])"
  shows "I (view db) \<Longrightarrow> I (view (fst (publish_loop client reads writes rates effectiveAt changedBy reason left db)))"
proof (induction left arbitrary: db rule: less_induct)
  case (less left)
  let ?db1 = "reads left db"
  let ?row = "next_version (view ?db1) rates effectiveAt changedBy reason ''''"
  have I1: "I (view ?db1)" using reads less.prems by blast
  have I2: "I (view (writes left ?db1))" using writes I1 by blast
  show ?case
  proof (cases "latest_version (view ?db1) \<noteq> None \<and> sv_changedValues ?row = []")
    case True
    then show ?thesis using I1 by (simp add: Let_def table_reads [OF table] next_version_def)
  next
    case False
    have unfold: "publish_loop client reads writes rates effectiveAt changedBy reason left db =
        (case sc_create client (writes left ?db1) ?row of
           (db2, Inr created) \<Rightarrow> (db2, Inr created)
         | (db2, Inl (Database_failure e)) \<Rightarrow> (db2, Inl (Database_error e))
         | (db2, Inl P2002) \<Rightarrow>
             (case left of
                0 \<Rightarrow> (db2, Inl (Sheet_error \<lparr>re_code = ''version_conflict'',
                           re_message = ''Concurrent rate sheet updates; retry'', re_httpStatus = 409\<rparr>))
              | Suc left' \<Rightarrow> publish_loop client reads writes rates effectiveAt changedBy reason left' db2))"
      using False by (subst publish_loop.simps) (auto simp: Let_def table_reads [OF table] next_version_def)
    from table show ?thesis
    proof (cases rule: table_create_row [where db = "writes left ?db1" and row = ?row])
      case (created db' i)
      have "I (view (writes left ?db1) @ [?row\<lparr>sv_id := i\<rparr>])"
        using new [OF I1 I2, of _ i] False created(3) by (simp add: next_version_def)
      then show ?thesis unfolding unfold using created by simp
    next
      case (taken db')
      then show ?thesis unfolding unfold using less.IH I2 by (cases left) (simp_all del: publish_loop.simps)
    next
      case (failed db' e)
      then show ?thesis unfolding unfold using I2 by simp
    qed
  qed
qed

lemma publishRateSheet_cases:
  obtains (refused) e where "publishRateSheet client reads writes date_of db rates changedBy changeReason effectiveAt now = (db, Inl e)"
  | (looped) sheet reason t where "validateRates rates = Inr sheet" "now - EFFECTIVE_AT_SKEW_MS \<le> t"
      "publishRateSheet client reads writes date_of db rates changedBy changeReason effectiveAt now =
         publish_loop client reads writes sheet t changedBy reason (PUBLISH_RETRIES - 1) db"
proof (cases "validateRates rates")
  case (Inl e)
  then show ?thesis using refused by (simp add: publishRateSheet_def)
next
  case (Inr sheet)
  note sheet = this
  show ?thesis
  proof (cases "check_reason changeReason")
    case (Inl e)
    with sheet show ?thesis using refused by (simp add: publishRateSheet_def)
  next
    case (Inr reason)
    note reason = this
    show ?thesis
    proof (cases "check_effective date_of effectiveAt now")
      case (Inl e)
      with sheet reason show ?thesis using refused by (simp add: publishRateSheet_def)
    next
      case (Inr t)
      then have "now - EFFECTIVE_AT_SKEW_MS \<le> t"
        by (auto simp: check_effective_def EFFECTIVE_AT_SKEW_MS_def split: if_splits option.splits)
      with Inr sheet reason looped [of sheet t reason] show ?thesis by (simp add: publishRateSheet_def)
    qed
  qed
qed

section \<open>The chain of versions\<close>

definition version_chain :: "sheet_version list \<Rightarrow> bool" where
  "version_chain rows \<longleftrightarrow> distinct (map sv_version rows) \<and>
     (\<forall>r\<in>set rows. canonical_rates (sv_rates r) \<and>
        (sv_version r = 1 \<and> sv_changedValues r = diffRates None (sv_rates r) \<or>
         1 < sv_version r \<and> (\<exists>p\<in>set rows. sv_version p + 1 = sv_version r \<and> sv_rates p \<noteq> sv_rates r \<and>
            sv_changedValues r = diffRates (Some (sv_rates p)) (sv_rates r))))"

lemma in_effect_later: "t < sv_effectiveAt r \<Longrightarrow> in_effect (rows @ [r]) t = in_effect rows t"
  by (simp add: in_effect_def)

lemma latest_version_in: "latest_version rows = Some p \<Longrightarrow> p \<in> set rows"
  unfolding latest_version_def
  by (metis list.case_eq_if list.set_sel(1) option.inject option.simps(3) set_sort)

lemma version_chain_append:
  assumes chain: "version_chain (rows @ extra)" and base: "version_chain rows" and rates: "canonical_rates rates"
    and r: "r = next_version rows rates effectiveAt changedBy reason i"
    and change: "latest_version rows = None \<or> sv_changedValues r \<noteq> []"
    and fresh: "sv_version r \<notin> sv_version ` set (rows @ extra)"
  shows "version_chain ((rows @ extra) @ [r])"
proof -
  have old: "\<forall>q\<in>set (rows @ extra). canonical_rates (sv_rates q) \<and>
      (sv_version q = 1 \<and> sv_changedValues q = diffRates None (sv_rates q) \<or>
       1 < sv_version q \<and> (\<exists>p\<in>set ((rows @ extra) @ [r]). sv_version p + 1 = sv_version q \<and> sv_rates p \<noteq> sv_rates q \<and>
          sv_changedValues q = diffRates (Some (sv_rates p)) (sv_rates q)))"
    using chain by (fastforce simp: version_chain_def)
  have new: "sv_version r = 1 \<and> sv_changedValues r = diffRates None (sv_rates r) \<or>
      1 < sv_version r \<and> (\<exists>p\<in>set ((rows @ extra) @ [r]). sv_version p + 1 = sv_version r \<and> sv_rates p \<noteq> sv_rates r \<and>
         sv_changedValues r = diffRates (Some (sv_rates p)) (sv_rates r))"
  proof (cases "latest_version rows")
    case None
    then show ?thesis by (simp add: r next_version_def)
  next
    case (Some p)
    have p: "p \<in> set rows" using latest_version_in Some by blast
    then have "canonical_rates (sv_rates p)" "1 \<le> sv_version p" using base by (auto simp: version_chain_def)
    then have "sv_rates p \<noteq> rates"
      using change Some diffRates_Nil rates by (auto simp: r next_version_def)
    with p Some \<open>1 \<le> sv_version p\<close> show ?thesis by (auto simp: r next_version_def)
  qed
  show ?thesis
    unfolding version_chain_def
    using chain fresh old new rates by (auto simp: version_chain_def r next_version_def)
qed

section \<open>A table kept as a list\<close>

definition list_sheets :: "sheet_version list sheet_client" where
  "list_sheets =
     \<lparr>sc_findLatest = latest_version, sc_findAt = in_effect,
      sc_findUnique = (\<lambda>rows v. find (\<lambda>r. sv_version r = v) rows),
      sc_create = (\<lambda>rows row.
        if sv_version row \<in> sv_version ` set rows then (rows, Inl P2002)
        else (rows @ [row\<lparr>sv_id := ''v'' @ show_int (sv_version row)\<rparr>],
              Inr (row\<lparr>sv_id := ''v'' @ show_int (sv_version row)\<rparr>)))\<rparr>"

lemma list_sheets_table: "sheet_table list_sheets (\<lambda>rows. rows)"
  by (auto simp: sheet_table_def list_sheets_def)

definition example_rates :: js_value where
  "example_rates = JObj [(''baseRateBps'', JNum 900), (''creditScoreTiers'', JArr
     [JObj [(''minCreditScore'', JNum 700), (''rateBps'', JNum 650)],
      JObj [(''minCreditScore'', JNum 600), (''rateBps'', JNum 750)]])]"

definition example_sheet :: rate_sheet_rates where
  "example_sheet = \<lparr>baseRateBps = 900, creditScoreTiers = Some
     [\<lparr>minCreditScore = 600, rateBps = 750\<rparr>, \<lparr>minCreditScore = 700, rateBps = 650\<rparr>]\<rparr>"

lemma example_rates_valid: "validateRates example_rates = Inr example_sheet"
  by code_simp

section \<open>Properties\<close>

text \<open>
  An offer priced from a sheet that passed validation costs between the minimum and the maximum rate.
  For an applicant with a score it is the rate of the tier with the highest minimum the score reaches,
  and the base rate where the score reaches no tier or there is no score.
\<close>

theorem validated_sheet_prices_by_highest_tier:
  assumes "validateRates input = Inr r"
  shows "LOAN_INTEREST_RATE_MIN_BPS \<le> priceOffer r score \<and> priceOffer r score \<le> LOAN_INTEREST_RATE_MAX_BPS \<and>
    (case score of
       None \<Rightarrow> priceOffer r score = baseRateBps r
     | Some s \<Rightarrow>
         if \<exists>t\<in>set (or_else (creditScoreTiers r) []). of_int (minCreditScore t) \<le> s
         then \<exists>t\<in>set (or_else (creditScoreTiers r) []). of_int (minCreditScore t) \<le> s \<and> priceOffer r score = rateBps t \<and>
                (\<forall>u\<in>set (or_else (creditScoreTiers r) []). of_int (minCreditScore u) \<le> s \<longrightarrow> minCreditScore u \<le> minCreditScore t)
         else priceOffer r score = baseRateBps r)"
proof -
  note wf = validateRates_canonical [OF assms, unfolded canonical_rates_def rate_in_bounds_def]
  show ?thesis
  proof (cases score)
    case None
    with wf show ?thesis by (simp add: priceOffer_def)
  next
    case (Some s)
    show ?thesis
    proof (cases "\<exists>t\<in>set (tiers_of r). of_int (minCreditScore t) \<le> s")
      case True
      then obtain t where "t \<in> set (tiers_of r)" "of_int (minCreditScore t) \<le> s" by blast
      then show ?thesis by (rule priceOffer_tier) (use wf Some True in auto)
    next
      case False
      then have "priceOffer r score = baseRateBps r" using priceOffer_base Some by force
      with wf Some False show ?thesis by simp
    qed
  qed
qed

lemma validated_sheet_prices_by_highest_tier_witness:
  "priceOffer example_sheet (Some 720) = 650 \<and> priceOffer example_sheet (Some 720) \<le> LOAN_INTEREST_RATE_MAX_BPS"
  using validated_sheet_prices_by_highest_tier [OF example_rates_valid, of "Some 720"] by code_simp

text \<open>
  The difference of two valid sheets lists the base rate exactly where it changes and, for every
  minimum score whose rate differs between the two (a tier added, removed or repriced), one entry with
  the rates before and after; it is empty exactly when the sheets are equal.
\<close>

theorem diff_lists_exactly_the_changes:
  assumes "validateRates input = Inr a" and "validateRates input' = Inr b"
  shows "set (diffRates (Some a) b) =
      (if baseRateBps a = baseRateBps b then {}
       else {\<lparr>rc_path = ''baseRateBps'', rc_before = Some (baseRateBps a), rc_after = Some (baseRateBps b)\<rparr>}) \<union>
      {\<lparr>rc_path = tier_path m, rc_before = tier_rate a m, rc_after = tier_rate b m\<rparr> | m. tier_rate a m \<noteq> tier_rate b m} \<and>
    (diffRates (Some a) b = [] \<longleftrightarrow> a = b)"
  using diffRates_set diffRates_Nil assms [THEN validateRates_canonical] by blast

lemma diff_lists_exactly_the_changes_witness:
  "diffRates (Some example_sheet) example_sheet = []"
  using diff_lists_exactly_the_changes [OF example_rates_valid example_rates_valid] by blast

text \<open>
  C23. Publishing a sheet does not rewrite the past: whatever a publication is given, the sheet in effect
  at a time more than five seconds before the call is the same afterwards, provided the other processes
  that write between its reads and writes leave it so; an offer priced at such a time costs the same.
\<close>

theorem publishing_keeps_the_past:
  assumes "sheet_table client view"
    and "\<forall>n d. resolveRateSheetAt client (reads n d) t = resolveRateSheetAt client d t"
    and "\<forall>n d. resolveRateSheetAt client (writes n d) t = resolveRateSheetAt client d t"
    and "t < now - 5000"
  shows "resolveRateSheetAt client (fst (publishRateSheet client reads writes date_of db rates changedBy changeReason
             effectiveAt now)) t = resolveRateSheetAt client db t \<and>
         priceNewOffer client (fst (publishRateSheet client reads writes date_of db rates changedBy changeReason
             effectiveAt now)) score t = priceNewOffer client db score t"
proof -
  have view: "resolveRateSheetAt client d t = in_effect (view d) t" for d
    by (simp add: resolveRateSheetAt_def table_reads [OF assms(1)])
  have "in_effect (view (fst (publishRateSheet client reads writes date_of db rates changedBy changeReason
      effectiveAt now))) t = in_effect (view db) t"
  proof (cases rule: publishRateSheet_cases [of client reads writes date_of db rates changedBy changeReason effectiveAt now])
    case (refused e)
    then show ?thesis by simp
  next
    case (looped sheet reason eff)
    show ?thesis
      unfolding looped(3)
      by (rule publish_loop_rule [OF assms(1), where I = "\<lambda>rows. in_effect rows t = in_effect (view db) t"])
        (use assms(2-4) looped(2) in \<open>auto simp: view in_effect_later next_version_def EFFECTIVE_AT_SKEW_MS_def\<close>)
  qed
  then show ?thesis by (simp add: priceNewOffer_def view)
qed

definition example_publish :: "sheet_version list \<times> (publish_error + sheet_version)" where
  "example_publish = publishRateSheet list_sheets (\<lambda>n d. d) (\<lambda>n d. d) (\<lambda>_. None) [] example_rates ''GA'' JUndefined JNull 100000"

lemma publishing_keeps_the_past_witness:
  "resolveRateSheetAt list_sheets (fst example_publish) 0 = None \<and> map sv_version (fst example_publish) = [1]"
proof -
  have "resolveRateSheetAt list_sheets (fst example_publish) 0 = resolveRateSheetAt list_sheets [] 0"
    unfolding example_publish_def
    by (rule publishing_keeps_the_past [OF list_sheets_table, of "\<lambda>n d. d" 0 "\<lambda>n d. d" 100000, THEN conjunct1]) simp_all
  moreover have "resolveRateSheetAt list_sheets [] 0 = None" by code_simp
  moreover have "map sv_version (fst example_publish) = [1]" by code_simp
  ultimately show ?thesis by simp
qed

text \<open>
  The version history is a chain. Where the other writers append to the table and keep it, a
  publication appends to the table and keeps that versions are distinct, every sheet is valid, and every
  version after the first has its predecessor in the table, differs from it, and carries exactly the
  difference between the two.
\<close>

theorem published_versions_form_a_chain:
  assumes "sheet_table client view" and "appends view reads" and "appends view writes"
    and "\<forall>n d. version_chain (view d) \<longrightarrow> version_chain (view (reads n d)) \<and> version_chain (view (writes n d))"
    and "version_chain (view db)"
  shows "version_chain (view (fst (publishRateSheet client reads writes date_of db rates changedBy changeReason
            effectiveAt now))) \<and>
         (\<exists>rows. view (fst (publishRateSheet client reads writes date_of db rates changedBy changeReason
            effectiveAt now)) = view db @ rows)"
proof (cases rule: publishRateSheet_cases [of client reads writes date_of db rates changedBy changeReason effectiveAt now])
  case (refused e)
  then show ?thesis using assms(5) by simp
next
  case (looped sheet reason eff)
  note canonical = validateRates_canonical [OF looped(1)]
  have appended: "\<exists>rows. view (writes n d) = view d @ rows" "\<exists>rows. view (reads n d) = view d @ rows" for n d
    using assms(2,3) by (auto simp: appends_def)
  let ?I = "\<lambda>rows. version_chain rows \<and> (\<exists>rs. rows = view db @ rs)"
  show ?thesis
    unfolding looped(3)
  proof (rule publish_loop_rule [OF assms(1), where I = ?I])
    show "?I (view (reads n d))" if "?I (view d)" for n d
      using that assms(4) appended(2) [of n d] by auto
    show "?I (view (writes n d))" if "?I (view d)" for n d
      using that assms(4) appended(1) [of n d] by auto
    show "?I (view (writes n d) @ [r])"
      if "?I (view d)" "?I (view (writes n d))" and r: "r = next_version (view d) sheet eff changedBy reason i"
        "latest_version (view d) = None \<or> sv_changedValues r \<noteq> []" "sv_version r \<notin> sv_version ` set (view (writes n d))"
      for n d i r
    proof -
      obtain rows where rows: "view (writes n d) = view d @ rows" using appended(1) by blast
      have "version_chain ((view d @ rows) @ [r])"
        using version_chain_append [OF _ _ canonical r(1,2)] that(1,2) r(3) rows by simp
      moreover have "\<exists>rs. (view d @ rows) @ [r] = view db @ rs"
        using that(2) rows by (metis append_assoc)
      ultimately show ?thesis using rows by simp
    qed
  qed (use assms(5) in auto)
qed

lemma published_versions_form_a_chain_witness: "version_chain (fst example_publish)"
proof -
  have id: "appends (\<lambda>rows. rows) (\<lambda>n d. d)" by (simp add: appends_def)
  have empty: "version_chain []" by (simp add: version_chain_def)
  show ?thesis
    unfolding example_publish_def
    using published_versions_form_a_chain [OF list_sheets_table id id _ empty] by simp
qed

end
