(* ===== verification/AuditChain.thy ===== *)
theory AuditChain
  imports Prelude "HOL-Library.List_Lexorder" "HOL-Library.Char_ord" "HOL-Library.Multiset"
begin

text \<open>
  The tamper-evident audit log of \<^verbatim>\<open>backend/src/services/auditChain.ts\<close> and the writer of
  \<^verbatim>\<open>backend/src/services/audit.ts\<close>. The hash function, the decimal text of a number and the ISO text
  of a time are the record \<open>chain_env\<close>; times are milliseconds. The table is the list of its rows, read
  by the ordered queries of the code. A JSON column gives back what it was given without the fields that
  are \<open>undefined\<close> (\<open>json_column\<close>). The lemmas show that what the writer appends verifies, and that two
  logs with the same head either have the same content or exhibit a collision of the hash.
\<close>

section \<open>Canonical text\<close>

record chain_env =
  ce_sha256 :: "string \<Rightarrow> string"
  ce_number :: "rat \<Rightarrow> string"
  ce_iso :: "int \<Rightarrow> string"

type_synonym entry_metadata = "(string \<times> js_value) list"

definition CHAIN_HASH_KEY :: string where
  "CHAIN_HASH_KEY = ''__chainHash''"

definition CHAIN_PREV_KEY :: string where
  "CHAIN_PREV_KEY = ''__chainPrevHash''"

definition GENESIS_PREV_HASH :: string where
  "GENESIS_PREV_HASH = replicate 64 CHR ''0''"

text \<open>\<open>JSON.stringify\<close> of a string: quotes, backslashes and the control characters are escaped.\<close>

definition hex_of :: "nat \<Rightarrow> char" where
  "hex_of n = char_of (if n < 10 then n + 48 else n + 87)"

definition json_char :: "char \<Rightarrow> string" where
  "json_char c =
     (let n = (of_char c :: nat) in
      if n = 34 then [CHR 0x5C, CHR 0x22] else if n = 92 then [CHR 0x5C, CHR 0x5C]
      else if n = 8 then [CHR 0x5C, CHR ''b''] else if n = 12 then [CHR 0x5C, CHR ''f'']
      else if n = 10 then [CHR 0x5C, CHR ''n''] else if n = 13 then [CHR 0x5C, CHR ''r'']
      else if n = 9 then [CHR 0x5C, CHR ''t'']
      else if n < 32 then CHR 0x5C # ''u00'' @ [hex_of (n div 16), hex_of (n mod 16)]
      else [c])"

definition json_string :: "string \<Rightarrow> string" where
  "json_string s = [CHR 0x22] @ concat (map json_char s) @ [CHR 0x22]"

text \<open>
  \<open>undefined\<close> has no text: it joins as the empty string in an array and reads \<^verbatim>\<open>undefined\<close> in the
  template of an object.
\<close>

primrec stableStringify :: "chain_env \<Rightarrow> js_value \<Rightarrow> string option" where
  "stableStringify env JUndefined = None"
| "stableStringify env JNull = Some ''null''"
| "stableStringify env (JBool b) = Some (if b then ''true'' else ''false'')"
| "stableStringify env (JNum x) = Some (ce_number env x)"
| "stableStringify env (JStr s) = Some (json_string s)"
| "stableStringify env (JArr vs) =
     Some (''['' @ js_join '','' (map (\<lambda>t. or_else t '''') (map (stableStringify env) vs)) @ '']'')"
| "stableStringify env (JObj kvs) =
     Some (''{'' @ js_join '','' (map (\<lambda>(k, t). json_string k @ '':'' @ or_else t ''undefined'')
       (sort_key fst (map (map_prod id (stableStringify env)) kvs))) @ ''}'')"

section \<open>Entries\<close>

record chain_entry =
  ae_id :: string
  ae_action :: string
  ae_actorAddress :: "string option"
  ae_ipAddress :: "string option"
  ae_metadata :: "entry_metadata option"
  ae_createdAt :: int

definition stripChainKeys :: "entry_metadata option \<Rightarrow> entry_metadata option" where
  "stripChainKeys m = map_option (\<lambda>kvs. map_delete (map_delete kvs CHAIN_HASH_KEY) CHAIN_PREV_KEY) m"

definition nullable_text :: "string option \<Rightarrow> js_value" where
  "nullable_text x = (case x of None \<Rightarrow> JNull | Some s \<Rightarrow> JStr s)"

definition nullable_object :: "entry_metadata option \<Rightarrow> js_value" where
  "nullable_object x = (case x of None \<Rightarrow> JNull | Some kvs \<Rightarrow> JObj kvs)"

definition canonicalEntry :: "chain_env \<Rightarrow> chain_entry \<Rightarrow> string" where
  "canonicalEntry env e =
     or_else (stableStringify env (JObj
       [(''action'', JStr (ae_action e)), (''actorAddress'', nullable_text (ae_actorAddress e)),
        (''ipAddress'', nullable_text (ae_ipAddress e)), (''metadata'', nullable_object (stripChainKeys (ae_metadata e))),
        (''createdAt'', JStr (ce_iso env (ae_createdAt e)))])) ''undefined''"

definition computeChainHash :: "chain_env \<Rightarrow> chain_entry \<Rightarrow> string \<Rightarrow> string" where
  "computeChainHash env e prevHash = ce_sha256 env (prevHash @ '':'' @ canonicalEntry env e)"

definition withChainMetadata :: "entry_metadata option \<Rightarrow> string \<Rightarrow> string \<Rightarrow> entry_metadata" where
  "withChainMetadata m chainHash chainPrevHash =
     map_set (map_set (or_else (stripChainKeys m) []) CHAIN_PREV_KEY (JStr chainPrevHash)) CHAIN_HASH_KEY (JStr chainHash)"

definition stored_text :: "string \<Rightarrow> chain_entry \<Rightarrow> string option" where
  "stored_text k e =
     (case ae_metadata e of
        None \<Rightarrow> None
      | Some kvs \<Rightarrow> (case map_get kvs k of Some (JStr s) \<Rightarrow> Some s | _ \<Rightarrow> None))"

definition storedChainHash :: "chain_entry \<Rightarrow> string option" where
  "storedChainHash e = stored_text CHAIN_HASH_KEY e"

definition storedChainPrevHash :: "chain_entry \<Rightarrow> string option" where
  "storedChainPrevHash e = stored_text CHAIN_PREV_KEY e"

section \<open>Chains\<close>

record chained_entry = chain_entry +
  ca_chainHash :: string
  ca_chainPrevHash :: string

fun buildChain :: "chain_env \<Rightarrow> chain_entry list \<Rightarrow> string \<Rightarrow> chained_entry list" where
  "buildChain env [] prev = []"
| "buildChain env (e # es) prev =
     (let h = computeChainHash env e prev
      in chain_entry.extend e \<lparr>ca_chainHash = h, ca_chainPrevHash = prev\<rparr> # buildChain env es h)"

datatype break_reason = Previous_hash_mismatch | Hash_mismatch

record chain_verification =
  cv_ok :: bool
  cv_verified :: nat
  cv_head :: string
  cv_brokenAt :: "(nat \<times> string \<times> break_reason) option"

fun verify_from :: "chain_env \<Rightarrow> nat \<Rightarrow> string \<Rightarrow> chain_entry list \<Rightarrow> chain_verification" where
  "verify_from env i prev [] = \<lparr>cv_ok = True, cv_verified = i, cv_head = prev, cv_brokenAt = None\<rparr>"
| "verify_from env i prev (e # es) =
     (if storedChainPrevHash e \<noteq> Some prev
      then \<lparr>cv_ok = False, cv_verified = i, cv_head = prev, cv_brokenAt = Some (i, ae_id e, Previous_hash_mismatch)\<rparr>
      else if storedChainHash e \<noteq> Some (computeChainHash env e prev)
      then \<lparr>cv_ok = False, cv_verified = i, cv_head = prev, cv_brokenAt = Some (i, ae_id e, Hash_mismatch)\<rparr>
      else verify_from env (i + 1) (computeChainHash env e prev) es)"

definition verifyChain :: "chain_env \<Rightarrow> chain_entry list \<Rightarrow> string \<Rightarrow> chain_verification" where
  "verifyChain env entries anchorPrevHash = verify_from env 0 anchorPrevHash entries"

record chain_head =
  ch_hash :: string
  ch_count :: nat
  ch_publishedAt :: string

definition publishChainHead :: "chain_env \<Rightarrow> chain_entry list \<Rightarrow> chain_head list \<Rightarrow> int \<Rightarrow> chain_head list \<times> chain_head" where
  "publishChainHead env entries sink now =
     (let h = \<lparr>ch_hash = cv_head (verifyChain env entries GENESIS_PREV_HASH), ch_count = length entries,
               ch_publishedAt = ce_iso env now\<rparr>
      in (sink @ [h], h))"

section \<open>The table\<close>

definition oldest_first :: "chain_entry list \<Rightarrow> chain_entry list" where
  "oldest_first rows = sort_key ae_createdAt (sort_key ae_id rows)"

definition newest :: "chain_entry list \<Rightarrow> chain_entry option" where
  "newest rows = (case rev (oldest_first rows) of [] \<Rightarrow> None | r # _ \<Rightarrow> Some r)"

text \<open>
  The two bounds of a range are spread into one query object under the same key, so an upper bound
  replaces the lower one; the anchor still belongs to the lower one.
\<close>

definition verifyAuditRange :: "chain_env \<Rightarrow> chain_entry list \<Rightarrow> int option \<Rightarrow> int option \<Rightarrow> chain_verification" where
  "verifyAuditRange env table from to =
     (let rows = oldest_first (filter (\<lambda>r. case to of
                   Some t \<Rightarrow> ae_createdAt r \<le> t
                 | None \<Rightarrow> (case from of Some f \<Rightarrow> f \<le> ae_createdAt r | None \<Rightarrow> True)) table);
          anchor = (case from of
             None \<Rightarrow> GENESIS_PREV_HASH
           | Some f \<Rightarrow>
               (case newest (filter (\<lambda>r. ae_createdAt r < f) table) of
                  None \<Rightarrow> GENESIS_PREV_HASH
                | Some before \<Rightarrow> or_else (storedChainHash before) GENESIS_PREV_HASH))
      in verifyChain env rows anchor)"

section \<open>Writing\<close>

text \<open>What a JSON column gives back: no \<open>undefined\<close> field, and \<open>null\<close> for \<open>undefined\<close> in an array.\<close>

fun json_stored :: "js_value \<Rightarrow> js_value" where
  "json_stored JUndefined = JNull"
| "json_stored (JArr vs) = JArr (map json_stored vs)"
| "json_stored (JObj kvs) = JObj (map (\<lambda>(k, v). (k, json_stored v)) (filter (\<lambda>(k, v). v \<noteq> JUndefined) kvs))"
| "json_stored v = v"

definition json_column :: "entry_metadata \<Rightarrow> entry_metadata" where
  "json_column kvs = map (\<lambda>(k, v). (k, json_stored v)) (filter (\<lambda>(k, v). v \<noteq> JUndefined) kvs)"

fun json_clean :: "js_value \<Rightarrow> bool" where
  "json_clean JUndefined = False"
| "json_clean (JArr vs) = list_all json_clean vs"
| "json_clean (JObj kvs) = list_all (\<lambda>(k, v). json_clean v) kvs"
| "json_clean v = True"

record audit_params =
  ap_action :: string
  ap_actorAddress :: "string option"
  ap_ipAddress :: "string option"
  ap_metadata :: "entry_metadata option"

text \<open>The hash a new entry chains back to; \<open>lookup_ok\<close> is False where the query fails.\<close>

definition previousChainHash :: "chain_entry list \<Rightarrow> bool \<Rightarrow> string" where
  "previousChainHash table lookup_ok =
     (if \<not> lookup_ok then GENESIS_PREV_HASH
      else case newest table of
        None \<Rightarrow> GENESIS_PREV_HASH
      | Some latest \<Rightarrow> or_else (storedChainHash latest) GENESIS_PREV_HASH)"

definition chained_row :: "chain_env \<Rightarrow> audit_params \<Rightarrow> int \<Rightarrow> string \<Rightarrow> string \<Rightarrow> chain_entry" where
  "chained_row env p createdAt prevHash rid =
     (let chainHash = computeChainHash env
            \<lparr>ae_id = '''', ae_action = ap_action p, ae_actorAddress = ap_actorAddress p, ae_ipAddress = ap_ipAddress p,
             ae_metadata = Some (or_else (ap_metadata p) []), ae_createdAt = createdAt\<rparr> prevHash
      in \<lparr>ae_id = rid, ae_action = ap_action p, ae_actorAddress = ap_actorAddress p, ae_ipAddress = ap_ipAddress p,
          ae_metadata = Some (json_column (withChainMetadata (ap_metadata p) chainHash prevHash)),
          ae_createdAt = createdAt\<rparr>)"

definition logAudit :: "chain_env \<Rightarrow> chain_entry list \<Rightarrow> bool \<Rightarrow> audit_params \<Rightarrow> int \<Rightarrow> string \<Rightarrow> chain_entry list" where
  "logAudit env table lookup_ok p createdAt rid =
     table @ [chained_row env p createdAt (previousChainHash table lookup_ok) rid]"

section \<open>Reserved keys\<close>

lemma chain_keys_distinct [simp]: "CHAIN_HASH_KEY \<noteq> CHAIN_PREV_KEY" "CHAIN_PREV_KEY \<noteq> CHAIN_HASH_KEY"
  by (simp_all add: CHAIN_HASH_KEY_def CHAIN_PREV_KEY_def)

lemma json_stored_clean: "json_clean v \<Longrightarrow> json_stored v = v"
proof (induction v rule: json_stored.induct)
  case (2 vs)
  then show ?case by (simp add: list_all_iff map_idI)
next
  case (3 kvs)
  have same: "filter (\<lambda>(k, v). v \<noteq> JUndefined) kvs = kvs"
    using 3(2) by (auto simp: list_all_iff filter_id_conv)
  have "map (\<lambda>(k, v). (k, json_stored v)) kvs = kvs"
    by (rule map_idI) (use 3 in \<open>auto simp: list_all_iff same\<close>)
  with same show ?case by simp
qed auto

definition clean_metadata :: "entry_metadata option \<Rightarrow> bool" where
  "clean_metadata m = list_all (\<lambda>(k, v). json_clean v) (or_else m [])"

lemma json_column_clean: "list_all (\<lambda>(k, v). json_clean v) kvs \<Longrightarrow> json_column kvs = kvs"
proof -
  assume clean: "list_all (\<lambda>(k, v). json_clean v) kvs"
  have "json_stored (JObj kvs) = JObj kvs" by (rule json_stored_clean) (use clean in simp)
  then show ?thesis by (simp add: json_column_def)
qed

lemma map_set_absent: "k \<notin> fst ` set m \<Longrightarrow> map_set m k v = m @ [(k, v)]"
  by (induction m) auto

lemma strip_withChain:
  "stripChainKeys (Some (withChainMetadata m h p)) = stripChainKeys (Some (or_else m []))"
proof -
  let ?kvs = "map_delete (map_delete (or_else m []) CHAIN_HASH_KEY) CHAIN_PREV_KEY"
  have base: "or_else (stripChainKeys m) [] = ?kvs"
    by (cases m) (simp_all add: stripChainKeys_def)
  have absent: "CHAIN_PREV_KEY \<notin> fst ` set ?kvs" "CHAIN_HASH_KEY \<notin> fst ` set ?kvs"
    by (auto simp: AList.delete_eq)
  have "withChainMetadata m h p = ?kvs @ [(CHAIN_PREV_KEY, JStr p), (CHAIN_HASH_KEY, JStr h)]"
    using absent unfolding withChainMetadata_def base by (simp add: map_set_absent)
  then show ?thesis
    by (simp add: stripChainKeys_def AList.delete_eq)
qed

lemma map_set_clean:
  "list_all (\<lambda>(k, v). json_clean v) kvs \<Longrightarrow> list_all (\<lambda>(k, v). json_clean v) (map_set kvs key (JStr s))"
  by (induction kvs) auto

lemma withChain_clean:
  assumes "clean_metadata m"
  shows "list_all (\<lambda>(k, v). json_clean v) (withChainMetadata m h p)"
proof -
  have "list_all (\<lambda>(k, v). json_clean v) (or_else (stripChainKeys m) [])"
    using assms by (cases m) (auto simp: clean_metadata_def stripChainKeys_def list_all_iff AList.delete_eq)
  then show ?thesis unfolding withChainMetadata_def by (intro map_set_clean)
qed

lemma withChain_stored:
  "map_get (withChainMetadata m h p) CHAIN_HASH_KEY = Some (JStr h)"
  "map_get (withChainMetadata m h p) CHAIN_PREV_KEY = Some (JStr p)"
  by (simp_all add: withChainMetadata_def)

lemma chained_row_links:
  assumes "clean_metadata (ap_metadata p)"
  shows "storedChainPrevHash (chained_row env p t prev rid) = Some prev"
    and "storedChainHash (chained_row env p t prev rid) = Some (computeChainHash env (chained_row env p t prev rid) prev)"
proof -
  note clean = json_column_clean [OF withChain_clean [OF assms]]
  show "storedChainPrevHash (chained_row env p t prev rid) = Some prev"
    by (simp add: chained_row_def Let_def clean storedChainPrevHash_def stored_text_def withChain_stored)
  show "storedChainHash (chained_row env p t prev rid) = Some (computeChainHash env (chained_row env p t prev rid) prev)"
    by (simp add: chained_row_def Let_def clean storedChainHash_def stored_text_def withChain_stored
        computeChainHash_def canonicalEntry_def strip_withChain)
qed

section \<open>Verification of what was written\<close>

lemma verify_append:
  "cv_ok (verify_from env i prev es) \<Longrightarrow>
     verify_from env i prev (es @ fs) = verify_from env (i + length es) (cv_head (verify_from env i prev es)) fs"
  by (induction es arbitrary: i prev) (auto split: if_splits)

lemma verify_count: "cv_ok (verify_from env i prev es) \<Longrightarrow> cv_verified (verify_from env i prev es) = i + length es"
  by (induction es arbitrary: i prev) (auto split: if_splits)

lemma verify_head_stored:
  "cv_ok (verify_from env i prev es) \<Longrightarrow> es \<noteq> [] \<Longrightarrow> storedChainHash (last es) = Some (cv_head (verify_from env i prev es))"
  by (induction es arbitrary: i prev) (auto split: if_splits)

definition chained_table :: "chain_env \<Rightarrow> chain_entry list \<Rightarrow> bool" where
  "chained_table env table \<longleftrightarrow> sorted_wrt (\<lambda>a b. ae_createdAt a < ae_createdAt b) table \<and>
     cv_ok (verifyChain env table GENESIS_PREV_HASH)"

lemma oldest_first_sorted:
  assumes "sorted_wrt (\<lambda>a b. ae_createdAt a < ae_createdAt b) table"
  shows "oldest_first table = table"
proof -
  have sorted: "sorted_wrt (<) (map ae_createdAt table)" using assms by (simp add: sorted_wrt_map)
  then have "sorted (map ae_createdAt table)" "distinct (map ae_createdAt table)"
    by (auto simp: strict_sorted_iff)
  then show ?thesis
    unfolding oldest_first_def by (intro sort_key_inj_key_eq) (simp_all add: distinct_map)
qed

lemma verify_ok_append:
  "cv_ok (verify_from env i prev (es @ fs)) \<longleftrightarrow> cv_ok (verify_from env i prev es) \<and>
     cv_ok (verify_from env (i + length es) (cv_head (verify_from env i prev es)) fs)"
  by (induction es arbitrary: i prev) auto

lemma verify_index: "cv_ok (verify_from env i prev es) = cv_ok (verify_from env j prev es)"
  by (induction es arbitrary: i j prev) auto

lemma newest_last:
  "sorted_wrt (\<lambda>a b. ae_createdAt a < ae_createdAt b) table \<Longrightarrow>
     newest table = (if table = [] then None else Some (last table))"
  by (cases table rule: rev_cases) (simp_all add: newest_def oldest_first_sorted)

lemma previousChainHash_head:
  assumes "chained_table env table"
  shows "previousChainHash table True = cv_head (verifyChain env table GENESIS_PREV_HASH)"
  using assms verify_head_stored [of env 0 GENESIS_PREV_HASH table]
  by (auto simp: previousChainHash_def chained_table_def newest_last verifyChain_def)

lemma logAudit_chained:
  assumes table: "chained_table env table" and clean: "clean_metadata (ap_metadata p)"
    and later: "list_all (\<lambda>r. ae_createdAt r < t) table"
  shows "chained_table env (logAudit env table True p t rid)"
proof -
  let ?prev = "previousChainHash table True"
  have "cv_ok (verify_from env (length table) ?prev [chained_row env p t ?prev rid])"
    using chained_row_links [OF clean] by simp
  moreover have "ae_createdAt (chained_row env p t ?prev rid) = t" by (simp add: chained_row_def Let_def)
  ultimately show ?thesis
    using table later previousChainHash_head [OF table]
    by (simp add: chained_table_def logAudit_def verifyChain_def verify_ok_append sorted_wrt_append list_all_iff)
qed

lemma sorted_split:
  fixes f :: "'a \<Rightarrow> int"
  shows "sorted_wrt (\<lambda>a b. f a < f b) xs \<Longrightarrow> filter (\<lambda>x. f x < c) xs @ filter (\<lambda>x. c \<le> f x) xs = xs"
proof (induction xs)
  case Nil
  then show ?case by simp
next
  case (Cons x xs)
  then have "filter (\<lambda>y. f y < c) xs = []" if "c \<le> f x"
    using that by (auto simp: filter_empty_conv)
  with Cons show ?case by (auto simp: not_less)
qed

lemma chained_filter:
  "sorted_wrt (\<lambda>a b. ae_createdAt a < ae_createdAt b) table \<Longrightarrow> oldest_first (filter P table) = filter P table"
  by (simp add: oldest_first_sorted sorted_wrt_filter)

lemma chained_range:
  assumes "chained_table env table"
  shows "verifyAuditRange env table from None =
    verifyChain env (filter (\<lambda>r. case from of Some f \<Rightarrow> f \<le> ae_createdAt r | None \<Rightarrow> True) table)
      (case from of None \<Rightarrow> GENESIS_PREV_HASH
       | Some f \<Rightarrow> previousChainHash (filter (\<lambda>r. ae_createdAt r < f) table) True)"
  using assms by (auto simp: verifyAuditRange_def Let_def chained_table_def chained_filter previousChainHash_def
      split: option.split)

lemma chained_prefix:
  assumes "chained_table env table"
  shows "chained_table env (filter (\<lambda>r. ae_createdAt r < f) table)"
    and "cv_ok (verifyChain env (filter (\<lambda>r. f \<le> ae_createdAt r) table)
           (cv_head (verifyChain env (filter (\<lambda>r. ae_createdAt r < f) table) GENESIS_PREV_HASH)))"
proof -
  let ?pre = "filter (\<lambda>r. ae_createdAt r < f) table"
  let ?post = "filter (\<lambda>r. f \<le> ae_createdAt r) table"
  have "cv_ok (verify_from env 0 GENESIS_PREV_HASH (?pre @ ?post))"
    using assms sorted_split [of ae_createdAt table f] by (simp add: chained_table_def verifyChain_def)
  then have ok: "cv_ok (verify_from env 0 GENESIS_PREV_HASH ?pre)"
      "cv_ok (verify_from env (0 + length ?pre) (cv_head (verify_from env 0 GENESIS_PREV_HASH ?pre)) ?post)"
    by (simp_all only: verify_ok_append)
  show "chained_table env ?pre"
    using ok(1) assms by (simp add: chained_table_def sorted_wrt_filter verifyChain_def)
  show "cv_ok (verifyChain env ?post (cv_head (verifyChain env ?pre GENESIS_PREV_HASH)))"
    using ok(2) verify_index unfolding verifyChain_def by blast
qed

lemma chained_verifies_from:
  assumes "chained_table env table"
  shows "cv_ok (verifyAuditRange env table from None)"
proof (cases "from")
  case None
  with assms show ?thesis by (simp add: chained_range [OF assms] chained_table_def)
next
  case (Some f)
  then show ?thesis
    using chained_prefix(2) [OF assms, of f] previousChainHash_head [OF chained_prefix(1) [OF assms, of f]]
    by (simp add: chained_range [OF assms])
qed

section \<open>The head determines the log\<close>

fun chain_inputs :: "chain_env \<Rightarrow> string \<Rightarrow> chain_entry list \<Rightarrow> string list" where
  "chain_inputs env prev [] = []"
| "chain_inputs env prev (e # es) =
     (prev @ '':'' @ canonicalEntry env e) # chain_inputs env (computeChainHash env e prev) es"

definition chain_end :: "chain_env \<Rightarrow> string \<Rightarrow> chain_entry list \<Rightarrow> string" where
  "chain_end env prev es = foldl (\<lambda>h e. computeChainHash env e h) prev es"

lemma verified_head: "cv_ok (verify_from env i prev es) \<Longrightarrow> cv_head (verify_from env i prev es) = chain_end env prev es"
  by (induction es arbitrary: i prev) (auto simp: chain_end_def split: if_splits)

lemma chain_inputs_append:
  "chain_inputs env prev (es @ [e]) = chain_inputs env prev es @ [chain_end env prev es @ '':'' @ canonicalEntry env e]"
  by (induction es arbitrary: prev) (simp_all add: chain_end_def)

lemma chain_end_length:
  "(\<And>x. length (ce_sha256 env x) = 64) \<Longrightarrow> length prev = 64 \<Longrightarrow> length (chain_end env prev es) = 64"
  by (cases es rule: rev_cases) (simp_all add: chain_end_def computeChainHash_def)

lemma chain_end_unique:
  assumes sha: "\<And>x. length (ce_sha256 env x) = 64" and anchor: "length a = 64"
  shows "length es = length fs \<Longrightarrow> chain_end env a es = chain_end env a fs \<Longrightarrow>
    (\<forall>x\<in>set (chain_inputs env a es). \<forall>y\<in>set (chain_inputs env a fs). ce_sha256 env x = ce_sha256 env y \<longrightarrow> x = y) \<Longrightarrow>
    map (canonicalEntry env) es = map (canonicalEntry env) fs"
proof (induction es arbitrary: fs rule: rev_induct)
  case Nil
  then show ?case by simp
next
  case (snoc e es)
  obtain f gs where fs: "fs = gs @ [f]" using snoc.prems(1) by (cases fs rule: rev_cases) auto
  have "ce_sha256 env (chain_end env a es @ '':'' @ canonicalEntry env e) =
      ce_sha256 env (chain_end env a gs @ '':'' @ canonicalEntry env f)"
    using snoc.prems(2) by (simp add: fs chain_end_def computeChainHash_def)
  then have "chain_end env a es @ '':'' @ canonicalEntry env e = chain_end env a gs @ '':'' @ canonicalEntry env f"
    using snoc.prems(3) by (simp add: fs chain_inputs_append)
  then have same: "chain_end env a es = chain_end env a gs" "canonicalEntry env e = canonicalEntry env f"
    using chain_end_length [OF sha anchor] by (auto simp: append_eq_append_conv)
  have "map (canonicalEntry env) es = map (canonicalEntry env) gs"
    using snoc.IH [of gs] snoc.prems(1,3) same(1) by (simp add: fs chain_inputs_append)
  with same(2) fs show ?case by simp
qed

section \<open>Properties\<close>

definition log_run :: "chain_env \<Rightarrow> (audit_params \<times> int \<times> string) list \<Rightarrow> chain_entry list" where
  "log_run env = foldl (\<lambda>table (p, t, rid). logAudit env table True p t rid) []"

lemma log_run_times: "map ae_createdAt (log_run env calls) = map (\<lambda>(p, t, rid). t) calls"
  by (induction calls rule: rev_induct) (auto simp: log_run_def logAudit_def chained_row_def Let_def)

lemma log_run_chained:
  "list_all (\<lambda>(p, t, rid). clean_metadata (ap_metadata p)) calls \<Longrightarrow>
     sorted_wrt (<) (map (\<lambda>(p, t, rid). t) calls) \<Longrightarrow> chained_table env (log_run env calls)"
proof (induction calls rule: rev_induct)
  case Nil
  then show ?case by (simp add: log_run_def chained_table_def verifyChain_def)
next
  case (snoc c calls)
  obtain p t rid where c: "c = (p, t, rid)" by (cases c)
  have "\<forall>u\<in>set (map ae_createdAt (log_run env calls)). u < t"
    using snoc.prems(2) by (simp add: log_run_times c sorted_wrt_append)
  then have "list_all (\<lambda>r. ae_createdAt r < t) (log_run env calls)" by (simp add: list_all_iff)
  with logAudit_chained [of env "log_run env calls" p t rid] snoc show ?case
    by (auto simp: c sorted_wrt_append log_run_def)
qed

text \<open>
  Entries written one after the other, at increasing times and with metadata free of
  \<open>undefined\<close>, verify: over the whole table and over every range that starts at some time, and the whole
  verification counts every entry.
\<close>

theorem logged_entries_verify:
  assumes "list_all (\<lambda>(p, t, rid). clean_metadata (ap_metadata p)) calls"
    and "sorted_wrt (<) (map (\<lambda>(p, t, rid). t) calls)"
  shows "cv_ok (verifyAuditRange env (log_run env calls) start None) \<and>
    cv_verified (verifyAuditRange env (log_run env calls) None None) = length calls"
proof -
  note chained = log_run_chained [OF assms, of env]
  have "length (log_run env calls) = length calls"
    using log_run_times [of env calls] by (metis length_map)
  moreover have "cv_ok (verifyChain env (log_run env calls) GENESIS_PREV_HASH)"
    using chained by (simp add: chained_table_def)
  ultimately show ?thesis
    using chained_verifies_from [OF chained, of start] verify_count [of env 0 GENESIS_PREV_HASH "log_run env calls"]
    by (simp add: chained_range [OF chained] verifyChain_def)
qed

definition example_env :: chain_env where
  "example_env = \<lparr>ce_sha256 = (\<lambda>x. take 64 (rev x @ replicate 64 CHR ''a'')), ce_number = (\<lambda>x. show_int \<lfloor>x\<rfloor>),
     ce_iso = show_int\<rparr>"

definition example_params :: "string \<Rightarrow> audit_params" where
  "example_params s = \<lparr>ap_action = ''LOGIN'', ap_actorAddress = Some ''GA'', ap_ipAddress = None,
     ap_metadata = Some [(''session'', JStr s)]\<rparr>"

definition example_log :: "(audit_params \<times> int \<times> string) list" where
  "example_log = [(example_params ''a'', 1, ''r1''), (example_params ''b'', 2, ''r2''), (example_params ''c'', 3, ''r3'')]"

lemma example_log_clean: "list_all (\<lambda>(p, t, rid). clean_metadata (ap_metadata p)) example_log"
  by (simp add: example_log_def example_params_def clean_metadata_def)

lemma example_log_sorted: "sorted_wrt (<) (map (\<lambda>(p, t, rid). t) example_log)"
  by (simp add: example_log_def)

lemma logged_entries_verify_witness:
  "cv_ok (verifyAuditRange example_env (log_run example_env example_log) (Some 2) None) \<and>
   cv_verified (verifyAuditRange example_env (log_run example_env example_log) None None) = 3"
  using logged_entries_verify [OF example_log_clean example_log_sorted, of example_env "Some 2"]
  by (simp add: example_log_def)



section \<open>Where an honest log does not verify\<close>

text \<open>
  A range with both bounds: the rows reach back to the start of the table, the anchor does not.
\<close>

lemma both_bounds_break:
  "cv_brokenAt (verifyAuditRange example_env (log_run example_env example_log) (Some 2) (Some 3)) =
   Some (0, ''r1'', Previous_hash_mismatch)"
  by code_simp

text \<open>Metadata with a field that is \<open>undefined\<close>: hashed as such, but not stored.\<close>

lemma undefined_field_breaks:
  "cv_brokenAt (verifyAuditRange example_env (logAudit example_env [] True
     \<lparr>ap_action = ''LOGIN'', ap_actorAddress = None, ap_ipAddress = None, ap_metadata = Some [(''ip'', JUndefined)]\<rparr>
     1 ''r1'') None None) = Some (0, ''r1'', Hash_mismatch)"
  by code_simp

text \<open>Two entries prepared from the same table, the second before the first was stored.\<close>

lemma fork_breaks:
  assumes "chained_table env table" and "clean_metadata (ap_metadata p)" and "clean_metadata (ap_metadata q)"
    and "prev = previousChainHash table True" and "r = chained_row env p t prev rid"
    and "computeChainHash env r prev \<noteq> prev"
  shows "cv_brokenAt (verifyChain env (table @ [r, chained_row env q t' prev rid']) GENESIS_PREV_HASH) =
    Some (length table + 1, rid', Previous_hash_mismatch)"
proof -
  have head: "cv_ok (verify_from env 0 GENESIS_PREV_HASH table)" "cv_head (verify_from env 0 GENESIS_PREV_HASH table) = prev"
    using assms(1,4) previousChainHash_head [OF assms(1)] by (simp_all add: chained_table_def verifyChain_def)
  have "ae_id (chained_row env q t' prev rid') = rid'" by (simp add: chained_row_def Let_def)
  then show ?thesis
    using assms(5,6) chained_row_links [OF assms(2)] chained_row_links [OF assms(3)]
    by (simp add: verifyChain_def verify_append [OF head(1)] head(2))
qed

text \<open>A log that breaks at its second entry: the head of the first is published with the full count.\<close>

lemma broken_head_published:
  "(let rows = log_run example_env example_log;
        broken = [rows ! 0, (rows ! 1)\<lparr>ae_ipAddress := Some ''x''\<rparr>, rows ! 2];
        h = snd (publishChainHead example_env broken [] 9)
    in cv_verified (verifyChain example_env broken GENESIS_PREV_HASH) = 1 \<and> ch_count h = 3 \<and>
       Some (ch_hash h) = storedChainHash (rows ! 0))"
  by code_simp

end
