(* ===== verification/KeyRing.thy ===== *)
theory KeyRing
  imports Decimal
begin

text \<open>
  Rotation of the session-signing keys, \<^verbatim>\<open>backend/src/services/jwtKeyRing.ts\<close>: the class
  \<open>JwtKeyRing\<close> as the record \<open>key_ring\<close> and one function per method. The token library is the record
  \<open>jwt_library\<close>, and \<open>jwt_laws\<close> what it promises; generated secrets and the clock (in seconds) are
  arguments. Signing options other than the key id, the interval timer and the process-wide instance
  are left out. The lemmas follow one key through rotations: what it signed is accepted exactly until
  its grace period has elapsed.
\<close>

section \<open>Keys\<close>

record jwt_key =
  jk_kid :: string
  jk_secret :: string
  jk_createdAt :: int
  jk_retiredAt :: "int option"

definition DEFAULT_GRACE_PERIOD_SECONDS :: int where
  "DEFAULT_GRACE_PERIOD_SECONDS = 7 * 24 * 60 * 60"

definition DEFAULT_ROTATION_INTERVAL_SECONDS :: int where
  "DEFAULT_ROTATION_INTERVAL_SECONDS = 30 * 24 * 60 * 60"

definition intFromEnv :: "string option \<Rightarrow> int \<Rightarrow> int" where
  "intFromEnv v fallback =
     (case js_parse_int (or_else v '''') of None \<Rightarrow> fallback | Some n \<Rightarrow> if 0 \<le> n then n else fallback)"

record key_ring =
  kr_keys :: "jwt_key list"
  kr_gracePeriodSeconds :: int
  kr_rotationIntervalSeconds :: int

definition new_key_ring :: "jwt_key list \<Rightarrow> int option \<Rightarrow> int option \<Rightarrow> js_error + key_ring" where
  "new_key_ring ks grace interval =
     (if length ks = 0 then Inl (ErrorMsg ''JwtKeyRing requires at least one signing key'')
      else Inr \<lparr>kr_keys = sort_key (\<lambda>k. - jk_createdAt k) ks,
                kr_gracePeriodSeconds = or_else grace DEFAULT_GRACE_PERIOD_SECONDS,
                kr_rotationIntervalSeconds = or_else interval DEFAULT_ROTATION_INTERVAL_SECONDS\<rparr>)"

definition currentKey :: "key_ring \<Rightarrow> jwt_key option" where
  "currentKey r = (case kr_keys r of [] \<Rightarrow> None | k # _ \<Rightarrow> Some k)"

definition isRetired :: "jwt_key \<Rightarrow> bool" where
  "isRetired k \<longleftrightarrow> jk_retiredAt k \<noteq> None"

definition isWithinGrace :: "key_ring \<Rightarrow> jwt_key \<Rightarrow> int \<Rightarrow> bool" where
  "isWithinGrace r k now = (case jk_retiredAt k of None \<Rightarrow> False | Some t \<Rightarrow> now \<le> t + kr_gracePeriodSeconds r)"

definition key_expired :: "key_ring \<Rightarrow> jwt_key \<Rightarrow> int \<Rightarrow> bool" where
  "key_expired r k now = (case jk_retiredAt k of None \<Rightarrow> False | Some t \<Rightarrow> t + kr_gracePeriodSeconds r < now)"

definition activeKeys :: "key_ring \<Rightarrow> int \<Rightarrow> jwt_key list" where
  "activeKeys r now = filter (\<lambda>k. \<not> isRetired k \<or> isWithinGrace r k now) (kr_keys r)"

section \<open>Tokens\<close>

datatype jwt_error = No_active_key | Jwt_failure string

record 'p jwt_library =
  jwt_sign :: "'p \<Rightarrow> string \<Rightarrow> string \<Rightarrow> string"
  jwt_kid :: "string \<Rightarrow> string option"
  jwt_verify :: "string \<Rightarrow> string \<Rightarrow> string + 'p"

definition sign_token :: "'p jwt_library \<Rightarrow> key_ring \<Rightarrow> 'p \<Rightarrow> js_error + string" where
  "sign_token lib r payload =
     (case currentKey r of None \<Rightarrow> Inl TypeError | Some k \<Rightarrow> Inr (jwt_sign lib payload (jk_secret k) (jk_kid k)))"

fun try_keys :: "'p jwt_library \<Rightarrow> string \<Rightarrow> jwt_key list \<Rightarrow> jwt_error \<Rightarrow> jwt_error + 'p" where
  "try_keys lib token [] lastError = Inl lastError"
| "try_keys lib token (k # ks) lastError =
     (case jwt_verify lib token (jk_secret k) of
        Inr payload \<Rightarrow> Inr payload
      | Inl e \<Rightarrow> try_keys lib token ks (Jwt_failure e))"

definition verify_token :: "'p jwt_library \<Rightarrow> key_ring \<Rightarrow> string \<Rightarrow> int \<Rightarrow> jwt_error + 'p" where
  "verify_token lib r token now =
     (let candidates = (case truthy_text (jwt_kid lib token) of
            Some kid \<Rightarrow> filter (\<lambda>k. jk_kid k = kid) (activeKeys r now)
          | None \<Rightarrow> activeKeys r now)
      in if length candidates = 0 then Inl No_active_key
         else try_keys lib token candidates No_active_key)"

section \<open>Rotation\<close>

definition prune_keys :: "key_ring \<Rightarrow> int \<Rightarrow> key_ring \<times> string list" where
  "prune_keys r now =
     (r\<lparr>kr_keys := filter (\<lambda>k. \<not> key_expired r k now) (kr_keys r)\<rparr>,
      map jk_kid (filter (\<lambda>k. key_expired r k now) (kr_keys r)))"

definition rotate_keys :: "key_ring \<Rightarrow> int \<Rightarrow> string option \<Rightarrow> string option \<Rightarrow> string \<Rightarrow> js_error + (key_ring \<times> jwt_key)" where
  "rotate_keys r now next_secret next_kid random_secret =
     (case kr_keys r of
        [] \<Rightarrow> Inl TypeError
      | previous # rest \<Rightarrow>
          let previous' = (if isRetired previous then previous else previous\<lparr>jk_retiredAt := Some now\<rparr>);
              key = \<lparr>jk_kid = or_else next_kid (''k'' @ show_int now @ ''-'' @ digits (length (kr_keys r))),
                     jk_secret = or_else next_secret random_secret, jk_createdAt = now, jk_retiredAt = None\<rparr>
          in Inr (fst (prune_keys (r\<lparr>kr_keys := key # previous' # rest\<rparr>) now), key))"

definition snapshot_keys :: "key_ring \<Rightarrow> jwt_key list" where
  "snapshot_keys r = kr_keys r"

section \<open>Keys from the environment\<close>

definition env_list :: "string option \<Rightarrow> string list" where
  "env_list v = filter (\<lambda>s. s \<noteq> []) (map js_trim (js_split CHR '','' (or_else (truthy_text v) '''')))"

definition previous_keys :: "string list \<Rightarrow> string list \<Rightarrow> int \<Rightarrow> jwt_key list" where
  "previous_keys secrets kids now =
     map (\<lambda>index. \<lparr>jk_kid = (if index < length kids then kids ! index else ''previous-'' @ digits (index + 1)),
                   jk_secret = secrets ! index, jk_createdAt = now - (int index + 1), jk_retiredAt = Some now\<rparr>)
       [0..<length secrets]"

definition loadKeyRingFromEnv :: "(string \<Rightarrow> string option) \<Rightarrow> int \<Rightarrow> js_error + key_ring" where
  "loadKeyRingFromEnv env now =
     (let current = \<lparr>jk_kid = or_else (truthy_text (env ''JWT_KEY_KID'')) ''current'',
                     jk_secret = or_else (truthy_text (env ''JWT_SECRET'')) ''default_jwt_secret'',
                     jk_createdAt = now, jk_retiredAt = None\<rparr>;
          keys = current # previous_keys (env_list (env ''JWT_PREVIOUS_SECRETS'')) (env_list (env ''JWT_PREVIOUS_KEY_KIDS'')) now
      in new_key_ring keys
           (Some (intFromEnv (env ''JWT_KEY_GRACE_PERIOD_SECONDS'') DEFAULT_GRACE_PERIOD_SECONDS))
           (Some (intFromEnv (env ''JWT_KEY_ROTATION_INTERVAL_SECONDS'') DEFAULT_ROTATION_INTERVAL_SECONDS)))"

section \<open>The library's promise and the calls\<close>

text \<open>A token names the key that signed it, verifies under that key's secret and under no other.\<close>

definition jwt_laws :: "'p jwt_library \<Rightarrow> bool" where
  "jwt_laws lib \<longleftrightarrow>
     (\<forall>p s k. jwt_kid lib (jwt_sign lib p s k) = Some k \<and>
        (\<forall>s'. if s' = s then jwt_verify lib (jwt_sign lib p s k) s' = Inr p
              else (\<exists>e. jwt_verify lib (jwt_sign lib p s k) s' = Inl e)))"

datatype ring_call = Rotate int "string option" "string option" string | Prune int

fun call_time :: "ring_call \<Rightarrow> int" where
  "call_time (Rotate now s k rnd) = now"
| "call_time (Prune now) = now"

fun call_secret :: "ring_call \<Rightarrow> string option" where
  "call_secret (Rotate now s k rnd) = Some (or_else s rnd)"
| "call_secret (Prune now) = None"

fun ring_step :: "key_ring \<Rightarrow> ring_call \<Rightarrow> key_ring" where
  "ring_step r (Rotate now s k rnd) = (case rotate_keys r now s k rnd of Inl _ \<Rightarrow> r | Inr (r', _) \<Rightarrow> r')"
| "ring_step r (Prune now) = fst (prune_keys r now)"

fun first_rotation :: "ring_call list \<Rightarrow> int option" where
  "first_rotation [] = None"
| "first_rotation (Rotate now s k rnd # cs) = Some now"
| "first_rotation (Prune now # cs) = first_rotation cs"

section \<open>One key through rotations\<close>

definition ring_inv :: "jwt_key \<Rightarrow> int \<Rightarrow> int \<Rightarrow> int option \<Rightarrow> key_ring \<Rightarrow> bool" where
  "ring_inv k0 g t R r \<longleftrightarrow> kr_gracePeriodSeconds r = g \<and> kr_keys r \<noteq> [] \<and> \<not> isRetired (hd (kr_keys r)) \<and>
     (\<forall>k\<in>set (kr_keys r). jk_secret k = jk_secret k0 \<longrightarrow> k = k0\<lparr>jk_retiredAt := R\<rparr>) \<and>
     (R = None \<longrightarrow> hd (kr_keys r) = k0 \<and> (\<forall>k\<in>set (tl (kr_keys r)). jk_secret k \<noteq> jk_secret k0)) \<and>
     ((case R of None \<Rightarrow> True | Some t1 \<Rightarrow> t \<le> t1 + g) \<longrightarrow> k0\<lparr>jk_retiredAt := R\<rparr> \<in> set (kr_keys r))"

lemma prune_inv:
  assumes inv: "ring_inv k0 g t R r" and time: "now \<le> t"
  shows "ring_inv k0 g t R (fst (prune_keys r now))"
proof -
  obtain k ks where ks: "kr_keys r = k # ks" using inv by (auto simp: ring_inv_def neq_Nil_conv)
  have kept: "\<not> key_expired r k now" using inv ks by (auto simp: ring_inv_def isRetired_def key_expired_def)
  have alive: "\<not> key_expired r (k0\<lparr>jk_retiredAt := R\<rparr>) now" if "case R of None \<Rightarrow> True | Some t1 \<Rightarrow> t \<le> t1 + g"
    using that inv time by (auto simp: ring_inv_def key_expired_def split: option.splits)
  show ?thesis
    using inv ks kept alive by (auto simp: ring_inv_def prune_keys_def)
qed

lemma rotate_inv:
  assumes inv: "ring_inv k0 g t R r" and time: "now \<le> t" and fresh: "or_else s rnd \<noteq> jk_secret k0"
    and rot: "rotate_keys r now s kid rnd = Inr (r', key)"
  shows "ring_inv k0 g t (case R of None \<Rightarrow> Some now | Some t1 \<Rightarrow> Some t1) r'"
proof -
  obtain k ks where ks: "kr_keys r = k # ks" using inv by (auto simp: ring_inv_def neq_Nil_conv)
  have unretired: "\<not> isRetired k" using inv ks by (simp add: ring_inv_def)
  let ?new = "\<lparr>jk_kid = or_else kid (''k'' @ show_int now @ ''-'' @ digits (length (kr_keys r))),
      jk_secret = or_else s rnd, jk_createdAt = now, jk_retiredAt = None\<rparr>"
  let ?r = "r\<lparr>kr_keys := ?new # k\<lparr>jk_retiredAt := Some now\<rparr> # ks\<rparr>"
  have r': "r' = fst (prune_keys ?r now)" using rot unretired by (auto simp: rotate_keys_def ks Let_def)
  have "ring_inv k0 g t (case R of None \<Rightarrow> Some now | Some t1 \<Rightarrow> Some t1) ?r"
  proof (cases R)
    case None
    then show ?thesis using inv ks fresh by (auto simp: ring_inv_def isRetired_def)
  next
    case (Some t1)
    have "jk_secret k \<noteq> jk_secret k0" using inv ks Some unretired by (auto simp: ring_inv_def isRetired_def)
    then show ?thesis using inv ks fresh Some by (auto simp: ring_inv_def isRetired_def)
  qed
  then show ?thesis unfolding r' by (rule prune_inv [OF _ time])
qed

lemma rotate_total: "kr_keys r \<noteq> [] \<Longrightarrow> \<exists>r' key. rotate_keys r now s kid rnd = Inr (r', key)"
  by (auto simp: rotate_keys_def Let_def split: list.split)

lemma ring_run_inv:
  "ring_inv k0 g t R r \<Longrightarrow> list_all (\<lambda>c. call_time c \<le> t \<and> call_secret c \<noteq> Some (jk_secret k0)) cs \<Longrightarrow>
     ring_inv k0 g t (case R of None \<Rightarrow> first_rotation cs | Some t1 \<Rightarrow> Some t1) (foldl ring_step r cs)"
proof (induction cs arbitrary: r R)
  case Nil
  then show ?case by (cases R) simp_all
next
  case (Cons c cs)
  show ?case
  proof (cases c)
    case (Rotate now s kid rnd)
    obtain r' key where rot: "rotate_keys r now s kid rnd = Inr (r', key)"
      using rotate_total Cons.prems(1) by (metis ring_inv_def)
    have "ring_inv k0 g t (case R of None \<Rightarrow> Some now | Some t1 \<Rightarrow> Some t1) r'"
      using rotate_inv [OF Cons.prems(1) _ _ rot] Cons.prems(2) Rotate by simp
    from Cons.IH [OF this] Cons.prems(2) Rotate rot show ?thesis by (cases R) simp_all
  next
    case (Prune now)
    have "ring_inv k0 g t R (fst (prune_keys r now))"
      using prune_inv [OF Cons.prems(1)] Cons.prems(2) Prune by simp
    from Cons.IH [OF this] Cons.prems(2) Prune show ?thesis by (cases R) simp_all
  qed
qed

lemma try_keys_result:
  assumes "jwt_laws lib"
  shows "try_keys lib (jwt_sign lib p s kid) ks e = Inr p' \<longleftrightarrow> p' = p \<and> (\<exists>k\<in>set ks. jk_secret k = s)"
proof (induction ks arbitrary: e)
  case Nil
  then show ?case by simp
next
  case (Cons k ks)
  have law: "if jk_secret k = s then jwt_verify lib (jwt_sign lib p s kid) (jk_secret k) = Inr p
      else (\<exists>e. jwt_verify lib (jwt_sign lib p s kid) (jk_secret k) = Inl e)"
    using assms unfolding jwt_laws_def by blast
  show ?case
  proof (cases "jk_secret k = s")
    case True
    then show ?thesis using law by auto
  next
    case False
    then obtain e' where "jwt_verify lib (jwt_sign lib p s kid) (jk_secret k) = Inl e'" using law by auto
    then show ?thesis using Cons.IH False by simp
  qed
qed

lemma verify_token_result:
  assumes "jwt_laws lib"
  shows "verify_token lib r (jwt_sign lib p s kid) now = Inr p' \<longleftrightarrow>
    p' = p \<and> (\<exists>k\<in>set (activeKeys r now). jk_secret k = s \<and> (kid = [] \<or> jk_kid k = kid))"
proof -
  have "jwt_kid lib (jwt_sign lib p s kid) = Some kid" using assms unfolding jwt_laws_def by blast
  then show ?thesis
    by (auto simp: verify_token_def Let_def truthy_text_def try_keys_result [OF assms] filter_empty_conv)
qed

section \<open>Properties\<close>

text \<open>
  Rotating the signing key does not cut sessions off early and does not keep them alive: a token
  signed by the ring's current key is accepted after any rotations and prunings exactly while that key
  has not been rotated out or its first rotation is no longer ago than the grace period, whatever keys
  came after it, provided no other key has the same secret.
\<close>

theorem token_lives_through_grace:
  assumes "jwt_laws lib" and "currentKey r = Some k0" and "jk_retiredAt k0 = None"
    and "\<forall>k\<in>set (tl (kr_keys r)). jk_secret k \<noteq> jk_secret k0"
    and "sign_token lib r payload = Inr token"
    and "list_all (\<lambda>c. call_time c \<le> t \<and> call_secret c \<noteq> Some (jk_secret k0)) cs"
  shows "verify_token lib (foldl ring_step r cs) token t = Inr payload \<longleftrightarrow>
    (case first_rotation cs of None \<Rightarrow> True | Some t1 \<Rightarrow> t \<le> t1 + kr_gracePeriodSeconds r)"
proof -
  let ?r = "foldl ring_step r cs" and ?k = "k0\<lparr>jk_retiredAt := first_rotation cs\<rparr>"
  obtain ks where ks: "kr_keys r = k0 # ks" using assms(2) by (auto simp: currentKey_def split: list.splits)
  have "k0\<lparr>jk_retiredAt := None\<rparr> = k0" using assms(3) by (cases k0) simp
  then have "ring_inv k0 (kr_gracePeriodSeconds r) t None r"
    using ks assms(3,4) by (auto simp: ring_inv_def isRetired_def)
  from ring_run_inv [OF this assms(6)]
  have inv: "ring_inv k0 (kr_gracePeriodSeconds r) t (first_rotation cs) ?r" by simp
  have token: "token = jwt_sign lib payload (jk_secret k0) (jk_kid k0)"
    using assms(2,5) by (simp add: sign_token_def)
  have "(\<exists>k\<in>set (activeKeys ?r t). jk_secret k = jk_secret k0 \<and> (jk_kid k0 = [] \<or> jk_kid k = jk_kid k0)) \<longleftrightarrow>
      ?k \<in> set (activeKeys ?r t)"
  proof
    assume "\<exists>k\<in>set (activeKeys ?r t). jk_secret k = jk_secret k0 \<and> (jk_kid k0 = [] \<or> jk_kid k = jk_kid k0)"
    then obtain k where k: "k \<in> set (activeKeys ?r t)" "jk_secret k = jk_secret k0" by blast
    then have "k \<in> set (kr_keys ?r)" by (simp add: activeKeys_def)
    with k inv have "k = ?k" unfolding ring_inv_def by blast
    with k(1) show "?k \<in> set (activeKeys ?r t)" by simp
  next
    assume "?k \<in> set (activeKeys ?r t)"
    then show "\<exists>k\<in>set (activeKeys ?r t). jk_secret k = jk_secret k0 \<and> (jk_kid k0 = [] \<or> jk_kid k = jk_kid k0)"
      by (rule bexI [rotated]) simp
  qed
  also have "\<dots> \<longleftrightarrow> (case first_rotation cs of None \<Rightarrow> True | Some t1 \<Rightarrow> t \<le> t1 + kr_gracePeriodSeconds r)"
    using inv by (auto simp: ring_inv_def activeKeys_def isRetired_def isWithinGrace_def split: option.splits)
  finally show ?thesis unfolding token verify_token_result [OF assms(1)] by simp
qed

text \<open>A library whose tokens are the secret, the key id and the payload after the lengths of the first two.\<close>

definition unpack_token :: "string \<Rightarrow> string \<times> string \<times> string" where
  "unpack_token token =
     (let m = length (takeWhile (\<lambda>c. c = CHR ''a'') token);
          rest = drop (m + 1) token;
          n = length (takeWhile (\<lambda>c. c = CHR ''a'') rest);
          body = drop (n + 1) rest
      in (take m body, take n (drop m body), drop (m + n) body))"

definition plain_library :: "string jwt_library" where
  "plain_library =
     \<lparr>jwt_sign = (\<lambda>p s k. replicate (length s) CHR ''a'' @ CHR ''b'' # replicate (length k) CHR ''a'' @ CHR ''b'' # s @ k @ p),
      jwt_kid = (\<lambda>token. Some (fst (snd (unpack_token token)))),
      jwt_verify = (\<lambda>token s. if fst (unpack_token token) = s then Inr (snd (snd (unpack_token token)))
                              else Inl ''invalid signature'')\<rparr>"

lemma unpack_sign:
  "unpack_token (replicate (length s) CHR ''a'' @ CHR ''b'' # replicate (length k) CHR ''a'' @ CHR ''b'' # s @ k @ p) =
   (s, k, p)"
proof -
  have run: "takeWhile (\<lambda>c. c = CHR ''a'') (replicate n CHR ''a'' @ CHR ''b'' # xs) = replicate n CHR ''a''" for n xs
    by (induction n) simp_all
  show ?thesis by (simp add: unpack_token_def Let_def run)
qed

lemma plain_library_laws: "jwt_laws plain_library"
  by (auto simp: jwt_laws_def plain_library_def unpack_sign)

definition example_ring :: key_ring where
  "example_ring = \<lparr>kr_keys = [\<lparr>jk_kid = ''k1'', jk_secret = ''s1'', jk_createdAt = 0, jk_retiredAt = None\<rparr>],
     kr_gracePeriodSeconds = 100, kr_rotationIntervalSeconds = 1000\<rparr>"

lemma token_lives_through_grace_witness:
  "verify_token plain_library (foldl ring_step example_ring [Rotate 10 None None ''s2'', Prune 90])
     (jwt_sign plain_library ''user'' ''s1'' ''k1'') 110 = Inr ''user'' \<and>
   verify_token plain_library (foldl ring_step example_ring [Rotate 10 None None ''s2'', Prune 90])
     (jwt_sign plain_library ''user'' ''s1'' ''k1'') 111 \<noteq> Inr ''user''"
proof -
  let ?k = "\<lparr>jk_kid = ''k1'', jk_secret = ''s1'', jk_createdAt = 0, jk_retiredAt = None\<rparr>"
  let ?token = "jwt_sign plain_library ''user'' ''s1'' ''k1''"
  have facts: "currentKey example_ring = Some ?k" "sign_token plain_library example_ring ''user'' = Inr ?token"
      "\<forall>k\<in>set (tl (kr_keys example_ring)). jk_secret k \<noteq> jk_secret ?k"
    by (simp_all add: example_ring_def currentKey_def sign_token_def)
  have result: "verify_token plain_library (foldl ring_step example_ring [Rotate 10 None None ''s2'', Prune 90]) ?token t =
      Inr ''user'' \<longleftrightarrow> t \<le> 110" if "90 \<le> t" for t
    using token_lives_through_grace [OF plain_library_laws facts(1) _ facts(3) facts(2), of t "[Rotate 10 None None ''s2'', Prune 90]"]
      that by (simp add: example_ring_def)
  show ?thesis using result [of 110] result [of 111] by simp
qed

end
