(* ===== verification/Outbox.thy ===== *)
theory Outbox
  imports Prelude
begin

text \<open>
  The transactional outbox, \<^verbatim>\<open>backend/src/services/transactionalOutbox.ts\<close>. The table is the list of
  its rows under the code's queries, ids given in increasing order. A pass of the relay is its read and
  then one row at a time, so several relays can be interleaved and any of them can die at any point:
  \<open>outbox_step\<close> is one such event, with what each relay still holds and what the publisher has accepted
  as part of the state. The lemmas show that no event is lost and none is invented.
\<close>

section \<open>Rows\<close>

definition DEFAULT_OUTBOX_BATCH_SIZE :: nat where
  "DEFAULT_OUTBOX_BATCH_SIZE = 100"

definition DEFAULT_OUTBOX_RETENTION_MS :: int where
  "DEFAULT_OUTBOX_RETENTION_MS = 7 * 24 * 60 * 60 * 1000"

record outbox_input =
  oi_idempotencyKey :: string
  oi_topic :: string
  oi_payload :: js_value
  oi_occurredAt :: "int option"

record outbox_event =
  oe_idempotencyKey :: string
  oe_topic :: string
  oe_payload :: js_value
  oe_occurredAt :: int

record outbox_row =
  or_id :: nat
  or_event :: outbox_event
  or_createdAt :: int
  or_publishedAt :: "int option"
  or_attempts :: nat
  or_lastError :: "string option"

record outbox_table =
  ot_rows :: "outbox_row list"
  ot_nextId :: nat

datatype write_result = Written | Unique_violation

definition create_row :: "outbox_table \<Rightarrow> outbox_event \<Rightarrow> int \<Rightarrow> outbox_table \<times> write_result" where
  "create_row tb ev now =
     (if list_ex (\<lambda>r. oe_idempotencyKey (or_event r) = oe_idempotencyKey ev) (ot_rows tb) then (tb, Unique_violation)
      else (tb\<lparr>ot_rows := ot_rows tb @ [\<lparr>or_id = ot_nextId tb, or_event = ev, or_createdAt = now, or_publishedAt = None,
                                          or_attempts = 0, or_lastError = None\<rparr>],
               ot_nextId := ot_nextId tb + 1\<rparr>, Written))"

definition event_of_input :: "outbox_input \<Rightarrow> int \<Rightarrow> outbox_event" where
  "event_of_input i now = \<lparr>oe_idempotencyKey = oi_idempotencyKey i, oe_topic = oi_topic i, oe_payload = oi_payload i,
     oe_occurredAt = or_else (oi_occurredAt i) now\<rparr>"

definition enqueueOutboxEvent :: "outbox_table \<Rightarrow> outbox_input \<Rightarrow> int \<Rightarrow> outbox_table" where
  "enqueueOutboxEvent tb i now =
     (case create_row tb (event_of_input i now) now of (tb', Written) \<Rightarrow> tb' | (tb', Unique_violation) \<Rightarrow> tb)"

section \<open>Relay\<close>

definition pending_batch :: "outbox_table \<Rightarrow> nat \<Rightarrow> outbox_row list" where
  "pending_batch tb batchSize = take batchSize (sort_key or_id (filter (\<lambda>r. or_publishedAt r = None) (ot_rows tb)))"

definition mark_published :: "outbox_table \<Rightarrow> nat \<Rightarrow> int \<Rightarrow> outbox_table" where
  "mark_published tb i now =
     tb\<lparr>ot_rows := map (\<lambda>r. if or_id r = i \<and> or_publishedAt r = None
                             then r\<lparr>or_publishedAt := Some now, or_lastError := None\<rparr> else r) (ot_rows tb)\<rparr>"

definition mark_failed :: "outbox_table \<Rightarrow> nat \<Rightarrow> string \<Rightarrow> outbox_table" where
  "mark_failed tb i message =
     tb\<lparr>ot_rows := map (\<lambda>r. if or_id r = i then r\<lparr>or_attempts := or_attempts r + 1, or_lastError := Some (take 1000 message)\<rparr>
                             else r) (ot_rows tb)\<rparr>"

text \<open>
  What happens to one row: the publisher accepts it and it is marked; it refuses it; or it accepts it and
  the mark fails. The result is the table, the events the publisher accepted and whether the row counts
  as published.
\<close>

datatype row_outcome = Accepted | Refused string | Accepted_unmarked string

definition relay_row :: "outbox_table \<Rightarrow> outbox_row \<Rightarrow> row_outcome \<Rightarrow> int \<Rightarrow> outbox_table \<times> outbox_event list \<times> bool" where
  "relay_row tb row outcome now =
     (case outcome of
        Accepted \<Rightarrow> (mark_published tb (or_id row) now, [or_event row], True)
      | Refused message \<Rightarrow> (mark_failed tb (or_id row) message, [], False)
      | Accepted_unmarked message \<Rightarrow> (mark_failed tb (or_id row) message, [or_event row], False))"

fun relay_rows :: "outbox_table \<Rightarrow> outbox_row list \<Rightarrow> (outbox_row \<Rightarrow> row_outcome) \<Rightarrow> int \<Rightarrow> nat \<Rightarrow> nat \<Rightarrow>
    outbox_table \<times> outbox_event list \<times> nat \<times> nat" where
  "relay_rows tb [] publisher now published failed = (tb, [], published, failed)"
| "relay_rows tb (row # rows) publisher now published failed =
     (let (tb1, sent, done_row) = relay_row tb row (publisher row) now;
          (tb2, sent2, p, f) = relay_rows tb1 rows publisher now
             (if done_row then published + 1 else published) (if done_row then failed else failed + 1)
      in (tb2, sent @ sent2, p, f))"

record relay_result =
  rr_published :: nat
  rr_failed :: nat
  rr_scanned :: nat

definition publishPendingOutboxEvents :: "outbox_table \<Rightarrow> (outbox_row \<Rightarrow> row_outcome) \<Rightarrow> nat option \<Rightarrow> int \<Rightarrow>
    outbox_table \<times> outbox_event list \<times> relay_result" where
  "publishPendingOutboxEvents tb publisher batchSize now =
     (let rows = pending_batch tb (or_else batchSize DEFAULT_OUTBOX_BATCH_SIZE);
          (tb', sent, published, failed) = relay_rows tb rows publisher now 0 0
      in (tb', sent, \<lparr>rr_published = published, rr_failed = failed, rr_scanned = length rows\<rparr>))"

definition cleanupPublishedOutboxEvents :: "outbox_table \<Rightarrow> int option \<Rightarrow> int \<Rightarrow> outbox_table \<times> nat" where
  "cleanupPublishedOutboxEvents tb retentionMs now =
     (let cutoff = now - or_else retentionMs DEFAULT_OUTBOX_RETENTION_MS;
          old = (\<lambda>r. case or_publishedAt r of None \<Rightarrow> False | Some t \<Rightarrow> t < cutoff)
      in (tb\<lparr>ot_rows := filter (\<lambda>r. \<not> old r) (ot_rows tb)\<rparr>, length (filter old (ot_rows tb))))"

section \<open>Interleaved relays\<close>

record outbox_state =
  os_table :: outbox_table
  os_held :: "nat \<Rightarrow> outbox_row list"
  os_sent :: "outbox_event list"

definition outbox_init :: outbox_state where
  "outbox_init = \<lparr>os_table = \<lparr>ot_rows = [], ot_nextId = 0\<rparr>, os_held = (\<lambda>_. []), os_sent = []\<rparr>"

text \<open>
  \<open>Relay_row w\<close> is the next row of relay \<open>w\<close>; \<open>Relay_dies w True\<close> is its end between the publisher's
  acceptance of the next row and the mark, and \<open>Relay_dies w False\<close> its end at any other point.
\<close>

datatype outbox_call =
    Enqueue outbox_input int
  | Relay_read nat nat
  | Relay_row nat row_outcome int
  | Relay_dies nat bool
  | Cleanup "int option" int

fun outbox_step :: "outbox_state \<Rightarrow> outbox_call \<Rightarrow> outbox_state" where
  "outbox_step s (Enqueue i now) = s\<lparr>os_table := enqueueOutboxEvent (os_table s) i now\<rparr>"
| "outbox_step s (Relay_read w n) = s\<lparr>os_held := (os_held s)(w := pending_batch (os_table s) n)\<rparr>"
| "outbox_step s (Relay_row w outcome now) =
     (case os_held s w of
        [] \<Rightarrow> s
      | row # rows \<Rightarrow>
          (let (tb, sent, _) = relay_row (os_table s) row outcome now
           in s\<lparr>os_table := tb, os_held := (os_held s)(w := rows), os_sent := os_sent s @ sent\<rparr>))"
| "outbox_step s (Relay_dies w accepted) =
     (case os_held s w of
        [] \<Rightarrow> s
      | row # rows \<Rightarrow> s\<lparr>os_held := (os_held s)(w := []), os_sent := os_sent s @ (if accepted then [or_event row] else [])\<rparr>)"
| "outbox_step s (Cleanup retention now) = s\<lparr>os_table := fst (cleanupPublishedOutboxEvents (os_table s) retention now)\<rparr>"

section \<open>What the steps keep\<close>

definition row_pending :: "outbox_row \<Rightarrow> bool" where
  "row_pending r \<longleftrightarrow> or_publishedAt r = None"

definition enqueued :: "outbox_call list \<Rightarrow> outbox_event set" where
  "enqueued cs = {event_of_input i now | i now. Enqueue i now \<in> set cs}"

definition known :: "outbox_state \<Rightarrow> string \<Rightarrow> bool" where
  "known s k \<longleftrightarrow> (\<exists>r\<in>set (ot_rows (os_table s)). oe_idempotencyKey (or_event r) = k) \<or>
     (\<exists>ev\<in>set (os_sent s). oe_idempotencyKey ev = k)"

definition rows_ok :: "outbox_event set \<Rightarrow> outbox_state \<Rightarrow> bool" where
  "rows_ok E s \<longleftrightarrow> distinct (map or_id (ot_rows (os_table s))) \<and>
     (\<forall>r\<in>set (ot_rows (os_table s)). or_id r < ot_nextId (os_table s) \<and> or_event r \<in> E \<and>
        (or_publishedAt r \<noteq> None \<longrightarrow> or_event r \<in> set (os_sent s)))"

definition held_ok :: "outbox_event set \<Rightarrow> outbox_state \<Rightarrow> bool" where
  "held_ok E s \<longleftrightarrow> (\<forall>w. \<forall>h\<in>set (os_held s w). or_id h < ot_nextId (os_table s) \<and> or_event h \<in> E \<and>
     (\<forall>r\<in>set (ot_rows (os_table s)). or_id r = or_id h \<longrightarrow> or_event r = or_event h))"

definition outbox_inv :: "outbox_event set \<Rightarrow> outbox_state \<Rightarrow> bool" where
  "outbox_inv E s \<longleftrightarrow> rows_ok E s \<and> held_ok E s \<and> set (os_sent s) \<subseteq> E \<and> (\<forall>ev\<in>E. known s (oe_idempotencyKey ev))"

lemma map_row_ids: "(\<And>r. or_id (f r) = or_id r) \<Longrightarrow> map or_id (map f rows) = map or_id rows"
  by simp

lemma ok_mono:
  "rows_ok E s \<Longrightarrow> E \<subseteq> F \<Longrightarrow> rows_ok F s" "held_ok E s \<Longrightarrow> E \<subseteq> F \<Longrightarrow> held_ok F s"
  unfolding rows_ok_def held_ok_def by blast+

lemma enqueue_inv:
  assumes "outbox_inv E s"
  shows "outbox_inv (insert (event_of_input i now) E) (outbox_step s (Enqueue i now))"
proof (cases "list_ex (\<lambda>r. oe_idempotencyKey (or_event r) = oi_idempotencyKey i) (ot_rows (os_table s))")
  case True
  then have same: "enqueueOutboxEvent (os_table s) i now = os_table s"
    by (simp add: enqueueOutboxEvent_def create_row_def event_of_input_def)
  have "known s (oi_idempotencyKey i)" using True by (auto simp: known_def list_ex_iff)
  then have "outbox_inv (insert (event_of_input i now) E) s"
    using assms ok_mono [of E s "insert (event_of_input i now) E"] by (auto simp: outbox_inv_def event_of_input_def)
  then show ?thesis by (simp add: same)
next
  case False
  let ?r = "\<lparr>or_id = ot_nextId (os_table s), or_event = event_of_input i now, or_createdAt = now, or_publishedAt = None,
      or_attempts = 0, or_lastError = None\<rparr>"
  have tb: "ot_rows (enqueueOutboxEvent (os_table s) i now) = ot_rows (os_table s) @ [?r]"
      "ot_nextId (enqueueOutboxEvent (os_table s) i now) = ot_nextId (os_table s) + 1"
    using False by (simp_all add: enqueueOutboxEvent_def create_row_def event_of_input_def)
  have "ot_nextId (os_table s) \<notin> or_id ` set (ot_rows (os_table s))" using assms by (force simp: outbox_inv_def rows_ok_def)
  then have "rows_ok (insert (event_of_input i now) E) (outbox_step s (Enqueue i now))"
    using assms by (auto simp: outbox_inv_def rows_ok_def tb less_Suc_eq)
  moreover have "held_ok (insert (event_of_input i now) E) (outbox_step s (Enqueue i now))"
    using assms by (fastforce simp: outbox_inv_def held_ok_def tb less_Suc_eq)
  moreover have "known (outbox_step s (Enqueue i now)) k" if "known s k \<or> k = oi_idempotencyKey i" for k
    using that by (auto simp: known_def tb event_of_input_def)
  ultimately show ?thesis
    using assms by (auto simp: outbox_inv_def event_of_input_def)
qed

lemma row_update_inv:
  assumes inv: "outbox_inv E s"
    and held: "\<And>w. set (held w) \<subseteq> set (os_held s w)" and subset: "set sent \<subseteq> E"
    and rows: "ot_rows tb = map f (ot_rows (os_table s))" and nextId: "ot_nextId tb = ot_nextId (os_table s)"
    and keep: "\<And>r. or_id (f r) = or_id r" "\<And>r. or_event (f r) = or_event r"
    and published: "\<And>r. r \<in> set (ot_rows (os_table s)) \<Longrightarrow> or_publishedAt r = None \<Longrightarrow> or_publishedAt (f r) \<noteq> None \<Longrightarrow>
      or_event r \<in> set sent"
  shows "outbox_inv E (s\<lparr>os_table := tb, os_held := held, os_sent := os_sent s @ sent\<rparr>)" (is "outbox_inv E ?s")
proof -
  have "distinct (map or_id (map f (ot_rows (os_table s))))"
    using inv by (simp only: map_row_ids [of f, OF keep(1)] outbox_inv_def rows_ok_def)
  moreover have "or_event r \<in> set (os_sent s @ sent)"
    if "r \<in> set (ot_rows (os_table s))" "or_publishedAt (f r) \<noteq> None" for r
    using inv published [OF that(1) _ that(2)] that(1)
    by (cases "or_publishedAt r") (auto simp: outbox_inv_def rows_ok_def)
  ultimately have "rows_ok E ?s"
    using inv by (auto simp: outbox_inv_def rows_ok_def rows nextId keep)
  moreover have "held_ok E ?s"
    using inv held by (fastforce simp: outbox_inv_def held_ok_def rows nextId keep)
  moreover have "known ?s k" if "known s k" for k
    using that by (auto simp: known_def rows keep)
  ultimately show ?thesis using inv subset by (auto simp: outbox_inv_def)
qed

lemma held_row:
  assumes "outbox_inv E s" "os_held s w = row # rows"
  shows "or_event row \<in> E" "\<And>r. r \<in> set (ot_rows (os_table s)) \<Longrightarrow> or_id r = or_id row \<Longrightarrow> or_event r = or_event row"
proof -
  have "row \<in> set (os_held s w)" using assms(2) by simp
  then show "or_event row \<in> E" "\<And>r. r \<in> set (ot_rows (os_table s)) \<Longrightarrow> or_id r = or_id row \<Longrightarrow> or_event r = or_event row"
    using assms(1) unfolding outbox_inv_def held_ok_def by blast+
qed

lemma relay_row_inv:
  assumes inv: "outbox_inv E s" and h: "os_held s w = row # rows"
  shows "outbox_inv E (outbox_step s (Relay_row w outcome now))"
proof -
  note row = held_row [OF inv h]
  have held: "set (((os_held s)(w := rows)) v) \<subseteq> set (os_held s v)" for v using h by auto
  show ?thesis
  proof (cases outcome)
    case Accepted
    have "outbox_inv E (s\<lparr>os_table := mark_published (os_table s) (or_id row) now, os_held := (os_held s)(w := rows),
        os_sent := os_sent s @ [or_event row]\<rparr>)"
      by (rule row_update_inv [OF inv held, where f = "\<lambda>r. if or_id r = or_id row \<and> or_publishedAt r = None
          then r\<lparr>or_publishedAt := Some now, or_lastError := None\<rparr> else r"])
        (use row in \<open>auto simp: mark_published_def split: if_splits\<close>)
    then show ?thesis using h Accepted by (simp add: relay_row_def)
  next
    case (Refused m)
    have "outbox_inv E (s\<lparr>os_table := mark_failed (os_table s) (or_id row) m, os_held := (os_held s)(w := rows),
        os_sent := os_sent s @ []\<rparr>)"
      by (rule row_update_inv [OF inv held, where f = "\<lambda>r. if or_id r = or_id row
          then r\<lparr>or_attempts := or_attempts r + 1, or_lastError := Some (take 1000 m)\<rparr> else r"])
        (auto simp: mark_failed_def split: if_splits)
    then show ?thesis using h Refused by (simp add: relay_row_def)
  next
    case (Accepted_unmarked m)
    have "outbox_inv E (s\<lparr>os_table := mark_failed (os_table s) (or_id row) m, os_held := (os_held s)(w := rows),
        os_sent := os_sent s @ [or_event row]\<rparr>)"
      by (rule row_update_inv [OF inv held, where f = "\<lambda>r. if or_id r = or_id row
          then r\<lparr>or_attempts := or_attempts r + 1, or_lastError := Some (take 1000 m)\<rparr> else r"])
        (use row in \<open>auto simp: mark_failed_def split: if_splits\<close>)
    then show ?thesis using h Accepted_unmarked by (simp add: relay_row_def)
  qed
qed

lemma relay_dies_inv:
  assumes inv: "outbox_inv E s" and h: "os_held s w = row # rows"
  shows "outbox_inv E (outbox_step s (Relay_dies w accepted))"
proof -
  have "or_event row \<in> E" by (rule held_row [OF inv h])
  then have "outbox_inv E (s\<lparr>os_table := os_table s, os_held := (os_held s)(w := []),
      os_sent := os_sent s @ (if accepted then [or_event row] else [])\<rparr>)"
    by (intro row_update_inv [OF inv, where f = "\<lambda>r. r"]) auto
  then show ?thesis using h by simp
qed

lemma pending_batch_rows: "set (pending_batch tb n) \<subseteq> set (ot_rows tb)"
  by (auto simp: pending_batch_def dest: in_set_takeD)

lemma relay_read_inv:
  assumes inv: "outbox_inv E s"
  shows "outbox_inv E (outbox_step s (Relay_read w n))"
proof -
  have unique: "or_event r = or_event h"
    if "r \<in> set (ot_rows (os_table s))" "h \<in> set (ot_rows (os_table s))" "or_id r = or_id h" for r h
    using inv that by (auto simp: outbox_inv_def rows_ok_def distinct_map inj_on_def)
  have "rows_ok E (outbox_step s (Relay_read w n))" using inv by (simp add: outbox_inv_def rows_ok_def)
  moreover have "held_ok E (outbox_step s (Relay_read w n))"
    unfolding held_ok_def
  proof (intro allI ballI)
    fix v h
    assume "h \<in> set (os_held (outbox_step s (Relay_read w n)) v)"
    then consider "h \<in> set (os_held s v)" | "h \<in> set (ot_rows (os_table s))"
      using pending_batch_rows [of "os_table s" n] by (auto split: if_splits)
    then show "or_id h < ot_nextId (os_table (outbox_step s (Relay_read w n))) \<and> or_event h \<in> E \<and>
        (\<forall>r\<in>set (ot_rows (os_table (outbox_step s (Relay_read w n)))). or_id r = or_id h \<longrightarrow> or_event r = or_event h)"
    proof cases
      case 1
      then show ?thesis using inv by (simp add: outbox_inv_def held_ok_def)
    next
      case 2
      then have "or_id h < ot_nextId (os_table s)" "or_event h \<in> E"
        using inv by (simp_all add: outbox_inv_def rows_ok_def)
      with unique [OF _ 2] show ?thesis by simp
    qed
  qed
  ultimately show ?thesis using inv by (auto simp: outbox_inv_def known_def)
qed

lemma cleanup_inv:
  assumes inv: "outbox_inv E s"
  shows "outbox_inv E (outbox_step s (Cleanup retention now))"
proof -
  obtain tb' where tb: "tb' = fst (cleanupPublishedOutboxEvents (os_table s) retention now)" by blast
  have rows: "set (ot_rows tb') \<subseteq> set (ot_rows (os_table s))" "ot_nextId tb' = ot_nextId (os_table s)"
      "distinct (map or_id (ot_rows tb'))"
    using inv by (auto simp: tb cleanupPublishedOutboxEvents_def Let_def outbox_inv_def rows_ok_def distinct_map_filter)
  have kept: "r \<in> set (ot_rows tb') \<or> or_event r \<in> set (os_sent s)" if "r \<in> set (ot_rows (os_table s))" for r
    using inv that
    by (cases "or_publishedAt r") (auto simp: tb cleanupPublishedOutboxEvents_def Let_def outbox_inv_def rows_ok_def)
  have "rows_ok E (s\<lparr>os_table := tb'\<rparr>)" using inv rows by (auto simp: outbox_inv_def rows_ok_def)
  moreover have "held_ok E (s\<lparr>os_table := tb'\<rparr>)" using inv rows by (fastforce simp: outbox_inv_def held_ok_def)
  moreover have "known (s\<lparr>os_table := tb'\<rparr>) k" if "known s k" for k
    using that kept by (auto simp: known_def)
  ultimately have "outbox_inv E (s\<lparr>os_table := tb'\<rparr>)" using inv by (auto simp: outbox_inv_def)
  then show ?thesis by (simp add: tb)
qed

lemma outbox_run_inv: "outbox_inv (enqueued cs) (foldl outbox_step outbox_init cs)"
proof (induction cs rule: rev_induct)
  case Nil
  then show ?case by (simp add: outbox_inv_def rows_ok_def held_ok_def outbox_init_def enqueued_def)
next
  case (snoc c cs)
  let ?s = "foldl outbox_step outbox_init cs"
  have same: "enqueued (cs @ [c]) = enqueued cs" if "\<And>i now. c \<noteq> Enqueue i now" using that by (auto simp: enqueued_def)
  show ?case
  proof (cases c)
    case (Enqueue i now)
    have "enqueued (cs @ [c]) = insert (event_of_input i now) (enqueued cs)" by (auto simp: enqueued_def Enqueue)
    with enqueue_inv [OF snoc, of i now] Enqueue show ?thesis by simp
  next
    case (Relay_read w n)
    with relay_read_inv [OF snoc] same show ?thesis by simp
  next
    case (Relay_row w outcome now)
    with relay_row_inv [OF snoc, of w _ _ outcome now] snoc same show ?thesis by (cases "os_held ?s w") simp_all
  next
    case (Relay_dies w accepted)
    with relay_dies_inv [OF snoc, of w _ _ accepted] snoc same show ?thesis by (cases "os_held ?s w") simp_all
  next
    case (Cleanup retention now)
    with cleanup_inv [OF snoc] same show ?thesis by simp
  qed
qed

section \<open>Draining\<close>

definition pending_list :: "outbox_table \<Rightarrow> outbox_row list" where
  "pending_list tb = sort_key or_id (filter row_pending (ot_rows tb))"

lemma pending_batch_list: "pending_batch tb n = take n (pending_list tb)"
  by (simp add: pending_batch_def pending_list_def row_pending_def [abs_def])

lemma mark_published_pending: "pending_list (mark_published tb i now) = filter (\<lambda>r. or_id r \<noteq> i) (pending_list tb)"
proof -
  have "filter row_pending (map (\<lambda>r. if or_id r = i \<and> or_publishedAt r = None
      then r\<lparr>or_publishedAt := Some now, or_lastError := None\<rparr> else r) rows) =
      filter (\<lambda>r. or_id r \<noteq> i) (filter row_pending rows)" for rows
    by (induction rows) (auto simp: row_pending_def)
  then show ?thesis by (simp add: pending_list_def mark_published_def filter_sort)
qed

lemma relay_all_accepted:
  "(\<And>r. publisher r = Accepted) \<Longrightarrow> relay_rows tb rows publisher now p f =
     (foldl (\<lambda>t r. mark_published t (or_id r) now) tb rows, map or_event rows, p + length rows, f)"
  by (induction rows arbitrary: tb p f) (simp_all add: relay_row_def Let_def)

lemma fold_marks_pending:
  "pending_list (foldl (\<lambda>t r. mark_published t (or_id r) now) tb rows) =
   filter (\<lambda>r. or_id r \<notin> or_id ` set rows) (pending_list tb)"
  by (induction rows arbitrary: tb) (auto simp: mark_published_pending intro: filter_cong)

lemma filter_not_taken:
  "distinct (map f xs) \<Longrightarrow> filter (\<lambda>x. f x \<notin> f ` set (take n xs)) xs = drop n xs"
proof (induction xs arbitrary: n)
  case Nil
  then show ?case by simp
next
  case (Cons x xs)
  show ?case
  proof (cases n)
    case 0
    then show ?thesis by simp
  next
    case (Suc m)
    have "filter (\<lambda>y. f y \<notin> insert (f x) (f ` set (take m xs))) xs = filter (\<lambda>y. f y \<notin> f ` set (take m xs)) xs"
      using Cons.prems by (intro filter_cong) (auto simp: image_iff)
    then show ?thesis using Cons Suc by simp
  qed
qed

lemma pass_accepted:
  assumes "distinct (map or_id (ot_rows tb))" "\<And>r. publisher r = Accepted"
    and "publishPendingOutboxEvents tb publisher (Some n) now = (tb', sent, result)"
  shows "pending_list tb' = drop n (pending_list tb)" "sent = map or_event (take n (pending_list tb))"
    "distinct (map or_id (ot_rows tb'))"
proof -
  have distinct: "distinct (map or_id (pending_list tb))"
    using assms(1) by (simp add: pending_list_def distinct_map inj_on_def)
  have result: "tb' = foldl (\<lambda>t r. mark_published t (or_id r) now) tb (take n (pending_list tb))"
      "sent = map or_event (take n (pending_list tb))"
    using assms(3) by (simp_all add: publishPendingOutboxEvents_def relay_all_accepted [OF assms(2)] pending_batch_list Let_def)
  show "sent = map or_event (take n (pending_list tb))" by (rule result)
  show "pending_list tb' = drop n (pending_list tb)"
    unfolding result fold_marks_pending by (rule filter_not_taken [OF distinct])
  have "map or_id (ot_rows (foldl (\<lambda>t r. mark_published t (or_id r) now) tb rows)) = map or_id (ot_rows tb)" for rows
    by (induction rows arbitrary: tb) (simp_all add: mark_published_def map_row_ids [unfolded map_map] comp_def if_distrib)
  from this [of "take n (pending_list tb)"] assms(1) show "distinct (map or_id (ot_rows tb'))"
    unfolding result by (simp only:)
qed

text \<open>\<open>k\<close> passes of one relay, the \<open>i\<close>th at time \<open>now i\<close>, and what they hand to the publisher.\<close>

fun relay_passes :: "outbox_table \<Rightarrow> (outbox_row \<Rightarrow> row_outcome) \<Rightarrow> nat \<Rightarrow> (nat \<Rightarrow> int) \<Rightarrow> nat \<Rightarrow> outbox_table \<times> outbox_event list" where
  "relay_passes tb publisher n now 0 = (tb, [])"
| "relay_passes tb publisher n now (Suc k) =
     (let (tb1, sent, _) = publishPendingOutboxEvents tb publisher (Some n) (now k);
          (tb2, sent2) = relay_passes tb1 publisher n now k
      in (tb2, sent @ sent2))"

lemma passes_accepted:
  assumes "\<And>r. publisher r = Accepted"
  shows "distinct (map or_id (ot_rows tb)) \<Longrightarrow> relay_passes tb publisher n now k = (tb', sent) \<Longrightarrow>
    pending_list tb' = drop (k * n) (pending_list tb) \<and> sent = map or_event (take (k * n) (pending_list tb))"
proof (induction k arbitrary: tb sent)
  case 0
  then show ?case by simp
next
  case (Suc k)
  obtain tb1 sent1 result where pass: "publishPendingOutboxEvents tb publisher (Some n) (now k) = (tb1, sent1, result)"
    by (metis prod_cases3)
  obtain tb2 sent2 where rest: "relay_passes tb1 publisher n now k = (tb2, sent2)" by (meson surj_pair)
  note p = pass_accepted [OF Suc.prems(1) assms pass]
  have "tb' = tb2" "sent = sent1 @ sent2" using Suc.prems(2) pass rest by simp_all
  with Suc.IH [OF p(3)] rest show ?case
    by (simp add: p(1,2) take_add drop_drop add.commute flip: map_append)
qed

section \<open>Properties\<close>

text \<open>
  C4. Over any interleaving of producers, relays that may die at any point, and cleanups, no event is
  lost and none invented: every enqueued key has an event that a row still holds pending or that the
  publisher has accepted, every accepted event is one that was enqueued, and a row marked as published
  holds an event the publisher accepted.
\<close>

theorem outbox_loses_nothing:
  "(\<forall>i now. Enqueue i now \<in> set cs \<longrightarrow>
      (\<exists>r\<in>set (ot_rows (os_table (foldl outbox_step outbox_init cs))).
         or_publishedAt r = None \<and> oe_idempotencyKey (or_event r) = oi_idempotencyKey i) \<or>
      (\<exists>ev\<in>set (os_sent (foldl outbox_step outbox_init cs)). oe_idempotencyKey ev = oi_idempotencyKey i)) \<and>
   (\<forall>ev\<in>set (os_sent (foldl outbox_step outbox_init cs)). \<exists>i now. Enqueue i now \<in> set cs \<and> ev = event_of_input i now) \<and>
   (\<forall>r\<in>set (ot_rows (os_table (foldl outbox_step outbox_init cs))).
      or_publishedAt r \<noteq> None \<longrightarrow> or_event r \<in> set (os_sent (foldl outbox_step outbox_init cs)))"
proof -
  let ?s = "foldl outbox_step outbox_init cs"
  note inv = outbox_run_inv [of cs]
  have marked: "\<forall>r\<in>set (ot_rows (os_table ?s)). or_publishedAt r \<noteq> None \<longrightarrow> or_event r \<in> set (os_sent ?s)"
    using inv by (simp add: outbox_inv_def rows_ok_def)
  have "(\<exists>r\<in>set (ot_rows (os_table ?s)). or_publishedAt r = None \<and> oe_idempotencyKey (or_event r) = oi_idempotencyKey i) \<or>
      (\<exists>ev\<in>set (os_sent ?s). oe_idempotencyKey ev = oi_idempotencyKey i)" if "Enqueue i now \<in> set cs" for i now
  proof -
    have "event_of_input i now \<in> enqueued cs" using that by (auto simp: enqueued_def)
    then have "known ?s (oe_idempotencyKey (event_of_input i now))" using inv unfolding outbox_inv_def by blast
    then have "known ?s (oi_idempotencyKey i)" by (simp add: event_of_input_def)
    then consider r where "r \<in> set (ot_rows (os_table ?s))" "oe_idempotencyKey (or_event r) = oi_idempotencyKey i"
      | "\<exists>ev\<in>set (os_sent ?s). oe_idempotencyKey ev = oi_idempotencyKey i"
      unfolding known_def by blast
    then show ?thesis
    proof cases
      case (1 r)
      with marked show ?thesis by (cases "or_publishedAt r") auto
    qed blast
  qed
  moreover have "\<forall>ev\<in>set (os_sent ?s). \<exists>i now. Enqueue i now \<in> set cs \<and> ev = event_of_input i now"
    using inv unfolding outbox_inv_def enqueued_def by blast
  ultimately show ?thesis using marked by blast
qed

definition example_input :: "string \<Rightarrow> outbox_input" where
  "example_input k = \<lparr>oi_idempotencyKey = k, oi_topic = ''loan.approved'', oi_payload = JNull, oi_occurredAt = None\<rparr>"

definition example_outbox :: "outbox_call list" where
  "example_outbox = [Enqueue (example_input ''a'') 1, Enqueue (example_input ''b'') 2, Relay_read 0 10, Relay_read 1 10,
     Relay_row 0 Accepted 3, Relay_dies 0 True, Cleanup (Some 0) 9]"

lemma outbox_loses_nothing_witness:
  "(\<exists>r\<in>set (ot_rows (os_table (foldl outbox_step outbox_init example_outbox))).
      or_publishedAt r = None \<and> oe_idempotencyKey (or_event r) = ''b'') \<or>
   (\<exists>ev\<in>set (os_sent (foldl outbox_step outbox_init example_outbox)). oe_idempotencyKey ev = ''b'')"
  using outbox_loses_nothing [of example_outbox, THEN conjunct1, rule_format, of "example_input ''b''" 2]
  by (simp add: example_outbox_def example_input_def)

text \<open>
  C39. While the publisher accepts, the relay drains the outbox in order: after \<open>k\<close> passes with a batch
  of \<open>n\<close> rows exactly the \<open>k * n\<close> oldest pending events have been handed over, oldest first, and the
  others are still pending; enough passes leave none.
\<close>

theorem outbox_drains_in_order:
  assumes "distinct (map or_id (ot_rows tb))" and "\<forall>r. publisher r = Accepted"
    and "relay_passes tb publisher n now k = (tb', sent)"
  shows "sent = map or_event (take (k * n) (pending_list tb)) \<and> pending_list tb' = drop (k * n) (pending_list tb) \<and>
    (length (pending_list tb) \<le> k * n \<longrightarrow> pending_list tb' = [])"
  using passes_accepted [of publisher tb n now k tb' sent] assms by simp

definition example_table :: outbox_table where
  "example_table = enqueueOutboxEvent (enqueueOutboxEvent (enqueueOutboxEvent \<lparr>ot_rows = [], ot_nextId = 0\<rparr>
     (example_input ''a'') 1) (example_input ''b'') 2) (example_input ''c'') 3"

lemma outbox_drains_in_order_witness:
  "pending_list (fst (relay_passes example_table (\<lambda>_. Accepted) 2 (\<lambda>_. 5) 2)) = []"
proof -
  obtain tb' sent where pass: "relay_passes example_table (\<lambda>_. Accepted) 2 (\<lambda>_. 5) 2 = (tb', sent)" by (meson surj_pair)
  have distinct: "distinct (map or_id (ot_rows example_table))" by code_simp
  have "length (pending_list example_table) \<le> 2 * 2" by code_simp
  with outbox_drains_in_order [OF distinct _ pass] pass show ?thesis by simp
qed

end
