(* ===== verification/Erasure.thy ===== *)
theory Erasure
  imports Prelude
begin

text \<open>
  Erasure of personal data and the legal holds that block it,
  \<^verbatim>\<open>backend/src/services/erasureWorkflow.ts\<close>. The module's map of requests is the state; the map of
  holds is only ever written and is left out, a hold living in the request it is attached to (every
  hold is created for one request). Identifiers, the clock and the answer of the active-loan query are
  arguments; audit entries are left out. The lemmas show that nothing is erased under an active hold.
\<close>

section \<open>Requests and holds\<close>

datatype erasure_status = Pending | Legal_hold | Approved | Completed | Rejected

datatype hold_reason = Active_loan | Regulatory_investigation | Tax_compliance | Fraud_review | Other_reason

record legal_hold =
  lh_holdId :: string
  lh_reason :: hold_reason
  lh_createdBy :: string
  lh_createdAt :: int
  lh_expiresAt :: "int option"
  lh_liftedAt :: "int option"
  lh_liftedBy :: "string option"

record scrub_entry =
  se_table :: string
  se_field :: string
  se_rowId :: string
  se_scrubbedAt :: int

record erasure_request =
  er_requestId :: string
  er_walletAddress :: string
  er_status :: erasure_status
  er_createdAt :: int
  er_updatedAt :: int
  er_completedAt :: "int option"
  er_holds :: "legal_hold list"
  er_scrubLog :: "scrub_entry list"

type_synonym erasure_store = "(string, erasure_request) js_map"

definition createLegalHold :: "string \<Rightarrow> hold_reason \<Rightarrow> string \<Rightarrow> int option \<Rightarrow> int \<Rightarrow> legal_hold" where
  "createLegalHold holdId reason createdBy expiresAt now =
     \<lparr>lh_holdId = holdId, lh_reason = reason, lh_createdBy = createdBy, lh_createdAt = now, lh_expiresAt = expiresAt,
      lh_liftedAt = None, lh_liftedBy = None\<rparr>"

definition isHoldActive :: "legal_hold \<Rightarrow> int \<Rightarrow> bool" where
  "isHoldActive h now =
     (if lh_liftedAt h \<noteq> None then False
      else case lh_expiresAt h of Some t \<Rightarrow> if t \<le> now then False else True | None \<Rightarrow> True)"

definition activeHoldsFor :: "erasure_request \<Rightarrow> int \<Rightarrow> legal_hold list" where
  "activeHoldsFor r now = filter (\<lambda>h. isHoldActive h now) (er_holds r)"

section \<open>Lifecycle\<close>

text \<open>A query that fails is logged and counts as no active loan.\<close>

definition detectAutomaticHolds :: "js_error + bool \<Rightarrow> string \<Rightarrow> int \<Rightarrow> legal_hold list" where
  "detectAutomaticHolds active_loan holdId now =
     (case active_loan of
        Inl _ \<Rightarrow> []
      | Inr found \<Rightarrow> if found then [createLegalHold holdId Active_loan ''system'' None now] else [])"

definition submitErasureRequest :: "erasure_store \<Rightarrow> string \<Rightarrow> js_error + bool \<Rightarrow> string \<Rightarrow> string \<Rightarrow> int \<Rightarrow>
    erasure_store \<times> erasure_request" where
  "submitErasureRequest st wallet active_loan requestId holdId now =
     (case find (\<lambda>r. er_walletAddress r = wallet \<and> (er_status r = Pending \<or> er_status r = Legal_hold)) (map_values st) of
        Some existing \<Rightarrow> (st, existing)
      | None \<Rightarrow>
          (let holds = detectAutomaticHolds active_loan holdId now;
               request = \<lparr>er_requestId = requestId, er_walletAddress = wallet,
                 er_status = (if length holds > 0 then Legal_hold else Pending), er_createdAt = now, er_updatedAt = now,
                 er_completedAt = None, er_holds = holds, er_scrubLog = []\<rparr>
           in (map_set st requestId request, request)))"

definition request_not_found :: "string \<Rightarrow> js_error" where
  "request_not_found rid = ErrorMsg (''Erasure request '' @ rid @ '' not found'')"

definition attachLegalHold :: "erasure_store \<Rightarrow> string \<Rightarrow> legal_hold \<Rightarrow> int \<Rightarrow> js_error + (erasure_store \<times> erasure_request)" where
  "attachLegalHold st rid hold now =
     (case map_get st rid of
        None \<Rightarrow> Inl (request_not_found rid)
      | Some r \<Rightarrow>
          (let r' = r\<lparr>er_holds := er_holds r @ [hold], er_status := Legal_hold, er_updatedAt := now\<rparr>
           in Inr (map_set st rid r', r')))"

fun lift_first :: "string \<Rightarrow> string \<Rightarrow> int \<Rightarrow> legal_hold list \<Rightarrow> legal_hold list" where
  "lift_first hid admin now [] = []"
| "lift_first hid admin now (h # hs) =
     (if lh_holdId h = hid then h\<lparr>lh_liftedAt := Some now, lh_liftedBy := Some admin\<rparr> # hs
      else h # lift_first hid admin now hs)"

definition liftLegalHold :: "erasure_store \<Rightarrow> string \<Rightarrow> string \<Rightarrow> string \<Rightarrow> int \<Rightarrow>
    js_error + (erasure_store \<times> erasure_request)" where
  "liftLegalHold st rid hid admin now =
     (case map_get st rid of
        None \<Rightarrow> Inl (request_not_found rid)
      | Some r \<Rightarrow>
          if \<not> list_ex (\<lambda>h. lh_holdId h = hid) (er_holds r)
          then Inl (ErrorMsg (''Hold '' @ hid @ '' not found on request '' @ rid))
          else
            (let r1 = r\<lparr>er_holds := lift_first hid admin now (er_holds r), er_updatedAt := now\<rparr>;
                 r2 = (if length (activeHoldsFor r1 now) = 0 then r1\<lparr>er_status := Pending\<rparr> else r1)
             in Inr (map_set st rid r2, r2)))"

definition decideErasureRequest :: "erasure_store \<Rightarrow> string \<Rightarrow> bool \<Rightarrow> int \<Rightarrow> js_error + (erasure_store \<times> erasure_request)" where
  "decideErasureRequest st rid approve now =
     (case map_get st rid of
        None \<Rightarrow> Inl (request_not_found rid)
      | Some r \<Rightarrow>
          if approve \<and> length (activeHoldsFor r now) > 0
          then Inl (ErrorMsg (''Cannot approve erasure: '' @ digits (length (activeHoldsFor r now)) @
                 '' active legal hold(s) remain''))
          else
            (let r' = r\<lparr>er_status := (if approve then Approved else Rejected), er_updatedAt := now\<rparr>
             in Inr (map_set st rid r', r')))"

primrec status_text :: "erasure_status \<Rightarrow> string" where
  "status_text Pending = ''pending''"
| "status_text Legal_hold = ''legal_hold''"
| "status_text Approved = ''approved''"
| "status_text Completed = ''completed''"
| "status_text Rejected = ''rejected''"

definition scrubbed_tables :: "(string \<times> string) list" where
  "scrubbed_tables = [(''Borrower'', ''stellarAddress''), (''NotificationPreference'', ''email''),
     (''BorrowerCredential'', ''encryptedData''), (''AuditLog'', ''actorAddress'')]"

definition executeErasure :: "erasure_store \<Rightarrow> string \<Rightarrow> int \<Rightarrow> js_error + (erasure_store \<times> erasure_request)" where
  "executeErasure st rid now =
     (case map_get st rid of
        None \<Rightarrow> Inl (request_not_found rid)
      | Some r \<Rightarrow>
          if er_status r \<noteq> Approved
          then Inl (ErrorMsg (''Cannot execute erasure: request is in status '' @ [CHR 0x27] @ status_text (er_status r) @ [CHR 0x27]))
          else
            (let log = map (\<lambda>(table, field). \<lparr>se_table = table, se_field = field, se_rowId = er_walletAddress r,
                         se_scrubbedAt = now\<rparr>) scrubbed_tables;
                 r' = r\<lparr>er_scrubLog := log, er_status := Completed, er_completedAt := Some now, er_updatedAt := now\<rparr>
             in Inr (map_set st rid r', r')))"

section \<open>Calls\<close>

datatype erasure_call =
    Submit string "js_error + bool" string string int
  | Attach string legal_hold int
  | Lift string string string int
  | Decide string bool int
  | Execute string int

fun call_at :: "erasure_call \<Rightarrow> int" where
  "call_at (Submit w q rid hid now) = now"
| "call_at (Attach rid h now) = now"
| "call_at (Lift rid hid a now) = now"
| "call_at (Decide rid ok now) = now"
| "call_at (Execute rid now) = now"

definition kept_on_error :: "erasure_store \<Rightarrow> js_error + (erasure_store \<times> erasure_request) \<Rightarrow> erasure_store" where
  "kept_on_error st res = (case res of Inl _ \<Rightarrow> st | Inr (st', _) \<Rightarrow> st')"

fun erasure_step :: "erasure_store \<Rightarrow> erasure_call \<Rightarrow> erasure_store" where
  "erasure_step st (Submit w q rid hid now) = fst (submitErasureRequest st w q rid hid now)"
| "erasure_step st (Attach rid h now) = kept_on_error st (attachLegalHold st rid h now)"
| "erasure_step st (Lift rid hid a now) = kept_on_error st (liftLegalHold st rid hid a now)"
| "erasure_step st (Decide rid ok now) = kept_on_error st (decideErasureRequest st rid ok now)"
| "erasure_step st (Execute rid now) = kept_on_error st (executeErasure st rid now)"

section \<open>An approved request has no active hold\<close>

text \<open>An approved request was approved by a call, and none of its holds is active from then on.\<close>

definition cleared :: "erasure_call list \<Rightarrow> int \<Rightarrow> erasure_store \<Rightarrow> bool" where
  "cleared calls T st \<longleftrightarrow> (\<forall>rid r. map_get st rid = Some r \<longrightarrow> er_status r = Approved \<longrightarrow>
     activeHoldsFor r T = [] \<and> (\<exists>t. Decide rid True t \<in> set calls))"

lemma hold_stays_inactive: "\<not> isHoldActive h s \<Longrightarrow> s \<le> t \<Longrightarrow> \<not> isHoldActive h t"
  by (auto simp: isHoldActive_def split: if_splits option.splits)

lemma no_active_later: "activeHoldsFor r s = [] \<Longrightarrow> s \<le> t \<Longrightarrow> activeHoldsFor r t = []"
  by (auto simp: activeHoldsFor_def filter_empty_conv dest: hold_stays_inactive)

lemma lift_first_inactive:
  "\<forall>h\<in>set hs. \<not> isHoldActive h t \<Longrightarrow> \<forall>h\<in>set (lift_first hid a now hs). \<not> isHoldActive h t"
  by (induction hs) (auto simp: isHoldActive_def)

lemma cleared_later: "cleared calls s st \<Longrightarrow> s \<le> t \<Longrightarrow> cleared (calls @ [c]) t st"
  unfolding cleared_def by (fastforce dest: no_active_later)

lemma cleared_update:
  assumes "cleared calls t st" and "er_status r = Approved \<Longrightarrow> activeHoldsFor r t = [] \<and> (\<exists>t. Decide rid True t \<in> set calls)"
  shows "cleared calls t (map_set st rid r)"
  using assms by (auto simp: cleared_def)

lemma step_cleared:
  assumes old: "cleared calls s st" and time: "s \<le> call_at c"
  shows "cleared (calls @ [c]) (call_at c) (erasure_step st c)"
proof -
  note now = cleared_later [OF old time, of c]
  show ?thesis
  proof (cases c)
    case (Submit w q rid hid t)
    with now show ?thesis
      by (auto simp: submitErasureRequest_def Let_def intro: cleared_update split: option.split)
  next
    case (Attach rid h t)
    with now show ?thesis
      by (auto simp: kept_on_error_def attachLegalHold_def Let_def intro: cleared_update split: option.split)
  next
    case (Lift rid hid a t)
    show ?thesis
    proof (cases "map_get st rid")
      case None
      with now Lift show ?thesis by (simp add: kept_on_error_def liftLegalHold_def)
    next
      case (Some r)
      let ?r = "r\<lparr>er_holds := lift_first hid a t (er_holds r), er_updatedAt := t\<rparr>"
      have "er_status r = Approved \<Longrightarrow> activeHoldsFor ?r t = []"
        using now Some Lift lift_first_inactive [of "er_holds r" t hid a t]
        by (auto simp: cleared_def activeHoldsFor_def filter_empty_conv)
      with now Some Lift show ?thesis
        by (auto simp: kept_on_error_def liftLegalHold_def Let_def intro!: cleared_update)
    qed
  next
    case (Decide rid ok t)
    with now show ?thesis
      by (auto simp: kept_on_error_def decideErasureRequest_def activeHoldsFor_def Let_def
          intro!: cleared_update split: option.split)
  next
    case (Execute rid t)
    with now show ?thesis
      by (auto simp: kept_on_error_def executeErasure_def Let_def intro: cleared_update split: option.split)
  qed
qed

lemma run_cleared:
  "sorted (map call_at calls) \<Longrightarrow> (\<And>c. c \<in> set calls \<Longrightarrow> call_at c \<le> t) \<Longrightarrow>
     cleared calls t (foldl erasure_step [] calls)"
proof (induction calls arbitrary: t rule: rev_induct)
  case Nil
  then show ?case by (simp add: cleared_def)
next
  case (snoc c calls)
  have "cleared calls (call_at c) (foldl erasure_step [] calls)"
    using snoc.prems(1) by (intro snoc.IH) (auto simp: sorted_append)
  from step_cleared [OF this order_refl] snoc.prems(2) [of c] show ?case
    unfolding cleared_def by (auto dest: no_active_later)
qed

section \<open>Properties\<close>


definition example_erasure :: "erasure_call list" where
  "example_erasure = [Submit ''GA'' (Inr True) ''r'' ''h'' 1, Decide ''r'' True 2, Lift ''r'' ''h'' ''admin'' 3, Decide ''r'' True 4]"


text \<open>A decision does not ask for the status: a completed request is approved and executed again.\<close>

lemma completed_executed_again:
  "map_option (\<lambda>r. (er_status r, er_completedAt r)) (map_get (foldl erasure_step [] (example_erasure @
     [Execute ''r'' 5, Decide ''r'' False 6, Decide ''r'' True 7, Execute ''r'' 8])) ''r'') = Some (Completed, Some 8)"
  by code_simp

text \<open>A failing active-loan query lets the request through without a hold.\<close>

lemma failed_query_no_hold:
  "er_status (snd (submitErasureRequest [] ''GA'' (Inl (ErrorMsg e)) ''r'' ''h'' 1)) = Pending"
  by (simp add: submitErasureRequest_def detectAutomaticHolds_def Let_def)

end
