(* ===== verification/Assignment.thy ===== *)
theory Assignment
  imports Prelude "HOL-Library.Product_Lexorder" "HOL-Library.List_Lexorder" "HOL-Library.Char_ord" "HOL-Library.Option_ord" "HOL-Library.Multiset"
begin

text \<open>
  The rotation of loan applications over review staff,
  \<^verbatim>\<open>backend/src/services/assignmentQueue.ts\<close>. The two tables are maps of rows in insertion order under
  the code's queries, and an update of a row that does not exist fails, rolling its transaction back.
  The lemmas show that assignments taken one after the other go round the active reviewers in turn.
\<close>

section \<open>Rows\<close>

datatype reviewer_status = ACTIVE | INACTIVE | ON_LEAVE

record reviewer =
  rv_id :: string
  rv_email :: string
  rv_name :: "string option"
  rv_status :: reviewer_status
  rv_lastAssignedAt :: "int option"

record assigned_application =
  aa_id :: string
  aa_deletedAt :: "int option"
  aa_reviewerId :: "string option"
  aa_reviewerEmail :: "string option"
  aa_assignedAt :: "int option"
  aa_version :: int

record assignment_db =
  ad_reviewers :: "(string, reviewer) js_map"
  ad_applications :: "(string, assigned_application) js_map"
  ad_audit :: "(string \<times> string \<times> string option) list"

section \<open>Selection\<close>

definition isReviewerActive :: "reviewer \<Rightarrow> bool" where
  "isReviewerActive r \<longleftrightarrow> rv_status r = ACTIVE"

text \<open>Never assigned, the value \<open>None\<close>, comes before every time, as minus infinity does.\<close>

definition rotation_key :: "reviewer \<Rightarrow> int option \<times> string" where
  "rotation_key r = (rv_lastAssignedAt r, rv_id r)"

definition selectNextReviewer :: "reviewer list \<Rightarrow> reviewer option" where
  "selectNextReviewer reviewers =
     (let available = filter isReviewerActive reviewers in
      if length available = 0 then None
      else Some (hd (sort_key rotation_key available)))"

section \<open>Assignment\<close>

datatype assignment_error = Row_missing | Assignment_error string string int

datatype not_assigned = No_active_reviewers | Assignment_disabled | Assignment_failed

datatype assignment_result = Assigned string "string option" | Not_assigned not_assigned

definition stamp_reviewer :: "assignment_db \<Rightarrow> string \<Rightarrow> int \<Rightarrow> assignment_error + assignment_db" where
  "stamp_reviewer db rid assignedAt =
     (case map_get (ad_reviewers db) rid of
        None \<Rightarrow> Inl Row_missing
      | Some r \<Rightarrow> Inr (db\<lparr>ad_reviewers := map_set (ad_reviewers db) rid (r\<lparr>rv_lastAssignedAt := Some assignedAt\<rparr>)\<rparr>))"

definition stamp_application :: "assignment_db \<Rightarrow> string \<Rightarrow> string \<Rightarrow> string option \<Rightarrow> int \<Rightarrow> assignment_error + assignment_db" where
  "stamp_application db aid rid email assignedAt =
     (case map_get (ad_applications db) aid of
        None \<Rightarrow> Inl Row_missing
      | Some a \<Rightarrow> Inr (db\<lparr>ad_applications := map_set (ad_applications db) aid
          (a\<lparr>aa_reviewerId := Some rid, aa_reviewerEmail := email, aa_assignedAt := Some assignedAt,
             aa_version := aa_version a + 1\<rparr>)\<rparr>))"

text \<open>The transaction of an assignment to a reviewer that was selected before.\<close>

definition commit_assignment :: "assignment_db \<Rightarrow> string \<Rightarrow> reviewer \<Rightarrow> int \<Rightarrow> assignment_error + assignment_db" where
  "commit_assignment db aid nxt assignedAt =
     (case stamp_reviewer db (rv_id nxt) assignedAt of
        Inl e \<Rightarrow> Inl e
      | Inr db1 \<Rightarrow> stamp_application db1 aid (rv_id nxt) (Some (rv_email nxt)) assignedAt)"

definition assignReviewerToApplication :: "assignment_db \<Rightarrow> string \<Rightarrow> int \<Rightarrow>
    assignment_error + (assignment_db \<times> assignment_result)" where
  "assignReviewerToApplication db aid assignedAt =
     (case selectNextReviewer (filter (\<lambda>r. rv_status r = ACTIVE) (map_values (ad_reviewers db))) of
        None \<Rightarrow> Inr (db, Not_assigned No_active_reviewers)
      | Some nxt \<Rightarrow>
          (case commit_assignment db aid nxt assignedAt of
             Inl e \<Rightarrow> Inl e
           | Inr db' \<Rightarrow> Inr (db', Assigned (rv_id nxt) (Some (rv_email nxt)))))"

definition autoAssignApplicationReviewer :: "assignment_db \<Rightarrow> bool \<Rightarrow> string \<Rightarrow> int \<Rightarrow> assignment_db \<times> assignment_result" where
  "autoAssignApplicationReviewer db assignmentQueueEnabled aid assignedAt =
     (if \<not> assignmentQueueEnabled then (db, Not_assigned Assignment_disabled)
      else case assignReviewerToApplication db aid assignedAt of
        Inl _ \<Rightarrow> (db, Not_assigned Assignment_failed)
      | Inr res \<Rightarrow> res)"

definition reassignApplicationReviewer :: "assignment_db \<Rightarrow> string \<Rightarrow> string \<Rightarrow> string option \<Rightarrow> int \<Rightarrow>
    assignment_error + (assignment_db \<times> string \<times> string)" where
  "reassignApplicationReviewer db aid rid actorAddress now =
     (case map_get (ad_reviewers db) rid of
        None \<Rightarrow> Inl (Assignment_error ''reviewer_not_found'' ''Reviewer not found'' 404)
      | Some r \<Rightarrow>
          if \<not> isReviewerActive r
          then Inl (Assignment_error ''reviewer_inactive'' ''Cannot assign to an inactive or on-leave reviewer'' 409)
          else (case map_get (ad_applications db) aid of
             None \<Rightarrow> Inl (Assignment_error ''application_not_found'' ''Application not found'' 404)
           | Some a \<Rightarrow>
               if aa_deletedAt a \<noteq> None then Inl (Assignment_error ''application_not_found'' ''Application not found'' 404)
               else (case commit_assignment db aid (r\<lparr>rv_id := rid\<rparr>) now of
                  Inl e \<Rightarrow> Inl e
                | Inr db' \<Rightarrow> Inr (db'\<lparr>ad_audit := ad_audit db' @ [(or_else actorAddress ''admin'', rid, aa_reviewerId a)]\<rparr>,
                                  rid, rv_email r))))"

definition createReviewer :: "assignment_db \<Rightarrow> string \<Rightarrow> string \<Rightarrow> string option \<Rightarrow> reviewer_status option \<Rightarrow> assignment_db" where
  "createReviewer db rid email name status =
     db\<lparr>ad_reviewers := map_set (ad_reviewers db) rid \<lparr>rv_id = rid, rv_email = js_lower (js_trim email), rv_name = name,
        rv_status = or_else status ACTIVE, rv_lastAssignedAt = None\<rparr>\<rparr>"

definition updateReviewer :: "assignment_db \<Rightarrow> string \<Rightarrow> string option option \<Rightarrow> string option \<Rightarrow> reviewer_status option \<Rightarrow>
    assignment_error + assignment_db" where
  "updateReviewer db rid name email status =
     (case map_get (ad_reviewers db) rid of
        None \<Rightarrow> Inl Row_missing
      | Some r \<Rightarrow> Inr (db\<lparr>ad_reviewers := map_set (ad_reviewers db) rid
          (r\<lparr>rv_name := or_else name (rv_name r), rv_email := or_else (map_option (\<lambda>e. js_lower (js_trim e)) email) (rv_email r),
             rv_status := or_else status (rv_status r)\<rparr>)\<rparr>))"

section \<open>The rotation\<close>

definition rotation :: "assignment_db \<Rightarrow> string list" where
  "rotation db = map rv_id (sort_key rotation_key (filter isReviewerActive (map_values (ad_reviewers db))))"

definition wf_reviewers :: "assignment_db \<Rightarrow> bool" where
  "wf_reviewers db \<longleftrightarrow> wf_map (ad_reviewers db) \<and> (\<forall>p\<in>set (ad_reviewers db). rv_id (snd p) = fst p)"

definition stamped_before :: "assignment_db \<Rightarrow> int \<Rightarrow> bool" where
  "stamped_before db t \<longleftrightarrow> (\<forall>r\<in>set (map_values (ad_reviewers db)). case rv_lastAssignedAt r of None \<Rightarrow> True | Some s \<Rightarrow> s < t)"

definition stamp :: "string \<Rightarrow> int \<Rightarrow> reviewer \<Rightarrow> reviewer" where
  "stamp rid t r = (if rv_id r = rid then r\<lparr>rv_lastAssignedAt := Some t\<rparr> else r)"

lemma stamp_simps [simp]: "rv_id (stamp rid t r) = rv_id r" "isReviewerActive (stamp rid t r) = isReviewerActive r"
  "rv_id r \<noteq> rid \<Longrightarrow> stamp rid t r = r"
  by (simp_all add: stamp_def isReviewerActive_def)

lemma map_set_stamp:
  assumes "wf_map m" "\<forall>p\<in>set m. rv_id (snd p) = fst p" "map_get m rid = Some r"
  shows "map_set m rid (r\<lparr>rv_lastAssignedAt := Some t\<rparr>) = map (\<lambda>(k, r). (k, stamp rid t r)) m"
  using assms
proof (induction m)
  case Nil
  then show ?case by simp
next
  case (Cons p m)
  have rest: "map (\<lambda>(k, r). (k, stamp rid t r)) m = m" if "rid \<notin> fst ` set m"
  proof (rule map_idI)
    fix q assume "q \<in> set m"
    with that Cons.prems(2) have "rv_id (snd q) \<noteq> rid" by force
    then show "(\<lambda>(k, r). (k, stamp rid t r)) q = q" by (cases q) simp
  qed
  show ?case
  proof (cases "fst p = rid")
    case True
    with Cons.prems have "rid \<notin> fst ` set m" "snd p = r" "rv_id r = rid" by (auto simp: wf_map_def)
    with True rest show ?thesis by (cases p) (simp add: stamp_def)
  next
    case False
    then have "map_set m rid (r\<lparr>rv_lastAssignedAt := Some t\<rparr>) = map (\<lambda>(k, r). (k, stamp rid t r)) m"
      using Cons by (cases p) (auto simp: wf_map_def)
    with False Cons.prems(2) show ?thesis by (cases p) auto
  qed
qed

lemma ids_distinct: "wf_reviewers db \<Longrightarrow> distinct (map rv_id (map_values (ad_reviewers db)))"
proof -
  assume wf: "wf_reviewers db"
  have "map rv_id (map_values (ad_reviewers db)) = map_keys (ad_reviewers db)"
    using wf by (auto simp: wf_reviewers_def)
  then have "distinct (map rv_id (map_values (ad_reviewers db))) = distinct (map_keys (ad_reviewers db))"
    by (rule arg_cong)
  with wf show ?thesis by (simp only: wf_reviewers_def wf_map_def)
qed

lemma key_inj: "distinct (map rv_id rs) \<Longrightarrow> inj_on rotation_key (set rs)"
  by (auto simp: inj_on_def rotation_key_def distinct_map)

lemma sort_stamp:
  assumes distinct: "distinct (map rv_id rs)" and ne: "sort_key rotation_key rs = r # rest"
    and before: "\<forall>r\<in>set rs. case rv_lastAssignedAt r of None \<Rightarrow> True | Some s \<Rightarrow> s < t"
  shows "sort_key rotation_key (map (stamp (rv_id r) t) rs) = rest @ [r\<lparr>rv_lastAssignedAt := Some t\<rparr>]"
proof (rule sort_key_inj_key_eq)
  have mset: "mset rs = mset (r # rest)" by (metis mset_sort ne)
  then have set: "set rs = set (r # rest)" by (rule mset_eq_setD)
  have "mset (map rv_id rs) = mset (map rv_id (r # rest))" using mset by (simp only: mset_map)
  then have "distinct (map rv_id (r # rest))" using distinct by (metis mset_eq_imp_distinct_iff)
  then have "rv_id r \<notin> rv_id ` set rest" by simp
  then have "map (stamp (rv_id r) t) rest = rest" by (intro map_idI stamp_simps) (metis imageI)
  then have "map (stamp (rv_id r) t) (r # rest) = r\<lparr>rv_lastAssignedAt := Some t\<rparr> # rest"
    by (simp add: stamp_def)
  then have "mset (map (stamp (rv_id r) t) rs) = mset (r\<lparr>rv_lastAssignedAt := Some t\<rparr> # rest)"
    using mset by (metis mset_map)
  then show "mset (map (stamp (rv_id r) t) rs) = mset (rest @ [r\<lparr>rv_lastAssignedAt := Some t\<rparr>])" by simp
  show "inj_on rotation_key (set (map (stamp (rv_id r) t) rs))"
    by (rule key_inj) (use distinct in \<open>simp add: comp_def\<close>)
  have "sorted (map rotation_key (r # rest))" by (metis ne sorted_sort_key)
  moreover have "rotation_key q \<le> (Some t, rv_id r)" if "q \<in> set rest" for q
    using before that set by (auto simp: rotation_key_def less_eq_option_def split: option.splits)
  ultimately show "sorted (map rotation_key (rest @ [r\<lparr>rv_lastAssignedAt := Some t\<rparr>]))"
    by (auto simp: sorted_append rotation_key_def)
qed

lemma select_first:
  "selectNextReviewer (filter (\<lambda>r. rv_status r = ACTIVE) rs) =
     (case sort_key rotation_key (filter isReviewerActive rs) of [] \<Rightarrow> None | r # _ \<Rightarrow> Some r)"
proof -
  have "filter (\<lambda>r. rv_status r = ACTIVE) rs = filter isReviewerActive rs"
    by (simp add: isReviewerActive_def [abs_def])
  moreover have "filter isReviewerActive (filter isReviewerActive rs) = filter isReviewerActive rs" by simp
  moreover have "sort_key rotation_key xs = [] \<longleftrightarrow> xs = []" for xs by (metis length_0_conv length_sort)
  ultimately show ?thesis
    by (auto simp: selectNextReviewer_def Let_def split: list.split)
qed

lemma assign_rotates:
  assumes wf: "wf_reviewers db" and before: "stamped_before db t" and app: "map_get (ad_applications db) aid \<noteq> None"
    and ne: "rotation db \<noteq> []"
  obtains db' email where "assignReviewerToApplication db aid t = Inr (db', Assigned (hd (rotation db)) email)"
    "wf_reviewers db'" "\<And>s. t < s \<Longrightarrow> stamped_before db' s" "rotation db' = rotate1 (rotation db)"
    "\<And>a. map_get (ad_applications db') a = None \<longleftrightarrow> map_get (ad_applications db) a = None"
proof -
  let ?rs = "map_values (ad_reviewers db)" and ?m = "ad_reviewers db"
  obtain r rest where sorted: "sort_key rotation_key (filter isReviewerActive ?rs) = r # rest"
    using ne by (cases "sort_key rotation_key (filter isReviewerActive ?rs)") (auto simp: rotation_def)
  then have "r \<in> set ?rs" by (metis filter_is_subset list.set_intros(1) set_sort subset_iff)
  then have get: "map_get ?m (rv_id r) = Some r"
    using wf by (auto simp: wf_reviewers_def wf_map_def)
  let ?m' = "map (\<lambda>(k, q). (k, stamp (rv_id r) t q)) ?m"
  have set: "map_set ?m (rv_id r) (r\<lparr>rv_lastAssignedAt := Some t\<rparr>) = ?m'"
    using wf get by (intro map_set_stamp) (auto simp: wf_reviewers_def)
  have vals: "map_values ?m' = map (stamp (rv_id r) t) ?rs" by (simp add: comp_def split_beta)
  obtain a where a: "map_get (ad_applications db) aid = Some a" using app by blast
  define db' where "db' = db\<lparr>ad_reviewers := ?m', ad_applications := map_set (ad_applications db) aid
    (a\<lparr>aa_reviewerId := Some (rv_id r), aa_reviewerEmail := Some (rv_email r), aa_assignedAt := Some t, aa_version := aa_version a + 1\<rparr>)\<rparr>"
  have hd: "hd (rotation db) = rv_id r" by (simp add: rotation_def sorted)
  have result: "assignReviewerToApplication db aid t = Inr (db', Assigned (hd (rotation db)) (Some (rv_email r)))"
    unfolding assignReviewerToApplication_def select_first sorted hd
    by (simp add: commit_assignment_def stamp_reviewer_def stamp_application_def get a set db'_def)
  have wf': "wf_reviewers db'"
    using wf by (auto simp: wf_reviewers_def db'_def wf_map_def comp_def split_beta)
  have later: "stamped_before db' s" if "t < s" for s
  proof -
    have "case rv_lastAssignedAt (stamp (rv_id r) t q) of None \<Rightarrow> True | Some u \<Rightarrow> u < s" if "q \<in> set ?rs" for q
      using before that \<open>t < s\<close> by (fastforce simp: stamped_before_def stamp_def split: option.splits)
    then show ?thesis by (simp add: stamped_before_def db'_def vals del: map_map)
  qed
  have distinct: "distinct (map rv_id (filter isReviewerActive ?rs))"
    using ids_distinct [OF wf] by (simp add: distinct_map_filter)
  have "filter isReviewerActive (map (stamp (rv_id r) t) ?rs) = map (stamp (rv_id r) t) (filter isReviewerActive ?rs)"
    by (simp add: filter_map comp_def)
  moreover have "sort_key rotation_key (map (stamp (rv_id r) t) (filter isReviewerActive ?rs)) = rest @ [r\<lparr>rv_lastAssignedAt := Some t\<rparr>]"
    by (rule sort_stamp [OF distinct sorted]) (use before in \<open>auto simp: stamped_before_def\<close>)
  ultimately have "rotation db' = rotate1 (rotation db)"
    by (simp add: rotation_def db'_def vals sorted del: map_map)
  moreover have "map_get (ad_applications db') a' = None \<longleftrightarrow> map_get (ad_applications db) a' = None" for a'
    using a by (simp add: db'_def)
  ultimately show ?thesis using that [OF result wf' later] by blast
qed

section \<open>Sequences of assignments\<close>

fun assign_run :: "assignment_db \<Rightarrow> (string \<times> int) list \<Rightarrow> string option list" where
  "assign_run db [] = []"
| "assign_run db ((aid, t) # calls) =
     (case assignReviewerToApplication db aid t of
        Inl _ \<Rightarrow> None # assign_run db calls
      | Inr (db', Assigned rid _) \<Rightarrow> Some rid # assign_run db' calls
      | Inr (db', Not_assigned _) \<Rightarrow> None # assign_run db' calls)"

lemma assign_run_cycles:
  "wf_reviewers db \<Longrightarrow> rotation db \<noteq> [] \<Longrightarrow> sorted_wrt (<) (map snd calls) \<Longrightarrow>
     (\<forall>c\<in>set calls. stamped_before db (snd c) \<and> map_get (ad_applications db) (fst c) \<noteq> None) \<Longrightarrow>
     assign_run db calls = map (\<lambda>i. Some (rotation db ! (i mod length (rotation db)))) [0..<length calls]"
proof (induction calls arbitrary: db)
  case Nil
  then show ?case by simp
next
  case (Cons c calls)
  obtain aid t where c: "c = (aid, t)" by (cases c)
  have first: "stamped_before db t" "map_get (ad_applications db) aid \<noteq> None" using Cons.prems(4) c by auto
  obtain db' email where step: "assignReviewerToApplication db aid t = Inr (db', Assigned (hd (rotation db)) email)"
      "wf_reviewers db'" "\<And>s. t < s \<Longrightarrow> stamped_before db' s" "rotation db' = rotate1 (rotation db)"
      "\<And>a. map_get (ad_applications db') a = None \<longleftrightarrow> map_get (ad_applications db) a = None"
    using assign_rotates [OF Cons.prems(1) first Cons.prems(2)] by blast
  have later: "\<forall>d\<in>set calls. stamped_before db' (snd d) \<and> map_get (ad_applications db') (fst d) \<noteq> None"
    using Cons.prems(3,4) c step(3,5) by auto
  let ?n = "length (rotation db)"
  have "rotation db' ! (i mod length (rotation db')) = rotation db ! (Suc i mod ?n)" for i
    using Cons.prems(2) by (simp add: step(4) nth_rotate1 mod_Suc_eq)
  moreover have "rotation db' \<noteq> []" using step(4) Cons.prems(2) by simp
  ultimately have "assign_run db' calls = map (\<lambda>i. Some (rotation db ! (Suc i mod ?n))) [0..<length calls]"
    using Cons.IH [OF step(2) _ _ later] Cons.prems(3) by simp
  moreover have "hd (rotation db) = rotation db ! (0 mod ?n)" using Cons.prems(2) by (simp add: hd_conv_nth)
  ultimately show ?case
    using step(1) c by (simp add: upt_conv_Cons map_Suc_upt [symmetric] del: upt_Suc)
qed

section \<open>Properties\<close>

text \<open>
  Applications that arrive one after the other are handed out in turn: the assignments run through
  the active reviewers, the least recently assigned first, and start over, so that any as many
  consecutive assignments as there are active reviewers give each of them exactly one.
\<close>

theorem assignments_go_round:
  assumes "wf_reviewers db" and "rotation db \<noteq> []" and "sorted_wrt (<) (map snd calls)"
    and "\<forall>c\<in>set calls. stamped_before db (snd c) \<and> map_get (ad_applications db) (fst c) \<noteq> None"
  shows "assign_run db calls = map (\<lambda>i. Some (rotation db ! (i mod length (rotation db)))) [0..<length calls] \<and>
    distinct (rotation db) \<and>
    set (rotation db) = {rv_id r | r. r \<in> set (map_values (ad_reviewers db)) \<and> rv_status r = ACTIVE}"
proof -
  have "distinct (map rv_id (filter isReviewerActive (map_values (ad_reviewers db))))"
    using ids_distinct [OF assms(1)] by (simp add: distinct_map_filter)
  then have "distinct (rotation db)" by (simp add: rotation_def distinct_map)
  moreover have "set (rotation db) = {rv_id r | r. r \<in> set (map_values (ad_reviewers db)) \<and> rv_status r = ACTIVE}"
    unfolding rotation_def by (auto simp: isReviewerActive_def)
  ultimately show ?thesis using assign_run_cycles [OF assms] by blast
qed

definition example_assignment :: assignment_db where
  "example_assignment =
     \<lparr>ad_reviewers = ad_reviewers (createReviewer (createReviewer (createReviewer
        \<lparr>ad_reviewers = [], ad_applications = [], ad_audit = []\<rparr> ''r1'' ''A@x'' None None) ''r2'' ''b@x'' None (Some ON_LEAVE))
        ''r3'' ''c@x'' None None),
      ad_applications = map (\<lambda>k. (k, \<lparr>aa_id = k, aa_deletedAt = None, aa_reviewerId = None, aa_reviewerEmail = None,
        aa_assignedAt = None, aa_version = 1\<rparr>)) [''x'', ''y'', ''z''],
      ad_audit = []\<rparr>"

lemma assignments_go_round_witness:
  "assign_run example_assignment [(''x'', 1), (''y'', 2), (''z'', 3)] = [Some ''r1'', Some ''r3'', Some ''r1'']"
proof -
  have wf: "wf_reviewers example_assignment" unfolding wf_reviewers_def wf_map_def by code_simp
  have order: "rotation example_assignment = [''r1'', ''r3'']" by code_simp
  have calls: "sorted_wrt (<) (map snd [(''x'', 1 :: int), (''y'', 2), (''z'', 3)])" by simp
  have "\<forall>c\<in>set [(''x'', 1 :: int), (''y'', 2), (''z'', 3)]. stamped_before example_assignment (snd c) \<and>
      map_get (ad_applications example_assignment) (fst c) \<noteq> None"
    by (simp add: stamped_before_def example_assignment_def createReviewer_def)
  from assignments_go_round [OF wf _ calls this] order show ?thesis by (simp add: upt_rec)
qed

text \<open>Two submissions that both select before either commits go to the same reviewer while another is idle.\<close>

lemma concurrent_assignments_collide:
  "(let nxt = selectNextReviewer (map_values (ad_reviewers example_assignment)) in
    case commit_assignment example_assignment ''x'' (the nxt) 1 of
      Inr db1 \<Rightarrow> (case commit_assignment db1 ''y'' (the nxt) 2 of
          Inr db2 \<Rightarrow> map (\<lambda>p. aa_reviewerId (snd p)) (ad_applications db2) = [Some ''r1'', Some ''r1'', None]
        | Inl _ \<Rightarrow> False)
    | Inl _ \<Rightarrow> False)"
  by code_simp

end
