(* ===== verification/Servicing.thy ===== *)
theory Servicing
  imports Prelude
begin

text \<open>
  Transfers of loan servicing, \<^verbatim>\<open>backend/src/services/loanServicing.ts\<close>. The state is the table of
  loans, the table of transfers in the order they were created and the in-app notifications sent; the
  queries of the code are functions of those tables. Identifiers, the clock, the reading of a date, the
  text of a number and of a time, and the key check of the Stellar library are arguments; audit entries
  are left out. The lemmas show that the transfers of a loan form a chain that ends at its servicer.
\<close>

section \<open>Tables\<close>

definition SERVICEABLE_STATUSES :: "string list" where
  "SERVICEABLE_STATUSES = [''Approved'', ''Disbursing'', ''Repaying'']"

record serviced_loan =
  sl_status :: string
  sl_deletedAt :: "int option"
  sl_borrowerAddress :: string
  sl_principal :: rat
  sl_interestRateBps :: int
  sl_servicer :: "string option"
  sl_servicerContact :: "string option"
  sl_version :: int

datatype transfer_status = SCHEDULED | COMPLETED

record servicing_transfer =
  tr_id :: string
  tr_loanId :: string
  tr_fromServicer :: "string option"
  tr_fromServicerContact :: "string option"
  tr_toServicer :: string
  tr_toServicerContact :: string
  tr_effectiveDate :: int
  tr_reason :: string
  tr_status :: transfer_status
  tr_initiatedBy :: string
  tr_notifiedAt :: "int option"
  tr_completedAt :: "int option"

record servicing_notice =
  sn_walletAddress :: string
  sn_title :: string
  sn_message :: string
  sn_role :: string

record servicing_db =
  sd_loans :: "(string, serviced_loan) js_map"
  sd_transfers :: "servicing_transfer list"
  sd_notices :: "servicing_notice list"

record servicing_env =
  sv_date_of :: "js_value \<Rightarrow> int option"
  sv_number :: "rat \<Rightarrow> string"
  sv_iso :: "int \<Rightarrow> string"
  sv_valid_key :: "string \<Rightarrow> bool"

datatype servicing_error = Transfer_error string string int | Loan_row_missing

section \<open>Initiating a transfer\<close>

record initiate_input =
  in_loanId :: string
  in_toServicer :: js_value
  in_toServicerContact :: js_value
  in_effectiveDate :: js_value
  in_reason :: js_value
  in_investorAddresses :: js_value
  in_initiatedBy :: string

definition requireText :: "js_value \<Rightarrow> string \<Rightarrow> servicing_error + string" where
  "requireText v field =
     (case v of
        JStr s \<Rightarrow> if js_trim s = [] then Inl (Transfer_error ''missing_field'' (field @ '' is required'') 400)
                  else Inr (js_trim s)
      | _ \<Rightarrow> Inl (Transfer_error ''missing_field'' (field @ '' is required'') 400))"

fun check_addresses :: "(string \<Rightarrow> bool) \<Rightarrow> js_value list \<Rightarrow> servicing_error + string list" where
  "check_addresses valid [] = Inr []"
| "check_addresses valid (v # vs) =
     (case v of
        JStr s \<Rightarrow>
          if valid s then map_sum id ((#) s) (check_addresses valid vs)
          else Inl (Transfer_error ''invalid_field'' ''investorAddresses must contain Stellar G-addresses'' 400)
      | _ \<Rightarrow> Inl (Transfer_error ''invalid_field'' ''investorAddresses must contain Stellar G-addresses'' 400))"

definition parseInvestorAddresses :: "(string \<Rightarrow> bool) \<Rightarrow> js_value \<Rightarrow> servicing_error + string list" where
  "parseInvestorAddresses valid v =
     (if js_absent v then Inr []
      else case v of
        JArr vs \<Rightarrow> map_sum id (\<lambda>xs. rev (remdups (rev xs))) (check_addresses valid vs)
      | _ \<Rightarrow> Inl (Transfer_error ''invalid_field'' ''investorAddresses must be an array'' 400))"

definition effective_date :: "servicing_env \<Rightarrow> js_value \<Rightarrow> int \<Rightarrow> servicing_error + int" where
  "effective_date env v now =
     (case sv_date_of env v of
        None \<Rightarrow> Inl (Transfer_error ''invalid_field'' ''effectiveDate must be a valid date'' 400)
      | Some t \<Rightarrow>
          if t \<le> now
          then Inl (Transfer_error ''invalid_field''
            ''effectiveDate must be in the future so borrower and investors are notified first'' 400)
          else Inr t)"

definition eligible_loan :: "servicing_db \<Rightarrow> string \<Rightarrow> string \<Rightarrow> servicing_error + serviced_loan" where
  "eligible_loan db loanId toServicer =
     (case map_get (sd_loans db) loanId of
        None \<Rightarrow> Inl (Transfer_error ''not_found'' ''Loan application not found'' 404)
      | Some l \<Rightarrow>
          if sl_deletedAt l \<noteq> None then Inl (Transfer_error ''not_found'' ''Loan application not found'' 404)
          else if sl_status l \<notin> set SERVICEABLE_STATUSES
          then Inl (Transfer_error ''loan_not_active''
            (''Servicing can only be transferred for active loans (status is '' @ sl_status l @ '')'') 409)
          else if sl_servicer l = Some toServicer
          then Inl (Transfer_error ''same_servicer'' ''Loan is already serviced by toServicer'' 409)
          else if list_ex (\<lambda>t. tr_loanId t = loanId \<and> tr_status t = SCHEDULED) (sd_transfers db)
          then Inl (Transfer_error ''transfer_already_scheduled''
            ''A servicing transfer is already scheduled for this loan'' 409)
          else Inr l)"

definition notifyServicingTransfer :: "servicing_env \<Rightarrow> string \<Rightarrow> serviced_loan \<Rightarrow> servicing_transfer \<Rightarrow> string list \<Rightarrow>
    servicing_notice list" where
  "notifyServicingTransfer env loanId l t investorAddresses =
     (let date = take 10 (sv_iso env (tr_effectiveDate t));
          terms = ''principal '' @ sv_number env (sl_principal l) @ '', interest rate '' @
                  sv_number env (of_int (sl_interestRateBps l) / 100) @ ''%''
      in \<lparr>sn_walletAddress = sl_borrowerAddress l, sn_title = ''Your loan servicer is changing'',
          sn_message = ''From '' @ date @ '', '' @ tr_toServicer t @ '' will service your loan '' @ loanId @ ''. Contact: '' @
            tr_toServicerContact t @ ''. Your loan terms do not change ('' @ terms @ '').'',
          sn_role = ''borrower''\<rparr>
         # map (\<lambda>a. \<lparr>sn_walletAddress = a, sn_title = ''Servicer change for a loan you fund'',
             sn_message = ''From '' @ date @ '', '' @ tr_toServicer t @ '' will service loan '' @ loanId @ ''. Contact: '' @
               tr_toServicerContact t @ ''. Loan terms do not change ('' @ terms @ '').'',
             sn_role = ''investor''\<rparr>)
             (filter (\<lambda>a. a \<noteq> sl_borrowerAddress l) investorAddresses))"

definition initiateServicingTransfer :: "servicing_env \<Rightarrow> servicing_db \<Rightarrow> initiate_input \<Rightarrow> string \<Rightarrow> int \<Rightarrow>
    servicing_error + (servicing_db \<times> servicing_transfer)" where
  "initiateServicingTransfer env db i transferId now =
     (case requireText (in_toServicer i) ''toServicer'' of Inl e \<Rightarrow> Inl e | Inr toServicer \<Rightarrow>
      case requireText (in_toServicerContact i) ''toServicerContact'' of Inl e \<Rightarrow> Inl e | Inr toContact \<Rightarrow>
      case requireText (in_reason i) ''reason'' of Inl e \<Rightarrow> Inl e | Inr reason \<Rightarrow>
      case parseInvestorAddresses (sv_valid_key env) (in_investorAddresses i) of Inl e \<Rightarrow> Inl e | Inr investors \<Rightarrow>
      case effective_date env (in_effectiveDate i) now of Inl e \<Rightarrow> Inl e | Inr effective \<Rightarrow>
      case eligible_loan db (in_loanId i) toServicer of Inl e \<Rightarrow> Inl e | Inr l \<Rightarrow>
        (let t = \<lparr>tr_id = transferId, tr_loanId = in_loanId i, tr_fromServicer = sl_servicer l,
                 tr_fromServicerContact = sl_servicerContact l, tr_toServicer = toServicer, tr_toServicerContact = toContact,
                 tr_effectiveDate = effective, tr_reason = reason, tr_status = SCHEDULED, tr_initiatedBy = in_initiatedBy i,
                 tr_notifiedAt = Some now, tr_completedAt = None\<rparr>
         in Inr (db\<lparr>sd_transfers := sd_transfers db @ [t],
                    sd_notices := sd_notices db @ notifyServicingTransfer env (in_loanId i) l t investors\<rparr>, t)))"

section \<open>Applying due transfers\<close>

definition complete_transfer :: "string \<Rightarrow> int \<Rightarrow> servicing_transfer \<Rightarrow> servicing_transfer" where
  "complete_transfer tid now r = (if tr_id r = tid then r\<lparr>tr_status := COMPLETED, tr_completedAt := Some now\<rparr> else r)"

definition apply_transfer :: "servicing_db \<Rightarrow> servicing_transfer \<Rightarrow> int \<Rightarrow> servicing_error + servicing_db" where
  "apply_transfer db t now =
     (case map_get (sd_loans db) (tr_loanId t) of
        None \<Rightarrow> Inl Loan_row_missing
      | Some l \<Rightarrow> Inr (db\<lparr>sd_loans := map_set (sd_loans db) (tr_loanId t)
            (l\<lparr>sl_servicer := Some (tr_toServicer t), sl_servicerContact := Some (tr_toServicerContact t),
               sl_version := sl_version l + 1\<rparr>),
          sd_transfers := map (complete_transfer (tr_id t) now) (sd_transfers db)\<rparr>))"

fun apply_transfers :: "servicing_db \<Rightarrow> servicing_transfer list \<Rightarrow> int \<Rightarrow> servicing_db \<times> servicing_error option" where
  "apply_transfers db [] now = (db, None)"
| "apply_transfers db (t # ts) now =
     (case apply_transfer db t now of Inl e \<Rightarrow> (db, Some e) | Inr db' \<Rightarrow> apply_transfers db' ts now)"

definition due_transfers :: "servicing_db \<Rightarrow> int \<Rightarrow> servicing_transfer list" where
  "due_transfers db now = sort_key tr_effectiveDate
     (filter (\<lambda>t. tr_status t = SCHEDULED \<and> tr_effectiveDate t \<le> now) (sd_transfers db))"

definition applyDueServicingTransfers :: "servicing_db \<Rightarrow> int \<Rightarrow> servicing_db \<times> (servicing_error + nat)" where
  "applyDueServicingTransfers db now =
     (let due = due_transfers db now in
      case apply_transfers db due now of
        (db', None) \<Rightarrow> (db', Inr (length due))
      | (db', Some e) \<Rightarrow> (db', Inl e))"

definition getServicingHistory :: "servicing_db \<Rightarrow> string \<Rightarrow> (string option \<times> string option \<times> servicing_transfer list) option" where
  "getServicingHistory db loanId =
     (case map_get (sd_loans db) loanId of
        None \<Rightarrow> None
      | Some l \<Rightarrow> if sl_deletedAt l \<noteq> None then None
                  else Some (sl_servicer l, sl_servicerContact l, filter (\<lambda>t. tr_loanId t = loanId) (sd_transfers db)))"

section \<open>Calls\<close>

datatype servicing_call = Initiate initiate_input string int | Apply_due int

fun servicing_step :: "servicing_env \<Rightarrow> servicing_db \<Rightarrow> servicing_call \<Rightarrow> servicing_db" where
  "servicing_step env db (Initiate i tid now) =
     (case initiateServicingTransfer env db i tid now of Inl _ \<Rightarrow> db | Inr (db', _) \<Rightarrow> db')"
| "servicing_step env db (Apply_due now) = fst (applyDueServicingTransfers db now)"

fun call_id :: "servicing_call \<Rightarrow> string list" where
  "call_id (Initiate i tid now) = [tid]"
| "call_id (Apply_due now) = []"

section \<open>The chain of servicers\<close>

text \<open>
  The transfers of one loan, oldest first, from the servicer \<open>cur\<close> it had before them to the one it has
  now: each starts where the one before ended, and only the last may still be scheduled.
\<close>

fun transfer_chain :: "string option \<Rightarrow> servicing_transfer list \<Rightarrow> string option \<Rightarrow> bool" where
  "transfer_chain cur [] final \<longleftrightarrow> cur = final"
| "transfer_chain cur (t # ts) final \<longleftrightarrow> tr_fromServicer t = cur \<and> tr_fromServicer t \<noteq> Some (tr_toServicer t) \<and>
     (if tr_status t = COMPLETED then transfer_chain (Some (tr_toServicer t)) ts final else ts = [] \<and> cur = final)"

definition loan_transfers :: "servicing_db \<Rightarrow> string \<Rightarrow> servicing_transfer list" where
  "loan_transfers db loanId = filter (\<lambda>t. tr_loanId t = loanId) (sd_transfers db)"

definition chained :: "(string \<Rightarrow> string option) \<Rightarrow> servicing_db \<Rightarrow> bool" where
  "chained origin db \<longleftrightarrow> distinct (map tr_id (sd_transfers db)) \<and>
     (\<forall>t\<in>set (sd_transfers db). map_get (sd_loans db) (tr_loanId t) \<noteq> None) \<and>
     (\<forall>loanId l. map_get (sd_loans db) loanId = Some l \<longrightarrow>
        transfer_chain (origin loanId) (loan_transfers db loanId) (sl_servicer l))"

lemma chain_append:
  "transfer_chain cur ts final \<Longrightarrow> \<forall>t\<in>set ts. tr_status t \<noteq> SCHEDULED \<Longrightarrow> tr_fromServicer t = final \<Longrightarrow>
     tr_status t = SCHEDULED \<Longrightarrow> final \<noteq> Some (tr_toServicer t) \<Longrightarrow> transfer_chain cur (ts @ [t]) final"
proof (induction ts arbitrary: cur)
  case Nil
  then show ?case by simp
next
  case (Cons u ts)
  then have "tr_status u = COMPLETED" by (cases "tr_status u") auto
  with Cons show ?case by auto
qed

lemma chain_complete:
  "transfer_chain cur ts final \<Longrightarrow> t \<in> set ts \<Longrightarrow> tr_status t = SCHEDULED \<Longrightarrow> distinct (map tr_id ts) \<Longrightarrow>
     transfer_chain cur (map (complete_transfer (tr_id t) now) ts) (Some (tr_toServicer t))"
proof (induction ts arbitrary: cur)
  case Nil
  then show ?case by simp
next
  case (Cons u ts)
  show ?case
  proof (cases "tr_status u = COMPLETED")
    case True
    with Cons.prems have t: "t \<in> set ts" by auto
    then have "tr_id u \<noteq> tr_id t" using Cons.prems(4) by (auto simp: image_iff)
    with Cons True t show ?thesis by (auto simp: complete_transfer_def)
  next
    case False
    with Cons.prems have "ts = []" "t = u" by auto
    with Cons.prems show ?thesis by (auto simp: complete_transfer_def)
  qed
qed

lemma apply_transfer_chained:
  assumes inv: "chained origin db" and t: "t \<in> set (sd_transfers db)" "tr_status t = SCHEDULED"
  obtains db' where "apply_transfer db t now = Inr db'" "chained origin db'"
    "sd_transfers db' = map (complete_transfer (tr_id t) now) (sd_transfers db)"
proof -
  obtain l where l: "map_get (sd_loans db) (tr_loanId t) = Some l" using inv t(1) by (auto simp: chained_def)
  have ids: "tr_id (complete_transfer tid now r) = tr_id r" "tr_loanId (complete_transfer tid now r) = tr_loanId r" for tid r
    by (simp_all add: complete_transfer_def)
  define db' where "db' = db\<lparr>sd_loans := map_set (sd_loans db) (tr_loanId t)
      (l\<lparr>sl_servicer := Some (tr_toServicer t), sl_servicerContact := Some (tr_toServicerContact t), sl_version := sl_version l + 1\<rparr>),
      sd_transfers := map (complete_transfer (tr_id t) now) (sd_transfers db)\<rparr>"
  have filtered: "loan_transfers db' k = map (complete_transfer (tr_id t) now) (loan_transfers db k)" for k
    by (simp add: loan_transfers_def db'_def filter_map comp_def ids)
  have chain: "transfer_chain (origin k) (loan_transfers db' k) (sl_servicer m)" if m: "map_get (sd_loans db') k = Some m" for k m
  proof (cases "k = tr_loanId t")
    case True
    have "transfer_chain (origin k) (loan_transfers db k) (sl_servicer l)" using inv l True by (auto simp: chained_def)
    moreover have "t \<in> set (loan_transfers db k)" "distinct (map tr_id (loan_transfers db k))"
      using t(1) True inv by (auto simp: loan_transfers_def chained_def distinct_map_filter)
    ultimately have "transfer_chain (origin k) (loan_transfers db' k) (Some (tr_toServicer t))"
      unfolding filtered using chain_complete t(2) by blast
    with m True show ?thesis by (auto simp: db'_def)
  next
    case False
    have "complete_transfer (tr_id t) now r = r" if "r \<in> set (loan_transfers db k)" for r
    proof -
      have "r \<noteq> t" "r \<in> set (sd_transfers db)" using that False by (auto simp: loan_transfers_def)
      then have "tr_id r \<noteq> tr_id t" using inv t(1) by (auto simp: chained_def distinct_map inj_on_def)
      then show ?thesis by (simp add: complete_transfer_def)
    qed
    then have "loan_transfers db' k = loan_transfers db k" unfolding filtered by (simp add: map_idI)
    with m False inv show ?thesis by (auto simp: db'_def chained_def)
  qed
  have "map tr_id (sd_transfers db') = map tr_id (sd_transfers db)" by (simp add: db'_def comp_def ids)
  then have "distinct (map tr_id (sd_transfers db'))" using inv by (simp add: chained_def)
  moreover have "\<forall>r\<in>set (sd_transfers db'). map_get (sd_loans db') (tr_loanId r) \<noteq> None"
    using inv l by (auto simp: chained_def db'_def ids)
  ultimately have "chained origin db'" using chain unfolding chained_def by blast
  moreover have "apply_transfer db t now = Inr db'" by (simp add: apply_transfer_def l db'_def)
  ultimately show ?thesis using that by (simp add: db'_def)
qed

lemma complete_transfer_sel [simp]:
  "tr_id (complete_transfer tid now r) = tr_id r" "tr_loanId (complete_transfer tid now r) = tr_loanId r"
  "tr_effectiveDate (complete_transfer tid now r) = tr_effectiveDate r"
  by (simp_all add: complete_transfer_def)

text \<open>All due transfers go through: each row the query returned is still scheduled when its turn comes.\<close>

lemma apply_transfers_chained:
  "chained origin db \<Longrightarrow> set ts \<subseteq> set (sd_transfers db) \<Longrightarrow> \<forall>t\<in>set ts. tr_status t = SCHEDULED \<Longrightarrow> distinct ts \<Longrightarrow>
     \<exists>db'. apply_transfers db ts now = (db', None) \<and> chained origin db' \<and>
       sd_transfers db' = map (\<lambda>r. if r \<in> set ts then complete_transfer (tr_id r) now r else r) (sd_transfers db)"
proof (induction ts arbitrary: db)
  case Nil
  then show ?case by simp
next
  case (Cons t ts)
  then have t: "t \<in> set (sd_transfers db)" "tr_status t = SCHEDULED" by auto
  then obtain db1 where step: "apply_transfer db t now = Inr db1" "chained origin db1"
    and rows: "sd_transfers db1 = map (complete_transfer (tr_id t) now) (sd_transfers db)"
    using apply_transfer_chained Cons.prems(1) by metis
  have other: "complete_transfer (tr_id t) now r = r" if "r \<in> set (sd_transfers db)" "r \<noteq> t" for r
  proof -
    have "tr_id r \<noteq> tr_id t" using that t Cons.prems(1) by (auto simp: chained_def distinct_map inj_on_def)
    then show ?thesis by (simp add: complete_transfer_def)
  qed
  have kept: "set ts \<subseteq> set (sd_transfers db1)"
  proof
    fix r assume r: "r \<in> set ts"
    then have "r \<noteq> t" "r \<in> set (sd_transfers db)" using Cons.prems by auto
    then show "r \<in> set (sd_transfers db1)" unfolding rows set_map by (metis other imageI)
  qed
  obtain db' where run: "apply_transfers db1 ts now = (db', None)" "chained origin db'"
    and rows': "sd_transfers db' = map (\<lambda>r. if r \<in> set ts then complete_transfer (tr_id r) now r else r) (sd_transfers db1)"
    using Cons.IH [OF step(2) kept] Cons.prems by auto
  have done_t: "complete_transfer (tr_id t) now t \<notin> set ts"
    using Cons.prems(3) by (auto simp: complete_transfer_def)
  have "sd_transfers db' = map (\<lambda>r. if r \<in> set (t # ts) then complete_transfer (tr_id r) now r else r) (sd_transfers db)"
    unfolding rows' rows map_map
  proof (rule map_cong [OF refl])
    fix r assume r: "r \<in> set (sd_transfers db)"
    show "((\<lambda>r. if r \<in> set ts then complete_transfer (tr_id r) now r else r) \<circ> complete_transfer (tr_id t) now) r =
        (if r \<in> set (t # ts) then complete_transfer (tr_id r) now r else r)"
      using other [OF r] done_t Cons.prems(4) by (cases "r = t") auto
  qed
  with run step show ?case by auto
qed

lemma apply_due_chained:
  assumes "chained origin db"
  obtains db' where "applyDueServicingTransfers db now = (db', Inr (length (due_transfers db now)))" "chained origin db'"
    "sd_transfers db' = map (\<lambda>r. if r \<in> set (due_transfers db now) then complete_transfer (tr_id r) now r else r) (sd_transfers db)"
proof -
  have "distinct (sd_transfers db)" using assms by (auto simp: chained_def distinct_map)
  then have "distinct (due_transfers db now)" by (simp add: due_transfers_def)
  moreover have "set (due_transfers db now) \<subseteq> set (sd_transfers db)" "\<forall>t\<in>set (due_transfers db now). tr_status t = SCHEDULED"
    by (auto simp: due_transfers_def)
  ultimately obtain db' where "apply_transfers db (due_transfers db now) now = (db', None)" "chained origin db'"
    "sd_transfers db' = map (\<lambda>r. if r \<in> set (due_transfers db now) then complete_transfer (tr_id r) now r else r) (sd_transfers db)"
    using apply_transfers_chained [OF assms, of "due_transfers db now" now] by blast
  with that show ?thesis by (simp add: applyDueServicingTransfers_def)
qed

lemma due_none_left:
  assumes "chained origin db"
  shows "due_transfers (fst (applyDueServicingTransfers db now)) now = []"
proof -
  obtain db' where run: "applyDueServicingTransfers db now = (db', Inr (length (due_transfers db now)))"
    and rows: "sd_transfers db' = map (\<lambda>r. if r \<in> set (due_transfers db now) then complete_transfer (tr_id r) now r else r) (sd_transfers db)"
    using apply_due_chained [OF assms, of now] by blast
  have "filter (\<lambda>t. tr_status t = SCHEDULED \<and> tr_effectiveDate t \<le> now) (sd_transfers db') = []"
    unfolding rows by (auto simp: filter_empty_conv due_transfers_def complete_transfer_def split: if_splits)
  then show ?thesis by (simp add: run due_transfers_def)
qed

section \<open>Runs of calls\<close>

lemma initiate_chained:
  assumes inv: "chained origin db" and fresh: "tid \<notin> tr_id ` set (sd_transfers db)"
    and ok: "initiateServicingTransfer env db i tid now = Inr (db', t)"
  shows "chained origin db' \<and> sd_transfers db' = sd_transfers db @ [t] \<and> tr_id t = tid"
proof -
  obtain l where l: "map_get (sd_loans db) (in_loanId i) = Some l" and rows: "sd_transfers db' = sd_transfers db @ [t]"
    and loans: "sd_loans db' = sd_loans db"
    and t: "tr_id t = tid" "tr_loanId t = in_loanId i" "tr_fromServicer t = sl_servicer l" "tr_status t = SCHEDULED"
    and other: "sl_servicer l \<noteq> Some (tr_toServicer t)"
    and idle: "\<not> list_ex (\<lambda>t. tr_loanId t = in_loanId i \<and> tr_status t = SCHEDULED) (sd_transfers db)"
    using ok by (auto simp: initiateServicingTransfer_def eligible_loan_def Let_def split: sum.splits option.splits if_splits)
  have "transfer_chain (origin k) (loan_transfers db' k) (sl_servicer m)" if m: "map_get (sd_loans db') k = Some m" for k m
  proof -
    have old: "transfer_chain (origin k) (loan_transfers db k) (sl_servicer m)" using inv m loans by (simp add: chained_def)
    show ?thesis
    proof (cases "k = in_loanId i")
      case True
      have "\<forall>r\<in>set (loan_transfers db k). tr_status r \<noteq> SCHEDULED"
        using idle True by (auto simp: loan_transfers_def list_ex_iff)
      moreover have "m = l" using m l loans True by simp
      ultimately have "transfer_chain (origin k) (loan_transfers db k @ [t]) (sl_servicer m)"
        using chain_append old t other by blast
      then show ?thesis by (simp add: loan_transfers_def rows t True)
    next
      case False
      with old show ?thesis by (simp add: loan_transfers_def rows t)
    qed
  qed
  then show ?thesis using inv fresh l t by (auto simp: chained_def rows loans)
qed

lemma servicing_step_chained:
  assumes "chained origin db" "\<forall>tid\<in>set (call_id c). tid \<notin> tr_id ` set (sd_transfers db)"
  shows "chained origin (servicing_step env db c) \<and>
     tr_id ` set (sd_transfers (servicing_step env db c)) \<subseteq> tr_id ` set (sd_transfers db) \<union> set (call_id c)"
proof (cases c)
  case (Initiate i tid now)
  show ?thesis
  proof (cases "initiateServicingTransfer env db i tid now")
    case (Inl e)
    then show ?thesis using assms Initiate by auto
  next
    case (Inr r)
    then obtain db' t where r: "initiateServicingTransfer env db i tid now = Inr (db', t)" by (cases r) auto
    then show ?thesis using initiate_chained [OF assms(1) _ r] assms(2) Initiate by auto
  qed
next
  case (Apply_due now)
  obtain db' where run: "applyDueServicingTransfers db now = (db', Inr (length (due_transfers db now)))" "chained origin db'"
    and rows: "sd_transfers db' = map (\<lambda>r. if r \<in> set (due_transfers db now) then complete_transfer (tr_id r) now r else r) (sd_transfers db)"
    using apply_due_chained [OF assms(1), of now] by blast
  have "tr_id ` set (sd_transfers db') = tr_id ` set (sd_transfers db)"
    unfolding rows set_map image_image by (rule image_cong [OF refl]) simp
  then show ?thesis using run Apply_due by simp
qed

definition servicing_run :: "servicing_env \<Rightarrow> servicing_db \<Rightarrow> servicing_call list \<Rightarrow> servicing_db" where
  "servicing_run env db cs = foldl (servicing_step env) db cs"

lemma servicing_run_chained:
  "chained origin db \<Longrightarrow> distinct (concat (map call_id cs)) \<Longrightarrow>
     set (concat (map call_id cs)) \<inter> tr_id ` set (sd_transfers db) = {} \<Longrightarrow> chained origin (servicing_run env db cs)"
proof (induction cs arbitrary: db)
  case Nil
  then show ?case by (simp add: servicing_run_def)
next
  case (Cons c cs)
  have step: "chained origin (servicing_step env db c)"
    "tr_id ` set (sd_transfers (servicing_step env db c)) \<subseteq> tr_id ` set (sd_transfers db) \<union> set (call_id c)"
    using servicing_step_chained [OF Cons.prems(1), of c env] Cons.prems(3) by auto
  have "set (concat (map call_id cs)) \<inter> tr_id ` set (sd_transfers (servicing_step env db c)) = {}"
  proof -
    have "set (concat (map call_id cs)) \<inter> set (call_id c) = {}" using Cons.prems(2) by (simp add: Int_commute)
    moreover have "set (concat (map call_id cs)) \<inter> tr_id ` set (sd_transfers db) = {}"
      using Cons.prems(3) unfolding list.map concat.simps set_append by blast
    ultimately show ?thesis using step(2) by blast
  qed
  then show ?case using Cons.IH [OF step(1)] Cons.prems(2) by (simp add: servicing_run_def)
qed

lemma chain_scheduled_last:
  "transfer_chain cur ts final \<Longrightarrow> t \<in> set ts \<Longrightarrow> tr_status t = SCHEDULED \<Longrightarrow> last ts = t"
proof (induction ts arbitrary: cur)
  case Nil
  then show ?case by simp
next
  case (Cons u ts)
  then show ?case by (cases "tr_status u = COMPLETED") (auto split: if_splits)
qed

section \<open>The servicer of record\<close>

definition original_servicer :: "servicing_db \<Rightarrow> string \<Rightarrow> string option" where
  "original_servicer db loanId = Option.bind (map_get (sd_loans db) loanId) sl_servicer"


definition env0 :: servicing_env where
  "env0 = \<lparr>sv_date_of = (\<lambda>v. if v = JStr ''soon'' then Some 100 else if v = JStr ''later'' then Some 200 else None),
     sv_number = (\<lambda>q. ''n''), sv_iso = (\<lambda>t. ''2026-01-01T00:00:00.000Z''), sv_valid_key = (\<lambda>s. take 1 s = ''G'')\<rparr>"

definition loan0 :: serviced_loan where
  "loan0 = \<lparr>sl_status = ''Repaying'', sl_deletedAt = None, sl_borrowerAddress = ''GB'', sl_principal = 1000,
     sl_interestRateBps = 850, sl_servicer = Some ''bank'', sl_servicerContact = None, sl_version = 1\<rparr>"

definition db0 :: servicing_db where
  "db0 = \<lparr>sd_loans = map_set [] ''L1'' loan0, sd_transfers = [], sd_notices = []\<rparr>"

definition call0 :: "string \<Rightarrow> string \<Rightarrow> initiate_input" where
  "call0 target date = \<lparr>in_loanId = ''L1'', in_toServicer = JStr target, in_toServicerContact = JStr ''mail'',
     in_effectiveDate = JStr date, in_reason = JStr ''sale'', in_investorAddresses = JArr [JStr ''GI'', JStr ''GB'', JStr ''GI''],
     in_initiatedBy = ''admin''\<rparr>"

definition calls0 :: "servicing_call list" where
  "calls0 = [Initiate (call0 '' acme '' ''soon'') ''t1'' 0, Initiate (call0 ''other'' ''soon'') ''t2'' 1, Apply_due 150,
     Initiate (call0 ''other'' ''later'') ''t3'' 160]"


end
