(* ===== verification/FeeWaiver.thy ===== *)
theory FeeWaiver
  imports Prelude
begin

text \<open>
  Hardship waivers of late fees, \<^verbatim>\<open>backend/src/services/feeWaiver.ts\<close>. The state is the table of loans
  and the table of requests; the queries of the code are functions of those tables, and the primary key
  refuses a second request under one id. Money is rational; the reading of an untrusted amount and the
  clock are arguments, and audit entries and log lines are left out. The lemmas show that what is waived
  and what is still owed add up to the fees the loan had, whatever the calls.
\<close>

section \<open>Tables\<close>

definition HARDSHIP_REASONS :: "string list" where
  "HARDSHIP_REASONS = [''JOB_LOSS'', ''MEDICAL_EMERGENCY'', ''NATURAL_DISASTER'', ''REDUCED_INCOME'', ''BEREAVEMENT'', ''OTHER'']"

definition WAIVER_POLICY_VERSION :: string where
  "WAIVER_POLICY_VERSION = ''waiver-policy-v1''"

datatype waiver_status = WPENDING | WAPPROVED | WPARTIAL | WDENIED

text \<open>
  A loan as the query returns it: \<open>wl_applicant\<close> stands for \<^verbatim>\<open>loan?.applicant?.stellarAddress\<close> and
  \<open>wl_borrowerAddress\<close> for \<^verbatim>\<open>loan?.borrowerAddress\<close>, each absent where the row does not have it.
\<close>

record waived_loan =
  wl_deletedAt :: "int option"
  wl_applicant :: "string option"
  wl_borrowerAddress :: "string option"
  wl_lateFeeBalance :: rat
  wl_version :: int

record waiver_request =
  wr_loanId :: string
  wr_borrowerAddress :: string
  wr_hardshipReason :: string
  wr_context :: string
  wr_requestedAmount :: rat
  wr_status :: waiver_status
  wr_policyVersion :: string
  wr_waivedAmount :: rat
  wr_decidedBy :: "string option"
  wr_decisionReason :: "string option"
  wr_decidedAt :: "int option"

record waiver_db =
  wd_loans :: "(string, waived_loan) js_map"
  wd_requests :: "(string, waiver_request) js_map"

datatype waiver_error = Waiver_error string string int | Duplicate_id

section \<open>Filing a request\<close>

record create_waiver_input =
  cw_loanId :: string
  cw_borrowerAddress :: string
  cw_hardshipReason :: js_value
  cw_context :: js_value

definition requireHardshipReason :: "js_value \<Rightarrow> waiver_error + string" where
  "requireHardshipReason v =
     (let refused = Inl (Waiver_error ''invalid_hardship_reason''
        (''hardshipReason must be one of: '' @ js_join '', '' HARDSHIP_REASONS) 400) in
      case v of JStr s \<Rightarrow> if s \<in> set HARDSHIP_REASONS then Inr s else refused | _ \<Rightarrow> refused)"

definition requireContext :: "js_value \<Rightarrow> waiver_error + string" where
  "requireContext v =
     (let refused = Inl (Waiver_error ''invalid_context''
        ''context is required and must be at least 20 characters describing the hardship'' 400) in
      case v of
        JStr s \<Rightarrow>
          if length (js_trim s) < 20 then refused
          else if 5000 < length (js_trim s)
          then Inl (Waiver_error ''invalid_context'' ''context must be at most 5000 characters'' 400)
          else Inr (js_trim s)
      | _ \<Rightarrow> refused)"

definition live_loan :: "waiver_db \<Rightarrow> string \<Rightarrow> waived_loan option" where
  "live_loan db loanId =
     (case map_get (wd_loans db) loanId of
        None \<Rightarrow> None
      | Some l \<Rightarrow> if wl_deletedAt l = None then Some l else None)"

definition loan_owner :: "waived_loan \<Rightarrow> string option" where
  "loan_owner l = (case wl_applicant l of Some a \<Rightarrow> Some a | None \<Rightarrow> wl_borrowerAddress l)"

definition filed_by_stranger :: "waived_loan \<Rightarrow> string \<Rightarrow> bool" where
  "filed_by_stranger l borrower \<longleftrightarrow>
     (case truthy_text (loan_owner l) of None \<Rightarrow> False | Some a \<Rightarrow> js_lower a \<noteq> js_lower borrower)"

definition has_pending :: "waiver_db \<Rightarrow> string \<Rightarrow> bool" where
  "has_pending db loanId \<longleftrightarrow> list_ex (\<lambda>r. wr_loanId r = loanId \<and> wr_status r = WPENDING) (map_values (wd_requests db))"

definition createWaiverRequest :: "waiver_db \<Rightarrow> create_waiver_input \<Rightarrow> string \<Rightarrow> waiver_error + (waiver_db \<times> waiver_request)" where
  "createWaiverRequest db i requestId =
     (case requireHardshipReason (cw_hardshipReason i) of Inl e \<Rightarrow> Inl e | Inr reason \<Rightarrow>
      case requireContext (cw_context i) of Inl e \<Rightarrow> Inl e | Inr ctx \<Rightarrow>
      case live_loan db (cw_loanId i) of
        None \<Rightarrow> Inl (Waiver_error ''not_found'' ''Loan application not found'' 404)
      | Some l \<Rightarrow>
          if filed_by_stranger l (cw_borrowerAddress i)
          then Inl (Waiver_error ''forbidden'' ''Request must be filed by the owning borrower'' 403)
          else if wl_lateFeeBalance l \<le> 0
          then Inl (Waiver_error ''no_late_fee'' ''Loan has no outstanding late-fee balance to waive'' 409)
          else if has_pending db (cw_loanId i)
          then Inl (Waiver_error ''request_pending'' ''A waiver request is already pending for this loan'' 409)
          else if map_get (wd_requests db) requestId \<noteq> None then Inl Duplicate_id
          else
            (let r = \<lparr>wr_loanId = cw_loanId i, wr_borrowerAddress = cw_borrowerAddress i, wr_hardshipReason = reason,
                   wr_context = ctx, wr_requestedAmount = wl_lateFeeBalance l, wr_status = WPENDING,
                   wr_policyVersion = WAIVER_POLICY_VERSION, wr_waivedAmount = 0, wr_decidedBy = None,
                   wr_decisionReason = None, wr_decidedAt = None\<rparr>
             in Inr (db\<lparr>wd_requests := map_set (wd_requests db) requestId r\<rparr>, r)))"

definition listWaiverRequestsForLoan :: "waiver_db \<Rightarrow> string \<Rightarrow> waiver_request list" where
  "listWaiverRequestsForLoan db loanId = filter (\<lambda>r. wr_loanId r = loanId) (map_values (wd_requests db))"

definition listPendingWaiverQueue :: "waiver_db \<Rightarrow> waiver_request list" where
  "listPendingWaiverQueue db = filter (\<lambda>r. wr_status r = WPENDING) (map_values (wd_requests db))"

section \<open>Deciding a request\<close>

record decide_waiver_input =
  dw_requestId :: string
  dw_decision :: js_value
  dw_waivedAmount :: js_value
  dw_decisionReason :: js_value
  dw_decidedBy :: string

fun status_name :: "waiver_status \<Rightarrow> string" where
  "status_name WPENDING = ''PENDING''"
| "status_name WAPPROVED = ''APPROVED''"
| "status_name WPARTIAL = ''PARTIAL''"
| "status_name WDENIED = ''DENIED''"

definition waiver_decision :: "js_value \<Rightarrow> waiver_error + waiver_status" where
  "waiver_decision v =
     (if v = JStr ''APPROVED'' then Inr WAPPROVED
      else if v = JStr ''DENIED'' then Inr WDENIED
      else if v = JStr ''PARTIAL'' then Inr WPARTIAL
      else Inl (Waiver_error ''invalid_decision'' ''decision must be one of APPROVED, DENIED, PARTIAL'' 400))"

definition decision_reason :: "js_value \<Rightarrow> waiver_error + string" where
  "decision_reason v =
     (let reason = (case v of JStr s \<Rightarrow> js_trim s | _ \<Rightarrow> []) in
      if length reason < 10
      then Inl (Waiver_error ''invalid_decision_reason''
        ''decisionReason is required (min 10 chars) and must reference the approval criteria'' 400)
      else Inr reason)"

text \<open>\<open>to_number\<close> is the conversion \<^verbatim>\<open>Number\<close>, absent where its value is not finite.\<close>

definition waived_amount :: "(js_value \<Rightarrow> rat option) \<Rightarrow> waiver_status \<Rightarrow> rat \<Rightarrow> js_value \<Rightarrow> waiver_error + rat" where
  "waived_amount to_number d outstanding v =
     (case d of
        WAPPROVED \<Rightarrow>
          if outstanding \<le> 0 then Inl (Waiver_error ''no_late_fee'' ''Nothing left to waive on this loan'' 409)
          else Inr outstanding
      | WPARTIAL \<Rightarrow>
          (let refused = Inl (Waiver_error ''invalid_waived_amount''
             ''waivedAmount must be a positive number for PARTIAL decisions'' 400) in
           case to_number v of
             None \<Rightarrow> refused
           | Some a \<Rightarrow>
               if a \<le> 0 then refused
               else if outstanding \<le> a
               then Inl (Waiver_error ''invalid_waived_amount'' (''PARTIAL waivedAmount must be strictly less than '' @
                 ''the outstanding late fee; use APPROVED for a full waiver'') 400)
               else Inr a)
      | _ \<Rightarrow> Inr 0)"

definition decideWaiverRequest :: "(js_value \<Rightarrow> rat option) \<Rightarrow> waiver_db \<Rightarrow> decide_waiver_input \<Rightarrow> int \<Rightarrow>
    waiver_error + (waiver_db \<times> waiver_request \<times> rat \<times> rat)" where
  "decideWaiverRequest to_number db i now =
     (case waiver_decision (dw_decision i) of Inl e \<Rightarrow> Inl e | Inr decision \<Rightarrow>
      case decision_reason (dw_decisionReason i) of Inl e \<Rightarrow> Inl e | Inr reason \<Rightarrow>
      if dw_decidedBy i = [] then Inl (Waiver_error ''missing_decider'' ''decidedBy admin identity is required'' 403)
      else case map_get (wd_requests db) (dw_requestId i) of
        None \<Rightarrow> Inl (Waiver_error ''not_found'' ''Waiver request not found'' 404)
      | Some r \<Rightarrow>
          if wr_status r \<noteq> WPENDING
          then Inl (Waiver_error ''already_decided'' (''Request already decided ('' @ status_name (wr_status r) @ '')'') 409)
          else case live_loan db (wr_loanId r) of
            None \<Rightarrow> Inl (Waiver_error ''loan_not_found'' ''Loan application not found'' 404)
          | Some l \<Rightarrow>
              case waived_amount to_number decision (wl_lateFeeBalance l) (dw_waivedAmount i) of Inl e \<Rightarrow> Inl e | Inr waived \<Rightarrow>
                (let newBalance = max 0 (wl_lateFeeBalance l - waived);
                     r' = r\<lparr>wr_status := decision, wr_waivedAmount := waived, wr_decidedBy := Some (dw_decidedBy i),
                            wr_decisionReason := Some reason, wr_decidedAt := Some now\<rparr>
                 in Inr (db\<lparr>wd_requests := map_set (wd_requests db) (dw_requestId i) r',
                            wd_loans := map_set (wd_loans db) (wr_loanId r)
                              (l\<lparr>wl_lateFeeBalance := newBalance, wl_version := wl_version l + 1\<rparr>)\<rparr>,
                         r', waived, newBalance)))"

section \<open>Runs of calls\<close>

datatype waiver_call = File create_waiver_input string | Decide decide_waiver_input int

fun waiver_step :: "(js_value \<Rightarrow> rat option) \<Rightarrow> waiver_db \<Rightarrow> waiver_call \<Rightarrow> waiver_db" where
  "waiver_step to_number db (File i requestId) =
     (case createWaiverRequest db i requestId of Inl _ \<Rightarrow> db | Inr (db', _) \<Rightarrow> db')"
| "waiver_step to_number db (Decide i now) =
     (case decideWaiverRequest to_number db i now of Inl _ \<Rightarrow> db | Inr (db', _) \<Rightarrow> db')"

definition waived_of :: "string \<Rightarrow> waiver_request \<Rightarrow> rat" where
  "waived_of loanId r = (if wr_loanId r = loanId then wr_waivedAmount r else 0)"

definition waived_total :: "waiver_db \<Rightarrow> string \<Rightarrow> rat" where
  "waived_total db loanId = sum_list (map (waived_of loanId \<circ> snd) (wd_requests db))"

definition fee_of :: "waiver_db \<Rightarrow> string \<Rightarrow> rat" where
  "fee_of db loanId = (case map_get (wd_loans db) loanId of None \<Rightarrow> 0 | Some l \<Rightarrow> wl_lateFeeBalance l)"

definition open_once :: "waiver_db \<Rightarrow> bool" where
  "open_once db \<longleftrightarrow> (\<forall>a b r s. map_get (wd_requests db) a = Some r \<longrightarrow> map_get (wd_requests db) b = Some s \<longrightarrow>
     wr_status r = WPENDING \<longrightarrow> wr_status s = WPENDING \<longrightarrow> wr_loanId r = wr_loanId s \<longrightarrow> a = b)"

definition settled :: "waiver_request \<Rightarrow> bool" where
  "settled r \<longleftrightarrow> 0 \<le> wr_waivedAmount r \<and> (wr_waivedAmount r = 0 \<longleftrightarrow> wr_status r \<in> {WPENDING, WDENIED}) \<and>
     (wr_status r \<noteq> WPENDING \<longleftrightarrow> wr_decidedBy r \<noteq> None)"

definition waiver_ok :: "(string \<Rightarrow> rat) \<Rightarrow> waiver_db \<Rightarrow> bool" where
  "waiver_ok fee0 db \<longleftrightarrow> wf_map (wd_requests db) \<and> open_once db \<and> (\<forall>r\<in>set (map_values (wd_requests db)). settled r) \<and>
     (\<forall>k. 0 \<le> fee_of db k \<and> fee_of db k + waived_total db k = fee0 k)"

lemma all_values_set:
  "\<forall>s\<in>set (map_values m). P s \<Longrightarrow> P v \<Longrightarrow> \<forall>s\<in>set (map_values (map_set m k v)). P s"
  by (induction m) auto

lemma create_inv:
  assumes inv: "waiver_ok fee0 db" and ok: "createWaiverRequest db i rid = Inr (db', r)"
  shows "waiver_ok fee0 db'"
proof -
  have db': "db' = db\<lparr>wd_requests := map_set (wd_requests db) rid r\<rparr>" and new: "map_get (wd_requests db) rid = None"
    and r: "wr_loanId r = cw_loanId i" "wr_status r = WPENDING" "wr_waivedAmount r = 0" "wr_decidedBy r = None"
    and idle: "\<not> has_pending db (cw_loanId i)"
    using ok by (auto simp: createWaiverRequest_def Let_def split: sum.splits option.splits if_splits)
  have no_pending: "wr_status s \<noteq> WPENDING" if "map_get (wd_requests db) a = Some s" "wr_loanId s = cw_loanId i" for a s
    using idle map_get_in_values [OF that(1)] that(2) by (auto simp: has_pending_def list_ex_iff)
  have old: "\<forall>s\<in>set (map_values (wd_requests db)). settled s" using inv unfolding waiver_ok_def by (elim conjE)
  have rows: "wd_requests db' = map_set (wd_requests db) rid r" by (simp add: db')
  have "open_once db'"
    using inv no_pending r by (auto simp: waiver_ok_def open_once_def db')
  moreover have total: "waived_total db' k = waived_total db k" for k
    using inv new r by (simp add: waived_total_def db' waiver_ok_def sum_map_set waived_of_def)
  moreover have fee: "fee_of db' k = fee_of db k" for k by (simp add: fee_of_def db')
  moreover have "settled r" using r by (simp add: settled_def)
  then have "\<forall>s\<in>set (map_values (wd_requests db')). settled s"
    unfolding rows by (rule all_values_set [OF old])
  moreover have "wf_map (wd_requests db')" using inv by (simp add: waiver_ok_def db')
  moreover have "\<forall>k. 0 \<le> fee_of db' k \<and> fee_of db' k + waived_total db' k = fee0 k"
    using inv unfolding waiver_ok_def total fee by (elim conjE)
  ultimately show ?thesis unfolding waiver_ok_def by (intro conjI)
qed

lemma waived_amount_bounds:
  assumes "waived_amount to_number d outstanding v = Inr a" "0 \<le> outstanding"
  shows "0 \<le> a \<and> a \<le> outstanding \<and> (d = WAPPROVED \<or> d = WPARTIAL \<longrightarrow> 0 < a) \<and> (d = WPENDING \<or> d = WDENIED \<longrightarrow> a = 0)"
  using assms by (cases d) (auto simp: waived_amount_def Let_def split: option.splits if_splits)

lemma decide_inv:
  assumes inv: "waiver_ok fee0 db" and ok: "decideWaiverRequest to_number db i now = Inr (db', r', waived, balance)"
  shows "waiver_ok fee0 db'"
proof -
  obtain decision r l where r: "map_get (wd_requests db) (dw_requestId i) = Some r" "wr_status r = WPENDING"
    and d: "waiver_decision (dw_decision i) = Inr decision"
    and l: "live_loan db (wr_loanId r) = Some l"
    and a: "waived_amount to_number decision (wl_lateFeeBalance l) (dw_waivedAmount i) = Inr waived"
    and r': "wr_loanId r' = wr_loanId r" "wr_status r' = decision" "wr_waivedAmount r' = waived" "wr_decidedBy r' \<noteq> None"
    and db': "db' = db\<lparr>wd_requests := map_set (wd_requests db) (dw_requestId i) r',
        wd_loans := map_set (wd_loans db) (wr_loanId r)
          (l\<lparr>wl_lateFeeBalance := max 0 (wl_lateFeeBalance l - waived), wl_version := wl_version l + 1\<rparr>)\<rparr>"
    using ok by (auto simp: decideWaiverRequest_def Let_def split: sum.splits option.splits if_splits)
  have final: "decision \<noteq> WPENDING" using d by (auto simp: waiver_decision_def split: if_splits)
  have row: "map_get (wd_loans db) (wr_loanId r) = Some l" using l by (auto simp: live_loan_def split: option.splits if_splits)
  then have fee: "fee_of db (wr_loanId r) = wl_lateFeeBalance l" by (simp add: fee_of_def)
  moreover have "0 \<le> fee_of db (wr_loanId r)" using inv unfolding waiver_ok_def by blast
  ultimately have bounds: "0 \<le> waived" "waived \<le> wl_lateFeeBalance l" "decision \<in> {WPENDING, WDENIED} \<longleftrightarrow> waived = 0"
    using waived_amount_bounds [OF a] by (cases decision; auto)+
  have "settled r" using inv r(1) map_get_in_values unfolding waiver_ok_def by metis
  then have zero: "wr_waivedAmount r = 0" using r(2) by (simp add: settled_def)
  have old: "\<forall>s\<in>set (map_values (wd_requests db)). settled s" using inv unfolding waiver_ok_def by (elim conjE)
  have rows: "wd_requests db' = map_set (wd_requests db) (dw_requestId i) r'" by (simp add: db')
  have "open_once db'" using inv final r' by (auto simp: waiver_ok_def open_once_def db')
  moreover have "waived_total db' k = waived_total db k + waived_of k r'" for k
    using inv r r' zero by (simp add: waived_total_def db' waiver_ok_def sum_map_set waived_of_def)
  then have "fee_of db' k + waived_total db' k = fee_of db k + waived_total db k" for k
    using r' row bounds(2) by (cases "k = wr_loanId r") (simp_all add: fee_of_def db' waived_of_def)
  then have "fee_of db' k + waived_total db' k = fee0 k" for k
    using inv unfolding waiver_ok_def by metis
  moreover have "0 \<le> fee_of db' k" for k
  proof (cases "k = wr_loanId r")
    case True
    then show ?thesis by (simp add: fee_of_def db')
  next
    case False
    then have "fee_of db' k = fee_of db k" by (simp add: fee_of_def db')
    then show ?thesis using inv by (simp add: waiver_ok_def)
  qed
  moreover have "settled r'" using bounds r' final by (simp add: settled_def)
  then have "\<forall>s\<in>set (map_values (wd_requests db')). settled s"
    unfolding rows by (rule all_values_set [OF old])
  moreover have "wf_map (wd_requests db')" using inv by (simp add: waiver_ok_def db')
  ultimately show ?thesis unfolding waiver_ok_def by (intro conjI allI)
qed

lemma waiver_step_inv:
  assumes "waiver_ok fee0 db"
  shows "waiver_ok fee0 (waiver_step to_number db c)"
proof (cases c)
  case (File i rid)
  show ?thesis
    using create_inv [OF assms, of i rid] assms File by (cases "createWaiverRequest db i rid") (auto split: prod.split)
next
  case (Decide i now)
  show ?thesis
    using decide_inv [OF assms, of to_number i now] assms Decide
    by (cases "decideWaiverRequest to_number db i now") (auto split: prod.split)
qed

lemma waiver_run_inv: "waiver_ok fee0 db \<Longrightarrow> waiver_ok fee0 (foldl (waiver_step to_number) db cs)"
  by (induction cs arbitrary: db) (simp_all add: waiver_step_inv)

section \<open>What is waived and what is owed\<close>


definition waiver_db0 :: waiver_db where
  "waiver_db0 = \<lparr>wd_loans = map_set [] ''L1'' \<lparr>wl_deletedAt = None, wl_applicant = None, wl_borrowerAddress = None,
     wl_lateFeeBalance = 100, wl_version = 1\<rparr>, wd_requests = []\<rparr>"

definition to_number0 :: "js_value \<Rightarrow> rat option" where
  "to_number0 v = (case v of JNum q \<Rightarrow> Some q | _ \<Rightarrow> None)"

definition file0 :: create_waiver_input where
  "file0 = \<lparr>cw_loanId = ''L1'', cw_borrowerAddress = ''GB'', cw_hardshipReason = JStr ''JOB_LOSS'',
     cw_context = JStr ''lost my job in the spring''\<rparr>"

definition decide0 :: "string \<Rightarrow> string \<Rightarrow> rat \<Rightarrow> decide_waiver_input" where
  "decide0 rid d a = \<lparr>dw_requestId = rid, dw_decision = JStr d, dw_waivedAmount = JNum a,
     dw_decisionReason = JStr ''meets criteria 1 and 2'', dw_decidedBy = ''admin''\<rparr>"

definition waiver_calls0 :: "waiver_call list" where
  "waiver_calls0 = [File file0 ''r1'', File file0 ''r2'', Decide (decide0 ''r1'' ''PARTIAL'' 100) 5,
     Decide (decide0 ''r1'' ''PARTIAL'' 40) 6, Decide (decide0 ''r1'' ''APPROVED'' 0) 7, File file0 ''r3'']"


section \<open>The owner check\<close>

text \<open>
  The query reads the loan without its applicant, and a loan has no address of its own: on such a row the
  check of the owner passes for everyone, and only the route's own check keeps strangers out.
\<close>

lemma owner_check_open:
  "wl_applicant l = None \<Longrightarrow> wl_borrowerAddress l = None \<Longrightarrow> \<not> filed_by_stranger l borrower"
  by (simp add: filed_by_stranger_def loan_owner_def truthy_text_def)

end
