(* ===== verification/RepaymentAudit.thy ===== *)
theory RepaymentAudit
  imports Prelude
begin

text \<open>
  The daily audit of repayments, \<^verbatim>\<open>backend/src/jobs/repaymentAudit.ts\<close>: grace periods, late fees, missed
  payments and defaults. The state is the table of loans. The statuses the database client accepts, the
  applicant of a loan, and whether a notification can be queued are arguments, as are the time of a pass
  and the time each loan's handler reads; console output is left out. The lemmas show what a loan is
  charged, and that no loan defaults earlier than the grace periods and terms it was granted allow.
\<close>

section \<open>Loans and messages\<close>

definition DEFAULT_LATE_FEE :: rat where
  "DEFAULT_LATE_FEE = 50"

definition GRACE_PERIOD_DAYS :: int where
  "GRACE_PERIOD_DAYS = 3"

text \<open>Adding days to the UTC date of a time: no day of UTC is longer or shorter than another.\<close>

definition add_utc_days :: "int \<Rightarrow> int \<Rightarrow> int" where
  "add_utc_days t n = t + n * 86400000"

definition AUDITED_STATUSES :: "string list" where
  "AUDITED_STATUSES = [''Approved'', ''Disbursing'', ''Repaying'']"

definition LOAN_STATUSES :: "string list" where
  "LOAN_STATUSES = [''Draft'', ''Pending'', ''Approved'', ''Rejected'', ''Disbursing'', ''Repaying'', ''Completed'']"

record audited_loan =
  al_status :: string
  al_deletedAt :: "int option"
  al_dueDate :: "int option"
  al_missedPayments :: int
  al_lateFeeBalance :: rat
  al_gracePeriodEndsAt :: "int option"
  al_applicantId :: string
  al_guarantorAddress :: "string option"
  al_version :: int

text \<open>A message is rendered from a template in the applicant's language, or is plain text.\<close>

datatype mail_body = Localised "string option" string "(string \<times> string) list" | Plain string

record audit_mail =
  ml_recipient :: string
  ml_body :: mail_body

record audit_env =
  ae_statuses :: "string list"
  ae_applicant :: "string \<Rightarrow> (string \<times> string option) option"
  ae_queued :: "audit_mail \<Rightarrow> bool"

text \<open>A queue that cannot take a message throws: the messages after it are not sent.\<close>

fun send_all :: "audit_env \<Rightarrow> audit_mail list \<Rightarrow> audit_mail list \<times> bool" where
  "send_all env [] = ([], True)"
| "send_all env (m # ms) =
     (if ae_queued env m then (case send_all env ms of (sent, ok) \<Rightarrow> (m # sent, ok)) else ([], False))"

definition applicant_mail :: "audit_env \<Rightarrow> audited_loan \<Rightarrow> string \<Rightarrow> (string \<times> string) list \<Rightarrow> audit_mail list" where
  "applicant_mail env l key params =
     (case ae_applicant env (al_applicantId l) of
        None \<Rightarrow> []
      | Some (stellarAddress, preferredLocale) \<Rightarrow>
          [\<lparr>ml_recipient = stellarAddress @ ''@example.com'', ml_body = Localised preferredLocale key params\<rparr>])"

definition guarantor_mail :: "audited_loan \<Rightarrow> string \<Rightarrow> audit_mail list" where
  "guarantor_mail l content =
     (case truthy_text (al_guarantorAddress l) of
        None \<Rightarrow> []
      | Some g \<Rightarrow> [\<lparr>ml_recipient = g @ ''@example.com'', ml_body = Plain content\<rparr>])"

section \<open>Handlers\<close>

text \<open>The outcome of a handler: the row, the messages queued, and whether it ran to its end.\<close>

type_synonym audit_outcome = "audited_loan \<times> audit_mail list \<times> bool"

definition update_then_send :: "audit_env \<Rightarrow> audited_loan \<Rightarrow> audited_loan \<Rightarrow> audit_mail list \<Rightarrow> audit_outcome" where
  "update_then_send env l l' mails =
     (if al_status l' \<noteq> al_status l \<and> al_status l' \<notin> set (ae_statuses env) then (l, [], False) else (l', send_all env mails))"

definition handleEnterGracePeriod :: "audit_env \<Rightarrow> audited_loan \<Rightarrow> int \<Rightarrow> audit_outcome" where
  "handleEnterGracePeriod env l clock =
     update_then_send env l
       (l\<lparr>al_gracePeriodEndsAt := Some (add_utc_days clock GRACE_PERIOD_DAYS), al_version := al_version l + 1\<rparr>)
       (applicant_mail env l ''grace_period_body'' [(''days'', show_int GRACE_PERIOD_DAYS)] @
        guarantor_mail l (''Notice: A loan you co-signed is overdue. The borrower has entered a '' @
          show_int GRACE_PERIOD_DAYS @ ''-day grace period. '' @
          ''If the borrower does not pay within this period, your guarantor liability may be invoked.''))"

definition invokeGuarantorLiability :: "string \<Rightarrow> audited_loan \<Rightarrow> audit_mail list" where
  "invokeGuarantorLiability loanId l =
     guarantor_mail l (''GUARANTOR LIABILITY INVOKED: The primary borrower on loan '' @ loanId @ '' has defaulted. '' @
       ''As the co-signer/guarantor you are now liable for the outstanding debt. '' @
       ''Please contact support immediately to arrange repayment.'')"

definition handleMissedPayment :: "audit_env \<Rightarrow> string \<Rightarrow> audited_loan \<Rightarrow> int \<Rightarrow> audit_outcome" where
  "handleMissedPayment env loanId l clock =
     (let newMissedPayments = al_missedPayments l + 1;
          newLateFee = al_lateFeeBalance l + DEFAULT_LATE_FEE;
          base = l\<lparr>al_missedPayments := newMissedPayments, al_lateFeeBalance := newLateFee,
                   al_gracePeriodEndsAt := None, al_version := al_version l + 1\<rparr>
      in if 3 \<le> newMissedPayments
         then update_then_send env l (base\<lparr>al_status := ''DEFAULTED''\<rparr>)
           (applicant_mail env l ''defaulted_body'' [] @ invokeGuarantorLiability loanId l)
         else update_then_send env l (base\<lparr>al_dueDate := Some (add_utc_days clock 30)\<rparr>)
           (applicant_mail env l ''missed_payment_body'' [(''fee'', ''50'')] @
            guarantor_mail l (''Notice: A loan you co-signed has a missed payment (missed '' @ show_int newMissedPayments @
              '' of 3). A late fee of $50 has been applied to the borrower'' @ [CHR 39] @ ''s account.'')))"

definition handleDefault :: "audit_env \<Rightarrow> string \<Rightarrow> audited_loan \<Rightarrow> audit_outcome" where
  "handleDefault env loanId l =
     update_then_send env l
       (l\<lparr>al_status := ''DEFAULTED'', al_gracePeriodEndsAt := None, al_version := al_version l + 1\<rparr>)
       (applicant_mail env l ''defaulted_body'' [] @ invokeGuarantorLiability loanId l)"

section \<open>A pass\<close>

datatype audit_mark = Untouched | Processed | Failed

definition marked :: "audit_outcome \<Rightarrow> audited_loan \<times> audit_mail list \<times> audit_mark" where
  "marked r = (case r of (l, mails, ok) \<Rightarrow> (l, mails, if ok then Processed else Failed))"

definition audit_loan :: "audit_env \<Rightarrow> int \<Rightarrow> int \<Rightarrow> string \<Rightarrow> audited_loan \<Rightarrow> audited_loan \<times> audit_mail list \<times> audit_mark" where
  "audit_loan env now clock loanId l =
     (case al_dueDate l of
        None \<Rightarrow> (l, [], Untouched)
      | Some due \<Rightarrow>
          if 3 \<le> al_missedPayments l then marked (handleDefault env loanId l)
          else case al_gracePeriodEndsAt l of
            None \<Rightarrow> if due < now then marked (handleEnterGracePeriod env l clock) else (l, [], Untouched)
          | Some graceEnd \<Rightarrow>
              if graceEnd < now then marked (handleMissedPayment env loanId l clock) else (l, [], Untouched))"

definition active_loan :: "audited_loan \<Rightarrow> bool" where
  "active_loan l \<longleftrightarrow> al_status l \<in> set AUDITED_STATUSES \<and> al_deletedAt l = None"

record audit_pass =
  ap_env :: audit_env
  ap_now :: int
  ap_clock :: "string \<Rightarrow> int"

definition audit_loan_row :: "audit_pass \<Rightarrow> string \<times> audited_loan \<Rightarrow> audited_loan \<times> audit_mail list \<times> audit_mark" where
  "audit_loan_row p row =
     (if active_loan (snd row) then audit_loan (ap_env p) (ap_now p) (ap_clock p (fst row)) (fst row) (snd row)
      else (snd row, [], Untouched))"

definition runRepaymentAudit :: "(string, audited_loan) js_map \<Rightarrow> audit_pass \<Rightarrow>
    (string, audited_loan) js_map \<times> audit_mail list \<times> nat \<times> nat" where
  "runRepaymentAudit loans p =
     (map (\<lambda>row. (fst row, fst (audit_loan_row p row))) loans,
      concat (map (\<lambda>row. fst (snd (audit_loan_row p row))) loans),
      length (filter (\<lambda>row. snd (snd (audit_loan_row p row)) = Processed) loans),
      length (filter (\<lambda>row. snd (snd (audit_loan_row p row)) = Failed) loans))"

definition audit_days :: "(string, audited_loan) js_map \<Rightarrow> audit_pass list \<Rightarrow> (string, audited_loan) js_map" where
  "audit_days loans ps = foldl (\<lambda>ls p. fst (runRepaymentAudit ls p)) loans ps"

section \<open>What a loan is charged, and when it defaults\<close>

text \<open>
  The earliest time at which a loan can default, given the payments it has missed: the end of its grace
  period, or three days after its due date, and a term of thirty days with another grace period for each
  payment it may still miss before.
\<close>

definition earliest_default :: "audited_loan \<Rightarrow> int" where
  "earliest_default l =
     (case al_gracePeriodEndsAt l of
        Some g \<Rightarrow> g
      | None \<Rightarrow> add_utc_days (or_else (al_dueDate l) 0) GRACE_PERIOD_DAYS) +
     (2 - al_missedPayments l) * add_utc_days 0 (30 + GRACE_PERIOD_DAYS)"

definition on_track :: "rat \<Rightarrow> int \<Rightarrow> audited_loan \<Rightarrow> bool" where
  "on_track fee0 bound l \<longleftrightarrow> al_lateFeeBalance l = fee0 + DEFAULT_LATE_FEE * of_int (al_missedPayments l) \<and>
     (if al_status l = ''DEFAULTED'' then al_missedPayments l = 3
      else al_dueDate l \<noteq> None \<and> 0 \<le> al_missedPayments l \<and> al_missedPayments l \<le> 2 \<and> bound \<le> earliest_default l)"

lemma fst_marked_update [simp]:
  "fst (marked (update_then_send env l l' ms)) =
     (if al_status l' \<noteq> al_status l \<and> al_status l' \<notin> set (ae_statuses env) then l else l')"
  by (auto simp: marked_def update_then_send_def split: prod.split)

lemma enter_grace_on_track:
  assumes "on_track fee0 bound l" "al_status l \<noteq> ''DEFAULTED''" "al_gracePeriodEndsAt l = None"
    "al_dueDate l = Some due" "due < now" "now \<le> clock"
  shows "on_track fee0 bound (fst (marked (handleEnterGracePeriod env l clock)))"
  using assms by (simp add: handleEnterGracePeriod_def on_track_def earliest_default_def add_utc_days_def)

lemma miss_on_track:
  assumes "on_track fee0 bound l" "al_status l \<noteq> ''DEFAULTED''" "al_gracePeriodEndsAt l = Some g" "g < now" "now \<le> clock"
  shows "on_track fee0 bound (fst (marked (handleMissedPayment env k l clock)))"
    "al_status (fst (marked (handleMissedPayment env k l clock))) = ''DEFAULTED'' \<Longrightarrow> bound < now"
  using assms
  by (auto simp: handleMissedPayment_def Let_def on_track_def earliest_default_def add_utc_days_def GRACE_PERIOD_DAYS_def
      DEFAULT_LATE_FEE_def algebra_simps split: if_splits)

lemma audit_loan_row_on_track:
  assumes "on_track fee0 bound l" "ap_now p \<le> ap_clock p k"
  shows "on_track fee0 bound (fst (audit_loan_row p (k, l)))"
    "al_status (fst (audit_loan_row p (k, l))) = ''DEFAULTED'' \<Longrightarrow> al_status l = ''DEFAULTED'' \<or> bound < ap_now p"
proof -
  have "on_track fee0 bound (fst (audit_loan_row p (k, l))) \<and>
      (al_status (fst (audit_loan_row p (k, l))) = ''DEFAULTED'' \<longrightarrow> al_status l = ''DEFAULTED'' \<or> bound < ap_now p)"
  proof (cases "active_loan l")
    case False
    then show ?thesis using assms(1) by (simp add: audit_loan_row_def)
  next
    case True
    then have live: "al_status l \<noteq> ''DEFAULTED''" by (auto simp: active_loan_def AUDITED_STATUSES_def)
    with assms(1) have "\<not> 3 \<le> al_missedPayments l" by (simp add: on_track_def)
    with True live assms enter_grace_on_track [OF assms(1) live, of _ "ap_now p" "ap_clock p k"]
      miss_on_track [OF assms(1) live, of _ "ap_now p" "ap_clock p k"]
    show ?thesis
      by (auto simp: audit_loan_row_def audit_loan_def handleEnterGracePeriod_def split: option.split)
  qed
  then show "on_track fee0 bound (fst (audit_loan_row p (k, l)))"
    "al_status (fst (audit_loan_row p (k, l))) = ''DEFAULTED'' \<Longrightarrow> al_status l = ''DEFAULTED'' \<or> bound < ap_now p" by blast+
qed

lemma map_get_rows: "map_get (map (\<lambda>row. (fst row, f row)) m) k = map_option (\<lambda>v. f (k, v)) (map_get m k)"
  by (induction m) auto

lemma map_get_pass:
  "map_get (fst (runRepaymentAudit loans p)) k = map_option (\<lambda>l. fst (audit_loan_row p (k, l))) (map_get loans k)"
  by (simp add: runRepaymentAudit_def map_get_rows)

lemma audit_days_on_track:
  "map_get loans k = Some l \<Longrightarrow> on_track fee0 bound l \<Longrightarrow> \<forall>p\<in>set ps. ap_now p \<le> ap_clock p k \<Longrightarrow>
     \<exists>l'. map_get (audit_days loans ps) k = Some l' \<and> on_track fee0 bound l' \<and>
       (al_status l' = ''DEFAULTED'' \<longrightarrow> al_status l = ''DEFAULTED'' \<or> (\<exists>p\<in>set ps. bound < ap_now p))"
proof (induction ps arbitrary: loans l)
  case Nil
  then show ?case by (simp add: audit_days_def)
next
  case (Cons p ps)
  have one: "on_track fee0 bound (fst (audit_loan_row p (k, l)))"
    "al_status (fst (audit_loan_row p (k, l))) = ''DEFAULTED'' \<Longrightarrow> al_status l = ''DEFAULTED'' \<or> bound < ap_now p"
    using audit_loan_row_on_track [OF Cons.prems(2), of p k] Cons.prems(3) by auto
  have "map_get (fst (runRepaymentAudit loans p)) k = Some (fst (audit_loan_row p (k, l)))"
    using Cons.prems(1) by (simp add: map_get_pass)
  from Cons.IH [OF this one(1)] Cons.prems(3) one(2) show ?case by (auto simp: audit_days_def)
qed

text \<open>
  C16. A loan that has missed nothing and is not in a grace period does not default before sixty-nine
  days after its due date, three grace periods of three days and two terms of thirty days, whatever the
  days, failures and statuses of the passes; it is charged fifty for each payment it missed, and a
  default means exactly three of them.
\<close>

theorem no_early_default:
  assumes "map_get loans k = Some l" and "active_loan l" and "al_dueDate l = Some due"
    and "al_gracePeriodEndsAt l = None" and "al_missedPayments l = 0"
    and "\<forall>p\<in>set ps. ap_now p \<le> ap_clock p k"
  shows "\<exists>l'. map_get (audit_days loans ps) k = Some l' \<and>
    al_lateFeeBalance l' = al_lateFeeBalance l + 50 * of_int (al_missedPayments l') \<and>
    (al_status l' = ''DEFAULTED'' \<longleftrightarrow> al_missedPayments l' = 3) \<and> al_missedPayments l' \<le> 3 \<and>
    (al_status l' = ''DEFAULTED'' \<longrightarrow> (\<exists>p\<in>set ps. add_utc_days due 69 < ap_now p))"
proof -
  have live: "al_status l \<noteq> ''DEFAULTED''" using assms(2) by (auto simp: active_loan_def AUDITED_STATUSES_def)
  then have "on_track (al_lateFeeBalance l) (add_utc_days due 69) l"
    using assms by (simp add: on_track_def earliest_default_def add_utc_days_def GRACE_PERIOD_DAYS_def)
  from audit_days_on_track [OF assms(1) this assms(6)] live obtain l' where
    row: "map_get (audit_days loans ps) k = Some l'" and track: "on_track (al_lateFeeBalance l) (add_utc_days due 69) l'"
    and default: "al_status l' = ''DEFAULTED'' \<longrightarrow> (\<exists>p\<in>set ps. add_utc_days due 69 < ap_now p)" by blast
  from track have "al_lateFeeBalance l' = al_lateFeeBalance l + 50 * of_int (al_missedPayments l')"
    "al_status l' = ''DEFAULTED'' \<longleftrightarrow> al_missedPayments l' = 3" "al_missedPayments l' \<le> 3"
    by (auto simp: on_track_def DEFAULT_LATE_FEE_def split: if_splits)
  with row default show ?thesis by blast
qed

definition audited0 :: audited_loan where
  "audited0 = \<lparr>al_status = ''Repaying'', al_deletedAt = None, al_dueDate = Some 0, al_missedPayments = 0,
     al_lateFeeBalance = 10, al_gracePeriodEndsAt = None, al_applicantId = ''a1'', al_guarantorAddress = Some ''GG'', al_version = 1\<rparr>"

definition audit_env0 :: "string list \<Rightarrow> audit_env" where
  "audit_env0 statuses = \<lparr>ae_statuses = statuses, ae_applicant = (\<lambda>a. Some (''GB'', None)), ae_queued = (\<lambda>m. True)\<rparr>"

definition pass0 :: "string list \<Rightarrow> int \<Rightarrow> audit_pass" where
  "pass0 statuses day = \<lparr>ap_env = audit_env0 statuses, ap_now = add_utc_days 1 day, ap_clock = (\<lambda>k. add_utc_days 1 day)\<rparr>"

lemma no_early_default_witness:
  "\<exists>l'. map_get (audit_days [(''L1'', audited0)] (map (pass0 [''DEFAULTED'']) [0, 4, 35, 39, 70, 74])) ''L1'' = Some l' \<and>
    al_status l' = ''DEFAULTED'' \<and> al_missedPayments l' = 3 \<and> al_lateFeeBalance l' = 160 \<and>
    (\<exists>p\<in>set (map (pass0 [''DEFAULTED'']) [0, 4, 35, 39, 70, 74]). add_utc_days 0 69 < ap_now p)"
proof -
  let ?run = "audit_days [(''L1'', audited0)] (map (pass0 [''DEFAULTED'']) [0, 4, 35, 39, 70, 74])"
  have "map_option al_status (map_get ?run ''L1'') = Some ''DEFAULTED''" by code_simp
  moreover have "\<exists>l'. map_get ?run ''L1'' = Some l' \<and>
    al_lateFeeBalance l' = al_lateFeeBalance audited0 + 50 * of_int (al_missedPayments l') \<and>
    (al_status l' = ''DEFAULTED'' \<longleftrightarrow> al_missedPayments l' = 3) \<and> al_missedPayments l' \<le> 3 \<and>
    (al_status l' = ''DEFAULTED'' \<longrightarrow>
       (\<exists>p\<in>set (map (pass0 [''DEFAULTED'']) [0, 4, 35, 39, 70, 74]). add_utc_days 0 69 < ap_now p))"
    by (rule no_early_default) (simp_all add: audited0_def active_loan_def AUDITED_STATUSES_def pass0_def)
  ultimately show ?thesis by (elim exE) (auto simp: audited0_def simp del: set_map list.map)
qed

section \<open>The statuses of the schema\<close>

text \<open>
  The schema's statuses have no \<^verbatim>\<open>DEFAULTED\<close>: a client with those statuses refuses the update of the
  third missed payment, the row keeps its expired grace period, and every later pass fails on it again.
\<close>

lemma third_miss_refused:
  assumes "ae_statuses (ap_env p) = LOAN_STATUSES" "active_loan l" "al_dueDate l \<noteq> None"
    "al_missedPayments l = 2" "al_gracePeriodEndsAt l = Some g" "g < ap_now p"
  shows "audit_loan_row p (k, l) = (l, [], Failed)"
  using assms
  by (auto simp: audit_loan_row_def audit_loan_def handleMissedPayment_def Let_def update_then_send_def marked_def
      LOAN_STATUSES_def active_loan_def AUDITED_STATUSES_def)

text \<open>
  A message to the applicant that cannot be queued keeps the demand to the guarantor of a defaulted loan
  from being sent, and the loan, no longer audited, is not visited again.
\<close>

lemma guarantor_never_told:
  assumes "ae_applicant env (al_applicantId l) = Some (a, lang)"
    "\<not> ae_queued env \<lparr>ml_recipient = a @ ''@example.com'', ml_body = Localised lang ''defaulted_body'' []\<rparr>"
    "''DEFAULTED'' \<in> set (ae_statuses env)"
  shows "handleDefault env k l =
    (l\<lparr>al_status := ''DEFAULTED'', al_gracePeriodEndsAt := None, al_version := al_version l + 1\<rparr>, [], False)"
  using assms by (simp add: handleDefault_def update_then_send_def applicant_mail_def)

end
