(* ===== verification/LeaderElection.thy ===== *)
theory LeaderElection
  imports Prelude "HOL-Library.Word"
begin

text \<open>
  Leader election for scheduled jobs, \<^verbatim>\<open>backend/src/services/jobLeaderElection.ts\<close>: several instances call
  \<^verbatim>\<open>run\<close> for the same job and each call goes through its awaits one at a time. The state is the database,
  that is the advisory locks and the rows of \<^verbatim>\<open>ScheduledJobRun\<close>, the calls with the place each is at, and the
  clock. A step moves one call past one await, crashes its instance, loses its lock transaction, or lets
  time pass. The digest of a lock key is an argument; metrics and log lines are left out. The lemmas show
  mutual exclusion and the spacing of runs.
\<close>

section \<open>Keys and rows\<close>

definition DEFAULT_MIN_INTERVAL_MS :: int where
  "DEFAULT_MIN_INTERVAL_MS = 30000"

text \<open>\<open>digest\<close> is the SHA-256 hash of a text, as its bytes.\<close>

definition read_be :: "8 word list \<Rightarrow> int" where
  "read_be bs = foldl (\<lambda>n b. n * 256 + uint b) 0 (take 8 bs)"

definition advisoryLockKey :: "(string \<Rightarrow> 8 word list) \<Rightarrow> string \<Rightarrow> string" where
  "advisoryLockKey digest jobName =
     show_int (sint (word_of_int (read_be (digest (''remitmortgage:scheduled-job:'' @ jobName))) :: 64 word))"

datatype run_status = Running | Succeeded | Failed | Abandoned

record run_record =
  jr_jobName :: string
  jr_instanceId :: string
  jr_status :: run_status
  jr_startedAt :: int
  jr_finishedAt :: "int option"
  jr_durationMs :: "int option"
  jr_error :: "string option"

text \<open>The rows in the order they were created; a row's identifier is its place.\<close>

definition abandonRunning :: "run_record list \<Rightarrow> string \<Rightarrow> int \<Rightarrow> run_record list" where
  "abandonRunning rows jobName now =
     map (\<lambda>r. if jr_jobName r = jobName \<and> jr_status r = Running
              then r\<lparr>jr_status := Abandoned, jr_finishedAt := Some now\<rparr> else r) rows"

definition completed_run :: "string \<Rightarrow> run_record \<Rightarrow> bool" where
  "completed_run jobName r \<longleftrightarrow> jr_jobName r = jobName \<and> jr_status r \<in> {Succeeded, Failed}"

definition findLastCompleted :: "run_record list \<Rightarrow> string \<Rightarrow> run_record option" where
  "findLastCompleted rows jobName =
     (case rev (sort_key jr_startedAt (filter (completed_run jobName) rows)) of [] \<Rightarrow> None | r # _ \<Rightarrow> Some r)"

definition start_run :: "run_record list \<Rightarrow> string \<Rightarrow> string \<Rightarrow> int \<Rightarrow> run_record list" where
  "start_run rows jobName instanceId startedAt =
     rows @ [\<lparr>jr_jobName = jobName, jr_instanceId = instanceId, jr_status = Running, jr_startedAt = startedAt,
              jr_finishedAt = None, jr_durationMs = None, jr_error = None\<rparr>]"

definition finish_run :: "run_record list \<Rightarrow> nat \<Rightarrow> int \<Rightarrow> int \<Rightarrow> string option \<Rightarrow> run_record list" where
  "finish_run rows rid startedAt now err =
     rows[rid := (rows ! rid)\<lparr>jr_status := (if err = None then Succeeded else Failed), jr_finishedAt := Some now,
       jr_durationMs := Some (now - startedAt), jr_error := map_option (take 1000) err\<rparr>]"

section \<open>Calls\<close>

datatype skip_reason = Lock_held | Recently_run

datatype run_result = Executed nat | Skipped skip_reason | Threw

text \<open>The place of a call: what it is about to do, with the values it has read.\<close>

datatype phase =
    Acquiring
  | Sweeping
  | Looking
  | Deciding "run_record option"
  | Stamping
  | Starting int
  | In_job nat int
  | Recording nat int "string option"
  | Releasing run_result
  | Returned run_result

record leader_call =
  lc_jobName :: string
  lc_instanceId :: string
  lc_minInterval :: int
  lc_phase :: phase
  lc_lost :: bool

record election =
  el_now :: int
  el_locks :: "(string, nat) js_map"
  el_runs :: "run_record list"
  el_calls :: "(nat, leader_call) js_map"

text \<open>
  What an awaited operation answers: it succeeds, or it throws with a message. In \<open>In_job\<close> it is the job
  that succeeds or throws.
\<close>

datatype answer = Ok | Error string

definition at_phase :: "election \<Rightarrow> nat \<Rightarrow> leader_call \<Rightarrow> phase \<Rightarrow> election" where
  "at_phase s c k ph = s\<lparr>el_calls := map_set (el_calls s) c (k\<lparr>lc_phase := ph\<rparr>)\<rparr>"

fun advance_call :: "(string \<Rightarrow> 8 word list) \<Rightarrow> election \<Rightarrow> nat \<Rightarrow> leader_call \<Rightarrow> answer \<Rightarrow> election" where
  "advance_call digest s c k a =
     (let jobName = lc_jobName k; key = advisoryLockKey digest jobName; now = el_now s in
      case lc_phase k of
        Acquiring \<Rightarrow>
          (case a of
             Error _ \<Rightarrow> at_phase s c k (Returned Threw)
           | Ok \<Rightarrow>
               if map_get (el_locks s) key \<noteq> None then at_phase s c k (Returned (Skipped Lock_held))
               else at_phase (s\<lparr>el_locks := map_set (el_locks s) key c\<rparr>) c k Sweeping)
      | Sweeping \<Rightarrow>
          (case a of
             Error _ \<Rightarrow> at_phase s c k (Releasing Threw)
           | Ok \<Rightarrow> at_phase (s\<lparr>el_runs := abandonRunning (el_runs s) jobName now\<rparr>) c k Looking)
      | Looking \<Rightarrow>
          (case a of
             Error _ \<Rightarrow> at_phase s c k (Releasing Threw)
           | Ok \<Rightarrow> at_phase s c k (Deciding (findLastCompleted (el_runs s) jobName)))
      | Deciding prior \<Rightarrow>
          (case prior of
             None \<Rightarrow> at_phase s c k Stamping
           | Some r \<Rightarrow>
               if now - jr_startedAt r < lc_minInterval k then at_phase s c k (Releasing (Skipped Recently_run))
               else at_phase s c k Stamping)
      | Stamping \<Rightarrow> at_phase s c k (Starting now)
      | Starting startedAt \<Rightarrow>
          (case a of
             Error _ \<Rightarrow> at_phase s c k (Releasing Threw)
           | Ok \<Rightarrow> at_phase (s\<lparr>el_runs := start_run (el_runs s) jobName (lc_instanceId k) startedAt\<rparr>) c k
                     (In_job (length (el_runs s)) startedAt))
      | In_job rid startedAt \<Rightarrow>
          (case a of
             Error e \<Rightarrow> at_phase s c k (Recording rid startedAt (Some e))
           | Ok \<Rightarrow> at_phase s c k (Recording rid startedAt None))
      | Recording rid startedAt err \<Rightarrow>
          (case a of
             Error e \<Rightarrow>
               if err = None then at_phase s c k (Recording rid startedAt (Some e))
               else at_phase s c k (Releasing Threw)
           | Ok \<Rightarrow> at_phase (s\<lparr>el_runs := finish_run (el_runs s) rid startedAt now err\<rparr>) c k
                     (Releasing (if err = None then Executed rid else Threw)))
      | Releasing r \<Rightarrow>
          at_phase (if lc_lost k then s else s\<lparr>el_locks := map_delete (el_locks s) key\<rparr>) c k (Returned r)
      | Returned r \<Rightarrow> s)"

definition critical :: "leader_call \<Rightarrow> bool" where
  "critical k \<longleftrightarrow> (case lc_phase k of Acquiring \<Rightarrow> False | Returned _ \<Rightarrow> False | _ \<Rightarrow> True)"

definition holds_lock :: "leader_call \<Rightarrow> bool" where
  "holds_lock k \<longleftrightarrow> critical k \<and> \<not> lc_lost k"

definition free_lock :: "(string \<Rightarrow> 8 word list) \<Rightarrow> election \<Rightarrow> leader_call \<Rightarrow> election" where
  "free_lock digest s k =
     (if holds_lock k then s\<lparr>el_locks := map_delete (el_locks s) (advisoryLockKey digest (lc_jobName k))\<rparr> else s)"

section \<open>Steps\<close>

text \<open>
  \<open>lossy\<close> tells whether a lock transaction may end before the call releases it, by its timeout or a lost
  connection; \<open>interval\<close> is the minimum interval each job is scheduled with. A crash ends a call, and
  with its connection its lock.
\<close>

inductive election_step :: "(string \<Rightarrow> 8 word list) \<Rightarrow> bool \<Rightarrow> (string \<Rightarrow> int) \<Rightarrow> election \<Rightarrow> election \<Rightarrow> bool"
  for digest lossy interval
where
  begin_call: "map_get (el_calls s) c = None \<Longrightarrow>
     election_step digest lossy interval s (s\<lparr>el_calls := map_set (el_calls s) c
       \<lparr>lc_jobName = job, lc_instanceId = inst, lc_minInterval = interval job, lc_phase = Acquiring, lc_lost = False\<rparr>\<rparr>)"
| advance: "map_get (el_calls s) c = Some k \<Longrightarrow>
     election_step digest lossy interval s (advance_call digest s c k a)"
| crash: "map_get (el_calls s) c = Some k \<Longrightarrow>
     election_step digest lossy interval s ((free_lock digest s k)\<lparr>el_calls := map_delete (el_calls s) c\<rparr>)"
| lose: "lossy \<Longrightarrow> map_get (el_calls s) c = Some k \<Longrightarrow> holds_lock k \<Longrightarrow>
     election_step digest lossy interval s
       ((free_lock digest s k)\<lparr>el_calls := map_set (el_calls s) c (k\<lparr>lc_lost := True\<rparr>)\<rparr>)"
| tick: "0 \<le> d \<Longrightarrow> election_step digest lossy interval s (s\<lparr>el_now := el_now s + d\<rparr>)"

inductive reachable :: "(string \<Rightarrow> 8 word list) \<Rightarrow> bool \<Rightarrow> (string \<Rightarrow> int) \<Rightarrow> election \<Rightarrow> bool"
  for digest lossy interval
where
  at_rest: "reachable digest lossy interval \<lparr>el_now = t, el_locks = [], el_runs = [], el_calls = []\<rparr>"
| one_more: "reachable digest lossy interval s \<Longrightarrow> election_step digest lossy interval s t \<Longrightarrow>
     reachable digest lossy interval t"

section \<open>Mutual exclusion\<close>

definition lock_inv :: "(string \<Rightarrow> 8 word list) \<Rightarrow> election \<Rightarrow> bool" where
  "lock_inv digest s \<longleftrightarrow> (\<forall>c k. map_get (el_calls s) c = Some k \<longrightarrow> holds_lock k \<longrightarrow>
     map_get (el_locks s) (advisoryLockKey digest (lc_jobName k)) = Some c)"

text \<open>
  A step of one call changes that call, and either leaves the locks as they are or takes or frees the
  lock of the job the call is for.
\<close>

lemma at_phase_sel [simp]:
  "el_locks (at_phase s c k ph) = el_locks s" "el_runs (at_phase s c k ph) = el_runs s" "el_now (at_phase s c k ph) = el_now s"
  "el_calls (at_phase s c k ph) = map_set (el_calls s) c (k\<lparr>lc_phase := ph\<rparr>)"
  by (simp_all add: at_phase_def)

lemma holds_phase [simp]: "holds_lock (k\<lparr>lc_phase := ph\<rparr>) \<longleftrightarrow> critical (k\<lparr>lc_phase := ph\<rparr>) \<and> \<not> lc_lost k"
  by (auto simp: holds_lock_def critical_def split: phase.splits)

lemma critical_phase [simp]:
  "critical (k\<lparr>lc_phase := ph\<rparr>) \<longleftrightarrow> (case ph of Acquiring \<Rightarrow> False | Returned _ \<Rightarrow> False | _ \<Rightarrow> True)"
  by (simp add: critical_def)

lemma keys_apart:
  assumes "lock_inv digest s" "map_get (el_calls s) c = Some k" "map_get (el_calls s) d = Some m"
    "holds_lock k" "holds_lock m" "c \<noteq> d"
  shows "advisoryLockKey digest (lc_jobName k) \<noteq> advisoryLockKey digest (lc_jobName m)"
proof
  assume "advisoryLockKey digest (lc_jobName k) = advisoryLockKey digest (lc_jobName m)"
  moreover have "map_get (el_locks s) (advisoryLockKey digest (lc_jobName k)) = Some c"
    "map_get (el_locks s) (advisoryLockKey digest (lc_jobName m)) = Some d"
    using assms unfolding lock_inv_def by blast+
  ultimately show False using assms(6) by simp
qed

lemma lock_inv_advance:
  assumes inv: "lock_inv digest s" and k: "map_get (el_calls s) c = Some k"
  shows "lock_inv digest (advance_call digest s c k a)"
proof -
  have mine: "map_get (el_locks s) (advisoryLockKey digest (lc_jobName k)) = Some c" if "holds_lock k"
    using inv k that by (auto simp: lock_inv_def)
  have other: "map_get (el_locks s) (advisoryLockKey digest (lc_jobName m)) = Some d"
    if "map_get (el_calls s) d = Some m" "holds_lock m" for d m
    using inv that by (auto simp: lock_inv_def)
  show ?thesis
  proof (cases "lc_phase k")
    case Acquiring
    then show ?thesis using other
      by (auto simp: lock_inv_def Let_def split: answer.split) force+
  next
    case (Releasing r)
    have "advisoryLockKey digest (lc_jobName m) \<noteq> advisoryLockKey digest (lc_jobName k)"
      if "map_get (el_calls s) d = Some m" "holds_lock m" "d \<noteq> c" "\<not> lc_lost k" for d m
      using other [OF that(1,2)] mine that Releasing by (auto simp: holds_lock_def critical_def)
    then show ?thesis using Releasing other by (auto simp: lock_inv_def Let_def)
  next
    case (Returned r)
    then show ?thesis using inv by simp
  qed (use mine other in \<open>auto simp: lock_inv_def Let_def holds_lock_def critical_def split: answer.splits option.splits\<close>)
qed

lemma lock_inv_step:
  assumes "election_step digest lossy interval s t" "lock_inv digest s"
  shows "lock_inv digest t"
  using assms
proof (cases rule: election_step.cases)
  case (begin_call c job inst)
  then show ?thesis using assms(2) by (auto simp: lock_inv_def holds_lock_def critical_def)
next
  case (advance c k a)
  then show ?thesis using lock_inv_advance assms(2) by simp
next
  case (crash c k)
  have "advisoryLockKey digest (lc_jobName m) \<noteq> advisoryLockKey digest (lc_jobName k)"
    if "map_get (el_calls s) d = Some m" "holds_lock m" "d \<noteq> c" "holds_lock k" for d m
    using keys_apart [OF assms(2) crash(2) that(1)] that by auto
  with crash assms(2) show ?thesis by (auto simp: lock_inv_def free_lock_def)
next
  case (lose c k)
  have "advisoryLockKey digest (lc_jobName m) \<noteq> advisoryLockKey digest (lc_jobName k)"
    if "map_get (el_calls s) d = Some m" "holds_lock m" "d \<noteq> c" for d m
    using keys_apart [OF assms(2) lose(3) that(1)] lose(4) that by auto
  with lose assms(2) show ?thesis by (auto simp: lock_inv_def free_lock_def holds_lock_def)
next
  case (tick d)
  then show ?thesis using assms(2) by (simp add: lock_inv_def)
qed

lemma reachable_lock_inv: "reachable digest lossy interval s \<Longrightarrow> lock_inv digest s"
proof (induction rule: reachable.induct)
  case (at_rest t)
  then show ?case by (simp add: lock_inv_def)
next
  case (one_more s t)
  then show ?case using lock_inv_step by blast
qed

section \<open>The rows of a job\<close>

definition rows_of :: "string \<Rightarrow> run_record list \<Rightarrow> (nat \<times> run_record) list" where
  "rows_of job rows = filter (\<lambda>(i, r). jr_jobName r = job) (enumerate 0 rows)"

definition abandoned_at :: "int \<Rightarrow> run_record \<Rightarrow> run_record" where
  "abandoned_at now r = (if jr_status r = Running then r\<lparr>jr_status := Abandoned, jr_finishedAt := Some now\<rparr> else r)"

lemma enumerate_map: "enumerate n (map f xs) = map (\<lambda>(i, x). (i, f x)) (enumerate n xs)"
  by (induction xs arbitrary: n) auto

lemma rows_of_abandon:
  "rows_of job (abandonRunning rows job' now) =
     (if job = job' then map (\<lambda>(i, r). (i, abandoned_at now r)) (rows_of job rows) else rows_of job rows)"
proof -
  have one: "filter (\<lambda>(i, r). jr_jobName r = job) (map (\<lambda>(i, r). (i, if jr_jobName r = job' \<and> jr_status r = Running
        then r\<lparr>jr_status := Abandoned, jr_finishedAt := Some now\<rparr> else r)) xs) =
      (if job = job' then map (\<lambda>(i, r). (i, abandoned_at now r)) (filter (\<lambda>(i, r). jr_jobName r = job) xs)
       else filter (\<lambda>(i, r). jr_jobName r = job) xs)" for xs :: "(nat \<times> run_record) list"
    by (induction xs) (auto simp: abandoned_at_def split: if_splits)
  show ?thesis unfolding rows_of_def abandonRunning_def enumerate_map by (rule one)
qed

lemma rows_of_start:
  "rows_of job (start_run rows job' inst st) = rows_of job rows @
     (if job = job' then [(length rows, \<lparr>jr_jobName = job', jr_instanceId = inst, jr_status = Running, jr_startedAt = st,
        jr_finishedAt = None, jr_durationMs = None, jr_error = None\<rparr>)] else [])"
  by (simp add: rows_of_def start_run_def enumerate_append_eq)

lemma rows_of_update:
  assumes "rid < length rows" "jr_jobName r' = jr_jobName (rows ! rid)"
  shows "rows_of job (rows[rid := r']) = map (\<lambda>(i, r). if i = rid then (i, r') else (i, r)) (rows_of job rows)"
proof -
  have keep: "i \<noteq> rid" if "(i, x) \<in> set (enumerate 0 (take rid rows)) \<union> set (enumerate (Suc rid) (drop (Suc rid) rows))" for i x
    using that by (auto simp: in_set_enumerate_eq)
  have split: "enumerate 0 rows = enumerate 0 (take rid rows) @ (rid, rows ! rid) # enumerate (Suc rid) (drop (Suc rid) rows)"
    using assms(1) id_take_nth_drop [OF assms(1)] enumerate_append_eq [of 0 "take rid rows" "rows ! rid # drop (Suc rid) rows"]
    by simp
  have split': "enumerate 0 (rows[rid := r']) = enumerate 0 (take rid rows) @ (rid, r') # enumerate (Suc rid) (drop (Suc rid) rows)"
    using assms(1) upd_conv_take_nth_drop [OF assms(1)] by (simp add: enumerate_append_eq)
  have "map (\<lambda>(i, r). if i = rid then (i, r') else (i, r)) (filter Q xs) = filter Q xs"
    if "set xs \<subseteq> set (enumerate 0 (take rid rows)) \<union> set (enumerate (Suc rid) (drop (Suc rid) rows))"
    for Q and xs :: "(nat \<times> run_record) list"
    using that keep by (intro map_idI) (auto split: prod.splits)
  then show ?thesis unfolding rows_of_def split split' using assms(2) by auto
qed

lemma rows_of_index: "(i, r) \<in> set (rows_of job rows) \<Longrightarrow> i < length rows \<and> rows ! i = r \<and> jr_jobName r = job"
  by (auto simp: rows_of_def in_set_enumerate_eq)

lemma rows_of_other_job:
  assumes "rid < length rows" "jr_jobName r' = jr_jobName (rows ! rid)" "jr_jobName (rows ! rid) \<noteq> job"
  shows "rows_of job (rows[rid := r']) = rows_of job rows"
  unfolding rows_of_update [OF assms(1,2)] using assms(3)
  by (intro map_idI) (auto dest!: rows_of_index)

lemma distinct_rows_of: "distinct (map fst (rows_of job rows))"
  unfolding rows_of_def by (rule distinct_map_filter) simp

lemma sorted_rows_of:
  assumes "sorted_wrt P (rows_of job rows)" "i < j" "j < length rows" "jr_jobName (rows ! i) = job" "jr_jobName (rows ! j) = job"
  shows "P (i, rows ! i) (j, rows ! j)"
proof -
  have "enumerate 0 rows = enumerate 0 (take j rows) @ (j, rows ! j) # enumerate (Suc j) (drop (Suc j) rows)"
    using assms(3) id_take_nth_drop [OF assms(3)] enumerate_append_eq [of 0 "take j rows" "rows ! j # drop (Suc j) rows"]
    by simp
  then have "rows_of job rows = rows_of job (take j rows) @ (j, rows ! j) #
      filter (\<lambda>(i, r). jr_jobName r = job) (enumerate (Suc j) (drop (Suc j) rows))"
    by (simp add: rows_of_def assms(5))
  moreover have "(i, rows ! i) \<in> set (rows_of job (take j rows))"
    using assms by (auto simp: rows_of_def in_set_enumerate_eq)
  ultimately show ?thesis using assms(1) by (auto simp: sorted_wrt_append)
qed

lemma last_completed:
  assumes "r \<in> set rows" "completed_run job r"
  shows "\<exists>q. findLastCompleted rows job = Some q \<and> jr_startedAt r \<le> jr_startedAt q"
proof -
  let ?l = "sort_key jr_startedAt (filter (completed_run job) rows)"
  have r: "r \<in> set ?l" using assms by simp
  then obtain q l where q: "?l = l @ [q]" by (metis append_butlast_last_id empty_iff empty_set)
  have "sorted (map jr_startedAt (l @ [q]))" using sorted_sort_key [of jr_startedAt] q by metis
  then have "jr_startedAt r \<le> jr_startedAt q" using r q by (auto simp: sorted_append)
  then show ?thesis by (simp add: findLastCompleted_def q)
qed

section \<open>The spacing of runs\<close>

abbreviation finished_row :: "run_record \<Rightarrow> bool" where
  "finished_row r \<equiv> jr_status r \<in> {Succeeded, Failed}"

definition idle :: "(nat \<times> run_record) list \<Rightarrow> bool" where
  "idle l \<longleftrightarrow> (\<forall>(i, r)\<in>set l. jr_status r \<noteq> Running)"

definition gap :: "int \<Rightarrow> (nat \<times> run_record) list \<Rightarrow> int \<Rightarrow> bool" where
  "gap m l t \<longleftrightarrow> (\<forall>(i, r)\<in>set l. finished_row r \<longrightarrow> jr_startedAt r + m \<le> t)"

definition spaced :: "int \<Rightarrow> (nat \<times> run_record) list \<Rightarrow> bool" where
  "spaced m l \<longleftrightarrow> sorted_wrt (\<lambda>(i, r) (j, q). finished_row r \<longrightarrow> jr_startedAt r + m \<le> jr_startedAt q) l"

text \<open>What a call knows of the rows of its job at each place, as long as it holds the lock.\<close>

definition in_run :: "int \<Rightarrow> (nat \<times> run_record) list \<Rightarrow> nat \<Rightarrow> int \<Rightarrow> bool" where
  "in_run m l rid st \<longleftrightarrow>
     (\<exists>l0 r. l = l0 @ [(rid, r)] \<and> jr_status r = Running \<and> jr_startedAt r = st \<and> idle l0 \<and> gap m l0 st)"

definition phase_ok :: "int \<Rightarrow> int \<Rightarrow> (nat \<times> run_record) list \<Rightarrow> phase \<Rightarrow> bool" where
  "phase_ok m now l ph \<longleftrightarrow>
     (case ph of
        Looking \<Rightarrow> idle l
      | Deciding p \<Rightarrow> idle l \<and> (\<forall>(i, r)\<in>set l. finished_row r \<longrightarrow> (\<exists>q. p = Some q \<and> jr_startedAt r \<le> jr_startedAt q))
      | Stamping \<Rightarrow> idle l \<and> gap m l now
      | Starting st \<Rightarrow> idle l \<and> gap m l st
      | In_job rid st \<Rightarrow> in_run m l rid st
      | Recording rid st e \<Rightarrow> in_run m l rid st
      | _ \<Rightarrow> True)"

definition run_inv :: "(string \<Rightarrow> int) \<Rightarrow> election \<Rightarrow> bool" where
  "run_inv interval s \<longleftrightarrow>
     (\<forall>c k. map_get (el_calls s) c = Some k \<longrightarrow> \<not> lc_lost k \<and> lc_minInterval k = interval (lc_jobName k) \<and>
        phase_ok (interval (lc_jobName k)) (el_now s) (rows_of (lc_jobName k) (el_runs s)) (lc_phase k)) \<and>
     (\<forall>job. spaced (interval job) (rows_of job (el_runs s)))"

lemma run_invD:
  assumes "run_inv interval s" "map_get (el_calls s) c = Some k"
  shows "\<not> lc_lost k" "lc_minInterval k = interval (lc_jobName k)"
    "phase_ok (interval (lc_jobName k)) (el_now s) (rows_of (lc_jobName k) (el_runs s)) (lc_phase k)"
  using assms by (auto simp: run_inv_def)

lemma phase_ok_idle: "\<not> critical k \<Longrightarrow> phase_ok m now l (lc_phase k)"
  by (auto simp: phase_ok_def critical_def split: phase.splits)

text \<open>
  A call moves: the rows of other jobs stay, and so does what the other calls know, since none of the
  same job is past its lock.
\<close>

lemma run_inv_move:
  assumes locks: "lock_inv digest s" and inv: "run_inv interval s" and k: "map_get (el_calls s) c = Some k"
    and s': "el_calls s' = map_set (el_calls s) c (k\<lparr>lc_phase := ph\<rparr>)" "el_now s' = el_now s"
    and rows: "\<And>job. job \<noteq> lc_jobName k \<Longrightarrow> rows_of job (el_runs s') = rows_of job (el_runs s)"
    and mine: "critical k \<or> rows_of (lc_jobName k) (el_runs s') = rows_of (lc_jobName k) (el_runs s)"
    and ok: "phase_ok (interval (lc_jobName k)) (el_now s) (rows_of (lc_jobName k) (el_runs s')) ph"
    and spaced: "spaced (interval (lc_jobName k)) (rows_of (lc_jobName k) (el_runs s'))"
  shows "run_inv interval s'"
proof -
  have "\<not> lc_lost m \<and> lc_minInterval m = interval (lc_jobName m) \<and>
      phase_ok (interval (lc_jobName m)) (el_now s') (rows_of (lc_jobName m) (el_runs s')) (lc_phase m)"
    if m: "map_get (el_calls s') d = Some m" for d m
  proof (cases "d = c")
    case True
    then show ?thesis using m run_invD [OF inv k] ok by (auto simp: s')
  next
    case False
    then have old: "map_get (el_calls s) d = Some m" using m by (simp add: s')
    note know = run_invD [OF inv old]
    have "phase_ok (interval (lc_jobName m)) (el_now s) (rows_of (lc_jobName m) (el_runs s')) (lc_phase m)"
    proof (cases "lc_jobName m = lc_jobName k \<and> critical k")
      case True
      have "holds_lock k" using True run_invD(1) [OF inv k] by (simp add: holds_lock_def)
      then have "\<not> holds_lock m" using keys_apart [OF locks k old] True False by auto
      then have "\<not> critical m" using know(1) by (simp add: holds_lock_def)
      then show ?thesis by (rule phase_ok_idle)
    next
      case False
      then have "rows_of (lc_jobName m) (el_runs s') = rows_of (lc_jobName m) (el_runs s)" using rows mine by metis
      then show ?thesis using know(3) by simp
    qed
    with know show ?thesis by (simp add: s')
  qed
  moreover have "spaced (interval job) (rows_of job (el_runs s'))" for job
    using spaced rows inv by (cases "job = lc_jobName k") (auto simp: run_inv_def)
  ultimately show ?thesis by (simp add: run_inv_def)
qed

lemma run_inv_stay:
  assumes "lock_inv digest s" "run_inv interval s" "map_get (el_calls s) c = Some k"
    "el_calls s' = map_set (el_calls s) c (k\<lparr>lc_phase := ph\<rparr>)" "el_now s' = el_now s" "el_runs s' = el_runs s"
    "phase_ok (interval (lc_jobName k)) (el_now s) (rows_of (lc_jobName k) (el_runs s)) ph"
  shows "run_inv interval s'"
  by (rule run_inv_move [OF assms(1-5)]) (use assms in \<open>auto simp: run_inv_def\<close>)

lemma run_inv_phase:
  assumes "lock_inv digest s" "run_inv interval s" "map_get (el_calls s) c = Some k"
    "phase_ok (interval (lc_jobName k)) (el_now s) (rows_of (lc_jobName k) (el_runs s)) ph"
  shows "run_inv interval (at_phase s c k ph)"
  by (rule run_inv_stay [OF assms(1-3) _ _ _ assms(4)]) simp_all

lemma spaced_snoc: "spaced m (l @ [(i, r)]) \<longleftrightarrow> spaced m l \<and> gap m l (jr_startedAt r)"
  by (auto simp: spaced_def gap_def sorted_wrt_append)

lemma gap_later: "gap m l t \<Longrightarrow> t \<le> t' \<Longrightarrow> gap m l t'"
  by (fastforce simp: gap_def)

lemma phase_ok_later: "phase_ok m now l ph \<Longrightarrow> now \<le> now' \<Longrightarrow> phase_ok m now' l ph"
  using gap_later by (auto simp: phase_ok_def split: phase.splits)

lemma idle_abandoned: "idle (map (\<lambda>(i, r). (i, abandoned_at now r)) l)"
  by (auto simp: idle_def abandoned_at_def split: if_splits)

lemma spaced_abandoned: "spaced m l \<Longrightarrow> spaced m (map (\<lambda>(i, r). (i, abandoned_at now r)) l)"
  unfolding spaced_def sorted_wrt_map by (erule sorted_wrt_mono_rel [rotated]) (auto simp: abandoned_at_def split: if_splits)

lemma run_inv_sweep:
  assumes "lock_inv digest s" "run_inv interval s" "map_get (el_calls s) c = Some k" "lc_phase k = Sweeping"
  shows "run_inv interval (at_phase (s\<lparr>el_runs := abandonRunning (el_runs s) (lc_jobName k) (el_now s)\<rparr>) c k Looking)"
proof (rule run_inv_move [OF assms(1-3), where ph = Looking])
  have "spaced (interval (lc_jobName k)) (rows_of (lc_jobName k) (el_runs s))" using assms(2) by (simp add: run_inv_def)
  then show "spaced (interval (lc_jobName k)) (rows_of (lc_jobName k)
      (el_runs (at_phase (s\<lparr>el_runs := abandonRunning (el_runs s) (lc_jobName k) (el_now s)\<rparr>) c k Looking)))"
    by (simp add: rows_of_abandon spaced_abandoned)
qed (use assms(4) in \<open>simp_all add: rows_of_abandon phase_ok_def idle_abandoned critical_def\<close>)

lemma run_inv_start:
  assumes "lock_inv digest s" "run_inv interval s" "map_get (el_calls s) c = Some k" "lc_phase k = Starting st"
  shows "run_inv interval (at_phase (s\<lparr>el_runs := start_run (el_runs s) (lc_jobName k) inst st\<rparr>) c k (In_job (length (el_runs s)) st))"
proof (rule run_inv_move [OF assms(1-3), where ph = "In_job (length (el_runs s)) st"])
  have know: "idle (rows_of (lc_jobName k) (el_runs s))" "gap (interval (lc_jobName k)) (rows_of (lc_jobName k) (el_runs s)) st"
    using run_invD(3) [OF assms(2,3)] assms(4) by (simp_all add: phase_ok_def)
  then show "phase_ok (interval (lc_jobName k)) (el_now s) (rows_of (lc_jobName k) (el_runs
      (at_phase (s\<lparr>el_runs := start_run (el_runs s) (lc_jobName k) inst st\<rparr>) c k (In_job (length (el_runs s)) st))))
      (In_job (length (el_runs s)) st)"
    by (auto simp: phase_ok_def rows_of_start in_run_def)
  have "spaced (interval (lc_jobName k)) (rows_of (lc_jobName k) (el_runs s))" using assms(2) by (simp add: run_inv_def)
  with know show "spaced (interval (lc_jobName k)) (rows_of (lc_jobName k) (el_runs
      (at_phase (s\<lparr>el_runs := start_run (el_runs s) (lc_jobName k) inst st\<rparr>) c k (In_job (length (el_runs s)) st))))"
    by (simp add: rows_of_start spaced_snoc)
qed (use assms(4) in \<open>simp_all add: rows_of_start critical_def\<close>)

lemma run_inv_finish:
  assumes "lock_inv digest s" "run_inv interval s" "map_get (el_calls s) c = Some k" "lc_phase k = Recording rid st err"
  shows "run_inv interval (at_phase (s\<lparr>el_runs := finish_run (el_runs s) rid st (el_now s) err\<rparr>) c k (Releasing r))"
proof -
  let ?J = "lc_jobName k" and ?rows = "el_runs s"
  let ?new = "(?rows ! rid)\<lparr>jr_status := (if err = None then Succeeded else Failed), jr_finishedAt := Some (el_now s),
      jr_durationMs := Some (el_now s - st), jr_error := map_option (take 1000) err\<rparr>"
  obtain l0 q where l: "rows_of ?J ?rows = l0 @ [(rid, q)]" and q: "jr_startedAt q = st" and gap: "gap (interval ?J) l0 st"
    using run_invD(3) [OF assms(2,3)] assms(4) by (auto simp: phase_ok_def in_run_def)
  then have rid: "rid < length ?rows" "?rows ! rid = q" "jr_jobName q = ?J" using rows_of_index [of rid q ?J ?rows] by auto
  have "rid \<notin> fst ` set l0" using distinct_rows_of [of ?J ?rows] by (simp add: l)
  then have "map (\<lambda>(i, r). if i = rid then (i, ?new) else (i, r)) l0 = l0" by (intro map_idI) (force split: prod.splits)
  then have own: "rows_of ?J (?rows[rid := ?new]) = l0 @ [(rid, ?new)]"
    using rows_of_update [OF rid(1), of ?new ?J] l by simp
  have other: "rows_of job (?rows[rid := ?new]) = rows_of job ?rows" if "job \<noteq> ?J" for job
    using rows_of_other_job [OF rid(1), of ?new job] rid(2,3) that by simp
  have "spaced (interval ?J) (rows_of ?J ?rows)" using assms(2) by (simp add: run_inv_def)
  then have "spaced (interval ?J) (l0 @ [(rid, ?new)])" using gap q rid(2) by (simp add: l spaced_snoc)
  then show ?thesis
    by (intro run_inv_move [OF assms(1-3), where ph = "Releasing r"])
      (use assms(4) other in \<open>simp_all add: finish_run_def own phase_ok_def critical_def\<close>)
qed

lemma run_inv_take_or_free:
  assumes "lock_inv digest s" "run_inv interval s" "map_get (el_calls s) c = Some k"
    "phase_ok (interval (lc_jobName k)) (el_now s) (rows_of (lc_jobName k) (el_runs s)) ph"
  shows "run_inv interval (at_phase (s\<lparr>el_locks := ls\<rparr>) c k ph)"
  by (rule run_inv_stay [OF assms(1-3) _ _ _ assms(4)]) simp_all

lemma run_inv_advance:
  assumes locks: "lock_inv digest s" and inv: "run_inv interval s" and k: "map_get (el_calls s) c = Some k"
  shows "run_inv interval (advance_call digest s c k a)"
proof -
  note move = run_inv_phase [OF assms] and know = run_invD(3) [OF inv k]
  show ?thesis
  proof (cases "lc_phase k")
    case Acquiring
    then show ?thesis
      by (auto simp: Let_def phase_ok_def split: answer.split intro!: move run_inv_take_or_free [OF assms])
  next
    case Sweeping
    then show ?thesis using run_inv_sweep [OF assms Sweeping]
      by (auto simp: Let_def phase_ok_def split: answer.split intro!: move)
  next
    case (Starting st)
    then show ?thesis using run_inv_start [OF assms Starting]
      by (auto simp: Let_def phase_ok_def split: answer.split intro!: move)
  next
    case (Recording rid st err)
    then show ?thesis using run_inv_finish [OF assms Recording] know
      by (auto simp: Let_def phase_ok_def split: answer.split intro!: move)
  next
    case Looking
    have "\<exists>q. findLastCompleted (el_runs s) (lc_jobName k) = Some q \<and> jr_startedAt r \<le> jr_startedAt q"
      if "(i, r) \<in> set (rows_of (lc_jobName k) (el_runs s))" "finished_row r" for i r
      using rows_of_index [OF that(1)] that(2) by (intro last_completed) (auto simp: completed_run_def)
    then show ?thesis using Looking know
      by (auto simp: Let_def phase_ok_def split: answer.split intro!: move)
  next
    case (Deciding p)
    have "gap (interval (lc_jobName k)) (rows_of (lc_jobName k) (el_runs s)) (el_now s)"
      if "p = None \<or> (\<exists>q. p = Some q \<and> \<not> el_now s - jr_startedAt q < lc_minInterval k)"
      using that run_invD(2) [OF inv k] know Deciding by (fastforce simp: gap_def phase_ok_def)
    then show ?thesis using Deciding know
      by (auto simp: Let_def phase_ok_def split: option.split intro!: move)
  next
    case Stamping
    then show ?thesis using know by (auto simp: Let_def phase_ok_def intro!: move)
  next
    case (In_job rid st)
    then show ?thesis using know by (auto simp: Let_def phase_ok_def split: answer.split intro!: move)
  next
    case (Releasing r)
    then show ?thesis
      by (auto simp: Let_def phase_ok_def intro!: move run_inv_take_or_free [OF assms])
  next
    case (Returned r)
    then show ?thesis using inv by simp
  qed
qed

lemma run_inv_step:
  assumes step: "election_step digest False interval s t" and locks: "lock_inv digest s" and inv: "run_inv interval s"
  shows "run_inv interval t"
  using step
proof (cases rule: election_step.cases)
  case (begin_call c job inst)
  then show ?thesis using inv by (auto simp: run_inv_def phase_ok_def)
next
  case (advance c k a)
  then show ?thesis using run_inv_advance [OF locks inv] by simp
next
  case (crash c k)
  then show ?thesis using inv by (auto simp: run_inv_def free_lock_def)
next
  case (tick d)
  then show ?thesis using inv phase_ok_later by (fastforce simp: run_inv_def)
qed simp

lemma reachable_run_inv: "reachable digest False interval s \<Longrightarrow> run_inv interval s"
proof (induction rule: reachable.induct)
  case (at_rest t)
  then show ?case by (simp add: run_inv_def rows_of_def spaced_def)
next
  case (one_more s t)
  then show ?case using run_inv_step reachable_lock_inv by blast
qed

text \<open>
  C3. However the calls of the instances interleave, crash or lose their locks, two calls for the same job
  are never both between taking and releasing the lock, unless one of them lost its lock transaction.
\<close>

theorem one_leader:
  assumes "reachable digest lossy interval s" and "map_get (el_calls s) c = Some k" and "map_get (el_calls s) d = Some m"
    and "c \<noteq> d" and "lc_jobName k = lc_jobName m" and "critical k" and "critical m"
  shows "lc_lost k \<or> lc_lost m"
  using keys_apart [OF reachable_lock_inv [OF assms(1)] assms(2,3)] assms(4-7) by (auto simp: holds_lock_def)

text \<open>
  As long as no call loses its lock while it lives, two runs of a job that both completed started at
  least the job's minimum interval apart, whatever the order of the calls, the crashes of instances and
  the errors of the database and of the job.
\<close>

theorem runs_spaced:
  assumes "reachable digest False interval s" and "i < j" and "j < length (el_runs s)"
    and "completed_run job (el_runs s ! i)" and "completed_run job (el_runs s ! j)"
  shows "jr_startedAt (el_runs s ! i) + interval job \<le> jr_startedAt (el_runs s ! j)"
proof -
  have "spaced (interval job) (rows_of job (el_runs s))"
    using reachable_run_inv [OF assms(1)] by (simp add: run_inv_def)
  from sorted_rows_of [OF this [unfolded spaced_def] assms(2,3)] assms(4,5) show ?thesis
    by (auto simp: completed_run_def)
qed

section \<open>Schedules\<close>

datatype election_move = Begin nat string string | Move nat answer | Crash nat | Lose nat | Wait int

fun play :: "(string \<Rightarrow> 8 word list) \<Rightarrow> (string \<Rightarrow> int) \<Rightarrow> election \<Rightarrow> election_move \<Rightarrow> election" where
  "play digest interval s (Begin c job inst) =
     (if map_get (el_calls s) c = None
      then s\<lparr>el_calls := map_set (el_calls s) c \<lparr>lc_jobName = job, lc_instanceId = inst, lc_minInterval = interval job,
             lc_phase = Acquiring, lc_lost = False\<rparr>\<rparr>
      else s)"
| "play digest interval s (Move c a) =
     (case map_get (el_calls s) c of None \<Rightarrow> s | Some k \<Rightarrow> advance_call digest s c k a)"
| "play digest interval s (Crash c) =
     (case map_get (el_calls s) c of None \<Rightarrow> s
      | Some k \<Rightarrow> (free_lock digest s k)\<lparr>el_calls := map_delete (el_calls s) c\<rparr>)"
| "play digest interval s (Lose c) =
     (case map_get (el_calls s) c of None \<Rightarrow> s
      | Some k \<Rightarrow> if holds_lock k then (free_lock digest s k)\<lparr>el_calls := map_set (el_calls s) c (k\<lparr>lc_lost := True\<rparr>)\<rparr> else s)"
| "play digest interval s (Wait d) = (if 0 \<le> d then s\<lparr>el_now := el_now s + d\<rparr> else s)"

definition rest :: election where
  "rest = \<lparr>el_now = 0, el_locks = [], el_runs = [], el_calls = []\<rparr>"

lemma play_reachable:
  assumes "reachable digest lossy interval s" "(\<exists>c. e = Lose c) \<longrightarrow> lossy"
  shows "reachable digest lossy interval (play digest interval s e)"
proof -
  have grow: "reachable digest lossy interval t" if "election_step digest lossy interval s t" for t
    using one_more [OF assms(1) that] .
  show ?thesis
  proof (cases e)
    case (Begin c job inst)
    then show ?thesis using assms(1) grow [OF begin_call] by simp
  next
    case (Move c a)
    then show ?thesis using assms(1) grow [OF advance, of c _ a] by (simp del: advance_call.simps split: option.split)
  next
    case (Crash c)
    then show ?thesis using assms(1) grow [OF crash, of c] by (simp split: option.split)
  next
    case (Lose c)
    then show ?thesis using assms grow [OF lose, of c] by (auto split: option.split)
  next
    case (Wait d)
    then show ?thesis using assms(1) grow [OF tick, of d] by simp
  qed
qed

lemma schedule_reachable:
  assumes "lossy \<or> list_all (\<lambda>e. case e of Lose _ \<Rightarrow> False | _ \<Rightarrow> True) es"
  shows "reachable digest lossy interval (foldl (play digest interval) rest es)"
proof -
  have "reachable digest lossy interval (foldl (play digest interval) s es)" if "reachable digest lossy interval s" for s
    using that assms
  proof (induction es arbitrary: s)
    case Nil
    then show ?case by simp
  next
    case (Cons e es)
    then have "reachable digest lossy interval (play digest interval s e)"
      by (intro play_reachable) (auto split: election_move.splits)
    then show ?case using Cons by auto
  qed
  then show ?thesis using at_rest by (simp add: rest_def)
qed

definition overlap0 :: "election_move list" where
  "overlap0 = [Begin 1 ''audit'' ''a'', Begin 2 ''audit'' ''b'', Move 1 Ok, Move 1 Ok, Move 1 Ok, Move 1 Ok, Move 1 Ok, Move 1 Ok,
     Lose 1, Move 2 Ok]"

lemma one_leader_witness:
  "let s = foldl (play (\<lambda>t. []) (\<lambda>j. 30000)) rest overlap0 in
   \<exists>k m. map_get (el_calls s) 1 = Some k \<and> map_get (el_calls s) 2 = Some m \<and> lc_phase k = In_job 0 0 \<and>
     lc_phase m = Sweeping \<and> (lc_lost k \<or> lc_lost m)"
proof -
  let ?s = "foldl (play (\<lambda>t. []) (\<lambda>j. 30000)) rest overlap0"
  have r: "reachable (\<lambda>t. []) True (\<lambda>j. 30000) ?s" by (rule schedule_reachable) simp
  have k: "map_get (el_calls ?s) 1 = Some \<lparr>lc_jobName = ''audit'', lc_instanceId = ''a'', lc_minInterval = 30000,
      lc_phase = In_job 0 0, lc_lost = True\<rparr>" by code_simp
  have m: "map_get (el_calls ?s) 2 = Some \<lparr>lc_jobName = ''audit'', lc_instanceId = ''b'', lc_minInterval = 30000,
      lc_phase = Sweeping, lc_lost = False\<rparr>" by code_simp
  from one_leader [OF r k m] k m show ?thesis by (simp add: Let_def critical_def)
qed

definition two_runs0 :: "election_move list" where
  "two_runs0 = Begin 1 ''audit'' ''a'' # replicate 9 (Move 1 Ok) @ [Wait 10, Begin 2 ''audit'' ''b'', Move 2 Ok, Move 2 Ok, Move 2 Ok,
     Move 2 Ok, Wait 40000, Begin 3 ''audit'' ''b'', Move 2 Ok] @ replicate 9 (Move 3 Ok)"

lemma runs_spaced_witness:
  "let s = foldl (play (\<lambda>t. []) (\<lambda>j. 30000)) rest two_runs0 in
   length (el_runs s) = 2 \<and> map_option lc_phase (map_get (el_calls s) 2) = Some (Returned (Skipped Recently_run)) \<and>
   jr_startedAt (el_runs s ! 0) + 30000 \<le> jr_startedAt (el_runs s ! 1)"
proof -
  let ?s = "foldl (play (\<lambda>t. []) (\<lambda>j. 30000)) rest two_runs0"
  have r: "reachable (\<lambda>t. []) False (\<lambda>j. 30000) ?s" by (rule schedule_reachable) (simp add: two_runs0_def list_all_iff)
  have "length (el_runs ?s) = 2" "completed_run ''audit'' (el_runs ?s ! 0)" "completed_run ''audit'' (el_runs ?s ! 1)"
    "map_option lc_phase (map_get (el_calls ?s) 2) = Some (Returned (Skipped Recently_run))" by code_simp+
  with runs_spaced [OF r, of 0 1 "''audit''"] show ?thesis by (simp add: Let_def)
qed

section \<open>Taking over\<close>

lemma map_set_again: "map_set (map_set m k v) k w = map_set m k w"
  by (induction m) auto

lemma map_delete_new: "map_get m k = None \<Longrightarrow> map_delete (map_set m k v) k = m"
  by (simp add: delete_update_same delete_idem map_of_eq_None_iff)

lemma length_abandon [simp]: "length (abandonRunning rows job now) = length rows"
  by (simp add: abandonRunning_def)

text \<open>
  Leadership does not stay with the dead: when the lock of a job is free, because its holder crashed
  or was done, and no run of the job completed within the interval, a call that meets no error and no
  other call runs the job, leaves the locks as they were, marks the rows of dead holders abandoned and
  records its own run as succeeded.
\<close>

theorem next_call_takes_over:
  assumes "map_get (el_calls s) c = None" and "map_get (el_locks s) (advisoryLockKey digest job) = None"
    and "\<And>r. findLastCompleted (abandonRunning (el_runs s) job (el_now s)) job = Some r \<Longrightarrow> jr_startedAt r + interval job \<le> el_now s"
  shows "\<exists>row k. foldl (play digest interval) s (Begin c job inst # replicate 9 (Move c Ok)) =
      s\<lparr>el_runs := abandonRunning (el_runs s) job (el_now s) @ [row], el_calls := map_set (el_calls s) c k\<rparr> \<and>
    lc_phase k = Returned (Executed (length (el_runs s))) \<and> completed_run job row \<and> jr_status row = Succeeded"
proof -
  let ?rows = "abandonRunning (el_runs s) job (el_now s)"
  have moves: "replicate 9 (Move c Ok) = [Move c Ok, Move c Ok, Move c Ok, Move c Ok, Move c Ok, Move c Ok, Move c Ok, Move c Ok, Move c Ok]"
    by (simp add: eval_nat_numeral)
  note run = assms(1,2) Let_def at_phase_def map_set_again map_delete_new start_run_def finish_run_def nth_append completed_run_def
  show ?thesis
  proof (cases "findLastCompleted ?rows job")
    case None
    then show ?thesis unfolding moves by (simp add: run list_update_append) fastforce
  next
    case (Some r)
    then have "\<not> el_now s - jr_startedAt r < interval job" using assms(3) by force
    with Some show ?thesis unfolding moves by (simp add: run list_update_append) fastforce
  qed
qed

lemma next_call_takes_over_witness:
  "let s = foldl (play (\<lambda>t. []) (\<lambda>j. 30000)) rest
     (Begin 1 ''audit'' ''a'' # replicate 6 (Move 1 Ok) @ [Crash 1, Wait 5])
   in map jr_status (el_runs s) = [Running] \<and>
     (\<exists>row k. foldl (play (\<lambda>t. []) (\<lambda>j. 30000)) s (Begin 2 ''audit'' ''b'' # replicate 9 (Move 2 Ok)) =
        s\<lparr>el_runs := abandonRunning (el_runs s) ''audit'' (el_now s) @ [row], el_calls := map_set (el_calls s) 2 k\<rparr> \<and>
      lc_phase k = Returned (Executed (length (el_runs s))) \<and> completed_run ''audit'' row \<and> jr_status row = Succeeded)"
proof -
  let ?s = "foldl (play (\<lambda>t. []) (\<lambda>j. 30000)) rest (Begin 1 ''audit'' ''a'' # replicate 6 (Move 1 Ok) @ [Crash 1, Wait 5])"
  have s: "map_get (el_calls ?s) 2 = None" "map_get (el_locks ?s) (advisoryLockKey (\<lambda>t. []) ''audit'') = None"
    "findLastCompleted (abandonRunning (el_runs ?s) ''audit'' (el_now ?s)) ''audit'' = None"
    "map jr_status (el_runs ?s) = [Running]" by code_simp+
  have "jr_startedAt r + 30000 \<le> el_now ?s"
    if "findLastCompleted (abandonRunning (el_runs ?s) ''audit'' (el_now ?s)) ''audit'' = Some r" for r
    using that unfolding s(3) by simp
  from next_call_takes_over [OF s(1,2), of "\<lambda>j. 30000", OF this] s(4) show ?thesis unfolding Let_def by blast
qed

end
