(* ===== verification/ApiKeyQuota.thy ===== *)
theory ApiKeyQuota
  imports Decimal
begin

text \<open>
  Request quotas of API keys, \<^verbatim>\<open>backend/src/middleware/apiKeyQuota.ts\<close>: the configuration from the
  environment, the billing periods of a key, the counter of each period, and the middleware that meters a
  request. The counters are a map from a key and the start of a period; the clock and whether the
  database takes a write are arguments, and metrics are left out. A plan is not the name of a property
  that objects inherit. The lemmas show that periods partition time and that exactly the quota passes in
  each.
\<close>

section \<open>Configuration\<close>

record quota_config =
  qc_periodDays :: int
  qc_defaultQuota :: int
  qc_quotaByPlan :: "(string, int) js_map"

text \<open>\<open>lastIndexOf\<close>: the text before and after the last occurrence of a character.\<close>

definition split_last :: "char \<Rightarrow> string \<Rightarrow> (string \<times> string) option" where
  "split_last c s =
     (if c \<in> set s
      then Some (rev (tl (dropWhile (\<lambda>x. x \<noteq> c) (rev s))), rev (takeWhile (\<lambda>x. x \<noteq> c) (rev s)))
      else None)"

definition parse_quota_pair :: "(string, int) js_map \<Rightarrow> string \<Rightarrow> (string, int) js_map" where
  "parse_quota_pair quotas pair =
     (case split_last (CHR ''='') pair of
        None \<Rightarrow> quotas
      | Some (before, after) \<Rightarrow>
          if before = [] then quotas
          else case js_parse_int (js_trim after) of
            None \<Rightarrow> quotas
          | Some requests \<Rightarrow>
              if js_trim before \<noteq> [] \<and> 0 < requests then map_set quotas (js_trim before) requests else quotas)"

definition parsePlanQuotas :: "string option \<Rightarrow> (string, int) js_map" where
  "parsePlanQuotas raw =
     (case truthy_text raw of None \<Rightarrow> [] | Some s \<Rightarrow> foldl parse_quota_pair [] (js_split (CHR '','') s))"

definition positive_or :: "int \<Rightarrow> string option \<Rightarrow> int" where
  "positive_or fallback v =
     (case js_parse_int (or_else v []) of None \<Rightarrow> fallback | Some n \<Rightarrow> if 0 < n then n else fallback)"

definition loadApiKeyQuotaConfig :: "(string \<Rightarrow> string option) \<Rightarrow> quota_config" where
  "loadApiKeyQuotaConfig env =
     \<lparr>qc_periodDays = positive_or 30 (env ''API_KEY_QUOTA_PERIOD_DAYS''),
      qc_defaultQuota = positive_or 10000 (env ''API_KEY_QUOTA_DEFAULT''),
      qc_quotaByPlan = parsePlanQuotas (env ''API_KEY_QUOTA_BY_PLAN'')\<rparr>"

definition quotaForPlan :: "quota_config \<Rightarrow> string \<Rightarrow> int" where
  "quotaForPlan config plan = or_else (map_get (qc_quotaByPlan config) plan) (qc_defaultQuota config)"

section \<open>Billing periods and counters\<close>

definition period_ms :: "int \<Rightarrow> int" where
  "period_ms periodDays = periodDays * 24 * 60 * 60 * 1000"

definition resolveBillingPeriod :: "int \<Rightarrow> int \<Rightarrow> int \<Rightarrow> int \<times> int" where
  "resolveBillingPeriod keyCreatedAt periodDays now =
     (let periodMs = period_ms periodDays;
          elapsed = max 0 (now - keyCreatedAt);
          periodIndex = elapsed div periodMs;
          periodStart = keyCreatedAt + periodIndex * periodMs
      in (periodStart, periodStart + periodMs))"

record api_key_usage =
  au_periodEnd :: int
  au_requestCount :: int

type_synonym usage_table = "(string \<times> int, api_key_usage) js_map"

definition recordApiKeyRequest :: "usage_table \<Rightarrow> string \<Rightarrow> int \<Rightarrow> int \<Rightarrow> int \<Rightarrow> usage_table \<times> int \<times> int \<times> int" where
  "recordApiKeyRequest usage apiKeyId keyCreatedAt periodDays now =
     (case resolveBillingPeriod keyCreatedAt periodDays now of (periodStart, periodEnd) \<Rightarrow>
        let row = (case map_get usage (apiKeyId, periodStart) of
                     None \<Rightarrow> \<lparr>au_periodEnd = periodEnd, au_requestCount = 1\<rparr>
                   | Some r \<Rightarrow> r\<lparr>au_requestCount := au_requestCount r + 1\<rparr>)
        in (map_set usage (apiKeyId, periodStart) row, au_requestCount row, periodStart, periodEnd))"

definition readApiKeyUsage :: "usage_table \<Rightarrow> string \<Rightarrow> int \<Rightarrow> int \<Rightarrow> int \<Rightarrow> int \<times> int \<times> int" where
  "readApiKeyUsage usage apiKeyId keyCreatedAt periodDays now =
     (case resolveBillingPeriod keyCreatedAt periodDays now of (periodStart, periodEnd) \<Rightarrow>
        (case map_get usage (apiKeyId, periodStart) of None \<Rightarrow> 0 | Some r \<Rightarrow> au_requestCount r, periodStart, periodEnd))"

section \<open>The middleware\<close>

record quota_key =
  qk_id :: string
  qk_plan :: string
  qk_createdAt :: int

text \<open>A request: the key resolved before, the time, and whether the database takes the write.\<close>

record quota_request =
  qr_apiKey :: "quota_key option"
  qr_now :: int
  qr_dbOk :: bool

record quota_headers =
  qh_limit :: int
  qh_remaining :: int
  qh_reset :: int

datatype quota_response = Next "quota_headers option" | Exceeded quota_headers int

definition ceil_seconds :: "int \<Rightarrow> int" where
  "ceil_seconds t = - ((- t) div 1000)"

definition apiKeyQuotaMiddleware :: "quota_config \<Rightarrow> usage_table \<Rightarrow> quota_request \<Rightarrow> usage_table \<times> quota_response" where
  "apiKeyQuotaMiddleware config usage req =
     (case qr_apiKey req of
        None \<Rightarrow> (usage, Next None)
      | Some k \<Rightarrow>
          (let quota = quotaForPlan config (qk_plan k) in
           if \<not> qr_dbOk req then (usage, Next None)
           else case recordApiKeyRequest usage (qk_id k) (qk_createdAt k) (qc_periodDays config) (qr_now req) of
             (usage', requestCount, _, periodEnd) \<Rightarrow>
               let reset = ceil_seconds periodEnd;
                   headers = \<lparr>qh_limit = quota, qh_remaining = max 0 (quota - requestCount), qh_reset = reset\<rparr>
               in if quota < requestCount
                  then (usage', Exceeded headers (max 1 (reset - qr_now req div 1000)))
                  else (usage', Next (Some headers))))"

fun quota_responses :: "quota_config \<Rightarrow> usage_table \<Rightarrow> quota_request list \<Rightarrow> quota_response list" where
  "quota_responses config usage [] = []"
| "quota_responses config usage (req # reqs) =
     (case apiKeyQuotaMiddleware config usage req of (usage', r) \<Rightarrow> r # quota_responses config usage' reqs)"

section \<open>Periods partition time\<close>

lemma period_ms_pos: "0 < periodDays \<Longrightarrow> 0 < period_ms periodDays"
  by (simp add: period_ms_def)

lemma billing_period_holds_now:
  assumes "0 < periodDays" "created \<le> now"
  shows "fst (resolveBillingPeriod created periodDays now) \<le> now \<and> now < snd (resolveBillingPeriod created periodDays now)"
proof -
  let ?q = "(now - created) div period_ms periodDays" and ?r = "(now - created) mod period_ms periodDays"
  have "now - created = ?q * period_ms periodDays + ?r" by simp
  moreover have "0 \<le> ?r" "?r < period_ms periodDays" using period_ms_pos [OF assms(1)] by simp_all
  ultimately have "created + ?q * period_ms periodDays \<le> now" "now < created + ?q * period_ms periodDays + period_ms periodDays"
    by linarith+
  then show ?thesis using assms(2) by (simp add: resolveBillingPeriod_def Let_def)
qed

lemma billing_period_unique:
  assumes "0 < periodDays" "created \<le> now"
    "fst (resolveBillingPeriod created periodDays t) \<le> now" "now < snd (resolveBillingPeriod created periodDays t)"
  shows "resolveBillingPeriod created periodDays now = resolveBillingPeriod created periodDays t"
proof -
  define i where "i = max 0 (t - created) div period_ms periodDays"
  have "i * period_ms periodDays \<le> now - created" "now - created < i * period_ms periodDays + period_ms periodDays"
    using assms(3,4) by (simp_all add: resolveBillingPeriod_def Let_def i_def)
  then have "(now - created) div period_ms periodDays = i"
    by (intro int_div_pos_eq [of _ _ _ "now - created - i * period_ms periodDays"]) (simp_all add: algebra_simps)
  then show ?thesis using assms(2) by (simp add: resolveBillingPeriod_def Let_def i_def)
qed

section \<open>What passes in a period\<close>

definition count_in :: "usage_table \<Rightarrow> string \<times> int \<Rightarrow> int" where
  "count_in usage p = (case map_get usage p of None \<Rightarrow> 0 | Some r \<Rightarrow> au_requestCount r)"

definition metered_in :: "quota_config \<Rightarrow> string \<times> int \<Rightarrow> quota_request \<Rightarrow> bool" where
  "metered_in config p req \<longleftrightarrow>
     (case qr_apiKey req of None \<Rightarrow> False
      | Some k \<Rightarrow> qr_dbOk req \<and> (qk_id k, fst (resolveBillingPeriod (qk_createdAt k) (qc_periodDays config) (qr_now req))) = p)"

definition passed :: "quota_response \<Rightarrow> bool" where
  "passed r \<longleftrightarrow> (case r of Next _ \<Rightarrow> True | Exceeded _ _ \<Rightarrow> False)"

definition plan_quota :: "quota_config \<Rightarrow> quota_request \<Rightarrow> int" where
  "plan_quota config req = (case qr_apiKey req of None \<Rightarrow> 0 | Some k \<Rightarrow> quotaForPlan config (qk_plan k))"

lemma middleware_step:
  assumes "apiKeyQuotaMiddleware config usage req = (usage', r)"
  shows "count_in usage' p = count_in usage p + (if metered_in config p req then 1 else 0)"
    "metered_in config p req \<Longrightarrow> passed r \<longleftrightarrow> count_in usage p < plan_quota config req"
    "\<forall>q. \<not> metered_in config q req \<Longrightarrow> r = Next None"
  using assms
  by (auto simp: apiKeyQuotaMiddleware_def recordApiKeyRequest_def count_in_def metered_in_def passed_def plan_quota_def Let_def
      split: option.splits prod.splits if_splits)

text \<open>The requests of a period that passed, among those metered in it.\<close>

definition passes_in :: "quota_config \<Rightarrow> usage_table \<Rightarrow> string \<times> int \<Rightarrow> quota_request list \<Rightarrow> bool list" where
  "passes_in config usage p reqs =
     map (passed \<circ> snd) (filter (\<lambda>(req, r). metered_in config p req) (zip reqs (quota_responses config usage reqs)))"

lemma passes_in_first:
  assumes "\<forall>req\<in>set reqs. metered_in config p req \<longrightarrow> plan_quota config req = int q" "count_in usage p = int n"
  shows "\<exists>m. passes_in config usage p reqs = replicate (min m (q - n)) True @ replicate (m - (q - n)) False"
  using assms
proof (induction reqs arbitrary: usage n)
  case Nil
  then show ?case by (intro exI [of _ 0]) (simp add: passes_in_def)
next
  case (Cons req reqs)
  obtain usage' r where step: "apiKeyQuotaMiddleware config usage req = (usage', r)" by fastforce
  note facts = middleware_step(1,2) [OF step, of p]
  show ?case
  proof (cases "metered_in config p req")
    case True
    have n: "count_in usage' p = int (Suc n)" using facts(1) True Cons.prems(2) by simp
    have "\<forall>req\<in>set reqs. metered_in config p req \<longrightarrow> plan_quota config req = int q" using Cons.prems(1) by simp
    from Cons.IH [OF this n] obtain m where
      m: "passes_in config usage' p reqs = replicate (min m (q - Suc n)) True @ replicate (m - (q - Suc n)) False" by blast
    have "passed r \<longleftrightarrow> n < q" using facts(2) True Cons.prems by auto
    then have "passes_in config usage p (req # reqs) = (n < q) # passes_in config usage' p reqs"
      using True step by (simp add: passes_in_def)
    also have "\<dots> = replicate (min (Suc m) (q - n)) True @ replicate (Suc m - (q - n)) False"
      unfolding m by (cases "n < q") (auto simp: Suc_diff_Suc [symmetric] min_def)
    finally show ?thesis by blast
  next
    case False
    then have "count_in usage' p = int n" using facts(1) Cons.prems(2) by simp
    moreover have "passes_in config usage p (req # reqs) = passes_in config usage' p reqs"
      using False step by (simp add: passes_in_def)
    ultimately show ?thesis using Cons.IH [of usage' n] Cons.prems(1) by simp
  qed
qed

text \<open>
  Of the requests metered for a key in one of its billing periods, exactly the first ones up to its
  plan's quota pass and all later ones are refused, however they interleave with the requests of other
  keys, of other periods, and with writes the database refuses, which pass without being counted.
\<close>

theorem quota_passes_first:
  assumes "\<forall>req\<in>set reqs. metered_in config p req \<longrightarrow> plan_quota config req = int q"
  shows "passes_in config [] p reqs =
    replicate (min (length (filter (metered_in config p) reqs)) q) True @
    replicate (length (filter (metered_in config p) reqs) - q) False"
proof -
  have len: "length (passes_in config usage p reqs) = length (filter (metered_in config p) reqs)" for usage
  proof (induction reqs arbitrary: usage)
    case Nil
    then show ?case by (simp add: passes_in_def)
  next
    case (Cons req reqs)
    obtain usage' r where step: "apiKeyQuotaMiddleware config usage req = (usage', r)" by fastforce
    show ?case using Cons [of usage'] step by (simp add: passes_in_def)
  qed
  obtain m where m: "passes_in config [] p reqs = replicate (min m q) True @ replicate (m - q) False"
    using passes_in_first [OF assms, of "[]" 0] by (auto simp: count_in_def)
  with len [of "[]"] have "m = length (filter (metered_in config p) reqs)" by auto
  with m show ?thesis by simp
qed

definition quota_config0 :: quota_config where
  "quota_config0 = loadApiKeyQuotaConfig (\<lambda>v. if v = ''API_KEY_QUOTA_BY_PLAN'' then Some '' free = 2,bad,pro=x'' else None)"

definition quota_request0 :: "string \<Rightarrow> int \<Rightarrow> bool \<Rightarrow> quota_request" where
  "quota_request0 key now ok = \<lparr>qr_apiKey = Some \<lparr>qk_id = key, qk_plan = ''free'', qk_createdAt = 0\<rparr>, qr_now = now, qr_dbOk = ok\<rparr>"

definition quota_requests0 :: "quota_request list" where
  "quota_requests0 = [quota_request0 ''k'' 1 True, quota_request0 ''k'' 2 False, quota_request0 ''other'' 3 True,
     quota_request0 ''k'' 4 True, quota_request0 ''k'' 5 True, quota_request0 ''k'' 2592000000 True]"

lemma quota_passes_first_witness:
  "map passed (quota_responses quota_config0 [] quota_requests0) = [True, True, True, True, False, True] \<and>
   passes_in quota_config0 [] (''k'', 0) quota_requests0 =
     replicate (min (length (filter (metered_in quota_config0 (''k'', 0)) quota_requests0)) 2) True @
     replicate (length (filter (metered_in quota_config0 (''k'', 0)) quota_requests0) - 2) False"
proof
  show "map passed (quota_responses quota_config0 [] quota_requests0) = [True, True, True, True, False, True]" by code_simp
  have "\<forall>req\<in>set quota_requests0. plan_quota quota_config0 req = int 2" by code_simp
  then show "passes_in quota_config0 [] (''k'', 0) quota_requests0 =
     replicate (min (length (filter (metered_in quota_config0 (''k'', 0)) quota_requests0)) 2) True @
     replicate (length (filter (metered_in quota_config0 (''k'', 0)) quota_requests0) - 2) False"
    by (intro quota_passes_first) simp
qed

end
