(* ===== verification/Entitlements.thy ===== *)
theory Entitlements
  imports Prelude
begin

text \<open>
  Features and plans, \<^verbatim>\<open>backend/src/services/entitlements.ts\<close>: the table of plans, the upgrade that is
  offered, the cached lookup of a tenant's plan, and the gate of a feature. The store of assignments is a
  map that other instances may write too; the cache is private to the service. The clock is an argument
  and log lines are left out. The lemmas show how old the plan of a decision can be, and that the upgrade
  is the least one.
\<close>

section \<open>Plans\<close>

datatype plan_id = FREE | PRO | ENTERPRISE

datatype feature =
    BULK_IMPORT | CHATOPS_ALERTS | AUDIT_HASH_CHAIN | SIEM_EXPORT | MULTI_WORKSPACE | PRIORITY_QUEUE | CUSTOM_BRANDING

fun feature_key :: "feature \<Rightarrow> string" where
  "feature_key BULK_IMPORT = ''bulk_import''"
| "feature_key CHATOPS_ALERTS = ''chatops_alerts''"
| "feature_key AUDIT_HASH_CHAIN = ''audit_hash_chain''"
| "feature_key SIEM_EXPORT = ''siem_export''"
| "feature_key MULTI_WORKSPACE = ''multi_workspace''"
| "feature_key PRIORITY_QUEUE = ''priority_queue''"
| "feature_key CUSTOM_BRANDING = ''custom_branding''"

definition ALL_FEATURES :: "feature list" where
  "ALL_FEATURES = [BULK_IMPORT, CHATOPS_ALERTS, AUDIT_HASH_CHAIN, SIEM_EXPORT, MULTI_WORKSPACE, PRIORITY_QUEUE, CUSTOM_BRANDING]"

record plan_definition =
  pd_id :: plan_id
  pd_name :: string
  pd_rank :: nat
  pd_features :: "feature list"
  pd_limits :: "(string, int) js_map"

fun PLANS :: "plan_id \<Rightarrow> plan_definition" where
  "PLANS FREE = \<lparr>pd_id = FREE, pd_name = ''Free'', pd_rank = 0, pd_features = [],
     pd_limits = [(''maxActiveLoans'', 10), (''apiRequestsPerMinute'', 60), (''maxWorkspaces'', 1)]\<rparr>"
| "PLANS PRO = \<lparr>pd_id = PRO, pd_name = ''Pro'', pd_rank = 1,
     pd_features = [BULK_IMPORT, PRIORITY_QUEUE, MULTI_WORKSPACE, SIEM_EXPORT],
     pd_limits = [(''maxActiveLoans'', 500), (''apiRequestsPerMinute'', 600), (''maxWorkspaces'', 5)]\<rparr>"
| "PLANS ENTERPRISE = \<lparr>pd_id = ENTERPRISE, pd_name = ''Enterprise'', pd_rank = 2, pd_features = ALL_FEATURES,
     pd_limits = [(''maxActiveLoans'', 100000), (''apiRequestsPerMinute'', 6000), (''maxWorkspaces'', 100)]\<rparr>"

definition PLAN_IDS :: "plan_id list" where
  "PLAN_IDS = [FREE, PRO, ENTERPRISE]"

fun plan_key :: "plan_id \<Rightarrow> string" where
  "plan_key FREE = ''FREE''"
| "plan_key PRO = ''PRO''"
| "plan_key ENTERPRISE = ''ENTERPRISE''"

text \<open>\<open>isPlanId\<close>, with the plan a valid text names.\<close>

definition isPlanId :: "string \<Rightarrow> plan_id option" where
  "isPlanId v = find (\<lambda>p. plan_key p = v) PLAN_IDS"

record upgrade_info =
  ui_plan :: plan_id
  ui_name :: string
  ui_addsFeatures :: "feature list"
  ui_limits :: "(string, int) js_map"

definition findUpgrade :: "plan_id \<Rightarrow> feature \<Rightarrow> upgrade_info option" where
  "findUpgrade current f =
     (let currentRank = pd_rank (PLANS current);
          candidates = sort_key pd_rank
            (filter (\<lambda>p. currentRank < pd_rank p \<and> f \<in> set (pd_features p)) (map PLANS PLAN_IDS))
      in case candidates of
           [] \<Rightarrow> None
         | target # _ \<Rightarrow>
             Some \<lparr>ui_plan = pd_id target, ui_name = pd_name target,
                   ui_addsFeatures = filter (\<lambda>g. g \<notin> set (pd_features (PLANS current))) (pd_features target),
                   ui_limits = pd_limits target\<rparr>)"

section \<open>The service\<close>

definition DEFAULT_CACHE_TTL_MS :: int where
  "DEFAULT_CACHE_TTL_MS = 60000"

record entitlement_service =
  en_store :: "(string, string) js_map"
  en_cache :: "(string, plan_id \<times> int) js_map"

definition stored_plan :: "(string, string) js_map \<Rightarrow> string \<Rightarrow> plan_id" where
  "stored_plan store tenantId =
     (case truthy_text (map_get store tenantId) of None \<Rightarrow> FREE | Some v \<Rightarrow> or_else (isPlanId v) FREE)"

definition getPlanId :: "int \<Rightarrow> entitlement_service \<Rightarrow> string \<Rightarrow> int \<Rightarrow> entitlement_service \<times> plan_id" where
  "getPlanId ttlMs s tenantId now =
     (let fetched = (let planId = stored_plan (en_store s) tenantId
                     in (s\<lparr>en_cache := map_set (en_cache s) tenantId (planId, now + ttlMs)\<rparr>, planId))
      in case map_get (en_cache s) tenantId of
           Some (planId, expiresAt) \<Rightarrow> if now < expiresAt then (s, planId) else fetched
         | None \<Rightarrow> fetched)"

definition getPlan :: "int \<Rightarrow> entitlement_service \<Rightarrow> string \<Rightarrow> int \<Rightarrow> entitlement_service \<times> plan_definition" where
  "getPlan ttlMs s tenantId now = (case getPlanId ttlMs s tenantId now of (s', p) \<Rightarrow> (s', PLANS p))"

definition isEntitled :: "int \<Rightarrow> entitlement_service \<Rightarrow> string \<Rightarrow> feature \<Rightarrow> int \<Rightarrow> entitlement_service \<times> bool" where
  "isEntitled ttlMs s tenantId f now =
     (case getPlan ttlMs s tenantId now of (s', p) \<Rightarrow> (s', f \<in> set (pd_features p)))"

definition getLimit :: "int \<Rightarrow> entitlement_service \<Rightarrow> string \<Rightarrow> string \<Rightarrow> int \<Rightarrow> entitlement_service \<times> int option" where
  "getLimit ttlMs s tenantId key now =
     (case getPlan ttlMs s tenantId now of (s', p) \<Rightarrow> (s', map_get (pd_limits p) key))"

definition assignPlan :: "entitlement_service \<Rightarrow> string \<Rightarrow> plan_id \<Rightarrow> js_error + (entitlement_service \<times> plan_definition)" where
  "assignPlan s tenantId plan =
     (if tenantId = [] then Inl (ErrorMsg ''tenantId is required'')
      else Inr (s\<lparr>en_store := map_set (en_store s) tenantId (plan_key plan), en_cache := map_delete (en_cache s) tenantId\<rparr>,
                PLANS plan))"

definition reset_entitlements :: "entitlement_service \<Rightarrow> entitlement_service" where
  "reset_entitlements s = \<lparr>en_store = [], en_cache = []\<rparr>"

section \<open>The gate\<close>

definition DEFAULT_TENANT_ID :: string where
  "DEFAULT_TENANT_ID = ''default''"

datatype header = No_header | One string | Many "string list"

definition tenantIdForRequest :: "header \<Rightarrow> string" where
  "tenantIdForRequest h =
     (let value = (case h of No_header \<Rightarrow> None | One v \<Rightarrow> Some v | Many vs \<Rightarrow> (case vs of [] \<Rightarrow> None | v # _ \<Rightarrow> Some v))
      in case value of None \<Rightarrow> DEFAULT_TENANT_ID | Some v \<Rightarrow> if js_trim v \<noteq> [] then js_trim v else DEFAULT_TENANT_ID)"

datatype gate_response = Through | Forbidden string feature plan_id "upgrade_info option"

definition requireEntitlement :: "int \<Rightarrow> entitlement_service \<Rightarrow> feature \<Rightarrow> header \<Rightarrow> int \<Rightarrow> entitlement_service \<times> gate_response" where
  "requireEntitlement ttlMs s f h now =
     (case getPlan ttlMs s (tenantIdForRequest h) now of (s', plan) \<Rightarrow>
        (s', if f \<in> set (pd_features plan) then Through
             else Forbidden (''The '' @ pd_name plan @ '' plan does not include the '' @ [CHR 39] @ feature_key f @ [CHR 39] @ '' feature.'')
                    f (pd_id plan) (findUpgrade (pd_id plan) f)))"

section \<open>The upgrade is the least one\<close>

lemma findUpgrade_least:
  "(case findUpgrade p f of
      None \<Rightarrow> \<forall>q. f \<in> set (pd_features (PLANS q)) \<longrightarrow> pd_rank (PLANS q) \<le> pd_rank (PLANS p)
    | Some u \<Rightarrow> f \<in> set (pd_features (PLANS (ui_plan u))) \<and> pd_rank (PLANS p) < pd_rank (PLANS (ui_plan u)) \<and>
        (\<forall>q. f \<in> set (pd_features (PLANS q)) \<and> pd_rank (PLANS p) < pd_rank (PLANS q) \<longrightarrow>
           pd_rank (PLANS (ui_plan u)) \<le> pd_rank (PLANS q)))"
proof -
  have plans: "(\<forall>q. P q) \<longleftrightarrow> P FREE \<and> P PRO \<and> P ENTERPRISE" for P by (metis plan_id.exhaust)
  show ?thesis
    by (cases p; cases f) (simp_all add: plans findUpgrade_def PLAN_IDS_def ALL_FEATURES_def Let_def)
qed

lemma forbidden_has_upgrade: "f \<notin> set (pd_features (PLANS p)) \<Longrightarrow> findUpgrade p f \<noteq> None"
  by (cases p; cases f) (simp_all add: findUpgrade_def PLAN_IDS_def ALL_FEATURES_def Let_def)

section \<open>How old a decision's plan can be\<close>

datatype entitlement_event = Gate feature header | Assign string plan_id | Written string string

fun entitlement_step :: "int \<Rightarrow> entitlement_service \<Rightarrow> int \<times> entitlement_event \<Rightarrow> entitlement_service" where
  "entitlement_step ttl s (t, Gate f h) = fst (requireEntitlement ttl s f h t)"
| "entitlement_step ttl s (t, Assign tenant p) = (case assignPlan s tenant p of Inl _ \<Rightarrow> s | Inr (s', _) \<Rightarrow> s')"
| "entitlement_step ttl s (t, Written tenant v) = s\<lparr>en_store := map_set (en_store s) tenant v\<rparr>"

definition entitlement_run :: "int \<Rightarrow> (int \<times> entitlement_event) list \<Rightarrow> entitlement_service" where
  "entitlement_run ttl es = foldl (entitlement_step ttl) \<lparr>en_store = [], en_cache = []\<rparr> es"

definition assigns :: "string \<Rightarrow> entitlement_event \<Rightarrow> bool" where
  "assigns tenant e \<longleftrightarrow> (case e of Assign tenant' _ \<Rightarrow> tenant' = tenant \<and> tenant \<noteq> [] | _ \<Rightarrow> False)"

text \<open>A plan was the stored one at some point, after which nothing happened before \<open>since\<close> and the service assigned nothing.\<close>

definition seen_plan :: "int \<Rightarrow> (int \<times> entitlement_event) list \<Rightarrow> string \<Rightarrow> plan_id \<Rightarrow> int \<Rightarrow> bool" where
  "seen_plan ttl es tenant p since \<longleftrightarrow>
     (\<exists>pre post. es = pre @ post \<and> stored_plan (en_store (entitlement_run ttl pre)) tenant = p \<and>
        (\<forall>(t, e)\<in>set post. since \<le> t \<and> \<not> assigns tenant e))"

lemma seen_now: "seen_plan ttl es tenant (stored_plan (en_store (entitlement_run ttl es)) tenant) since"
  unfolding seen_plan_def by (intro exI [of _ es] exI [of _ "[]"]) simp

lemma seen_later:
  assumes "seen_plan ttl es tenant p since" "since \<le> t" "\<not> assigns tenant e"
  shows "seen_plan ttl (es @ [(t, e)]) tenant p since"
proof -
  obtain pre post where pre: "es = pre @ post" "stored_plan (en_store (entitlement_run ttl pre)) tenant = p"
    and post: "\<forall>(t, e)\<in>set post. since \<le> t \<and> \<not> assigns tenant e" using assms(1) unfolding seen_plan_def by blast
  have "es @ [(t, e)] = pre @ (post @ [(t, e)])" by (simp add: pre(1))
  moreover have "\<forall>(t, e)\<in>set (post @ [(t, e)]). since \<le> t \<and> \<not> assigns tenant e" using post assms(2,3) by simp
  ultimately show ?thesis using pre(2) unfolding seen_plan_def by (intro exI conjI)
qed

lemma run_snoc: "entitlement_run ttl (es @ [e]) = entitlement_step ttl (entitlement_run ttl es) e"
  by (simp add: entitlement_run_def)

lemma getPlanId_cases:
  assumes "getPlanId ttl s tenant now = (s', p)"
  obtains (cached) expires where "map_get (en_cache s) tenant = Some (p, expires)" "now < expires" "s' = s"
  | (fetched) "p = stored_plan (en_store s) tenant" "s' = s\<lparr>en_cache := map_set (en_cache s) tenant (p, now + ttl)\<rparr>"
proof (cases "\<exists>q expires. map_get (en_cache s) tenant = Some (q, expires) \<and> now < expires")
  case True
  then obtain q expires where "map_get (en_cache s) tenant = Some (q, expires)" "now < expires" by blast
  with assms show ?thesis by (intro cached [of expires]) (simp_all add: getPlanId_def)
next
  case False
  then have "getPlanId ttl s tenant now = (s\<lparr>en_cache := map_set (en_cache s) tenant (stored_plan (en_store s) tenant, now + ttl)\<rparr>,
      stored_plan (en_store s) tenant)"
    by (auto simp: getPlanId_def Let_def split: option.split)
  with assms show ?thesis by (intro fetched) auto
qed

lemma gate_state: "fst (requireEntitlement ttl s f h t) = fst (getPlanId ttl s (tenantIdForRequest h) t)"
  by (simp add: requireEntitlement_def getPlan_def split: prod.split)

lemma cache_seen:
  assumes "sorted (map fst es)" "0 \<le> ttl" "map_get (en_cache (entitlement_run ttl es)) tenant = Some (p, expires)"
  shows "seen_plan ttl es tenant p (expires - ttl) \<and> (es \<noteq> [] \<longrightarrow> expires - ttl \<le> fst (last es))"
  using assms
proof (induction es arbitrary: p expires rule: rev_induct)
  case Nil
  then show ?case by (simp add: entitlement_run_def)
next
  case (snoc te es)
  obtain t e where te: "te = (t, e)" by (cases te)
  let ?s = "entitlement_run ttl es"
  have late: "expires - ttl \<le> t" "seen_plan ttl es tenant p (expires - ttl)"
    if "map_get (en_cache ?s) tenant = Some (p, expires)"
  proof -
    from snoc.IH [OF _ snoc.prems(2) that] snoc.prems(1)
    have "seen_plan ttl es tenant p (expires - ttl)" "es \<noteq> [] \<longrightarrow> expires - ttl \<le> fst (last es)"
      by (auto simp: sorted_append)
    moreover have "es \<noteq> []" using that by (auto simp: entitlement_run_def)
    moreover have "es \<noteq> [] \<Longrightarrow> fst (last es) \<le> t" using snoc.prems(1) by (simp add: sorted_append te)
    ultimately show "expires - ttl \<le> t" "seen_plan ttl es tenant p (expires - ttl)" by auto
  qed
  show ?case
  proof (cases e)
    case (Gate f h)
    obtain s' q where get: "getPlanId ttl ?s (tenantIdForRequest h) t = (s', q)" by fastforce
    have run: "entitlement_run ttl (es @ [te]) = s'" by (simp add: run_snoc te Gate gate_state get)
    from get show ?thesis
    proof (cases rule: getPlanId_cases)
      case cached
      then have "map_get (en_cache ?s) tenant = Some (p, expires)" using snoc.prems(3) by (simp add: run)
      then show ?thesis using late seen_later [of ttl es tenant p "expires - ttl" t e] by (simp add: te assigns_def Gate)
    next
      case fetched
      show ?thesis
      proof (cases "tenant = tenantIdForRequest h")
        case True
        then have "p = q" "expires = t + ttl" using snoc.prems(3) fetched by (simp_all add: run)
        then show ?thesis using seen_later [OF seen_now [of ttl es tenant t], of t e] fetched True
          by (simp add: te assigns_def Gate)
      next
        case False
        then have "map_get (en_cache ?s) tenant = Some (p, expires)" using snoc.prems(3) fetched by (simp add: run)
        then show ?thesis using late seen_later [of ttl es tenant p "expires - ttl" t e] by (simp add: te assigns_def Gate)
      qed
    qed
  next
    case (Assign tenant' q)
    then have "map_get (en_cache ?s) tenant = Some (p, expires)" "\<not> assigns tenant e"
      using snoc.prems(3) by (auto simp: run_snoc te assignPlan_def assigns_def split: if_splits)
    then show ?thesis using late seen_later [of ttl es tenant p "expires - ttl" t e] by (simp add: te)
  next
    case (Written tenant' v)
    then have "map_get (en_cache ?s) tenant = Some (p, expires)" "\<not> assigns tenant e"
      using snoc.prems(3) by (simp_all add: run_snoc te assigns_def)
    then show ?thesis using late seen_later [of ttl es tenant p "expires - ttl" t e] by (simp add: te)
  qed
qed

definition gate_decision :: "plan_id \<Rightarrow> feature \<Rightarrow> gate_response" where
  "gate_decision p f =
     (if f \<in> set (pd_features (PLANS p)) then Through
      else Forbidden (''The '' @ pd_name (PLANS p) @ '' plan does not include the '' @ [CHR 39] @ feature_key f @ [CHR 39] @ '' feature.'')
             f p (findUpgrade p f))"

lemma plan_own_id [simp]: "pd_id (PLANS p) = p"
  by (cases p) simp_all

text \<open>
  The gate of a feature decides by a plan the store held for the tenant less than the cache's lifetime
  ago, and not before the last assignment through the service itself, which therefore takes effect on the
  next request, whatever other instances write and however gates and assignments interleave.
\<close>

theorem gate_plan_is_recent:
  assumes "sorted (map fst es)" and "0 \<le> ttl" and "\<forall>(t, e)\<in>set es. t \<le> now"
  shows "\<exists>pre post. es = pre @ post \<and> (\<forall>(t, e)\<in>set post. now - ttl < t \<and> \<not> assigns (tenantIdForRequest h) e) \<and>
    snd (requireEntitlement ttl (entitlement_run ttl es) f h now) =
      gate_decision (stored_plan (en_store (entitlement_run ttl pre)) (tenantIdForRequest h)) f"
proof -
  let ?s = "entitlement_run ttl es" and ?tenant = "tenantIdForRequest h"
  obtain s' p where get: "getPlanId ttl ?s ?tenant now = (s', p)" by fastforce
  have decision: "snd (requireEntitlement ttl ?s f h now) = gate_decision p f"
    by (simp add: requireEntitlement_def getPlan_def get gate_decision_def)
  from get show ?thesis
  proof (cases rule: getPlanId_cases)
    case (cached expires)
    then obtain pre post where "es = pre @ post" "stored_plan (en_store (entitlement_run ttl pre)) ?tenant = p"
      "\<forall>(t, e)\<in>set post. expires - ttl \<le> t \<and> \<not> assigns ?tenant e"
      using cache_seen [OF assms(1,2)] unfolding seen_plan_def by blast
    then show ?thesis using cached(2) decision by (intro exI [of _ pre] exI [of _ post]) fastforce
  next
    case fetched
    then show ?thesis using decision by (intro exI [of _ es] exI [of _ "[]"]) simp
  qed
qed

definition gate_events0 :: "(int \<times> entitlement_event) list" where
  "gate_events0 = [(0, Gate SIEM_EXPORT (One ''acme'')), (10, Written ''acme'' ''ENTERPRISE''), (20, Gate SIEM_EXPORT (One ''acme'')),
     (30, Assign ''acme'' PRO)]"

lemma gate_plan_is_recent_witness:
  "snd (requireEntitlement 60 (entitlement_run 60 (take 2 gate_events0)) SIEM_EXPORT (One '' acme '') 20) = gate_decision FREE SIEM_EXPORT \<and>
   snd (requireEntitlement 60 (entitlement_run 60 gate_events0) SIEM_EXPORT (One ''acme'') 40) = Through \<and>
   (\<exists>pre post. gate_events0 = pre @ post \<and>
      list_all (\<lambda>(t, e). 40 - 60 < t \<and> \<not> assigns ''acme'' e) post \<and>
      snd (requireEntitlement 60 (entitlement_run 60 gate_events0) SIEM_EXPORT (One ''acme'') 40) =
        gate_decision (stored_plan (en_store (entitlement_run 60 pre)) ''acme'') SIEM_EXPORT)"
proof (intro conjI)
  show "snd (requireEntitlement 60 (entitlement_run 60 (take 2 gate_events0)) SIEM_EXPORT (One '' acme '') 20) =
    gate_decision FREE SIEM_EXPORT" by code_simp
  show "snd (requireEntitlement 60 (entitlement_run 60 gate_events0) SIEM_EXPORT (One ''acme'') 40) = Through" by code_simp
  have acme: "tenantIdForRequest (One ''acme'') = ''acme''" by code_simp
  show "\<exists>pre post. gate_events0 = pre @ post \<and>
      list_all (\<lambda>(t, e). 40 - 60 < t \<and> \<not> assigns ''acme'' e) post \<and>
      snd (requireEntitlement 60 (entitlement_run 60 gate_events0) SIEM_EXPORT (One ''acme'') 40) =
        gate_decision (stored_plan (en_store (entitlement_run 60 pre)) ''acme'') SIEM_EXPORT"
    unfolding list_all_iff
    by (rule gate_plan_is_recent [of gate_events0 60 40 "One ''acme''" SIEM_EXPORT, unfolded acme]) (simp_all add: gate_events0_def)
qed

end
