(* ===== verification/SafeObject.thy ===== *)
theory SafeObject
  imports Prelude
begin

text \<open>
  Guards against prototype pollution, \<^verbatim>\<open>backend/src/utils/safeObject.ts\<close>, on the values a JSON body can
  hold. An object is the list of its own properties in the engine's order; an operation that mutates in
  place returns the value it leaves, and the parser of JSON text is an argument. Such values are trees, so
  the set of values already visited plays no part. The lemmas show which values end up without a
  dangerous key, and where the depth cap and the treatment of arrays leave one.
\<close>

section \<open>Dangerous keys\<close>

definition POLLUTION_KEYS :: "string list" where
  "POLLUTION_KEYS = [''__proto__'', ''constructor'', ''prototype'']"

definition MAX_DEPTH :: nat where
  "MAX_DEPTH = 32"

definition isPollutionKey :: "string \<Rightarrow> bool" where
  "isPollutionKey key \<longleftrightarrow> key \<in> set POLLUTION_KEYS"

section \<open>Stripping\<close>

definition child_path :: "string \<Rightarrow> string \<Rightarrow> string" where
  "child_path path key = (if path = [] then key else path @ ''.'' @ key)"

text \<open>The value a walk leaves, and the paths of the keys it removed, in the order it removed them.\<close>

fun walk :: "js_value \<Rightarrow> string \<Rightarrow> nat \<Rightarrow> js_value \<times> string list"
  and walk_elements :: "js_value list \<Rightarrow> nat \<Rightarrow> string \<Rightarrow> nat \<Rightarrow> js_value list \<times> string list"
  and walk_fields :: "(string \<times> js_value) list \<Rightarrow> string \<Rightarrow> nat \<Rightarrow> (string \<times> js_value) list \<times> string list"
where
  "walk v path depth =
     (if MAX_DEPTH < depth then (v, [])
      else case v of
        JArr vs \<Rightarrow> (case walk_elements vs 0 path depth of (vs', stripped) \<Rightarrow> (JArr vs', stripped))
      | JObj kvs \<Rightarrow> (case walk_fields kvs path depth of (kvs', stripped) \<Rightarrow> (JObj kvs', stripped))
      | _ \<Rightarrow> (v, []))"
| "walk_elements [] i path depth = ([], [])"
| "walk_elements (v # vs) i path depth =
     (case walk v (path @ ''['' @ digits i @ '']'') (Suc depth) of (v', s1) \<Rightarrow>
      case walk_elements vs (Suc i) path depth of (vs', s2) \<Rightarrow> (v' # vs', s1 @ s2))"
| "walk_fields [] path depth = ([], [])"
| "walk_fields (kv # kvs) path depth =
     (case walk_fields kvs path depth of (kvs', s2) \<Rightarrow>
      if isPollutionKey (fst kv) then (kvs', child_path path (fst kv) # s2)
      else case walk (snd kv) (child_path path (fst kv)) (Suc depth) of (v', s1) \<Rightarrow> ((fst kv, v') # kvs', s1 @ s2))"

definition sanitizeDeep :: "js_value \<Rightarrow> js_value \<times> string list" where
  "sanitizeDeep v = walk v [] 0"

fun hasPollutionKey :: "js_value \<Rightarrow> nat \<Rightarrow> bool" where
  "hasPollutionKey v depth =
     (if MAX_DEPTH < depth then False
      else case v of
        JArr vs \<Rightarrow> list_ex (\<lambda>u. hasPollutionKey u (Suc depth)) vs
      | JObj kvs \<Rightarrow> list_ex (\<lambda>kv. isPollutionKey (fst kv) \<or> hasPollutionKey (snd kv) (Suc depth)) kvs
      | _ \<Rightarrow> False)"

text \<open>The reviver that \<^verbatim>\<open>JSON.parse\<close> calls on every property, the innermost first.\<close>

fun revive :: "js_value \<Rightarrow> js_value" where
  "revive (JArr vs) = JArr (map revive vs)"
| "revive (JObj kvs) = JObj (map (\<lambda>kv. (fst kv, revive (snd kv))) (filter (\<lambda>kv. \<not> isPollutionKey (fst kv)) kvs))"
| "revive v = v"

definition safeParseJson :: "(string \<Rightarrow> js_value option) \<Rightarrow> string \<Rightarrow> js_error + js_value" where
  "safeParseJson parse text =
     (case parse text of None \<Rightarrow> Inl SyntaxError | Some v \<Rightarrow> Inr (fst (sanitizeDeep (revive v))))"

section \<open>Merging\<close>

text \<open>\<open>room\<close> is how much deeper a copy may go: a copy at a depth beyond the cap is the empty object.\<close>

fun cloneSanitized :: "nat \<Rightarrow> (string \<times> js_value) list \<Rightarrow> (string \<times> js_value) list" where
  "cloneSanitized depth source =
     (if MAX_DEPTH < depth then []
      else foldl (\<lambda>clone kv. if isPollutionKey (fst kv) then clone
             else map_set clone (fst kv) (case snd kv of JObj kvs \<Rightarrow> JObj (cloneSanitized (Suc depth) kvs) | v \<Rightarrow> v)) [] source)"

text \<open>\<open>defineOwn\<close> writes a property in place, or as the last one where it is new.\<close>

fun mergeInto :: "(string \<times> js_value) list \<Rightarrow> (string \<times> js_value) list \<Rightarrow> nat \<Rightarrow> (string \<times> js_value) list" where
  "mergeInto target source depth =
     (if MAX_DEPTH < depth then target
      else foldl (\<lambda>target kv.
             if isPollutionKey (fst kv) then target
             else map_set target (fst kv)
               (case snd kv of
                  JObj incoming \<Rightarrow>
                    (case map_get target (fst kv) of
                       Some (JObj existing) \<Rightarrow> JObj (mergeInto existing incoming (Suc depth))
                     | _ \<Rightarrow> JObj (cloneSanitized (Suc depth) incoming))
                | v \<Rightarrow> v)) target source)"

definition safeMerge :: "(string \<times> js_value) list \<Rightarrow> (string \<times> js_value) list option list \<Rightarrow> (string \<times> js_value) list" where
  "safeMerge target sources =
     foldl (\<lambda>target source. case source of None \<Rightarrow> target | Some s \<Rightarrow> mergeInto target s 0) target sources"

definition assign_fields :: "(string \<times> js_value) list \<Rightarrow> (string \<times> js_value) list \<Rightarrow> (string \<times> js_value) list" where
  "assign_fields target source =
     foldl (\<lambda>target kv. if isPollutionKey (fst kv) then target else map_set target (fst kv) (snd kv)) target source"

definition safeAssign :: "(string \<times> js_value) list \<Rightarrow> (string \<times> js_value) list option list \<Rightarrow> (string \<times> js_value) list" where
  "safeAssign target sources =
     foldl (\<lambda>target source. case source of None \<Rightarrow> target | Some s \<Rightarrow> assign_fields target s) target sources"

definition createSafeRecord :: "(string \<times> js_value) list option \<Rightarrow> (string \<times> js_value) list" where
  "createSafeRecord entries = (case entries of None \<Rightarrow> [] | Some es \<Rightarrow> assign_fields [] es)"

declare walk.simps [simp del]
declare hasPollutionKey.simps [simp del]
declare cloneSanitized.simps [simp del]
declare mergeInto.simps [simp del]

section \<open>What stripping leaves\<close>

lemma walk_value [simp]:
  "walk JUndefined path d = (JUndefined, [])" "walk JNull path d = (JNull, [])" "walk (JBool b) path d = (JBool b, [])"
  "walk (JNum q) path d = (JNum q, [])" "walk (JStr s) path d = (JStr s, [])"
  "walk (JArr vs) path d = (if MAX_DEPTH < d then (JArr vs, [])
     else (JArr (fst (walk_elements vs 0 path d)), snd (walk_elements vs 0 path d)))"
  "walk (JObj kvs) path d = (if MAX_DEPTH < d then (JObj kvs, [])
     else (JObj (fst (walk_fields kvs path d)), snd (walk_fields kvs path d)))"
  by (subst walk.simps, simp split: prod.split)+

lemma has_value [simp]:
  "\<not> hasPollutionKey JUndefined d" "\<not> hasPollutionKey JNull d" "\<not> hasPollutionKey (JBool b) d"
  "\<not> hasPollutionKey (JNum q) d" "\<not> hasPollutionKey (JStr s) d"
  "hasPollutionKey (JArr vs) d \<longleftrightarrow> d \<le> MAX_DEPTH \<and> list_ex (\<lambda>u. hasPollutionKey u (Suc d)) vs"
  "hasPollutionKey (JObj kvs) d \<longleftrightarrow>
     d \<le> MAX_DEPTH \<and> list_ex (\<lambda>kv. isPollutionKey (fst kv) \<or> hasPollutionKey (snd kv) (Suc d)) kvs"
  by (subst hasPollutionKey.simps, simp add: not_less)+

text \<open>No dangerous key at any depth, and how deep the containers of a value are nested.\<close>

fun clean :: "js_value \<Rightarrow> bool" where
  "clean (JArr vs) \<longleftrightarrow> list_all clean vs"
| "clean (JObj kvs) \<longleftrightarrow> list_all (\<lambda>kv. \<not> isPollutionKey (fst kv) \<and> clean (snd kv)) kvs"
| "clean v \<longleftrightarrow> True"

fun nesting :: "js_value \<Rightarrow> nat" where
  "nesting (JArr vs) = Suc (foldr (\<lambda>v n. max (nesting v) n) vs 0)"
| "nesting (JObj kvs) = Suc (foldr (\<lambda>kv n. max (nesting (snd kv)) n) kvs 0)"
| "nesting v = 0"

lemma foldr_max_le: "foldr (\<lambda>v n. max (f v) n) vs 0 \<le> (m :: nat) \<longleftrightarrow> (\<forall>v\<in>set vs. f v \<le> m)"
  by (induction vs) auto

lemma walk_strips:
  "\<not> hasPollutionKey (fst (walk v path d)) d"
  "\<not> list_ex (\<lambda>u. hasPollutionKey u (Suc d)) (fst (walk_elements vs i path d))"
  "\<not> list_ex (\<lambda>kv. isPollutionKey (fst kv) \<or> hasPollutionKey (snd kv) (Suc d)) (fst (walk_fields kvs path d))"
proof (induction v path d and vs i path d and kvs path d rule: walk_walk_elements_walk_fields.induct)
  case (1 v path depth)
  then show ?case
    by (cases v) auto
qed (auto split: prod.split)

lemma walk_reports:
  "snd (walk v path d) = [] \<longleftrightarrow> \<not> hasPollutionKey v d"
  "snd (walk_elements vs i path d) = [] \<longleftrightarrow> \<not> list_ex (\<lambda>u. hasPollutionKey u (Suc d)) vs"
  "snd (walk_fields kvs path d) = [] \<longleftrightarrow> \<not> list_ex (\<lambda>kv. isPollutionKey (fst kv) \<or> hasPollutionKey (snd kv) (Suc d)) kvs"
proof (induction v path d and vs i path d and kvs path d rule: walk_walk_elements_walk_fields.induct)
  case (1 v path depth)
  then show ?case
    by (cases v) auto
qed (auto split: prod.split)

lemma walk_keeps:
  "\<not> hasPollutionKey v d \<Longrightarrow> fst (walk v path d) = v"
  "\<not> list_ex (\<lambda>u. hasPollutionKey u (Suc d)) vs \<Longrightarrow> fst (walk_elements vs i path d) = vs"
  "\<not> list_ex (\<lambda>kv. isPollutionKey (fst kv) \<or> hasPollutionKey (snd kv) (Suc d)) kvs \<Longrightarrow> fst (walk_fields kvs path d) = kvs"
proof (induction v path d and vs i path d and kvs path d rule: walk_walk_elements_walk_fields.induct)
  case (1 v path depth)
  then show ?case
    by (cases v) (auto simp: not_le)
qed (auto split: prod.split)

lemma walk_revives:
  "nesting v + d \<le> Suc MAX_DEPTH \<Longrightarrow> fst (walk v path d) = revive v"
  "\<forall>v\<in>set vs. nesting v + Suc d \<le> Suc MAX_DEPTH \<Longrightarrow> fst (walk_elements vs i path d) = map revive vs"
  "\<forall>kv\<in>set kvs. nesting (snd kv) + Suc d \<le> Suc MAX_DEPTH \<Longrightarrow> fst (walk_fields kvs path d) =
     map (\<lambda>kv. (fst kv, revive (snd kv))) (filter (\<lambda>kv. \<not> isPollutionKey (fst kv)) kvs)"
proof (induction v path d and vs i path d and kvs path d rule: walk_walk_elements_walk_fields.induct)
  case (1 v path depth)
  have inner: "\<forall>x\<in>set xs. f x + Suc depth \<le> Suc MAX_DEPTH"
    if "Suc (foldr (\<lambda>v n. max (f v) n) xs 0) + depth \<le> Suc MAX_DEPTH" for f :: "'b \<Rightarrow> nat" and xs
  proof -
    have "foldr (\<lambda>v n. max (f v) n) xs 0 \<le> MAX_DEPTH - depth" using that by arith
    then have "\<forall>x\<in>set xs. f x \<le> MAX_DEPTH - depth" unfolding foldr_max_le .
    then show ?thesis using that by fastforce
  qed
  show ?case
  proof (cases v)
    case (JArr vs)
    have shallow: "\<not> MAX_DEPTH < depth" using "1.prems" JArr by simp
    have "fst (walk_elements vs 0 path depth) = map revive vs"
      using "1.IH"(1) [OF shallow JArr] inner [of nesting vs] "1.prems" JArr by simp
    then show ?thesis using JArr shallow by simp
  next
    case (JObj kvs)
    have shallow: "\<not> MAX_DEPTH < depth" using "1.prems" JObj by simp
    have "fst (walk_fields kvs path depth) = map (\<lambda>kv. (fst kv, revive (snd kv))) (filter (\<lambda>kv. \<not> isPollutionKey (fst kv)) kvs)"
      using "1.IH"(2) [OF shallow JObj] inner [of "\<lambda>kv. nesting (snd kv)" kvs] "1.prems" JObj by simp
    then show ?thesis using JObj shallow by simp
  qed simp_all
qed (auto split: prod.split)

lemma clean_revive: "clean (revive v)"
  by (induction v rule: revive.induct) (auto simp: list_all_iff)

lemma clean_has_none: "clean v \<Longrightarrow> \<not> hasPollutionKey v d"
proof (induction v arbitrary: d rule: clean.induct)
  case (1 vs)
  then show ?case by (auto simp: list_ex_iff list_all_iff)
next
  case (2 kvs)
  then show ?case by (force simp: list_ex_iff list_all_iff)
qed simp_all

text \<open>
  C33. Stripping a body leaves no key the detector would find and reports something exactly when the
  detector finds something; a value without dangerous keys is left as it is, a second pass finds
  nothing, and a body nested no deeper than the cap ends up as the reviver of the JSON parser would leave
  it, without a dangerous key at any depth.
\<close>

theorem sanitize_strips:
  "\<not> hasPollutionKey (fst (sanitizeDeep v)) 0 \<and>
   (snd (sanitizeDeep v) = [] \<longleftrightarrow> \<not> hasPollutionKey v 0) \<and>
   (\<not> hasPollutionKey v 0 \<longrightarrow> fst (sanitizeDeep v) = v) \<and>
   sanitizeDeep (fst (sanitizeDeep v)) = (fst (sanitizeDeep v), []) \<and>
   (nesting v \<le> Suc MAX_DEPTH \<longrightarrow> fst (sanitizeDeep v) = revive v \<and> clean (fst (sanitizeDeep v)))"
proof -
  have once: "\<not> hasPollutionKey (fst (walk v [] 0)) 0" by (rule walk_strips)
  then have "walk (fst (walk v [] 0)) [] 0 = (fst (walk v [] 0), [])"
    using walk_keeps(1) [OF once] walk_reports(1) [of "fst (walk v [] 0)" "[]" 0] by (simp add: prod_eq_iff)
  then show ?thesis
    using once walk_reports(1) [of v "[]" 0] walk_keeps(1) [of v 0 "[]"] walk_revives(1) [of v 0 "[]"] clean_revive [of v]
    by (auto simp: sanitizeDeep_def)
qed

definition body0 :: js_value where
  "body0 = JObj [(''a'', JArr [JObj [(''__proto__'', JObj [(''admin'', JBool True)]), (''b'', JNum 1)]]), (''constructor'', JNull)]"

lemma sanitize_strips_witness:
  "sanitizeDeep body0 = (JObj [(''a'', JArr [JObj [(''b'', JNum 1)]])], [''a[0].__proto__'', ''constructor'']) \<and>
   clean (fst (sanitizeDeep body0)) \<and> fst (sanitizeDeep (JObj [(''b'', JNum 1)])) = JObj [(''b'', JNum 1)]"
proof (intro conjI)
  show "sanitizeDeep body0 = (JObj [(''a'', JArr [JObj [(''b'', JNum 1)]])], [''a[0].__proto__'', ''constructor''])"
    by code_simp
  have "nesting body0 \<le> Suc MAX_DEPTH" by code_simp
  then show "clean (fst (sanitizeDeep body0))" using sanitize_strips [of body0] by blast
  have "\<not> hasPollutionKey (JObj [(''b'', JNum 1)]) 0" by code_simp
  then show "fst (sanitizeDeep (JObj [(''b'', JNum 1)])) = JObj [(''b'', JNum 1)]"
    using sanitize_strips [of "JObj [(''b'', JNum 1)]"] by blast
qed

text \<open>Text that goes through the parser loses its dangerous keys at every depth, and nothing else.\<close>

lemma safeParseJson_clean: "safeParseJson parse text = (case parse text of None \<Rightarrow> Inl SyntaxError | Some v \<Rightarrow> Inr (revive v))"
proof -
  have "sanitizeDeep (revive v) = (revive v, [])" for v
    using walk_keeps(1) [OF clean_has_none [OF clean_revive], of v "[]" 0] walk_reports(1) [of "revive v" "[]" 0]
      clean_has_none [OF clean_revive, of v 0]
    by (simp add: sanitizeDeep_def prod_eq_iff)
  then show ?thesis by (simp add: safeParseJson_def split: option.split)
qed

section \<open>What merging leaves\<close>

text \<open>Every array of a value is without dangerous keys; its objects need not be.\<close>

fun array_safe :: "js_value \<Rightarrow> bool" where
  "array_safe (JArr vs) \<longleftrightarrow> clean (JArr vs)"
| "array_safe (JObj kvs) \<longleftrightarrow> list_all (\<lambda>kv. array_safe (snd kv)) kvs"
| "array_safe v \<longleftrightarrow> True"

lemma foldl_keeps: "(\<And>acc x. x \<in> set xs \<Longrightarrow> P acc \<Longrightarrow> P (f acc x)) \<Longrightarrow> P acc \<Longrightarrow> P (foldl f acc xs)"
  by (induction xs arbitrary: acc) auto

lemma clean_set: "clean (JObj m) \<Longrightarrow> \<not> isPollutionKey k \<Longrightarrow> clean v \<Longrightarrow> clean (JObj (map_set m k v))"
  by (induction m) auto

lemma clean_get: "clean (JObj m) \<Longrightarrow> map_get m k = Some v \<Longrightarrow> clean v"
  by (induction m) (auto split: if_splits)

lemma clone_clean: "list_all (\<lambda>kv. array_safe (snd kv)) source \<Longrightarrow> clean (JObj (cloneSanitized depth source))"
proof (induction depth source rule: cloneSanitized.induct)
  case (1 depth source)
  have "clean (JObj (foldl (\<lambda>clone kv. if isPollutionKey (fst kv) then clone
      else map_set clone (fst kv) (case snd kv of JObj kvs \<Rightarrow> JObj (cloneSanitized (Suc depth) kvs) | v \<Rightarrow> v)) [] source))"
    if "\<not> MAX_DEPTH < depth"
  proof (rule foldl_keeps [where P = "\<lambda>m. clean (JObj m)"])
    fix clone kv assume kv: "kv \<in> set source" and acc: "clean (JObj clone)"
    then have safe: "array_safe (snd kv)" using "1.prems" by (simp add: list_all_iff)
    have "clean (case snd kv of JObj kvs \<Rightarrow> JObj (cloneSanitized (Suc depth) kvs) | v \<Rightarrow> v)" if "\<not> isPollutionKey (fst kv)"
      using "1.IH" [OF \<open>\<not> MAX_DEPTH < depth\<close> kv that] safe by (cases "snd kv") auto
    then show "clean (JObj (if isPollutionKey (fst kv) then clone
        else map_set clone (fst kv) (case snd kv of JObj kvs \<Rightarrow> JObj (cloneSanitized (Suc depth) kvs) | v \<Rightarrow> v)))"
      using acc clean_set by (simp del: clean.simps)
  qed simp
  then show ?case by (subst cloneSanitized.simps) simp
qed

lemma merge_clean:
  "clean (JObj target) \<Longrightarrow> list_all (\<lambda>kv. array_safe (snd kv)) source \<Longrightarrow> clean (JObj (mergeInto target source depth))"
proof (induction target source depth rule: mergeInto.induct)
  case (1 target source depth)
  define step where "step = (\<lambda>target kv. if isPollutionKey (fst kv) then target
      else map_set target (fst kv)
        (case snd kv of
           JObj incoming \<Rightarrow>
             (case map_get target (fst kv) of
                Some (JObj existing) \<Rightarrow> JObj (mergeInto existing incoming (Suc depth))
              | _ \<Rightarrow> JObj (cloneSanitized (Suc depth) incoming))
         | v \<Rightarrow> v))"
  have "clean (JObj (foldl step target source))" if shallow: "\<not> MAX_DEPTH < depth"
  proof (rule foldl_keeps [where P = "\<lambda>m. clean (JObj m)"])
    fix acc kv assume kv: "kv \<in> set source" and acc: "clean (JObj acc)"
    then have safe: "array_safe (snd kv)" using "1.prems" by (simp add: list_all_iff)
    show "clean (JObj (step acc kv))"
    proof (cases "isPollutionKey (fst kv)")
      case True
      then show ?thesis using acc by (simp add: step_def)
    next
      case key: False
      have new: "clean (case snd kv of
           JObj incoming \<Rightarrow>
             (case map_get acc (fst kv) of
                Some (JObj existing) \<Rightarrow> JObj (mergeInto existing incoming (Suc depth))
              | _ \<Rightarrow> JObj (cloneSanitized (Suc depth) incoming))
         | v \<Rightarrow> v)"
      proof (cases "snd kv")
        case (JObj incoming)
        then have inner: "list_all (\<lambda>kv. array_safe (snd kv)) incoming" using safe by simp
        show ?thesis
        proof (cases "\<exists>existing. map_get acc (fst kv) = Some (JObj existing)")
          case True
          then obtain existing where old: "map_get acc (fst kv) = Some (JObj existing)" by blast
          then have "clean (JObj existing)" using clean_get acc by blast
          from "1.IH" [OF shallow kv key JObj old refl this inner] show ?thesis using old JObj by simp
        next
          case False
          then show ?thesis using clone_clean [OF inner, of "Suc depth"] JObj
            by (auto split: option.split js_value.split simp del: clean.simps)
        qed
      qed (use safe in auto)
      then show ?thesis using clean_set [OF acc key new] key by (simp add: step_def)
    qed
  qed (rule "1.prems")
  then show ?case using "1.prems" by (subst mergeInto.simps) (simp add: step_def del: clean.simps)
qed

text \<open>
  Merging untrusted objects into one without dangerous keys brings none in, at any depth and whatever
  their keys, as long as the arrays of the sources hold none themselves.
\<close>

theorem merge_stays_clean:
  assumes "clean (JObj target)" and "\<forall>s. Some s \<in> set sources \<longrightarrow> list_all (\<lambda>kv. array_safe (snd kv)) s"
  shows "clean (JObj (safeMerge target sources))"
  unfolding safeMerge_def
  by (rule foldl_keeps [where P = "\<lambda>m. clean (JObj m)"])
    (use assms merge_clean in \<open>auto split: option.split simp del: clean.simps\<close>)

definition payload0 :: "(string \<times> js_value) list" where
  "payload0 = [(''__proto__'', JBool True), (''a'', JObj [(''b'', JObj [(''constructor'', JNull), (''c'', JNum 1)])])]"

lemma merge_stays_clean_witness:
  "safeMerge [(''a'', JObj [(''x'', JNum 0)])] [None, Some payload0] =
      [(''a'', JObj [(''x'', JNum 0), (''b'', JObj [(''c'', JNum 1)])])] \<and>
   clean (JObj (safeMerge [(''a'', JObj [(''x'', JNum 0)])] [None, Some payload0]))"
proof
  show "safeMerge [(''a'', JObj [(''x'', JNum 0)])] [None, Some payload0] =
      [(''a'', JObj [(''x'', JNum 0), (''b'', JObj [(''c'', JNum 1)])])]" by code_simp
  have "clean (JObj [(''a'', JObj [(''x'', JNum 0)])])" by code_simp
  moreover have "list_all (\<lambda>kv. array_safe (snd kv)) payload0" by code_simp
  ultimately show "clean (JObj (safeMerge [(''a'', JObj [(''x'', JNum 0)])] [None, Some payload0]))"
    by (intro merge_stays_clean) auto
qed

text \<open>Merging an array copies it as it is: a dangerous key of an object inside it stays.\<close>

lemma merge_keeps_keys_in_arrays:
  "safeMerge [] [Some [(''a'', JArr [JObj [(''__proto__'', JBool True)]])]] = [(''a'', JArr [JObj [(''__proto__'', JBool True)]])]"
  by code_simp

end
