(* ===== verification/Intake.thy ===== *)
theory Intake
  imports Payload SafeObject
begin

text \<open>
  The intake of a request: the body limits of \<open>Payload\<close> and then the guard of
  \<^verbatim>\<open>backend/src/middleware/prototypePollutionGuard.ts\<close>, in the order \<^verbatim>\<open>backend/src/index.ts\<close> mounts them.
  What the JSON parser makes of a text is \<open>value_of\<close>, with the reading of numbers and literals and of
  the escapes in a string as arguments; metrics, log lines and audit entries are left out. The theorem joins the two: the
  depth the limits let through is within the depth the stripping covers.
\<close>

section \<open>The guard\<close>

datatype guard_mode = Strip | Reject

record guarded_request =
  gr_body :: js_value
  gr_query :: js_value

datatype pollution_outcome = Handlers guarded_request | Unsafe_payload

definition is_js_object :: "js_value \<Rightarrow> bool" where
  "is_js_object v \<longleftrightarrow> (case v of js_value.JArr _ \<Rightarrow> True | js_value.JObj _ \<Rightarrow> True | _ \<Rightarrow> False)"

definition sweep_part :: "string \<Rightarrow> js_value \<Rightarrow> js_value \<times> string list" where
  "sweep_part name v =
     (if is_js_object v
      then (case sanitizeDeep v of (v', stripped) \<Rightarrow> (v', map (\<lambda>path. name @ ''.'' @ path) stripped))
      else (v, []))"

text \<open>The outcome and the keys found, as they are reported.\<close>

definition prototypePollutionGuard :: "guard_mode option \<Rightarrow> guarded_request \<Rightarrow> pollution_outcome \<times> string list" where
  "prototypePollutionGuard mode req =
     (case sweep_part ''body'' (gr_body req) of (body, found_body) \<Rightarrow>
      case sweep_part ''query'' (gr_query req) of (query, found_query) \<Rightarrow>
        let findings = found_body @ found_query;
            swept = req\<lparr>gr_body := body, gr_query := query\<rparr>
        in if findings = [] then (Handlers swept, [])
           else (if or_else mode Strip = Reject then Unsafe_payload else Handlers swept, findings))"

section \<open>The value of a text\<close>

fun value_of :: "(nat list \<Rightarrow> js_value) \<Rightarrow> (nat list \<Rightarrow> string) \<Rightarrow> jtext \<Rightarrow> js_value" where
  "value_of atom rd (JTok t) = atom t"
| "value_of atom rd (jtext.JStr s) = js_value.JStr (rd s)"
| "value_of atom rd (jtext.JArr ts) = js_value.JArr (map (value_of atom rd) ts)"
| "value_of atom rd (jtext.JObj ms) =
     js_value.JObj (foldl (\<lambda>kvs m. map_set kvs (rd (fst m)) (value_of atom rd (snd m))) [] ms)"

text \<open>A number or a literal is not an array or object.\<close>

definition atoms_flat :: "(nat list \<Rightarrow> js_value) \<Rightarrow> bool" where
  "atoms_flat atom \<longleftrightarrow> (\<forall>t. nesting (atom t) = 0)"

lemma nesting_set:
  "\<forall>kv\<in>set kvs. nesting (snd kv) \<le> n \<Longrightarrow> nesting v \<le> n \<Longrightarrow> \<forall>kv\<in>set (map_set kvs k v). nesting (snd kv) \<le> n"
  by (induction kvs) auto

lemma fold_max_ge: "x \<in> set xs \<Longrightarrow> x \<le> fold max xs (0 :: nat)"
  using fold_max_le [of xs 0 "fold max xs 0"] by simp

lemma nesting_le_depth: "atoms_flat atom \<Longrightarrow> nesting (value_of atom rd t) \<le> jdepth t"
proof (induction atom rd t rule: value_of.induct)
  case (1 atom rd t)
  then show ?case by (simp add: atoms_flat_def)
next
  case (3 atom rd ts)
  have "nesting (value_of atom rd t) \<le> fold max (map jdepth ts) 0" if "t \<in> set ts" for t
    using 3 that by (intro order_trans [OF _ fold_max_ge, of _ "jdepth t"]) auto
  then show ?case by (simp add: foldr_max_le)
next
  case (4 atom rd ms)
  let ?step = "\<lambda>kvs m. map_set kvs (rd (fst m)) (value_of atom rd (snd m))" and ?n = "fold max (map (\<lambda>(k, v). jdepth v) ms) 0"
  have "\<forall>kv\<in>set (foldl ?step [] ms). nesting (snd kv) \<le> ?n"
  proof (rule foldl_keeps [where P = "\<lambda>kvs. \<forall>kv\<in>set kvs. nesting (snd kv) \<le> ?n"])
    fix kvs :: "(string \<times> js_value) list" and m assume m: "m \<in> set ms" and kvs: "\<forall>kv\<in>set kvs. nesting (snd kv) \<le> ?n"
    have "jdepth (snd m) \<in> set (map (\<lambda>(k, v). jdepth v) ms)" using m by (auto simp: image_iff split: prod.splits intro!: bexI [of _ m])
    then have "jdepth (snd m) \<le> ?n" by (rule fold_max_ge)
    moreover have "nesting (value_of atom rd (snd m)) \<le> jdepth (snd m)" using 4 m by (cases m) auto
    ultimately show "\<forall>kv\<in>set (?step kvs m). nesting (snd kv) \<le> ?n"
      using kvs by (intro nesting_set) auto
  qed simp
  then show ?case by (simp add: foldr_max_le)
qed simp

section \<open>An admitted body\<close>

lemma passed_depth:
  assumes "parser_honours_limit parser" "jtext_ok t" "payload_decision parser defaults routes path declared (jrender t) = Pass"
  shows "int (jdepth t) \<le> max 0 (maxDepth (resolveLimits path defaults routes))"
proof (rule ccontr)
  let ?limits = "resolveLimits path defaults routes"
  assume "\<not> ?thesis"
  then have "assertJsonShape (jrender t) ?limits \<noteq> None"
    using scan_render(1) [OF assms(2), of "[]" 0 "maxDepth ?limits" "maxArrayLength ?limits" "[]"]
      jverdict_None(1) [of "maxDepth ?limits" "maxArrayLength ?limits" 0 t]
    by (auto simp: assertJsonShape_def split: option.splits)
  then obtain r where shape: "assertJsonShape (jrender t) ?limits = Some r" by blast
  have "if maxBytes ?limits < int (length (jrender t))
      then parser (maxBytes ?limits) (\<lambda>buf. assertJsonShape buf ?limits) (jrender t) = Some Entity_too_large
      else case assertJsonShape (jrender t) ?limits of
             Some r \<Rightarrow> parser (maxBytes ?limits) (\<lambda>buf. assertJsonShape buf ?limits) (jrender t) = Some (Limit_error r)
           | None \<Rightarrow> parser (maxBytes ?limits) (\<lambda>buf. assertJsonShape buf ?limits) (jrender t) \<in> {None, Some Other_error}"
    using assms(1) unfolding parser_honours_limit_def by blast
  then have "parser (maxBytes ?limits) (\<lambda>buf. assertJsonShape buf ?limits) (jrender t) \<noteq> None"
    using shape by (auto split: if_splits)
  then show False using assms(3)
    by (auto simp: payload_decision_def Let_def split: if_splits option.splits parser_error.splits)
qed

lemma swept_body: "gr_body req' = fst (sweep_part ''body'' (gr_body req))" if "fst (prototypePollutionGuard mode req) = Handlers req'"
  using that by (auto simp: prototypePollutionGuard_def Let_def split: prod.splits if_splits)

lemma sweep_clean:
  assumes "nesting v \<le> Suc SafeObject.MAX_DEPTH"
  shows "clean (fst (sweep_part name v))"
proof (cases "is_js_object v")
  case True
  have "fst (sanitizeDeep v) = revive v" using walk_revives(1) [of v 0 "[]"] assms by (simp add: sanitizeDeep_def)
  then have "clean (fst (sanitizeDeep v))" using clean_revive by simp
  then show ?thesis using True by (cases "sanitizeDeep v") (simp add: sweep_part_def)
next
  case False
  then show ?thesis by (cases v) (simp_all add: sweep_part_def is_js_object_def)
qed

text \<open>
  A JSON body that passes the limits of a route of depth at most thirty-three reaches the handlers
  without a dangerous key at any depth, whatever its keys and whatever the guard's mode; and if the guard
  is to refuse such bodies, the ones it lets through are as they were sent.
\<close>

theorem admitted_body_is_clean:
  assumes "parser_honours_limit parser" and "jtext_ok t" and "atoms_flat atom"
    and "maxDepth (resolveLimits path defaults routes) \<le> 33"
    and "payload_decision parser defaults routes path declared (jrender t) = Pass"
    and "gr_body req = value_of atom rd t" and "fst (prototypePollutionGuard mode req) = Handlers req'"
  shows "clean (gr_body req') \<and> (mode = Some Reject \<longrightarrow> gr_body req' = gr_body req)"
proof
  have "int (jdepth t) \<le> 33" using passed_depth [OF assms(1,2,5)] assms(4) by linarith
  then have "nesting (gr_body req) \<le> 33" using nesting_le_depth [OF assms(3), of rd t] assms(6) by simp
  then show "clean (gr_body req')"
    unfolding swept_body [OF assms(7)] by (intro sweep_clean) (simp add: SafeObject.MAX_DEPTH_def)
  show "mode = Some Reject \<longrightarrow> gr_body req' = gr_body req"
  proof
    assume "mode = Some Reject"
    with assms(7) have "snd (sweep_part ''body'' (gr_body req)) = []"
      by (auto simp: prototypePollutionGuard_def Let_def split: prod.splits if_splits)
    then have "is_js_object (gr_body req) \<Longrightarrow> \<not> hasPollutionKey (gr_body req) 0"
      using walk_reports(1) [of "gr_body req" "[]" 0] by (auto simp: sweep_part_def sanitizeDeep_def split: prod.splits)
    then show "gr_body req' = gr_body req"
      unfolding swept_body [OF assms(7)] using walk_keeps(1) [of "gr_body req" 0 "[]"]
      by (auto simp: sweep_part_def sanitizeDeep_def split: prod.split)
  qed
qed

definition hostile_text :: jtext where
  "hostile_text = jtext.JObj [([97], jtext.JArr [jtext.JObj [([95, 95, 112, 114, 111, 116, 111, 95, 95], JTok [49]), ([98], JTok [50])]])]"

definition hostile_request :: guarded_request where
  "hostile_request = \<lparr>gr_body = value_of (\<lambda>t. JNum 1) (map char_of) hostile_text, gr_query = JUndefined\<rparr>"

lemma admitted_body_is_clean_witness:
  "payload_decision plain_parser BASE_PAYLOAD_LIMITS DEFAULT_ROUTE_LIMITS ''/api/loan'' None (jrender hostile_text) = Pass \<and>
   prototypePollutionGuard None hostile_request =
     (Handlers \<lparr>gr_body = js_value.JObj [(''a'', js_value.JArr [js_value.JObj [(''b'', JNum 1)]])], gr_query = JUndefined\<rparr>,
      [''body.a[0].__proto__'']) \<and>
   clean (js_value.JObj [(''a'', js_value.JArr [js_value.JObj [(''b'', JNum 1)]])])"
proof -
  have ok: "jtext_ok hostile_text" by code_simp
  have flat: "atoms_flat (\<lambda>t. JNum 1)" by (simp add: atoms_flat_def)
  have limits: "maxDepth (resolveLimits ''/api/loan'' BASE_PAYLOAD_LIMITS DEFAULT_ROUTE_LIMITS) \<le> 33" by code_simp
  have pass: "payload_decision plain_parser BASE_PAYLOAD_LIMITS DEFAULT_ROUTE_LIMITS ''/api/loan'' None (jrender hostile_text) = Pass"
    by code_simp
  have guard: "prototypePollutionGuard None hostile_request =
     (Handlers \<lparr>gr_body = js_value.JObj [(''a'', js_value.JArr [js_value.JObj [(''b'', JNum 1)]])], gr_query = JUndefined\<rparr>,
      [''body.a[0].__proto__''])" by code_simp
  have body: "gr_body hostile_request = value_of (\<lambda>t. JNum 1) (map char_of) hostile_text" by (simp add: hostile_request_def)
  from admitted_body_is_clean [OF plain_parser_ok ok flat limits pass body, of None] guard pass show ?thesis by simp
qed

end
