(* ===== verification/EmailSuppression.thy ===== *)
theory EmailSuppression
  imports Prelude
begin

text \<open>
  The suppression list of outbound mail, \<^verbatim>\<open>backend/src/services/emailSuppression.ts\<close>: the provider's
  events are classified and applied to the table of addresses, which every send asks first. The table is a
  map from addresses to rows, with the defaults of its columns; the clock and whether a read succeeds are
  arguments, and log lines are left out. The lemmas show that an address is suppressed by its own events
  only, and how.
\<close>

section \<open>Events\<close>

datatype bounce_kind = Hard | Soft | Complaint

definition SOFT_BOUNCE_BASE_BACKOFF_MS :: int where
  "SOFT_BOUNCE_BASE_BACKOFF_MS = 15 * 60 * 1000"

definition SOFT_BOUNCE_MAX_BACKOFF_MS :: int where
  "SOFT_BOUNCE_MAX_BACKOFF_MS = 24 * 60 * 60 * 1000"

definition SOFT_BOUNCE_LIMIT :: nat where
  "SOFT_BOUNCE_LIMIT = 5"

record provider_event =
  pe_email :: js_value
  pe_event :: js_value
  pe_type :: js_value
  pe_reason :: js_value
  pe_response :: js_value

definition normalizeEmail :: "string \<Rightarrow> string" where
  "normalizeEmail email = js_lower (js_trim email)"

definition classifyProviderEvent :: "provider_event \<Rightarrow> bounce_kind option" where
  "classifyProviderEvent e =
     (if pe_event e = JStr ''spamreport'' then Some Complaint
      else if pe_event e = JStr ''bounce'' then (if pe_type e = JStr ''blocked'' then Some Soft else Some Hard)
      else if pe_event e = JStr ''blocked'' \<or> pe_event e = JStr ''deferred'' then Some Soft
      else if pe_event e = JStr ''dropped'' then
        (case pe_reason e of
           JStr r \<Rightarrow> if js_includes (js_lower r) ''bounc'' \<or> js_includes (js_lower r) ''invalid'' then Some Hard else None
         | _ \<Rightarrow> None)
      else None)"

definition softBounceBackoffMs :: "nat \<Rightarrow> int" where
  "softBounceBackoffMs softBounceCount =
     min (SOFT_BOUNCE_BASE_BACKOFF_MS * 2 ^ (softBounceCount - 1)) SOFT_BOUNCE_MAX_BACKOFF_MS"

definition eventDetail :: "provider_event \<Rightarrow> string option" where
  "eventDetail e =
     (case (if js_absent (pe_reason e) then pe_response e else pe_reason e) of JStr s \<Rightarrow> Some (take 500 s) | _ \<Rightarrow> None)"

section \<open>The list\<close>

datatype suppression_reason = Hard_bounce | Soft_bounce | Spam_complaint

record suppression =
  sp_reason :: suppression_reason
  sp_permanent :: bool
  sp_softBounceCount :: nat
  sp_suppressedUntil :: "int option"
  sp_flaggedForReview :: bool
  sp_lastDetail :: "string option"
  sp_lastEventAt :: int

type_synonym suppression_list = "(string, suppression) js_map"

definition suppress_permanently :: "suppression option \<Rightarrow> bounce_kind \<Rightarrow> string option \<Rightarrow> int \<Rightarrow> suppression" where
  "suppress_permanently existing kind lastDetail now =
     (let keepComplaint = (case existing of None \<Rightarrow> False | Some s \<Rightarrow> sp_reason s = Spam_complaint);
          flagged = (case existing of None \<Rightarrow> False | Some s \<Rightarrow> sp_flaggedForReview s)
      in \<lparr>sp_reason = (if keepComplaint \<or> kind = Complaint then Spam_complaint else Hard_bounce),
          sp_permanent = True,
          sp_softBounceCount = (case existing of None \<Rightarrow> 0 | Some s \<Rightarrow> sp_softBounceCount s),
          sp_suppressedUntil = None,
          sp_flaggedForReview = (kind = Complaint \<or> flagged),
          sp_lastDetail = lastDetail,
          sp_lastEventAt = now\<rparr>)"

definition suppress_softly :: "suppression option \<Rightarrow> string option \<Rightarrow> int \<Rightarrow> suppression" where
  "suppress_softly existing lastDetail now =
     (let softBounceCount = (case existing of None \<Rightarrow> 0 | Some s \<Rightarrow> sp_softBounceCount s) + 1;
          exhausted = SOFT_BOUNCE_LIMIT \<le> softBounceCount
      in \<lparr>sp_reason = (if exhausted then Hard_bounce else Soft_bounce),
          sp_permanent = exhausted,
          sp_softBounceCount = softBounceCount,
          sp_suppressedUntil = (if exhausted then None else Some (now + softBounceBackoffMs softBounceCount)),
          sp_flaggedForReview = (case existing of None \<Rightarrow> False | Some s \<Rightarrow> sp_flaggedForReview s),
          sp_lastDetail = lastDetail,
          sp_lastEventAt = now\<rparr>)"

definition suppression_after :: "suppression option \<Rightarrow> bounce_kind \<Rightarrow> string option \<Rightarrow> int \<Rightarrow> suppression" where
  "suppression_after existing kind lastDetail now =
     (if kind = Hard \<or> kind = Complaint then suppress_permanently existing kind lastDetail now
      else case existing of
        Some s \<Rightarrow> if sp_permanent s then s\<lparr>sp_lastDetail := lastDetail, sp_lastEventAt := now\<rparr>
                  else suppress_softly existing lastDetail now
      | None \<Rightarrow> suppress_softly None lastDetail now)"

definition recordEmailEvent :: "suppression_list \<Rightarrow> provider_event \<Rightarrow> int \<Rightarrow> suppression_list \<times> bounce_kind option" where
  "recordEmailEvent db e now =
     (case classifyProviderEvent e of
        None \<Rightarrow> (db, None)
      | Some kind \<Rightarrow>
          (case pe_email e of
             JStr address \<Rightarrow>
               if js_includes address ''@''
               then (let email = normalizeEmail address
                     in (map_set db email (suppression_after (map_get db email) kind (eventDetail e) now), Some kind))
               else (db, None)
           | _ \<Rightarrow> (db, None)))"

text \<open>\<open>readable\<close> is whether the lookup succeeds; a failing one lets the mail out.\<close>

definition isEmailSuppressed :: "suppression_list \<Rightarrow> bool \<Rightarrow> string \<Rightarrow> int \<Rightarrow> bool" where
  "isEmailSuppressed db readable email now =
     (if \<not> readable then False
      else case map_get db (normalizeEmail email) of
        None \<Rightarrow> False
      | Some s \<Rightarrow> sp_permanent s \<or> (case sp_suppressedUntil s of None \<Rightarrow> False | Some t \<Rightarrow> now < t))"

section \<open>An address and its own events\<close>

text \<open>The kinds and times of the events of an address, in order.\<close>

definition own_event :: "string \<Rightarrow> provider_event \<times> int \<Rightarrow> (bounce_kind \<times> int) list" where
  "own_event email et =
     (case classifyProviderEvent (fst et) of
        None \<Rightarrow> []
      | Some kind \<Rightarrow>
          (case pe_email (fst et) of
             JStr address \<Rightarrow> if js_includes address ''@'' \<and> normalizeEmail address = email then [(kind, snd et)] else []
           | _ \<Rightarrow> []))"

definition own_events :: "string \<Rightarrow> (provider_event \<times> int) list \<Rightarrow> (bounce_kind \<times> int) list" where
  "own_events email es = concat (map (own_event email) es)"

definition suppression_run :: "(provider_event \<times> int) list \<Rightarrow> suppression_list" where
  "suppression_run es = foldl (\<lambda>db et. fst (recordEmailEvent db (fst et) (snd et))) [] es"

definition blacklisted :: "(bounce_kind \<times> int) list \<Rightarrow> bool" where
  "blacklisted ks \<longleftrightarrow> (\<exists>(k, t)\<in>set ks. k \<noteq> Soft) \<or> SOFT_BOUNCE_LIMIT \<le> length ks"

definition row_fits :: "(bounce_kind \<times> int) list \<Rightarrow> suppression option \<Rightarrow> bool" where
  "row_fits ks row \<longleftrightarrow>
     (case row of
        None \<Rightarrow> ks = []
      | Some s \<Rightarrow> ks \<noteq> [] \<and> sp_permanent s = blacklisted ks \<and>
          (sp_flaggedForReview s \<longleftrightarrow> Complaint \<in> fst ` set ks) \<and>
          (sp_reason s = Spam_complaint \<longleftrightarrow> Complaint \<in> fst ` set ks) \<and>
          (\<not> blacklisted ks \<longrightarrow> sp_softBounceCount s = length ks \<and>
             sp_suppressedUntil s = Some (snd (last ks) + softBounceBackoffMs (length ks))))"

lemma row_fits_step:
  assumes "row_fits ks row"
  shows "row_fits (ks @ [(k, t)]) (Some (suppression_after row k d t))"
proof (cases row)
  case None
  then show ?thesis using assms
    by (cases k) (simp_all add: row_fits_def suppression_after_def suppress_permanently_def suppress_softly_def blacklisted_def
        SOFT_BOUNCE_LIMIT_def Let_def)
next
  case (Some s)
  have pure: "Complaint \<notin> fst ` set ks" if "\<not> blacklisted ks" using that by (auto simp: blacklisted_def)
  have short: "length ks < SOFT_BOUNCE_LIMIT" if "\<not> blacklisted ks" using that by (auto simp: blacklisted_def not_le)
  show ?thesis
  proof (cases "k = Soft")
    case True
    have soft: "blacklisted (ks @ [(Soft, t)]) \<longleftrightarrow> blacklisted ks \<or> SOFT_BOUNCE_LIMIT \<le> Suc (length ks)"
      using short by (auto simp: blacklisted_def)
    from True show ?thesis using assms Some pure short
      by (cases "blacklisted ks") (auto simp: row_fits_def soft suppression_after_def suppress_softly_def Let_def)
  next
    case False
    then show ?thesis using assms Some
      by (cases k) (auto simp: row_fits_def blacklisted_def suppression_after_def suppress_permanently_def Let_def)
  qed
qed

lemma run_fits: "row_fits (own_events email es) (map_get (suppression_run es) email)"
proof (induction es rule: rev_induct)
  case Nil
  then show ?case by (simp add: row_fits_def own_events_def suppression_run_def)
next
  case (snoc et es)
  have "suppression_run (es @ [et]) = fst (recordEmailEvent (suppression_run es) (fst et) (snd et))"
    by (simp add: suppression_run_def)
  moreover have "own_events email (es @ [et]) = own_events email es @ own_event email et" by (simp add: own_events_def)
  ultimately show ?case
    using snoc row_fits_step [OF snoc, of _ "snd et" "eventDetail (fst et)"]
    by (auto simp: recordEmailEvent_def own_event_def Let_def split: option.split js_value.split)
qed

text \<open>
  Whatever events arrive for whatever addresses, mail to an address is held back exactly when its own
  events include a hard bounce or a complaint, or five of them, or when the doubling, capped backoff
  counted from its last soft bounce has not run out; and it is flagged for staff exactly after a
  complaint.
\<close>

theorem suppression_follows_own_events:
  "(isEmailSuppressed (suppression_run es) True email now \<longleftrightarrow>
     (let ks = own_events (normalizeEmail email) es in
      blacklisted ks \<or> ks \<noteq> [] \<and> now < snd (last ks) + softBounceBackoffMs (length ks))) \<and>
   ((\<exists>s. map_get (suppression_run es) address = Some s \<and> sp_flaggedForReview s) \<longleftrightarrow>
     Complaint \<in> fst ` set (own_events address es))" (is "?held \<and> ?flagged")
proof
  show ?held
    using run_fits [of "normalizeEmail email" es]
    by (cases "map_get (suppression_run es) (normalizeEmail email)")
      (auto simp: isEmailSuppressed_def row_fits_def Let_def blacklisted_def SOFT_BOUNCE_LIMIT_def)
  show ?flagged using run_fits [of address es] by (auto simp: row_fits_def split: option.splits)
qed

definition bounce0 :: "string \<Rightarrow> string \<Rightarrow> provider_event" where
  "bounce0 address kind = \<lparr>pe_email = JStr address, pe_event = JStr kind, pe_type = JUndefined, pe_reason = JStr ''Bounced'', pe_response = JNull\<rparr>"

definition events0 :: "(provider_event \<times> int) list" where
  "events0 = [(bounce0 '' A@b.co'' ''deferred'', 0), (bounce0 ''a@b.co'' ''delivered'', 10), (bounce0 ''c@d.co'' ''dropped'', 20),
     (bounce0 ''a@B.co'' ''blocked'', 1000000)]"

lemma suppression_follows_own_events_witness:
  "isEmailSuppressed (suppression_run events0) True ''A@B.co '' 2000000 \<and>
   \<not> isEmailSuppressed (suppression_run events0) True ''a@b.co'' 2800000 \<and>
   isEmailSuppressed (suppression_run events0) True ''c@d.co'' 9999999"
proof -
  have "own_events (normalizeEmail ''A@B.co '') events0 = [(Soft, 0), (Soft, 1000000)]"
    "own_events (normalizeEmail ''a@b.co'') events0 = [(Soft, 0), (Soft, 1000000)]"
    "own_events (normalizeEmail ''c@d.co'') events0 = [(Hard, 20)]" by code_simp+
  then show ?thesis
    using suppression_follows_own_events [of events0 "''A@B.co ''" 2000000 "[]"]
      suppression_follows_own_events [of events0 "''a@b.co''" 2800000 "[]"]
      suppression_follows_own_events [of events0 "''c@d.co''" 9999999 "[]"]
    by (simp add: blacklisted_def SOFT_BOUNCE_LIMIT_def softBounceBackoffMs_def SOFT_BOUNCE_BASE_BACKOFF_MS_def
        SOFT_BOUNCE_MAX_BACKOFF_MS_def)
qed

text \<open>A delivery leaves the count of soft bounces as it is: five of them suppress an address however much mail it took in between.\<close>

lemma delivery_does_not_reset:
  "pe_event e = JStr ''delivered'' \<Longrightarrow> recordEmailEvent db e now = (db, None)"
  by (simp add: recordEmailEvent_def classifyProviderEvent_def)

section \<open>The list for administrators\<close>

record suppressed_applicant =
  sa_email :: string
  sa_row :: suppression
  sa_applicants :: "(string \<times> string) list"

record preference_row =
  pr_email :: "string option"
  pr_applicantId :: string
  pr_stellarAddress :: string

definition still_suppressed :: "suppression \<Rightarrow> int \<Rightarrow> bool" where
  "still_suppressed s now \<longleftrightarrow> sp_permanent s \<or> (case sp_suppressedUntil s of None \<Rightarrow> False | Some t \<Rightarrow> now < t)"

definition listSuppressedApplicants :: "suppression_list \<Rightarrow> preference_row list \<Rightarrow> int \<Rightarrow> nat \<Rightarrow> suppressed_applicant list" where
  "listSuppressedApplicants db preferences now limit =
     (let entries = take limit (sort_key (\<lambda>e. - sp_lastEventAt (snd e)) (filter (\<lambda>e. still_suppressed (snd e) now) db));
          matching = filter (\<lambda>p. case pr_email p of None \<Rightarrow> False
                       | Some m \<Rightarrow> js_lower m \<in> set (map (js_lower \<circ> fst) entries)) preferences
      in map (\<lambda>e. \<lparr>sa_email = fst e, sa_row = snd e,
           sa_applicants = map (\<lambda>p. (pr_applicantId p, pr_stellarAddress p))
             (filter (\<lambda>p. case pr_email p of None \<Rightarrow> False | Some m \<Rightarrow> normalizeEmail m = fst e) matching)\<rparr>) entries)"

end
