(* ===== verification/DeviceBinding.thy ===== *)
theory DeviceBinding
  imports Decimal "HOL-Library.Word"
begin

text \<open>
  Device binding of administrator sessions: the store of enrolled devices and the check of a request's
  proof, \<^verbatim>\<open>backend/src/services/adminDeviceBinding.ts\<close>, the guard in front of the administrators' routes,
  \<^verbatim>\<open>backend/src/middleware/adminDeviceBinding.ts\<close>, the enrolment handler of
  \<^verbatim>\<open>backend/src/routes/adminDevices.ts\<close>, and the browser that signs, \<^verbatim>\<open>frontend/src/lib/admin-device-key.ts\<close>.
  The two module-level maps of the store are a record; the devices are found by their random identifiers,
  which are arguments, as is the clock. Cryptography, encodings, \<open>JSON.stringify\<close> and the printing of a
  number are the record \<open>device_library\<close>. Log lines and metrics are left out. The lemmas show that a proof is
  accepted once, that a revoked device stays out, and that the browser's proofs are the ones the
  server accepts.
\<close>

section \<open>Devices\<close>

definition PROOF_VERSION :: string where
  "PROOF_VERSION = ''v1''"

definition PROOF_SKEW_MS :: int where
  "PROOF_SKEW_MS = 60000"

definition MIN_NONCE_LENGTH :: nat where
  "MIN_NONCE_LENGTH = 16"

definition ED25519_PUBLIC_KEY_BYTES :: nat where
  "ED25519_PUBLIC_KEY_BYTES = 32"

definition SIGNATURE_BYTES :: nat where
  "SIGNATURE_BYTES = 64"

record admin_device =
  ad_deviceId :: string
  ad_adminAddress :: string
  ad_publicKey :: string
  ad_fingerprint :: string
  ad_label :: string
  ad_createdAt :: int
  ad_lastSeenAt :: "int option"
  ad_revokedAt :: "int option"
  ad_revokedReason :: "string option"

record device_store =
  ds_devices :: "(string, admin_device) js_map"
  ds_seenNonces :: "(string, int) js_map"

definition empty_store :: device_store where
  "empty_store = \<lparr>ds_devices = [], ds_seenNonces = []\<rparr>"

text \<open>
  The lenient decoding of base 64 text, the hexadecimal SHA-256 hash, the UTF-8 encoding, the check of a
  detached signature under a public key, the text of a number and of a JSON value.
\<close>

record device_library =
  dv_base64 :: "string \<Rightarrow> 8 word list"
  dv_sha256 :: "8 word list \<Rightarrow> string"
  dv_utf8 :: "string \<Rightarrow> 8 word list"
  dv_verify :: "8 word list \<Rightarrow> 8 word list \<Rightarrow> 8 word list \<Rightarrow> bool"
  dv_show_number :: "rat \<Rightarrow> string"
  dv_stringify :: "js_value \<Rightarrow> string"

datatype binding_mode = Binding_off | Monitor | Enforce

text \<open>The two environment variables, as they are set or not.\<close>

definition deviceBindingMode :: "string option \<Rightarrow> string option \<Rightarrow> binding_mode" where
  "deviceBindingMode setting nodeEnv =
     (let raw = js_trim (js_lower (or_else setting ''''))
      in if raw = ''off'' then Binding_off
         else if raw = ''monitor'' then Monitor
         else if raw = ''enforce'' then Enforce
         else if nodeEnv = Some ''production'' then Enforce else Monitor)"

definition pruneNonces :: "device_store \<Rightarrow> int \<Rightarrow> device_store" where
  "pruneNonces s now = s\<lparr>ds_seenNonces := filter (\<lambda>(nonce, expiresAt). \<not> expiresAt \<le> now) (ds_seenNonces s)\<rparr>"

definition decodePublicKey :: "device_library \<Rightarrow> string \<Rightarrow> 8 word list option" where
  "decodePublicKey lib publicKey =
     (let bytes = dv_base64 lib publicKey
      in if length bytes \<noteq> ED25519_PUBLIC_KEY_BYTES then None else Some bytes)"

definition fingerprintPublicKey :: "device_library \<Rightarrow> string \<Rightarrow> string option" where
  "fingerprintPublicKey lib publicKey = map_option (dv_sha256 lib) (decodePublicKey lib publicKey)"

datatype raw_body = Raw_text string | Raw_bytes "8 word list"

definition hashRequestBody :: "device_library \<Rightarrow> raw_body option \<Rightarrow> string" where
  "hashRequestBody lib raw =
     (case raw of
        None \<Rightarrow> dv_sha256 lib (dv_utf8 lib '''')
      | Some (Raw_text t) \<Rightarrow> dv_sha256 lib (dv_utf8 lib (if length t = 0 then '''' else t))
      | Some (Raw_bytes b) \<Rightarrow> if length b = 0 then dv_sha256 lib (dv_utf8 lib '''') else dv_sha256 lib b)"

text \<open>
  A method is upper-cased on the letters a to z, as the tokens of HTTP are.
\<close>

definition upper_method :: "string \<Rightarrow> string" where
  "upper_method = map (\<lambda>c. let n = (of_char c :: nat) in if 97 \<le> n \<and> n \<le> 122 then char_of (n - 32) else c)"

record proof_parts =
  pp_deviceId :: string
  pp_timestamp :: rat
  pp_nonce :: string
  pp_method :: string
  pp_path :: string
  pp_bodyHash :: string

definition canonicalProofString :: "device_library \<Rightarrow> proof_parts \<Rightarrow> string" where
  "canonicalProofString lib p =
     js_join ''|'' [PROOF_VERSION, pp_deviceId p, dv_show_number lib (pp_timestamp p), pp_nonce p,
       upper_method (pp_method p), pp_path p, pp_bodyHash p]"

section \<open>Enrolment\<close>

datatype enrolment_error = Invalid_public_key | Invalid_label

definition default_label :: "string option \<Rightarrow> string" where
  "default_label label = (let t = js_trim (or_else label '''') in if t = [] then ''Unnamed device'' else t)"

definition enrollAdminDevice ::
    "device_library \<Rightarrow> device_store \<Rightarrow> string \<Rightarrow> string \<Rightarrow> string option \<Rightarrow> string \<Rightarrow> int \<Rightarrow>
     enrolment_error + device_store \<times> admin_device" where
  "enrollAdminDevice lib s admin publicKey label uuid now =
     (case fingerprintPublicKey lib publicKey of
        None \<Rightarrow> Inl Invalid_public_key
      | Some fingerprint \<Rightarrow>
          (let l = default_label label; owner = js_lower admin
           in if 120 < length l then Inl Invalid_label
              else case find (\<lambda>d. ad_adminAddress d = owner \<and> ad_fingerprint d = fingerprint \<and> ad_revokedAt d = None)
                     (map_values (ds_devices s)) of
                Some d \<Rightarrow>
                  (let d' = d\<lparr>ad_label := l\<rparr>
                   in Inr (s\<lparr>ds_devices := map_set (ds_devices s) (ad_deviceId d) d'\<rparr>, d'))
              | None \<Rightarrow>
                  (let d = \<lparr>ad_deviceId = uuid, ad_adminAddress = owner, ad_publicKey = publicKey,
                            ad_fingerprint = fingerprint, ad_label = l, ad_createdAt = now, ad_lastSeenAt = None,
                            ad_revokedAt = None, ad_revokedReason = None\<rparr>
                   in Inr (s\<lparr>ds_devices := map_set (ds_devices s) uuid d\<rparr>, d))))"

definition getAdminDevice :: "device_store \<Rightarrow> string \<Rightarrow> admin_device option" where
  "getAdminDevice s deviceId = map_get (ds_devices s) deviceId"

text \<open>The list shown to an administrator; its public keys are left out where it is sent.\<close>

definition listAdminDevices :: "device_store \<Rightarrow> string \<Rightarrow> admin_device list" where
  "listAdminDevices s admin =
     sort_key (\<lambda>d. - ad_createdAt d) (filter (\<lambda>d. ad_adminAddress d = js_lower admin) (map_values (ds_devices s)))"

definition revokeAdminDevice :: "device_store \<Rightarrow> string \<Rightarrow> string \<Rightarrow> string \<Rightarrow> int \<Rightarrow> device_store \<times> admin_device option" where
  "revokeAdminDevice s deviceId admin reason now =
     (case map_get (ds_devices s) deviceId of
        None \<Rightarrow> (s, None)
      | Some d \<Rightarrow>
          if ad_adminAddress d \<noteq> js_lower admin then (s, None)
          else (let d' = (if ad_revokedAt d = None then d\<lparr>ad_revokedAt := Some now, ad_revokedReason := Some reason\<rparr> else d)
                in (s\<lparr>ds_devices := map_set (ds_devices s) deviceId d'\<rparr>, Some d')))"

section \<open>Proofs\<close>

datatype binding_failure =
    Binding_not_configured | Missing_proof | Malformed_proof | Unknown_device | Device_revoked | Device_owner_mismatch
  | Device_mismatch | Stale_proof | Replayed_proof | Invalid_signature

datatype proof_result = Proof_ok admin_device | Proof_failed binding_failure

record proof_input =
  pi_adminAddress :: string
  pi_sessionFingerprint :: "string option"
  pi_deviceId :: js_value
  pi_timestamp :: js_value
  pi_nonce :: js_value
  pi_signature :: js_value
  pi_method :: string
  pi_path :: string
  pi_bodyHash :: string

text \<open>\<open>Number(v)\<close> of a text or a number, absent where it is not finite or \<open>v\<close> is neither.\<close>

definition stamp_number :: "js_value \<Rightarrow> rat option" where
  "stamp_number v = (case v of JStr t \<Rightarrow> js_number t | JNum q \<Rightarrow> Some q | _ \<Rightarrow> None)"

definition stamp_typed :: "js_value \<Rightarrow> bool" where
  "stamp_typed v = (case v of JStr t \<Rightarrow> True | JNum q \<Rightarrow> True | _ \<Rightarrow> False)"

definition js_text :: "js_value \<Rightarrow> string option" where
  "js_text v = (case v of JStr t \<Rightarrow> Some t | _ \<Rightarrow> None)"

definition nonce_key :: "string \<Rightarrow> string \<Rightarrow> string" where
  "nonce_key deviceId nonce = deviceId @ '':'' @ nonce"

definition check_signature ::
    "device_library \<Rightarrow> device_store \<Rightarrow> admin_device \<Rightarrow> proof_parts \<Rightarrow> string \<Rightarrow> int \<Rightarrow> device_store \<times> proof_result" where
  "check_signature lib s d p signature now =
     (case decodePublicKey lib (ad_publicKey d) of
        None \<Rightarrow> (s, Proof_failed Invalid_signature)
      | Some publicKey \<Rightarrow>
          (let sig = dv_base64 lib signature
           in if length sig \<noteq> SIGNATURE_BYTES then (s, Proof_failed Malformed_proof)
              else if \<not> dv_verify lib (dv_utf8 lib (canonicalProofString lib p)) sig publicKey
              then (s, Proof_failed Invalid_signature)
              else (let d' = d\<lparr>ad_lastSeenAt := Some now\<rparr>
                    in (s\<lparr>ds_seenNonces := map_set (ds_seenNonces s) (nonce_key (ad_deviceId d) (pp_nonce p)) (now + PROOF_SKEW_MS * 2),
                          ds_devices := map_set (ds_devices s) (ad_deviceId d) d'\<rparr>,
                        Proof_ok d'))))"

definition verifyDeviceProof :: "device_library \<Rightarrow> device_store \<Rightarrow> proof_input \<Rightarrow> int \<Rightarrow> device_store \<times> proof_result" where
  "verifyDeviceProof lib s i now =
     (case (js_text (pi_deviceId i), js_text (pi_signature i), js_text (pi_nonce i), stamp_typed (pi_timestamp i)) of
        (Some deviceId, Some signature, Some nonce, True) \<Rightarrow>
          (case stamp_number (pi_timestamp i) of
             None \<Rightarrow> (s, Proof_failed Malformed_proof)
           | Some timestamp \<Rightarrow>
               if length nonce < MIN_NONCE_LENGTH then (s, Proof_failed Malformed_proof)
               else case map_get (ds_devices s) deviceId of
                 None \<Rightarrow> (s, Proof_failed Unknown_device)
               | Some d \<Rightarrow>
                   if ad_revokedAt d \<noteq> None then (s, Proof_failed Device_revoked)
                   else if ad_adminAddress d \<noteq> js_lower (pi_adminAddress i) then (s, Proof_failed Device_owner_mismatch)
                   else if Some (ad_fingerprint d) \<noteq> pi_sessionFingerprint i then (s, Proof_failed Device_mismatch)
                   else if \<bar>of_int now - timestamp\<bar> > of_int PROOF_SKEW_MS then (s, Proof_failed Stale_proof)
                   else (let pruned = pruneNonces s now
                         in if map_get (ds_seenNonces pruned) (nonce_key (ad_deviceId d) nonce) \<noteq> None
                            then (pruned, Proof_failed Replayed_proof)
                            else check_signature lib pruned d
                                   \<lparr>pp_deviceId = ad_deviceId d, pp_timestamp = timestamp, pp_nonce = nonce,
                                    pp_method = pi_method i, pp_path = pi_path i, pp_bodyHash = pi_bodyHash i\<rparr> signature now))
      | _ \<Rightarrow> (s, Proof_failed Missing_proof))"

section \<open>The guard\<close>

definition UNBOUND_PATHS :: "string list" where
  "UNBOUND_PATHS = [''/devices/enroll'']"

definition NOTIFY_THROTTLE_MS :: int where
  "NOTIFY_THROTTLE_MS = 10 * 60 * 1000"

datatype request_body = Parsed js_value | Buffered "8 word list"

record session_user =
  su_walletAddress :: string
  su_deviceFingerprint :: "string option"

record bound_request =
  br_method :: string
  br_path :: string
  br_originalUrl :: "string option"
  br_url :: string
  br_authorization :: "string option"
  br_user :: "session_user option"
  br_deviceId :: js_value
  br_timestamp :: js_value
  br_nonce :: js_value
  br_signature :: js_value
  br_body :: request_body

definition without_query :: "string \<Rightarrow> string" where
  "without_query url = takeWhile (\<lambda>c. c \<noteq> CHR ''?'') url"

definition js_ends_with :: "string \<Rightarrow> string \<Rightarrow> bool" where
  "js_ends_with s p = js_starts_with (rev s) (rev p)"

definition isUnboundPath :: "bound_request \<Rightarrow> bool" where
  "isUnboundPath r \<longleftrightarrow> br_path r \<in> set UNBOUND_PATHS \<or>
     list_ex (js_ends_with (without_query (or_else (br_originalUrl r) ''''))) UNBOUND_PATHS"

definition usesAdminApiKey :: "string \<Rightarrow> bound_request \<Rightarrow> bool" where
  "usesAdminApiKey adminApiKey r =
     (case br_authorization r of
        None \<Rightarrow> False
      | Some h \<Rightarrow> js_starts_with h ''Bearer '' \<and> drop 7 h = adminApiKey)"

text \<open>An object with no keys of its own: the empty object, and the empty array.\<close>

definition keyless :: "js_value \<Rightarrow> bool" where
  "keyless v = (case v of JObj kvs \<Rightarrow> kvs = [] | JArr vs \<Rightarrow> vs = [] | _ \<Rightarrow> False)"

definition bodyHashFor :: "device_library \<Rightarrow> bound_request \<Rightarrow> string" where
  "bodyHashFor lib r =
     (case br_body r of
        Buffered b \<Rightarrow> hashRequestBody lib (Some (Raw_bytes b))
      | Parsed v \<Rightarrow>
          if js_absent v then hashRequestBody lib (Some (Raw_text ''''))
          else case v of
            JStr t \<Rightarrow> hashRequestBody lib (Some (Raw_text t))
          | _ \<Rightarrow> if keyless v then hashRequestBody lib (Some (Raw_text ''''))
                  else hashRequestBody lib (Some (Raw_text (dv_stringify lib v))))"

definition alarming :: "binding_failure \<Rightarrow> bool" where
  "alarming f \<longleftrightarrow> f \<in> {Device_mismatch, Replayed_proof, Unknown_device, Device_owner_mismatch, Invalid_signature}"

text \<open>The throttle of the alarms: the times each administrator was last told, and whether this failure is told.\<close>

definition recordBindingFailure :: "(string, int) js_map \<Rightarrow> bound_request \<Rightarrow> binding_failure \<Rightarrow> int \<Rightarrow> (string, int) js_map \<times> bool" where
  "recordBindingFailure lastNotifiedAt r reason now =
     (let admin = (case br_user r of None \<Rightarrow> ''unknown'' | Some u \<Rightarrow> su_walletAddress u)
      in if \<not> alarming reason then (lastNotifiedAt, False)
         else if now - or_else (map_get lastNotifiedAt admin) 0 < NOTIFY_THROTTLE_MS then (lastNotifiedAt, False)
         else (map_set lastNotifiedAt admin now, True))"

record guard_config =
  gc_mode :: binding_mode
  gc_adminApiKey :: string

record guard_state =
  gs_store :: device_store
  gs_lastNotifiedAt :: "(string, int) js_map"

text \<open>
  The request goes on, or is answered with 401, and then its session cookie is cleared or kept. A request is
  marked once it has passed, and the guards of further routers then let it through.
\<close>

datatype guard_answer = Admitted | Binding_required | Binding_failed binding_failure

definition session_cookie_cleared :: "guard_answer \<Rightarrow> bool" where
  "session_cookie_cleared a = (case a of Binding_failed _ \<Rightarrow> True | _ \<Rightarrow> False)"

definition proof_of_request :: "device_library \<Rightarrow> bound_request \<Rightarrow> proof_input" where
  "proof_of_request lib r =
     \<lparr>pi_adminAddress = (case br_user r of None \<Rightarrow> '''' | Some u \<Rightarrow> su_walletAddress u),
      pi_sessionFingerprint = (case br_user r of None \<Rightarrow> None | Some u \<Rightarrow> su_deviceFingerprint u),
      pi_deviceId = br_deviceId r, pi_timestamp = br_timestamp r, pi_nonce = br_nonce r, pi_signature = br_signature r,
      pi_method = br_method r,
      pi_path = without_query (or_else (truthy_text (br_originalUrl r)) (br_url r)),
      pi_bodyHash = bodyHashFor lib r\<rparr>"

definition failed_answer :: "guard_state \<Rightarrow> bound_request \<Rightarrow> binding_mode \<Rightarrow> binding_failure \<Rightarrow> guard_answer \<Rightarrow> int \<Rightarrow>
    guard_state \<times> guard_answer" where
  "failed_answer g r mode reason refusal now =
     (g\<lparr>gs_lastNotifiedAt := fst (recordBindingFailure (gs_lastNotifiedAt g) r reason now)\<rparr>,
      if mode = Monitor then Admitted else refusal)"

definition requireBoundDevice ::
    "device_library \<Rightarrow> guard_config \<Rightarrow> bool \<Rightarrow> guard_state \<Rightarrow> bound_request \<Rightarrow> int \<Rightarrow> guard_state \<times> guard_answer" where
  "requireBoundDevice lib c verified g r now =
     (if verified then (g, Admitted)
      else if gc_mode c = Binding_off then (g, Admitted)
      else if usesAdminApiKey (gc_adminApiKey c) r then (g, Admitted)
      else if isUnboundPath r then (g, Admitted)
      else case truthy_text (case br_user r of None \<Rightarrow> None | Some u \<Rightarrow> su_deviceFingerprint u) of
        None \<Rightarrow> failed_answer g r (gc_mode c) Binding_not_configured Binding_required now
      | Some fingerprint \<Rightarrow>
          (case verifyDeviceProof lib (gs_store g) (proof_of_request lib r) now of
             (s', Proof_ok d) \<Rightarrow> (g\<lparr>gs_store := s'\<rparr>, Admitted)
           | (s', Proof_failed reason) \<Rightarrow> failed_answer (g\<lparr>gs_store := s'\<rparr>) r (gc_mode c) reason (Binding_failed reason) now))"

text \<open>
  The enrolment handler behind the guard, for an administrator's session: the device is stored and the
  session's new token names it.
\<close>

record session_claims =
  sc_walletAddress :: string
  sc_dbk :: "string option"

datatype enrol_reply = Enrolled admin_device session_claims | Invalid_request | Enrol_refused enrolment_error

definition adminAddressOf :: "string option \<Rightarrow> string option \<Rightarrow> string" where
  "adminAddressOf wallet adminWallet =
     js_lower (or_else (truthy_text wallet) (or_else (truthy_text adminWallet) ''admin''))"

definition enroll_handler ::
    "device_library \<Rightarrow> device_store \<Rightarrow> string option \<Rightarrow> string option \<Rightarrow> js_value \<Rightarrow> string \<Rightarrow> int \<Rightarrow>
     device_store \<times> enrol_reply" where
  "enroll_handler lib s wallet adminWallet body uuid now =
     (let admin = adminAddressOf wallet adminWallet in
      case js_text (js_field body ''publicKey'') of
        None \<Rightarrow> (s, Invalid_request)
      | Some publicKey \<Rightarrow>
          if js_trim publicKey = [] then (s, Invalid_request)
          else case enrollAdminDevice lib s admin publicKey (js_text (js_field body ''label'')) uuid now of
            Inl e \<Rightarrow> (s, Enrol_refused e)
          | Inr (s', d) \<Rightarrow> (s', Enrolled d \<lparr>sc_walletAddress = admin, sc_dbk = Some (ad_fingerprint d)\<rparr>))"

section \<open>The browser\<close>

text \<open>
  The browser's key pair is its public key and the function that signs with the private one, which nothing
  exports. \<open>base64\<close> encodes, \<open>sha\<close> and \<open>utf8\<close> are the same functions as the server's, and the parts of the
  request that carry the proof are the four headers and the body text that was hashed.
\<close>

record device_key =
  dk_publicKey :: "8 word list"
  dk_sign :: "8 word list \<Rightarrow> 8 word list"

record signed_request =
  sr_deviceId :: string
  sr_timestamp :: string
  sr_nonce :: string
  sr_signature :: string
  sr_body :: "string option"

definition exportPublicKeyBase64 :: "(8 word list \<Rightarrow> string) \<Rightarrow> device_key \<Rightarrow> string" where
  "exportPublicKeyBase64 base64 k = base64 (dk_publicKey k)"

definition signAdminRequest ::
    "device_library \<Rightarrow> (8 word list \<Rightarrow> string) \<Rightarrow> device_key \<Rightarrow> string \<Rightarrow> string \<Rightarrow> string \<Rightarrow> js_value option \<Rightarrow> string \<Rightarrow> int \<Rightarrow>
     signed_request" where
  "signAdminRequest lib base64 k deviceId meth path payload nonce now =
     (let body = map_option (dv_stringify lib) payload;
          bodyHash = dv_sha256 lib (dv_utf8 lib (or_else body ''''));
          message = dv_utf8 lib (canonicalProofString lib
            \<lparr>pp_deviceId = deviceId, pp_timestamp = of_int now, pp_nonce = nonce, pp_method = meth, pp_path = path,
             pp_bodyHash = bodyHash\<rparr>)
      in \<lparr>sr_deviceId = deviceId, sr_timestamp = dv_show_number lib (of_int now), sr_nonce = nonce,
          sr_signature = base64 (dk_sign k message), sr_body = body\<rparr>)"

section \<open>Sequences of calls\<close>

datatype device_call =
    Enrol string string "string option" string
  | Revoke string string string
  | Prove proof_input

fun device_step :: "device_library \<Rightarrow> device_store \<Rightarrow> device_call \<times> int \<Rightarrow> device_store" where
  "device_step lib s (Enrol admin publicKey label uuid, now) =
     (case enrollAdminDevice lib s admin publicKey label uuid now of Inl _ \<Rightarrow> s | Inr (s', _) \<Rightarrow> s')"
| "device_step lib s (Revoke deviceId admin reason, now) = fst (revokeAdminDevice s deviceId admin reason now)"
| "device_step lib s (Prove i, now) = fst (verifyDeviceProof lib s i now)"

definition device_run :: "device_library \<Rightarrow> device_store \<Rightarrow> (device_call \<times> int) list \<Rightarrow> device_store" where
  "device_run lib s calls = foldl (device_step lib) s calls"

definition proof_accepted :: "device_library \<Rightarrow> device_store \<Rightarrow> proof_input \<Rightarrow> int \<Rightarrow> bool" where
  "proof_accepted lib s i now = (case snd (verifyDeviceProof lib s i now) of Proof_ok _ \<Rightarrow> True | Proof_failed _ \<Rightarrow> False)"

lemma device_run_simps [simp]:
  "device_run lib s [] = s" "device_run lib s (c # cs) = device_run lib (device_step lib s c) cs"
  by (simp_all add: device_run_def)

text \<open>A stored device is stored under its identifier.\<close>

definition store_ok :: "device_store \<Rightarrow> bool" where
  "store_ok s \<longleftrightarrow> wf_map (ds_devices s) \<and> list_all (\<lambda>(k, d). ad_deviceId d = k) (ds_devices s)"

lemma store_ok_get: "store_ok s \<Longrightarrow> map_get (ds_devices s) k = Some d \<Longrightarrow> ad_deviceId d = k"
  by (auto simp: store_ok_def list_all_iff dest!: map_of_SomeD)

lemma store_ok_set:
  "store_ok s \<Longrightarrow> ad_deviceId d = k \<Longrightarrow> store_ok (s\<lparr>ds_devices := map_set (ds_devices s) k d\<rparr>)"
  by (auto simp: store_ok_def intro: list_all_map_set)

lemma store_ok_nonces [simp]: "store_ok (s\<lparr>ds_seenNonces := ns\<rparr>) = store_ok s"
  by (simp add: store_ok_def)

lemma store_ok_prune [simp]: "store_ok (pruneNonces s now) = store_ok s"
  by (simp add: pruneNonces_def)

lemma prune_devices [simp]: "ds_devices (pruneNonces s now) = ds_devices s"
  by (simp add: pruneNonces_def)

text \<open>What an accepted proof has shown.\<close>

lemma proof_acceptedE:
  assumes "proof_accepted lib s i now"
  obtains deviceId nonce signature stamp d publicKey where
    "pi_deviceId i = JStr deviceId" "pi_nonce i = JStr nonce" "pi_signature i = JStr signature"
    "stamp_number (pi_timestamp i) = Some stamp" "MIN_NONCE_LENGTH \<le> length nonce"
    "map_get (ds_devices s) deviceId = Some d" "ad_revokedAt d = None" "ad_adminAddress d = js_lower (pi_adminAddress i)"
    "pi_sessionFingerprint i = Some (ad_fingerprint d)" "\<bar>of_int now - stamp\<bar> \<le> of_int PROOF_SKEW_MS"
    "map_get (ds_seenNonces (pruneNonces s now)) (nonce_key (ad_deviceId d) nonce) = None"
    "decodePublicKey lib (ad_publicKey d) = Some publicKey"
    "dv_verify lib (dv_utf8 lib (canonicalProofString lib \<lparr>pp_deviceId = ad_deviceId d, pp_timestamp = stamp,
       pp_nonce = nonce, pp_method = pi_method i, pp_path = pi_path i, pp_bodyHash = pi_bodyHash i\<rparr>))
       (dv_base64 lib signature) publicKey"
    "fst (verifyDeviceProof lib s i now) = (pruneNonces s now)
       \<lparr>ds_seenNonces := map_set (ds_seenNonces (pruneNonces s now)) (nonce_key (ad_deviceId d) nonce) (now + PROOF_SKEW_MS * 2),
        ds_devices := map_set (ds_devices s) (ad_deviceId d) (d\<lparr>ad_lastSeenAt := Some now\<rparr>)\<rparr>"
proof -
  obtain deviceId nonce signature where texts: "pi_deviceId i = JStr deviceId" "pi_nonce i = JStr nonce" "pi_signature i = JStr signature"
      "stamp_typed (pi_timestamp i)"
    using assms by (cases "pi_deviceId i"; cases "pi_nonce i"; cases "pi_signature i"; cases "stamp_typed (pi_timestamp i)")
      (simp_all add: proof_accepted_def verifyDeviceProof_def js_text_def)
  obtain stamp where stamp: "stamp_number (pi_timestamp i) = Some stamp"
    using assms texts by (cases "stamp_number (pi_timestamp i)") (simp_all add: proof_accepted_def verifyDeviceProof_def js_text_def)
  obtain d where d: "map_get (ds_devices s) deviceId = Some d"
    using assms texts stamp
    by (cases "map_get (ds_devices s) deviceId") (simp_all add: proof_accepted_def verifyDeviceProof_def js_text_def split: if_splits)
  obtain publicKey where key: "decodePublicKey lib (ad_publicKey d) = Some publicKey"
    using assms texts stamp d
    by (cases "decodePublicKey lib (ad_publicKey d)")
      (simp_all add: proof_accepted_def verifyDeviceProof_def js_text_def check_signature_def Let_def split: if_splits)
  show thesis
    by (rule that [OF texts(1-3) stamp _ d _ _ _ _ _ key])
      (use assms texts stamp d key in
        \<open>simp_all add: proof_accepted_def verifyDeviceProof_def js_text_def check_signature_def Let_def not_less split: if_splits\<close>)
qed

text \<open>What a call does to the devices: it keeps every device, revoked ones revoked, and its identity.\<close>

lemma check_signature_devices:
  "ds_devices (fst (check_signature lib s d p signature now)) \<in>
     {ds_devices s, map_set (ds_devices s) (ad_deviceId d) (d\<lparr>ad_lastSeenAt := Some now\<rparr>)}"
  by (simp add: check_signature_def Let_def split: option.split)

lemma verify_devices:
  "ds_devices (fst (verifyDeviceProof lib s i now)) = ds_devices s \<or>
   (\<exists>k d. map_get (ds_devices s) k = Some d \<and> ad_revokedAt d = None \<and>
     ds_devices (fst (verifyDeviceProof lib s i now)) = map_set (ds_devices s) (ad_deviceId d) (d\<lparr>ad_lastSeenAt := Some now\<rparr>))"
proof (cases "proof_accepted lib s i now")
  case True
  then show ?thesis by (rule proof_acceptedE) auto
next
  case False
  then show ?thesis
    by (auto simp: proof_accepted_def verifyDeviceProof_def check_signature_def Let_def
        split: option.splits if_splits proof_result.splits bool.splits)
qed

section \<open>A proof is accepted once\<close>

text \<open>The nonce \<open>k\<close> is remembered at least until \<open>limit\<close>.\<close>

definition nonce_marked :: "string \<Rightarrow> int \<Rightarrow> device_store \<Rightarrow> int \<Rightarrow> bool" where
  "nonce_marked k limit s now \<longleftrightarrow> limit \<le> now \<or> (\<exists>e. map_get (ds_seenNonces s) k = Some e \<and> limit \<le> e)"

lemma nonce_marked_prune: "nonce_marked k limit s now \<Longrightarrow> nonce_marked k limit (pruneNonces s now) now"
proof (cases "limit \<le> now")
  case False
  assume "nonce_marked k limit s now"
  with False obtain e where "map_get (ds_seenNonces s) k = Some e" "limit \<le> e" by (auto simp: nonce_marked_def)
  then show ?thesis using False map_get_filter [of "ds_seenNonces s" k e "\<lambda>(nonce, expiresAt). \<not> expiresAt \<le> now"]
    by (auto simp: nonce_marked_def pruneNonces_def)
qed (simp add: nonce_marked_def)

lemma verify_nonces:
  "ds_seenNonces (fst (verifyDeviceProof lib s i now)) \<in> {ds_seenNonces s, ds_seenNonces (pruneNonces s now)} \<or>
   (\<exists>k. ds_seenNonces (fst (verifyDeviceProof lib s i now)) =
     map_set (ds_seenNonces (pruneNonces s now)) k (now + PROOF_SKEW_MS * 2))"
proof (cases "proof_accepted lib s i now")
  case True
  then show ?thesis by (rule proof_acceptedE) auto
next
  case False
  then show ?thesis
    by (auto simp: proof_accepted_def verifyDeviceProof_def check_signature_def Let_def
        split: option.splits if_splits proof_result.splits bool.splits)
qed

lemma nonce_marked_step:
  assumes "nonce_marked k limit s now" "limit \<le> now + PROOF_SKEW_MS * 2"
  shows "nonce_marked k limit (device_step lib s (c, now)) now"
proof (cases c)
  case (Enrol admin publicKey label uuid)
  then show ?thesis using assms(1)
    by (auto simp: nonce_marked_def enrollAdminDevice_def Let_def split: option.split sum.split)
next
  case (Revoke deviceId admin reason)
  then show ?thesis using assms(1)
    by (auto simp: nonce_marked_def revokeAdminDevice_def Let_def split: option.split)
next
  case (Prove i)
  have "nonce_marked k limit (pruneNonces s now) now" using assms(1) by (rule nonce_marked_prune)
  then show ?thesis using Prove assms verify_nonces [of lib s i now]
    by (auto simp: nonce_marked_def split: if_splits; metis)
qed

lemma nonce_marked_run:
  "nonce_marked k limit s t \<Longrightarrow> limit \<le> t + PROOF_SKEW_MS * 2 \<Longrightarrow> sorted (t # map snd calls @ [t']) \<Longrightarrow>
     nonce_marked k limit (device_run lib s calls) t'"
proof (induction calls arbitrary: s t)
  case Nil
  then show ?case by (auto simp: nonce_marked_def)
next
  case (Cons call calls)
  obtain c now where call: "call = (c, now)" by (cases call)
  with Cons.prems have "t \<le> now" and order: "sorted (now # map snd calls @ [t'])" by auto
  with Cons.prems have "nonce_marked k limit s now" and limit: "limit \<le> now + PROOF_SKEW_MS * 2"
    by (auto simp: nonce_marked_def)
  then have "nonce_marked k limit (device_step lib s call) now" unfolding call by (rule nonce_marked_step)
  from Cons.IH [OF this limit order] show ?case by simp
qed

lemma store_ok_step: "store_ok s \<Longrightarrow> store_ok (device_step lib s (c, now))"
proof (cases c)
  case (Prove i)
  assume ok: "store_ok s"
  then show ?thesis using verify_devices [of lib s i now] Prove
    by (auto simp: store_ok_def list_all_map_set)
qed (auto simp: enrollAdminDevice_def revokeAdminDevice_def Let_def split: option.split sum.split
    intro!: store_ok_set dest: store_ok_get)

lemma store_ok_run: "store_ok s \<Longrightarrow> store_ok (device_run lib s calls)"
  by (induction calls arbitrary: s) (auto simp: store_ok_step split_paired_all)

text \<open>
  C26. However the calls before and between them go, as long as the clock does not run back, a captured proof
  that was accepted is accepted again at one instant only: twice the permitted skew after the first
  time, and then only if its timestamp was ahead of the server's clock by the whole permitted skew.
\<close>

theorem proof_accepted_once:
  assumes store: "store_ok s"
    and order: "sorted (t1 # map snd between @ [t2])"
    and first: "proof_accepted lib s p t1"
    and again: "proof_accepted lib (device_run lib s ((Prove p, t1) # between)) q t2"
    and copied: "pi_deviceId q = pi_deviceId p" "pi_nonce q = pi_nonce p" "pi_timestamp q = pi_timestamp p"
  shows "t2 = t1 + 2 * PROOF_SKEW_MS \<and> stamp_number (pi_timestamp p) = Some (of_int (t1 + PROOF_SKEW_MS))"
proof -
  let ?s1 = "device_step lib s (Prove p, t1)"
  obtain deviceId nonce stamp d where p: "pi_deviceId p = JStr deviceId" "pi_nonce p = JStr nonce"
      "stamp_number (pi_timestamp p) = Some stamp" and d: "map_get (ds_devices s) deviceId = Some d"
    and near: "\<bar>of_int t1 - stamp\<bar> \<le> of_int PROOF_SKEW_MS"
    and mark: "nonce_marked (nonce_key deviceId nonce) (t1 + PROOF_SKEW_MS * 2) ?s1 t1"
    using first by (rule proof_acceptedE) (use store in \<open>auto simp: nonce_marked_def dest: store_ok_get\<close>)
  have "nonce_marked (nonce_key deviceId nonce) (t1 + PROOF_SKEW_MS * 2) (device_run lib ?s1 between) t2"
    using mark order by (rule nonce_marked_run [OF _ order_refl])
  then have mark2: "nonce_marked (nonce_key deviceId nonce) (t1 + PROOF_SKEW_MS * 2)
      (pruneNonces (device_run lib ?s1 between) t2) t2"
    by (rule nonce_marked_prune)
  have "store_ok (device_run lib ?s1 between)" using store_ok_run [OF store, of lib "(Prove p, t1) # between"] by simp
  then have late: "t1 + PROOF_SKEW_MS * 2 \<le> t2" and near2: "\<bar>of_int t2 - stamp\<bar> \<le> of_int PROOF_SKEW_MS"
    using again mark2
    by (auto elim!: proof_acceptedE simp: copied p nonce_marked_def dest!: store_ok_get)
  have "of_int t2 \<le> (of_int (t1 + PROOF_SKEW_MS * 2) :: rat)" using near near2 by (simp add: abs_le_iff)
  then show ?thesis using near near2 late p by (auto simp: abs_le_iff)
qed

section \<open>A revoked device stays out\<close>

definition enrols_as :: "device_call \<Rightarrow> string option" where
  "enrols_as c = (case c of Enrol _ _ _ uuid \<Rightarrow> Some uuid | _ \<Rightarrow> None)"

definition revoked_in :: "device_store \<Rightarrow> string \<Rightarrow> bool" where
  "revoked_in s deviceId \<longleftrightarrow> (\<exists>d. map_get (ds_devices s) deviceId = Some d \<and> ad_revokedAt d \<noteq> None)"

lemma found_device:
  assumes "store_ok s" "find P (map_values (ds_devices s)) = Some d"
  shows "map_get (ds_devices s) (ad_deviceId d) = Some d \<and> P d"
proof -
  have "d \<in> set (map_values (ds_devices s))" "P d" using assms(2) by (auto simp: find_Some_iff)
  then obtain k where "(k, d) \<in> set (ds_devices s)" by auto
  moreover have "ad_deviceId d = k" using assms(1) calculation by (auto simp: store_ok_def list_all_iff)
  ultimately show ?thesis using assms(1) \<open>P d\<close> by (simp add: store_ok_def wf_map_def)
qed

lemma revoked_in_step:
  assumes "store_ok s" "revoked_in s x" "enrols_as c \<noteq> Some x"
  shows "revoked_in (device_step lib s (c, now)) x"
proof (cases c)
  case (Enrol admin publicKey label uuid)
  then show ?thesis using assms
    by (auto simp: enrollAdminDevice_def Let_def revoked_in_def enrols_as_def dest!: found_device [OF assms(1)]
        split: option.split)
next
  case (Revoke deviceId admin reason)
  then show ?thesis using assms(2) by (auto simp: revokeAdminDevice_def Let_def revoked_in_def split: option.split)
next
  case (Prove i)
  have "\<forall>k d. map_get (ds_devices s) k = Some d \<longrightarrow> ad_revokedAt d = None \<longrightarrow> ad_deviceId d \<noteq> x"
    using store_ok_get [OF assms(1)] assms(2) unfolding revoked_in_def by force
  then show ?thesis using Prove assms(2) verify_devices [of lib s i now]
    by (auto simp: revoked_in_def) metis
qed

lemma revoked_in_run:
  "store_ok s \<Longrightarrow> revoked_in s x \<Longrightarrow> list_all (\<lambda>(c, now). enrols_as c \<noteq> Some x) calls \<Longrightarrow> revoked_in (device_run lib s calls) x"
  by (induction calls arbitrary: s) (auto simp: revoked_in_step store_ok_step split_paired_all)

lemma revoke_revokes:
  "revokeAdminDevice s x admin reason t = (s', Some d) \<Longrightarrow> revoked_in s' x"
  by (auto simp: revokeAdminDevice_def revoked_in_def Let_def split: option.splits if_splits)

lemma admitted_has_proof:
  assumes "snd (requireBoundDevice lib c False g r now) = Admitted" "gc_mode c = Enforce"
    "\<not> usesAdminApiKey (gc_adminApiKey c) r" "\<not> isUnboundPath r"
  shows "proof_accepted lib (gs_store g) (proof_of_request lib r) now"
  using assms
  by (auto simp: requireBoundDevice_def failed_answer_def proof_accepted_def split: option.splits prod.splits proof_result.splits)

text \<open>
  Where binding is enforced, a request without the server's own key and outside the enrolment path
  reaches the administrators' routes only with a signature over its own method, path and body under the
  public key of an enrolled device of that administrator, the one its session names; and never with a
  device that was revoked, whatever was called since.
\<close>

theorem admitted_only_from_own_device:
  assumes store: "store_ok s" "revokeAdminDevice s revoked admin reason t = (s', Some r0)"
    and fresh: "list_all (\<lambda>(c, now). enrols_as c \<noteq> Some revoked) calls"
    and here: "gs_store g = device_run lib s' calls"
    and request: "gc_mode c = Enforce" "\<not> usesAdminApiKey (gc_adminApiKey c) r" "\<not> isUnboundPath r"
      "snd (requireBoundDevice lib c False g r now) = Admitted"
  shows "\<exists>deviceId d user stamp nonce signature.
    br_deviceId r = JStr deviceId \<and> deviceId \<noteq> revoked \<and> getAdminDevice (gs_store g) deviceId = Some d \<and>
    ad_revokedAt d = None \<and> br_user r = Some user \<and> ad_adminAddress d = js_lower (su_walletAddress user) \<and>
    su_deviceFingerprint user = Some (ad_fingerprint d) \<and> br_signature r = JStr signature \<and>
    dv_verify lib (dv_utf8 lib (canonicalProofString lib \<lparr>pp_deviceId = deviceId, pp_timestamp = stamp, pp_nonce = nonce,
        pp_method = br_method r, pp_path = without_query (or_else (truthy_text (br_originalUrl r)) (br_url r)),
        pp_bodyHash = bodyHashFor lib r\<rparr>))
      (dv_base64 lib signature) (dv_base64 lib (ad_publicKey d))"
proof -
  have ok: "store_ok s'" using store_ok_step [OF store(1), of lib "Revoke revoked admin reason" t] store(2) by simp
  have gone: "revoked_in (gs_store g) revoked"
    unfolding here by (rule revoked_in_run [OF ok revoke_revokes [OF store(2)] fresh])
  have stored: "store_ok (gs_store g)" unfolding here by (rule store_ok_run [OF ok])
  have "proof_accepted lib (gs_store g) (proof_of_request lib r) now"
    using request by (intro admitted_has_proof)
  then show ?thesis
  proof (rule proof_acceptedE)
    fix deviceId nonce signature stamp d publicKey
    assume p: "pi_deviceId (proof_of_request lib r) = JStr deviceId" "pi_signature (proof_of_request lib r) = JStr signature"
      "map_get (ds_devices (gs_store g)) deviceId = Some d" "ad_revokedAt d = None"
      "ad_adminAddress d = js_lower (pi_adminAddress (proof_of_request lib r))"
      "pi_sessionFingerprint (proof_of_request lib r) = Some (ad_fingerprint d)"
      "decodePublicKey lib (ad_publicKey d) = Some publicKey"
      "dv_verify lib (dv_utf8 lib (canonicalProofString lib \<lparr>pp_deviceId = ad_deviceId d, pp_timestamp = stamp,
         pp_nonce = nonce, pp_method = pi_method (proof_of_request lib r), pp_path = pi_path (proof_of_request lib r),
         pp_bodyHash = pi_bodyHash (proof_of_request lib r)\<rparr>)) (dv_base64 lib signature) publicKey"
    then obtain user where user: "br_user r = Some user"
      by (cases "br_user r") (auto simp: proof_of_request_def)
    have "publicKey = dv_base64 lib (ad_publicKey d)" using p(7) by (auto simp: decodePublicKey_def Let_def split: if_splits)
    moreover have "deviceId \<noteq> revoked" using gone p(3,4) by (auto simp: revoked_in_def)
    ultimately show ?thesis
      using p user store_ok_get [OF stored p(3)] by (auto simp: proof_of_request_def getAdminDevice_def)
  qed
qed

section \<open>The browser's proofs are accepted\<close>

definition revokes :: "device_call \<Rightarrow> string option" where
  "revokes c = (case c of Revoke deviceId _ _ \<Rightarrow> Some deviceId | _ \<Rightarrow> None)"

text \<open>The parts of a device that no call but its revocation changes.\<close>

definition keeps_device :: "admin_device \<Rightarrow> device_store \<Rightarrow> bool" where
  "keeps_device d s \<longleftrightarrow>
     (case map_get (ds_devices s) (ad_deviceId d) of
        None \<Rightarrow> False
      | Some e \<Rightarrow> ad_deviceId e = ad_deviceId d \<and> ad_adminAddress e = ad_adminAddress d \<and> ad_publicKey e = ad_publicKey d \<and>
          ad_fingerprint e = ad_fingerprint d \<and> ad_revokedAt e = None)"

lemma keeps_device_step:
  assumes "store_ok s" "keeps_device d s" "enrols_as c \<noteq> Some (ad_deviceId d)" "revokes c \<noteq> Some (ad_deviceId d)"
  shows "keeps_device d (device_step lib s (c, now))"
proof (cases c)
  case (Enrol admin publicKey label uuid)
  then show ?thesis using assms
    by (auto simp: enrollAdminDevice_def Let_def keeps_device_def enrols_as_def dest!: found_device [OF assms(1)]
        split: option.splits)
next
  case (Revoke deviceId admin reason)
  then show ?thesis using assms(2,4)
    by (auto simp: revokeAdminDevice_def Let_def keeps_device_def revokes_def split: option.splits)
next
  case (Prove i)
  then show ?thesis using assms(2) verify_devices [of lib s i now] store_ok_get [OF assms(1)]
    by (auto simp: keeps_device_def split: option.splits if_splits)
qed

lemma keeps_device_run:
  "store_ok s \<Longrightarrow> keeps_device d s \<Longrightarrow>
     list_all (\<lambda>(c, now). enrols_as c \<noteq> Some (ad_deviceId d) \<and> revokes c \<noteq> Some (ad_deviceId d)) calls \<Longrightarrow>
     keeps_device d (device_run lib s calls)"
  by (induction calls arbitrary: s) (auto simp: keeps_device_step store_ok_step split_paired_all)

lemma enrolled_kept:
  assumes "store_ok s" "enrollAdminDevice lib s admin publicKey label uuid t = Inr (s', d)"
  shows "store_ok s' \<and> keeps_device d s' \<and> ad_adminAddress d = js_lower admin"
  using assms store_ok_step [OF assms(1), of lib "Enrol admin publicKey label uuid" t]
  by (auto simp: enrollAdminDevice_def Let_def keeps_device_def dest!: found_device [OF assms(1)] split: option.splits if_splits)

text \<open>
  The request as it reaches the guard, with the query of its address; \<open>parse\<close> is the server's JSON parser.
\<close>

definition delivered :: "(string \<Rightarrow> js_value) \<Rightarrow> signed_request \<Rightarrow> string \<Rightarrow> string \<Rightarrow> string \<Rightarrow> session_user \<Rightarrow> bound_request" where
  "delivered parse sr meth path query user =
     \<lparr>br_method = meth, br_path = path, br_originalUrl = Some (path @ query), br_url = path @ query,
      br_authorization = None, br_user = Some user,
      br_deviceId = JStr (sr_deviceId sr), br_timestamp = JStr (sr_timestamp sr), br_nonce = JStr (sr_nonce sr),
      br_signature = JStr (sr_signature sr),
      br_body = Parsed (case sr_body sr of None \<Rightarrow> JUndefined | Some t \<Rightarrow> parse t)\<rparr>"

text \<open>What the two sides rely on: encodings that are undone by their decodings, and a signature its key verifies.\<close>

definition browser_laws :: "device_library \<Rightarrow> (8 word list \<Rightarrow> string) \<Rightarrow> device_key \<Rightarrow> bool" where
  "browser_laws lib base64 k \<longleftrightarrow>
     (\<forall>b. dv_base64 lib (base64 b) = b) \<and> (\<forall>n. dv_show_number lib (of_int n) = show_int n) \<and>
     length (dk_publicKey k) = ED25519_PUBLIC_KEY_BYTES \<and>
     (\<forall>m. length (dk_sign k m) = SIGNATURE_BYTES \<and> dv_verify lib m (dk_sign k m) (dk_publicKey k))"

definition body_arrives :: "device_library \<Rightarrow> (string \<Rightarrow> js_value) \<Rightarrow> js_value option \<Rightarrow> bool" where
  "body_arrives lib parse payload \<longleftrightarrow>
     (case payload of
        None \<Rightarrow> True
      | Some v \<Rightarrow>
          (let v' = parse (dv_stringify lib v)
           in dv_stringify lib v' = dv_stringify lib v \<and> \<not> keyless v' \<and>
              (case v' of JObj _ \<Rightarrow> True | JArr _ \<Rightarrow> True | _ \<Rightarrow> False)))"

lemma without_query_append: "CHR ''?'' \<notin> set path \<Longrightarrow> query = [] \<or> hd query = CHR ''?'' \<Longrightarrow> without_query (path @ query) = path"
  by (cases query; induction path) (auto simp: without_query_def)

lemma delivered_body:
  assumes "body_arrives lib parse payload"
  shows "bodyHashFor lib (delivered parse (signAdminRequest lib base64 k deviceId meth path payload nonce t) meth path query user) =
    dv_sha256 lib (dv_utf8 lib (or_else (map_option (dv_stringify lib) payload) ''''))"
  using assms
  by (cases payload; cases "parse (dv_stringify lib (the payload))")
    (auto simp: body_arrives_def bodyHashFor_def delivered_def signAdminRequest_def Let_def hashRequestBody_def js_absent_def)

text \<open>
  What the browser of an enrolled device signs, the guard admits, whatever calls came between, as long as
  the device was not revoked, the nonce is new, the clocks differ by no more than the permitted skew, and the
  body is none or a container that is not empty.
\<close>

theorem honest_client_admitted:
  assumes laws: "browser_laws lib base64 k" "body_arrives lib parse payload"
    and enrolled: "store_ok s" "enrollAdminDevice lib s admin (exportPublicKeyBase64 base64 k) label uuid t0 = Inr (s', d)"
      "ad_publicKey d = exportPublicKeyBase64 base64 k"
    and kept: "list_all (\<lambda>(c, now). enrols_as c \<noteq> Some (ad_deviceId d) \<and> revokes c \<noteq> Some (ad_deviceId d)) calls"
      "gs_store g = device_run lib s' calls"
    and nonce: "MIN_NONCE_LENGTH \<le> length nonce" "map_get (ds_seenNonces (gs_store g)) (nonce_key (ad_deviceId d) nonce) = None"
    and clocks: "\<bar>now - t\<bar> \<le> PROOF_SKEW_MS"
    and url: "path \<noteq> []" "CHR ''?'' \<notin> set path" "query = [] \<or> hd query = CHR ''?''"
    and session: "js_lower (su_walletAddress user) = js_lower admin" "su_deviceFingerprint user = Some (ad_fingerprint d)"
      "ad_fingerprint d \<noteq> []"
  shows "snd (requireBoundDevice lib c False g
      (delivered parse (signAdminRequest lib base64 k (ad_deviceId d) meth path payload nonce t) meth path query user) now) = Admitted"
proof -
  let ?sr = "signAdminRequest lib base64 k (ad_deviceId d) meth path payload nonce t"
  let ?r = "delivered parse ?sr meth path query user"
  have "store_ok s'" "keeps_device d s'" and owner: "ad_adminAddress d = js_lower admin"
    using enrolled_kept [OF enrolled(1,2)] by auto
  then have "keeps_device d (gs_store g)" unfolding kept(2) using kept(1) by (intro keeps_device_run)
  then obtain e where e: "map_get (ds_devices (gs_store g)) (ad_deviceId d) = Some e" "ad_deviceId e = ad_deviceId d"
      "ad_adminAddress e = js_lower admin" "ad_publicKey e = exportPublicKeyBase64 base64 k"
      "ad_fingerprint e = ad_fingerprint d" "ad_revokedAt e = None"
    using owner enrolled(3) by (auto simp: keeps_device_def split: option.splits)
  have key: "decodePublicKey lib (ad_publicKey e) = Some (dk_publicKey k)"
    using laws(1) e(4) by (simp add: decodePublicKey_def exportPublicKeyBase64_def browser_laws_def Let_def)
  have stamp: "stamp_number (JStr (sr_timestamp ?sr)) = Some (of_int t)"
    using laws(1) by (simp add: stamp_number_def signAdminRequest_def browser_laws_def Let_def)
  have new: "map_get (ds_seenNonces (pruneNonces (gs_store g) now)) (nonce_key (ad_deviceId d) nonce) = None"
    using nonce(2) by (auto simp: pruneNonces_def map_of_eq_None_iff)
  have near: "\<not> \<bar>of_int now - of_int t :: rat\<bar> > of_int PROOF_SKEW_MS" using clocks by (simp add: not_less flip: of_int_diff of_int_abs)
  have parts: "pi_path (proof_of_request lib ?r) = path" "pi_method (proof_of_request lib ?r) = meth"
      "pi_bodyHash (proof_of_request lib ?r) = dv_sha256 lib (dv_utf8 lib (or_else (map_option (dv_stringify lib) payload) ''''))"
      "pi_sessionFingerprint (proof_of_request lib ?r) = Some (ad_fingerprint e)"
      "pi_adminAddress (proof_of_request lib ?r) = su_walletAddress user"
      "pi_deviceId (proof_of_request lib ?r) = JStr (ad_deviceId d)" "pi_nonce (proof_of_request lib ?r) = JStr nonce"
      "pi_timestamp (proof_of_request lib ?r) = JStr (sr_timestamp ?sr)" "pi_signature (proof_of_request lib ?r) = JStr (sr_signature ?sr)"
    using url session e(5) delivered_body [OF laws(2), of base64 k "ad_deviceId d" meth path nonce t query user]
    by (auto simp: proof_of_request_def delivered_def signAdminRequest_def Let_def truthy_text_def without_query_append)
  have "\<exists>s2 d2. verifyDeviceProof lib (gs_store g) (proof_of_request lib ?r) now = (s2, Proof_ok d2)"
    using e key stamp new near nonce(1) laws(1) session(1)
    by (simp add: verifyDeviceProof_def parts js_text_def stamp_typed_def check_signature_def Let_def not_less)
      (simp add: signAdminRequest_def browser_laws_def Let_def)
  then show ?thesis
    using session(2,3) by (auto simp: requireBoundDevice_def delivered_def truthy_text_def failed_answer_def)
qed

section \<open>Examples\<close>

text \<open>A library that takes every signature of the right length: what matters here is the store.\<close>

definition device_library0 :: device_library where
  "device_library0 = \<lparr>dv_base64 = (\<lambda>t. replicate (length t) 0), dv_sha256 = (\<lambda>b. ''fp''), dv_utf8 = (\<lambda>t. []),
     dv_verify = (\<lambda>m s p. True), dv_show_number = (\<lambda>q. show_int \<lfloor>q\<rfloor>), dv_stringify = (\<lambda>v. ''[7]'')\<rparr>"

definition store0 :: device_store where
  "store0 = device_run device_library0 empty_store [(Enrol ''GA'' (replicate 32 CHR ''A'') None ''d1'', 5)]"

definition proof0 :: proof_input where
  "proof0 = \<lparr>pi_adminAddress = ''ga'', pi_sessionFingerprint = Some ''fp'', pi_deviceId = JStr ''d1'', pi_timestamp = JNum 61000,
     pi_nonce = JStr ''0123456789abcdef'', pi_signature = JStr (replicate 64 CHR ''A''), pi_method = ''post'',
     pi_path = ''/api/admin/x'', pi_bodyHash = ''h''\<rparr>"

lemma store0_ok: "store_ok store0"
  unfolding store0_def by (rule store_ok_run) (simp add: store_ok_def empty_store_def)

lemma example_lower: "js_lower ''GA'' = ''ga''" "js_lower ''ga'' = ''ga''"
  by code_simp+

lemmas example_simps = example_lower device_library0_def proof0_def verifyDeviceProof_def js_text_def stamp_typed_def stamp_number_def
  check_signature_def decodePublicKey_def pruneNonces_def nonce_key_def PROOF_SKEW_MS_def MIN_NONCE_LENGTH_def
  SIGNATURE_BYTES_def ED25519_PUBLIC_KEY_BYTES_def Let_def

lemma store0_devices:
  "store0 = \<lparr>ds_devices = [(''d1'', \<lparr>ad_deviceId = ''d1'', ad_adminAddress = ''ga'', ad_publicKey = replicate 32 CHR ''A'',
     ad_fingerprint = ''fp'', ad_label = ''Unnamed device'', ad_createdAt = 5, ad_lastSeenAt = None, ad_revokedAt = None,
     ad_revokedReason = None\<rparr>)], ds_seenNonces = []\<rparr>"
  by (simp add: store0_def enrollAdminDevice_def fingerprintPublicKey_def default_label_def empty_store_def js_trim_def example_simps)

lemma proof0_accepted:
  "proof_accepted device_library0 store0 proof0 1000"
  "proof_accepted device_library0 (device_run device_library0 store0 [(Prove proof0, 1000)]) proof0 121000"
  by (simp_all add: proof_accepted_def store0_devices example_simps)

text \<open>The captured proof is accepted a second time at that instant: its nonce has just been forgotten and it is not yet stale.\<close>

theorem proof_accepted_once_witness:
  "stamp_number (pi_timestamp proof0) = Some 61000 \<and> (121000 :: int) = 1000 + 2 * PROOF_SKEW_MS"
  using proof_accepted_once [OF store0_ok _ proof0_accepted(1), of "[]" 121000 proof0] proof0_accepted(2)
  by (simp add: PROOF_SKEW_MS_def)

lemma captured_proof_replayed:
  "proof_accepted device_library0 store0 proof0 1000 \<and>
   proof_accepted device_library0 (device_run device_library0 store0 [(Prove proof0, 1000)]) proof0 121000"
  using proof0_accepted by simp

text \<open>The device is revoked and enrolled again: the request of the new one is admitted.\<close>

definition revoked0 :: device_store where
  "revoked0 = fst (revokeAdminDevice store0 ''d1'' ''GA'' ''lost'' 6)"

definition device_calls0 :: "(device_call \<times> int) list" where
  "device_calls0 = [(Enrol ''GA'' (replicate 32 CHR ''A'') None ''d2'', 7)]"

definition guard0 :: guard_state where
  "guard0 = \<lparr>gs_store = device_run device_library0 revoked0 device_calls0, gs_lastNotifiedAt = []\<rparr>"

definition request0 :: bound_request where
  "request0 = \<lparr>br_method = ''post'', br_path = ''/x'', br_originalUrl = Some ''/api/admin/x?q'', br_url = ''/x'',
     br_authorization = None, br_user = Some \<lparr>su_walletAddress = ''ga'', su_deviceFingerprint = Some ''fp''\<rparr>,
     br_deviceId = JStr ''d2'', br_timestamp = JNum 900, br_nonce = JStr ''0123456789abcdef'',
     br_signature = JStr (replicate 64 CHR ''A''), br_body = Parsed (JArr [JNum 7])\<rparr>"

lemma revoked0_devices:
  "revokeAdminDevice store0 ''d1'' ''GA'' ''lost'' 6 = (revoked0, Some \<lparr>ad_deviceId = ''d1'', ad_adminAddress = ''ga'',
     ad_publicKey = replicate 32 CHR ''A'', ad_fingerprint = ''fp'', ad_label = ''Unnamed device'', ad_createdAt = 5,
     ad_lastSeenAt = None, ad_revokedAt = Some 6, ad_revokedReason = Some ''lost''\<rparr>)"
  by (simp add: revoked0_def store0_devices revokeAdminDevice_def example_simps)

lemma guard0_devices:
  "map_get (ds_devices (gs_store guard0)) ''d2'' = Some \<lparr>ad_deviceId = ''d2'', ad_adminAddress = ''ga'',
     ad_publicKey = replicate 32 CHR ''A'', ad_fingerprint = ''fp'', ad_label = ''Unnamed device'', ad_createdAt = 7,
     ad_lastSeenAt = None, ad_revokedAt = None, ad_revokedReason = None\<rparr> \<and> ds_seenNonces (gs_store guard0) = []"
  by (simp add: guard0_def revoked0_def store0_devices revokeAdminDevice_def device_calls0_def enrollAdminDevice_def
      fingerprintPublicKey_def default_label_def js_trim_def example_simps)

lemma request0_admitted:
  "\<not> isUnboundPath request0" "\<not> usesAdminApiKey ''k'' request0"
  "snd (requireBoundDevice device_library0 \<lparr>gc_mode = Enforce, gc_adminApiKey = ''k''\<rparr> False guard0 request0 1000) = Admitted"
proof -
  show path: "\<not> isUnboundPath request0"
    by (simp add: isUnboundPath_def request0_def UNBOUND_PATHS_def without_query_def js_ends_with_def)
  show key: "\<not> usesAdminApiKey ''k'' request0" by (simp add: usesAdminApiKey_def request0_def)
  show "snd (requireBoundDevice device_library0 \<lparr>gc_mode = Enforce, gc_adminApiKey = ''k''\<rparr> False guard0 request0 1000) = Admitted"
    using path key guard0_devices
    by (simp add: requireBoundDevice_def) (simp add: request0_def truthy_text_def proof_of_request_def example_simps)
qed

theorem admitted_only_from_own_device_witness:
  "\<exists>d. getAdminDevice (gs_store guard0) ''d2'' = Some d \<and> ad_fingerprint d = ''fp'' \<and> ''d2'' \<noteq> ''d1''"
  using admitted_only_from_own_device [OF store0_ok revoked0_devices, of device_calls0 guard0 device_library0
      "\<lparr>gc_mode = Enforce, gc_adminApiKey = ''k''\<rparr>" request0 1000] request0_admitted
  by (auto simp: device_calls0_def enrols_as_def guard0_def request0_def)

text \<open>A browser whose key is its own base 64 text, and whose signature is the start of the message.\<close>

definition browser_library0 :: device_library where
  "browser_library0 = \<lparr>dv_base64 = map (\<lambda>c. word_of_nat (of_char c)), dv_sha256 = (\<lambda>b. ''fp''), dv_utf8 = (\<lambda>t. []),
     dv_verify = (\<lambda>m s p. s = take 64 (m @ replicate 64 0)), dv_show_number = (\<lambda>q. show_int \<lfloor>q\<rfloor>), dv_stringify = (\<lambda>v. ''[7]'')\<rparr>"

definition browser_key0 :: device_key where
  "browser_key0 = \<lparr>dk_publicKey = replicate 32 65, dk_sign = (\<lambda>m. take 64 (m @ replicate 64 0))\<rparr>"

definition encode0 :: "8 word list \<Rightarrow> string" where
  "encode0 = map (\<lambda>b. char_of (unat b))"

lemma encode0_inverse: "map (\<lambda>c. word_of_nat (of_char c)) (encode0 b) = (b :: 8 word list)"
proof -
  have "unat w < 256" for w :: "8 word" using unsigned_less [of w] by simp
  then show ?thesis by (simp add: encode0_def comp_def)
qed

lemma browser0_laws: "browser_laws browser_library0 encode0 browser_key0"
  by (auto simp: browser_laws_def browser_library0_def browser_key0_def encode0_inverse ED25519_PUBLIC_KEY_BYTES_def
      SIGNATURE_BYTES_def min_def)

definition browser_device0 :: admin_device where
  "browser_device0 = \<lparr>ad_deviceId = ''d1'', ad_adminAddress = ''ga'', ad_publicKey = exportPublicKeyBase64 encode0 browser_key0,
     ad_fingerprint = ''fp'', ad_label = ''Unnamed device'', ad_createdAt = 5, ad_lastSeenAt = None, ad_revokedAt = None,
     ad_revokedReason = None\<rparr>"

definition browser_store0 :: device_store where
  "browser_store0 = \<lparr>ds_devices = [(''d1'', browser_device0)], ds_seenNonces = []\<rparr>"

lemma browser0_enrols:
  "enrollAdminDevice browser_library0 empty_store ''GA'' (exportPublicKeyBase64 encode0 browser_key0) None ''d1'' 5 =
     Inr (browser_store0, browser_device0)"
  by (simp add: enrollAdminDevice_def fingerprintPublicKey_def decodePublicKey_def exportPublicKeyBase64_def browser_library0_def
      encode0_inverse browser_key0_def ED25519_PUBLIC_KEY_BYTES_def default_label_def js_trim_def empty_store_def Let_def
      browser_store0_def browser_device0_def example_lower)

theorem honest_client_admitted_witness:
  "snd (requireBoundDevice browser_library0 \<lparr>gc_mode = Enforce, gc_adminApiKey = ''k''\<rparr> False
       \<lparr>gs_store = browser_store0, gs_lastNotifiedAt = []\<rparr>
       (delivered (\<lambda>_. JArr [JNum 7]) (signAdminRequest browser_library0 encode0 browser_key0 ''d1'' ''POST'' ''/api/admin/x''
         (Some (JArr [JNum 7])) ''0123456789abcdef'' 900) ''POST'' ''/api/admin/x'' ''?q''
         \<lparr>su_walletAddress = ''ga'', su_deviceFingerprint = Some ''fp''\<rparr>) 1000) = Admitted"
proof -
  have empty: "store_ok empty_store" by (simp add: store_ok_def empty_store_def)
  have "body_arrives browser_library0 (\<lambda>_. JArr [JNum 7]) (Some (JArr [JNum 7]))"
    by (simp add: body_arrives_def keyless_def)
  from honest_client_admitted [OF browser0_laws this empty browser0_enrols, of "[]"
      "\<lparr>gs_store = browser_store0, gs_lastNotifiedAt = []\<rparr>"
      "''0123456789abcdef''" 1000 900 "''/api/admin/x''" "''?q''" "\<lparr>su_walletAddress = ''ga'', su_deviceFingerprint = Some ''fp''\<rparr>"
      "\<lparr>gc_mode = Enforce, gc_adminApiKey = ''k''\<rparr>" "''POST''"]
  show ?thesis
    by (simp add: browser_device0_def browser_store0_def example_lower MIN_NONCE_LENGTH_def PROOF_SKEW_MS_def)
qed

section \<open>What the guard lets through besides\<close>

text \<open>
  Whoever holds a session's cookie, bound or not, reaches the enrolment handler without a proof, and gets a
  session bound to a key of their own.
\<close>

lemma cookie_alone_enrols:
  assumes "br_path r = ''/devices/enroll''"
    and "js_text (js_field body ''publicKey'') = Some publicKey" "js_trim publicKey \<noteq> []"
    and "decodePublicKey lib publicKey = Some key" "js_field body ''label'' = JUndefined"
  shows "requireBoundDevice lib c False g r now = (g, Admitted) \<and>
    (\<exists>s' d. enroll_handler lib (gs_store g) (Some wallet) None body uuid now =
       (s', Enrolled d \<lparr>sc_walletAddress = adminAddressOf (Some wallet) None, sc_dbk = Some (dv_sha256 lib key)\<rparr>))"
proof
  have "isUnboundPath r" using assms(1) by (simp add: isUnboundPath_def UNBOUND_PATHS_def)
  then show "requireBoundDevice lib c False g r now = (g, Admitted)" by (simp add: requireBoundDevice_def)
  show "\<exists>s' d. enroll_handler lib (gs_store g) (Some wallet) None body uuid now =
       (s', Enrolled d \<lparr>sc_walletAddress = adminAddressOf (Some wallet) None, sc_dbk = Some (dv_sha256 lib key)\<rparr>)"
    using assms(2-5)
    by (auto simp: enroll_handler_def enrollAdminDevice_def fingerprintPublicKey_def js_text_def default_label_def js_trim_def Let_def
        find_Some_iff split: option.split)
qed

text \<open>A body that is an empty object is hashed as the text \<open>{}\<close> by the browser and as no text by the server.\<close>

lemma empty_object_hashes_differ:
  "dv_stringify lib (JObj []) = ''{}'' \<Longrightarrow> br_body r = Parsed (JObj []) \<Longrightarrow>
     bodyHashFor lib r = dv_sha256 lib (dv_utf8 lib '''') \<and>
     sr_body (signAdminRequest lib base64 k deviceId meth path (Some (JObj [])) nonce t) = Some ''{}''"
  by (simp add: bodyHashFor_def js_absent_def keyless_def hashRequestBody_def signAdminRequest_def Let_def)

text \<open>A session without a device is refused, and keeps its cookie.\<close>

lemma unbound_session_keeps_cookie:
  "gc_mode c = Enforce \<Longrightarrow> \<not> usesAdminApiKey (gc_adminApiKey c) r \<Longrightarrow> \<not> isUnboundPath r \<Longrightarrow>
     br_user r = Some \<lparr>su_walletAddress = w, su_deviceFingerprint = None\<rparr> \<Longrightarrow>
     snd (requireBoundDevice lib c False g r now) = Binding_required \<and> \<not> session_cookie_cleared Binding_required"
  by (simp add: requireBoundDevice_def truthy_text_def failed_answer_def session_cookie_cleared_def)

end
