(* ===== verification/WebhookKeys.thy ===== *)
theory WebhookKeys
  imports Decimal
begin

text \<open>
  The subscriptions of the webhook service and their signing keys, \<^verbatim>\<open>backend/src/services/webhook.ts\<close> and
  \<^verbatim>\<open>backend/src/jobs/webhookKeyRotation.ts\<close>: creation, status, rotation, confirmation, the sweeps of old keys,
  and the check of a signature against the current and the previous key. A key is stored encrypted;
  encryption, the HMAC and the random keys are arguments, as is
  the clock. The column with the time of the last update is left out. The lemmas follow one key
  through the sweeps: what was signed with it is accepted until its grace period has elapsed.
\<close>

section \<open>Signatures\<close>

definition ROTATION_INTERVAL_DAYS :: int where
  "ROTATION_INTERVAL_DAYS = 90"

definition ROTATION_GRACE_PERIOD_DAYS :: int where
  "ROTATION_GRACE_PERIOD_DAYS = 7"

definition DAY_MS :: int where
  "DAY_MS = 24 * 60 * 60 * 1000"

definition SIGNATURE_TOLERANCE_MS :: int where
  "SIGNATURE_TOLERANCE_MS = 5 * 60 * 1000"

definition CURRENT_WEBHOOK_SCHEMA_VERSION :: nat where
  "CURRENT_WEBHOOK_SCHEMA_VERSION = 2"

text \<open>\<open>hmac key text\<close> is the hexadecimal HMAC-SHA256.\<close>

definition signPayload :: "(string \<Rightarrow> string \<Rightarrow> string) \<Rightarrow> string \<Rightarrow> string \<Rightarrow> string \<Rightarrow> string" where
  "signPayload hmac secret timestamp body = hmac secret (timestamp @ ''.'' @ body)"

text \<open>
  The lenient decoding of hexadecimal text, which stops at the first pair that is none, and the comparison,
  which throws on different lengths.
\<close>

definition hex_digit :: "char \<Rightarrow> nat option" where
  "hex_digit c = (case digit_value c of None \<Rightarrow> None | Some d \<Rightarrow> if d < 16 then Some d else None)"

fun hex_bytes :: "string \<Rightarrow> nat list" where
  "hex_bytes (a # b # s) =
     (case (hex_digit a, hex_digit b) of (Some x, Some y) \<Rightarrow> (16 * x + y) # hex_bytes s | _ \<Rightarrow> [])"
| "hex_bytes s = []"

definition timing_safe_equal :: "nat list \<Rightarrow> nat list \<Rightarrow> js_error + bool" where
  "timing_safe_equal a b = (if length a \<noteq> length b then Inl RangeError else Inr (a = b))"

definition verifySignature ::
    "(string \<Rightarrow> string \<Rightarrow> string) \<Rightarrow> string \<Rightarrow> string \<Rightarrow> string \<Rightarrow> string \<Rightarrow> int \<Rightarrow> int \<Rightarrow> bool" where
  "verifySignature hmac secret timestamp rawBody signature toleranceMs now =
     (case js_parse_int timestamp of
        None \<Rightarrow> False
      | Some ts \<Rightarrow>
          if \<bar>now - ts\<bar> > toleranceMs then False
          else (let sig = (if js_starts_with signature ''sha256='' then drop 7 signature else signature);
                    expected = signPayload hmac secret timestamp rawBody
                in case timing_safe_equal (hex_bytes sig) (hex_bytes expected) of Inl _ \<Rightarrow> False | Inr b \<Rightarrow> b))"

section \<open>Subscriptions\<close>

datatype subscription_status = Active | Paused | Revoked

record webhook_subscription =
  ws_label :: string
  ws_url :: string
  ws_secret :: string
  ws_previousSecret :: "string option"
  ws_previousSecretExpiresAt :: "int option"
  ws_secretRotatedAt :: int
  ws_topics :: "string list"
  ws_status :: subscription_status
  ws_ownerAddress :: "string option"
  ws_webhookSchemaVersion :: nat
  ws_createdAt :: int
  ws_consecutiveFailedDispatches :: nat
  ws_failingSinceAt :: "int option"
  ws_lastFailureAt :: "int option"
  ws_lastSuccessAt :: "int option"
  ws_autoDisabledAt :: "int option"

text \<open>The table by identifier.\<close>

type_synonym subscriptions = "(string, webhook_subscription) js_map"

record subscription_input =
  si_label :: string
  si_url :: string
  si_topics :: "string list option"
  si_ownerAddress :: "string option"
  si_webhookSchemaVersion :: "nat option"

definition createSubscription ::
    "(string \<Rightarrow> string) \<Rightarrow> subscriptions \<Rightarrow> subscription_input \<Rightarrow> string \<Rightarrow> string \<Rightarrow> int \<Rightarrow> subscriptions" where
  "createSubscription encrypt t i subscriptionId plaintextSecret now =
     map_set t subscriptionId
       \<lparr>ws_label = si_label i, ws_url = si_url i, ws_secret = encrypt plaintextSecret, ws_previousSecret = None,
        ws_previousSecretExpiresAt = None, ws_secretRotatedAt = now,
        ws_topics = (case si_topics i of None \<Rightarrow> [''all''] | Some ts \<Rightarrow> if length ts > 0 then ts else [''all'']),
        ws_status = Active, ws_ownerAddress = si_ownerAddress i,
        ws_webhookSchemaVersion = or_else (si_webhookSchemaVersion i) CURRENT_WEBHOOK_SCHEMA_VERSION,
        ws_createdAt = now, ws_consecutiveFailedDispatches = 0, ws_failingSinceAt = None,
        ws_lastFailureAt = None, ws_lastSuccessAt = None, ws_autoDisabledAt = None\<rparr>"

text \<open>A row without its two keys, as the list and the single view return it.\<close>

definition without_secrets :: "webhook_subscription \<Rightarrow> webhook_subscription" where
  "without_secrets w = w\<lparr>ws_secret := [], ws_previousSecret := None\<rparr>"

definition listSubscriptions :: "subscriptions \<Rightarrow> string option \<Rightarrow> (string \<times> webhook_subscription) list" where
  "listSubscriptions t owner =
     map (\<lambda>(k, w). (k, without_secrets w))
       (sort_key (\<lambda>(k, w). - ws_createdAt w)
         (filter (\<lambda>(k, w). case truthy_text owner of None \<Rightarrow> True | Some a \<Rightarrow> ws_ownerAddress w = Some a) t))"

definition getSubscription :: "subscriptions \<Rightarrow> string \<Rightarrow> webhook_subscription option" where
  "getSubscription t k = map_option without_secrets (map_get t k)"

text \<open>An update of a row that does not exist throws; the table is then kept.\<close>

definition updateSubscriptionStatus ::
    "subscriptions \<Rightarrow> string \<Rightarrow> subscription_status \<Rightarrow> subscriptions option" where
  "updateSubscriptionStatus t k status =
     (case map_get t k of
        None \<Rightarrow> None
      | Some w \<Rightarrow>
          (let w' = w\<lparr>ws_status := status\<rparr>
           in Some (map_set t k
                (if status = Active
                 then w'\<lparr>ws_consecutiveFailedDispatches := 0, ws_failingSinceAt := None, ws_autoDisabledAt := None\<rparr>
                 else w'))))"

definition rotate_row :: "string \<Rightarrow> int \<Rightarrow> webhook_subscription \<Rightarrow> webhook_subscription" where
  "rotate_row encryptedSecret now w =
     w\<lparr>ws_previousSecret := Some (ws_secret w), ws_previousSecretExpiresAt := Some (now + ROTATION_GRACE_PERIOD_DAYS * DAY_MS),
       ws_secret := encryptedSecret, ws_secretRotatedAt := now\<rparr>"

definition rotateSecret :: "(string \<Rightarrow> string) \<Rightarrow> subscriptions \<Rightarrow> string \<Rightarrow> string \<Rightarrow> int \<Rightarrow> subscriptions option" where
  "rotateSecret encrypt t k plaintextSecret now =
     (case map_get t k of None \<Rightarrow> None | Some w \<Rightarrow> Some (map_set t k (rotate_row (encrypt plaintextSecret) now w)))"

definition verifySubscriptionSignature ::
    "(string \<Rightarrow> string \<Rightarrow> string) \<Rightarrow> (string \<Rightarrow> string) \<Rightarrow> subscriptions \<Rightarrow> string \<Rightarrow> string \<Rightarrow> string \<Rightarrow> string \<Rightarrow> int \<Rightarrow> bool" where
  "verifySubscriptionSignature hmac decrypt t k timestamp rawBody signature now =
     (case map_get t k of
        None \<Rightarrow> False
      | Some w \<Rightarrow>
          if verifySignature hmac (decrypt (ws_secret w)) timestamp rawBody signature SIGNATURE_TOLERANCE_MS now then True
          else case truthy_text (ws_previousSecret w) of
            None \<Rightarrow> False
          | Some previous \<Rightarrow>
              if (case ws_previousSecretExpiresAt w of None \<Rightarrow> True | Some e \<Rightarrow> now < e)
              then verifySignature hmac (decrypt previous) timestamp rawBody signature SIGNATURE_TOLERANCE_MS now
              else False)"

text \<open>The result tells whether there was a rotation to confirm.\<close>

definition confirmSecretRotation :: "subscriptions \<Rightarrow> string \<Rightarrow> (subscriptions \<times> bool) option" where
  "confirmSecretRotation t k =
     (case map_get t k of
        None \<Rightarrow> None
      | Some w \<Rightarrow>
          if truthy_text (ws_previousSecret w) = None then Some (t, False)
          else Some (map_set t k (w\<lparr>ws_previousSecret := None, ws_previousSecretExpiresAt := None\<rparr>), True))"

definition grace_over :: "webhook_subscription \<Rightarrow> int \<Rightarrow> bool" where
  "grace_over w now \<longleftrightarrow> ws_previousSecret w \<noteq> None \<and>
     (case ws_previousSecretExpiresAt w of None \<Rightarrow> False | Some e \<Rightarrow> e \<le> now)"

definition pruneExpiredPreviousSecrets :: "subscriptions \<Rightarrow> int \<Rightarrow> subscriptions" where
  "pruneExpiredPreviousSecrets t now =
     map (\<lambda>(k, w). (k, if grace_over w now then w\<lparr>ws_previousSecret := None, ws_previousSecretExpiresAt := None\<rparr> else w)) t"

definition rotation_due :: "int \<Rightarrow> webhook_subscription \<Rightarrow> bool" where
  "rotation_due now w \<longleftrightarrow> ws_status w \<noteq> Revoked \<and> ws_secretRotatedAt w \<le> now - ROTATION_INTERVAL_DAYS * DAY_MS"

text \<open>\<open>fresh\<close> gives the random key of each subscription.\<close>

definition rotateDueSecrets :: "(string \<Rightarrow> string) \<Rightarrow> (string \<Rightarrow> string) \<Rightarrow> subscriptions \<Rightarrow> int \<Rightarrow> subscriptions \<times> string list" where
  "rotateDueSecrets encrypt fresh t now =
     (let due = map fst (filter (\<lambda>(k, w). rotation_due now w) t)
      in (foldl (\<lambda>t k. or_else (rotateSecret encrypt t k (fresh k) now) t) t due, due))"

text \<open>
  The daily sweep; the mail that hands the new keys over is left out. Its two parts read the clock one after the
  other.
\<close>

definition runWebhookKeyRotationSweep :: "(string \<Rightarrow> string) \<Rightarrow> (string \<Rightarrow> string) \<Rightarrow> subscriptions \<Rightarrow> int \<Rightarrow> int \<Rightarrow> subscriptions" where
  "runWebhookKeyRotationSweep encrypt fresh t now1 now2 =
     pruneExpiredPreviousSecrets (fst (rotateDueSecrets encrypt fresh t now1)) now2"

section \<open>Sequences of operations\<close>

datatype key_op =
    Create subscription_input string string
  | Set_status string subscription_status
  | Rotate string string
  | Confirm string
  | Rotate_due "string \<Rightarrow> string"
  | Prune

fun key_step :: "(string \<Rightarrow> string) \<Rightarrow> subscriptions \<Rightarrow> key_op \<times> int \<Rightarrow> subscriptions" where
  "key_step encrypt t (Create i k secret, now) = createSubscription encrypt t i k secret now"
| "key_step encrypt t (Set_status k status, now) = or_else (updateSubscriptionStatus t k status) t"
| "key_step encrypt t (Rotate k secret, now) = or_else (rotateSecret encrypt t k secret now) t"
| "key_step encrypt t (Confirm k, now) = fst (or_else (confirmSecretRotation t k) (t, False))"
| "key_step encrypt t (Rotate_due fresh, now) = fst (rotateDueSecrets encrypt fresh t now)"
| "key_step encrypt t (Prune, now) = pruneExpiredPreviousSecrets t now"

lemma sweep_as_steps:
  "runWebhookKeyRotationSweep encrypt fresh t now1 now2 = foldl (key_step encrypt) t [(Rotate_due fresh, now1), (Prune, now2)]"
  by (simp add: runWebhookKeyRotationSweep_def)

text \<open>The subscription an operation names by hand.\<close>

definition handled :: "key_op \<Rightarrow> string option" where
  "handled op = (case op of Create _ k _ \<Rightarrow> Some k | Rotate k _ \<Rightarrow> Some k | Confirm k \<Rightarrow> Some k | _ \<Rightarrow> None)"

lemma rotate_all_get:
  "distinct ks \<Longrightarrow> map_get (foldl (\<lambda>t k. or_else (rotateSecret encrypt t k (fresh k) now) t) t ks) j =
     (if j \<in> set ks then map_option (rotate_row (encrypt (fresh j)) now) (map_get t j) else map_get t j)"
proof (induction ks arbitrary: t)
  case Nil
  then show ?case by simp
next
  case (Cons k ks)
  let ?t = "or_else (rotateSecret encrypt t k (fresh k) now) t"
  have "map_get ?t i = (if i = k then map_option (rotate_row (encrypt (fresh k)) now) (map_get t k) else map_get t i)" for i
    by (auto simp: rotateSecret_def split: option.split)
  with Cons show ?case by auto
qed

lemma rotate_due_get:
  assumes "wf_map t"
  shows "map_get (fst (rotateDueSecrets encrypt fresh t now)) j =
    map_option (\<lambda>w. if rotation_due now w then rotate_row (encrypt (fresh j)) now w else w) (map_get t j)"
proof -
  let ?due = "map fst (filter (\<lambda>(k, w). rotation_due now w) t)"
  have "distinct ?due" using assms by (simp add: wf_map_def distinct_map_filter)
  moreover have "j \<in> set ?due \<longleftrightarrow> (\<exists>w. map_get t j = Some w \<and> rotation_due now w)"
    using assms by (auto simp: wf_map_def image_iff dest: map_of_SomeD intro!: rev_bexI)
  ultimately show ?thesis
    by (cases "map_get t j") (auto simp: rotateDueSecrets_def rotate_all_get Let_def)
qed

lemma prune_get: "map_get (pruneExpiredPreviousSecrets t now) j =
    map_option (\<lambda>w. if grace_over w now then w\<lparr>ws_previousSecret := None, ws_previousSecretExpiresAt := None\<rparr> else w) (map_get t j)"
  by (induction t) (auto simp: pruneExpiredPreviousSecrets_def)

lemma rotate_all_wf:
  "wf_map t \<Longrightarrow> wf_map (foldl (\<lambda>t k. or_else (rotateSecret encrypt t k (fresh k) now) t) t ks)"
  by (induction ks arbitrary: t) (simp_all add: rotateSecret_def split: option.split)

lemma key_step_wf: "wf_map t \<Longrightarrow> wf_map (key_step encrypt t (op, now))"
proof (cases op)
  case Prune
  assume "wf_map t"
  moreover have "map_keys (pruneExpiredPreviousSecrets t now) = map_keys t"
    by (induction t) (auto simp: pruneExpiredPreviousSecrets_def)
  ultimately show ?thesis using Prune by (simp add: wf_map_def)
next
  case (Rotate_due fresh)
  then show "wf_map t \<Longrightarrow> wf_map (key_step encrypt t (op, now))" by (simp add: rotateDueSecrets_def rotate_all_wf Let_def)
qed (simp_all add: createSubscription_def updateSubscriptionStatus_def rotateSecret_def confirmSecretRotation_def
    Let_def split: option.split)

section \<open>Keys stay good through their grace period\<close>

text \<open>The key of subscription \<open>k\<close> that was current at \<open>t0\<close> is still the current one, or the previous one in its grace period.\<close>

definition key_live :: "(string \<Rightarrow> string) \<Rightarrow> string \<Rightarrow> string \<Rightarrow> int \<Rightarrow> subscriptions \<Rightarrow> bool" where
  "key_live decrypt k key t0 t \<longleftrightarrow>
     (\<exists>w. map_get t k = Some w \<and>
        (ws_secret w \<noteq> [] \<and> decrypt (ws_secret w) = key \<or>
         (\<exists>p e. ws_previousSecret w = Some p \<and> p \<noteq> [] \<and> decrypt p = key \<and> ws_previousSecretExpiresAt w = Some e \<and>
            t0 + ROTATION_GRACE_PERIOD_DAYS * DAY_MS \<le> e \<and> t0 \<le> ws_secretRotatedAt w)))"

lemma key_live_step:
  assumes "wf_map t" "key_live decrypt k key t0 t" "handled op \<noteq> Some k"
    and "t0 \<le> now" "now < t0 + ROTATION_GRACE_PERIOD_DAYS * DAY_MS"
  shows "key_live decrypt k key t0 (key_step encrypt t (op, now))"
proof (cases op)
  case (Rotate_due fresh)
  obtain w where w: "map_get t k = Some w" using assms(2) by (auto simp: key_live_def)
  have after: "map_get (key_step encrypt t (op, now)) k =
      Some (if rotation_due now w then rotate_row (encrypt (fresh k)) now w else w)"
    using Rotate_due w by (simp add: rotate_due_get [OF assms(1)])
  show ?thesis
  proof (cases "rotation_due now w")
    case True
    then have "ws_secretRotatedAt w < t0"
      using assms(5) by (simp add: rotation_due_def ROTATION_INTERVAL_DAYS_def ROTATION_GRACE_PERIOD_DAYS_def DAY_MS_def)
    then show ?thesis using True assms(2,4) w after by (auto simp: key_live_def rotate_row_def)
  next
    case False
    then show ?thesis using assms(2) w after by (auto simp: key_live_def)
  qed
next
  case Prune
  obtain w where w: "map_get t k = Some w" using assms(2) by (auto simp: key_live_def)
  have "map_get (key_step encrypt t (op, now)) k =
      Some (if grace_over w now then w\<lparr>ws_previousSecret := None, ws_previousSecretExpiresAt := None\<rparr> else w)"
    using Prune w by (simp add: prune_get)
  then show ?thesis using assms(2,5) w by (auto simp: key_live_def grace_over_def)
next
  case (Set_status j status)
  then show ?thesis using assms(2)
    by (auto simp: key_live_def updateSubscriptionStatus_def Let_def split: option.split)
qed (use assms(2,3) in \<open>auto simp: key_live_def handled_def createSubscription_def rotateSecret_def confirmSecretRotation_def
       split: option.split\<close>)

lemma key_live_run:
  "wf_map t \<Longrightarrow> key_live decrypt k key t0 t \<Longrightarrow>
     list_all (\<lambda>(op, now). handled op \<noteq> Some k \<and> t0 \<le> now \<and> now < t0 + ROTATION_GRACE_PERIOD_DAYS * DAY_MS) ops \<Longrightarrow>
     key_live decrypt k key t0 (foldl (key_step encrypt) t ops)"
  by (induction ops arbitrary: t) (auto simp: key_live_step key_step_wf split_paired_all)

definition is_hex_text :: "string \<Rightarrow> bool" where
  "is_hex_text s \<longleftrightarrow> list_all (\<lambda>c. hex_digit c \<noteq> None) s"

lemma own_signature_verifies:
  assumes "is_hex_text (hmac key (timestamp @ ''.'' @ body))"
    and "js_parse_int timestamp = Some ts" "\<bar>now - ts\<bar> \<le> tolerance"
  shows "verifySignature hmac key timestamp body (signPayload hmac key timestamp body) tolerance now"
proof -
  have "\<not> js_starts_with (signPayload hmac key timestamp body) ''sha256=''"
    using assms(1) by (auto simp: js_starts_with_append is_hex_text_def signPayload_def hex_digit_def digit_value_def)
  then show ?thesis using assms(2,3) by (simp add: verifySignature_def timing_safe_equal_def not_less)
qed


definition webhook0 :: webhook_subscription where
  "webhook0 = \<lparr>ws_label = ''acme'', ws_url = ''https://a.b'', ws_secret = ''old'', ws_previousSecret = None,
     ws_previousSecretExpiresAt = None, ws_secretRotatedAt = 0, ws_topics = [''all''], ws_status = Active, ws_ownerAddress = None,
     ws_webhookSchemaVersion = 2, ws_createdAt = 0, ws_consecutiveFailedDispatches = 0, ws_failingSinceAt = None,
     ws_lastFailureAt = None, ws_lastSuccessAt = None, ws_autoDisabledAt = None\<rparr>"


section \<open>What rotation does not keep\<close>

text \<open>
  Two rotations in a row, by two operators or by the sweeps of two instances that found the same key due, drop
  the key the subscriber holds although its grace period has just begun.
\<close>

lemma second_rotation_drops_key:
  assumes "map_get t k = Some w"
  shows "\<exists>v. map_get (foldl (key_step encrypt) t [(Rotate k s1, u1), (Rotate k s2, u2)]) k = Some v \<and>
    ws_secret v = encrypt s2 \<and> ws_previousSecret v = Some (encrypt s1)"
  using assms by (simp add: rotateSecret_def rotate_row_def)

text \<open>Whatever follows a character that is no hexadecimal digit in a good signature is ignored.\<close>

lemma hex_bytes_stops:
  "even (length s) \<Longrightarrow> hex_digit c = None \<Longrightarrow> hex_bytes (s @ c # d # junk) = hex_bytes s"
  by (induction s rule: hex_bytes.induct) (auto split: option.split)

lemma trailing_text_accepted:
  assumes "is_hex_text (hmac key (timestamp @ ''.'' @ body))" "even (length (hmac key (timestamp @ ''.'' @ body)))"
    and "js_parse_int timestamp = Some ts" "\<bar>now - ts\<bar> \<le> tolerance"
  shows "verifySignature hmac key timestamp body (''sha256='' @ signPayload hmac key timestamp body @ ''-junk'') tolerance now"
proof -
  have "hex_bytes (signPayload hmac key timestamp body @ ''-junk'') = hex_bytes (signPayload hmac key timestamp body)"
    using assms(2) hex_bytes_stops [of "signPayload hmac key timestamp body" "CHR ''-''" "CHR ''j''" "''unk''"]
    by (simp add: signPayload_def hex_digit_def digit_value_def)
  then show ?thesis using assms(3,4)
    by (simp add: verifySignature_def timing_safe_equal_def not_less)
qed

end
