(* ===== verification/WebhookDelivery.thy ===== *)
theory WebhookDelivery
  imports WebhookKeys
begin

text \<open>
  Delivery of events to webhook subscribers: dispatch and the direct delivery loop of
  \<^verbatim>\<open>backend/src/services/webhook.ts\<close>, the job processor of \<^verbatim>\<open>backend/src/workers/webhookWorker.ts\<close> and the sweep
  of \<^verbatim>\<open>backend/src/jobs/webhookAutoDisable.ts\<close>. The database is a record of its three tables; an HTTP request is
  its answer; the queue library is the function \<open>redeliver\<close>, with \<open>queue_law\<close> as what it promises. Random
  identifiers, random numbers, the clock and the text of a JSON value are arguments; log lines and
  operator mails are left out. The lemmas show that every dispatch ends, with one terminal row and one change of the
  failure streak, and that a subscriber is disabled by a real streak only.
\<close>

section \<open>Events and rows\<close>

definition MAX_ATTEMPTS_webhook :: nat where
  "MAX_ATTEMPTS_webhook = 5"

definition BASE_BACKOFF_MS :: int where
  "BASE_BACKOFF_MS = 1000"

definition MAX_BACKOFF_MS :: int where
  "MAX_BACKOFF_MS = 30000"

definition MAX_RESPONSE_BODY_BYTES :: nat where
  "MAX_RESPONSE_BODY_BYTES = 2048"

type_synonym event_topic = string

record event_data =
  ev_contractId :: string
  ev_borrower :: string
  ev_amount :: string
  ev_ledger :: int

record webhook_payload =
  wp_deliveryId :: string
  wp_topic :: event_topic
  wp_timestamp :: int
  wp_data :: event_data

definition data_value :: "event_data \<Rightarrow> js_value" where
  "data_value d = JObj [(''contractId'', JStr (ev_contractId d)), (''borrower'', JStr (ev_borrower d)),
     (''amount'', JStr (ev_amount d)), (''ledger'', JNum (of_int (ev_ledger d)))]"

definition payload_fields :: "webhook_payload \<Rightarrow> (string \<times> js_value) list" where
  "payload_fields p = [(''deliveryId'', JStr (wp_deliveryId p)), (''topic'', JStr (wp_topic p)),
     (''timestamp'', JNum (of_int (wp_timestamp p))), (''data'', data_value (wp_data p))]"

definition shapeWebhookPayload :: "webhook_payload \<Rightarrow> nat \<Rightarrow> js_value" where
  "shapeWebhookPayload p version =
     (if version = 1 then JObj (payload_fields p)
      else JObj ((''schemaVersion'', JNum (of_nat CURRENT_WEBHOOK_SCHEMA_VERSION)) # payload_fields p))"

text \<open>\<open>random\<close> is a number from zero up to but not including one.\<close>

definition backoffMs :: "rat \<Rightarrow> nat \<Rightarrow> int" where
  "backoffMs random n = \<lfloor>random * of_int (min (BASE_BACKOFF_MS * 2 ^ n) MAX_BACKOFF_MS)\<rfloor>"

datatype post_result = Response int string | Fetch_error string

definition post_success :: "post_result \<Rightarrow> bool" where
  "post_success r = (case r of Response code _ \<Rightarrow> 200 \<le> code \<and> code < 300 | Fetch_error _ \<Rightarrow> False)"

definition post_statusCode :: "post_result \<Rightarrow> int option" where
  "post_statusCode r = (case r of Response code _ \<Rightarrow> Some code | Fetch_error _ \<Rightarrow> None)"

definition post_responseBody :: "post_result \<Rightarrow> string option" where
  "post_responseBody r = (case r of Response _ raw \<Rightarrow> Some (take MAX_RESPONSE_BODY_BYTES raw) | Fetch_error _ \<Rightarrow> None)"

definition post_error :: "post_result \<Rightarrow> string option" where
  "post_error r = (case r of Response _ _ \<Rightarrow> None | Fetch_error e \<Rightarrow> Some e)"

definition error_message :: "post_result \<Rightarrow> string" where
  "error_message r = (case r of Response code _ \<Rightarrow> ''HTTP '' @ show_int code | Fetch_error e \<Rightarrow> e)"

datatype delivery_outcome = Success | Retry | Dlq

record delivery_row =
  dr_id :: string
  dr_subscriptionId :: string
  dr_topic :: event_topic
  dr_payload :: webhook_payload
  dr_statusCode :: "int option"
  dr_responseBody :: "string option"
  dr_error :: "string option"
  dr_success :: bool
  dr_attempt :: nat
  dr_nextRetryAt :: "int option"
  dr_dispatchedAt :: "int option"
  dr_completedAt :: "int option"
  dr_outcome :: "delivery_outcome option"

record dlq_row =
  dq_url :: string
  dq_payload :: webhook_payload
  dq_statusCode :: "int option"
  dq_responsePayload :: "string option"
  dq_error :: string

record delivery_db =
  dd_subscriptions :: subscriptions
  dd_deliveries :: "delivery_row list"
  dd_dlq :: "dlq_row list"

text \<open>What goes out: the address, the four headers and the body.\<close>

record posted =
  po_url :: string
  po_id :: string
  po_timestamp :: string
  po_topic :: event_topic
  po_signature :: string
  po_body :: string

section \<open>Dispatch\<close>

record webhook_job =
  wj_subscriptionId :: string
  wj_url :: string
  wj_encryptedSecret :: string
  wj_topic :: event_topic
  wj_data :: event_data
  wj_webhookSchemaVersion :: nat
  wj_attemptsMade :: nat
  wj_attempts :: nat
  wj_timestamp :: int

definition job_for :: "event_topic \<Rightarrow> event_data \<Rightarrow> int \<Rightarrow> string \<times> webhook_subscription \<Rightarrow> webhook_job" where
  "job_for topic d now = (\<lambda>(k, w). \<lparr>wj_subscriptionId = k, wj_url = ws_url w, wj_encryptedSecret = ws_secret w, wj_topic = topic,
     wj_data = d, wj_webhookSchemaVersion = ws_webhookSchemaVersion w, wj_attemptsMade = 0, wj_attempts = MAX_ATTEMPTS_webhook,
     wj_timestamp = now\<rparr>)"

definition listens :: "event_topic \<Rightarrow> webhook_subscription \<Rightarrow> bool" where
  "listens topic w \<longleftrightarrow> ws_status w = Active \<and> (topic \<in> set (ws_topics w) \<or> ''all'' \<in> set (ws_topics w))"

text \<open>\<open>accepts\<close> tells which jobs the queue takes; the others are logged and dropped.\<close>

definition dispatchEvent :: "(webhook_job \<Rightarrow> bool) \<Rightarrow> subscriptions \<Rightarrow> event_topic \<Rightarrow> event_data \<Rightarrow> int \<Rightarrow> webhook_job list" where
  "dispatchEvent accepts t topic d now =
     filter accepts (map (job_for topic d now) (filter (\<lambda>(k, w). listens topic w) t))"

section \<open>The worker\<close>

datatype dispatch_outcome = Dispatch_success | Dispatch_dlq

definition recordDispatchOutcome :: "subscriptions \<Rightarrow> string \<Rightarrow> dispatch_outcome \<Rightarrow> int \<Rightarrow> subscriptions" where
  "recordDispatchOutcome t k outcome endedAt =
     (case map_get t k of
        None \<Rightarrow> t
      | Some w \<Rightarrow>
          map_set t k
            (if outcome = Dispatch_success
             then w\<lparr>ws_consecutiveFailedDispatches := 0, ws_failingSinceAt := None, ws_lastSuccessAt := Some endedAt\<rparr>
             else w\<lparr>ws_consecutiveFailedDispatches := ws_consecutiveFailedDispatches w + 1, ws_lastFailureAt := Some endedAt,
                    ws_failingSinceAt := Some (or_else (ws_failingSinceAt w) endedAt)\<rparr>))"

text \<open>What the world answers in one attempt: the identifier, the clock before and after, and the result.\<close>

record attempt_answer =
  aa_uuid :: string
  aa_now :: int
  aa_result :: post_result
  aa_completedAt :: int

record delivery_library =
  dl_decrypt :: "string \<Rightarrow> string option"
  dl_hmac :: "string \<Rightarrow> string \<Rightarrow> string"
  dl_stringify :: "js_value \<Rightarrow> string"

definition payload_of :: "attempt_answer \<Rightarrow> event_topic \<Rightarrow> event_data \<Rightarrow> webhook_payload" where
  "payload_of a topic d = \<lparr>wp_deliveryId = aa_uuid a, wp_topic = topic, wp_timestamp = aa_now a, wp_data = d\<rparr>"

definition post_of :: "delivery_library \<Rightarrow> string \<Rightarrow> string \<Rightarrow> attempt_answer \<Rightarrow> event_topic \<Rightarrow> js_value \<Rightarrow> posted" where
  "post_of lib url secret a topic v =
     (let body = dl_stringify lib v; timestamp = show_int (aa_now a)
      in \<lparr>po_url = url, po_id = aa_uuid a, po_timestamp = timestamp, po_topic = topic,
          po_signature = signPayload (dl_hmac lib) secret timestamp body, po_body = body\<rparr>)"

text \<open>\<open>job.opts.attempts || 5\<close>.\<close>

definition attempt_limit :: "webhook_job \<Rightarrow> nat" where
  "attempt_limit job = (if wj_attempts job = 0 then 5 else wj_attempts job)"

datatype job_result = Job_done string | Job_failed string

definition isLastAttempt :: "webhook_job \<Rightarrow> bool" where
  "isLastAttempt job \<longleftrightarrow> wj_attemptsMade job \<ge> attempt_limit job - 1"

definition job_payload :: "webhook_job \<Rightarrow> attempt_answer \<Rightarrow> webhook_payload" where
  "job_payload job a = payload_of a (wj_topic job) (wj_data job)"

definition job_row :: "webhook_job \<Rightarrow> attempt_answer \<Rightarrow> delivery_row" where
  "job_row job a =
     \<lparr>dr_id = aa_uuid a, dr_subscriptionId = wj_subscriptionId job, dr_topic = wj_topic job, dr_payload = job_payload job a,
      dr_statusCode = post_statusCode (aa_result a), dr_responseBody = post_responseBody (aa_result a),
      dr_error = post_error (aa_result a), dr_success = post_success (aa_result a), dr_attempt = wj_attemptsMade job,
      dr_nextRetryAt = None, dr_dispatchedAt = Some (wj_timestamp job), dr_completedAt = Some (aa_completedAt a),
      dr_outcome = Some (if post_success (aa_result a) then Success else if isLastAttempt job then Dlq else Retry)\<rparr>"

definition dead_letter :: "string \<Rightarrow> webhook_payload \<Rightarrow> post_result \<Rightarrow> dlq_row" where
  "dead_letter url payload result =
     \<lparr>dq_url = url, dq_payload = payload, dq_statusCode = post_statusCode result,
      dq_responsePayload = post_responseBody result, dq_error = error_message result\<rparr>"

definition process_job :: "delivery_library \<Rightarrow> delivery_db \<Rightarrow> webhook_job \<Rightarrow> attempt_answer \<Rightarrow> delivery_db \<times> posted list \<times> job_result" where
  "process_job lib db job a =
     (case dl_decrypt lib (wj_encryptedSecret job) of
        None \<Rightarrow> (db, [], Job_failed ''decrypt'')
      | Some plaintextSecret \<Rightarrow>
          (let sent = post_of lib (wj_url job) plaintextSecret a (wj_topic job)
                 (shapeWebhookPayload (job_payload job a) (wj_webhookSchemaVersion job));
               db1 = db\<lparr>dd_deliveries := dd_deliveries db @ [job_row job a]\<rparr>;
               ended = (\<lambda>outcome. recordDispatchOutcome (dd_subscriptions db) (wj_subscriptionId job) outcome (aa_completedAt a))
           in if post_success (aa_result a)
              then (db1\<lparr>dd_subscriptions := ended Dispatch_success\<rparr>, [sent], Job_done (aa_uuid a))
              else if isLastAttempt job
              then (db1\<lparr>dd_dlq := dd_dlq db @ [dead_letter (wj_url job) (job_payload job a) (aa_result a)],
                        dd_subscriptions := ended Dispatch_dlq\<rparr>,
                    [sent], Job_failed (error_message (aa_result a)))
              else (db1, [sent], Job_failed (error_message (aa_result a)))))"

text \<open>
  The queue runs the processor, and on a failure again, as \<open>redeliver\<close> says: the job with one more attempt made, as
  long as there is one left. \<open>answers\<close> gives the world's answers by attempt.
\<close>

partial_function (option) run_job ::
    "(webhook_job \<Rightarrow> webhook_job option) \<Rightarrow> delivery_library \<Rightarrow> (nat \<Rightarrow> attempt_answer) \<Rightarrow> delivery_db \<Rightarrow> webhook_job \<Rightarrow>
     (delivery_db \<times> posted list) option" where
  "run_job redeliver lib answers db job =
     (case process_job lib db job (answers (wj_attemptsMade job)) of
        (db1, sent, Job_done _) \<Rightarrow> Some (db1, sent)
      | (db1, sent, Job_failed _) \<Rightarrow>
          (case redeliver job of
             None \<Rightarrow> Some (db1, sent)
           | Some job' \<Rightarrow>
               Option.bind (run_job redeliver lib answers db1 job') (\<lambda>(db2, sent2). Some (db2, sent @ sent2))))"

definition queue_law :: "(webhook_job \<Rightarrow> webhook_job option) \<Rightarrow> bool" where
  "queue_law redeliver \<longleftrightarrow>
     (\<forall>job. redeliver job =
        (if wj_attemptsMade job + 1 < wj_attempts job then Some (job\<lparr>wj_attemptsMade := wj_attemptsMade job + 1\<rparr>) else None))"

section \<open>Every dispatch ends\<close>

text \<open>The attempts that fail before the first success, from the \<open>m\<close>th on and before the \<open>n\<close>th.\<close>

definition failures :: "(nat \<Rightarrow> attempt_answer) \<Rightarrow> nat \<Rightarrow> nat \<Rightarrow> nat list" where
  "failures answers m n = takeWhile (\<lambda>k. \<not> post_success (aa_result (answers k))) [m..<n]"

lemma failures_Suc:
  "m < n \<Longrightarrow> failures answers m n = (if post_success (aa_result (answers m)) then [] else m # failures answers (Suc m) n)"
  by (simp add: failures_def upt_conv_Cons)

lemma failures_length: "length (failures answers m n) \<le> n - m"
  using length_takeWhile_le [of _ "[m..<n]"] by (simp add: failures_def)

text \<open>What the database is after a job whose first attempt was the \<open>m\<close>th, with \<open>f\<close> failures and \<open>n\<close> attempts at most.\<close>

definition job_ended :: "(nat \<Rightarrow> attempt_answer) \<Rightarrow> webhook_job \<Rightarrow> nat \<Rightarrow> delivery_db \<Rightarrow> delivery_db \<Rightarrow> posted list \<Rightarrow> bool" where
  "job_ended answers job m db db' posts \<longleftrightarrow>
     (let n = wj_attempts job; f = length (failures answers m n); delivered = (f < n - m);
          made = (if delivered then f + 1 else n - m)
      in length posts = made \<and>
         (\<exists>rows. dd_deliveries db' = dd_deliveries db @ rows \<and> map dr_attempt rows = [m..<m + made] \<and>
            list_all (\<lambda>r. dr_subscriptionId r = wj_subscriptionId job) rows \<and>
            map dr_outcome rows = map Some (replicate (made - 1) Retry @ [if delivered then Success else Dlq])) \<and>
         length (dd_dlq db') = length (dd_dlq db) + (if delivered then 0 else 1) \<and>
         dd_subscriptions db' = recordDispatchOutcome (dd_subscriptions db) (wj_subscriptionId job)
           (if delivered then Dispatch_success else Dispatch_dlq) (aa_completedAt (answers (m + made - 1))))"

lemma job_row_sel [simp]:
  "dr_attempt (job_row job a) = wj_attemptsMade job" "dr_subscriptionId (job_row job a) = wj_subscriptionId job"
  "dr_outcome (job_row job a) = Some (if post_success (aa_result a) then Success else if isLastAttempt job then Dlq else Retry)"
  by (simp_all add: job_row_def)

lemma last_attempt: "wj_attemptsMade job < wj_attempts job \<Longrightarrow> isLastAttempt job \<longleftrightarrow> wj_attempts job = Suc (wj_attemptsMade job)"
  by (auto simp: isLastAttempt_def attempt_limit_def)

lemma run_job_ends:
  assumes law: "queue_law redeliver" and key: "dl_decrypt lib (wj_encryptedSecret job) = Some secret"
  shows "wj_attemptsMade job < wj_attempts job \<Longrightarrow>
    \<exists>db' posts. run_job redeliver lib answers db job = Some (db', posts) \<and> job_ended answers job (wj_attemptsMade job) db db' posts"
  using key
proof (induction "wj_attempts job - wj_attemptsMade job" arbitrary: job db rule: less_induct)
  case less
  let ?m = "wj_attemptsMade job" and ?n = "wj_attempts job"
  let ?ok = "post_success (aa_result (answers ?m))"
  note run = run_job.simps [of redeliver lib answers db job] and law' = law [unfolded queue_law_def]
  note fs = failures_Suc [OF less.prems(1), of answers] and lst = last_attempt [OF less.prems(1)]
  consider (delivered) ?ok | (dead) "\<not> ?ok" "?n = Suc ?m" | (again) "\<not> ?ok" "Suc ?m < ?n"
    using less.prems(1) by (cases ?ok; cases "?n = Suc ?m") auto
  then show ?case
  proof cases
    case delivered
    then show ?thesis using less.prems run fs
      by (auto simp: process_job_def job_ended_def Let_def intro!: exI [of _ "[job_row job (answers ?m)]"])
  next
    case dead
    then show ?thesis using less.prems run fs lst law'
      by (auto simp: process_job_def job_ended_def Let_def failures_def intro!: exI [of _ "[job_row job (answers ?m)]"])
  next
    case again
    let ?job = "job\<lparr>wj_attemptsMade := Suc ?m\<rparr>"
    obtain db1 sent e where first: "process_job lib db job (answers ?m) = (db1, [sent], Job_failed e)"
        "db1 = db\<lparr>dd_deliveries := dd_deliveries db @ [job_row job (answers ?m)]\<rparr>"
      using again less.prems lst by (auto simp: process_job_def Let_def)
    have less_left: "?n - Suc ?m < ?n - ?m" using again(2) by linarith
    have "redeliver job = Some ?job" using law' again(2) by simp
    moreover obtain db2 posts where rest: "run_job redeliver lib answers db1 ?job = Some (db2, posts)"
        "job_ended answers ?job (Suc ?m) db1 db2 posts"
      using less.hyps [of ?job db1] less_left again(2) less.prems(2) by auto
    ultimately have "run_job redeliver lib answers db job = Some (db2, sent # posts)"
      using run first by simp
    moreover have "job_ended answers job ?m db db2 (sent # posts)"
    proof -
      define f where "f = length (failures answers (Suc ?m) ?n)"
      define made where "made = (if f < ?n - Suc ?m then f + 1 else ?n - Suc ?m)"
      have made: "0 < made" using again(2) by (simp add: made_def)
      have f: "length (failures answers ?m ?n) = Suc f" using fs again(1) by (simp add: f_def)
      obtain rows where rows: "dd_deliveries db2 = dd_deliveries db1 @ rows" "map dr_attempt rows = [Suc ?m..<Suc ?m + made]"
          "list_all (\<lambda>r. dr_subscriptionId r = wj_subscriptionId job) rows"
          "map dr_outcome rows = map Some (replicate (made - 1) Retry @ [if f < ?n - Suc ?m then Success else Dlq])"
        and ends: "length posts = made" "length (dd_dlq db2) = length (dd_dlq db) + (if f < ?n - Suc ?m then 0 else 1)"
          "dd_subscriptions db2 = recordDispatchOutcome (dd_subscriptions db) (wj_subscriptionId job)
             (if f < ?n - Suc ?m then Dispatch_success else Dispatch_dlq) (aa_completedAt (answers (Suc ?m + made - 1)))"
        using rest(2) first(2) by (auto simp: job_ended_def Let_def f_def made_def)
      have same: "(Suc f < ?n - ?m) = (f < ?n - Suc ?m)" "(if f < ?n - Suc ?m then Suc f + 1 else ?n - ?m) = Suc made"
        using again(2) by (auto simp: made_def)
      have "map dr_attempt (job_row job (answers ?m) # rows) = [?m..<?m + Suc made]"
        using rows(2) by (simp add: upt_conv_Cons)
      moreover have "map dr_outcome (job_row job (answers ?m) # rows) =
          map Some (replicate made Retry @ [if f < ?n - Suc ?m then Success else Dlq])"
        using rows(4) again lst made by (cases made) auto
      ultimately show ?thesis
        using rows(1,3) ends first(2) unfolding job_ended_def Let_def f same
        by (intro conjI exI [of _ "job_row job (answers ?m) # rows"]) auto
    qed
    ultimately show ?thesis by blast
  qed
qed

text \<open>
  C17. Whatever the subscribers' endpoints answer, a dispatched job ends, after at most five attempts: it leaves
  one row for each attempt, in order, all but the last to be retried; the last one tells the first
  success, or that all have failed, and then there is one dead letter more; and the subscriber's
  failure streak is reset or lengthened exactly once.
\<close>

theorem every_dispatch_ends:
  assumes "queue_law redeliver" and "job \<in> set (dispatchEvent accepts t topic d now)"
    and "dl_decrypt lib (wj_encryptedSecret job) = Some secret"
  shows "\<exists>db' posts. run_job redeliver lib answers db job = Some (db', posts) \<and> job_ended answers job 0 db db' posts \<and>
    1 \<le> length posts \<and> length posts \<le> MAX_ATTEMPTS_webhook"
proof -
  have job: "wj_attemptsMade job = 0" "wj_attempts job = MAX_ATTEMPTS_webhook"
    using assms(2) by (auto simp: dispatchEvent_def job_for_def)
  then have "wj_attemptsMade job < wj_attempts job" by (simp add: MAX_ATTEMPTS_webhook_def)
  then obtain db' posts where "run_job redeliver lib answers db job = Some (db', posts)" "job_ended answers job 0 db db' posts"
    using run_job_ends [OF assms(1,3), of answers db] job by auto
  then show ?thesis
    using job failures_length [of answers 0 MAX_ATTEMPTS_webhook]
    by (intro exI [of _ db'] exI [of _ posts]) (auto simp: job_ended_def Let_def MAX_ATTEMPTS_webhook_def)
qed

definition delivery_library0 :: delivery_library where
  "delivery_library0 = \<lparr>dl_decrypt = Some, dl_hmac = (\<lambda>key t. ''a1''), dl_stringify = (\<lambda>v. ''{}'')\<rparr>"

definition redeliver0 :: "webhook_job \<Rightarrow> webhook_job option" where
  "redeliver0 job = (if wj_attemptsMade job + 1 < wj_attempts job then Some (job\<lparr>wj_attemptsMade := wj_attemptsMade job + 1\<rparr>) else None)"

text \<open>A server error, a network error, then a success.\<close>

definition answers0 :: "nat \<Rightarrow> attempt_answer" where
  "answers0 k = \<lparr>aa_uuid = ''id'', aa_now = int k,
     aa_result = (if k = 0 then Response 500 ''oops'' else if k = 1 then Fetch_error ''timeout'' else Response 204 []),
     aa_completedAt = int k + 1\<rparr>"

definition deposit0 :: event_data where
  "deposit0 = \<lparr>ev_contractId = ''c'', ev_borrower = ''b'', ev_amount = ''7'', ev_ledger = 9\<rparr>"

definition job0 :: webhook_job where
  "job0 = job_for ''deposit'' deposit0 5 (''w1'', webhook0)"

theorem every_dispatch_ends_witness:
  "\<exists>db' posts. run_job redeliver0 delivery_library0 answers0 \<lparr>dd_subscriptions = [], dd_deliveries = [], dd_dlq = []\<rparr> job0 = Some (db', posts) \<and>
     length posts = 3 \<and> map dr_outcome (dd_deliveries db') = [Some Retry, Some Retry, Some Success] \<and> dd_dlq db' = []"
proof -
  let ?db = "\<lparr>dd_subscriptions = [], dd_deliveries = [], dd_dlq = []\<rparr>"
  have "queue_law redeliver0" by (simp add: queue_law_def redeliver0_def)
  moreover have "job0 \<in> set (dispatchEvent (\<lambda>_. True) [(''w1'', webhook0)] ''deposit'' deposit0 5)"
    by (simp add: dispatchEvent_def job0_def listens_def webhook0_def)
  moreover have "dl_decrypt delivery_library0 (wj_encryptedSecret job0) = Some ''old''"
    by (simp add: delivery_library0_def job0_def job_for_def webhook0_def)
  ultimately obtain db' posts where run: "run_job redeliver0 delivery_library0 answers0 ?db job0 = Some (db', posts)"
      "job_ended answers0 job0 0 ?db db' posts"
    using every_dispatch_ends by blast
  have "failures answers0 0 5 = [0, 1]"
    by (simp add: failures_def answers0_def post_success_def upt_rec)
  then show ?thesis using run
    by (intro exI [of _ db'] exI [of _ posts])
      (auto simp: job_ended_def job0_def job_for_def MAX_ATTEMPTS_webhook_def Let_def numeral_2_eq_2)
qed

section \<open>Disabling dead subscribers\<close>

definition stale_subscriber :: "nat \<Rightarrow> int \<Rightarrow> int \<Rightarrow> webhook_subscription \<Rightarrow> bool" where
  "stale_subscriber failureThreshold staleAfterMs now w \<longleftrightarrow>
     ws_status w = Active \<and> failureThreshold \<le> ws_consecutiveFailedDispatches w \<and>
     (case ws_failingSinceAt w of None \<Rightarrow> False | Some since \<Rightarrow> since \<le> now - staleAfterMs)"

definition auto_disable :: "subscriptions \<Rightarrow> string \<Rightarrow> int \<Rightarrow> subscriptions" where
  "auto_disable t k now =
     (case updateSubscriptionStatus t k Paused of
        None \<Rightarrow> t
      | Some t' \<Rightarrow> (case map_get t' k of None \<Rightarrow> t' | Some w \<Rightarrow> map_set t' k (w\<lparr>ws_autoDisabledAt := Some now\<rparr>)))"

definition runWebhookAutoDisableSweep :: "nat \<Rightarrow> int \<Rightarrow> subscriptions \<Rightarrow> int \<Rightarrow> subscriptions \<times> string list" where
  "runWebhookAutoDisableSweep failureThreshold staleAfterMs t now =
     (let stale = map fst (filter (\<lambda>(k, w). stale_subscriber failureThreshold staleAfterMs now w) t)
      in (foldl (\<lambda>t k. auto_disable t k now) t stale, stale))"

datatype subscriber_event =
    Ended string dispatch_outcome
  | Changed string subscription_status
  | Disable_sweep nat int

fun subscriber_step :: "subscriptions \<Rightarrow> subscriber_event \<times> int \<Rightarrow> subscriptions" where
  "subscriber_step t (Ended k outcome, now) = recordDispatchOutcome t k outcome now"
| "subscriber_step t (Changed k status, now) = or_else (updateSubscriptionStatus t k status) t"
| "subscriber_step t (Disable_sweep n stale, now) = fst (runWebhookAutoDisableSweep n stale t now)"

text \<open>The times of a subscriber's failed dispatches since its last success or activation.\<close>

fun streak_step :: "string \<Rightarrow> int list \<Rightarrow> subscriber_event \<times> int \<Rightarrow> int list" where
  "streak_step k ts (Ended j outcome, now) =
     (if j \<noteq> k then ts else if outcome = Dispatch_success then [] else ts @ [now])"
| "streak_step k ts (Changed j status, now) = (if j = k \<and> status = Active then [] else ts)"
| "streak_step k ts (Disable_sweep n stale, now) = ts"

definition endpoint_failures :: "string \<Rightarrow> (subscriber_event \<times> int) list \<Rightarrow> int list" where
  "endpoint_failures k es = foldl (streak_step k) [] es"

definition counts_streak :: "int list \<Rightarrow> webhook_subscription \<Rightarrow> bool" where
  "counts_streak ts w \<longleftrightarrow> ws_consecutiveFailedDispatches w = length ts \<and>
     ws_failingSinceAt w = (case ts of [] \<Rightarrow> None | s # _ \<Rightarrow> Some s)"

lemma auto_disable_get:
  "map_get (auto_disable t k now) j =
     (if j = k then map_option (\<lambda>w. w\<lparr>ws_status := Paused, ws_autoDisabledAt := Some now\<rparr>) (map_get t j) else map_get t j)"
  by (auto simp: auto_disable_def updateSubscriptionStatus_def Let_def split: option.split)

lemma auto_disable_wf: "wf_map t \<Longrightarrow> wf_map (auto_disable t k now)"
  by (auto simp: auto_disable_def updateSubscriptionStatus_def Let_def split: option.split)

lemma disable_all_get:
  "distinct ks \<Longrightarrow> map_get (foldl (\<lambda>t k. auto_disable t k now) t ks) j =
     (if j \<in> set ks then map_option (\<lambda>w. w\<lparr>ws_status := Paused, ws_autoDisabledAt := Some now\<rparr>) (map_get t j) else map_get t j)"
  by (induction ks arbitrary: t) (auto simp: auto_disable_get)

lemma disable_all_wf: "wf_map t \<Longrightarrow> wf_map (foldl (\<lambda>t k. auto_disable t k now) t ks)"
  by (induction ks arbitrary: t) (simp_all add: auto_disable_wf)

lemma stale_list:
  assumes "wf_map t"
  shows "distinct (snd (runWebhookAutoDisableSweep n stale t now)) \<and>
    (j \<in> set (snd (runWebhookAutoDisableSweep n stale t now)) \<longleftrightarrow> (\<exists>w. map_get t j = Some w \<and> stale_subscriber n stale now w))"
  using assms by (auto simp: runWebhookAutoDisableSweep_def Let_def wf_map_def distinct_map_filter image_iff
      dest: map_of_SomeD intro!: rev_bexI)

lemma sweep_get:
  assumes "wf_map t"
  shows "map_get (fst (runWebhookAutoDisableSweep n stale t now)) j =
    map_option (\<lambda>w. if stale_subscriber n stale now w then w\<lparr>ws_status := Paused, ws_autoDisabledAt := Some now\<rparr> else w) (map_get t j)"
  using stale_list [OF assms, of n stale now j]
  by (cases "map_get t j") (auto simp: runWebhookAutoDisableSweep_def Let_def disable_all_get)

lemma subscriber_step_wf: "wf_map t \<Longrightarrow> wf_map (subscriber_step t (e, now))"
  by (cases e) (simp_all add: recordDispatchOutcome_def updateSubscriptionStatus_def runWebhookAutoDisableSweep_def
      disable_all_wf Let_def split: option.split)

lemma counts_streak_step:
  assumes "wf_map t" "map_get t k = Some w" "counts_streak ts w"
  shows "\<exists>w'. map_get (subscriber_step t (e, now)) k = Some w' \<and> counts_streak (streak_step k ts (e, now)) w'"
proof (cases e)
  case (Ended j outcome)
  then show ?thesis using assms(2,3)
    by (cases "map_get t j"; cases ts; cases outcome) (auto simp: recordDispatchOutcome_def counts_streak_def)
next
  case (Changed j status)
  then show ?thesis using assms(2,3)
    by (auto simp: updateSubscriptionStatus_def counts_streak_def Let_def split: option.split)
next
  case (Disable_sweep n stale)
  then show ?thesis using assms(2,3) sweep_get [OF assms(1), of n stale now k] by (auto simp: counts_streak_def)
qed

lemma counts_streak_run:
  "wf_map t \<Longrightarrow> map_get t k = Some w \<Longrightarrow> counts_streak ts w \<Longrightarrow>
     wf_map (foldl subscriber_step t es) \<and>
     (\<exists>w'. map_get (foldl subscriber_step t es) k = Some w' \<and> counts_streak (foldl (streak_step k) ts es) w')"
proof (induction es arbitrary: t w ts)
  case Nil
  then show ?case by auto
next
  case (Cons e es)
  obtain x now where e: "e = (x, now)" by (cases e)
  obtain w' where "map_get (subscriber_step t e) k = Some w'" "counts_streak (streak_step k ts e) w'"
    using counts_streak_step [OF Cons.prems, of x now] e by auto
  with Cons.IH [OF subscriber_step_wf [OF Cons.prems(1), of x now, folded e]] show ?case by simp
qed

text \<open>
  After any dispatches, status changes and earlier sweeps, a sweep pauses exactly the active subscribers whose
  last dispatches all failed since their last success or activation, at least as many as the threshold and
  the first of them at least the configured time ago; it touches no other row.
\<close>

theorem disabled_by_real_streaks:
  assumes "wf_map t0" "map_get t0 k = Some w0" "ws_consecutiveFailedDispatches w0 = 0" "ws_failingSinceAt w0 = None"
    and "t = foldl subscriber_step t0 es" "runWebhookAutoDisableSweep n stale t now = (t', disabled)"
  shows "(k \<in> set disabled \<longleftrightarrow>
      (\<exists>w since later. map_get t k = Some w \<and> ws_status w = Active \<and> endpoint_failures k es = since # later \<and>
        n \<le> length (since # later) \<and> since \<le> now - stale)) \<and>
    map_get t' k = (if k \<in> set disabled then map_option (\<lambda>w. w\<lparr>ws_status := Paused, ws_autoDisabledAt := Some now\<rparr>) (map_get t k)
                    else map_get t k)"
proof -
  have "counts_streak [] w0" using assms(3,4) by (simp add: counts_streak_def)
  then obtain w where wf: "wf_map t" and w: "map_get t k = Some w" "counts_streak (endpoint_failures k es) w"
    using counts_streak_run [OF assms(1,2), of "[]" es] assms(5) unfolding endpoint_failures_def by auto
  have disabled: "t' = fst (runWebhookAutoDisableSweep n stale t now)" "disabled = snd (runWebhookAutoDisableSweep n stale t now)"
    using assms(6) by simp_all
  show ?thesis
    using w sweep_get [OF wf, of n stale now k] stale_list [OF wf, of n stale now k] unfolding disabled
    by (cases "endpoint_failures k es") (auto simp: counts_streak_def stale_subscriber_def)
qed

theorem disabled_by_real_streaks_witness:
  "snd (runWebhookAutoDisableSweep 2 100 (foldl subscriber_step [(''w1'', webhook0)]
     [(Ended ''w1'' Dispatch_dlq, 5), (Ended ''w1'' Dispatch_success, 6), (Ended ''w1'' Dispatch_dlq, 10),
      (Ended ''w1'' Dispatch_dlq, 90)]) 110) = [''w1'']"
  (is "snd (runWebhookAutoDisableSweep 2 100 ?t 110) = _")
proof -
  have keys: "map fst ?t = [''w1'']" and active: "\<exists>w. map_get ?t ''w1'' = Some w \<and> ws_status w = Active"
    by (simp_all add: recordDispatchOutcome_def webhook0_def)
  have "''w1'' \<in> set (snd (runWebhookAutoDisableSweep 2 100 ?t 110))"
    using disabled_by_real_streaks [of "[(''w1'', webhook0)]" "''w1''" webhook0 ?t _ 2 100 110, OF _ _ _ _ refl prod.collapse [symmetric]]
      active
    by (auto simp: webhook0_def endpoint_failures_def wf_map_def)
  moreover have "set (snd (runWebhookAutoDisableSweep 2 100 ?t 110)) \<subseteq> {''w1''} \<and> length (snd (runWebhookAutoDisableSweep 2 100 ?t 110)) \<le> 1"
    using keys length_filter_le [of _ ?t] unfolding runWebhookAutoDisableSweep_def
    by (auto simp: Let_def recordDispatchOutcome_def webhook0_def split: if_splits)
  ultimately show ?thesis by (cases "snd (runWebhookAutoDisableSweep 2 100 ?t 110)") auto
qed

section \<open>The direct loop\<close>

text \<open>
  \<open>retryClock\<close> and \<open>random\<close> give the clock and the random number of each scheduled retry; the wait itself has
  no effect on the tables.
\<close>

definition direct_row :: "string \<Rightarrow> event_topic \<Rightarrow> event_data \<Rightarrow> int \<Rightarrow> (nat \<Rightarrow> int) \<Rightarrow> (nat \<Rightarrow> rat) \<Rightarrow> nat \<Rightarrow> attempt_answer \<Rightarrow> delivery_row" where
  "direct_row k topic d dispatchedAt retryClock random n a =
     (let success = post_success (aa_result a); isTerminal = (success \<or> n = MAX_ATTEMPTS_webhook - 1)
      in \<lparr>dr_id = aa_uuid a, dr_subscriptionId = k, dr_topic = topic, dr_payload = payload_of a topic d,
          dr_statusCode = post_statusCode (aa_result a), dr_responseBody = post_responseBody (aa_result a),
          dr_error = post_error (aa_result a), dr_success = success, dr_attempt = n,
          dr_nextRetryAt = (if isTerminal then None else Some (retryClock n + backoffMs (random n) n)),
          dr_dispatchedAt = Some dispatchedAt, dr_completedAt = Some (aa_completedAt a),
          dr_outcome = Some (if success then Success else if isTerminal then Dlq else Retry)\<rparr>)"

function deliver_loop ::
    "delivery_library \<Rightarrow> string \<Rightarrow> string \<Rightarrow> string \<Rightarrow> event_topic \<Rightarrow> event_data \<Rightarrow> int \<Rightarrow> (nat \<Rightarrow> int) \<Rightarrow> (nat \<Rightarrow> rat) \<Rightarrow>
     (nat \<Rightarrow> attempt_answer) \<Rightarrow> nat \<Rightarrow> delivery_db \<Rightarrow> delivery_db \<times> posted list" where
  "deliver_loop lib k url secret topic d dispatchedAt retryClock random answers n db =
     (if n < MAX_ATTEMPTS_webhook
      then (let a = answers n;
                sent = post_of lib url secret a topic (JObj (payload_fields (payload_of a topic d)));
                db1 = db\<lparr>dd_deliveries := dd_deliveries db @ [direct_row k topic d dispatchedAt retryClock random n a]\<rparr>
            in if post_success (aa_result a) then (db1, [sent])
               else if n = MAX_ATTEMPTS_webhook - 1
               then (db1\<lparr>dd_dlq := dd_dlq db @ [dead_letter url (payload_of a topic d) (aa_result a)]\<rparr>, [sent])
               else (case deliver_loop lib k url secret topic d dispatchedAt retryClock random answers (n + 1) db1 of
                       (db2, posts) \<Rightarrow> (db2, sent # posts)))
      else (db, []))"
  by pat_completeness auto

termination
  by (relation "measure (\<lambda>(lib, k, url, secret, topic, d, dispatchedAt, retryClock, random, answers, n, db). MAX_ATTEMPTS_webhook - n)") auto

declare deliver_loop.simps [simp del]

definition deliverToSubscription ::
    "delivery_library \<Rightarrow> delivery_db \<Rightarrow> string \<Rightarrow> string \<Rightarrow> string \<Rightarrow> event_topic \<Rightarrow> event_data \<Rightarrow> int \<Rightarrow> (nat \<Rightarrow> int) \<Rightarrow> (nat \<Rightarrow> rat) \<Rightarrow>
     (nat \<Rightarrow> attempt_answer) \<Rightarrow> (delivery_db \<times> posted list) option" where
  "deliverToSubscription lib db k url encryptedSecret topic d dispatchedAt retryClock random answers =
     (case dl_decrypt lib encryptedSecret of
        None \<Rightarrow> None
      | Some secret \<Rightarrow> Some (deliver_loop lib k url secret topic d dispatchedAt retryClock random answers 0 db))"

text \<open>The two ways write the same rows, but for the time of the next retry, which the queue keeps itself, and the same dead letter.\<close>

definition forget_retry :: "delivery_row \<Rightarrow> delivery_row" where
  "forget_retry r = r\<lparr>dr_nextRetryAt := None\<rparr>"

lemma forget_direct_row:
  "wj_subscriptionId job = k \<Longrightarrow> wj_topic job = topic \<Longrightarrow> wj_data job = d \<Longrightarrow> wj_timestamp job = dispatchedAt \<Longrightarrow>
     wj_attemptsMade job = n \<Longrightarrow> wj_attempts job = MAX_ATTEMPTS_webhook \<Longrightarrow> n < MAX_ATTEMPTS_webhook \<Longrightarrow>
     forget_retry (direct_row k topic d dispatchedAt retryClock random n a) = forget_retry (job_row job a)"
  by (auto simp: forget_retry_def direct_row_def job_row_def job_payload_def Let_def isLastAttempt_def attempt_limit_def
      MAX_ATTEMPTS_webhook_def)

lemma deliver_loop_as_job:
  assumes law: "queue_law redeliver" and key: "dl_decrypt lib (wj_encryptedSecret job) = Some secret"
    and job: "wj_attempts job = MAX_ATTEMPTS_webhook" "wj_attemptsMade job < MAX_ATTEMPTS_webhook"
    and run: "run_job redeliver lib answers db job = Some (db', posts)"
    and start: "map forget_retry (dd_deliveries e) = map forget_retry (dd_deliveries db)" "dd_dlq e = dd_dlq db"
  shows "let e' = fst (deliver_loop lib (wj_subscriptionId job) (wj_url job) secret (wj_topic job) (wj_data job) (wj_timestamp job)
      retryClock random answers (wj_attemptsMade job) e)
    in map forget_retry (dd_deliveries e') = map forget_retry (dd_deliveries db') \<and> dd_dlq e' = dd_dlq db'"
  using key job run start
proof (induction "MAX_ATTEMPTS_webhook - wj_attemptsMade job" arbitrary: job db e posts rule: less_induct)
  case less
  let ?m = "wj_attemptsMade job" and ?a = "answers (wj_attemptsMade job)"
  let ?loop = "deliver_loop lib (wj_subscriptionId job) (wj_url job) secret (wj_topic job) (wj_data job) (wj_timestamp job)
      retryClock random answers"
  let ?row = "direct_row (wj_subscriptionId job) (wj_topic job) (wj_data job) (wj_timestamp job) retryClock random ?m ?a"
  let ?db = "db\<lparr>dd_deliveries := dd_deliveries db @ [job_row job ?a]\<rparr>" and ?e = "e\<lparr>dd_deliveries := dd_deliveries e @ [?row]\<rparr>"
  let ?job = "job\<lparr>wj_attemptsMade := Suc ?m\<rparr>"
  note run = run_job.simps [of redeliver lib answers db job] and loop = deliver_loop.simps [of lib "wj_subscriptionId job"
      "wj_url job" secret "wj_topic job" "wj_data job" "wj_timestamp job" retryClock random answers ?m e]
  have row: "forget_retry ?row = forget_retry (job_row job ?a)" using less.prems(2,3) by (intro forget_direct_row) auto
  have lst: "isLastAttempt job \<longleftrightarrow> ?m = MAX_ATTEMPTS_webhook - 1"
    using less.prems(2,3) by (auto simp: isLastAttempt_def attempt_limit_def MAX_ATTEMPTS_webhook_def)
  have law': "redeliver job = (if Suc ?m < MAX_ATTEMPTS_webhook then Some ?job else None)"
    using law less.prems(2) by (simp add: queue_law_def)
  show ?case
  proof (cases "post_success (aa_result ?a) \<or> ?m = MAX_ATTEMPTS_webhook - 1")
    case True
    then show ?thesis using less.prems run loop row lst law'
      by (auto simp: process_job_def Let_def dead_letter_def job_payload_def)
  next
    case False
    then have more: "Suc ?m < MAX_ATTEMPTS_webhook" using less.prems(3) by auto
    then obtain posts2 where rest: "run_job redeliver lib answers ?db ?job = Some (db', posts2)"
      using False less.prems run lst law' by (auto simp: process_job_def Let_def bind_eq_Some_conv)
    have "?loop ?m e = (case ?loop (Suc ?m) ?e of (e2, p2) \<Rightarrow> (e2, post_of lib (wj_url job) secret ?a (wj_topic job)
        (JObj (payload_fields (payload_of ?a (wj_topic job) (wj_data job)))) # p2))"
      using loop False less.prems(3) by (simp add: Let_def)
    then have "fst (?loop ?m e) = fst (?loop (Suc ?m) ?e)" by (simp split: prod.split)
    then show ?thesis
      using less.hyps [of ?job ?db posts2 ?e] more less.prems rest row by (simp add: Let_def)
  qed
qed

lemma direct_delivery_as_queued:
  assumes "queue_law redeliver" and "dl_decrypt lib (ws_secret w) = Some secret"
    and "run_job redeliver lib answers db (job_for topic d now (k, w)) = Some (db', posts)"
    and "deliverToSubscription lib db k (ws_url w) (ws_secret w) topic d now retryClock random answers = Some (e', sent)"
  shows "map forget_retry (dd_deliveries e') = map forget_retry (dd_deliveries db') \<and> dd_dlq e' = dd_dlq db'"
  using deliver_loop_as_job [OF assms(1) _ _ _ assms(3), of secret db retryClock random] assms(2,4)
  by (simp add: job_for_def deliverToSubscription_def MAX_ATTEMPTS_webhook_def Let_def)

end
