(* ===== verification/WebhookReplay.thy ===== *)
theory WebhookReplay
  imports WebhookDelivery
begin

text \<open>
  Replays of past webhook deliveries: one delivery (\<open>replayDelivery\<close>) and the one-off \<open>sendWebhook\<close> of
  \<^verbatim>\<open>backend/src/services/webhook.ts\<close>, and a whole window of time, \<^verbatim>\<open>backend/src/services/webhookReplayWindow.ts\<close>.
  The cache that counts the requests is a map with expiry times, or unreachable; the creation times of the delivery
  rows, which the database sets, are an argument. The audit entry of a window replay and log lines are left out. The
  lemmas bound the requests of a subscriber in any hour.
\<close>

section \<open>One delivery\<close>

datatype replay_error = Delivery_not_found | Subscription_revoked | Decrypt_failed

record replay_answer =
  ra_deliveryId :: string
  ra_success :: bool
  ra_attempt :: nat
  ra_statusCode :: "int option"
  ra_error :: "string option"

text \<open>
  The foreign key of a delivery row gives its subscription. The new row leaves \<open>dispatchedAt\<close>, \<open>completedAt\<close> and
  \<open>outcome\<close> empty.
\<close>

definition replay_row :: "delivery_row \<Rightarrow> attempt_answer \<Rightarrow> delivery_row" where
  "replay_row original a =
     \<lparr>dr_id = aa_uuid a, dr_subscriptionId = dr_subscriptionId original, dr_topic = dr_topic original,
      dr_payload = (dr_payload original)\<lparr>wp_deliveryId := aa_uuid a, wp_timestamp := aa_now a\<rparr>,
      dr_statusCode = post_statusCode (aa_result a), dr_responseBody = post_responseBody (aa_result a),
      dr_error = post_error (aa_result a), dr_success = post_success (aa_result a), dr_attempt = dr_attempt original + 1,
      dr_nextRetryAt = None, dr_dispatchedAt = None, dr_completedAt = None, dr_outcome = None\<rparr>"

definition replayDelivery ::
    "delivery_library \<Rightarrow> delivery_db \<Rightarrow> string \<Rightarrow> attempt_answer \<Rightarrow> replay_error + (delivery_db \<times> posted \<times> replay_answer)" where
  "replayDelivery lib db deliveryId a =
     (case find (\<lambda>r. dr_id r = deliveryId) (dd_deliveries db) of
        None \<Rightarrow> Inl Delivery_not_found
      | Some original \<Rightarrow>
          (case map_get (dd_subscriptions db) (dr_subscriptionId original) of
             None \<Rightarrow> Inl Delivery_not_found
           | Some sub \<Rightarrow>
               if ws_status sub = Revoked then Inl Subscription_revoked
               else (case dl_decrypt lib (ws_secret sub) of
                  None \<Rightarrow> Inl Decrypt_failed
                | Some secret \<Rightarrow>
                    (let row = replay_row original a
                     in Inr (db\<lparr>dd_deliveries := dd_deliveries db @ [row]\<rparr>,
                             post_of lib (ws_url sub) secret a (dr_topic original) (JObj (payload_fields (dr_payload row))),
                             \<lparr>ra_deliveryId = aa_uuid a, ra_success = dr_success row, ra_attempt = dr_attempt row,
                              ra_statusCode = dr_statusCode row, ra_error = dr_error row\<rparr>)))))"

record webhook_result =
  wr_success :: bool
  wr_httpStatus :: "int option"
  wr_responsePayload :: "string option"
  wr_error :: "string option"

text \<open>The text that is signed and sent, its signature, and the answer.\<close>

definition sendWebhook ::
    "(string \<Rightarrow> string \<Rightarrow> string) \<Rightarrow> (js_value \<Rightarrow> string) \<Rightarrow> string \<Rightarrow> js_value \<Rightarrow> int \<Rightarrow> post_result \<Rightarrow> string \<times> string \<times> webhook_result" where
  "sendWebhook hmac stringify webhookSecret payload now result =
     (let body = stringify payload; signature = signPayload hmac webhookSecret (show_int now) body
      in (body, signature,
          case result of
            Fetch_error e \<Rightarrow> \<lparr>wr_success = False, wr_httpStatus = None, wr_responsePayload = None, wr_error = Some e\<rparr>
          | Response code raw \<Rightarrow>
              \<lparr>wr_success = \<not> (code < 200 \<or> 300 \<le> code), wr_httpStatus = Some code,
               wr_responsePayload = Some (take MAX_RESPONSE_BODY_BYTES raw), wr_error = None\<rparr>))"

section \<open>A window of time\<close>

definition MAX_REPLAY_WINDOW_MS :: int where
  "MAX_REPLAY_WINDOW_MS = 24 * 60 * 60 * 1000"

definition REPLAY_RATE_LIMIT :: nat where
  "REPLAY_RATE_LIMIT = 5"

definition REPLAY_RATE_LIMIT_WINDOW_SECONDS :: int where
  "REPLAY_RATE_LIMIT_WINDOW_SECONDS = 3600"

definition MAX_DELIVERIES_PER_REPLAY :: nat where
  "MAX_DELIVERIES_PER_REPLAY = 500"

record replay_request =
  rq_subscriptionId :: string
  rq_from :: int
  rq_to :: int
  rq_topics :: "event_topic list option"

text \<open>A number with the time it expires, by key; the unreachable cache answers that it has nothing and forgets.\<close>

type_synonym rate_cache = "(string, nat \<times> int) js_map option"

definition getCacheValue :: "rate_cache \<Rightarrow> string \<Rightarrow> int \<Rightarrow> nat option" where
  "getCacheValue cache key now =
     (case cache of
        None \<Rightarrow> None
      | Some m \<Rightarrow> (case map_get m key of None \<Rightarrow> None | Some (n, expires) \<Rightarrow> if now < expires then Some n else None))"

definition setCacheValue :: "rate_cache \<Rightarrow> string \<Rightarrow> nat \<Rightarrow> int \<Rightarrow> int \<Rightarrow> rate_cache" where
  "setCacheValue cache key n ttlSeconds now =
     (case cache of None \<Rightarrow> None | Some m \<Rightarrow> Some (map_set m key (n, now + ttlSeconds * 1000)))"

definition rateLimitKey :: "string \<Rightarrow> string" where
  "rateLimitKey subscriptionId = ''replay_rate:'' @ subscriptionId"

text \<open>The cache afterwards, whether the request is allowed, and how many remain.\<close>

definition checkAndIncrementRateLimit :: "rate_cache \<Rightarrow> string \<Rightarrow> int \<Rightarrow> rate_cache \<times> bool \<times> nat" where
  "checkAndIncrementRateLimit cache subscriptionId now =
     (let key = rateLimitKey subscriptionId; current = or_else (getCacheValue cache key now) 0
      in if REPLAY_RATE_LIMIT \<le> current then (cache, False, 0)
         else (setCacheValue cache key (current + 1) REPLAY_RATE_LIMIT_WINDOW_SECONDS now, True, REPLAY_RATE_LIMIT - current - 1))"

datatype window_error = Empty_window | Window_too_long | Rate_limited

record replay_job =
  rj_job :: webhook_job
  rj_replayOf :: string
  rj_replayRequestId :: string
  rj_priority :: nat

record replay_result =
  rr_requestId :: string
  rr_queued :: nat
  rr_skipped :: nat
  rr_cappedAt :: "nat option"

definition in_window :: "(delivery_row \<Rightarrow> int) \<Rightarrow> replay_request \<Rightarrow> delivery_row \<Rightarrow> bool" where
  "in_window createdAt req r \<longleftrightarrow>
     dr_subscriptionId r = rq_subscriptionId req \<and> rq_from req \<le> createdAt r \<and> createdAt r \<le> rq_to req \<and>
     (case rq_topics req of None \<Rightarrow> True | Some ts \<Rightarrow> 0 < length ts \<longrightarrow> dr_topic r \<in> set ts)"

definition window_deliveries :: "(delivery_row \<Rightarrow> int) \<Rightarrow> delivery_db \<Rightarrow> replay_request \<Rightarrow> delivery_row list" where
  "window_deliveries createdAt db req =
     take MAX_DELIVERIES_PER_REPLAY (sort_key createdAt (filter (in_window createdAt req) (dd_deliveries db)))"

text \<open>The job of one delivery, with the queue's default of five attempts; none for a revoked subscription.\<close>

definition replay_job_of :: "delivery_db \<Rightarrow> string \<Rightarrow> int \<Rightarrow> delivery_row \<Rightarrow> replay_job option" where
  "replay_job_of db requestId now r =
     (case map_get (dd_subscriptions db) (dr_subscriptionId r) of
        None \<Rightarrow> None
      | Some sub \<Rightarrow>
          if ws_status sub = Revoked then None
          else Some \<lparr>rj_job = (job_for (dr_topic r) (wp_data (dr_payload r)) now (dr_subscriptionId r, sub))\<lparr>wj_attempts := 5\<rparr>,
                     rj_replayOf = dr_id r, rj_replayRequestId = requestId, rj_priority = 10\<rparr>)"

text \<open>
  Adding a job to the queue answers with nothing, and throws nothing, when the queue refuses it: \<open>accepts\<close> tells
  which jobs arrive, while the result counts them all.
\<close>

definition replayEventWindow ::
    "(delivery_row \<Rightarrow> int) \<Rightarrow> (replay_job \<Rightarrow> bool) \<Rightarrow> rate_cache \<Rightarrow> delivery_db \<Rightarrow> replay_request \<Rightarrow> string \<Rightarrow> int \<Rightarrow>
     rate_cache \<times> (window_error + (replay_job list \<times> replay_result))" where
  "replayEventWindow createdAt accepts cache db req requestId now =
     (let windowMs = rq_to req - rq_from req
      in if windowMs \<le> 0 then (cache, Inl Empty_window)
         else if MAX_REPLAY_WINDOW_MS < windowMs then (cache, Inl Window_too_long)
         else (case checkAndIncrementRateLimit cache (rq_subscriptionId req) now of
           (cache', allowed, _) \<Rightarrow>
             if \<not> allowed then (cache', Inl Rate_limited)
             else (let deliveries = window_deliveries createdAt db req;
                       jobs = List.map_filter (replay_job_of db requestId now) deliveries
                   in (cache', Inr (filter accepts jobs,
                        \<lparr>rr_requestId = requestId, rr_queued = length jobs, rr_skipped = length deliveries - length jobs,
                         rr_cappedAt = (if length deliveries = MAX_DELIVERIES_PER_REPLAY then Some MAX_DELIVERIES_PER_REPLAY
                                        else None)\<rparr>)))))"

section \<open>What a window replay puts on the queue\<close>

lemma map_filter_length: "length (List.map_filter f xs) \<le> length xs"
  unfolding List.map_filter_def by simp

lemma map_filter_member: "y \<in> set (List.map_filter f xs) \<longleftrightarrow> (\<exists>x\<in>set xs. f x = Some y)"
  by (auto simp: List.map_filter_def image_iff intro: rev_bexI)

text \<open>Every job on the queue repeats a delivery of the requester's own in the window, under its current key and address.\<close>

lemma replays_own_deliveries:
  assumes "replayEventWindow createdAt accepts cache db req requestId now = (cache', Inr (jobs, result))" "j \<in> set jobs"
  shows "\<exists>r sub. r \<in> set (dd_deliveries db) \<and> in_window createdAt req r \<and> rj_replayOf j = dr_id r \<and>
    map_get (dd_subscriptions db) (rq_subscriptionId req) = Some sub \<and> ws_status sub \<noteq> Revoked \<and>
    wj_subscriptionId (rj_job j) = rq_subscriptionId req \<and> wj_url (rj_job j) = ws_url sub \<and>
    wj_encryptedSecret (rj_job j) = ws_secret sub \<and> wj_data (rj_job j) = wp_data (dr_payload r)"
proof -
  have "j \<in> set (List.map_filter (replay_job_of db requestId now) (window_deliveries createdAt db req))"
    using assms by (auto simp: replayEventWindow_def Let_def split: if_splits prod.splits)
  then obtain r where r: "r \<in> set (window_deliveries createdAt db req)" "replay_job_of db requestId now r = Some j"
    by (auto simp: map_filter_member)
  from r(1) have "r \<in> set (dd_deliveries db) \<and> in_window createdAt req r"
    by (auto simp: window_deliveries_def dest: in_set_takeD)
  then show ?thesis using r(2)
    by (intro exI [of _ r]) (auto simp: replay_job_of_def job_for_def in_window_def split: option.splits if_splits)
qed

section \<open>Requests in an hour\<close>

definition HOUR :: int where
  "HOUR = REPLAY_RATE_LIMIT_WINDOW_SECONDS * 1000"

text \<open>One request against the tables of its time; the log keeps who was served, when, and how many jobs it queued.\<close>

type_synonym replay_event = "(delivery_row \<Rightarrow> int) \<times> (replay_job \<Rightarrow> bool) \<times> delivery_db \<times> replay_request \<times> string \<times> int"

fun replay_step :: "rate_cache \<times> (string \<times> int \<times> nat) list \<Rightarrow> replay_event \<Rightarrow> rate_cache \<times> (string \<times> int \<times> nat) list" where
  "replay_step (cache, served) (createdAt, accepts, db, req, requestId, now) =
     (case replayEventWindow createdAt accepts cache db req requestId now of
        (cache', Inl _) \<Rightarrow> (cache', served)
      | (cache', Inr (jobs, _)) \<Rightarrow> (cache', served @ [(rq_subscriptionId req, now, length jobs)]))"

definition event_time :: "replay_event \<Rightarrow> int" where
  "event_time e = (case e of (createdAt, accepts, db, req, requestId, now) \<Rightarrow> now)"

definition served_in :: "string \<Rightarrow> int \<Rightarrow> int \<Rightarrow> (string \<times> int \<times> nat) list \<Rightarrow> (string \<times> int \<times> nat) list" where
  "served_in k a b served = filter (\<lambda>(j, x, n). j = k \<and> a < x \<and> x \<le> b) served"

definition times_of :: "string \<Rightarrow> (string \<times> int \<times> nat) list \<Rightarrow> int list" where
  "times_of k served = map (\<lambda>(j, x, n). x) (filter (\<lambda>(j, x, n). j = k) served)"

text \<open>
  The counter of a subscription was last raised when its latest request was served, and is at least the number of
  requests served in the hour before.
\<close>

definition rate_ok :: "int \<Rightarrow> (nat \<times> int) option \<Rightarrow> int list \<Rightarrow> bool" where
  "rate_ok now entry xs \<longleftrightarrow>
     (\<forall>t. length (filter (\<lambda>x. t - HOUR < x \<and> x \<le> t) xs) \<le> REPLAY_RATE_LIMIT) \<and>
     (xs = [] \<or>
      (\<exists>c latest. entry = Some (c, latest + HOUR) \<and> latest \<le> now \<and>
         (\<forall>x\<in>set xs. x \<le> latest) \<and> length (filter (\<lambda>x. latest - HOUR < x) xs) \<le> c))"

lemma HOUR_pos [simp]: "0 < HOUR"
  by (simp add: HOUR_def REPLAY_RATE_LIMIT_WINDOW_SECONDS_def)

lemma rate_key_inj [simp]: "rateLimitKey j = rateLimitKey k \<longleftrightarrow> j = k"
  by (simp add: rateLimitKey_def)

lemma served_in_times: "length (served_in k a b served) = length (filter (\<lambda>x. a < x \<and> x \<le> b) (times_of k served))"
  by (induction served) (auto simp: served_in_def times_of_def)

lemma filter_length_mono: "(\<And>x. x \<in> set xs \<Longrightarrow> P x \<Longrightarrow> Q x) \<Longrightarrow> length (filter P xs) \<le> length (filter Q xs)"
  by (induction xs) auto

text \<open>A request that was allowed raises the counter of its subscription.\<close>

lemma window_served:
  assumes "replayEventWindow createdAt accepts (Some m) db req requestId now = (cache', Inr (jobs, result))"
  shows "length jobs \<le> MAX_DELIVERIES_PER_REPLAY \<and>
    (let c = or_else (getCacheValue (Some m) (rateLimitKey (rq_subscriptionId req)) now) 0
     in c < REPLAY_RATE_LIMIT \<and> cache' = Some (map_set m (rateLimitKey (rq_subscriptionId req)) (c + 1, now + HOUR)))"
proof -
  let ?d = "window_deliveries createdAt db req" and ?f = "replay_job_of db requestId now"
  have "length ?d \<le> MAX_DELIVERIES_PER_REPLAY" by (simp add: window_deliveries_def)
  then have "length (filter accepts (List.map_filter ?f ?d)) \<le> MAX_DELIVERIES_PER_REPLAY"
    using map_filter_length [of ?f ?d] length_filter_le [of accepts "List.map_filter ?f ?d"] by linarith
  then show ?thesis using assms
    by (auto simp: replayEventWindow_def checkAndIncrementRateLimit_def setCacheValue_def Let_def HOUR_def
        split: if_splits prod.splits)
qed

lemma window_refused:
  assumes "replayEventWindow createdAt accepts (Some m) db req requestId now = (cache', Inl e)"
  shows "cache' = Some m"
  using assms by (auto simp: replayEventWindow_def checkAndIncrementRateLimit_def Let_def split: if_splits)

lemma rate_ok_later: "rate_ok before entry xs \<Longrightarrow> before \<le> now \<Longrightarrow> rate_ok now entry xs"
  unfolding rate_ok_def by force

lemma rate_ok_serve:
  assumes ok: "rate_ok before (map_get m key) xs" and "before \<le> now"
    and c: "c = or_else (getCacheValue (Some m) key now) 0" "c < REPLAY_RATE_LIMIT"
  shows "rate_ok now (Some (c + 1, now + HOUR)) (xs @ [now])"
proof -
  have past: "x \<le> now" if "x \<in> set xs" for x using ok assms(2) that unfolding rate_ok_def by fastforce
  have recent: "length (filter (\<lambda>x. now - HOUR < x) xs) \<le> c"
  proof (cases "xs = []")
    case False
    with ok obtain c' latest where entry: "map_get m key = Some (c', latest + HOUR)" "latest \<le> before"
      and latest: "\<forall>x\<in>set xs. x \<le> latest" "length (filter (\<lambda>x. latest - HOUR < x) xs) \<le> c'"
      unfolding rate_ok_def by auto
    show ?thesis
    proof (cases "now < latest + HOUR")
      case True
      then have "c = c'" using entry c(1) by (simp add: getCacheValue_def)
      moreover have "length (filter (\<lambda>x. now - HOUR < x) xs) \<le> length (filter (\<lambda>x. latest - HOUR < x) xs)"
        using entry(2) assms(2) by (intro filter_length_mono) simp
      ultimately show ?thesis using latest(2) by simp
    next
      case False
      then have "filter (\<lambda>x. now - HOUR < x) xs = []" using latest(1) by (fastforce simp: filter_empty_conv)
      then show ?thesis by simp
    qed
  qed simp
  have "length (filter (\<lambda>x. t - HOUR < x \<and> x \<le> t) (xs @ [now])) \<le> REPLAY_RATE_LIMIT" for t
  proof (cases "t - HOUR < now \<and> now \<le> t")
    case True
    then have "length (filter (\<lambda>x. t - HOUR < x \<and> x \<le> t) xs) \<le> length (filter (\<lambda>x. now - HOUR < x) xs)"
      by (intro filter_length_mono) simp
    then show ?thesis using recent c(2) True by simp
  next
    case False
    then show ?thesis using ok unfolding rate_ok_def by auto
  qed
  then show ?thesis using past recent unfolding rate_ok_def by simp
qed

lemma sum_list_each: "\<forall>e\<in>set es. snd (snd e) \<le> b \<Longrightarrow> sum_list (map (\<lambda>(j, x, n). n) es) \<le> length es * (b :: nat)"
  by (induction es) auto

definition all_rates_ok :: "int \<Rightarrow> (string, nat \<times> int) js_map \<Rightarrow> (string \<times> int \<times> nat) list \<Rightarrow> bool" where
  "all_rates_ok now m served \<longleftrightarrow> (\<forall>k. rate_ok now (map_get m (rateLimitKey k)) (times_of k served)) \<and>
     (\<forall>e\<in>set served. snd (snd e) \<le> MAX_DELIVERIES_PER_REPLAY)"

lemma rates_step:
  assumes ok: "all_rates_ok before m served" and later: "before \<le> event_time e"
  shows "\<exists>m' served'. replay_step (Some m, served) e = (Some m', served') \<and> all_rates_ok (event_time e) m' served'"
proof -
  obtain createdAt accepts db req requestId now where e: "e = (createdAt, accepts, db, req, requestId, now)" by (cases e)
  then have now: "event_time e = now" "before \<le> now" using later by (simp_all add: event_time_def)
  let ?r = "replayEventWindow createdAt accepts (Some m) db req requestId now"
  show ?thesis
  proof (cases "snd ?r")
    case (Inl err)
    then have r: "?r = (fst ?r, Inl err)" by (metis prod.collapse)
    with window_refused [OF r] show ?thesis
      using ok rate_ok_later [OF _ now(2)] unfolding e now [unfolded e] all_rates_ok_def by fastforce
  next
    case (Inr p)
    then obtain cache' jobs result where r: "?r = (cache', Inr (jobs, result))" by (metis prod.collapse)
    let ?j = "rq_subscriptionId req"
    let ?c = "or_else (getCacheValue (Some m) (rateLimitKey ?j) now) 0"
    have served: "length jobs \<le> MAX_DELIVERIES_PER_REPLAY" "?c < REPLAY_RATE_LIMIT"
      "cache' = Some (map_set m (rateLimitKey ?j) (?c + 1, now + HOUR))"
      using window_served [OF r] by (simp_all add: Let_def)
    have "rate_ok now (map_get (map_set m (rateLimitKey ?j) (?c + 1, now + HOUR)) (rateLimitKey k))
        (times_of k (served @ [(?j, now, length jobs)]))" for k
      using rate_ok_serve [OF _ now(2) refl served(2), of "times_of ?j served"] rate_ok_later [OF _ now(2)] ok
      by (simp add: all_rates_ok_def times_of_def)
    then show ?thesis using ok served(1,3) r unfolding e now [unfolded e] by (auto simp: all_rates_ok_def)
  qed
qed

lemma rates_run:
  "all_rates_ok before m served \<Longrightarrow> sorted (before # map event_time es) \<Longrightarrow>
     \<exists>now m' served'. foldl replay_step (Some m, served) es = (Some m', served') \<and> all_rates_ok now m' served'"
proof (induction es arbitrary: before m served)
  case Nil
  then show ?case by auto
next
  case (Cons e es)
  from Cons.prems have "before \<le> event_time e" by simp
  with rates_step [OF Cons.prems(1)] obtain m' served' where
    "replay_step (Some m, served) e = (Some m', served')" "all_rates_ok (event_time e) m' served'" by blast
  with Cons.IH [OF this(2)] Cons.prems(2) show ?case by simp
qed

text \<open>
  While the cache answers and the clock does not run backwards, a subscription is served at most five replay
  windows in any hour, which put at most five times 500 jobs on the delivery queue.
\<close>

theorem replays_bounded_per_hour:
  assumes "sorted (map event_time es)" "foldl replay_step (Some [], []) es = (cache, served)"
  shows "length (served_in k (t - HOUR) t served) \<le> REPLAY_RATE_LIMIT \<and>
    sum_list (map (\<lambda>(j, x, n). n) (served_in k (t - HOUR) t served)) \<le> REPLAY_RATE_LIMIT * MAX_DELIVERIES_PER_REPLAY"
proof -
  have "all_rates_ok (case es of [] \<Rightarrow> 0 | e # _ \<Rightarrow> event_time e) [] []" by (simp add: all_rates_ok_def rate_ok_def times_of_def)
  from rates_run [OF this, of es] assms obtain now m where ok: "all_rates_ok now m served" by (cases es) auto
  let ?in = "served_in k (t - HOUR) t served"
  have count: "length ?in \<le> REPLAY_RATE_LIMIT"
    using ok unfolding all_rates_ok_def rate_ok_def served_in_times by blast
  have "\<forall>e\<in>set ?in. snd (snd e) \<le> MAX_DELIVERIES_PER_REPLAY" using ok by (simp add: all_rates_ok_def served_in_def)
  then have "sum_list (map (\<lambda>(j, x, n). n) ?in) \<le> length ?in * MAX_DELIVERIES_PER_REPLAY"
    by (rule sum_list_each)
  then show ?thesis using count mult_le_mono1 [OF count, of MAX_DELIVERIES_PER_REPLAY] by linarith
qed

definition replay_db0 :: delivery_db where
  "replay_db0 = \<lparr>dd_subscriptions = [(''w1'', webhook0)], dd_deliveries = [job_row (job_for ''repay'' deposit0 3 (''w1'', webhook0)) (answers0 0)],
     dd_dlq = []\<rparr>"

definition replay_event0 :: "int \<Rightarrow> replay_event" where
  "replay_event0 now = (\<lambda>_. 4, \<lambda>_. True, replay_db0, \<lparr>rq_subscriptionId = ''w1'', rq_from = 0, rq_to = 9, rq_topics = None\<rparr>, ''r'', now)"

lemma replay_event0_time: "event_time (replay_event0 now) = now"
  by (simp add: replay_event0_def event_time_def)

lemma replay_event0_step:
  "replay_step (Some m, served) (replay_event0 now) =
     (if or_else (getCacheValue (Some m) ''replay_rate:w1'' now) 0 < 5
      then (Some (map_set m ''replay_rate:w1'' (or_else (getCacheValue (Some m) ''replay_rate:w1'' now) 0 + 1, now + HOUR)),
            served @ [(''w1'', now, 1)])
      else (Some m, served))"
  by (simp add: replay_event0_def replay_db0_def replayEventWindow_def MAX_REPLAY_WINDOW_MS_def checkAndIncrementRateLimit_def
      rateLimitKey_def REPLAY_RATE_LIMIT_def setCacheValue_def window_deliveries_def MAX_DELIVERIES_PER_REPLAY_def in_window_def
      job_for_def replay_job_of_def webhook0_def List.map_filter_def HOUR_def Let_def job_row_def)

theorem replays_bounded_per_hour_witness:
  "sum_list (map (\<lambda>(j, x, n). n) (served_in ''w1'' (20 - HOUR) 20
     (snd (foldl replay_step (Some [], []) (map replay_event0 [10, 11, 12, 13, 14, 15]))))) = 5 \<and>
   length (served_in ''w1'' (20 - HOUR) 20 (snd (foldl replay_step (Some [], []) (map replay_event0 [10, 11, 12, 13, 14, 15])))) \<le> 5"
  using replays_bounded_per_hour [of "map replay_event0 [10, 11, 12, 13, 14, 15]", OF _ prod.collapse [symmetric], of "''w1''" 20]
  by (simp add: replay_event0_step getCacheValue_def served_in_def replay_event0_time REPLAY_RATE_LIMIT_def
      HOUR_def REPLAY_RATE_LIMIT_WINDOW_SECONDS_def)

text \<open>
  The expiry is renewed by every request that is served, so that a subscriber that asks every fifty minutes is refused the sixth
  time, with one request in the hour before.
\<close>

lemma spaced_requests_refused:
  "snd (foldl replay_step (Some [], []) (map replay_event0 [0, 3000000, 6000000, 9000000, 12000000, 15000000])) =
     [(''w1'', 0, 1), (''w1'', 3000000, 1), (''w1'', 6000000, 1), (''w1'', 9000000, 1), (''w1'', 12000000, 1)]"
  by (simp add: replay_event0_step getCacheValue_def HOUR_def REPLAY_RATE_LIMIT_WINDOW_SECONDS_def)

text \<open>What the queue refused is counted as queued all the same.\<close>

lemma refused_replays_counted:
  "replayEventWindow (\<lambda>_. 4) (\<lambda>_. False) None replay_db0 \<lparr>rq_subscriptionId = ''w1'', rq_from = 0, rq_to = 9, rq_topics = None\<rparr> ''r'' 7 =
     (None, Inr ([], \<lparr>rr_requestId = ''r'', rr_queued = 1, rr_skipped = 0, rr_cappedAt = None\<rparr>))"
  by (simp add: replay_db0_def replayEventWindow_def MAX_REPLAY_WINDOW_MS_def checkAndIncrementRateLimit_def
      rateLimitKey_def REPLAY_RATE_LIMIT_def setCacheValue_def getCacheValue_def window_deliveries_def MAX_DELIVERIES_PER_REPLAY_def
      in_window_def job_row_def job_for_def replay_job_of_def webhook0_def List.map_filter_def Let_def)

end
