(* ===== verification/LoanStore.thy ===== *)
theory LoanStore
  imports LoanHistory RateSheet Assignment Decimal
begin

text \<open>
  The store of loan applications, \<^verbatim>\<open>backend/src/services/loanStore.ts\<close>: creation, with its price from the rate
  sheet in effect, its audit entry and its reviewer; updates guarded by a version; drafts; and reviews in bulk. The
  tables are maps by identifier; an update is split at its database calls, so that those of several writers can interleave. Checking an
  address, the text of a number and random identifiers are arguments, as is the clock, read once in
  an operation. The lemmas show that a guarded update overwrites nothing its author has not
  seen, and that the audit trail replays to the row.
\<close>

section \<open>Rows and views\<close>

datatype loan_status = Draft | Pending | Approved | Rejected | Disbursing | Repaying | Completed | Manual_review

definition loan_status_text :: "loan_status \<Rightarrow> string" where
  "loan_status_text s = (case s of Draft \<Rightarrow> ''Draft'' | Pending \<Rightarrow> ''Pending'' | Approved \<Rightarrow> ''Approved'' | Rejected \<Rightarrow> ''Rejected''
     | Disbursing \<Rightarrow> ''Disbursing'' | Repaying \<Rightarrow> ''Repaying'' | Completed \<Rightarrow> ''Completed'' | Manual_review \<Rightarrow> ''MANUAL_REVIEW'')"

datatype guarantor_status = G_accepted | G_rejected

record applicant_row =
  ap_stellarAddress :: string
  ap_verificationStatus :: string
  ap_creditScore :: "int option"
  ap_deletedAt :: "int option"

record loan_row =
  lo_applicantId :: string
  lo_principal :: rat
  lo_interestRateBps :: int
  lo_rateSheetVersionId :: "string option"
  lo_status :: loan_status
  lo_createdAt :: int
  lo_version :: int
  lo_assignedReviewerEmail :: "string option"
  lo_assignedReviewerId :: "string option"
  lo_assignedAt :: "int option"
  lo_statusUpdatedAt :: int
  lo_deletedAt :: "int option"
  lo_lastActivityAt :: int
  lo_draftStaleNotifiedAt :: "int option"
  lo_reason :: "string option"
  lo_manualReviewReason :: "string option"
  lo_servicer :: "string option"
  lo_servicerContact :: "string option"
  lo_guarantorAddress :: "string option"
  lo_guarantorSignature :: "string option"
  lo_guarantorStatus :: "guarantor_status option"

record loan_application =
  la_id :: string
  la_borrowerAddress :: string
  la_amount :: string
  la_status :: loan_status
  la_reason :: "string option"
  la_createdAt :: int
  la_version :: int
  la_guarantorAddress :: "string option"
  la_guarantorStatus :: "guarantor_status option"
  la_manualReviewReason :: "string option"
  la_servicer :: "string option"
  la_servicerContact :: "string option"
  la_interestRateBps :: int
  la_rateSheetVersionId :: "string option"

record guarantor_options =
  go_address :: string
  go_signature :: string
  go_status :: guarantor_status

text \<open>The audit rows of loans, and the reviewers with the audit of their assignments.\<close>

record loan_store =
  st_applicants :: "(string, applicant_row) js_map"
  st_loans :: "(string, loan_row) js_map"
  st_audit :: "(audit_row \<times> int) list"
  st_reviewers :: "(string, reviewer) js_map"
  st_assignments :: "(string \<times> string \<times> string option) list"

text \<open>What the store takes from elsewhere: the check of an address, \<open>String\<close> of a number, the rate sheets and the queue's switch.\<close>

record 'db store_library =
  sl_valid_address :: "string \<Rightarrow> bool"
  sl_number_text :: "rat \<Rightarrow> string"
  sl_sheets :: "'db sheet_client"
  sl_sheet_db :: 'db
  sl_assignmentQueueEnabled :: bool

definition address_of :: "loan_store \<Rightarrow> loan_row \<Rightarrow> string" where
  "address_of st r = (case map_get (st_applicants st) (lo_applicantId r) of None \<Rightarrow> [] | Some a \<Rightarrow> ap_stellarAddress a)"

definition mapLoanApplication :: "'db store_library \<Rightarrow> loan_store \<Rightarrow> string \<Rightarrow> loan_row \<Rightarrow> loan_application" where
  "mapLoanApplication lib st k r =
     \<lparr>la_id = k, la_borrowerAddress = address_of st r, la_amount = sl_number_text lib (lo_principal r), la_status = lo_status r,
      la_reason = lo_reason r, la_createdAt = lo_createdAt r, la_version = lo_version r,
      la_guarantorAddress = truthy_text (lo_guarantorAddress r),
      la_guarantorStatus = (if truthy_text (lo_guarantorAddress r) = None then None else lo_guarantorStatus r),
      la_manualReviewReason = lo_manualReviewReason r, la_servicer = lo_servicer r, la_servicerContact = lo_servicerContact r,
      la_interestRateBps = lo_interestRateBps r, la_rateSheetVersionId = lo_rateSheetVersionId r\<rparr>"

definition snapshotOf :: "loan_application \<Rightarrow> loan_snapshot" where
  "snapshotOf app = \<lparr>ls_borrowerAddress = la_borrowerAddress app, ls_amount = JStr (la_amount app),
     ls_status = loan_status_text (la_status app), ls_reason = la_reason app\<rparr>"

definition live_row :: "loan_store \<Rightarrow> string \<Rightarrow> loan_row option" where
  "live_row st k = (case map_get (st_loans st) k of None \<Rightarrow> None | Some r \<Rightarrow> if lo_deletedAt r = None then Some r else None)"

text \<open>What the columns and their checks let in.\<close>

definition storable :: "loan_row \<Rightarrow> bool" where
  "storable r \<longleftrightarrow> 0 < lo_principal r \<and> 200 \<le> lo_interestRateBps r \<and> lo_interestRateBps r \<le> 1800 \<and> lo_status r \<noteq> Manual_review"

section \<open>Creation\<close>

datatype store_error = Invalid_address | Store_failure | Stale_version loan_application int

text \<open>Nothing is created under an identifier that is taken.\<close>

definition findOrCreateApplicant :: "loan_store \<Rightarrow> string \<Rightarrow> string \<Rightarrow> (loan_store \<times> string \<times> applicant_row) option" where
  "findOrCreateApplicant st stellarAddress newId =
     (case find (\<lambda>(k, a). ap_stellarAddress a = stellarAddress) (st_applicants st) of
        Some (k, a) \<Rightarrow> (let a' = a\<lparr>ap_deletedAt := None\<rparr>
                         in Some (st\<lparr>st_applicants := map_set (st_applicants st) k a'\<rparr>, k, a'))
      | None \<Rightarrow>
          if map_get (st_applicants st) newId \<noteq> None then None
          else (let a = \<lparr>ap_stellarAddress = stellarAddress, ap_verificationStatus = ''PENDING'', ap_creditScore = None,
                         ap_deletedAt = None\<rparr>
                in Some (st\<lparr>st_applicants := map_set (st_applicants st) newId a\<rparr>, newId, a)))"

definition new_row :: "string \<Rightarrow> rat \<Rightarrow> offer_pricing option \<Rightarrow> guarantor_options option \<Rightarrow> int \<Rightarrow> loan_row" where
  "new_row applicantId amt pricing guarantor now =
     \<lparr>lo_applicantId = applicantId, lo_principal = amt,
      lo_interestRateBps = (case pricing of None \<Rightarrow> 800 | Some p \<Rightarrow> op_interestRateBps p),
      lo_rateSheetVersionId = map_option op_rateSheetVersionId pricing, lo_status = Pending, lo_createdAt = now, lo_version = 1,
      lo_assignedReviewerEmail = None, lo_assignedReviewerId = None, lo_assignedAt = None, lo_statusUpdatedAt = now,
      lo_deletedAt = None, lo_lastActivityAt = now, lo_draftStaleNotifiedAt = None, lo_reason = None, lo_manualReviewReason = None,
      lo_servicer = None, lo_servicerContact = None, lo_guarantorAddress = map_option go_address guarantor,
      lo_guarantorSignature = map_option go_signature guarantor, lo_guarantorStatus = map_option go_status guarantor\<rparr>"

text \<open>The columns the assignment queue reads and writes.\<close>

definition assignment_view :: "loan_store \<Rightarrow> assignment_db" where
  "assignment_view st =
     \<lparr>ad_reviewers = st_reviewers st,
      ad_applications = map (\<lambda>(k, r). (k, \<lparr>aa_id = k, aa_deletedAt = lo_deletedAt r, aa_reviewerId = lo_assignedReviewerId r,
        aa_reviewerEmail = lo_assignedReviewerEmail r, aa_assignedAt = lo_assignedAt r, aa_version = lo_version r\<rparr>)) (st_loans st),
      ad_audit = st_assignments st\<rparr>"

definition assigned_row :: "assignment_db \<Rightarrow> string \<Rightarrow> loan_row \<Rightarrow> loan_row" where
  "assigned_row db k r =
     (case map_get (ad_applications db) k of
        None \<Rightarrow> r
      | Some a \<Rightarrow> r\<lparr>lo_assignedReviewerId := aa_reviewerId a, lo_assignedReviewerEmail := aa_reviewerEmail a,
          lo_assignedAt := aa_assignedAt a, lo_version := aa_version a\<rparr>)"

definition assignment_put :: "loan_store \<Rightarrow> assignment_db \<Rightarrow> loan_store" where
  "assignment_put st db =
     st\<lparr>st_reviewers := ad_reviewers db, st_loans := map (\<lambda>(k, r). (k, assigned_row db k r)) (st_loans st),
       st_assignments := ad_audit db\<rparr>"

definition no_context :: audit_context where
  "no_context = \<lparr>ac_actorAddress = None, ac_ipAddress = None\<rparr>"

text \<open>\<open>newId\<close> and \<open>newApplicantId\<close> are random.\<close>

definition createApplication ::
    "'db store_library \<Rightarrow> loan_store \<Rightarrow> string \<Rightarrow> string \<Rightarrow> guarantor_options option \<Rightarrow> string \<Rightarrow> string \<Rightarrow> int \<Rightarrow>
     loan_store \<times> (store_error + loan_application)" where
  "createApplication lib st borrowerAddress amount guarantor newId newApplicantId now =
     (if \<not> sl_valid_address lib borrowerAddress then (st, Inl Invalid_address)
      else (case findOrCreateApplicant st borrowerAddress newApplicantId of
        None \<Rightarrow> (st, Inl Store_failure)
      | Some (st1, applicantId, applicant) \<Rightarrow>
          (let pricing = priceNewOffer (sl_sheets lib) (sl_sheet_db lib) (map_option of_int (ap_creditScore applicant)) now
           in case js_number amount of
                None \<Rightarrow> (st1, Inl Store_failure)
              | Some amt \<Rightarrow>
                  (let r = new_row applicantId amt pricing guarantor now
                   in if \<not> storable r \<or> map_get (st_loans st1) newId \<noteq> None then (st1, Inl Store_failure)
                      else (let st2 = st1\<lparr>st_loans := map_set (st_loans st1) newId r\<rparr>;
                                application = mapLoanApplication lib st2 newId r;
                                st3 = st2\<lparr>st_audit := recordLoanCreation list_create (st_audit st2) newId (snapshotOf application)
                                        no_context now\<rparr>;
                                assigned = autoAssignApplicationReviewer (assignment_view st3) (sl_assignmentQueueEnabled lib) newId now
                            in (assignment_put st3 (fst assigned), Inr application))))))"

section \<open>Reading\<close>

definition view_if_live :: "'db store_library \<Rightarrow> loan_store \<Rightarrow> (loan_row \<Rightarrow> bool) \<Rightarrow> loan_application list" where
  "view_if_live lib st P =
     map (\<lambda>(k, r). mapLoanApplication lib st k r) (filter (\<lambda>(k, r). lo_deletedAt r = None \<and> P r) (st_loans st))"

definition getApplication :: "'db store_library \<Rightarrow> loan_store \<Rightarrow> string \<Rightarrow> loan_application option" where
  "getApplication lib st k = map_option (mapLoanApplication lib st k) (live_row st k)"

definition getApplicationsByBorrower :: "'db store_library \<Rightarrow> loan_store \<Rightarrow> string \<Rightarrow> loan_application list" where
  "getApplicationsByBorrower lib st address =
     view_if_live lib st (\<lambda>r. case map_get (st_applicants st) (lo_applicantId r) of None \<Rightarrow> False
       | Some a \<Rightarrow> ap_stellarAddress a = address \<and> ap_deletedAt a = None)"

definition getPendingApplications :: "'db store_library \<Rightarrow> loan_store \<Rightarrow> loan_application list" where
  "getPendingApplications lib st = view_if_live lib st (\<lambda>r. lo_status r = Pending)"

definition listApplications :: "'db store_library \<Rightarrow> loan_store \<Rightarrow> loan_application list" where
  "listApplications lib st = view_if_live lib st (\<lambda>r. True)"

section \<open>Updates\<close>

text \<open>The fields of a patch that an update reads; an absent one is \<open>None\<close>, and a reason that is given may be null.\<close>

record loan_patch =
  lp_borrowerAddress :: "string option"
  lp_amount :: "string option"
  lp_status :: "loan_status option"
  lp_reason :: "string option option"

text \<open>The snapshot before has the number of the row where the one after has its text.\<close>

definition before_snapshot :: "loan_store \<Rightarrow> loan_row \<Rightarrow> loan_snapshot" where
  "before_snapshot st r = \<lparr>ls_borrowerAddress = address_of st r, ls_amount = JNum (lo_principal r),
     ls_status = loan_status_text (lo_status r), ls_reason = lo_reason r\<rparr>"

definition stale_version :: "'db store_library \<Rightarrow> loan_store \<Rightarrow> string \<Rightarrow> int option \<Rightarrow> loan_row \<Rightarrow> store_error option" where
  "stale_version lib st k expectedVersion r =
     (case expectedVersion of None \<Rightarrow> None
      | Some v \<Rightarrow> if lo_version r \<noteq> v then Some (Stale_version (mapLoanApplication lib st k r) v) else None)"

text \<open>First, the row is read and its version compared.\<close>

definition read_existing ::
    "'db store_library \<Rightarrow> loan_store \<Rightarrow> string \<Rightarrow> int option \<Rightarrow> store_error + (loan_row \<times> loan_snapshot) option" where
  "read_existing lib st k expectedVersion =
     (case live_row st k of
        None \<Rightarrow> Inr None
      | Some existing \<Rightarrow>
          (case stale_version lib st k expectedVersion existing of
             Some e \<Rightarrow> Inl e
           | None \<Rightarrow> Inr (Some (existing, before_snapshot st existing))))"

text \<open>Second, the address of the applicant is written; addresses are unique.\<close>

definition write_address :: "loan_store \<Rightarrow> loan_row \<Rightarrow> loan_patch \<Rightarrow> store_error + loan_store" where
  "write_address st existing patch =
     (case truthy_text (lp_borrowerAddress patch) of
        None \<Rightarrow> Inr st
      | Some address \<Rightarrow>
          (case map_get (st_applicants st) (lo_applicantId existing) of
             None \<Rightarrow> Inl Store_failure
           | Some a \<Rightarrow>
               if list_ex (\<lambda>(j, b). j \<noteq> lo_applicantId existing \<and> ap_stellarAddress b = address) (st_applicants st)
               then Inl Store_failure
               else Inr (st\<lparr>st_applicants := map_set (st_applicants st) (lo_applicantId existing) (a\<lparr>ap_stellarAddress := address\<rparr>)\<rparr>)))"

text \<open>Third, the row itself, which may have changed since. \<open>Number\<close> of a text that is none is refused by the column.\<close>

definition hasFieldChanges :: "loan_patch \<Rightarrow> bool" where
  "hasFieldChanges patch \<longleftrightarrow> lp_amount patch \<noteq> None \<or> lp_status patch \<noteq> None \<or> lp_reason patch \<noteq> None"

definition apply_patch :: "loan_patch \<Rightarrow> loan_row \<Rightarrow> int \<Rightarrow> loan_row \<Rightarrow> loan_row option" where
  "apply_patch patch existing now r =
     (case (case lp_amount patch of None \<Rightarrow> Some (lo_principal r) | Some s \<Rightarrow> js_number s) of
        None \<Rightarrow> None
      | Some amt \<Rightarrow>
          (let r1 = r\<lparr>lo_principal := amt, lo_status := or_else (lp_status patch) (lo_status r),
                      lo_reason := or_else (lp_reason patch) (lo_reason r), lo_version := lo_version r + 1\<rparr>;
               r2 = (if hasFieldChanges patch \<and> or_else (lp_status patch) (lo_status existing) = Draft
                     then r1\<lparr>lo_lastActivityAt := now, lo_draftStaleNotifiedAt := None\<rparr> else r1)
           in if storable r2 then Some r2 else None))"

definition guarded_update ::
    "'db store_library \<Rightarrow> loan_store \<Rightarrow> string \<Rightarrow> int option \<Rightarrow> loan_patch \<Rightarrow> loan_row \<Rightarrow> int \<Rightarrow> store_error + (loan_store \<times> loan_row)" where
  "guarded_update lib st k expectedVersion patch existing now =
     (case (case map_get (st_loans st) k of
              None \<Rightarrow> None
            | Some r \<Rightarrow> if expectedVersion \<in> {None, Some (lo_version r)} then apply_patch patch existing now r else None) of
        Some r' \<Rightarrow> Inr (st\<lparr>st_loans := map_set (st_loans st) k r'\<rparr>, r')
      | None \<Rightarrow>
          (case live_row st k of
             None \<Rightarrow> Inl Store_failure
           | Some current \<Rightarrow> Inl (or_else (stale_version lib st k expectedVersion current) Store_failure)))"

text \<open>Last, the difference is appended to the trail.\<close>

definition record_update :: "loan_store \<Rightarrow> string \<Rightarrow> loan_snapshot \<Rightarrow> loan_application \<Rightarrow> int \<Rightarrow> loan_store" where
  "record_update st k before application now =
     st\<lparr>st_audit := recordLoanChange list_create (st_audit st) k (diffLoanSnapshot before (snapshotOf application)) no_context
          LOAN_UPDATED_ACTION now\<rparr>"

definition updateApplication ::
    "'db store_library \<Rightarrow> loan_store \<Rightarrow> string \<Rightarrow> loan_patch \<Rightarrow> int option \<Rightarrow> int \<Rightarrow>
     loan_store \<times> (store_error + loan_application option)" where
  "updateApplication lib st k patch expectedVersion now =
     (case read_existing lib st k expectedVersion of
        Inl e \<Rightarrow> (st, Inl e)
      | Inr None \<Rightarrow> (st, Inr None)
      | Inr (Some (existing, before)) \<Rightarrow>
          (case write_address st existing patch of
             Inl e \<Rightarrow> (st, Inl e)
           | Inr st1 \<Rightarrow>
               (case guarded_update lib st1 k expectedVersion patch existing now of
                  Inl e \<Rightarrow> (st1, Inl e)
                | Inr (st2, r) \<Rightarrow>
                    (let application = mapLoanApplication lib st2 k r
                     in (record_update st2 k before application now, Inr (Some application))))))"

section \<open>Drafts\<close>

definition draft_row :: "loan_store \<Rightarrow> string \<Rightarrow> loan_row option" where
  "draft_row st k = (case live_row st k of None \<Rightarrow> None | Some r \<Rightarrow> if lo_status r = Draft then Some r else None)"

definition resumeDraftApplication :: "'db store_library \<Rightarrow> loan_store \<Rightarrow> string \<Rightarrow> int \<Rightarrow> loan_store \<times> loan_application option" where
  "resumeDraftApplication lib st k now =
     (case draft_row st k of
        None \<Rightarrow> (st, None)
      | Some r \<Rightarrow>
          (let r' = r\<lparr>lo_lastActivityAt := now, lo_draftStaleNotifiedAt := None, lo_version := lo_version r + 1\<rparr>;
               st' = st\<lparr>st_loans := map_set (st_loans st) k r'\<rparr>
           in (st', Some (mapLoanApplication lib st' k r'))))"

definition discardDraftApplication :: "'db store_library \<Rightarrow> loan_store \<Rightarrow> string \<Rightarrow> int \<Rightarrow> loan_store \<times> loan_application option" where
  "discardDraftApplication lib st k now =
     (case draft_row st k of
        None \<Rightarrow> (st, None)
      | Some r \<Rightarrow>
          (let r' = r\<lparr>lo_deletedAt := Some now, lo_version := lo_version r + 1\<rparr>;
               st' = st\<lparr>st_loans := map_set (st_loans st) k r'\<rparr>
           in (st', Some (mapLoanApplication lib st' k r'))))"

section \<open>Reviews in bulk\<close>

datatype bulk_decision = Approve | Reject

definition decision_text :: "bulk_decision \<Rightarrow> string" where
  "decision_text d = (case d of Approve \<Rightarrow> ''approve'' | Reject \<Rightarrow> ''reject'')"

record bulk_item =
  bi_applicationId :: string
  bi_decision :: bulk_decision
  bi_reason :: "string option"
  bi_version :: "int option"

record bulk_result =
  br_applicationId :: string
  br_decision :: bulk_decision
  br_status :: loan_status
  br_version :: int

record bulk_failure =
  bf_applicationId :: string
  bf_error :: string
  bf_currentVersion :: "int option"
  bf_application :: "loan_application option"

definition plain_failure :: "bulk_item \<Rightarrow> string \<Rightarrow> bulk_failure" where
  "plain_failure item e = \<lparr>bf_applicationId = bi_applicationId item, bf_error = e, bf_currentVersion = None, bf_application = None\<rparr>"

definition conflict_failure :: "bulk_item \<Rightarrow> loan_application option \<Rightarrow> bulk_failure" where
  "conflict_failure item current = \<lparr>bf_applicationId = bi_applicationId item, bf_error = ''version_conflict'',
     bf_currentVersion = map_option la_version current, bf_application = current\<rparr>"

text \<open>The reads and checks of one transaction.\<close>

definition bulk_check :: "'db store_library \<Rightarrow> loan_store \<Rightarrow> bulk_item \<Rightarrow> bulk_failure + loan_row" where
  "bulk_check lib st item =
     (case live_row st (bi_applicationId item) of
        None \<Rightarrow> Inl (plain_failure item ''not_found'')
      | Some application \<Rightarrow>
          (case stale_version lib st (bi_applicationId item) (bi_version item) application of
             Some _ \<Rightarrow> Inl (conflict_failure item (Some (mapLoanApplication lib st (bi_applicationId item) application)))
           | None \<Rightarrow>
               if lo_status application \<noteq> Pending then Inl (plain_failure item ''invalid_state'')
               else (case map_get (st_applicants st) (lo_applicantId application) of
                  None \<Rightarrow> Inl (plain_failure item ''ineligible'')
                | Some a \<Rightarrow>
                    if lo_principal application \<le> 0 \<or> ap_deletedAt a \<noteq> None then Inl (plain_failure item ''ineligible'')
                    else if ap_verificationStatus a = ''INELIGIBLE'' then Inl (plain_failure item ''ineligible'')
                    else Inr application)))"

definition decision_status :: "bulk_decision \<Rightarrow> loan_status" where
  "decision_status d = (if d = Approve then Approved else Rejected)"

text \<open>Its writes; of the metadata the trail keeps what the replay reads.\<close>

definition bulk_write ::
    "'db store_library \<Rightarrow> loan_store \<Rightarrow> bulk_item \<Rightarrow> loan_row \<Rightarrow> string \<Rightarrow> string option \<Rightarrow> int \<Rightarrow> loan_store \<times> (bulk_failure + bulk_result)" where
  "bulk_write lib st item application reviewerAddress ipAddress now =
     (let k = bi_applicationId item; status = decision_status (bi_decision item)
      in case map_get (st_loans st) k of
           None \<Rightarrow> (st, Inl (if bi_version item \<noteq> None then conflict_failure item (getApplication lib st k) else plain_failure item ''P2025''))
         | Some r \<Rightarrow>
             if bi_version item \<notin> {None, Some (lo_version r)} then (st, Inl (conflict_failure item (getApplication lib st k)))
             else (let r' = r\<lparr>lo_status := status, lo_statusUpdatedAt := now, lo_version := lo_version r + 1\<rparr>
                   in (st\<lparr>st_loans := map_set (st_loans st) k r',
                          st_audit := list_create (st_audit st)
                            \<lparr>ar_action = LOAN_AUDIT_ACTION_PREFIX @ ''bulk_'' @ decision_text (bi_decision item) @ ''d'',
                             ar_actorAddress = Some reviewerAddress, ar_ipAddress = ipAddress, ar_applicationId = k,
                             ar_metadata = Changes_meta (no_changes\<lparr>cs_status := Some (loan_status_text (lo_status application), loan_status_text status)\<rparr>)\<rparr>
                            now\<rparr>,
                       Inr \<lparr>br_applicationId = k, br_decision = bi_decision item, br_status = status, br_version = lo_version r'\<rparr>)))"

definition review_item ::
    "'db store_library \<Rightarrow> loan_store \<Rightarrow> bulk_item \<Rightarrow> string \<Rightarrow> string option \<Rightarrow> int \<Rightarrow> loan_store \<times> (bulk_failure + bulk_result)" where
  "review_item lib st item reviewerAddress ipAddress now =
     (case bulk_check lib st item of
        Inl f \<Rightarrow> (st, Inl f)
      | Inr application \<Rightarrow> bulk_write lib st item application reviewerAddress ipAddress now)"

fun bulkReviewApplications ::
    "'db store_library \<Rightarrow> loan_store \<Rightarrow> bulk_item list \<Rightarrow> string \<Rightarrow> string option \<Rightarrow> int \<Rightarrow> loan_store \<times> bulk_result list \<times> bulk_failure list" where
  "bulkReviewApplications lib st [] reviewerAddress ipAddress now = (st, [], [])"
| "bulkReviewApplications lib st (item # items) reviewerAddress ipAddress now =
     (case review_item lib st item reviewerAddress ipAddress now of
        (st1, result) \<Rightarrow>
          (case bulkReviewApplications lib st1 items reviewerAddress ipAddress now of
             (st2, results, failures) \<Rightarrow>
               (case result of Inl f \<Rightarrow> (st2, results, f # failures) | Inr r \<Rightarrow> (st2, r # results, failures))))"

definition escrowTargetMetForAmount :: "string \<Rightarrow> bool" where
  "escrowTargetMetForAmount amount = (case js_number amount of None \<Rightarrow> False | Some num \<Rightarrow> if num \<le> 0 then False else num \<le> 5000)"

section \<open>Several writers\<close>

text \<open>
  An update between two of its database calls: read, with the address written, or with the row written. \<open>Went\<close> keeps
  how it ended.
\<close>

datatype update_stage =
    Read loan_row loan_snapshot
  | Addressed loan_row loan_snapshot
  | Written loan_snapshot loan_application
  | Went "store_error + loan_application option"

record writer =
  wt_id :: string
  wt_patch :: loan_patch
  wt_expected :: "int option"
  wt_stage :: update_stage

type_synonym store_system = "loan_store \<times> (nat, writer) js_map"

definition start_writer :: "'db store_library \<Rightarrow> loan_store \<Rightarrow> string \<Rightarrow> loan_patch \<Rightarrow> int option \<Rightarrow> writer" where
  "start_writer lib st k patch expected =
     \<lparr>wt_id = k, wt_patch = patch, wt_expected = expected,
      wt_stage = (case read_existing lib st k expected of
         Inl e \<Rightarrow> Went (Inl e) | Inr None \<Rightarrow> Went (Inr None) | Inr (Some (existing, before)) \<Rightarrow> Read existing before)\<rparr>"

definition advance_writer :: "'db store_library \<Rightarrow> loan_store \<Rightarrow> writer \<Rightarrow> int \<Rightarrow> loan_store \<times> update_stage" where
  "advance_writer lib st w now =
     (case wt_stage w of
        Read existing before \<Rightarrow>
          (case write_address st existing (wt_patch w) of
             Inl e \<Rightarrow> (st, Went (Inl e))
           | Inr st' \<Rightarrow> (st', Addressed existing before))
      | Addressed existing before \<Rightarrow>
          (case guarded_update lib st (wt_id w) (wt_expected w) (wt_patch w) existing now of
             Inl e \<Rightarrow> (st, Went (Inl e))
           | Inr (st', r) \<Rightarrow> (st', Written before (mapLoanApplication lib st' (wt_id w) r)))
      | Written before application \<Rightarrow> (record_update st (wt_id w) before application now, Went (Inr (Some application)))
      | Went result \<Rightarrow> (st, Went result))"

datatype store_op =
    Apply string string "guarantor_options option" string string
  | Update string loan_patch "int option"
  | Resume string
  | Discard string
  | Review "bulk_item list" string "string option"

fun apply_op :: "'db store_library \<Rightarrow> loan_store \<Rightarrow> store_op \<times> int \<Rightarrow> loan_store" where
  "apply_op lib st (Apply address amount guarantor newId newApplicantId, now) =
     fst (createApplication lib st address amount guarantor newId newApplicantId now)"
| "apply_op lib st (Update k patch expected, now) = fst (updateApplication lib st k patch expected now)"
| "apply_op lib st (Resume k, now) = fst (resumeDraftApplication lib st k now)"
| "apply_op lib st (Discard k, now) = fst (discardDraftApplication lib st k now)"
| "apply_op lib st (Review items reviewer ip, now) = fst (bulkReviewApplications lib st items reviewer ip now)"

datatype store_event =
    Whole store_op
  | Start nat string loan_patch "int option"
  | Advance nat

fun store_step :: "'db store_library \<Rightarrow> store_system \<Rightarrow> store_event \<times> int \<Rightarrow> store_system" where
  "store_step lib (st, ws) (Whole op, now) = (apply_op lib st (op, now), ws)"
| "store_step lib (st, ws) (Start n k patch expected, now) = (st, map_set ws n (start_writer lib st k patch expected))"
| "store_step lib (st, ws) (Advance n, now) =
     (case map_get ws n of
        None \<Rightarrow> (st, ws)
      | Some w \<Rightarrow> (case advance_writer lib st w now of (st', stage) \<Rightarrow> (st', map_set ws n (w\<lparr>wt_stage := stage\<rparr>))))"

text \<open>Left to itself, a writer that is started and advanced three times does what the update does.\<close>

lemma writer_alone:
  assumes "updateApplication lib st k patch expected now = (st', result)"
  shows "\<exists>ws'. foldl (store_step lib) (st, ws) [(Start n k patch expected, now), (Advance n, now), (Advance n, now), (Advance n, now)]
      = (st', ws') \<and> (\<exists>w. map_get ws' n = Some w \<and> wt_stage w = Went result)"
  using assms
  by (auto simp: updateApplication_def start_writer_def advance_writer_def Let_def split: sum.splits option.splits prod.splits)

section \<open>Versions tell rows apart\<close>

text \<open>Every operation keeps a row or raises its version.\<close>

definition newer :: "loan_row \<Rightarrow> loan_row \<Rightarrow> bool" where
  "newer r r' \<longleftrightarrow> r' = r \<or> lo_version r < lo_version r'"

definition rows_newer :: "loan_store \<Rightarrow> loan_store \<Rightarrow> bool" where
  "rows_newer st st' \<longleftrightarrow> (\<forall>k r. map_get (st_loans st) k = Some r \<longrightarrow> (\<exists>r'. map_get (st_loans st') k = Some r' \<and> newer r r'))"

lemma newer_refl [simp]: "newer r r"
  by (simp add: newer_def)

lemma newer_trans: "newer r s \<Longrightarrow> newer s t \<Longrightarrow> newer r t"
  by (auto simp: newer_def)

lemma rows_newer_refl [simp]: "rows_newer st st"
  by (simp add: rows_newer_def)

lemma rows_newer_trans: "rows_newer a b \<Longrightarrow> rows_newer b c \<Longrightarrow> rows_newer a c"
  unfolding rows_newer_def by (meson newer_trans)

lemma rows_newer_same [simp]: "st_loans st' = st_loans st \<Longrightarrow> rows_newer st st'"
  by (simp add: rows_newer_def)

lemma rows_newer_set:
  "map_get (st_loans st) k = Some r \<Longrightarrow> lo_version r < lo_version r' \<Longrightarrow> st_loans st' = map_set (st_loans st) k r' \<Longrightarrow> rows_newer st st'"
  by (auto simp: rows_newer_def newer_def)

lemma rows_newer_fresh:
  "map_get (st_loans st) k = None \<Longrightarrow> st_loans st' = map_set (st_loans st) k r' \<Longrightarrow> rows_newer st st'"
  by (auto simp: rows_newer_def)

lemma map_get_map_snd: "map_get (map (\<lambda>(k, r). (k, f k r)) m) j = map_option (f j) (map_get m j)"
  by (induction m) auto

lemma assignment_newer:
  "rows_newer st (assignment_put st (fst (autoAssignApplicationReviewer (assignment_view st) enabled k now)))"
proof -
  let ?db = "assignment_view st" and ?db' = "fst (autoAssignApplicationReviewer (assignment_view st) enabled k now)"
  have "\<exists>a'. map_get (ad_applications ?db') j = Some a' \<and> (a' = a \<or> aa_version a < aa_version a')"
    if "map_get (ad_applications ?db) j = Some a" for j a
    using that
    by (auto simp: autoAssignApplicationReviewer_def assignReviewerToApplication_def commit_assignment_def stamp_reviewer_def
        stamp_application_def split: sum.splits option.splits if_splits)
  then show ?thesis
    unfolding rows_newer_def newer_def assignment_put_def
    by (fastforce simp: map_get_map_snd assignment_view_def assigned_row_def split: option.splits)
qed

lemma findOrCreate_rest:
  assumes "findOrCreateApplicant st address newId = Some (st1, applicantId, applicant)"
  shows "st_loans st1 = st_loans st" "st_audit st1 = st_audit st" "map_get (st_applicants st1) applicantId = Some applicant"
  using assms by (auto simp: findOrCreateApplicant_def Let_def split: option.splits if_splits)

lemma create_cases:
  obtains (refused) e where "createApplication lib st address amount guarantor newId newApplicantId now = (st, Inl e)"
  | (dropped) e st1 i a where "createApplication lib st address amount guarantor newId newApplicantId now = (st1, Inl e)"
      "findOrCreateApplicant st address newApplicantId = Some (st1, i, a)"
  | (created) st1 i a r st2 st3 where "findOrCreateApplicant st address newApplicantId = Some (st1, i, a)"
      "r = new_row i (the (js_number amount))
         (priceNewOffer (sl_sheets lib) (sl_sheet_db lib) (map_option of_int (ap_creditScore a)) now) guarantor now"
      "storable r" "map_get (st_loans st1) newId = None" "st2 = st1\<lparr>st_loans := map_set (st_loans st1) newId r\<rparr>"
      "st3 = st2\<lparr>st_audit := recordLoanCreation list_create (st_audit st2) newId
          (snapshotOf (mapLoanApplication lib st2 newId r)) no_context now\<rparr>"
      "createApplication lib st address amount guarantor newId newApplicantId now =
         (assignment_put st3 (fst (autoAssignApplicationReviewer (assignment_view st3) (sl_assignmentQueueEnabled lib) newId now)),
          Inr (mapLoanApplication lib st2 newId r))"
proof (cases "sl_valid_address lib address \<and> findOrCreateApplicant st address newApplicantId \<noteq> None")
  case False
  have "\<exists>e. createApplication lib st address amount guarantor newId newApplicantId now = (st, Inl e)"
    using False by (cases "findOrCreateApplicant st address newApplicantId") (simp_all add: createApplication_def)
  then show ?thesis using refused by blast
next
  case True
  then obtain st1 i a where f: "findOrCreateApplicant st address newApplicantId = Some (st1, i, a)" by auto
  let ?r = "new_row i (the (js_number amount))
      (priceNewOffer (sl_sheets lib) (sl_sheet_db lib) (map_option of_int (ap_creditScore a)) now) guarantor now"
  show ?thesis
  proof (cases "js_number amount = None \<or> \<not> storable ?r \<or> map_get (st_loans st1) newId \<noteq> None")
    case stop: True
    have "createApplication lib st address amount guarantor newId newApplicantId now = (st1, Inl Store_failure)"
      using stop True f by (cases "js_number amount") (auto simp: createApplication_def Let_def)
    then show ?thesis using dropped f by blast
  next
    case False
    then show ?thesis
      by (intro created [of st1 i a ?r, OF f refl _ _ refl refl]) (use True f in \<open>auto simp: createApplication_def Let_def\<close>)
  qed
qed

lemma create_newer: "rows_newer st (fst (createApplication lib st address amount guarantor newId newApplicantId now))"
proof (cases rule: create_cases [of lib st address amount guarantor newId newApplicantId now])
  case (refused e)
  then show ?thesis by simp
next
  case (dropped e st1 i a)
  then show ?thesis using findOrCreate_rest(1) by simp
next
  case (created st1 i a r st2 st3)
  have "rows_newer st st3"
    using created(4) findOrCreate_rest(1) [OF created(1)] by (intro rows_newer_fresh [of _ newId]) (simp_all add: created(5,6))
  then show ?thesis unfolding created(7) by (auto intro: rows_newer_trans [OF _ assignment_newer])
qed

lemma guarded_newer:
  "guarded_update lib st k expected patch existing now = Inr (st', r') \<Longrightarrow>
     \<exists>r. map_get (st_loans st) k = Some r \<and> expected \<in> {None, Some (lo_version r)} \<and> apply_patch patch existing now r = Some r' \<and>
       st' = st\<lparr>st_loans := map_set (st_loans st) k r'\<rparr>"
  by (auto simp: guarded_update_def split: option.splits if_splits)

lemma apply_patch_version: "apply_patch patch existing now r = Some r' \<Longrightarrow> lo_version r' = lo_version r + 1"
  by (auto simp: apply_patch_def Let_def split: option.splits if_splits)

lemma advance_newer: "rows_newer st (fst (advance_writer lib st w now))"
proof (cases "wt_stage w")
  case (Read existing before)
  then show ?thesis
    by (auto simp: advance_writer_def write_address_def split: sum.splits option.splits if_splits)
next
  case (Addressed existing before)
  show ?thesis
  proof (cases "guarded_update lib st (wt_id w) (wt_expected w) (wt_patch w) existing now")
    case (Inr p)
    then obtain st' r' where p: "guarded_update lib st (wt_id w) (wt_expected w) (wt_patch w) existing now = Inr (st', r')"
      by (cases p) auto
    with guarded_newer [OF p] show ?thesis
      by (auto simp: advance_writer_def Addressed dest!: apply_patch_version intro!: rows_newer_set [of st "wt_id w"])
  qed (simp add: advance_writer_def Addressed)
next
  case (Written before application)
  then show ?thesis by (simp add: advance_writer_def record_update_def)
qed (simp add: advance_writer_def)

lemma live_get: "live_row st k = Some r \<Longrightarrow> map_get (st_loans st) k = Some r"
  by (auto simp: live_row_def split: option.splits if_splits)

lemma draft_get: "draft_row st k = Some r \<Longrightarrow> map_get (st_loans st) k = Some r"
  by (auto simp: draft_row_def dest: live_get split: option.splits if_splits)

lemma resume_newer: "rows_newer st (fst (resumeDraftApplication lib st k now))"
  by (auto simp: resumeDraftApplication_def Let_def dest!: draft_get intro!: rows_newer_set [of st k] split: option.splits)

lemma discard_newer: "rows_newer st (fst (discardDraftApplication lib st k now))"
  by (auto simp: discardDraftApplication_def Let_def dest!: draft_get intro!: rows_newer_set [of st k] split: option.splits)

lemma review_item_newer: "rows_newer st (fst (review_item lib st item reviewer ip now))"
  by (auto simp: review_item_def bulk_write_def Let_def split: sum.splits option.splits
      intro!: rows_newer_set [of st "bi_applicationId item"])

lemma bulk_fst:
  "fst (bulkReviewApplications lib st (item # items) reviewer ip now) =
     fst (bulkReviewApplications lib (fst (review_item lib st item reviewer ip now)) items reviewer ip now)"
  by (simp split: prod.splits sum.splits)

lemma bulk_newer: "rows_newer st (fst (bulkReviewApplications lib st items reviewer ip now))"
proof (induction items arbitrary: st)
  case (Cons item items)
  then show ?case
    unfolding bulk_fst using rows_newer_trans [OF review_item_newer] by blast
qed simp

lemma advance_step:
  "store_step lib (st, ws) (Advance n, now) = (st', ws') \<Longrightarrow> map_get ws n = Some w \<Longrightarrow>
     st' = fst (advance_writer lib st w now) \<and> ws' = map_set ws n (w\<lparr>wt_stage := snd (advance_writer lib st w now)\<rparr>)"
  by (auto split: prod.splits)

lemma advance_step_newer: "rows_newer (fst s) (fst (store_step lib s (Advance n, now)))"
  using advance_newer [of "fst s" lib "the (map_get (snd s) n)" now] by (cases s) (auto split: option.splits prod.splits)

lemma advances_newer: "rows_newer (fst s) (fst (foldl (store_step lib) s (replicate m (Advance n, now))))"
proof (induction m arbitrary: s)
  case (Suc m)
  show ?case by (simp del: store_step.simps) (rule rows_newer_trans [OF advance_step_newer Suc])
qed simp

lemma update_newer: "rows_newer st (fst (updateApplication lib st k patch expected now))"
proof -
  obtain st' result where u: "updateApplication lib st k patch expected now = (st', result)" by (cases "updateApplication lib st k patch expected now")
  obtain ws' where run: "foldl (store_step lib) (st, []) [(Start 0 k patch expected, now), (Advance 0, now), (Advance 0, now), (Advance 0, now)] = (st', ws')"
    using writer_alone [OF u, of "[]" 0] by blast
  note advances_newer [of "(st, [(0, start_writer lib st k patch expected)])" lib 3 0 now]
  then show ?thesis using run unfolding u by (simp add: numeral_3_eq_3 del: store_step.simps(3))
qed

lemma op_newer: "rows_newer st (apply_op lib st (op, now))"
  by (cases op) (simp_all add: create_newer resume_newer discard_newer bulk_newer update_newer)

lemma step_newer: "rows_newer (fst s) (fst (store_step lib s (ev, now)))"
  by (cases s; cases ev) (simp_all add: op_newer advance_step_newer [of "(_, _)", unfolded fst_conv] del: store_step.simps(3))

lemma run_newer: "rows_newer (fst s) (fst (foldl (store_step lib) s es))"
proof (induction es arbitrary: s)
  case (Cons e es)
  then show ?case using rows_newer_trans [OF step_newer [of s lib "fst e" "snd e"]] by simp
qed simp

section \<open>No lost update\<close>

text \<open>What a writer has read was a row of the store, at the version it is to have.\<close>

definition read_row :: "update_stage \<Rightarrow> loan_row option" where
  "read_row stage = (case stage of Read r _ \<Rightarrow> Some r | Addressed r _ \<Rightarrow> Some r | _ \<Rightarrow> None)"

definition writer_ok :: "loan_store \<Rightarrow> writer \<Rightarrow> bool" where
  "writer_ok st w \<longleftrightarrow>
     (\<forall>e. read_row (wt_stage w) = Some e \<longrightarrow>
        (\<exists>r. map_get (st_loans st) (wt_id w) = Some r \<and> newer e r) \<and> wt_expected w \<in> {None, Some (lo_version e)})"

lemma writer_ok_later: "writer_ok st w \<Longrightarrow> rows_newer st st' \<Longrightarrow> writer_ok st' w"
  unfolding writer_ok_def rows_newer_def using newer_trans by meson

lemma writer_ok_start: "writer_ok st (start_writer lib st k patch expected)"
  by (auto simp: writer_ok_def start_writer_def read_row_def read_existing_def stale_version_def
      dest: live_get split: option.splits if_splits)

lemma writer_ok_advance:
  assumes "writer_ok st w"
  shows "writer_ok (fst (advance_writer lib st w now)) (w\<lparr>wt_stage := snd (advance_writer lib st w now)\<rparr>)"
proof -
  have "read_row (snd (advance_writer lib st w now)) \<in> {None, read_row (wt_stage w)}"
    by (auto simp: advance_writer_def read_row_def split: update_stage.splits sum.splits)
  then have "writer_ok st (w\<lparr>wt_stage := snd (advance_writer lib st w now)\<rparr>)" using assms by (auto simp: writer_ok_def)
  then show ?thesis by (rule writer_ok_later [OF _ advance_newer])
qed

lemma writers_ok_step:
  assumes "\<forall>n w. map_get (snd s) n = Some w \<longrightarrow> writer_ok (fst s) w" "map_get (snd (store_step lib s (ev, now))) n = Some w"
  shows "writer_ok (fst (store_step lib s (ev, now))) w"
proof (cases s)
  case (Pair st ws)
  show ?thesis
  proof (cases ev)
    case (Whole op)
    then show ?thesis using assms Pair by (auto intro: writer_ok_later [OF _ op_newer])
  next
    case (Start m k patch expected)
    then show ?thesis using assms Pair writer_ok_start by (auto split: if_splits)
  next
    case (Advance m)
    show ?thesis
    proof (cases "map_get ws m")
      case None
      then show ?thesis using assms Pair Advance by simp
    next
      case (Some v)
      obtain st' ws' where step: "store_step lib (st, ws) (Advance m, now) = (st', ws')" by fastforce
      have "writer_ok st v" using assms(1) Some Pair by simp
      then show ?thesis
        using assms(1,2) advance_step [OF step Some] step Advance Pair writer_ok_advance [of st v lib now]
          writer_ok_later [OF _ advance_newer, of st w lib v now]
        by (auto split: if_splits simp del: store_step.simps)
    qed
  qed
qed

lemma writers_ok_run:
  "\<forall>n w. map_get (snd s) n = Some w \<longrightarrow> writer_ok (fst s) w \<Longrightarrow>
     \<forall>n w. map_get (snd (foldl (store_step lib) s es)) n = Some w \<longrightarrow> writer_ok (fst (foldl (store_step lib) s es)) w"
proof (induction es arbitrary: s)
  case (Cons e es)
  have "\<forall>n w. map_get (snd (store_step lib s e)) n = Some w \<longrightarrow> writer_ok (fst (store_step lib s e)) w"
    using writers_ok_step [OF Cons.prems, of lib "fst e" "snd e"] by simp
  from Cons.IH [OF this] show ?case by simp
qed simp

text \<open>
  C5. Whatever other creations, updates, resumptions, discards and reviews run in between, a guarded update that
  goes through changes exactly the row its author's version named, as it was read; and from then on that version is past, so
  that no other update guarded by it goes through.
\<close>

theorem no_lost_update:
  assumes "foldl (store_step lib) (st0, []) es = (st, ws)" "map_get ws n = Some w" "wt_expected w = Some v"
    and "wt_stage w = Addressed existing before" "advance_writer lib st w now = (st', Written before' app)"
  shows "map_get (st_loans st) (wt_id w) = Some existing \<and> lo_version existing = v \<and>
    (\<exists>r. apply_patch (wt_patch w) existing now existing = Some r \<and> st_loans st' = map_set (st_loans st) (wt_id w) r \<and>
       app = mapLoanApplication lib st' (wt_id w) r) \<and>
    (\<forall>es2 st2 ws2 w2 t. foldl (store_step lib) (st', ws) es2 = (st2, ws2) \<longrightarrow> wt_id w2 = wt_id w \<longrightarrow> wt_expected w2 = Some v \<longrightarrow>
       (\<forall>existing2 before2. wt_stage w2 = Addressed existing2 before2 \<longrightarrow> (\<exists>e. advance_writer lib st2 w2 t = (st2, Went (Inl e)))))"
proof -
  have ok: "writer_ok st w" using writers_ok_run [of "(st0, [])" lib es] assms(1,2) by auto
  then obtain r where r: "map_get (st_loans st) (wt_id w) = Some r" "newer existing r" and v: "lo_version existing = v"
    using assms(3,4) by (auto simp: writer_ok_def read_row_def)
  obtain r' where up: "guarded_update lib st (wt_id w) (Some v) (wt_patch w) existing now = Inr (st', r')"
    and app: "app = mapLoanApplication lib st' (wt_id w) r'"
    using assms(3-5) by (auto simp: advance_writer_def split: sum.splits)
  from guarded_newer [OF up] r(1) have row: "lo_version r = v" "apply_patch (wt_patch w) existing now r = Some r'"
    "st_loans st' = map_set (st_loans st) (wt_id w) r'" by auto
  have same: "r = existing" using r(2) row(1) v by (simp add: newer_def)
  have later: "\<exists>e. advance_writer lib st2 w2 t = (st2, Went (Inl e))"
    if "foldl (store_step lib) (st', ws) es2 = (st2, ws2)" "wt_id w2 = wt_id w" "wt_expected w2 = Some v"
      "wt_stage w2 = Addressed existing2 before2" for es2 st2 ws2 w2 t existing2 before2
  proof -
    have "rows_newer st' st2" using run_newer [of "(st', ws)" lib es2] that(1) by simp
    moreover have "map_get (st_loans st') (wt_id w) = Some r'" "lo_version r' = v + 1"
      using row apply_patch_version [OF row(2)] by simp_all
    ultimately obtain r2 where "map_get (st_loans st2) (wt_id w) = Some r2" "v < lo_version r2"
      unfolding rows_newer_def newer_def by fastforce
    then show ?thesis using that(2-4)
      by (auto simp: advance_writer_def guarded_update_def split: option.splits)
  qed
  show ?thesis using r(1) row v app later unfolding same by blast
qed

section \<open>The trail replays to the row\<close>

definition trail_of :: "loan_store \<Rightarrow> int \<Rightarrow> string \<Rightarrow> audit_entry list" where
  "trail_of st asOf k = list_find (st_audit st) LOAN_AUDIT_ACTION_PREFIX asOf k"

definition snapshot_of_row :: "'db store_library \<Rightarrow> loan_store \<Rightarrow> string \<Rightarrow> loan_row \<Rightarrow> loan_snapshot" where
  "snapshot_of_row lib st k r = snapshotOf (mapLoanApplication lib st k r)"

text \<open>What the invariant says of one identifier: no entries without a row, and with one, entries that replay to it.\<close>

definition key_history :: "'db store_library \<Rightarrow> loan_store \<Rightarrow> int \<Rightarrow> string \<Rightarrow> bool" where
  "key_history lib st asOf k \<longleftrightarrow>
     (case map_get (st_loans st) k of
        None \<Rightarrow> trail_of st asOf k = []
      | Some r \<Rightarrow> lo_createdAt r \<le> asOf \<and> map_get (st_applicants st) (lo_applicantId r) \<noteq> None \<and>
          (\<exists>c s0 rest. trail_of st asOf k = c # rest \<and> ae_action c = LOAN_CREATED_ACTION \<and> ae_metadata c = Snapshot_meta s0 \<and>
             (\<forall>u. fst (replay rest s0 u) = snapshot_of_row lib st k r)))"

definition history_ok :: "'db store_library \<Rightarrow> int \<Rightarrow> loan_store \<Rightarrow> bool" where
  "history_ok lib asOf st \<longleftrightarrow> wf_map (st_applicants st) \<and> (\<forall>k. key_history lib st asOf k)"

text \<open>No applicant goes, and none changes its address.\<close>

definition addresses_kept :: "loan_store \<Rightarrow> loan_store \<Rightarrow> bool" where
  "addresses_kept st st' \<longleftrightarrow>
     (\<forall>j a. map_get (st_applicants st) j = Some a \<longrightarrow>
        (\<exists>a'. map_get (st_applicants st') j = Some a' \<and> ap_stellarAddress a' = ap_stellarAddress a))"

definition same_facts :: "loan_row \<Rightarrow> loan_row \<Rightarrow> bool" where
  "same_facts r r' \<longleftrightarrow> lo_createdAt r' = lo_createdAt r \<and> lo_applicantId r' = lo_applicantId r \<and>
     lo_principal r' = lo_principal r \<and> lo_status r' = lo_status r \<and> lo_reason r' = lo_reason r"

lemma addresses_kept_refl [simp]: "st_applicants st' = st_applicants st \<Longrightarrow> addresses_kept st st'"
  by (simp add: addresses_kept_def)

lemma same_facts_refl [simp]: "same_facts r r"
  by (simp add: same_facts_def)

lemma key_history_keep:
  assumes "key_history lib st asOf k" "addresses_kept st st'" "trail_of st' asOf k = trail_of st asOf k"
    and "map_get (st_loans st') k = map_option f (map_get (st_loans st) k)" "\<And>r. map_get (st_loans st) k = Some r \<Longrightarrow> same_facts r (f r)"
  shows "key_history lib st' asOf k"
proof (cases "map_get (st_loans st) k")
  case None
  then show ?thesis using assms(1,3,4) by (simp add: key_history_def)
next
  case (Some r)
  with assms(1) obtain a where a: "map_get (st_applicants st) (lo_applicantId r) = Some a" by (auto simp: key_history_def)
  with assms(2) obtain a' where a': "map_get (st_applicants st') (lo_applicantId r) = Some a'"
    "ap_stellarAddress a' = ap_stellarAddress a" unfolding addresses_kept_def by blast
  have "same_facts r (f r)" by (rule assms(5) [OF Some])
  then have "snapshot_of_row lib st' k (f r) = snapshot_of_row lib st k r"
    using a a' by (simp add: snapshot_of_row_def snapshotOf_def mapLoanApplication_def address_of_def same_facts_def)
  then show ?thesis using assms(1,3,4) Some a' \<open>same_facts r (f r)\<close> by (simp add: key_history_def same_facts_def)
qed

lemma key_history_change:
  assumes "key_history lib st asOf k" "map_get (st_loans st) k = Some r" "map_get (st_loans st') k = Some r'"
    and "lo_createdAt r' = lo_createdAt r" "lo_applicantId r' = lo_applicantId r" "st_applicants st' = st_applicants st"
    and "trail_of st' asOf k = trail_of st asOf k @ [e]" "ae_action e \<noteq> LOAN_CREATED_ACTION" "ae_metadata e = Changes_meta cs"
    and "apply_changes (snapshot_of_row lib st k r) cs = snapshot_of_row lib st' k r'"
  shows "key_history lib st' asOf k"
  using assms by (auto simp: key_history_def replay_append split_beta)

lemma trail_append:
  "st_audit st' = list_create (st_audit st) row now \<Longrightarrow> now \<le> asOf \<Longrightarrow> js_starts_with (ar_action row) LOAN_AUDIT_ACTION_PREFIX \<Longrightarrow>
     trail_of st' asOf k = trail_of st asOf k @ (if ar_applicationId row = k then [entry_of row now] else [])"
  by (simp add: trail_of_def list_find_def list_create_def)

lemma trail_same: "st_audit st' = st_audit st \<Longrightarrow> trail_of st' asOf k = trail_of st asOf k"
  by (simp add: trail_of_def)

lemma history_row:
  assumes ok: "history_ok lib asOf st" and "map_get (st_loans st) k = Some r" "st_loans st' = map_set (st_loans st) k r'"
    and "lo_createdAt r' = lo_createdAt r" "lo_applicantId r' = lo_applicantId r" "st_applicants st' = st_applicants st"
    and audit: "st_audit st' = list_create (st_audit st) row now" "now \<le> asOf" "ar_applicationId row = k"
    and row: "js_starts_with (ar_action row) LOAN_AUDIT_ACTION_PREFIX" "ar_action row \<noteq> LOAN_CREATED_ACTION" "ar_metadata row = Changes_meta cs"
    and cs: "apply_changes (snapshot_of_row lib st k r) cs = snapshot_of_row lib st' k r'"
  shows "history_ok lib asOf st'"
proof -
  note trail = trail_append [OF audit(1,2) row(1)]
  have "key_history lib st' asOf j" for j
  proof (cases "j = k")
    case True
    have "key_history lib st' asOf k"
      by (rule key_history_change [where st = st and r = r and r' = r' and e = "entry_of row now" and cs = cs])
        (use ok assms trail in \<open>simp_all add: history_ok_def entry_of_def\<close>)
    then show ?thesis using True by simp
  next
    case False
    show ?thesis
      by (rule key_history_keep [of lib st asOf j st' "\<lambda>r. r"])
        (use False ok assms(3,6) trail audit(3) in \<open>simp_all add: history_ok_def option.map_ident\<close>)
  qed
  then show ?thesis using ok assms(6) by (simp add: history_ok_def)
qed

lemma history_quiet:
  assumes ok: "history_ok lib asOf st" and "st_audit st' = st_audit st" "wf_map (st_applicants st')" "addresses_kept st st'"
    and "\<And>j. map_get (st_loans st') j = map_option (f j) (map_get (st_loans st) j)"
    and "\<And>j r. map_get (st_loans st) j = Some r \<Longrightarrow> same_facts r (f j r)"
  shows "history_ok lib asOf st'"
proof -
  have "key_history lib st' asOf j" for j
    by (rule key_history_keep [OF _ assms(4) trail_same [OF assms(2)] assms(5,6)]) (use ok in \<open>auto simp: history_ok_def\<close>)
  then show ?thesis using assms(3) by (simp add: history_ok_def)
qed

lemma history_quiet_row:
  assumes "history_ok lib asOf st" "map_get (st_loans st) k = Some r" "same_facts r r'"
    and "st' = st\<lparr>st_loans := map_set (st_loans st) k r'\<rparr>"
  shows "history_ok lib asOf st'"
  by (rule history_quiet [OF assms(1), where f = "\<lambda>j x. if j = k then r' else x"])
    (use assms in \<open>auto simp: history_ok_def option.map_ident\<close>)

lemma apply_diff_amount:
  assumes "ls_borrowerAddress s = ls_borrowerAddress b" "ls_status s = ls_status b" "ls_reason s = ls_reason b"
    "ls_amount b = JNum x" "ls_amount s' = JStr t"
  shows "diffLoanSnapshot b s' \<noteq> no_changes \<and> apply_changes s (diffLoanSnapshot b s') = s'"
  using assms by (simp add: apply_changes_def diffLoanSnapshot_def field_diff_def apply_change_def no_changes_def)

definition quiet_patch :: "loan_patch \<Rightarrow> bool" where
  "quiet_patch patch \<longleftrightarrow> truthy_text (lp_borrowerAddress patch) = None"

lemma apply_patch_keeps:
  "apply_patch patch existing now r = Some r' \<Longrightarrow> lo_createdAt r' = lo_createdAt r \<and> lo_applicantId r' = lo_applicantId r"
  by (auto simp: apply_patch_def Let_def split: option.splits if_splits)

lemma history_update:
  assumes ok: "history_ok lib asOf st" and "quiet_patch patch" "now \<le> asOf"
  shows "history_ok lib asOf (fst (updateApplication lib st k patch expected now))"
proof (cases "\<exists>existing before st2 r'. read_existing lib st k expected = Inr (Some (existing, before)) \<and>
    guarded_update lib st k expected patch existing now = Inr (st2, r')")
  case True
  then obtain existing before st2 r' where read: "read_existing lib st k expected = Inr (Some (existing, before))"
    and up: "guarded_update lib st k expected patch existing now = Inr (st2, r')" by blast
  from guarded_newer [OF up] obtain r where r: "map_get (st_loans st) k = Some r" "apply_patch patch existing now r = Some r'"
    "st2 = st\<lparr>st_loans := map_set (st_loans st) k r'\<rparr>" by blast
  have before: "existing = r" "before = before_snapshot st r"
    using read r(1) by (auto simp: read_existing_def dest!: live_get split: option.splits)
  let ?app = "mapLoanApplication lib st2 k r'"
  have diff: "diffLoanSnapshot before (snapshotOf ?app) \<noteq> no_changes \<and>
      apply_changes (snapshot_of_row lib st k r) (diffLoanSnapshot before (snapshotOf ?app)) = snapshotOf ?app"
    by (rule apply_diff_amount) (simp_all add: before snapshot_of_row_def snapshotOf_def before_snapshot_def mapLoanApplication_def)
  have "fst (updateApplication lib st k patch expected now) = record_update st2 k before ?app now"
    using read up assms(2) by (simp add: updateApplication_def write_address_def quiet_patch_def Let_def)
  moreover have "history_ok lib asOf (record_update st2 k before ?app now)"
    by (rule history_row [OF ok r(1), where cs = "diffLoanSnapshot before (snapshotOf ?app)" and now = now
          and row = "\<lparr>ar_action = LOAN_UPDATED_ACTION, ar_actorAddress = None, ar_ipAddress = None, ar_applicationId = k,
              ar_metadata = Changes_meta (diffLoanSnapshot before (snapshotOf ?app))\<rparr>" and r' = r'])
      (use diff assms(3) apply_patch_keeps [OF r(2)] in \<open>simp_all add: record_update_def r(3) recordLoanChange_def no_context_def
         snapshot_of_row_def mapLoanApplication_def address_of_def\<close>)
  ultimately show ?thesis by simp
next
  case False
  then have "fst (updateApplication lib st k patch expected now) = st"
    using assms(2) by (auto simp: updateApplication_def write_address_def quiet_patch_def split: sum.splits option.splits)
  then show ?thesis using ok by simp
qed

lemma history_resume:
  assumes "history_ok lib asOf st"
  shows "history_ok lib asOf (fst (resumeDraftApplication lib st k now))"
proof (cases "draft_row st k")
  case (Some r)
  then show ?thesis
    by (intro history_quiet_row [OF assms draft_get [OF Some]]) (simp_all add: resumeDraftApplication_def Let_def same_facts_def)
qed (simp add: resumeDraftApplication_def assms)

lemma history_discard:
  assumes "history_ok lib asOf st"
  shows "history_ok lib asOf (fst (discardDraftApplication lib st k now))"
proof (cases "draft_row st k")
  case (Some r)
  then show ?thesis
    by (intro history_quiet_row [OF assms draft_get [OF Some]]) (simp_all add: discardDraftApplication_def Let_def same_facts_def)
qed (simp add: discardDraftApplication_def assms)

lemma bulk_action:
  "js_starts_with (LOAN_AUDIT_ACTION_PREFIX @ ''bulk_'' @ x) LOAN_AUDIT_ACTION_PREFIX \<and>
     LOAN_AUDIT_ACTION_PREFIX @ ''bulk_'' @ x \<noteq> LOAN_CREATED_ACTION"
  by (auto simp: js_starts_with_append LOAN_CREATED_ACTION_def)

lemma history_review_item:
  assumes ok: "history_ok lib asOf st" and "now \<le> asOf"
  shows "history_ok lib asOf (fst (review_item lib st item reviewer ip now))"
proof (cases "\<exists>application. bulk_check lib st item = Inr application \<and> bi_version item \<in> {None, Some (lo_version application)}")
  case True
  then obtain r where check: "bulk_check lib st item = Inr r" "bi_version item \<in> {None, Some (lo_version r)}" by blast
  let ?k = "bi_applicationId item" and ?s = "decision_status (bi_decision item)"
  let ?r = "r\<lparr>lo_status := ?s, lo_statusUpdatedAt := now, lo_version := lo_version r + 1\<rparr>"
  have r: "map_get (st_loans st) ?k = Some r"
    using check(1) by (auto simp: bulk_check_def dest!: live_get split: option.splits if_splits)
  let ?row = "\<lparr>ar_action = LOAN_AUDIT_ACTION_PREFIX @ ''bulk_'' @ decision_text (bi_decision item) @ ''d'',
      ar_actorAddress = Some reviewer, ar_ipAddress = ip, ar_applicationId = ?k,
      ar_metadata = Changes_meta (no_changes\<lparr>cs_status := Some (loan_status_text (lo_status r), loan_status_text ?s)\<rparr>)\<rparr>"
  let ?st = "st\<lparr>st_loans := map_set (st_loans st) ?k ?r, st_audit := list_create (st_audit st) ?row now\<rparr>"
  have "fst (review_item lib st item reviewer ip now) = ?st"
    using check r by (simp add: review_item_def bulk_write_def Let_def)
  moreover have "history_ok lib asOf ?st"
    by (rule history_row [OF ok r, where r' = ?r and row = ?row and now = now
          and cs = "no_changes\<lparr>cs_status := Some (loan_status_text (lo_status r), loan_status_text ?s)\<rparr>"])
      (use assms(2) bulk_action in \<open>simp_all add: snapshot_of_row_def snapshotOf_def mapLoanApplication_def address_of_def
         apply_changes_def apply_change_def no_changes_def\<close>)
  ultimately show ?thesis by simp
next
  case False
  have "fst (review_item lib st item reviewer ip now) = st"
  proof (cases "bulk_check lib st item")
    case (Inr r)
    then have "map_get (st_loans st) (bi_applicationId item) = Some r"
      by (auto simp: bulk_check_def dest!: live_get split: option.splits if_splits)
    then show ?thesis using False Inr by (simp add: review_item_def bulk_write_def Let_def)
  qed (simp add: review_item_def)
  then show ?thesis using ok by simp
qed

lemma history_bulk:
  "history_ok lib asOf st \<Longrightarrow> now \<le> asOf \<Longrightarrow> history_ok lib asOf (fst (bulkReviewApplications lib st items reviewer ip now))"
proof (induction items arbitrary: st)
  case (Cons item items)
  show ?case unfolding bulk_fst by (rule Cons.IH [OF history_review_item [OF Cons.prems] Cons.prems(2)])
qed simp

lemma findOrCreate_keeps:
  assumes "findOrCreateApplicant st address newId = Some (st1, i, a)" "wf_map (st_applicants st)"
  shows "addresses_kept st st1 \<and> wf_map (st_applicants st1)"
proof (cases "find (\<lambda>(k, a). ap_stellarAddress a = address) (st_applicants st)")
  case None
  then show ?thesis using assms by (auto simp: findOrCreateApplicant_def Let_def addresses_kept_def split: if_splits)
next
  case (Some p)
  obtain k b where p: "p = (k, b)" by (cases p)
  have "(k, b) \<in> set (st_applicants st)" using Some p by (metis find_Some_iff nth_mem)
  then have "map_get (st_applicants st) k = Some b" using assms(2) by (simp add: wf_map_def)
  then show ?thesis using assms Some p by (auto simp: findOrCreateApplicant_def Let_def addresses_kept_def)
qed

lemma history_found:
  assumes "history_ok lib asOf st" "findOrCreateApplicant st address newId = Some (st1, i, a)"
  shows "history_ok lib asOf st1"
  by (rule history_quiet [OF assms(1), where f = "\<lambda>j r. r"])
    (use assms findOrCreate_rest [OF assms(2)] findOrCreate_keeps [OF assms(2)] in \<open>auto simp: history_ok_def option.map_ident\<close>)

lemma assigned_same: "same_facts r (assigned_row db k r)"
  by (simp add: same_facts_def assigned_row_def split: option.split)

lemma history_assigned:
  assumes "history_ok lib asOf st"
  shows "history_ok lib asOf (assignment_put st db)"
  by (rule history_quiet [OF assms, where f = "assigned_row db"])
    (use assms in \<open>auto simp: history_ok_def assignment_put_def map_get_map_snd assigned_same\<close>)

lemma history_create:
  assumes ok: "history_ok lib asOf st" and "now \<le> asOf"
  shows "history_ok lib asOf (fst (createApplication lib st address amount guarantor newId newApplicantId now))"
proof (cases rule: create_cases [of lib st address amount guarantor newId newApplicantId now])
  case (refused e)
  then show ?thesis using ok by simp
next
  case (dropped e st1 i a)
  then show ?thesis using history_found [OF ok] by simp
next
  case (created st1 i a r st2 st3)
  have st1: "history_ok lib asOf st1" by (rule history_found [OF ok created(1)])
  let ?row = "\<lparr>ar_action = LOAN_CREATED_ACTION, ar_actorAddress = None, ar_ipAddress = None, ar_applicationId = newId,
      ar_metadata = Snapshot_meta (snapshotOf (mapLoanApplication lib st2 newId r))\<rparr>"
  have st3: "st_loans st3 = map_set (st_loans st1) newId r" "st_applicants st3 = st_applicants st1"
    "st_audit st3 = list_create (st_audit st1) ?row now"
    by (simp_all add: created(5,6) recordLoanCreation_def no_context_def)
  have trail: "trail_of st3 asOf k = trail_of st1 asOf k @ (if newId = k then [entry_of ?row now] else [])" for k
    using trail_append [OF st3(3) assms(2), of k] by simp
  have "key_history lib st3 asOf k" for k
  proof (cases "k = newId")
    case True
    have "trail_of st1 asOf newId = []" using st1 created(4) by (auto simp: history_ok_def key_history_def split: option.splits dest: spec [of _ newId])
    then show ?thesis
      using trail [of newId] True findOrCreate_rest(3) [OF created(1)] st3(1,2) assms(2)
      by (auto simp: key_history_def entry_of_def created(2,5,6) new_row_def snapshot_of_row_def mapLoanApplication_def address_of_def)
  next
    case False
    show ?thesis
      by (rule key_history_keep [of lib st1 asOf k st3 "\<lambda>r. r"])
        (use False st1 st3 trail in \<open>simp_all add: history_ok_def option.map_ident\<close>)
  qed
  then have "history_ok lib asOf st3" using st1 st3(2) by (simp add: history_ok_def)
  then show ?thesis unfolding created(7) by (simp add: history_assigned)
qed

definition quiet_op :: "store_op \<Rightarrow> bool" where
  "quiet_op op = (case op of Update k patch expected \<Rightarrow> quiet_patch patch | _ \<Rightarrow> True)"

lemma history_op: "history_ok lib asOf st \<Longrightarrow> quiet_op op \<Longrightarrow> now \<le> asOf \<Longrightarrow> history_ok lib asOf (apply_op lib st (op, now))"
  by (cases op) (simp_all add: quiet_op_def history_create history_update history_resume history_discard history_bulk)

lemma history_run:
  "history_ok lib asOf st \<Longrightarrow> list_all (\<lambda>(op, now). quiet_op op \<and> now \<le> asOf) ops \<Longrightarrow> history_ok lib asOf (foldl (apply_op lib) st ops)"
  by (induction ops arbitrary: st) (auto simp: history_op)


section \<open>Examples and deviations\<close>

definition lib0 :: "sheet_version list store_library" where
  "lib0 = \<lparr>sl_valid_address = (\<lambda>s. s \<noteq> []), sl_number_text = (\<lambda>x. show_int \<lfloor>x\<rfloor>), sl_sheets = list_sheets, sl_sheet_db = [],
     sl_assignmentQueueEnabled = True\<rparr>"

definition no_applications :: loan_store where
  "no_applications = \<lparr>st_applicants = [], st_loans = [], st_audit = [],
     st_reviewers = [(''r'', \<lparr>rv_id = ''r'', rv_email = ''r@x'', rv_name = None, rv_status = ACTIVE, rv_lastAssignedAt = None\<rparr>)],
     st_assignments = []\<rparr>"

definition row0 :: loan_row where
  "row0 = new_row ''a'' 100 None None 5"

definition store1 :: loan_store where
  "store1 = \<lparr>st_applicants = [(''a'', \<lparr>ap_stellarAddress = ''GA'', ap_verificationStatus = ''PENDING'', ap_creditScore = None, ap_deletedAt = None\<rparr>)],
     st_loans = [(''l'', row0), (''m'', row0)], st_audit = [], st_reviewers = [], st_assignments = []\<rparr>"

definition patch0 :: loan_patch where
  "patch0 = \<lparr>lp_borrowerAddress = None, lp_amount = None, lp_status = None, lp_reason = None\<rparr>"

definition to_status :: "loan_status \<Rightarrow> loan_patch" where
  "to_status s = patch0\<lparr>lp_status := Some s\<rparr>"

lemmas store_examples = lib0_def no_applications_def row0_def store1_def patch0_def to_status_def new_row_def start_writer_def read_existing_def
  live_row_def stale_version_def before_snapshot_def address_of_def advance_writer_def write_address_def truthy_text_def
  guarded_update_def apply_patch_def storable_def hasFieldChanges_def mapLoanApplication_def Let_def

theorem no_lost_update_witness:
  "\<exists>st ws w w2 st' b app. foldl (store_step lib0) (store1, [])
     [(Start 0 ''l'' (to_status Approved) (Some 1), 6), (Start 1 ''l'' (to_status Rejected) (Some 1), 6), (Advance 0, 7), (Advance 1, 7)] = (st, ws) \<and>
     map_get ws 0 = Some w \<and> advance_writer lib0 st w 8 = (st', Written b app) \<and> map_get ws 1 = Some w2 \<and>
     (\<exists>e. advance_writer lib0 st' w2 9 = (st', Went (Inl e)))"
proof -
  let ?w = "\<lambda>s. \<lparr>wt_id = ''l'', wt_patch = to_status s, wt_expected = Some 1, wt_stage = Addressed row0 (before_snapshot store1 row0)\<rparr>"
  have run: "foldl (store_step lib0) (store1, [])
     [(Start 0 ''l'' (to_status Approved) (Some 1), 6), (Start 1 ''l'' (to_status Rejected) (Some 1), 6), (Advance 0, 7), (Advance 1, 7)] =
     (store1, [(0, ?w Approved), (1, ?w Rejected)])"
    by (simp add: store_examples)
  obtain st' b app where go: "advance_writer lib0 store1 (?w Approved) 8 = (st', Written b app)"
    by (simp add: store_examples)
  have "\<exists>e. advance_writer lib0 st' (?w Rejected) 9 = (st', Went (Inl e))"
    using no_lost_update [OF run, of 0 "?w Approved" 1, OF _ _ _ go, THEN conjunct2, THEN conjunct2, THEN conjunct2, THEN spec [where x = "[]"],
        THEN spec [where x = st'], THEN spec [where x = "[(0, ?w Approved), (1, ?w Rejected)]"], THEN spec [where x = "?w Rejected"],
        THEN spec [where x = 9]]
    by simp
  then obtain e where e: "advance_writer lib0 st' (?w Rejected) 9 = (st', Went (Inl e))" ..
  show ?thesis
  proof (intro exI conjI)
    show "map_get [(0, ?w Approved), (1, ?w Rejected)] (0 :: nat) = Some (?w Approved)" by simp
    show "map_get [(0, ?w Approved), (1, ?w Rejected)] (1 :: nat) = Some (?w Rejected)" by simp
  qed (rule run go e)+
qed


text \<open>
  The amount of the snapshot before is a number and that of the one after a text, so that every update is recorded as a change of the
  amount, also one that changes nothing.
\<close>

lemma every_update_recorded:
  "ls_amount (before_snapshot st r) \<noteq> ls_amount (snapshotOf app) \<and> diffLoanSnapshot (before_snapshot st r) (snapshotOf app) \<noteq> no_changes"
  by (simp add: before_snapshot_def snapshotOf_def diffLoanSnapshot_def field_diff_def no_changes_def)

text \<open>A refused update may already have changed the applicant's address.\<close>

lemma conflict_leaves_address:
  "\<exists>st ws w e. foldl (store_step lib0) (store1, [])
     [(Start 0 ''l'' (patch0\<lparr>lp_borrowerAddress := Some ''GB''\<rparr>) (Some 1), 6), (Advance 0, 6),
      (Whole (Update ''l'' (to_status Approved) (Some 1)), 7), (Advance 0, 8)] = (st, ws) \<and>
     map_get ws 0 = Some w \<and> wt_stage w = Went (Inl (Stale_version e 1)) \<and> address_of st row0 = ''GB''"
  by (simp add: store_examples updateApplication_def record_update_def)

text \<open>The other applications of the applicant change with it, without an entry in their trail.\<close>

lemma address_change_unrecorded:
  "let st = apply_op lib0 store1 (Update ''l'' (patch0\<lparr>lp_borrowerAddress := Some ''GB''\<rparr>) (Some 1), 6)
   in address_of st row0 = ''GB'' \<and> trail_of st 9 ''m'' = [] \<and> map_get (st_loans st) ''m'' = Some row0"
  by (simp add: store_examples updateApplication_def record_update_def trail_of_def list_find_def recordLoanChange_def list_create_def)

text \<open>An update without the guard compares with what it read before another update, and its own change is missing from the trail.\<close>

lemma unguarded_update_unrecorded:
  "\<exists>st ws w app r. foldl (store_step lib0) (store1, [])
     [(Start 0 ''l'' (to_status Pending) None, 6), (Whole (Update ''l'' (to_status Approved) None), 7), (Advance 0, 8), (Advance 0, 8),
      (Advance 0, 8)] = (st, ws) \<and>
     map_get ws 0 = Some w \<and> wt_stage w = Went (Inr (Some app)) \<and> map_get (st_loans st) ''l'' = Some r \<and> lo_status r = Pending \<and>
     ls_status (fst (replay (trail_of st 9 ''l'') (snapshot_of_row lib0 store1 ''l'' row0) 0)) = ''Approved''"
  by (simp add: store_examples updateApplication_def record_update_def trail_of_def list_find_def recordLoanChange_def list_create_def
      snapshotOf_def loan_status_text_def diffLoanSnapshot_def field_diff_def no_changes_def no_context_def entry_of_def
      apply_changes_def apply_change_def snapshot_of_row_def)

text \<open>The answer to a creation has a version that the assignment of a reviewer has made stale.\<close>

lemma created_version_stale:
  "\<exists>st app r. createApplication lib0 no_applications ''GA'' (show_int 100) None ''l'' ''a'' 5 = (st, Inr app) \<and>
     la_version app = 1 \<and> map_get (st_loans st) ''l'' = Some r \<and> lo_version r = 2"
proof -
  have price: "priceNewOffer list_sheets [] s t = None" for s t
    by (simp add: priceNewOffer_def resolveRateSheetAt_def list_sheets_def in_effect_def)
  show ?thesis
    by (simp add: store_examples createApplication_def findOrCreateApplicant_def price autoAssignApplicationReviewer_def
        assignReviewerToApplication_def selectNextReviewer_def isReviewerActive_def commit_assignment_def stamp_reviewer_def
        stamp_application_def assignment_view_def assignment_put_def assigned_row_def)
qed

text \<open>No row can be held for manual review: the enumeration of the column lacks the status.\<close>

lemma manual_review_refused: "lp_status patch = Some Manual_review \<Longrightarrow> apply_patch patch existing now r = None"
  by (auto simp: apply_patch_def storable_def Let_def split: option.split)

text \<open>A bulk review approves whatever the guarantor's answer.\<close>

lemma bulk_ignores_guarantor:
  assumes "live_row st k = Some r" "lo_status r = Pending" "0 < lo_principal r"
    and "map_get (st_applicants st) (lo_applicantId r) = Some a" "ap_deletedAt a = None" "ap_verificationStatus a \<noteq> ''INELIGIBLE''"
    and "lo_guarantorStatus r = Some G_rejected"
  shows "\<exists>st' r'. review_item lib st \<lparr>bi_applicationId = k, bi_decision = Approve, bi_reason = None, bi_version = None\<rparr> admin ip now =
      (st', Inr r') \<and> br_status r' = Approved"
  using assms(1-6) live_get [OF assms(1)]
  by (simp add: review_item_def bulk_check_def bulk_write_def stale_version_def decision_status_def Let_def)

end
