(* ===== verification/AutoRejection.thy ===== *)
theory AutoRejection
  imports LoanStore
begin

text \<open>
  The rules that reject an application at its submission: \<^verbatim>\<open>backend/src/services/autoRejectionRules.ts\<close>,
  \<^verbatim>\<open>backend/src/services/autoRejectionRuleStore.ts\<close> and the three handlers of \<^verbatim>\<open>backend/src/routes/admin.ts\<close> that
  administer them. A configuration is the JSON value that an administrator sent; the judgement \<open>rule_typed\<close> says when it has the
  shape its type promises. The texts of numbers are arguments; the mail of a rejection and log lines are left
  out. The lemmas show that rules of that shape decide as they read, and what a rejection writes.
\<close>

section \<open>Rules\<close>

datatype rule_kind = MIN_CREDIT_SCORE | MAX_DEBT_TO_INCOME | REQUIRES_VERIFICATION

record rejection_rule =
  rj_id :: string
  rj_name :: string
  rj_ruleType :: rule_kind
  rj_config :: js_value
  rj_active :: bool
  rj_priority :: int

record applicant_snapshot =
  as_verificationStatus :: string
  as_creditScore :: "int option"
  as_monthlyIncome :: "rat option"

record rule_failure =
  rf_ruleId :: string
  rf_ruleName :: string
  rf_ruleType :: rule_kind
  rf_reason :: string
  rf_scoreReasons :: "js_value option"

record rule_evaluation =
  re_rejected :: bool
  re_failures :: "rule_failure list"

definition parseMonthlyIncome :: "string option \<Rightarrow> rat option" where
  "parseMonthlyIncome raw =
     (case raw of
        None \<Rightarrow> None
      | Some s \<Rightarrow>
          if js_trim s = [] then None
          else (case js_number s of None \<Rightarrow> None | Some value \<Rightarrow> if value > 0 then Some value else None))"

definition estimateDebtToIncomeRatio :: "rat \<Rightarrow> rat \<Rightarrow> rat" where
  "estimateDebtToIncomeRatio loanAmount monthlyIncome = (loanAmount * (12 / 100)) / (monthlyIncome * 12)"

text \<open>The number a value is in a comparison, absent for one that is none.\<close>

fun number_of :: "js_value \<Rightarrow> rat option" where
  "number_of (JNum x) = Some x"
| "number_of (JStr s) = js_number s"
| "number_of (JBool b) = Some (if b then 1 else 0)"
| "number_of JNull = Some 0"
| "number_of JUndefined = None"
| "number_of (JObj _) = None"
| "number_of (JArr []) = Some 0"
| "number_of (JArr [v]) = (case v of JBool _ \<Rightarrow> None | JNull \<Rightarrow> Some 0 | JUndefined \<Rightarrow> Some 0 | _ \<Rightarrow> number_of v)"
| "number_of (JArr (_ # _ # _)) = None"

text \<open>A comparison with what is no number is false.\<close>

definition less_than :: "rat \<Rightarrow> js_value \<Rightarrow> bool" where
  "less_than x v = (case number_of v of None \<Rightarrow> False | Some y \<Rightarrow> x < y)"

definition greater_than :: "rat \<Rightarrow> js_value \<Rightarrow> bool" where
  "greater_than x v = (case number_of v of None \<Rightarrow> False | Some y \<Rightarrow> y < x)"

text \<open>The texts of a value in a template and of a percentage with one decimal.\<close>

record rule_texts =
  rt_value :: "js_value \<Rightarrow> string"
  rt_percent :: "rat option \<Rightarrow> string"

definition evaluateRule :: "rule_texts \<Rightarrow> rejection_rule \<Rightarrow> applicant_snapshot \<Rightarrow> rat \<Rightarrow> rule_failure option" where
  "evaluateRule texts rule applicant loanAmount =
     (let failed = (\<lambda>reason. Some \<lparr>rf_ruleId = rj_id rule, rf_ruleName = rj_name rule, rf_ruleType = rj_ruleType rule,
            rf_reason = reason, rf_scoreReasons = None\<rparr>)
      in case rj_ruleType rule of
        MIN_CREDIT_SCORE \<Rightarrow>
          (let min = js_field (rj_config rule) ''minCreditScore''
           in if (case as_creditScore applicant of None \<Rightarrow> True | Some score \<Rightarrow> less_than (of_int score) min)
              then failed (''Credit score '' @ (case as_creditScore applicant of None \<Rightarrow> ''unknown'' | Some score \<Rightarrow> show_int score) @
                     '' is below the minimum required score of '' @ rt_value texts min @ ''.'')
              else None)
      | MAX_DEBT_TO_INCOME \<Rightarrow>
          (let maxRatio = js_field (rj_config rule) ''maxRatio''
           in case as_monthlyIncome applicant of
                None \<Rightarrow> failed ''Monthly income is required to evaluate debt-to-income eligibility.''
              | Some income \<Rightarrow>
                  (let ratio = estimateDebtToIncomeRatio loanAmount income
                   in if greater_than ratio maxRatio
                      then failed (''Estimated debt-to-income ratio '' @ rt_percent texts (Some (ratio * 100)) @
                             ''% exceeds the maximum allowed '' @ rt_percent texts (map_option (\<lambda>m. m * 100) (number_of maxRatio)) @ ''%.'')
                      else None))
      | REQUIRES_VERIFICATION \<Rightarrow>
          (let requiredStatus = js_field (rj_config rule) ''requiredStatus''
           in if JStr (as_verificationStatus applicant) \<noteq> requiredStatus
              then failed (''Verification status must be '' @ rt_value texts requiredStatus @ ''; current status is '' @
                     as_verificationStatus applicant @ ''.'')
              else None))"

definition evaluateApplicantAgainstRules :: "rule_texts \<Rightarrow> rejection_rule list \<Rightarrow> applicant_snapshot \<Rightarrow> rat \<Rightarrow> rule_evaluation" where
  "evaluateApplicantAgainstRules texts rules applicant loanAmount =
     (let failures = List.map_filter (\<lambda>rule. if rj_active rule then evaluateRule texts rule applicant loanAmount else None) rules
      in \<lparr>re_rejected = length failures > 0, re_failures = failures\<rparr>)"

definition applicantSnapshotFromRecord :: "string \<Rightarrow> int option \<Rightarrow> string option \<Rightarrow> applicant_snapshot" where
  "applicantSnapshotFromRecord verificationStatus creditScore monthlyIncome =
     \<lparr>as_verificationStatus = verificationStatus, as_creditScore = creditScore, as_monthlyIncome = parseMonthlyIncome monthlyIncome\<rparr>"

fun numbered_reasons :: "nat \<Rightarrow> rule_failure list \<Rightarrow> string list" where
  "numbered_reasons i [] = []"
| "numbered_reasons i (f # fs) = (show_int (int i + 1) @ ''. '' @ rf_reason f) # numbered_reasons (i + 1) fs"

definition formatAutoRejectionReason :: "rule_failure list \<Rightarrow> string" where
  "formatAutoRejectionReason failures =
     (case failures of [f] \<Rightarrow> rf_reason f | _ \<Rightarrow> js_join '' '' (numbered_reasons 0 failures))"

section \<open>The store of rules\<close>

text \<open>
  The rules with the time of their creation, next to the tables of the applications: the income of each applicant as it is stored, which
  is encrypted, the reasons of its latest score, and the log of rejections.
\<close>

record rejection_db =
  rd_store :: loan_store
  rd_rules :: "(string, rejection_rule \<times> int) js_map"
  rd_storedIncome :: "(string, string) js_map"
  rd_scoreReasons :: "(string, js_value) js_map"
  rd_logs :: "(string \<times> string \<times> string) list"
  rd_autoRejectedAt :: "(string, int) js_map"

definition listAutoRejectionRules :: "rejection_db \<Rightarrow> bool \<Rightarrow> rejection_rule list" where
  "listAutoRejectionRules db includeInactive =
     map fst (sort_key (\<lambda>(r, createdAt). (rj_priority r, createdAt)) (filter (\<lambda>(r, _). includeInactive \<or> rj_active r) (map_values (rd_rules db))))"

definition createAutoRejectionRule ::
    "rejection_db \<Rightarrow> string \<Rightarrow> string \<Rightarrow> rule_kind \<Rightarrow> js_value \<Rightarrow> bool option \<Rightarrow> int option \<Rightarrow> int \<Rightarrow> rejection_db \<times> rejection_rule" where
  "createAutoRejectionRule db newId name ruleType config active priority now =
     (let rule = \<lparr>rj_id = newId, rj_name = name, rj_ruleType = ruleType, rj_config = config, rj_active = or_else active True,
                  rj_priority = or_else priority 0\<rparr>
      in (db\<lparr>rd_rules := map_set (rd_rules db) newId (rule, now)\<rparr>, rule))"

record rule_patch =
  rp_name :: "string option"
  rp_config :: "js_value option"
  rp_active :: "bool option"
  rp_priority :: "int option"

definition updateAutoRejectionRule :: "rejection_db \<Rightarrow> string \<Rightarrow> rule_patch \<Rightarrow> (rejection_db \<times> rejection_rule) option" where
  "updateAutoRejectionRule db k patch =
     (case map_get (rd_rules db) k of
        None \<Rightarrow> None
      | Some (rule, createdAt) \<Rightarrow>
          (let rule' = rule\<lparr>rj_name := or_else (rp_name patch) (rj_name rule), rj_config := or_else (rp_config patch) (rj_config rule),
                 rj_active := or_else (rp_active patch) (rj_active rule), rj_priority := or_else (rp_priority patch) (rj_priority rule)\<rparr>
           in Some (db\<lparr>rd_rules := map_set (rd_rules db) k (rule', createdAt)\<rparr>, rule')))"

section \<open>Administration\<close>

definition js_true :: "js_value \<Rightarrow> bool" where
  "js_true v = (case v of JUndefined \<Rightarrow> False | JNull \<Rightarrow> False | JBool b \<Rightarrow> b | JNum x \<Rightarrow> x \<noteq> 0 | JStr s \<Rightarrow> s \<noteq> [] | _ \<Rightarrow> True)"

definition rule_kind_of :: "js_value \<Rightarrow> rule_kind option" where
  "rule_kind_of v =
     (if v = JStr ''MIN_CREDIT_SCORE'' then Some MIN_CREDIT_SCORE
      else if v = JStr ''MAX_DEBT_TO_INCOME'' then Some MAX_DEBT_TO_INCOME
      else if v = JStr ''REQUIRES_VERIFICATION'' then Some REQUIRES_VERIFICATION else None)"

text \<open>What the columns take for an optional field: nothing, a value of the type, or an error.\<close>

definition bool_column :: "js_value \<Rightarrow> bool option option" where
  "bool_column v = (if js_absent v then Some None else case v of JBool b \<Rightarrow> Some (Some b) | _ \<Rightarrow> None)"

definition int_column :: "js_value \<Rightarrow> int option option" where
  "int_column v = (if js_absent v then Some None else case js_integer v of None \<Rightarrow> None | Some i \<Rightarrow> Some (Some i))"

datatype rule_reply = Rule_reply int rejection_rule | Rules_reply "rejection_rule list" | Error_reply int string

definition list_rules_handler :: "rejection_db \<Rightarrow> rule_reply" where
  "list_rules_handler db = Rules_reply (listAutoRejectionRules db True)"

definition create_rule_handler :: "rule_texts \<Rightarrow> rejection_db \<Rightarrow> js_value \<Rightarrow> string \<Rightarrow> int \<Rightarrow> rejection_db \<times> rule_reply" where
  "create_rule_handler texts db body newId now =
     (let name = js_field body ''name''; ruleType = js_field body ''ruleType''; config = js_field body ''config''
      in if \<not> js_true name \<or> \<not> js_true ruleType \<or> \<not> js_true config then (db, Error_reply 400 ''invalid_request'')
         else (case (rule_kind_of ruleType, bool_column (js_field body ''active''), int_column (js_field body ''priority'')) of
             (Some kind, Some active, Some priority) \<Rightarrow>
               (case createAutoRejectionRule db newId (rt_value texts name) kind config active priority now of
                  (db', rule) \<Rightarrow> (db', Rule_reply 201 rule))
           | _ \<Rightarrow> (db, Error_reply 500 ''failed_to_create_rule'')))"

text \<open>\<open>Number(priority)\<close> has to be an integer for the column, and a configuration not null.\<close>

definition update_rule_handler :: "rule_texts \<Rightarrow> rejection_db \<Rightarrow> string \<Rightarrow> js_value \<Rightarrow> rejection_db \<times> rule_reply" where
  "update_rule_handler texts db k body =
     (let name = js_field body ''name''; config = js_field body ''config''; active = js_field body ''active'';
          priority = js_field body ''priority''; missing = (db, Error_reply 404 ''rule_not_found'')
      in if config = JNull then missing
         else (case (if priority = JUndefined then Some None
                     else case number_of priority of None \<Rightarrow> None | Some x \<Rightarrow> map_option Some (js_integer (JNum x))) of
             None \<Rightarrow> missing
           | Some newPriority \<Rightarrow>
               (case updateAutoRejectionRule db k
                    \<lparr>rp_name = (if name = JUndefined then None else Some (rt_value texts name)),
                     rp_config = (if config = JUndefined then None else Some config),
                     rp_active = (if active = JUndefined then None else Some (js_true active)), rp_priority = newPriority\<rparr> of
                  None \<Rightarrow> missing
                | Some (db', rule) \<Rightarrow> (db', Rule_reply 200 rule))))"

section \<open>Applying the rules\<close>

definition evaluateLoanApplication :: "rule_texts \<Rightarrow> rejection_db \<Rightarrow> string \<Rightarrow> rat \<Rightarrow> rule_evaluation" where
  "evaluateLoanApplication texts db applicantId loanAmount =
     (case map_get (st_applicants (rd_store db)) applicantId of
        None \<Rightarrow> \<lparr>re_rejected = False, re_failures = []\<rparr>
      | Some a \<Rightarrow>
          evaluateApplicantAgainstRules texts (listAutoRejectionRules db False)
            (applicantSnapshotFromRecord (ap_verificationStatus a) (ap_creditScore a) (map_get (rd_storedIncome db) applicantId)) loanAmount)"

definition with_score_reasons :: "rejection_db \<Rightarrow> string \<Rightarrow> rule_failure list \<Rightarrow> rule_failure list" where
  "with_score_reasons db applicantId failures =
     (case map_get (rd_scoreReasons db) applicantId of
        None \<Rightarrow> failures
      | Some reasons \<Rightarrow>
          if js_true reasons
          then map (\<lambda>f. if rf_ruleType f = MIN_CREDIT_SCORE then f\<lparr>rf_scoreReasons := Some reasons\<rparr> else f) failures
          else failures)"

definition reject_row :: "string \<Rightarrow> int \<Rightarrow> loan_row \<Rightarrow> loan_row" where
  "reject_row reason now r =
     r\<lparr>lo_status := Rejected, lo_reason := Some reason, lo_statusUpdatedAt := now, lo_version := lo_version r + 1\<rparr>"

text \<open>An audit entry of a rejection has no change set.\<close>

definition rejection_entry :: "string \<Rightarrow> audit_row" where
  "rejection_entry applicationId =
     \<lparr>ar_action = LOAN_AUDIT_ACTION_PREFIX @ ''auto_rejected'', ar_actorAddress = None, ar_ipAddress = None,
      ar_applicationId = applicationId, ar_metadata = Other_meta\<rparr>"

text \<open>The transaction fails as a whole when the application is gone.\<close>

definition applyAutoRejectionIfNeeded ::
    "rule_texts \<Rightarrow> rejection_db \<Rightarrow> string \<Rightarrow> string \<Rightarrow> rat \<Rightarrow> int \<Rightarrow> (rejection_db \<times> bool \<times> rule_evaluation) option" where
  "applyAutoRejectionIfNeeded texts db applicationId applicantId loanAmount now =
     (let evaluation = evaluateLoanApplication texts db applicantId loanAmount
      in if \<not> re_rejected evaluation then Some (db, False, evaluation)
         else (let failures = with_score_reasons db applicantId (re_failures evaluation);
                   reason = formatAutoRejectionReason failures; st = rd_store db
               in case map_get (st_loans st) applicationId of
                    None \<Rightarrow> None
                  | Some r \<Rightarrow>
                      Some (db\<lparr>rd_store := st\<lparr>st_loans := map_set (st_loans st) applicationId (reject_row reason now r),
                                  st_audit := foldl (\<lambda>audit _. list_create audit (rejection_entry applicationId) now) (st_audit st) failures\<rparr>,
                               rd_logs := rd_logs db @ map (\<lambda>f. (applicationId, rf_ruleId f, rf_reason f)) failures,
                               rd_autoRejectedAt := map_set (rd_autoRejectedAt db) applicationId now\<rparr>,
                            True, evaluation\<lparr>re_failures := failures\<rparr>)))"

section \<open>Typed rules\<close>

text \<open>What a rule says when its configuration has the shape of its type.\<close>

datatype typed_rule = At_least rat | At_most rat | Must_be string

inductive rule_typed :: "rejection_rule \<Rightarrow> typed_rule \<Rightarrow> bool" where
  min_score: "rj_ruleType rule = MIN_CREDIT_SCORE \<Longrightarrow> js_field (rj_config rule) ''minCreditScore'' = JNum x \<Longrightarrow> rule_typed rule (At_least x)"
| max_ratio: "rj_ruleType rule = MAX_DEBT_TO_INCOME \<Longrightarrow> js_field (rj_config rule) ''maxRatio'' = JNum x \<Longrightarrow> rule_typed rule (At_most x)"
| verified: "rj_ruleType rule = REQUIRES_VERIFICATION \<Longrightarrow> js_field (rj_config rule) ''requiredStatus'' = JStr s \<Longrightarrow> rule_typed rule (Must_be s)"

inductive_simps rule_typed_simps: "rule_typed rule (At_least x)" "rule_typed rule (At_most x)" "rule_typed rule (Must_be s)"

inductive_cases rule_typed_cases: "rule_typed rule t"

fun violates :: "typed_rule \<Rightarrow> applicant_snapshot \<Rightarrow> rat \<Rightarrow> bool" where
  "violates (At_least x) a loanAmount \<longleftrightarrow> (case as_creditScore a of None \<Rightarrow> True | Some score \<Rightarrow> of_int score < x)"
| "violates (At_most x) a loanAmount \<longleftrightarrow>
     (case as_monthlyIncome a of None \<Rightarrow> True | Some income \<Rightarrow> x * 100 * income < loanAmount)"
| "violates (Must_be s) a loanAmount \<longleftrightarrow> as_verificationStatus a \<noteq> s"

text \<open>A rule has one reading at most.\<close>

lemma rule_typed_unique: "rule_typed rule t \<Longrightarrow> rule_typed rule t' \<Longrightarrow> t = t'"
  by (elim rule_typed_cases) simp_all

lemma income_positive: "as_monthlyIncome (applicantSnapshotFromRecord v c raw) = Some income \<Longrightarrow> 0 < income"
  by (auto simp: applicantSnapshotFromRecord_def parseMonthlyIncome_def split: option.splits if_splits)

lemma ratio_exceeds: "0 < income \<Longrightarrow> x < estimateDebtToIncomeRatio loanAmount income \<longleftrightarrow> x * 100 * income < loanAmount"
  by (simp add: estimateDebtToIncomeRatio_def field_simps)

lemma typed_rule_decides:
  assumes "rule_typed rule t" "\<And>income. as_monthlyIncome a = Some income \<Longrightarrow> 0 < income"
  shows "(evaluateRule texts rule a loanAmount = None \<longleftrightarrow> \<not> violates t a loanAmount) \<and>
    (\<forall>f. evaluateRule texts rule a loanAmount = Some f \<longrightarrow> rf_ruleId f = rj_id rule)"
  using assms(1)
proof cases
  case (min_score x)
  then show ?thesis by (auto simp: evaluateRule_def Let_def less_than_def split: option.split)
next
  case (max_ratio x)
  then show ?thesis
    using ratio_exceeds [OF assms(2)] by (auto simp: evaluateRule_def Let_def greater_than_def split: option.split)
next
  case (verified s)
  then show ?thesis by (auto simp: evaluateRule_def Let_def)
qed

lemma listed_active: "rule \<in> set (listAutoRejectionRules db False) \<Longrightarrow> rj_active rule"
  by (auto simp: listAutoRejectionRules_def)

lemma typed_failures:
  assumes "\<forall>rule\<in>set rules. rj_active rule \<and> rule_typed rule (reading rule)"
    and "\<And>income. as_monthlyIncome a = Some income \<Longrightarrow> 0 < income"
  shows "map rf_ruleId (re_failures (evaluateApplicantAgainstRules texts rules a loanAmount)) =
    map rj_id (filter (\<lambda>rule. violates (reading rule) a loanAmount) rules)"
  using assms(1)
proof (induction rules)
  case (Cons rule rules)
  then have "(evaluateRule texts rule a loanAmount = None \<longleftrightarrow> \<not> violates (reading rule) a loanAmount) \<and>
      (\<forall>f. evaluateRule texts rule a loanAmount = Some f \<longrightarrow> rf_ruleId f = rj_id rule)"
    by (intro typed_rule_decides) (simp_all add: assms(2))
  then show ?case using Cons
    by (cases "evaluateRule texts rule a loanAmount") (auto simp: evaluateApplicantAgainstRules_def List.map_filter_def Let_def)
qed (simp add: evaluateApplicantAgainstRules_def List.map_filter_def)

lemma score_reasons_ids [simp]: "map rf_ruleId (with_score_reasons db i fs) = map rf_ruleId fs"
  by (auto simp: with_score_reasons_def comp_def split: option.split)

text \<open>
  C18. If every active rule is configured as its type demands, an application is rejected exactly when its applicant breaks
  one of them as it reads. It is then rejected under the broken rules, in the order of their priority, with a log
  entry for each; otherwise nothing is written.
\<close>

theorem typed_rules_decide:
  assumes "map_get (st_applicants (rd_store db)) i = Some a"
    and "\<forall>rule\<in>set (listAutoRejectionRules db False). rule_typed rule (reading rule)"
    and "snapshot = applicantSnapshotFromRecord (ap_verificationStatus a) (ap_creditScore a) (map_get (rd_storedIncome db) i)"
    and "broken = filter (\<lambda>rule. violates (reading rule) snapshot loanAmount) (listAutoRejectionRules db False)"
    and "applyAutoRejectionIfNeeded texts db k i loanAmount now = Some (db', rejected, evaluation)"
  shows "(rejected \<longleftrightarrow> broken \<noteq> []) \<and> map rf_ruleId (re_failures evaluation) = map rj_id broken \<and>
    (if rejected
     then \<exists>r reasons. map_get (st_loans (rd_store db)) k = Some r \<and>
       st_loans (rd_store db') = map_set (st_loans (rd_store db)) k (reject_row (formatAutoRejectionReason (re_failures evaluation)) now r) \<and>
       rd_logs db' = rd_logs db @ reasons \<and> map (\<lambda>(k', rule, _). (k', rule)) reasons = map (\<lambda>rule. (k, rj_id rule)) broken
     else db' = db)"
proof -
  let ?e = "evaluateLoanApplication texts db i loanAmount" and ?fs = "with_score_reasons db i (re_failures (evaluateLoanApplication texts db i loanAmount))"
  have e: "?e = evaluateApplicantAgainstRules texts (listAutoRejectionRules db False) snapshot loanAmount"
    using assms(1,3) by (simp add: evaluateLoanApplication_def)
  have ids: "map rf_ruleId (re_failures ?e) = map rj_id broken"
    unfolding e assms(4) by (rule typed_failures) (use assms(2) listed_active income_positive in \<open>auto simp: assms(3)\<close>)
  have some: "re_rejected ?e \<longleftrightarrow> broken \<noteq> []"
    unfolding e using arg_cong [OF ids [unfolded e], of length] by (auto simp: evaluateApplicantAgainstRules_def Let_def)
  show ?thesis
  proof (cases "re_rejected ?e")
    case False
    then show ?thesis using assms(5) ids some by (auto simp: applyAutoRejectionIfNeeded_def Let_def)
  next
    case True
    then obtain r where r: "map_get (st_loans (rd_store db)) k = Some r" "rejected" "re_failures evaluation = ?fs"
      "st_loans (rd_store db') = map_set (st_loans (rd_store db)) k (reject_row (formatAutoRejectionReason ?fs) now r)"
      "rd_logs db' = rd_logs db @ map (\<lambda>f. (k, rf_ruleId f, rf_reason f)) ?fs"
      using assms(5) by (auto simp: applyAutoRejectionIfNeeded_def Let_def split: option.splits)
    have "map (\<lambda>f. (k, rf_ruleId f)) ?fs = map (Pair k) (map rf_ruleId ?fs)" by (simp add: comp_def del: score_reasons_ids)
    also have "\<dots> = map (\<lambda>rule. (k, rj_id rule)) broken" unfolding score_reasons_ids ids by simp
    finally have "map (\<lambda>f. (k, rf_ruleId f)) ?fs = map (\<lambda>rule. (k, rj_id rule)) broken" .
    then show ?thesis using r some True ids by (auto simp: comp_def)
  qed
qed

definition min_rule :: "js_value \<Rightarrow> rejection_rule" where
  "min_rule config = \<lparr>rj_id = ''m'', rj_name = ''score'', rj_ruleType = MIN_CREDIT_SCORE, rj_config = config, rj_active = True, rj_priority = 0\<rparr>"

definition rejection0 :: rejection_db where
  "rejection0 = \<lparr>rd_store = store1, rd_rules = [(''m'', min_rule (JObj [(''minCreditScore'', JNum 600)]), 1)], rd_storedIncome = [],
     rd_scoreReasons = [], rd_logs = [], rd_autoRejectedAt = []\<rparr>"

definition texts0 :: rule_texts where
  "texts0 = \<lparr>rt_value = (\<lambda>v. case v of JStr s \<Rightarrow> s | JNum x \<Rightarrow> show_int \<lfloor>x\<rfloor> | _ \<Rightarrow> ''?''),
     rt_percent = (\<lambda>x. case x of None \<Rightarrow> ''NaN'' | Some y \<Rightarrow> show_int \<lfloor>y\<rfloor> @ ''.0'')\<rparr>"

theorem typed_rules_decide_witness:
  "\<exists>db' evaluation. applyAutoRejectionIfNeeded texts0 rejection0 ''l'' ''a'' 100 9 = Some (db', True, evaluation) \<and>
     map rf_ruleId (re_failures evaluation) = [''m'']"
proof -
  have rules: "listAutoRejectionRules rejection0 False = [min_rule (JObj [(''minCreditScore'', JNum 600)])]"
    by (simp add: listAutoRejectionRules_def rejection0_def min_rule_def)
  obtain a where a: "map_get (st_applicants (rd_store rejection0)) ''a'' = Some a" "ap_creditScore a = None"
    by (simp add: rejection0_def store1_def)
  have loan: "map_get (st_loans (rd_store rejection0)) ''l'' \<noteq> None" by (simp add: rejection0_def store1_def)
  have "applyAutoRejectionIfNeeded texts0 rejection0 ''l'' ''a'' 100 9 \<noteq> None"
    using loan by (auto simp: applyAutoRejectionIfNeeded_def Let_def)
  then obtain db' rejected evaluation where run: "applyAutoRejectionIfNeeded texts0 rejection0 ''l'' ''a'' 100 9 = Some (db', rejected, evaluation)"
    by (cases "applyAutoRejectionIfNeeded texts0 rejection0 ''l'' ''a'' 100 9") (auto simp: prod_eq_iff)
  then show ?thesis
    using typed_rules_decide [OF a(1) _ refl refl run, of "\<lambda>_. At_least 600"] a(2)
    by (simp add: rules rule_typed_simps min_rule_def js_field_def applicantSnapshotFromRecord_def)
qed

section \<open>Deviations\<close>

text \<open>A misspelt configuration is accepted, and a score rule then lets every score pass.\<close>

lemma untyped_score_rule_passes:
  "js_field config ''minCreditScore'' = JUndefined \<Longrightarrow> as_creditScore a = Some score \<Longrightarrow> evaluateRule texts (min_rule config) a loanAmount = None"
  by (simp add: evaluateRule_def min_rule_def less_than_def)

lemma untyped_rule_accepted:
  "\<exists>db' rule. create_rule_handler texts0 rejection0 (JObj [(''name'', JStr ''score''), (''ruleType'', JStr ''MIN_CREDIT_SCORE''),
       (''config'', JObj [(''minimum'', JNum 600)])]) ''n'' 5 = (db', Rule_reply 201 rule) \<and> rj_active rule \<and> (\<nexists>t. rule_typed rule t)"
  by (auto simp: create_rule_handler_def createAutoRejectionRule_def js_field_def js_true_def rule_kind_of_def bool_column_def
      int_column_def js_absent_def Let_def elim!: rule_typed_cases)

text \<open>The stored income is encrypted and is read as it is stored: under a debt rule it is missing for everybody.\<close>

lemma stored_income_unreadable:
  assumes "map_get (rd_storedIncome db) i = Some ciphertext" "js_number ciphertext = None" "rj_ruleType rule = MAX_DEBT_TO_INCOME"
  shows "evaluateRule texts rule (applicantSnapshotFromRecord v c (map_get (rd_storedIncome db) i)) loanAmount \<noteq> None"
  using assms by (simp add: evaluateRule_def applicantSnapshotFromRecord_def parseMonthlyIncome_def)

text \<open>The history passes over an automatic rejection.\<close>

lemma other_entries_not_replayed:
  "replay (list_find (foldl (\<lambda>audit _. list_create audit (rejection_entry k) now) audit fs) p asOf j) s u =
     replay (list_find audit p asOf j) s u"
proof (induction fs arbitrary: audit)
  case (Cons f fs)
  have "replay (list_find (list_create audit (rejection_entry k) now) p asOf j) s u = replay (list_find audit p asOf j) s u"
    by (auto simp: list_find_def list_create_def replay_append rejection_entry_def entry_of_def split_beta)
  with Cons show ?case by simp
qed simp

lemma auto_rejection_not_replayed:
  assumes "applyAutoRejectionIfNeeded texts db k i loanAmount now = Some (db', rejected, evaluation)" "now \<le> asOf"
  shows "replay (trail_of (rd_store db') asOf j) s u = replay (trail_of (rd_store db) asOf j) s u"
proof (cases "rejected")
  case False
  then show ?thesis using assms(1) by (auto simp: applyAutoRejectionIfNeeded_def Let_def split: if_splits option.splits)
next
  case True
  then obtain fs where fs: "st_audit (rd_store db') =
      foldl (\<lambda>audit _. list_create audit (rejection_entry k) now) (st_audit (rd_store db)) (fs :: rule_failure list)"
    using assms(1) by (auto simp: applyAutoRejectionIfNeeded_def Let_def split: if_splits option.splits)
  then show ?thesis unfolding trail_of_def using other_entries_not_replayed by metis
qed

end
