(* ===== verification/LoanRoutes.thy ===== *)
theory LoanRoutes
  imports AutoRejection FuzzyMatch
begin

text \<open>
  The requests that submit and decide loan applications: the handlers of \<^verbatim>\<open>backend/src/routes/loan.ts\<close>, the gates of
  \<^verbatim>\<open>backend/src/security/requireResourceOwnership.ts\<close> and the match of tax identifiers of
  \<^verbatim>\<open>backend/src/services/taxIdDedup.ts\<close>, over the application store, the rejection rules and the duplicate
  search. The text fields of a body are taken as texts; the keyed hash, the parsing of a date and the texts
  of values are arguments. Mails, webhooks, log lines and the comment threads are left out; so is the cache of
  answers in front of submission and approval. The lemmas show who can change which row.
\<close>

section \<open>Tax identifiers\<close>

record loan_db =
  ld_rejection :: rejection_db
  ld_taxId :: "(string, string) js_map"
  ld_taxIdHash :: "(string, string) js_map"
  ld_kycExpired :: "(string \<times> bool) list"

definition ld_store :: "loan_db \<Rightarrow> loan_store" where
  "ld_store db = rd_store (ld_rejection db)"

definition put_store :: "loan_db \<Rightarrow> loan_store \<Rightarrow> loan_db" where
  "put_store db st = db\<lparr>ld_rejection := (ld_rejection db)\<lparr>rd_store := st\<rparr>\<rparr>"

definition DUPLICATE_TAX_ID_REVIEW_REASON :: string where
  "DUPLICATE_TAX_ID_REVIEW_REASON = ''DUPLICATE_TAX_ID''"

definition applicant_at :: "loan_db \<Rightarrow> string \<Rightarrow> (string \<times> applicant_row) option" where
  "applicant_at db stellarAddress = find (\<lambda>(k, a). ap_stellarAddress a = stellarAddress) (st_applicants (ld_store db))"

text \<open>An update of an applicant that does not exist throws.\<close>

definition recordApplicantTaxIdHash :: "(string \<Rightarrow> string option) \<Rightarrow> loan_db \<Rightarrow> string \<Rightarrow> string \<Rightarrow> loan_db option" where
  "recordApplicantTaxIdHash hashTaxId db stellarAddress raw =
     (case hashTaxId raw of
        None \<Rightarrow> Some db
      | Some h \<Rightarrow>
          (case applicant_at db stellarAddress of
             None \<Rightarrow> None
           | Some (k, _) \<Rightarrow> Some (db\<lparr>ld_taxIdHash := map_set (ld_taxIdHash db) k h\<rparr>)))"

definition findMatchesByHash :: "loan_db \<Rightarrow> string \<Rightarrow> string \<Rightarrow> string list" where
  "findMatchesByHash db taxIdHash excludeStellarAddress =
     map fst (filter (\<lambda>(k, a). map_get (ld_taxIdHash db) k = Some taxIdHash \<and> ap_deletedAt a = None \<and>
       (excludeStellarAddress = [] \<or> ap_stellarAddress a \<noteq> excludeStellarAddress)) (st_applicants (ld_store db)))"

definition findTaxIdMatches :: "(string \<Rightarrow> string option) \<Rightarrow> loan_db \<Rightarrow> string \<Rightarrow> string \<Rightarrow> string list" where
  "findTaxIdMatches hashTaxId db raw excludeStellarAddress =
     (case hashTaxId raw of None \<Rightarrow> [] | Some h \<Rightarrow> findMatchesByHash db h excludeStellarAddress)"

text \<open>The reviewer's view: the reason of the hold and who shares the identifier.\<close>

definition getTaxIdMatchesForApplication :: "loan_db \<Rightarrow> string \<Rightarrow> (string option \<times> string list) option" where
  "getTaxIdMatchesForApplication db k =
     (case live_row (ld_store db) k of
        None \<Rightarrow> None
      | Some r \<Rightarrow>
          Some (lo_manualReviewReason r,
            case truthy_text (map_get (ld_taxIdHash db) (lo_applicantId r)) of
              None \<Rightarrow> [] | Some h \<Rightarrow> findMatchesByHash db h (address_of (ld_store db) r)))"

definition hasExpiredKycDocuments :: "loan_db \<Rightarrow> string \<Rightarrow> bool" where
  "hasExpiredKycDocuments db applicantId \<longleftrightarrow> length (filter (\<lambda>(k, expired). k = applicantId \<and> expired) (ld_kycExpired db)) > 0"

section \<open>Gates\<close>

datatype loan_reply =
    Refused int string
  | Conflict int loan_application
  | Shown loan_application
  | Listed "loan_application list"
  | History loan_view
  | Created loan_application "duplicate_check option"
  | Auto_rejected "loan_application option" rule_evaluation
  | Promise_shown

text \<open>\<open>adminRaw\<close> is the configured wallet of the administrator.\<close>

definition adminWalletAddress :: "string option \<Rightarrow> string option" where
  "adminWalletAddress adminRaw =
     (case truthy_text adminRaw of None \<Rightarrow> None | Some raw \<Rightarrow> if js_trim raw = [] then None else Some (js_lower (js_trim raw)))"

definition isAdminRequest :: "string option \<Rightarrow> string option \<Rightarrow> bool" where
  "isAdminRequest adminRaw wallet =
     (case (truthy_text wallet, adminWalletAddress adminRaw) of (Some w, Some admin) \<Rightarrow> js_lower w = admin | _ \<Rightarrow> False)"

definition requireBorrowerAddressOwnership :: "string option \<Rightarrow> string option \<Rightarrow> string \<Rightarrow> loan_reply option" where
  "requireBorrowerAddressOwnership adminRaw wallet address =
     (case truthy_text wallet of
        None \<Rightarrow> Some (Refused 401 ''unauthorized'')
      | Some caller \<Rightarrow>
          if js_lower caller = js_lower address \<or> isAdminRequest adminRaw wallet then None else Some (Refused 403 ''forbidden''))"

definition requireLoanOwnership :: "'db store_library \<Rightarrow> string option \<Rightarrow> loan_store \<Rightarrow> string option \<Rightarrow> string \<Rightarrow> loan_reply + loan_application" where
  "requireLoanOwnership lib adminRaw st wallet loanId =
     (case truthy_text wallet of
        None \<Rightarrow> Inl (Refused 401 ''unauthorized'')
      | Some caller \<Rightarrow>
          (case getApplication lib st loanId of
             None \<Rightarrow> Inl (Refused 404 ''not_found'')
           | Some app \<Rightarrow>
               if js_lower (la_borrowerAddress app) = js_lower caller \<or> isAdminRequest adminRaw wallet then Inr app
               else Inl (Refused 403 ''forbidden'')))"

definition requireLoanAdmin :: "'db store_library \<Rightarrow> string option \<Rightarrow> loan_store \<Rightarrow> string option \<Rightarrow> string \<Rightarrow> loan_reply + loan_application" where
  "requireLoanAdmin lib adminRaw st wallet loanId =
     (case getApplication lib st loanId of
        None \<Rightarrow> Inl (Refused 404 ''not_found'')
      | Some app \<Rightarrow> if isAdminRequest adminRaw wallet then Inr app else Inl (Refused 403 ''forbidden''))"

section \<open>Decisions\<close>

definition parseExpectedVersion :: "js_value \<Rightarrow> int option" where
  "parseExpectedVersion raw = (case js_integer raw of None \<Rightarrow> None | Some v \<Rightarrow> if v \<ge> 1 then Some v else None)"

text \<open>The three gates of a decision: the administrator, the version sent, and the version found.\<close>

definition decision_gate ::
    "'db store_library \<Rightarrow> string option \<Rightarrow> loan_store \<Rightarrow> string option \<Rightarrow> string \<Rightarrow> js_value \<Rightarrow> loan_reply + (loan_application \<times> int)" where
  "decision_gate lib adminRaw st wallet k rawVersion =
     (case requireLoanAdmin lib adminRaw st wallet k of
        Inl e \<Rightarrow> Inl e
      | Inr app \<Rightarrow>
          (case parseExpectedVersion rawVersion of
             None \<Rightarrow> Inl (Refused 400 ''missing_field'')
           | Some v \<Rightarrow> if la_version app \<noteq> v then Inl (Conflict v app) else Inr (app, v)))"

definition no_patch :: loan_patch where
  "no_patch = \<lparr>lp_borrowerAddress = None, lp_amount = None, lp_status = None, lp_reason = None\<rparr>"

definition update_error_reply :: "store_error \<Rightarrow> string \<Rightarrow> loan_reply" where
  "update_error_reply e message = (case e of Stale_version current v \<Rightarrow> Conflict v current | _ \<Rightarrow> Refused 500 message)"

text \<open>
  The second update, to \<open>Disbursing\<close>, is neither guarded nor awaited: the answer is its promise, and its failure goes
  unnoticed. \<open>notified\<close> tells whether the notifications in between went out.
\<close>

definition approve_handler ::
    "'db store_library \<Rightarrow> string option \<Rightarrow> loan_store \<Rightarrow> string option \<Rightarrow> string \<Rightarrow> js_value \<Rightarrow> bool \<Rightarrow> int \<Rightarrow> loan_store \<times> loan_reply" where
  "approve_handler lib adminRaw st wallet k rawVersion notified now =
     (case decision_gate lib adminRaw st wallet k rawVersion of
        Inl e \<Rightarrow> (st, e)
      | Inr (app, v) \<Rightarrow>
          if la_status app \<noteq> Pending then (st, Refused 400 ''invalid_state'')
          else if truthy_text (la_guarantorAddress app) \<noteq> None \<and> la_guarantorStatus app \<noteq> Some G_accepted
          then (st, Refused 400 ''guarantor_not_accepted'')
          else (case updateApplication lib st k (no_patch\<lparr>lp_status := Some Approved\<rparr>) (Some v) now of
             (st1, Inl e) \<Rightarrow> (st1, update_error_reply e ''approve_failed'')
           | (st1, Inr approved) \<Rightarrow>
               (fst (updateApplication lib st1 k (no_patch\<lparr>lp_status := Some Disbursing\<rparr>) None now),
                if approved \<noteq> None \<and> \<not> notified then Refused 500 ''approve_failed'' else Promise_shown)))"

text \<open>A reason that is no text is refused by its column.\<close>

definition reject_handler ::
    "'db store_library \<Rightarrow> string option \<Rightarrow> loan_store \<Rightarrow> string option \<Rightarrow> string \<Rightarrow> js_value \<Rightarrow> js_value \<Rightarrow> int \<Rightarrow> loan_store \<times> loan_reply" where
  "reject_handler lib adminRaw st wallet k rawVersion reason now =
     (case decision_gate lib adminRaw st wallet k rawVersion of
        Inl e \<Rightarrow> (st, e)
      | Inr (app, v) \<Rightarrow>
          if la_status app \<noteq> Pending then (st, Refused 400 ''invalid_state'')
          else (case (if js_absent reason then Some ''No reason provided'' else case reason of JStr s \<Rightarrow> Some s | _ \<Rightarrow> None) of
             None \<Rightarrow> (st, Refused 500 ''reject_failed'')
           | Some text' \<Rightarrow>
               (case updateApplication lib st k (no_patch\<lparr>lp_status := Some Rejected, lp_reason := Some (Some text')\<rparr>) (Some v) now of
                  (st1, Inl e) \<Rightarrow> (st1, update_error_reply e ''reject_failed'')
                | (st1, Inr None) \<Rightarrow> (st1, Refused 200 ''null'')
                | (st1, Inr (Some updated)) \<Rightarrow> (st1, Shown updated))))"

definition review_handler ::
    "'db store_library \<Rightarrow> string option \<Rightarrow> loan_store \<Rightarrow> string option \<Rightarrow> string \<Rightarrow> js_value \<Rightarrow> js_value \<Rightarrow> js_value \<Rightarrow> js_value \<Rightarrow> int \<Rightarrow>
     loan_store \<times> loan_reply" where
  "review_handler lib adminRaw st wallet k reviewerId decision reason rawVersion now =
     (if \<not> js_true reviewerId \<or> \<not> js_true decision \<or> (decision \<noteq> JStr ''APPROVED'' \<and> decision \<noteq> JStr ''REJECTED'')
      then (st, Refused 400 ''invalid_request'')
      else (case decision_gate lib adminRaw st wallet k rawVersion of
        Inl e \<Rightarrow> (st, e)
      | Inr (app, v) \<Rightarrow>
          (let newStatus = (if decision = JStr ''APPROVED'' then Pending else Rejected)
           in case (if js_true reason then (case reason of JStr s \<Rightarrow> Some s | _ \<Rightarrow> None)
                    else Some (if decision = JStr ''APPROVED'' then ''Manual review approved'' else ''Manual review rejected duplicate'')) of
                None \<Rightarrow> (st, Refused 500 ''failed_to_process_review'')
              | Some text' \<Rightarrow>
                  (case updateApplication lib st k (no_patch\<lparr>lp_status := Some newStatus, lp_reason := Some (Some text')\<rparr>) (Some v) now of
                     (st1, Inl e) \<Rightarrow> (st1, update_error_reply e ''failed_to_process_review'')
                   | (st1, Inr None) \<Rightarrow> (st1, Refused 200 ''null'')
                   | (st1, Inr (Some updated)) \<Rightarrow> (st1, Shown updated)))))"

definition draft_handler ::
    "(loan_store \<Rightarrow> string \<Rightarrow> loan_store \<times> loan_application option) \<Rightarrow> 'db store_library \<Rightarrow> string option \<Rightarrow> loan_store \<Rightarrow> string option \<Rightarrow>
     string \<Rightarrow> loan_store \<times> loan_reply" where
  "draft_handler operation lib adminRaw st wallet k =
     (case requireLoanOwnership lib adminRaw st wallet k of
        Inl e \<Rightarrow> (st, e)
      | Inr _ \<Rightarrow>
          (case operation st k of
             (st1, None) \<Rightarrow> (st1, Refused 404 ''not_found_or_not_draft'')
           | (st1, Some app) \<Rightarrow> (st1, Shown app)))"

definition resume_handler :: "'db store_library \<Rightarrow> string option \<Rightarrow> loan_store \<Rightarrow> string option \<Rightarrow> string \<Rightarrow> int \<Rightarrow> loan_store \<times> loan_reply" where
  "resume_handler lib adminRaw st wallet k now = draft_handler (\<lambda>st k. resumeDraftApplication lib st k now) lib adminRaw st wallet k"

definition discard_handler :: "'db store_library \<Rightarrow> string option \<Rightarrow> loan_store \<Rightarrow> string option \<Rightarrow> string \<Rightarrow> int \<Rightarrow> loan_store \<times> loan_reply" where
  "discard_handler lib adminRaw st wallet k now = draft_handler (\<lambda>st k. discardDraftApplication lib st k now) lib adminRaw st wallet k"

section \<open>Reading\<close>

definition borrower_handler :: "'db store_library \<Rightarrow> string option \<Rightarrow> loan_store \<Rightarrow> string option \<Rightarrow> string \<Rightarrow> loan_reply" where
  "borrower_handler lib adminRaw st wallet address =
     (if \<not> sl_valid_address lib address then Refused 400 ''invalid_address''
      else case requireBorrowerAddressOwnership adminRaw wallet address of
        Some e \<Rightarrow> e
      | None \<Rightarrow> Listed (getApplicationsByBorrower lib st address))"

definition pending_handler :: "'db store_library \<Rightarrow> loan_store \<Rightarrow> loan_reply" where
  "pending_handler lib st = Listed (getPendingApplications lib st)"

text \<open>\<open>asOf\<close> is the query parameter, and \<open>date_of\<close> the milliseconds a text stands for.\<close>

definition show_handler ::
    "'db store_library \<Rightarrow> (string \<Rightarrow> int option) \<Rightarrow> string option \<Rightarrow> loan_store \<Rightarrow> string option \<Rightarrow> string \<Rightarrow> js_value \<Rightarrow> loan_reply" where
  "show_handler lib date_of adminRaw st wallet k asOf =
     (case requireLoanOwnership lib adminRaw st wallet k of
        Inl e \<Rightarrow> e
      | Inr current \<Rightarrow>
          (case asOf of
             JUndefined \<Rightarrow> Shown current
           | JStr s \<Rightarrow>
               (case date_of s of
                  None \<Rightarrow> Refused 400 ''invalid_asof''
                | Some t \<Rightarrow>
                    (case reconstructLoanApplicationAt list_find (st_audit st)
                        (map_option (\<lambda>r. \<lparr>lr_id = k, lr_createdAt = lo_createdAt r\<rparr>) (live_row st k)) k t (Some (snapshotOf current)) of
                       None \<Rightarrow> Refused 404 ''not_found_asof''
                     | Some view \<Rightarrow> History view))
           | _ \<Rightarrow> Refused 400 ''invalid_asof''))"

section \<open>Submission\<close>

record apply_body =
  ab_borrowerAddress :: "string option"
  ab_amount :: js_value
  ab_fullName :: "string option"
  ab_address :: "string option"
  ab_idDocumentNumber :: "string option"
  ab_taxId :: "string option"

definition first_text :: "string option \<Rightarrow> string option \<Rightarrow> string option" where
  "first_text a b = (case truthy_text a of Some s \<Rightarrow> Some s | None \<Rightarrow> truthy_text b)"

text \<open>The fields to compare: of the request, or else the applicant's own tax identifier as it is stored.\<close>

definition fields_of_request :: "loan_db \<Rightarrow> (string \<times> applicant_row) option \<Rightarrow> apply_body \<Rightarrow> applicant_fields" where
  "fields_of_request db applicant body =
     (let stored = (case applicant of None \<Rightarrow> None | Some (k, _) \<Rightarrow> map_get (ld_taxId db) k)
      in \<lparr>af_id = None, af_fullName = first_text (ab_fullName body) stored, af_address = truthy_text (ab_address body),
          af_idDocumentNumber = truthy_text (ab_idDocumentNumber body), af_taxId = first_text (ab_taxId body) stored\<rparr>)"

definition candidate_fields :: "loan_db \<Rightarrow> applicant_fields list" where
  "candidate_fields db =
     map (\<lambda>(k, a). \<lparr>af_id = Some k, af_fullName = truthy_text (map_get (ld_taxId db) k), af_address = None, af_idDocumentNumber = None,
            af_taxId = truthy_text (map_get (ld_taxId db) k)\<rparr>)
       (filter (\<lambda>(k, a). ap_deletedAt a = None) (st_applicants (ld_store db)))"

definition duplicate_of_request :: "loan_db \<Rightarrow> applicant_fields \<Rightarrow> duplicate_check option" where
  "duplicate_of_request db source =
     (if af_fullName source = None \<and> af_address source = None \<and> af_idDocumentNumber source = None \<and> af_taxId source = None then None
      else (let check = checkDuplicateApplicants source (candidate_fields db) in if dc_isDuplicate check then Some check else None))"

text \<open>The submission without its cache: the checks before the application is created.\<close>

definition live_applicant :: "loan_db \<Rightarrow> string \<Rightarrow> (string \<times> applicant_row) option" where
  "live_applicant db address =
     (case applicant_at db address of None \<Rightarrow> None | Some (k, a) \<Rightarrow> if ap_deletedAt a = None then Some (k, a) else None)"

definition apply_checks :: "'db store_library \<Rightarrow> loan_db \<Rightarrow> apply_body \<Rightarrow> loan_reply + (string \<times> rat)" where
  "apply_checks lib db body =
     (case number_of (ab_amount body) of
        None \<Rightarrow> Inl (Refused 400 ''invalid_number'')
      | Some num \<Rightarrow>
          if js_absent (ab_amount body) \<or> num \<le> 0 then Inl (Refused 400 ''invalid_number'')
          else (case truthy_text (ab_borrowerAddress body) of
             None \<Rightarrow> Inl (Refused 400 ''missing_field'')
           | Some address \<Rightarrow>
               if \<not> sl_valid_address lib address then Inl (Refused 400 ''invalid_address'')
               else if (case live_applicant db address of None \<Rightarrow> False | Some (k, _) \<Rightarrow> hasExpiredKycDocuments db k)
               then Inl (Refused 403 ''kyc_documents_expired'')
               else if \<not> num \<le> 5000 then Inl (Refused 400 ''escrow_target_not_met'')
               else Inr (address, num)))"

definition hold_row :: "loan_row \<Rightarrow> loan_row" where
  "hold_row r = r\<lparr>lo_manualReviewReason := Some DUPLICATE_TAX_ID_REVIEW_REASON, lo_version := lo_version r + 1\<rparr>"

definition hold_for_tax_id :: "loan_db \<Rightarrow> string \<Rightarrow> loan_db" where
  "hold_for_tax_id db k =
     (case map_get (st_loans (ld_store db)) k of
        None \<Rightarrow> db
      | Some r \<Rightarrow> put_store db ((ld_store db)\<lparr>st_loans := map_set (st_loans (ld_store db)) k (hold_row r)\<rparr>))"

text \<open>What follows the creation: the hold, the suspected duplicate, or the rejection rules.\<close>

definition settle_submission ::
    "'db store_library \<Rightarrow> rule_texts \<Rightarrow> loan_db \<Rightarrow> string \<Rightarrow> loan_application \<Rightarrow> rat \<Rightarrow> duplicate_check option \<Rightarrow> int \<Rightarrow> loan_db \<times> loan_reply" where
  "settle_submission lib texts db address app num dup now =
     (let k = la_id app
      in if dup \<noteq> None
         then (case updateApplication lib (ld_store db) k (no_patch\<lparr>lp_status := Some Manual_review\<rparr>) None now of
             (st2, Inl _) \<Rightarrow> (put_store db st2, Refused 500 ''failed_to_create_application'')
           | (st2, Inr _) \<Rightarrow> (put_store db st2, Created (app\<lparr>la_status := Manual_review\<rparr>) dup))
         else if truthy_text (la_manualReviewReason app) \<noteq> None then (db, Created app dup)
         else (case live_applicant db address of
             None \<Rightarrow> (db, Created app dup)
           | Some (i, _) \<Rightarrow>
               (case applyAutoRejectionIfNeeded texts (ld_rejection db) k i num now of
                  None \<Rightarrow> (db, Refused 500 ''failed_to_create_application'')
                | Some (rdb, rejected, evaluation) \<Rightarrow>
                    (let db2 = db\<lparr>ld_rejection := rdb\<rparr>
                     in (db2, if rejected then Auto_rejected (getApplication lib (ld_store db2) k) evaluation else Created app dup)))))"

definition after_creation ::
    "'db store_library \<Rightarrow> rule_texts \<Rightarrow> loan_db \<Rightarrow> string \<Rightarrow> loan_application \<Rightarrow> rat \<Rightarrow> bool \<Rightarrow> duplicate_check option \<Rightarrow> int \<Rightarrow> loan_db \<times> loan_reply" where
  "after_creation lib texts db address app num held dup now =
     (if held
      then settle_submission lib texts (hold_for_tax_id db (la_id app)) address
             (app\<lparr>la_manualReviewReason := Some DUPLICATE_TAX_ID_REVIEW_REASON\<rparr>) num dup now
      else settle_submission lib texts db address app num dup now)"

definition apply_handler ::
    "'db store_library \<Rightarrow> rule_texts \<Rightarrow> (string \<Rightarrow> string option) \<Rightarrow> loan_db \<Rightarrow> apply_body \<Rightarrow> string \<Rightarrow> string \<Rightarrow> int \<Rightarrow> loan_db \<times> loan_reply" where
  "apply_handler lib texts hashTaxId db body newId newApplicantId now =
     (case apply_checks lib db body of
        Inl e \<Rightarrow> (db, e)
      | Inr (address, num) \<Rightarrow>
          (let dup = duplicate_of_request db (fields_of_request db (live_applicant db address) body);
               taxId = truthy_text (ab_taxId body);
               held = (case taxId of None \<Rightarrow> False | Some raw \<Rightarrow> length (findTaxIdMatches hashTaxId db raw address) > 0)
           in case createApplication lib (ld_store db) address (rt_value texts (ab_amount body)) None newId newApplicantId now of
                (st1, Inl _) \<Rightarrow> (put_store db st1, Refused 500 ''failed_to_create_application'')
              | (st1, Inr app) \<Rightarrow>
                  (let db1 = put_store db st1
                   in case (case taxId of None \<Rightarrow> Some db1 | Some raw \<Rightarrow> recordApplicantTaxIdHash hashTaxId db1 address raw) of
                        None \<Rightarrow> (db1, Refused 500 ''failed_to_create_application'')
                      | Some db2 \<Rightarrow> after_creation lib texts db2 address app num held dup now)))"

section \<open>All requests\<close>

datatype loan_request =
    Apply_request apply_body string string
  | Approve_request string js_value bool
  | Reject_request string js_value js_value
  | Review_request string js_value js_value js_value js_value
  | Resume_request string
  | Discard_request string

definition handle ::
    "'db store_library \<Rightarrow> rule_texts \<Rightarrow> (string \<Rightarrow> string option) \<Rightarrow> string option \<Rightarrow> loan_db \<Rightarrow> string option \<Rightarrow> loan_request \<Rightarrow> int \<Rightarrow>
     loan_db \<times> loan_reply" where
  "handle lib texts hashTaxId adminRaw db wallet request now =
     (let st = ld_store db; put = (\<lambda>(st', reply). (put_store db st', reply))
      in case request of
        Apply_request body newId newApplicantId \<Rightarrow> apply_handler lib texts hashTaxId db body newId newApplicantId now
      | Approve_request k version notified \<Rightarrow> put (approve_handler lib adminRaw st wallet k version notified now)
      | Reject_request k version reason \<Rightarrow> put (reject_handler lib adminRaw st wallet k version reason now)
      | Review_request k reviewerId decision reason version \<Rightarrow>
          put (review_handler lib adminRaw st wallet k reviewerId decision reason version now)
      | Resume_request k \<Rightarrow> put (resume_handler lib adminRaw st wallet k now)
      | Discard_request k \<Rightarrow> put (discard_handler lib adminRaw st wallet k now))"

section \<open>Who changes a row\<close>

text \<open>The decisions an administrator can make on a row: at its version, and an approval or rejection while it is pending.\<close>

definition may_decide :: "loan_request \<Rightarrow> string \<Rightarrow> loan_row \<Rightarrow> bool" where
  "may_decide request k r =
     (case request of
        Approve_request j version notified \<Rightarrow> j = k \<and> parseExpectedVersion version = Some (lo_version r) \<and> lo_status r = Pending \<and>
          (truthy_text (lo_guarantorAddress r) = None \<or> lo_guarantorStatus r = Some G_accepted)
      | Reject_request j version reason \<Rightarrow> j = k \<and> parseExpectedVersion version = Some (lo_version r) \<and> lo_status r = Pending
      | Review_request j reviewerId decision reason version \<Rightarrow> j = k \<and> parseExpectedVersion version = Some (lo_version r)
      | _ \<Rightarrow> False)"

text \<open>What resuming or discarding a draft leaves alone.\<close>

definition draft_change :: "loan_row \<Rightarrow> loan_row \<Rightarrow> bool" where
  "draft_change r r' \<longleftrightarrow> lo_status r = Draft \<and>
     r' = r\<lparr>lo_lastActivityAt := lo_lastActivityAt r', lo_draftStaleNotifiedAt := lo_draftStaleNotifiedAt r',
            lo_deletedAt := lo_deletedAt r', lo_version := lo_version r'\<rparr>"

lemma put_store_simps [simp]: "ld_store (put_store db st) = st" "ld_store (db\<lparr>ld_rejection := rdb\<rparr>) = rd_store rdb"
    "ld_store (db\<lparr>ld_taxIdHash := h\<rparr>) = ld_store db"
  by (simp_all add: ld_store_def put_store_def)

lemma update_other:
  assumes "j \<noteq> k"
  shows "map_get (st_loans (fst (updateApplication lib st k patch expected now))) j = map_get (st_loans st) j"
proof -
  have "map_get (st_loans st1) j = map_get (st_loans st) j" if "write_address st r patch = Inr st1" for r st1
    using that by (auto simp: write_address_def split: option.splits if_splits)
  moreover have "map_get (st_loans st2) j = map_get (st_loans st1) j"
    if "guarded_update lib st1 k expected patch r now = Inr (st2, r')" for r r' st1 st2
    using guarded_newer [OF that] assms by auto
  ultimately show ?thesis
    by (auto simp: updateApplication_def record_update_def Let_def split: sum.splits option.splits prod.splits)
qed

lemma assigned_row_view: "assigned_row (assignment_view st) j r = (case map_get (st_loans st) j of None \<Rightarrow> r
    | Some s \<Rightarrow> r\<lparr>lo_assignedReviewerId := lo_assignedReviewerId s, lo_assignedReviewerEmail := lo_assignedReviewerEmail s,
        lo_assignedAt := lo_assignedAt s, lo_version := lo_version s\<rparr>)"
  by (simp add: assigned_row_def assignment_view_def map_get_map_snd split: option.split)

lemma assign_other:
  assumes "j \<noteq> k"
  shows "map_get (st_loans (assignment_put st (fst (autoAssignApplicationReviewer (assignment_view st) enabled k now)))) j =
    map_get (st_loans st) j"
proof -
  let ?db = "fst (autoAssignApplicationReviewer (assignment_view st) enabled k now)"
  have "map_get (ad_applications ?db) j = map_get (ad_applications (assignment_view st)) j"
    using assms by (auto simp: autoAssignApplicationReviewer_def assignReviewerToApplication_def commit_assignment_def
        stamp_reviewer_def stamp_application_def split: sum.splits option.splits)
  then have "assigned_row ?db j = assigned_row (assignment_view st) j" by (simp add: assigned_row_def fun_eq_iff)
  then show ?thesis
    by (cases "map_get (st_loans st) j") (simp_all add: assignment_put_def map_get_map_snd assigned_row_view)
qed

lemma create_other:
  assumes "map_get (st_loans st) j = Some r"
  shows "map_get (st_loans (fst (createApplication lib st address amount guarantor newId newApplicantId now))) j = Some r \<and>
    (\<forall>app. snd (createApplication lib st address amount guarantor newId newApplicantId now) = Inr app \<longrightarrow> la_id app \<noteq> j)"
proof (cases rule: create_cases [of lib st address amount guarantor newId newApplicantId now])
  case (refused e)
  then show ?thesis using assms by simp
next
  case (dropped e st1 i a)
  then show ?thesis using assms findOrCreate_rest(1) by simp
next
  case (created st1 i a r' st2 st3)
  have "j \<noteq> newId" using created(4) assms findOrCreate_rest(1) [OF created(1)] by auto
  moreover have "map_get (st_loans st3) j = Some r"
    using \<open>j \<noteq> newId\<close> assms findOrCreate_rest(1) [OF created(1)] by (simp add: created(5,6))
  ultimately show ?thesis unfolding created(7) using assign_other [of j newId st3] by (simp add: mapLoanApplication_def)
qed

lemma reject_other:
  "applyAutoRejectionIfNeeded texts db k i amt now = Some (db', rejected, evaluation) \<Longrightarrow> j \<noteq> k \<Longrightarrow>
     map_get (st_loans (rd_store db')) j = map_get (st_loans (rd_store db)) j"
  by (auto simp: applyAutoRejectionIfNeeded_def Let_def split: if_splits option.splits)

lemma settle_other:
  assumes "la_id app \<noteq> j"
  shows "map_get (st_loans (ld_store (fst (settle_submission lib texts db address app num dup now)))) j = map_get (st_loans (ld_store db)) j"
proof (cases "dup = None")
  case True
  then show ?thesis using assms reject_other
    by (auto simp: settle_submission_def Let_def ld_store_def split: option.split prod.split)
next
  case False
  then have "ld_store (fst (settle_submission lib texts db address app num dup now)) =
      fst (updateApplication lib (ld_store db) (la_id app) (no_patch\<lparr>lp_status := Some Manual_review\<rparr>) None now)"
    by (auto simp: settle_submission_def Let_def split: prod.split sum.split)
  then show ?thesis using update_other assms by metis
qed

lemma after_creation_other:
  assumes "la_id app \<noteq> j"
  shows "map_get (st_loans (ld_store (fst (after_creation lib texts db address app num held dup now)))) j = map_get (st_loans (ld_store db)) j"
  using assms by (auto simp: after_creation_def settle_other hold_for_tax_id_def split: option.split)

lemma apply_other:
  assumes "map_get (st_loans (ld_store db)) j = Some r"
  shows "map_get (st_loans (ld_store (fst (apply_handler lib texts hashTaxId db body newId newApplicantId now)))) j = Some r"
proof (cases "apply_checks lib db body")
  case checked: (Inr p)
  obtain address num where p: "p = (address, num)" by (cases p)
  obtain st1 result where create: "createApplication lib (ld_store db) address (rt_value texts (ab_amount body)) None newId newApplicantId now
      = (st1, result)" by fastforce
  note st1 = create_other [OF assms, of lib address "rt_value texts (ab_amount body)" None newId newApplicantId now, unfolded create fst_conv snd_conv]
  have hash: "ld_store db2 = ld_store db1"
    if "recordApplicantTaxIdHash hashTaxId db1 address raw = Some db2" for db1 db2 raw
    using that by (auto simp: recordApplicantTaxIdHash_def split: option.splits)
  show ?thesis
  proof (cases result)
    case (Inr app)
    then have "la_id app \<noteq> j" using st1 by simp
    then show ?thesis
      using st1 hash by (auto simp: after_creation_other apply_handler_def checked p Let_def create Inr split: option.splits)
  qed (use st1 in \<open>simp add: apply_handler_def checked p Let_def create\<close>)
qed (simp add: apply_handler_def assms)

lemma live_view: "getApplication lib st k = Some app \<Longrightarrow> \<exists>r. live_row st k = Some r \<and> app = mapLoanApplication lib st k r"
  by (auto simp: getApplication_def)

lemma gate_view:
  assumes "decision_gate lib adminRaw st wallet k version = Inr (app, v)"
  shows "\<exists>r. map_get (st_loans st) k = Some r \<and> isAdminRequest adminRaw wallet \<and> parseExpectedVersion version = Some (lo_version r) \<and>
    v = lo_version r \<and> app = mapLoanApplication lib st k r"
  using assms
  by (auto simp: decision_gate_def requireLoanAdmin_def mapLoanApplication_def dest!: live_view live_get split: option.splits sum.splits if_splits)

text \<open>The handlers that decide change the row that was named, and no row if they refuse.\<close>

lemma approve_changes:
  assumes "approve_handler lib adminRaw st wallet k version notified now = (st', reply)" "map_get (st_loans st) j = Some r"
    and "map_get (st_loans st') j \<noteq> Some r"
  shows "isAdminRequest adminRaw wallet \<and> may_decide (Approve_request k version notified) j r"
proof -
  obtain app v where gate: "decision_gate lib adminRaw st wallet k version = Inr (app, v)"
    and ok: "la_status app = Pending" "truthy_text (la_guarantorAddress app) = None \<or> la_guarantorStatus app = Some G_accepted"
    using assms by (auto simp: approve_handler_def split: sum.splits if_splits)
  have "j = k"
  proof (rule ccontr)
    assume "j \<noteq> k"
    then have "map_get (st_loans st') j = map_get (st_loans st) j"
      using assms(1) update_other [OF \<open>j \<noteq> k\<close>, of lib] ok gate
      by (auto simp: approve_handler_def split: prod.splits sum.splits) (metis fst_conv)+
    then show False using assms(2,3) by simp
  qed
  then show ?thesis using gate_view [OF gate] ok assms(2)
    by (auto simp: may_decide_def mapLoanApplication_def truthy_text_def split: option.splits if_splits)
qed

lemma reject_changes:
  assumes "reject_handler lib adminRaw st wallet k version reason now = (st', reply)" "map_get (st_loans st) j = Some r"
    and "map_get (st_loans st') j \<noteq> Some r"
  shows "isAdminRequest adminRaw wallet \<and> may_decide (Reject_request k version reason) j r"
proof -
  obtain app v where gate: "decision_gate lib adminRaw st wallet k version = Inr (app, v)" and ok: "la_status app = Pending"
    using assms by (auto simp: reject_handler_def split: sum.splits if_splits)
  have "st' = st \<or> (\<exists>patch expected. st' = fst (updateApplication lib st k patch expected now))"
    using assms(1) gate ok by (fastforce simp: reject_handler_def split: option.splits sum.splits prod.splits dest: arg_cong [where f = fst])
  then have "j = k" using assms(2,3) update_other by metis
  then show ?thesis using gate_view [OF gate] ok assms(2) by (auto simp: may_decide_def mapLoanApplication_def)
qed

lemma review_changes:
  assumes "review_handler lib adminRaw st wallet k reviewerId decision reason version now = (st', reply)" "map_get (st_loans st) j = Some r"
    and "map_get (st_loans st') j \<noteq> Some r"
  shows "isAdminRequest adminRaw wallet \<and> may_decide (Review_request k reviewerId decision reason version) j r"
proof -
  obtain app v where gate: "decision_gate lib adminRaw st wallet k version = Inr (app, v)"
    using assms by (auto simp: review_handler_def split: sum.splits if_splits)
  have "st' = st \<or> (\<exists>patch expected. st' = fst (updateApplication lib st k patch expected now))"
    using assms(1) gate
    by (fastforce simp: review_handler_def Let_def split: if_splits option.splits sum.splits prod.splits dest: arg_cong [where f = fst])
  then have "j = k" using assms(2,3) update_other by metis
  then show ?thesis using gate_view [OF gate] assms(2) by (auto simp: may_decide_def mapLoanApplication_def)
qed

text \<open>The owner of an application, or the administrator.\<close>

definition owns :: "string option \<Rightarrow> loan_store \<Rightarrow> string option \<Rightarrow> loan_row \<Rightarrow> bool" where
  "owns adminRaw st wallet r \<longleftrightarrow> isAdminRequest adminRaw wallet \<or> (\<exists>w. wallet = Some w \<and> js_lower (address_of st r) = js_lower w)"

lemma ownership_view:
  assumes "requireLoanOwnership lib adminRaw st wallet k = Inr app"
  shows "\<exists>r. map_get (st_loans st) k = Some r \<and> owns adminRaw st wallet r"
  using assms by (auto simp: requireLoanOwnership_def owns_def mapLoanApplication_def truthy_text_def dest!: live_view live_get
      split: option.splits if_splits)

definition draft_operation :: "(loan_store \<Rightarrow> string \<Rightarrow> loan_store \<times> loan_application option) \<Rightarrow> bool" where
  "draft_operation operation \<longleftrightarrow>
     (\<forall>st k. case draft_row st k of
        None \<Rightarrow> fst (operation st k) = st
      | Some d \<Rightarrow> \<exists>d'. fst (operation st k) = st\<lparr>st_loans := map_set (st_loans st) k d'\<rparr> \<and> draft_change d d')"

lemma draft_row_view: "draft_row st k = Some d \<Longrightarrow> map_get (st_loans st) k = Some d \<and> lo_status d = Draft"
  by (auto simp: draft_row_def dest: live_get split: option.splits if_splits)

lemma draft_operations:
  "draft_operation (\<lambda>st k. resumeDraftApplication lib st k now)" "draft_operation (\<lambda>st k. discardDraftApplication lib st k now)"
  by (auto simp: draft_operation_def resumeDraftApplication_def discardDraftApplication_def Let_def draft_change_def
      dest: draft_row_view split: option.split intro!: exI)

lemma draft_changes:
  assumes run: "draft_handler operation lib adminRaw st wallet k = (st', reply)" and r: "map_get (st_loans st) j = Some r"
    and op: "draft_operation operation" and changed: "map_get (st_loans st') j \<noteq> Some r"
  shows "\<exists>r'. map_get (st_loans st') j = Some r' \<and> draft_change r r' \<and> owns adminRaw st wallet r"
proof -
  obtain app where own: "requireLoanOwnership lib adminRaw st wallet k = Inr app" and st': "st' = fst (operation st k)"
    using run changed r by (auto simp: draft_handler_def split: sum.splits prod.splits option.splits)
  obtain d d' where d: "draft_row st k = Some d" "st' = st\<lparr>st_loans := map_set (st_loans st) k d'\<rparr>" "draft_change d d'"
    using op [unfolded draft_operation_def, rule_format, of st k] changed r unfolding st' by (auto split: option.splits)
  then show ?thesis using changed r draft_row_view [OF d(1)] ownership_view [OF own] by (cases "j = k") auto
qed


definition loan_db0 :: loan_db where
  "loan_db0 = \<lparr>ld_rejection = rejection0, ld_taxId = [], ld_taxIdHash = [], ld_kycExpired = []\<rparr>"


section \<open>Deviations\<close>

text \<open>A submission that looks like a duplicate fails after its application has been created and left pending.\<close>

lemma suspected_duplicate_fails:
  assumes "dup \<noteq> None" "live_row (ld_store db) (la_id app) = Some r"
  shows "snd (settle_submission lib texts db address app num dup now) = Refused 500 ''failed_to_create_application'' \<and>
    map_get (st_loans (ld_store (fst (settle_submission lib texts db address app num dup now)))) (la_id app) = Some r"
proof -
  let ?u = "updateApplication lib (ld_store db) (la_id app) (no_patch\<lparr>lp_status := Some Manual_review\<rparr>) None now"
  have "?u = (ld_store db, Inl Store_failure)"
    using assms(2) manual_review_refused [of "no_patch\<lparr>lp_status := Some Manual_review\<rparr>"]
    by (auto simp: updateApplication_def read_existing_def stale_version_def write_address_def no_patch_def truthy_text_def
        guarded_update_def dest: live_get split: option.splits)
  then show ?thesis using assms live_get [OF assms(2)] by (simp add: settle_submission_def)
qed

text \<open>A manual review puts an application of any status back to pending, also one that is being paid out.\<close>

lemma review_reopens_any_status:
  "\<exists>st' app. review_handler lib0 (Some ''a'') (store1\<lparr>st_loans := [(''l'', row0\<lparr>lo_status := Disbursing\<rparr>)]\<rparr>) (Some ''a'') ''l''
     (JStr ''r'') (JStr ''APPROVED'') JUndefined (JNum 1) 9 = (st', Shown app) \<and> la_status app = Pending"
proof -
  have "isAdminRequest (Some ''a'') (Some ''a'')" unfolding isAdminRequest_def adminWalletAddress_def truthy_text_def by code_simp
  then show ?thesis
    by (simp add: review_handler_def decision_gate_def requireLoanAdmin_def getApplication_def store_examples parseExpectedVersion_def
        js_integer_def js_true_def updateApplication_def no_patch_def)
qed

end
