(* ===== verification/AccessTokens.thy ===== *)
theory AccessTokens
  imports KeyRing
begin

text \<open>
  Who a request speaks for: the three guards of \<^verbatim>\<open>backend/src/middleware/auth.ts\<close> and the read-only support sessions
  of \<^verbatim>\<open>backend/src/services/impersonation.ts\<close> and \<^verbatim>\<open>backend/src/routes/impersonation.ts\<close>, over the key
  ring of session tokens. The token library is the one of the key ring, verifying at the time of the request; a token without
  a key identifier has an empty one. The rate limits behind the guards, the device check in front of the handlers and log
  lines are left out. The lemmas say when a support session lets a request through.
\<close>

section \<open>Sessions\<close>

text \<open>The claims the guards read; a device claim that is no text counts as none.\<close>

record token_claims =
  tc_walletAddress :: string
  tc_network :: string
  tc_dbk :: "string option"
  tc_impersonation :: "(string \<times> string) option"

definition IMPERSONATION_SESSION_TTL_MS :: int where
  "IMPERSONATION_SESSION_TTL_MS = 15 * 60 * 1000"

record impersonation_session =
  im_adminAddress :: string
  im_targetAddress :: string
  im_ipAddress :: "string option"
  im_reason :: "string option"
  im_startedAt :: int
  im_expiresAt :: int
  im_endedAt :: "int option"
  im_endedBy :: "string option"

datatype impersonation_audit =
    Impersonation_started string string string "string option" int int
  | Impersonation_ended string string string string int int int

record impersonation_db =
  id_sessions :: "(string, impersonation_session) js_map"
  id_audit :: "impersonation_audit list"

text \<open>The signing secret of the environment.\<close>

definition env_secret :: "(string \<Rightarrow> string option) \<Rightarrow> string" where
  "env_secret env = or_else (truthy_text (env ''JWT_SECRET'')) ''default_jwt_secret''"

record start_params =
  sp_adminAddress :: string
  sp_targetAddress :: string
  sp_ipAddress :: "string option"
  sp_reason :: "string option"

definition startImpersonation ::
    "token_claims jwt_library \<Rightarrow> (string \<Rightarrow> string option) \<Rightarrow> string \<Rightarrow> impersonation_db \<Rightarrow> start_params \<Rightarrow> string \<Rightarrow> int \<Rightarrow>
     js_error + (impersonation_db \<times> string \<times> int)" where
  "startImpersonation lib env stellarNetwork db p newId now =
     (if js_lower (sp_adminAddress p) = js_lower (sp_targetAddress p)
      then Inl (ErrorMsg ''An admin cannot impersonate their own wallet'')
      else (let expiresAt = now + IMPERSONATION_SESSION_TTL_MS;
                claims = \<lparr>tc_walletAddress = sp_targetAddress p, tc_network = stellarNetwork, tc_dbk = None,
                  tc_impersonation = Some (newId, sp_adminAddress p)\<rparr>
            in Inr (db\<lparr>id_sessions := map_set (id_sessions db) newId
                  \<lparr>im_adminAddress = sp_adminAddress p, im_targetAddress = sp_targetAddress p, im_ipAddress = sp_ipAddress p,
                   im_reason = sp_reason p, im_startedAt = now, im_expiresAt = expiresAt, im_endedAt = None, im_endedBy = None\<rparr>,
                  id_audit := id_audit db @ [Impersonation_started (sp_adminAddress p) newId (sp_targetAddress p) (sp_reason p) now expiresAt]\<rparr>,
                jwt_sign lib claims (env_secret env) [], expiresAt)))"

definition endImpersonation :: "impersonation_db \<Rightarrow> string \<Rightarrow> string \<Rightarrow> int \<Rightarrow> impersonation_db" where
  "endImpersonation db sessionId endedBy now =
     (case map_get (id_sessions db) sessionId of
        None \<Rightarrow> db
      | Some s \<Rightarrow>
          if im_endedAt s \<noteq> None then db
          else db\<lparr>id_sessions := map_set (id_sessions db) sessionId (s\<lparr>im_endedAt := Some now, im_endedBy := Some endedBy\<rparr>),
                  id_audit := id_audit db @ [Impersonation_ended (im_adminAddress s) sessionId (im_targetAddress s) endedBy (im_startedAt s)
                    now (now - im_startedAt s)]\<rparr>)"

text \<open>\<open>reachable\<close> is false when the lookup fails.\<close>

definition isImpersonationSessionActive :: "impersonation_db \<Rightarrow> bool \<Rightarrow> string \<Rightarrow> int \<Rightarrow> bool" where
  "isImpersonationSessionActive db reachable sessionId now =
     (if \<not> reachable then False
      else case map_get (id_sessions db) sessionId of
        None \<Rightarrow> False
      | Some s \<Rightarrow> if im_endedAt s \<noteq> None then False else if im_expiresAt s \<le> now then False else True)"

record impersonation_status =
  it_sessionId :: string
  it_adminAddress :: string
  it_targetAddress :: string
  it_startedAt :: int
  it_expiresAt :: int

text \<open>The status of an active session; none for the others.\<close>

definition getImpersonationStatus :: "impersonation_db \<Rightarrow> string option \<Rightarrow> int \<Rightarrow> impersonation_status option" where
  "getImpersonationStatus db sessionId now =
     (case truthy_text sessionId of
        None \<Rightarrow> None
      | Some k \<Rightarrow>
          (case map_get (id_sessions db) k of
             None \<Rightarrow> None
           | Some s \<Rightarrow>
               if im_endedAt s \<noteq> None \<or> im_expiresAt s \<le> now then None
               else Some \<lparr>it_sessionId = k, it_adminAddress = im_adminAddress s, it_targetAddress = im_targetAddress s,
                          it_startedAt = im_startedAt s, it_expiresAt = im_expiresAt s\<rparr>))"

section \<open>The guards\<close>

record request_user =
  ru_claims :: token_claims
  ru_deviceFingerprint :: "string option"

record auth_request =
  gr_method :: string
  gr_impersonationCookie :: "string option"
  gr_tokenCookie :: "string option"
  gr_authorization :: "string option"

datatype admin_auth = Via_api_key | Via_session "string option"

datatype auth_outcome = Stop int string | Next "request_user option" "admin_auth option"

definition deviceFingerprintOf :: "token_claims \<Rightarrow> string option" where
  "deviceFingerprintOf decoded = (case tc_dbk decoded of Some s \<Rightarrow> if 0 < length s then Some s else None | None \<Rightarrow> None)"

definition SAFE_METHODS :: "string list" where
  "SAFE_METHODS = [''GET'', ''HEAD'', ''OPTIONS'']"

definition bearer_of :: "auth_request \<Rightarrow> string option" where
  "bearer_of req =
     (case gr_authorization req of None \<Rightarrow> None | Some h \<Rightarrow> if js_starts_with h ''Bearer '' then Some (drop 7 h) else None)"

definition token_of :: "auth_request \<Rightarrow> string option" where
  "token_of req = (case truthy_text (gr_tokenCookie req) of Some t \<Rightarrow> Some t | None \<Rightarrow> truthy_text (bearer_of req))"

definition user_of :: "token_claims \<Rightarrow> request_user" where
  "user_of decoded = \<lparr>ru_claims = decoded, ru_deviceFingerprint = deviceFingerprintOf decoded\<rparr>"

text \<open>\<open>nowMs\<close> is the clock of the sessions and \<open>now\<close> the one of the ring, in seconds.\<close>

definition authMiddleware ::
    "token_claims jwt_library \<Rightarrow> (string \<Rightarrow> string option) \<Rightarrow> key_ring \<Rightarrow> impersonation_db \<Rightarrow> bool \<Rightarrow> auth_request \<Rightarrow> int \<Rightarrow> int \<Rightarrow> auth_outcome" where
  "authMiddleware lib env ring db reachable req nowMs now =
     (case truthy_text (gr_impersonationCookie req) of
        Some impersonationToken \<Rightarrow>
          (case jwt_verify lib impersonationToken (env_secret env) of
             Inl _ \<Rightarrow> Stop 401 ''unauthorized''
           | Inr decoded \<Rightarrow>
               (case tc_impersonation decoded of
                  None \<Rightarrow> Stop 401 ''unauthorized''
                | Some (sessionId, _) \<Rightarrow>
                    if \<not> isImpersonationSessionActive db reachable sessionId nowMs then Stop 401 ''impersonation_session_ended''
                    else if gr_method req \<notin> set SAFE_METHODS then Stop 403 ''read_only_impersonation''
                    else Next (Some \<lparr>ru_claims = decoded, ru_deviceFingerprint = None\<rparr>) None))
      | None \<Rightarrow>
          (case token_of req of
             None \<Rightarrow> Stop 401 ''unauthorized''
           | Some token \<Rightarrow>
               (case verify_token lib ring token now of
                  Inl _ \<Rightarrow> Stop 401 ''unauthorized''
                | Inr decoded \<Rightarrow> Next (Some (user_of decoded)) None)))"

text \<open>Here the user is the decoded token itself, without a device.\<close>

definition optionalAuthMiddleware :: "token_claims jwt_library \<Rightarrow> key_ring \<Rightarrow> auth_request \<Rightarrow> int \<Rightarrow> auth_outcome" where
  "optionalAuthMiddleware lib ring req now =
     (case token_of req of
        None \<Rightarrow> Next None None
      | Some token \<Rightarrow>
          (case verify_token lib ring token now of
             Inl _ \<Rightarrow> Next None None
           | Inr decoded \<Rightarrow> Next (Some \<lparr>ru_claims = decoded, ru_deviceFingerprint = None\<rparr>) None))"

definition requireAdmin ::
    "token_claims jwt_library \<Rightarrow> key_ring \<Rightarrow> string option \<Rightarrow> string \<Rightarrow> auth_request \<Rightarrow> int \<Rightarrow> auth_outcome" where
  "requireAdmin lib ring adminWalletRaw adminApiKey req now =
     (if truthy_text (bearer_of req) \<noteq> None \<and> bearer_of req = Some adminApiKey then Next None (Some Via_api_key)
      else (case token_of req of
        None \<Rightarrow> Stop 401 ''missing_authorization''
      | Some token \<Rightarrow>
          (case verify_token lib ring token now of
             Inl _ \<Rightarrow> Stop 401 ''unauthorized''
           | Inr decoded \<Rightarrow>
               (case (truthy_text (map_option js_lower adminWalletRaw), truthy_text (Some (js_lower (tc_walletAddress decoded)))) of
                  (Some adminWallet, Some wallet) \<Rightarrow>
                    if wallet \<noteq> adminWallet then Stop 403 ''forbidden''
                    else Next (Some (user_of decoded)) (Some (Via_session (deviceFingerprintOf decoded)))
                | _ \<Rightarrow> Stop 403 ''forbidden''))))"

section \<open>Handlers\<close>

datatype impersonation_reply =
    Imp_error int string
  | Imp_started string string string int
  | Imp_ended
  | Imp_status "impersonation_status option"

definition reason_text :: "js_value \<Rightarrow> string option" where
  "reason_text reason = (case reason of JStr s \<Rightarrow> Some (take 500 s) | _ \<Rightarrow> None)"

text \<open>The cookie that is set is the third component of the reply.\<close>

definition start_handler ::
    "token_claims jwt_library \<Rightarrow> (string \<Rightarrow> string option) \<Rightarrow> string \<Rightarrow> (js_value \<Rightarrow> string option) \<Rightarrow> impersonation_db \<Rightarrow> string option \<Rightarrow> js_value \<Rightarrow>
     js_value \<Rightarrow> string option \<Rightarrow> string \<Rightarrow> int \<Rightarrow> impersonation_db \<times> impersonation_reply" where
  "start_handler lib env stellarNetwork gAddress db adminAddress targetWallet reason ip newId now =
     (case truthy_text adminAddress of
        None \<Rightarrow> (db, Imp_error 403 ''forbidden'')
      | Some admin \<Rightarrow>
          (case gAddress targetWallet of
             None \<Rightarrow> (db, Imp_error 400 ''invalid_address'')
           | Some target \<Rightarrow>
               if js_lower target = js_lower admin then (db, Imp_error 400 ''invalid_target'')
               else (case startImpersonation lib env stellarNetwork db
                   \<lparr>sp_adminAddress = admin, sp_targetAddress = target, sp_ipAddress = ip, sp_reason = reason_text reason\<rparr> newId now of
                  Inl _ \<Rightarrow> (db, Imp_error 500 ''impersonation_start_failed'')
                | Inr (db', token, expiresAt) \<Rightarrow> (db', Imp_started newId target token expiresAt))))"

definition open_session :: "impersonation_db \<Rightarrow> string \<Rightarrow> int \<Rightarrow> string option" where
  "open_session db adminAddress now =
     (case sort_key (\<lambda>(k, s). - im_startedAt s)
        (filter (\<lambda>(k, s). im_adminAddress s = adminAddress \<and> im_endedAt s = None \<and> now < im_expiresAt s) (id_sessions db)) of
        [] \<Rightarrow> None | (k, _) # _ \<Rightarrow> Some k)"

definition end_handler :: "impersonation_db \<Rightarrow> string option \<Rightarrow> js_value \<Rightarrow> int \<Rightarrow> impersonation_db \<times> impersonation_reply" where
  "end_handler db adminAddress requestedSessionId now =
     (case truthy_text adminAddress of
        None \<Rightarrow> (db, Imp_error 403 ''forbidden'')
      | Some admin \<Rightarrow>
          (let sessionId = (case requestedSessionId of JStr s \<Rightarrow> if s \<noteq> [] then Some s else open_session db admin now
                            | _ \<Rightarrow> open_session db admin now)
           in (case truthy_text sessionId of None \<Rightarrow> db | Some k \<Rightarrow> endImpersonation db k admin now, Imp_ended)))"

definition status_handler ::
    "token_claims jwt_library \<Rightarrow> (string \<Rightarrow> string option) \<Rightarrow> impersonation_db \<Rightarrow> string option \<Rightarrow> int \<Rightarrow> impersonation_reply" where
  "status_handler lib env db cookie now =
     Imp_status (case truthy_text cookie of
        None \<Rightarrow> None
      | Some token \<Rightarrow>
          (case jwt_verify lib token (env_secret env) of
             Inl _ \<Rightarrow> None
           | Inr decoded \<Rightarrow>
               (case tc_impersonation decoded of None \<Rightarrow> None | Some (k, _) \<Rightarrow> getImpersonationStatus db (Some k) now)))"

section \<open>A support session from its start\<close>

datatype imp_event = Start_session start_params string int | End_session string string int

fun imp_step :: "token_claims jwt_library \<Rightarrow> (string \<Rightarrow> string option) \<Rightarrow> string \<Rightarrow> impersonation_db \<Rightarrow> imp_event \<Rightarrow> impersonation_db" where
  "imp_step lib env network db (Start_session p newId now) =
     (case startImpersonation lib env network db p newId now of Inl _ \<Rightarrow> db | Inr (db', _) \<Rightarrow> db')"
| "imp_step lib env network db (End_session k by_admin now) = endImpersonation db k by_admin now"

fun starts_session :: "string \<Rightarrow> imp_event \<Rightarrow> bool" where
  "starts_session k (Start_session p newId now) \<longleftrightarrow> newId = k"
| "starts_session k (End_session j by_admin now) \<longleftrightarrow> False"

fun ends_session :: "string \<Rightarrow> imp_event \<Rightarrow> bool" where
  "ends_session k (Start_session p newId now) \<longleftrightarrow> False"
| "ends_session k (End_session j by_admin now) \<longleftrightarrow> j = k"

lemma session_step:
  assumes "map_get (id_sessions db) k = Some s" "\<not> starts_session k e"
  shows "\<exists>s'. map_get (id_sessions (imp_step lib env network db e)) k = Some s' \<and> im_expiresAt s' = im_expiresAt s \<and>
    (im_endedAt s' = None \<longleftrightarrow> im_endedAt s = None \<and> \<not> ends_session k e)"
  using assms by (cases e) (auto simp: startImpersonation_def endImpersonation_def Let_def split: option.split)

lemma session_run:
  "map_get (id_sessions db) k = Some s \<Longrightarrow> list_all (\<lambda>e. \<not> starts_session k e) es \<Longrightarrow>
     \<exists>s'. map_get (id_sessions (foldl (imp_step lib env network) db es)) k = Some s' \<and> im_expiresAt s' = im_expiresAt s \<and>
       (im_endedAt s' = None \<longleftrightarrow> im_endedAt s = None \<and> \<not> list_ex (ends_session k) es)"
proof (induction es arbitrary: db s)
  case (Cons e es)
  from Cons.prems have e: "\<not> starts_session k e" and es: "list_all (\<lambda>e. \<not> starts_session k e) es" by simp_all
  obtain s1 where s1: "map_get (id_sessions (imp_step lib env network db e)) k = Some s1" "im_expiresAt s1 = im_expiresAt s"
    "im_endedAt s1 = None \<longleftrightarrow> im_endedAt s = None \<and> \<not> ends_session k e"
    using session_step [OF Cons.prems(1) e, of lib env network] by metis
  from Cons.IH [OF s1(1) es] s1 show ?case by auto
qed simp


section \<open>Examples\<close>

text \<open>A token library that writes the secret, the key identifier and the claims one after the other.\<close>

fun put_text :: "string \<Rightarrow> string" where
  "put_text [] = ''b''"
| "put_text (c # s) = CHR ''a'' # c # put_text s"

fun get_text :: "string \<Rightarrow> string \<times> string" where
  "get_text (x # c # s) = (if x = CHR ''a'' then (case get_text s of (t, rest) \<Rightarrow> (c # t, rest)) else ([], c # s))"
| "get_text s = ([], [])"

definition put_option :: "string option \<Rightarrow> string" where
  "put_option v = (case v of None \<Rightarrow> put_text [] | Some s \<Rightarrow> put_text (CHR ''s'' # s))"

definition get_option :: "string \<Rightarrow> string option \<times> string" where
  "get_option s = (case get_text s of (t, rest) \<Rightarrow> (if t = [] then None else Some (tl t), rest))"

definition put_claims :: "token_claims \<Rightarrow> string" where
  "put_claims c = put_text (tc_walletAddress c) @ put_text (tc_network c) @ put_option (tc_dbk c) @
     put_option (map_option fst (tc_impersonation c)) @ put_option (map_option snd (tc_impersonation c)) @ ''z''"

definition get_claims :: "string \<Rightarrow> token_claims" where
  "get_claims s0 =
     (case get_text s0 of (w, s1) \<Rightarrow> case get_text s1 of (n, s2) \<Rightarrow> case get_option s2 of (d, s3) \<Rightarrow>
      case get_option s3 of (k, s4) \<Rightarrow> case get_option s4 of (a, s5) \<Rightarrow>
        \<lparr>tc_walletAddress = w, tc_network = n, tc_dbk = d,
         tc_impersonation = (case (k, a) of (Some k', Some a') \<Rightarrow> Some (k', a') | _ \<Rightarrow> None)\<rparr>)"

definition spelt_library :: "token_claims jwt_library" where
  "spelt_library =
     \<lparr>jwt_sign = (\<lambda>p s k. put_text s @ put_text k @ put_claims p),
      jwt_kid = (\<lambda>token. Some (fst (get_text (snd (get_text token))))),
      jwt_verify = (\<lambda>token s. if fst (get_text token) = s then Inr (get_claims (snd (get_text (snd (get_text token)))))
                              else Inl ''invalid signature'')\<rparr>"

lemma get_put_text: "rest \<noteq> [] \<Longrightarrow> get_text (put_text s @ rest) = (s, rest)"
  by (induction s) (auto simp: neq_Nil_conv)

lemma put_text_not_Nil [simp]: "put_text s \<noteq> []"
  by (cases s) simp_all

lemma get_put_option: "rest \<noteq> [] \<Longrightarrow> get_option (put_option v @ rest) = (v, rest)"
  by (cases v) (simp_all add: get_option_def put_option_def get_put_text del: put_text.simps)

lemma get_put_claims: "get_claims (put_claims c) = c"
  by (cases "tc_impersonation c") (simp_all add: get_claims_def put_claims_def get_put_text get_put_option)

lemma put_claims_not_Nil: "put_claims c \<noteq> []"
  by (simp add: put_claims_def)

lemma spelt_library_laws: "jwt_laws spelt_library"
  by (auto simp: jwt_laws_def spelt_library_def get_put_text get_put_claims put_claims_not_Nil)

definition params0 :: start_params where
  "params0 = \<lparr>sp_adminAddress = ''GA'', sp_targetAddress = ''GB'', sp_ipAddress = None, sp_reason = None\<rparr>"

definition claims0 :: token_claims where
  "claims0 = \<lparr>tc_walletAddress = ''GB'', tc_network = ''n'', tc_dbk = None, tc_impersonation = Some (''k'', ''GA'')\<rparr>"

lemma start_params0:
  "startImpersonation spelt_library (\<lambda>_. None) ''n'' \<lparr>id_sessions = [], id_audit = []\<rparr> params0 ''k'' 0 =
     Inr (\<lparr>id_sessions = [(''k'', \<lparr>im_adminAddress = ''GA'', im_targetAddress = ''GB'', im_ipAddress = None, im_reason = None,
            im_startedAt = 0, im_expiresAt = IMPERSONATION_SESSION_TTL_MS, im_endedAt = None, im_endedBy = None\<rparr>)],
           id_audit = [Impersonation_started ''GA'' ''k'' ''GB'' None 0 IMPERSONATION_SESSION_TTL_MS]\<rparr>,
          jwt_sign spelt_library claims0 (env_secret (\<lambda>_. None)) [], IMPERSONATION_SESSION_TTL_MS)"
  by (simp add: startImpersonation_def params0_def claims0_def Let_def js_lower_def js_lower_char_def)


section \<open>Deviations\<close>

text \<open>
  The support token carries no key identifier and is signed with the ring's own secret, so as a bearer token it is an ordinary
  session of the target: for every method, and after the support session has ended.
\<close>

lemma support_token_as_bearer:
  assumes "jwt_laws lib" "startImpersonation lib env network db0 p k t0 = Inr (db1, token, expiresAt)" "token \<noteq> []"
    and "loadKeyRingFromEnv env now = Inr ring"
    and "gr_impersonationCookie req = None" "gr_tokenCookie req = None" "gr_authorization req = Some (''Bearer '' @ token)"
  shows "\<exists>u. authMiddleware lib env ring db reachable req nowMs later = Next (Some u) None \<and>
    tc_walletAddress (ru_claims u) = sp_targetAddress p"
proof -
  obtain c where token: "token = jwt_sign lib c (env_secret env) []" and c: "tc_walletAddress c = sp_targetAddress p"
    using assms(2) by (auto simp: startImpersonation_def Let_def split: if_splits)
  have "\<exists>key\<in>set (kr_keys ring). jk_secret key = env_secret env \<and> jk_retiredAt key = None"
    using assms(4) by (auto simp: loadKeyRingFromEnv_def new_key_ring_def Let_def env_secret_def set_insort_key)
  then have "\<exists>key\<in>set (activeKeys ring later). jk_secret key = env_secret env" by (auto simp: activeKeys_def isRetired_def)
  then have "verify_token lib ring token later = Inr c"
    unfolding token verify_token_result [OF assms(1)] by simp
  moreover have "token_of req = Some token"
    using assms(3,6,7) by (simp add: token_of_def bearer_of_def truthy_text_def)
  ultimately show ?thesis using assms(5) c by (simp add: authMiddleware_def truthy_text_def user_of_def)
qed

text \<open>The optional guard does not tell the device of a session.\<close>

lemma optional_user_without_device:
  "optionalAuthMiddleware lib ring req now = Next (Some u) a \<Longrightarrow> ru_deviceFingerprint u = None"
  by (auto simp: optionalAuthMiddleware_def split: option.splits sum.splits)

end
