(* ===== verification/Idempotency.thy ===== *)
theory Idempotency
  imports Decimal
begin

text \<open>
  Repeated requests, \<^verbatim>\<open>backend/src/middleware/idempotency.ts\<close>: the lookup of the cached answer and, where there is none, the
  handler with its answer cached. The handler is a function on the server's state; the cache is a map with expiry times, or
  unreachable. A request is the pair of its two database steps, so that two of them can overlap. The lemmas say when a
  repeated request is answered without running its handler.
\<close>

section \<open>The cache\<close>

type_synonym http_reply = "int \<times> js_value"

text \<open>An entry is a reply, or text that is none. A time to live that is no number lets nothing be cached, as zero does.\<close>

type_synonym idempotency_cache = "(string, http_reply option \<times> int) js_map option"

definition IDEMPOTENCY_TTL_SECONDS :: "string option \<Rightarrow> int" where
  "IDEMPOTENCY_TTL_SECONDS env = or_else (js_parse_int (or_else (truthy_text env) ''86400'')) 0"

definition cache_key :: "string \<Rightarrow> string" where
  "cache_key key = ''idempotency:'' @ key"

text \<open>What the lookup decides: an answer from the cache, the handler alone, or the handler with its answer cached.\<close>

datatype lookup_result = Replay http_reply | Pass_through | Intercept

definition idempotency_lookup :: "idempotency_cache \<Rightarrow> bool \<Rightarrow> string option \<Rightarrow> int \<Rightarrow> lookup_result" where
  "idempotency_lookup cache readable header now =
     (case truthy_text header of
        None \<Rightarrow> Pass_through
      | Some key \<Rightarrow>
          (case cache of
             None \<Rightarrow> Pass_through
           | Some m \<Rightarrow>
               if \<not> readable then Pass_through
               else (case map_get m (cache_key key) of
                  None \<Rightarrow> Intercept
                | Some (entry, expires) \<Rightarrow>
                    if expires \<le> now then Intercept
                    else (case entry of
                       None \<Rightarrow> Intercept
                     | Some (statusCode, body) \<Rightarrow> Replay (if statusCode = 0 then 200 else statusCode, body)))))"

text \<open>The wrapped \<open>res.json\<close>; \<open>writable\<close> is false when the write fails.\<close>

definition interceptAndCache :: "int \<Rightarrow> idempotency_cache \<Rightarrow> bool \<Rightarrow> string \<Rightarrow> http_reply \<Rightarrow> int \<Rightarrow> idempotency_cache" where
  "interceptAndCache ttl cache writable key reply now =
     (if 200 \<le> fst reply \<and> fst reply < 300 \<and> writable
      then map_option (\<lambda>m. map_set m (cache_key key) (Some reply, now + ttl * 1000)) cache
      else cache)"

text \<open>A request whose handler runs at once.\<close>

definition idempotencyMiddleware ::
    "int \<Rightarrow> idempotency_cache \<times> 'db \<Rightarrow> string option \<Rightarrow> ('db \<Rightarrow> 'db \<times> http_reply) \<Rightarrow> int \<Rightarrow> (idempotency_cache \<times> 'db) \<times> http_reply" where
  "idempotencyMiddleware ttl s header handler now =
     (case s of (cache, db) \<Rightarrow>
        (case idempotency_lookup cache True header now of
           Replay reply \<Rightarrow> ((cache, db), reply)
         | Pass_through \<Rightarrow> (case handler db of (db', reply) \<Rightarrow> ((cache, db'), reply))
         | Intercept \<Rightarrow>
             (case handler db of (db', reply) \<Rightarrow>
                ((interceptAndCache ttl cache True (or_else header []) reply now, db'), reply))))"

section \<open>Repetitions\<close>

type_synonym 'db idempotent_request = "string option \<times> ('db \<Rightarrow> 'db \<times> http_reply) \<times> int"

definition serve :: "int \<Rightarrow> idempotency_cache \<times> 'db \<Rightarrow> 'db idempotent_request \<Rightarrow> idempotency_cache \<times> 'db" where
  "serve ttl s r = (case r of (header, handler, now) \<Rightarrow> fst (idempotencyMiddleware ttl s header handler now))"

definition cached_reply :: "string \<Rightarrow> http_reply \<Rightarrow> int \<Rightarrow> idempotency_cache \<Rightarrow> bool" where
  "cached_reply key reply expires cache \<longleftrightarrow> (\<exists>m. cache = Some m \<and> map_get m (cache_key key) = Some (Some reply, expires))"

lemma cache_key_inj [simp]: "cache_key j = cache_key k \<longleftrightarrow> j = k"
  by (simp add: cache_key_def)

lemma cached_replayed:
  assumes "cached_reply key reply expires cache" "key \<noteq> []" "now < expires" "fst reply \<noteq> 0"
  shows "idempotencyMiddleware ttl (cache, db) (Some key) handler now = ((cache, db), reply)"
  using assms by (cases reply) (auto simp: idempotencyMiddleware_def idempotency_lookup_def cached_reply_def truthy_text_def)

lemma cached_kept:
  assumes "cached_reply key reply expires (fst s)" "key \<noteq> []" "fst reply \<noteq> 0" "snd (snd r) < expires"
  shows "cached_reply key reply expires (fst (serve ttl s r))"
proof -
  obtain cache db header handler now where s: "s = (cache, db)" "r = (header, handler, now)" by (cases s; cases r) auto
  show ?thesis
  proof (cases "header = Some key")
    case True
    then show ?thesis using cached_replayed [of key reply expires cache now ttl db handler] assms by (simp add: s serve_def)
  next
    case False
    then show ?thesis using assms
      by (auto simp: s serve_def idempotencyMiddleware_def interceptAndCache_def cached_reply_def idempotency_lookup_def truthy_text_def
          split: option.splits prod.splits lookup_result.splits if_splits)
  qed
qed

lemma cached_run:
  "cached_reply key reply expires (fst s) \<Longrightarrow> key \<noteq> [] \<Longrightarrow> fst reply \<noteq> 0 \<Longrightarrow> list_all (\<lambda>r. snd (snd r) < expires) rs \<Longrightarrow>
     cached_reply key reply expires (fst (foldl (serve ttl) s rs))"
  by (induction rs arbitrary: s) (auto simp: cached_kept)

text \<open>
  After a request with a key has succeeded, another with the same key, in the time the answer is kept and whatever
  requests came in between, gets the same answer and changes nothing.
\<close>

theorem repeated_request_changes_nothing:
  assumes "key \<noteq> []" "idempotencyMiddleware ttl (Some m, db0) (Some key) handler t0 = (s1, reply)" "200 \<le> fst reply" "fst reply < 300"
    and "map_get m (cache_key key) = None" "list_all (\<lambda>r. snd (snd r) < t0 + ttl * 1000) rs"
    and "(cache, db) = foldl (serve ttl) s1 rs" "t < t0 + ttl * 1000"
  shows "idempotencyMiddleware ttl (cache, db) (Some key) handler' t = ((cache, db), reply)"
proof -
  have "cached_reply key reply (t0 + ttl * 1000) (fst s1)"
    using assms(1-5) by (auto simp: idempotencyMiddleware_def idempotency_lookup_def truthy_text_def interceptAndCache_def
        cached_reply_def split: prod.splits)
  moreover have "fst reply \<noteq> 0" using assms(3) by auto
  ultimately have "cached_reply key reply (t0 + ttl * 1000) cache"
    using cached_run [OF _ assms(1) _ assms(6)] assms(7) by (metis fst_conv)
  then show ?thesis using assms(1,3,8) by (intro cached_replayed) auto
qed

definition add_one :: "nat \<Rightarrow> nat \<times> http_reply" where
  "add_one n = (n + 1, (201, JNum (of_nat n)))"

theorem repeated_request_changes_nothing_witness:
  "\<exists>cache. foldl (serve 10) (Some [], 0) [(Some ''a'', add_one, 0), (Some ''b'', add_one, 5), (Some ''a'', add_one, 7)] = (cache, 2) \<and>
     idempotencyMiddleware 10 (cache, 2) (Some ''a'') add_one 9 = ((cache, 2), (201, JNum 0))"
proof -
  have first: "idempotencyMiddleware 10 (Some [], 0) (Some ''a'') add_one 0 =
      ((Some [(cache_key ''a'', (Some (201, JNum 0), 10000))], 1), (201, JNum 0))"
    by (simp add: idempotencyMiddleware_def idempotency_lookup_def truthy_text_def interceptAndCache_def add_one_def)
  obtain cache n where run: "foldl (serve 10) (Some [(cache_key ''a'', (Some (201, JNum 0), 10000))], 1) [(Some ''b'', add_one, 5), (Some ''a'', add_one, 7)]
      = (cache, n)" by fastforce
  have "n = 2" using run
    by (auto simp: serve_def idempotencyMiddleware_def idempotency_lookup_def truthy_text_def interceptAndCache_def add_one_def)
  moreover have "idempotencyMiddleware 10 (cache, n) (Some ''a'') add_one 9 = ((cache, n), (201, JNum 0))"
    by (rule repeated_request_changes_nothing [OF _ first _ _ _ _ run [symmetric]]) simp_all
  ultimately show ?thesis using run first by (auto simp: serve_def)
qed

section \<open>Deviations\<close>

text \<open>The key says nothing of the caller, the route or the body: another request under it gets the first one's answer.\<close>

lemma other_handler_not_run:
  assumes "cached_reply key reply expires cache" "key \<noteq> []" "now < expires" "fst reply \<noteq> 0"
  shows "idempotencyMiddleware ttl (cache, db) (Some key) handler now = idempotencyMiddleware ttl (cache, db) (Some key) other now"
  by (simp add: cached_replayed [OF assms])

text \<open>Two requests of one key whose lookups come before either answer run the handler both.\<close>

lemma overlapping_requests_both_run:
  assumes "map_get m (cache_key key) = None" "key \<noteq> []"
  shows "idempotency_lookup (Some m) True (Some key) now = Intercept \<and> idempotency_lookup (Some m) True (Some key) later = Intercept"
  using assms by (simp add: idempotency_lookup_def truthy_text_def)

end
