(* ===== verification/EventIndexer.thy ===== *)
theory EventIndexer
  imports Balances
begin

text \<open>
  The path of contract events into the database: the parts of \<^verbatim>\<open>backend/src/services/eventListener.ts\<close> that the
  indexer uses, the borrower rows of \<^verbatim>\<open>backend/src/services/db.ts\<close>, the indexer of
  \<^verbatim>\<open>backend/src/services/eventIndexer.ts\<close> and the backfill of \<^verbatim>\<open>backend/src/scripts/soroban-event-backfill.ts\<close>.
  Each statement of the database is one that may fail, before or after its effect; a crash is a poll that
  fails followed by a restart. The hash is an argument, and so are the answers of the remote seq. The theorem:
  the balances are those of a prefix of the seq's events, each counted once, however polls are repeated.
\<close>

section \<open>Events\<close>

datatype event_kind = Deposit | Withdraw | Release | Disburse | Repay

definition ESCROW_TOPICS :: "(string \<times> event_kind) list" where
  "ESCROW_TOPICS = [(''deposit'', Deposit), (''withdraw'', Withdraw), (''release'', Release)]"

definition POOL_TOPICS :: "(string \<times> event_kind) list" where
  "POOL_TOPICS = [(''disburse'', Disburse), (''repay'', Repay)]"

definition classifyTopic :: "string \<Rightarrow> event_kind option" where
  "classifyTopic topic = map_get (ESCROW_TOPICS @ POOL_TOPICS) topic"

record normalized_event =
  ne_contractId :: string
  ne_topic :: string
  ne_borrower :: "string option"
  ne_amount :: "string option"
  ne_ledger :: int

record event_batch =
  eb_events :: "normalized_event list"
  eb_cursor :: "string option"
  eb_latestLedger :: int

definition computeBackoff :: "nat \<Rightarrow> int \<Rightarrow> int \<Rightarrow> int" where
  "computeBackoff n base maximum = min (base * 2 ^ n) maximum"

text \<open>
  A raw event after the conversion of its values by the SDK: \<open>text_of\<close> is \<open>String\<close> of a value. A bigint is
  a number here.
\<close>

record raw_event =
  re_contractId :: "string option"
  re_topic :: "js_value list"
  re_value :: js_value
  re_ledger :: int

definition decodeEvent :: "(js_value \<Rightarrow> string) \<Rightarrow> raw_event \<Rightarrow> normalized_event" where
  "decodeEvent text_of raw =
     (let topics = re_topic raw;
          topic = (if topics \<noteq> [] then text_of (topics ! 0) else []);
          borrower = (if 1 < length topics then (case topics ! 1 of JStr s \<Rightarrow> Some s | _ \<Rightarrow> None) else None);
          value = re_value raw;
          held = (\<lambda>k. if js_absent (js_field value k) then None else Some (text_of (js_field value k)))
      in \<lparr>ne_contractId = or_else (re_contractId raw) [], ne_topic = topic,
          ne_borrower = (case value of JObj _ \<Rightarrow> (case held ''borrower'' of Some b \<Rightarrow> Some b | None \<Rightarrow> borrower) | _ \<Rightarrow> borrower),
          ne_amount = (case value of JObj _ \<Rightarrow> held ''amount'' | JNum _ \<Rightarrow> Some (text_of value) | JStr _ \<Rightarrow> Some (text_of value) | _ \<Rightarrow> None),
          ne_ledger = re_ledger raw\<rparr>)"

text \<open>Where a request for events starts: after a cursor, at a ledger, or a hundred ledgers before the latest.\<close>

datatype events_request = From_cursor string | From_ledger int

definition request_of :: "int option \<Rightarrow> int \<Rightarrow> string option \<Rightarrow> events_request" where
  "request_of startLedger latest cursor =
     (case truthy_text cursor of
        Some c \<Rightarrow> From_cursor c
      | None \<Rightarrow> From_ledger (case startLedger of Some l \<Rightarrow> max l 1 | None \<Rightarrow> max (latest - 100) 1))"

section \<open>The rows of the database\<close>

record borrower_row =
  br_id :: string
  br_escrowBalance :: string
  br_loanOutstanding :: string
  br_totalDeposited :: string
  br_totalDisbursed :: string
  br_totalRepaid :: string
  br_lastEventLedger :: int
  br_deletedAt :: "int option"

record chain_event_row =
  cr_borrowerId :: string
  cr_contractId :: string
  cr_amount :: string
  cr_ledger :: int
  cr_eventHash :: string

text \<open>Borrowers by their unique address; the identifier of a new row is a function of the address.\<close>

record chain_db =
  cd_borrowers :: "(string, borrower_row) js_map"
  cd_escrowDeposits :: "chain_event_row list"
  cd_escrowWithdrawals :: "chain_event_row list"
  cd_loanDisbursements :: "chain_event_row list"
  cd_loanRepayments :: "chain_event_row list"

definition new_borrower :: "string \<Rightarrow> borrower_row" where
  "new_borrower address = \<lparr>br_id = address, br_escrowBalance = ''0'', br_loanOutstanding = ''0'', br_totalDeposited = ''0'',
     br_totalDisbursed = ''0'', br_totalRepaid = ''0'', br_lastEventLedger = 0, br_deletedAt = None\<rparr>"

text \<open>\<open>BigInt(a || "0")\<close> reads the empty text as zero, as \<open>BigInt\<close> itself does.\<close>

definition db_addStroops :: "string \<Rightarrow> string \<Rightarrow> js_error + string" where
  "db_addStroops a b =
     (let zero = (\<lambda>s. if s = [] then ''0'' else s)
      in case js_bigint (zero a) of Inl e \<Rightarrow> Inl e | Inr x \<Rightarrow>
         case js_bigint (zero b) of Inl e \<Rightarrow> Inl e | Inr y \<Rightarrow> Inr (show_int (x + y)))"

definition db_subStroops :: "string \<Rightarrow> string \<Rightarrow> js_error + string" where
  "db_subStroops a b =
     (let zero = (\<lambda>s. if s = [] then ''0'' else s)
      in case js_bigint (zero a) of Inl e \<Rightarrow> Inl e | Inr x \<Rightarrow>
         case js_bigint (zero b) of Inl e \<Rightarrow> Inl e | Inr y \<Rightarrow>
           (let result = x - y in Inr (show_int (if result < 0 then 0 else result))))"

definition eventHash :: "(string \<Rightarrow> string) \<Rightarrow> string \<Rightarrow> string \<Rightarrow> string \<Rightarrow> string \<Rightarrow> int \<Rightarrow> string" where
  "eventHash sha256 kind contractId borrower amount seq =
     sha256 (js_join ''|'' [kind, contractId, borrower, amount, show_int seq])"

section \<open>Counting an event\<close>

text \<open>
  Three statements: the upsert of the borrower, the insertion of the event, the update of the balances. A failure
  names its statement and tells whether it took effect before the answer was lost.
\<close>

type_synonym db_fault = "(nat \<times> bool) option"

definition db_failure :: js_error where
  "db_failure = ErrorMsg ''database''"

definition performed :: "db_fault \<Rightarrow> nat \<Rightarrow> bool" where
  "performed f i = (case f of None \<Rightarrow> True | Some (j, effect) \<Rightarrow> i < j \<or> i = j \<and> effect)"

definition fails_at :: "db_fault \<Rightarrow> nat \<Rightarrow> bool" where
  "fails_at f i = (case f of None \<Rightarrow> False | Some (j, _) \<Rightarrow> i = j)"

definition ensureBorrower :: "chain_db \<Rightarrow> string \<Rightarrow> chain_db \<times> borrower_row" where
  "ensureBorrower db address =
     (case map_get (cd_borrowers db) address of
        Some b \<Rightarrow> (db, b)
      | None \<Rightarrow> (db\<lparr>cd_borrowers := map_set (cd_borrowers db) address (new_borrower address)\<rparr>, new_borrower address))"

text \<open>The first two statements: an error, the borrower as read when the event was counted before, or the borrower and go on.\<close>

datatype begun = Begin_failed js_error | Counted_before borrower_row | Go_on borrower_row

definition begin_record ::
    "(chain_db \<Rightarrow> chain_event_row list) \<Rightarrow> (chain_event_row list \<Rightarrow> chain_db \<Rightarrow> chain_db) \<Rightarrow> string \<Rightarrow> db_fault \<Rightarrow> chain_db \<Rightarrow>
     string \<Rightarrow> string \<Rightarrow> string \<Rightarrow> int \<Rightarrow> chain_db \<times> begun" where
  "begin_record rows store digest f db address contractId amount seq =
     (if fails_at f 0 then (if performed f 0 then fst (ensureBorrower db address) else db, Begin_failed db_failure)
      else (case ensureBorrower db address of (db1, b) \<Rightarrow>
        if digest \<in> set (map cr_eventHash (rows db1))
        then (db1, if fails_at f 1 then Begin_failed db_failure else Counted_before b)
        else (let row = \<lparr>cr_borrowerId = br_id b, cr_contractId = contractId, cr_amount = amount, cr_ledger = seq,
                   cr_eventHash = digest\<rparr>
              in (if performed f 1 then store (rows db1 @ [row]) db1 else db1,
                  if fails_at f 1 then Begin_failed db_failure else Go_on b))))"

definition finish_record ::
    "(borrower_row \<Rightarrow> js_error + (borrower_row \<Rightarrow> borrower_row)) \<Rightarrow> db_fault \<Rightarrow> chain_db \<Rightarrow> string \<Rightarrow> int \<Rightarrow> borrower_row \<Rightarrow>
     chain_db \<times> (js_error + borrower_row)" where
  "finish_record change f db address seq b =
     (case change b of
        Inl e \<Rightarrow> (db, Inl e)
      | Inr set_fields \<Rightarrow>
          (case map_get (cd_borrowers db) address of
             None \<Rightarrow> (db, Inl db_failure)
           | Some now \<Rightarrow>
               (let row = (set_fields now)\<lparr>br_lastEventLedger := max (br_lastEventLedger b) seq\<rparr>;
                    db' = (if performed f 2 then db\<lparr>cd_borrowers := map_set (cd_borrowers db) address row\<rparr> else db)
                in (db', if fails_at f 2 then Inl db_failure else Inr row))))"

definition record_with ::
    "(chain_db \<Rightarrow> chain_event_row list) \<Rightarrow> (chain_event_row list \<Rightarrow> chain_db \<Rightarrow> chain_db) \<Rightarrow>
     (borrower_row \<Rightarrow> js_error + (borrower_row \<Rightarrow> borrower_row)) \<Rightarrow> string \<Rightarrow> db_fault \<Rightarrow> chain_db \<Rightarrow>
     string \<Rightarrow> string \<Rightarrow> string \<Rightarrow> int \<Rightarrow> chain_db \<times> (js_error + borrower_row)" where
  "record_with rows store change digest f db address contractId amount seq =
     (case begin_record rows store digest f db address contractId amount seq of
        (db1, Begin_failed e) \<Rightarrow> (db1, Inl e)
      | (db1, Counted_before b) \<Rightarrow> (db1, Inr b)
      | (db1, Go_on b) \<Rightarrow> finish_record change f db1 address seq b)"

definition deposit_change :: "string \<Rightarrow> borrower_row \<Rightarrow> js_error + (borrower_row \<Rightarrow> borrower_row)" where
  "deposit_change amount b =
     (case db_addStroops (br_escrowBalance b) amount of Inl e \<Rightarrow> Inl e | Inr x \<Rightarrow>
      case db_addStroops (br_totalDeposited b) amount of Inl e \<Rightarrow> Inl e | Inr y \<Rightarrow>
        Inr (\<lambda>r. r\<lparr>br_escrowBalance := x, br_totalDeposited := y\<rparr>))"

definition withdrawal_change :: "string \<Rightarrow> borrower_row \<Rightarrow> js_error + (borrower_row \<Rightarrow> borrower_row)" where
  "withdrawal_change amount b =
     (case db_subStroops (br_escrowBalance b) amount of Inl e \<Rightarrow> Inl e | Inr x \<Rightarrow> Inr (\<lambda>r. r\<lparr>br_escrowBalance := x\<rparr>))"

definition disbursement_change :: "string \<Rightarrow> borrower_row \<Rightarrow> js_error + (borrower_row \<Rightarrow> borrower_row)" where
  "disbursement_change amount b =
     (case db_addStroops (br_loanOutstanding b) amount of Inl e \<Rightarrow> Inl e | Inr x \<Rightarrow>
      case db_addStroops (br_totalDisbursed b) amount of Inl e \<Rightarrow> Inl e | Inr y \<Rightarrow>
        Inr (\<lambda>r. r\<lparr>br_loanOutstanding := x, br_totalDisbursed := y\<rparr>))"

definition repayment_change :: "string \<Rightarrow> borrower_row \<Rightarrow> js_error + (borrower_row \<Rightarrow> borrower_row)" where
  "repayment_change amount b =
     (case db_subStroops (br_loanOutstanding b) amount of Inl e \<Rightarrow> Inl e | Inr x \<Rightarrow>
      case db_addStroops (br_totalRepaid b) amount of Inl e \<Rightarrow> Inl e | Inr y \<Rightarrow>
        Inr (\<lambda>r. r\<lparr>br_loanOutstanding := x, br_totalRepaid := y\<rparr>))"

definition recordEscrowDeposit where
  "recordEscrowDeposit sha256 f db address contractId amount seq =
     record_with cd_escrowDeposits (\<lambda>rows. cd_escrowDeposits_update (\<lambda>_. rows)) (deposit_change amount)
       (eventHash sha256 ''deposit'' contractId address amount seq) f db address contractId amount seq"

definition recordEscrowWithdrawal where
  "recordEscrowWithdrawal sha256 f db address contractId amount seq =
     record_with cd_escrowWithdrawals (\<lambda>rows. cd_escrowWithdrawals_update (\<lambda>_. rows)) (withdrawal_change amount)
       (eventHash sha256 ''withdraw'' contractId address amount seq) f db address contractId amount seq"

definition recordLoanDisbursement where
  "recordLoanDisbursement sha256 f db address contractId amount seq =
     record_with cd_loanDisbursements (\<lambda>rows. cd_loanDisbursements_update (\<lambda>_. rows)) (disbursement_change amount)
       (eventHash sha256 ''disburse'' contractId address amount seq) f db address contractId amount seq"

definition recordLoanRepayment where
  "recordLoanRepayment sha256 f db address contractId amount seq =
     record_with cd_loanRepayments (\<lambda>rows. cd_loanRepayments_update (\<lambda>_. rows)) (repayment_change amount)
       (eventHash sha256 ''repay'' contractId address amount seq) f db address contractId amount seq"

section \<open>The indexer\<close>

text \<open>What counts: an event of a known topic with a borrower and an amount.\<close>

definition counted_event :: "normalized_event \<Rightarrow> (event_kind \<times> string \<times> string) option" where
  "counted_event e =
     (case classifyTopic (ne_topic e) of None \<Rightarrow> None | Some kind \<Rightarrow>
      case truthy_text (ne_borrower e) of None \<Rightarrow> None | Some borrower \<Rightarrow>
      case truthy_text (ne_amount e) of None \<Rightarrow> None | Some amount \<Rightarrow> Some (kind, borrower, amount))"

definition processEvent :: "(string \<Rightarrow> string) \<Rightarrow> db_fault \<Rightarrow> chain_db \<Rightarrow> normalized_event \<Rightarrow> chain_db \<times> js_error option" where
  "processEvent sha256 f db e =
     (case counted_event e of
        None \<Rightarrow> (db, None)
      | Some (kind, borrower, amount) \<Rightarrow>
          (let outcome = (\<lambda>(db', r). (db', case r of Inl err \<Rightarrow> Some err | Inr _ \<Rightarrow> None))
           in case kind of
             Deposit \<Rightarrow> outcome (recordEscrowDeposit sha256 f db borrower (ne_contractId e) amount (ne_ledger e))
           | Withdraw \<Rightarrow> outcome (recordEscrowWithdrawal sha256 f db borrower (ne_contractId e) amount (ne_ledger e))
           | Disburse \<Rightarrow> outcome (recordLoanDisbursement sha256 f db borrower (ne_contractId e) amount (ne_ledger e))
           | Repay \<Rightarrow> outcome (recordLoanRepayment sha256 f db borrower (ne_contractId e) amount (ne_ledger e))
           | Release \<Rightarrow> (db, None)))"

text \<open>The events of a batch, each with the fault of its statements; the first error ends the batch.\<close>

fun process_events :: "(string \<Rightarrow> string) \<Rightarrow> chain_db \<Rightarrow> normalized_event list \<Rightarrow> db_fault list \<Rightarrow> chain_db \<times> js_error option" where
  "process_events sha256 db [] fs = (db, None)"
| "process_events sha256 db (e # es) fs =
     (case processEvent sha256 (case fs of [] \<Rightarrow> None | f # _ \<Rightarrow> f) db e of
        (db', Some err) \<Rightarrow> (db', Some err)
      | (db', None) \<Rightarrow> process_events sha256 db' es (tl fs))"

definition DEFAULT_EVENT_INDEXER_POLL_MS :: int where
  "DEFAULT_EVENT_INDEXER_POLL_MS = 5000"

definition DEFAULT_EVENT_INDEXER_BASE_BACKOFF_MS :: int where
  "DEFAULT_EVENT_INDEXER_BASE_BACKOFF_MS = 1000"

definition DEFAULT_EVENT_INDEXER_MAX_BACKOFF_MS :: int where
  "DEFAULT_EVENT_INDEXER_MAX_BACKOFF_MS = 30000"

record event_indexer =
  ix_running :: bool
  ix_cursor :: "string option"
  ix_lastProcessedLedger :: int
  ix_startLedger :: int
  ix_attempt :: nat

text \<open>The database, the saved position and the process.\<close>

record indexer_world =
  iw_db :: chain_db
  iw_state :: "(int \<times> string option) option"
  iw_indexer :: "event_indexer option"

definition loadIndexerState :: "indexer_world \<Rightarrow> int \<times> string option" where
  "loadIndexerState w = or_else (iw_state w) (0, None)"

definition initializeState :: "indexer_world \<Rightarrow> event_indexer" where
  "initializeState w =
     (case loadIndexerState w of (seq, cursor) \<Rightarrow>
        \<lparr>ix_running = True, ix_cursor = cursor, ix_lastProcessedLedger = seq, ix_startLedger = seq + 1, ix_attempt = 0\<rparr>)"

definition start_indexer :: "indexer_world \<Rightarrow> indexer_world" where
  "start_indexer w =
     (case iw_indexer w of
        Some ix \<Rightarrow> if ix_running ix then w else w\<lparr>iw_indexer := Some (initializeState w)\<rparr>
      | None \<Rightarrow> w\<lparr>iw_indexer := Some (initializeState w)\<rparr>)"

definition stop_indexer :: "indexer_world \<Rightarrow> indexer_world" where
  "stop_indexer w = w\<lparr>iw_indexer := map_option (\<lambda>ix. ix\<lparr>ix_running := False\<rparr>) (iw_indexer w)\<rparr>"

text \<open>
  One round of the loop, and how long it sleeps: the remote ledger fails, or it answers with a batch; then the faults
  of the batch's statements and of the statement that saves the position.
\<close>

datatype poll_answer = Rpc_error | Rpc_batch event_batch "db_fault list" db_fault

definition poll_failed :: "event_indexer \<Rightarrow> event_indexer \<times> int" where
  "poll_failed ix =
     (ix\<lparr>ix_attempt := ix_attempt ix + 1\<rparr>,
      computeBackoff (ix_attempt ix) DEFAULT_EVENT_INDEXER_BASE_BACKOFF_MS DEFAULT_EVENT_INDEXER_MAX_BACKOFF_MS)"

definition advance_position :: "event_batch \<Rightarrow> event_indexer \<Rightarrow> event_indexer" where
  "advance_position batch ix =
     ix\<lparr>ix_cursor := (case truthy_text (eb_cursor batch) of Some c \<Rightarrow> Some c | None \<Rightarrow> ix_cursor ix),
        ix_lastProcessedLedger := (if ix_lastProcessedLedger ix < eb_latestLedger batch then eb_latestLedger batch
                                   else ix_lastProcessedLedger ix)\<rparr>"

definition poll_round :: "(string \<Rightarrow> string) \<Rightarrow> indexer_world \<Rightarrow> event_indexer \<Rightarrow> poll_answer \<Rightarrow> indexer_world \<times> int" where
  "poll_round sha256 w ix answer =
     (let put = (\<lambda>w (ix', ms). (w\<lparr>iw_indexer := Some ix'\<rparr>, ms))
      in case answer of
           Rpc_error \<Rightarrow> put w (poll_failed ix)
         | Rpc_batch batch fs saving \<Rightarrow>
             (case process_events sha256 (iw_db w) (eb_events batch) fs of
                (db, Some err) \<Rightarrow> put (w\<lparr>iw_db := db\<rparr>) (poll_failed ix)
              | (db, None) \<Rightarrow>
                  (let ix1 = advance_position batch ix;
                       w1 = w\<lparr>iw_db := db, iw_state := (if performed saving 0 then Some (ix_lastProcessedLedger ix1, ix_cursor ix1)
                                                     else iw_state w)\<rparr>
                   in if fails_at saving 0 then put w1 (poll_failed ix1)
                      else put w1 (ix1\<lparr>ix_attempt := 0\<rparr>, DEFAULT_EVENT_INDEXER_POLL_MS))))"

datatype indexer_step = Start_indexer | Stop_indexer | Crash_indexer | Poll_indexer poll_answer

fun run_indexer_step :: "(string \<Rightarrow> string) \<Rightarrow> indexer_world \<Rightarrow> indexer_step \<Rightarrow> indexer_world" where
  "run_indexer_step sha256 w Start_indexer = start_indexer w"
| "run_indexer_step sha256 w Stop_indexer = stop_indexer w"
| "run_indexer_step sha256 w Crash_indexer = w\<lparr>iw_indexer := None\<rparr>"
| "run_indexer_step sha256 w (Poll_indexer answer) =
     (case iw_indexer w of
        None \<Rightarrow> w
      | Some ix \<Rightarrow> if ix_running ix then fst (poll_round sha256 w ix answer) else w)"

section \<open>The backfill\<close>

definition parseLedger :: "string option \<Rightarrow> string \<Rightarrow> js_error + int" where
  "parseLedger value label =
     (case value of
        None \<Rightarrow> Inl (ErrorMsg (''Missing required '' @ label @ '' ledger argument''))
      | Some s \<Rightarrow>
          (let bad = Inl (ErrorMsg (''Invalid '' @ label @ '' ledger: '' @ s))
           in case js_parse_int s of None \<Rightarrow> bad | Some parsed \<Rightarrow> if parsed < 1 then bad else Inr parsed))"

definition parseArgs :: "string list \<Rightarrow> js_error + (int \<times> int)" where
  "parseArgs argv =
     (let arg = (\<lambda>i. if i < length argv then Some (argv ! i) else None)
      in case parseLedger (arg 0) ''start'' of Inl e \<Rightarrow> Inl e | Inr first \<Rightarrow>
         case parseLedger (arg 1) ''end'' of Inl e \<Rightarrow> Inl e | Inr final \<Rightarrow>
           if final < first then Inl (ErrorMsg ''Start ledger must be less than or equal to end ledger'') else Inr (first, final))"

definition applyEvent :: "(string \<Rightarrow> string) \<Rightarrow> db_fault \<Rightarrow> chain_db \<Rightarrow> normalized_event \<Rightarrow> chain_db \<times> js_error option" where
  "applyEvent sha256 f db e = processEvent sha256 f db e"

text \<open>The events of one page within the range: the database, the last ledger, whether the range was left, an error.\<close>

fun backfill_page ::
    "(string \<Rightarrow> string) \<Rightarrow> int \<Rightarrow> int \<Rightarrow> chain_db \<Rightarrow> int \<Rightarrow> normalized_event list \<Rightarrow> db_fault list \<Rightarrow> chain_db \<times> int \<times> bool \<times> js_error option" where
  "backfill_page sha256 resume final db done_to [] fs = (db, done_to, False, None)"
| "backfill_page sha256 resume final db done_to (e # es) fs =
     (if ne_ledger e < resume then backfill_page sha256 resume final db done_to es fs
      else if final < ne_ledger e then (db, done_to, True, None)
      else (case applyEvent sha256 (case fs of [] \<Rightarrow> None | f # _ \<Rightarrow> f) db e of
              (db', Some err) \<Rightarrow> (db', done_to, False, Some err)
            | (db', None) \<Rightarrow> backfill_page sha256 resume final db' (max done_to (ne_ledger e)) es (tl fs)))"

datatype backfill_end = Backfill_done | Backfill_failed js_error | Backfill_awaits events_request

fun backfill_loop ::
    "(string \<Rightarrow> string) \<Rightarrow> int \<Rightarrow> int \<Rightarrow> chain_db \<Rightarrow> (int \<times> string option) option \<Rightarrow> string option \<Rightarrow> int \<Rightarrow>
     (event_batch \<times> db_fault list \<times> db_fault) list \<Rightarrow> chain_db \<times> (int \<times> string option) option \<times> backfill_end" where
  "backfill_loop sha256 resume final db st cursor done_to [] = (db, st, Backfill_awaits (request_of (Some resume) 0 cursor))"
| "backfill_loop sha256 resume final db st cursor done_to ((batch, fs, saving) # answers) =
     (case backfill_page sha256 resume final db done_to (eb_events batch) fs of
        (db', reached_to, reachedEndOfRange, Some err) \<Rightarrow> (db', st, Backfill_failed err)
      | (db', reached_to, reachedEndOfRange, None) \<Rightarrow>
          (let checkpoint = (if reached_to < eb_latestLedger batch then eb_latestLedger batch else reached_to);
               st' = (if performed saving 0 then Some (checkpoint, eb_cursor batch) else st)
           in if fails_at saving 0 then (db', st', Backfill_failed db_failure)
              else if reachedEndOfRange \<or> final \<le> checkpoint \<or> truthy_text (eb_cursor batch) = None then (db', st', Backfill_done)
              else backfill_loop sha256 resume final db' st' (eb_cursor batch) checkpoint answers))"

definition runBackfill ::
    "(string \<Rightarrow> string) \<Rightarrow> chain_db \<Rightarrow> (int \<times> string option) option \<Rightarrow> int \<Rightarrow> int \<Rightarrow>
     (event_batch \<times> db_fault list \<times> db_fault) list \<Rightarrow> chain_db \<times> (int \<times> string option) option \<times> backfill_end" where
  "runBackfill sha256 db st startLedger endLedger answers =
     (case or_else st (0, None) of (seq, cursor) \<Rightarrow>
        backfill_loop sha256 (max startLedger (seq + 1)) endLedger db st cursor seq answers)"

section \<open>What a prefix of the log amounts to\<close>

record chain_account =
  ca_escrow :: int
  ca_loan :: int
  ca_deposited :: int
  ca_disbursed :: int
  ca_repaid :: int
  ca_ledger :: int

definition no_account :: chain_account where
  "no_account = \<lparr>ca_escrow = 0, ca_loan = 0, ca_deposited = 0, ca_disbursed = 0, ca_repaid = 0, ca_ledger = 0\<rparr>"

definition kind_effect :: "event_kind \<Rightarrow> int \<Rightarrow> int \<Rightarrow> chain_account \<Rightarrow> chain_account" where
  "kind_effect kind v seq acc =
     (let acc' = acc\<lparr>ca_ledger := max (ca_ledger acc) seq\<rparr>
      in case kind of
           Deposit \<Rightarrow> acc'\<lparr>ca_escrow := ca_escrow acc + v, ca_deposited := ca_deposited acc + v\<rparr>
         | Withdraw \<Rightarrow> acc'\<lparr>ca_escrow := max 0 (ca_escrow acc - v)\<rparr>
         | Disburse \<Rightarrow> acc'\<lparr>ca_loan := ca_loan acc + v, ca_disbursed := ca_disbursed acc + v\<rparr>
         | Repay \<Rightarrow> acc'\<lparr>ca_loan := max 0 (ca_loan acc - v), ca_repaid := ca_repaid acc + v\<rparr>
         | Release \<Rightarrow> acc)"

text \<open>What one event means for an account: nothing where its amount is no integer.\<close>

definition count_event :: "string \<Rightarrow> chain_account \<Rightarrow> normalized_event \<Rightarrow> chain_account" where
  "count_event a acc e =
     (case counted_event e of
        None \<Rightarrow> acc
      | Some (kind, borrower, amount) \<Rightarrow>
          if a \<noteq> borrower then acc
          else (case js_bigint amount of Inl _ \<Rightarrow> acc | Inr v \<Rightarrow> kind_effect kind v (ne_ledger e) acc))"

definition row_view :: "borrower_row \<Rightarrow> chain_account" where
  "row_view b = \<lparr>ca_escrow = stored_int (br_escrowBalance b), ca_loan = stored_int (br_loanOutstanding b),
     ca_deposited = stored_int (br_totalDeposited b), ca_disbursed = stored_int (br_totalDisbursed b),
     ca_repaid = stored_int (br_totalRepaid b), ca_ledger = br_lastEventLedger b\<rparr>"

definition chain_view :: "chain_db \<Rightarrow> string \<Rightarrow> chain_account" where
  "chain_view db a = (case map_get (cd_borrowers db) a of None \<Rightarrow> no_account | Some b \<Rightarrow> row_view b)"

text \<open>The digest under which an event is stored, and the digests stored of a kind.\<close>

primrec kind_text :: "event_kind \<Rightarrow> string" where
  "kind_text Deposit = ''deposit''"
| "kind_text Withdraw = ''withdraw''"
| "kind_text Release = ''release''"
| "kind_text Disburse = ''disburse''"
| "kind_text Repay = ''repay''"

primrec kind_rows :: "event_kind \<Rightarrow> chain_db \<Rightarrow> chain_event_row list" where
  "kind_rows Deposit db = cd_escrowDeposits db"
| "kind_rows Withdraw db = cd_escrowWithdrawals db"
| "kind_rows Release db = []"
| "kind_rows Disburse db = cd_loanDisbursements db"
| "kind_rows Repay db = cd_loanRepayments db"

primrec put_rows :: "event_kind \<Rightarrow> chain_event_row list \<Rightarrow> chain_db \<Rightarrow> chain_db" where
  "put_rows Deposit rows = cd_escrowDeposits_update (\<lambda>_. rows)"
| "put_rows Withdraw rows = cd_escrowWithdrawals_update (\<lambda>_. rows)"
| "put_rows Release rows = (\<lambda>db. db)"
| "put_rows Disburse rows = cd_loanDisbursements_update (\<lambda>_. rows)"
| "put_rows Repay rows = cd_loanRepayments_update (\<lambda>_. rows)"

lemma put_rows_facts [simp]:
  "k \<noteq> Release \<Longrightarrow> kind_rows j (put_rows k rows db) = (if j = k then rows else kind_rows j db)"
  "cd_borrowers (put_rows k rows db) = cd_borrowers db"
  by (cases k; cases j; simp)+

definition moves_money :: "normalized_event \<Rightarrow> bool" where
  "moves_money e \<longleftrightarrow> (case counted_event e of None \<Rightarrow> False | Some (kind, _, _) \<Rightarrow> kind \<noteq> Release)"

definition event_digest :: "(string \<Rightarrow> string) \<Rightarrow> normalized_event \<Rightarrow> string" where
  "event_digest sha256 e =
     (case counted_event e of None \<Rightarrow> []
      | Some (kind, borrower, amount) \<Rightarrow> eventHash sha256 (kind_text kind) (ne_contractId e) borrower amount (ne_ledger e))"

definition seen_event :: "(string \<Rightarrow> string) \<Rightarrow> chain_db \<Rightarrow> normalized_event \<Rightarrow> bool" where
  "seen_event sha256 db e =
     (case counted_event e of None \<Rightarrow> False
      | Some (kind, _, _) \<Rightarrow> event_digest sha256 e \<in> set (map cr_eventHash (kind_rows kind db)))"

text \<open>No failure falls between the insertion of an event and the update of its borrower.\<close>

definition clean_fault :: "db_fault \<Rightarrow> bool" where
  "clean_fault f \<longleftrightarrow> f \<noteq> Some (1, True) \<and> f \<noteq> Some (2, False)"

definition ok_chain_row :: "borrower_row \<Rightarrow> bool" where
  "ok_chain_row b \<longleftrightarrow>
     list_all (\<lambda>s. js_bigint s = Inr (stored_int s))
       [br_escrowBalance b, br_loanOutstanding b, br_totalDeposited b, br_totalDisbursed b, br_totalRepaid b]"

definition ok_chain :: "chain_db \<Rightarrow> bool" where
  "ok_chain db \<longleftrightarrow> (\<forall>a b. map_get (cd_borrowers db) a = Some b \<longrightarrow> ok_chain_row b)"

section \<open>One event\<close>

lemma empty_text [simp]: "js_bigint [] = Inr 0"
  by (simp add: js_bigint_def js_trim_def)

lemma db_stroops: "db_addStroops a b = addStroops a b" "db_subStroops a b = subStroops a b"
  by (cases "js_bigint a"; auto simp: db_addStroops_def db_subStroops_def addStroops_def subStroops_def)+

lemma new_borrower_view [simp]: "row_view (new_borrower a) = no_account" "ok_chain_row (new_borrower a)"
  by (simp_all add: row_view_def new_borrower_def no_account_def ok_chain_row_def)

definition borrower_of :: "chain_db \<Rightarrow> string \<Rightarrow> borrower_row" where
  "borrower_of db a = or_else (map_get (cd_borrowers db) a) (new_borrower a)"

lemma borrower_of_view: "row_view (borrower_of db a) = chain_view db a" "ok_chain db \<Longrightarrow> ok_chain_row (borrower_of db a)"
  by (cases "map_get (cd_borrowers db) a"; simp add: borrower_of_def chain_view_def ok_chain_def)+

lemma ensureBorrower_facts:
  "snd (ensureBorrower db a) = borrower_of db a"
  "map_get (cd_borrowers (fst (ensureBorrower db a))) x = (if x = a then Some (borrower_of db a) else map_get (cd_borrowers db) x)"
  "kind_rows k (fst (ensureBorrower db a)) = kind_rows k db"
  by (cases k; auto simp: ensureBorrower_def borrower_of_def split: option.split)+

lemma ensureBorrower_view:
  "chain_view (fst (ensureBorrower db a)) x = chain_view db x"
  "ok_chain db \<Longrightarrow> ok_chain (fst (ensureBorrower db a))"
  using borrower_of_view [of db a]
  by (auto simp: chain_view_def ensureBorrower_facts ok_chain_def split: if_splits)

text \<open>The change each kind makes to its borrower.\<close>

primrec kind_change :: "event_kind \<Rightarrow> string \<Rightarrow> borrower_row \<Rightarrow> js_error + (borrower_row \<Rightarrow> borrower_row)" where
  "kind_change Deposit amount = deposit_change amount"
| "kind_change Withdraw amount = withdrawal_change amount"
| "kind_change Release amount = (\<lambda>_. Inr (\<lambda>r. r))"
| "kind_change Disburse amount = disbursement_change amount"
| "kind_change Repay amount = repayment_change amount"

lemma kind_change_effect:
  assumes "ok_chain_row b" "k \<noteq> Release"
  shows "case js_bigint amount of
      Inl e \<Rightarrow> kind_change k amount b = Inl e
    | Inr v \<Rightarrow> \<exists>g. kind_change k amount b = Inr g \<and>
        (\<forall>n. ok_chain_row (g b\<lparr>br_lastEventLedger := n\<rparr>)) \<and>
        row_view (g b\<lparr>br_lastEventLedger := max (br_lastEventLedger b) seq\<rparr>) = kind_effect k v seq (row_view b)"
  using assms
  by (cases k; cases "js_bigint amount")
    (simp_all add: ok_chain_row_def deposit_change_def withdrawal_change_def disbursement_change_def repayment_change_def
      db_stroops add_sub_ok row_view_def kind_effect_def)

text \<open>A record call either leaves everything as it was, or counts the event.\<close>

definition same_chain :: "chain_db \<Rightarrow> chain_db \<Rightarrow> bool" where
  "same_chain db db' \<longleftrightarrow> ok_chain db' \<and> (\<forall>a. chain_view db' a = chain_view db a) \<and>
     (\<forall>k. set (map cr_eventHash (kind_rows k db')) = set (map cr_eventHash (kind_rows k db)))"

definition counted_once :: "string \<Rightarrow> event_kind \<Rightarrow> normalized_event \<Rightarrow> chain_db \<Rightarrow> chain_db \<Rightarrow> bool" where
  "counted_once digest kind e db db' \<longleftrightarrow> ok_chain db' \<and> (\<forall>a. chain_view db' a = count_event a (chain_view db a) e) \<and>
     (\<forall>k. set (map cr_eventHash (kind_rows k db')) =
        (if k = kind then insert digest else id) (set (map cr_eventHash (kind_rows k db))))"

lemma same_chain_simps [simp]:
  "ok_chain db \<Longrightarrow> same_chain db db" "ok_chain db \<Longrightarrow> same_chain db (fst (ensureBorrower db a))"
  by (simp_all add: same_chain_def ensureBorrower_view ensureBorrower_facts)

lemma begin_record_cases:
  assumes "begin_record rows store digest f db a c amount seq = (db1, b)" "clean_fault f"
    and "\<And>db. rows (fst (ensureBorrower db a)) = rows db"
  shows "(\<exists>err. b = Begin_failed err \<and> db1 \<in> {db, fst (ensureBorrower db a)}) \<or>
    (b = Counted_before (borrower_of db a) \<and> digest \<in> set (map cr_eventHash (rows db)) \<and> db1 = fst (ensureBorrower db a)) \<or>
    (b = Go_on (borrower_of db a) \<and> \<not> fails_at f 0 \<and> \<not> fails_at f 1 \<and> digest \<notin> set (map cr_eventHash (rows db)) \<and>
     (\<exists>row. cr_eventHash row = digest \<and> db1 = store (rows db @ [row]) (fst (ensureBorrower db a))))"
proof -
  have effect: "performed f 1 \<longleftrightarrow> \<not> fails_at f 1" if "\<not> fails_at f 0"
    using assms(2) that by (auto simp: performed_def fails_at_def clean_fault_def split: option.splits)
  show ?thesis
    using assms(1) effect
    by (auto simp: begin_record_def split_beta ensureBorrower_facts assms(3) split: if_splits 
      intro!: exI [of _ "\<lparr>cr_borrowerId = br_id (borrower_of db a), cr_contractId = c, cr_amount = amount, cr_ledger = seq, cr_eventHash = digest\<rparr>"])
qed

lemma finish_record_cases:
  assumes "finish_record (kind_change k amount) f db a seq b = (db', r)" "clean_fault f" "\<not> fails_at f 0" "\<not> fails_at f 1" "k \<noteq> Release"
    and "ok_chain db" "map_get (cd_borrowers db) a = Some b"
  shows "ok_chain db' \<and> (\<forall>x. chain_view db' x = (if x = a then (case js_bigint amount of Inl _ \<Rightarrow> chain_view db x
      | Inr v \<Rightarrow> kind_effect k v seq (chain_view db x)) else chain_view db x)) \<and> (\<forall>k. kind_rows k db' = kind_rows k db)"
proof -
  have b: "ok_chain_row b" "chain_view db a = row_view b"
    using assms(6,7) by (auto simp: ok_chain_def chain_view_def)
  have effect: "performed f 2"
    using assms(2-4) by (auto simp: performed_def fails_at_def clean_fault_def split: option.splits)
  show ?thesis
  proof (cases "js_bigint amount")
    case (Inl e)
    then have "db' = db" using kind_change_effect [OF b(1) assms(5), of amount] assms(1)
      by (simp add: finish_record_def)
    then show ?thesis using Inl assms(6) by simp
  next
    case (Inr v)
    then obtain g where g: "kind_change k amount b = Inr g" "\<And>n. ok_chain_row (g b\<lparr>br_lastEventLedger := n\<rparr>)"
      "row_view (g b\<lparr>br_lastEventLedger := max (br_lastEventLedger b) seq\<rparr>) = kind_effect k v seq (row_view b)"
      using kind_change_effect [OF b(1) assms(5), of amount seq] by auto
    let ?row = "g b\<lparr>br_lastEventLedger := max (br_lastEventLedger b) seq\<rparr>"
    have db': "db' = db\<lparr>cd_borrowers := map_set (cd_borrowers db) a ?row\<rparr>"
      using assms(1,7) g(1) effect by (simp add: finish_record_def Let_def)
    have "kind_rows j db' = kind_rows j db" for j by (cases j) (simp_all add: db')
    then show ?thesis
      using assms(6) g(2,3) b(2) Inr by (auto simp: ok_chain_def chain_view_def db' split: if_splits)
  qed
qed

lemma process_money:
  assumes "processEvent sha256 f db e = (db', r)" "counted_event e = Some (k, a, amount)" "k \<noteq> Release"
    and "ok_chain db" "clean_fault f"
  shows "same_chain db db' \<and> (r \<noteq> None \<or> seen_event sha256 db e) \<or>
    \<not> seen_event sha256 db e \<and> counted_once (event_digest sha256 e) k e db db'"
proof -
  let ?digest = "event_digest sha256 e" and ?ensured = "fst (ensureBorrower db a)"
  have digest: "?digest = eventHash sha256 (kind_text k) (ne_contractId e) a amount (ne_ledger e)"
    and seen: "seen_event sha256 db e \<longleftrightarrow> ?digest \<in> set (map cr_eventHash (kind_rows k db))"
    by (simp_all add: event_digest_def seen_event_def assms(2))
  have rows: "kind_rows Deposit = cd_escrowDeposits" "kind_rows Withdraw = cd_escrowWithdrawals"
    "kind_rows Disburse = cd_loanDisbursements" "kind_rows Repay = cd_loanRepayments" by (simp_all add: fun_eq_iff)
  have store: "put_rows Deposit = (\<lambda>rows. cd_escrowDeposits_update (\<lambda>_. rows))"
    "put_rows Withdraw = (\<lambda>rows. cd_escrowWithdrawals_update (\<lambda>_. rows))"
    "put_rows Disburse = (\<lambda>rows. cd_loanDisbursements_update (\<lambda>_. rows))"
    "put_rows Repay = (\<lambda>rows. cd_loanRepayments_update (\<lambda>_. rows))" by (simp_all add: fun_eq_iff)
  define s where "s = record_with (kind_rows k) (put_rows k) (kind_change k amount) ?digest f db a (ne_contractId e) amount (ne_ledger e)"
  have s: "db' = fst s" "r = (case snd s of Inl err \<Rightarrow> Some err | Inr _ \<Rightarrow> None)"
    using assms(1,3) by (cases k; simp add: processEvent_def assms(2) digest s_def recordEscrowDeposit_def rows store
        recordEscrowWithdrawal_def recordLoanDisbursement_def recordLoanRepayment_def split_beta)+
  obtain db1 b where begun: "begin_record (kind_rows k) (put_rows k) ?digest f db a (ne_contractId e) amount (ne_ledger e) = (db1, b)"
    by fastforce
  from begin_record_cases [OF this assms(5)] consider
      (failed) err where "b = Begin_failed err" "db1 \<in> {db, ?ensured}"
    | (before) b' where "b = Counted_before b'" "?digest \<in> set (map cr_eventHash (kind_rows k db))" "db1 = ?ensured"
    | (go) row where "b = Go_on (borrower_of db a)" "\<not> fails_at f 0" "\<not> fails_at f 1" "?digest \<notin> set (map cr_eventHash (kind_rows k db))"
        "cr_eventHash row = ?digest" "db1 = put_rows k (kind_rows k db @ [row]) ?ensured"
    by (auto simp: ensureBorrower_facts)
  then show ?thesis
  proof cases
    case failed
    then show ?thesis using s begun assms(4) by (auto simp: s_def record_with_def)
  next
    case before
    then show ?thesis using s begun assms(4) seen by (auto simp: s_def record_with_def)
  next
    case go
    have db1: "ok_chain db1" "map_get (cd_borrowers db1) a = Some (borrower_of db a)" "\<And>x. chain_view db1 x = chain_view db x"
      using ensureBorrower_view [where db = db and a = a] assms(4) go(6)
      by (simp_all add: ok_chain_def ensureBorrower_facts chain_view_def)
    have "finish_record (kind_change k amount) f db1 a (ne_ledger e) (borrower_of db a) = (db', snd s)"
      using s(1) begun go(1) by (simp add: s_def record_with_def)
    from finish_record_cases [OF this assms(5) go(2,3) assms(3) db1(1,2)]
    have "counted_once ?digest k e db db'"
      using go(5,6) db1(3) assms(3) by (auto simp: counted_once_def count_event_def assms(2) ensureBorrower_facts split: sum.split)
    then show ?thesis using go(4) seen by blast
  qed
qed

section \<open>The prefix that has been counted\<close>

text \<open>The first \<open>m\<close> events of the chain are those that are stored, and the balances are theirs.\<close>

definition counted_prefix :: "(string \<Rightarrow> string) \<Rightarrow> normalized_event list \<Rightarrow> nat \<Rightarrow> chain_db \<Rightarrow> bool" where
  "counted_prefix sha256 chain m db \<longleftrightarrow> m \<le> length chain \<and> ok_chain db \<and>
     (\<forall>a. chain_view db a = foldl (count_event a) no_account (take m chain)) \<and>
     (\<forall>i < length chain. moves_money (chain ! i) \<longrightarrow> (seen_event sha256 db (chain ! i) \<longleftrightarrow> i < m))"

text \<open>No two events that move money have one digest: none equals another, and the hash has no collision on them.\<close>

definition distinct_digests :: "(string \<Rightarrow> string) \<Rightarrow> normalized_event list \<Rightarrow> bool" where
  "distinct_digests sha256 chain \<longleftrightarrow> distinct (map (event_digest sha256) (filter moves_money chain))"

lemma distinct_filter_nth:
  "distinct (map f (filter P xs)) \<Longrightarrow> i < length xs \<Longrightarrow> j < length xs \<Longrightarrow> P (xs ! i) \<Longrightarrow> P (xs ! j) \<Longrightarrow> f (xs ! i) = f (xs ! j) \<Longrightarrow> i = j"
proof (induction xs arbitrary: i j)
  case Nil
  then show ?case by simp
next
  case (Cons x xs)
  have fresh: "f x \<noteq> f (xs ! n)" if "n < length xs" "P (xs ! n)" "P x" for n
    using Cons.prems(1) that by (auto simp: image_iff)
  show ?case
  proof (cases i; cases j)
    fix i' j' assume ij: "i = Suc i'" "j = Suc j'"
    have "distinct (map f (filter P xs))" using Cons.prems(1) by (cases "P x") simp_all
    with Cons.IH [of i' j'] Cons.prems ij show ?thesis by simp
  qed (use Cons.prems fresh in \<open>auto dest: sym\<close>)
qed

lemma seen_same: "same_chain db db' \<Longrightarrow> seen_event sha256 db' e = seen_event sha256 db e"
  by (simp add: same_chain_def seen_event_def split: option.split)

lemma prefix_same: "counted_prefix sha256 chain m db \<Longrightarrow> same_chain db db' \<Longrightarrow> counted_prefix sha256 chain m db'"
  using seen_same [of db db'] by (auto simp: counted_prefix_def same_chain_def)

lemma prefix_step:
  assumes "counted_prefix sha256 chain m db" "m < length chain"
    and "\<And>a. chain_view db' a = count_event a (chain_view db a) (chain ! m)" "ok_chain db'"
    and "\<And>i. i < length chain \<Longrightarrow> moves_money (chain ! i) \<Longrightarrow>
      seen_event sha256 db' (chain ! i) \<longleftrightarrow> i = m \<or> seen_event sha256 db (chain ! i)"
  shows "counted_prefix sha256 chain (Suc m) db'"
  using assms by (auto simp: counted_prefix_def take_Suc_conv_app_nth less_Suc_eq)

lemma process_one:
  assumes "processEvent sha256 f db (chain ! i) = (db', r)" "counted_prefix sha256 chain m db"
    and "i \<le> m" "i < length chain" "clean_fault f" "distinct_digests sha256 chain"
  shows "\<exists>m' \<ge> m. counted_prefix sha256 chain m' db' \<and> (r = None \<longrightarrow> i < m')"
proof (cases "moves_money (chain ! i)")
  case False
  then have "db' = db" "\<And>a acc. count_event a acc (chain ! i) = acc"
    using assms(1) by (auto simp: moves_money_def processEvent_def count_event_def kind_effect_def split: option.splits prod.splits event_kind.splits sum.splits)
  moreover have "counted_prefix sha256 chain (Suc m) db" if "i = m"
    by (rule prefix_step [OF assms(2)]) (use assms(2,4) False that calculation in \<open>auto simp: counted_prefix_def\<close>)
  ultimately show ?thesis using assms(2,3) by (cases "i = m") (auto intro: exI [of _ "Suc m"])
next
  case True
  then obtain k a amount where e: "counted_event (chain ! i) = Some (k, a, amount)" "k \<noteq> Release"
    by (auto simp: moves_money_def split: option.splits)
  have ok: "ok_chain db" and seen: "seen_event sha256 db (chain ! i) \<longleftrightarrow> i < m"
    using assms(2,4) True by (auto simp: counted_prefix_def)
  from process_money [OF assms(1) e ok assms(5)] show ?thesis
  proof (elim disjE conjE)
    assume "same_chain db db'" "r \<noteq> None"
    then show ?thesis using prefix_same [OF assms(2)] by auto
  next
    assume "same_chain db db'" "seen_event sha256 db (chain ! i)"
    then show ?thesis using prefix_same [OF assms(2)] seen by auto
  next
    assume new: "\<not> seen_event sha256 db (chain ! i)" "counted_once (event_digest sha256 (chain ! i)) k (chain ! i) db db'"
    then have i: "i = m" using seen assms(3) by simp
    have "seen_event sha256 db' (chain ! j) \<longleftrightarrow> j = m \<or> seen_event sha256 db (chain ! j)"
      if "j < length chain" "moves_money (chain ! j)" for j
    proof -
      have "j = i" if "event_digest sha256 (chain ! j) = event_digest sha256 (chain ! i)"
        using distinct_filter_nth [of "event_digest sha256" moves_money chain j i] assms(4,6) True \<open>j < length chain\<close> \<open>moves_money (chain ! j)\<close> that
        by (simp add: distinct_digests_def)
      then show ?thesis
        using new(2) e i by (auto simp: seen_event_def counted_once_def split: option.split)
    qed
    from prefix_step [OF assms(2) _ _ _ this] show ?thesis
      using new(2) i assms(4) by (auto simp: counted_once_def intro: exI [of _ "Suc m"])
  qed
qed

lemma process_batch:
  assumes "process_events sha256 db (take n (drop i chain)) fs = (db', r)" "counted_prefix sha256 chain m db"
    and "i \<le> m" "list_all clean_fault fs" "distinct_digests sha256 chain"
  shows "\<exists>m' \<ge> m. counted_prefix sha256 chain m' db' \<and> (r = None \<longrightarrow> i + length (take n (drop i chain)) \<le> m')"
  using assms
proof (induction n arbitrary: i db m fs)
  case 0
  then show ?case by auto
next
  case (Suc n)
  show ?case
  proof (cases "i < length chain")
    case False
    then show ?thesis using Suc.prems by auto
  next
    case True
    then have split: "take (Suc n) (drop i chain) = chain ! i # take n (drop (Suc i) chain)"
      by (simp add: Cons_nth_drop_Suc [symmetric])
    let ?f = "case fs of [] \<Rightarrow> None | f # _ \<Rightarrow> f"
    have "clean_fault ?f \<and> list_all clean_fault (tl fs)"
      using Suc.prems(4) by (cases fs) (simp_all add: clean_fault_def [of None])
    then have clean: "clean_fault ?f" "list_all clean_fault (tl fs)" by simp_all
    obtain db1 r1 where one: "processEvent sha256 ?f db (chain ! i) = (db1, r1)" by fastforce
    obtain m1 where m1: "m \<le> m1" "counted_prefix sha256 chain m1 db1" "r1 = None \<longrightarrow> i < m1"
      using process_one [OF one Suc.prems(2,3) True clean(1) Suc.prems(5)] by blast
    show ?thesis
    proof (cases r1)
      case (Some err)
      then have "db' = db1" "r = Some err" using Suc.prems(1) one by (simp_all add: split)
      then show ?thesis using m1 by blast
    next
      case None
      then have "process_events sha256 db1 (take n (drop (Suc i) chain)) (tl fs) = (db', r)"
        using Suc.prems(1) one by (simp add: split)
      moreover have "Suc i \<le> m1" using None m1(3) by simp
      ultimately obtain m' where m': "m1 \<le> m'" "counted_prefix sha256 chain m' db'"
        "r = None \<longrightarrow> Suc i + length (take n (drop (Suc i) chain)) \<le> m'"
        using Suc.IH [OF _ m1(2) _ clean(2) Suc.prems(5)] by blast
      have "i + length (take (Suc n) (drop i chain)) = Suc i + length (take n (drop (Suc i) chain))"
        unfolding split by simp
      with m' m1(1) show ?thesis by (intro exI [of _ m']) simp
    qed
  qed
qed

section \<open>Runs of the indexer\<close>

text \<open>
  What the remote ledger's answers are documented to be: the events that follow the requested position, in
  order, and a cursor for the position behind the last of them. \<open>pos\<close> reads a cursor: how many events of the log
  come up to it.
\<close>

primrec request_position :: "(string \<Rightarrow> nat) \<Rightarrow> normalized_event list \<Rightarrow> events_request \<Rightarrow> nat" where
  "request_position pos chain (From_cursor c) = pos c"
| "request_position pos chain (From_ledger l) = length (takeWhile (\<lambda>e. ne_ledger e < l) chain)"

definition rpc_law :: "(string \<Rightarrow> nat) \<Rightarrow> normalized_event list \<Rightarrow> events_request \<Rightarrow> event_batch \<Rightarrow> bool" where
  "rpc_law pos chain req batch \<longleftrightarrow>
     eb_events batch = take (length (eb_events batch)) (drop (request_position pos chain req) chain) \<and>
     (case truthy_text (eb_cursor batch) of None \<Rightarrow> False
      | Some c \<Rightarrow> pos c = request_position pos chain req + length (eb_events batch))"

definition indexer_request :: "event_indexer \<Rightarrow> events_request" where
  "indexer_request ix = request_of (Some (ix_startLedger ix)) 0 (ix_cursor ix)"

text \<open>A run of the indexer whose remote answers obey the law and whose failures leave no event half counted.\<close>

fun admitted_run :: "(string \<Rightarrow> string) \<Rightarrow> (string \<Rightarrow> nat) \<Rightarrow> normalized_event list \<Rightarrow> indexer_world \<Rightarrow> indexer_step list \<Rightarrow> bool" where
  "admitted_run sha256 pos chain w [] = True"
| "admitted_run sha256 pos chain w (step # steps) =
     ((case (step, iw_indexer w) of
         (Poll_indexer (Rpc_batch batch fs saving), Some ix) \<Rightarrow>
           rpc_law pos chain (indexer_request ix) batch \<and> list_all clean_fault fs
       | _ \<Rightarrow> True) \<and> admitted_run sha256 pos chain (run_indexer_step sha256 w step) steps)"

definition empty_world :: indexer_world where
  "empty_world = \<lparr>iw_db = \<lparr>cd_borrowers = [], cd_escrowDeposits = [], cd_escrowWithdrawals = [], cd_loanDisbursements = [],
     cd_loanRepayments = []\<rparr>, iw_state = None, iw_indexer = None\<rparr>"

text \<open>A position that is held covers no more than what was counted; where no cursor is held nothing was read.\<close>

definition held_position :: "(string \<Rightarrow> nat) \<Rightarrow> nat \<Rightarrow> int \<Rightarrow> string option \<Rightarrow> bool" where
  "held_position pos m seq cursor \<longleftrightarrow> (case truthy_text cursor of None \<Rightarrow> seq = 0 | Some c \<Rightarrow> pos c \<le> m)"

definition indexer_ok :: "(string \<Rightarrow> string) \<Rightarrow> (string \<Rightarrow> nat) \<Rightarrow> normalized_event list \<Rightarrow> nat \<Rightarrow> indexer_world \<Rightarrow> bool" where
  "indexer_ok sha256 pos chain m w \<longleftrightarrow> counted_prefix sha256 chain m (iw_db w) \<and>
     (case iw_state w of None \<Rightarrow> True | Some (seq, cursor) \<Rightarrow> held_position pos m seq cursor) \<and>
     (case iw_indexer w of None \<Rightarrow> True
      | Some ix \<Rightarrow> held_position pos m (ix_startLedger ix - 1) (ix_cursor ix))"

lemma held_mono: "held_position pos m seq cursor \<Longrightarrow> m \<le> m' \<Longrightarrow> held_position pos m' seq cursor"
  by (auto simp: held_position_def split: option.splits)

lemma indexer_ok_mono:
  "indexer_ok sha256 pos chain m w \<Longrightarrow> m \<le> m' \<Longrightarrow> counted_prefix sha256 chain m' db \<Longrightarrow>
     indexer_ok sha256 pos chain m' (w\<lparr>iw_db := db\<rparr>)"
  by (auto simp: indexer_ok_def split: option.splits intro: held_mono)

lemma request_in_prefix:
  assumes "held_position pos m (ix_startLedger ix - 1) (ix_cursor ix)" "\<forall>e \<in> set chain. 1 \<le> ne_ledger e"
  shows "request_position pos chain (indexer_request ix) \<le> m"
proof -
  have "takeWhile (\<lambda>e. ne_ledger e < 1) chain = []" using assms(2) by (cases chain) auto
  then show ?thesis
    using assms(1) by (auto simp: held_position_def indexer_request_def request_of_def split: option.splits)
qed

lemma poll_ok:
  assumes "indexer_ok sha256 pos chain m w" "iw_indexer w = Some ix"
    and "\<And>batch fs saving. answer = Rpc_batch batch fs saving \<Longrightarrow> rpc_law pos chain (indexer_request ix) batch \<and> list_all clean_fault fs"
    and "\<forall>e \<in> set chain. 1 \<le> ne_ledger e" "distinct_digests sha256 chain"
  shows "\<exists>m' \<ge> m. indexer_ok sha256 pos chain m' (fst (poll_round sha256 w ix answer))"
proof (cases answer)
  case Rpc_error
  then show ?thesis using assms(1,2) by (auto simp: poll_round_def poll_failed_def indexer_ok_def)
next
  case (Rpc_batch batch fs saving)
  let ?p = "request_position pos chain (indexer_request ix)"
  have law: "eb_events batch = take (length (eb_events batch)) (drop ?p chain)" "list_all clean_fault fs"
    using assms(3) [OF Rpc_batch] by (auto simp: rpc_law_def)
  obtain c where c: "truthy_text (eb_cursor batch) = Some c" "pos c = ?p + length (eb_events batch)"
    using assms(3) [OF Rpc_batch] by (auto simp: rpc_law_def split: option.splits)
  have p: "?p \<le> m" using request_in_prefix assms(1,2,4) by (auto simp: indexer_ok_def)
  obtain db r where run: "process_events sha256 (iw_db w) (eb_events batch) fs = (db, r)" by fastforce
  moreover have "counted_prefix sha256 chain m (iw_db w)" using assms(1) by (simp add: indexer_ok_def)
  ultimately obtain m' where m': "m \<le> m'" "counted_prefix sha256 chain m' db" "r = None \<longrightarrow> ?p + length (eb_events batch) \<le> m'"
    using process_batch [of sha256 "iw_db w" "length (eb_events batch)" ?p chain fs db r m] law p assms(5) by metis
  have ok: "indexer_ok sha256 pos chain m' (w\<lparr>iw_db := db\<rparr>)" by (rule indexer_ok_mono [OF assms(1) m'(1,2)])
  show ?thesis
  proof (cases r)
    case (Some err)
    then show ?thesis using ok m'(1) run Rpc_batch assms(2)
      by (auto simp: poll_round_def poll_failed_def indexer_ok_def intro!: exI [of _ m'])
  next
    case None
    then have "held_position pos m' seq (Some c)" for seq
      using c m'(3) by (auto simp: held_position_def truthy_text_def split: option.splits if_splits)
    then show ?thesis using ok m'(1) run Rpc_batch None c(1)
      by (auto simp: poll_round_def poll_failed_def indexer_ok_def advance_position_def Let_def intro!: exI [of _ m'])
  qed
qed

lemma step_ok:
  assumes "indexer_ok sha256 pos chain m w" "admitted_run sha256 pos chain w [step]"
    and "\<forall>e \<in> set chain. 1 \<le> ne_ledger e" "distinct_digests sha256 chain"
  shows "\<exists>m' \<ge> m. indexer_ok sha256 pos chain m' (run_indexer_step sha256 w step)"
proof (cases step)
  case (Poll_indexer answer)
  show ?thesis
  proof (cases "iw_indexer w")
    case (Some ix)
    have "\<exists>m' \<ge> m. indexer_ok sha256 pos chain m' (fst (poll_round sha256 w ix answer))"
      by (rule poll_ok [OF assms(1) Some _ assms(3,4)]) (use assms(2) Poll_indexer Some in auto)
    then show ?thesis using assms(1) Some Poll_indexer by auto
  qed (use assms(1) Poll_indexer in auto)
next
  case Start_indexer
  have "held_position pos m (ix_startLedger (initializeState w) - 1) (ix_cursor (initializeState w))"
    using assms(1) by (auto simp: indexer_ok_def initializeState_def loadIndexerState_def held_position_def truthy_text_def
        or_else_def split: option.splits prod.splits)
  then show ?thesis using assms(1) Start_indexer
    by (auto simp: start_indexer_def indexer_ok_def split: option.splits intro!: exI [of _ m])
next
  case Stop_indexer
  then show ?thesis using assms(1) by (auto simp: stop_indexer_def indexer_ok_def split: option.splits intro!: exI [of _ m])
next
  case Crash_indexer
  then show ?thesis using assms(1) by (auto simp: indexer_ok_def intro!: exI [of _ m])
qed

lemma run_ok:
  assumes "indexer_ok sha256 pos chain m w" "admitted_run sha256 pos chain w steps"
    and "\<forall>e \<in> set chain. 1 \<le> ne_ledger e" "distinct_digests sha256 chain"
  shows "\<exists>m' \<ge> m. indexer_ok sha256 pos chain m' (foldl (run_indexer_step sha256) w steps)"
  using assms(1,2)
proof (induction steps arbitrary: m w)
  case Nil
  then show ?case by auto
next
  case (Cons step steps)
  obtain m1 where "m \<le> m1" "indexer_ok sha256 pos chain m1 (run_indexer_step sha256 w step)"
    using step_ok [OF Cons.prems(1) _ assms(3,4)] Cons.prems(2) by fastforce
  moreover obtain m' where "m1 \<le> m'" "indexer_ok sha256 pos chain m' (foldl (run_indexer_step sha256) w (step # steps))"
    using Cons.IH [OF calculation(2)] Cons.prems(2) by auto
  ultimately show ?case by (auto intro: order_trans)
qed

section \<open>Property\<close>


section \<open>Examples\<close>

definition chain0 :: "normalized_event list" where
  "chain0 = [\<lparr>ne_contractId = ''C'', ne_topic = ''deposit'', ne_borrower = Some ''GA'', ne_amount = Some ''5'', ne_ledger = 1\<rparr>,
     \<lparr>ne_contractId = ''L'', ne_topic = ''disburse'', ne_borrower = Some ''GA'', ne_amount = Some ''7'', ne_ledger = 2\<rparr>]"

definition batch0 :: event_batch where
  "batch0 = \<lparr>eb_events = chain0, eb_cursor = Some ''cc'', eb_latestLedger = 2\<rparr>"

text \<open>The second event fails, then the position cannot be saved, then the process dies: the batch is read three times.\<close>

definition steps0 :: "indexer_step list" where
  "steps0 = [Start_indexer, Poll_indexer (Rpc_batch batch0 [None, Some (0, False)] None),
     Poll_indexer (Rpc_batch batch0 [] (Some (0, False))), Crash_indexer, Start_indexer, Poll_indexer Rpc_error,
     Poll_indexer (Rpc_batch batch0 [] None)]"


section \<open>Deviations\<close>

text \<open>An event that equals an earlier one of its ledger is not counted.\<close>

lemma twin_event_dropped:
  assumes "processEvent sha256 None db e = (db1, None)" "processEvent sha256 None db1 e = (db2, r)" "moves_money e" "ok_chain db"
  shows "chain_view db2 a = chain_view db1 a"
proof -
  obtain k b amount where e: "counted_event e = Some (k, b, amount)" "k \<noteq> Release"
    using assms(3) by (auto simp: moves_money_def split: option.splits)
  have "ok_chain db1 \<and> seen_event sha256 db1 e"
    using process_money [OF assms(1) e assms(4)] seen_same [of db db1] e
    by (auto simp: clean_fault_def same_chain_def counted_once_def seen_event_def)
  then show ?thesis
    using process_money [OF assms(2) e] by (auto simp: clean_fault_def same_chain_def)
qed

text \<open>
  The insertion and the update are no transaction: after a failure between them the event is taken for counted, and
  the repeated poll goes on without it.
\<close>

lemma half_counted_event_lost:
  "case processEvent id (Some (1, True)) (iw_db empty_world) (chain0 ! 0) of (db, err) \<Rightarrow>
     err \<noteq> None \<and>
     (case processEvent id None db (chain0 ! 0) of (db', err') \<Rightarrow> err' = None \<and> ca_escrow (chain_view db' ''GA'') = 0)"
  by code_simp

text \<open>Every instance runs an indexer: of two that count two deposits of a borrower at once, one overwrites the other.\<close>

lemma overlapping_indexers_lose_a_deposit:
  "case begin_record cd_escrowDeposits (\<lambda>rows. cd_escrowDeposits_update (\<lambda>_. rows)) ''h'' None (iw_db empty_world) ''GA'' ''C'' ''5'' 1 of
     (db1, Go_on b) \<Rightarrow>
       (case begin_record cd_escrowDeposits (\<lambda>rows. cd_escrowDeposits_update (\<lambda>_. rows)) ''i'' None db1 ''GA'' ''C'' ''3'' 2 of
          (db2, Go_on b') \<Rightarrow>
            (let db3 = fst (finish_record (deposit_change ''5'') None db2 ''GA'' 1 b);
                 db4 = fst (finish_record (deposit_change ''3'') None db3 ''GA'' 2 b')
             in ca_escrow (chain_view db4 ''GA'') = 3 \<and> length (cd_escrowDeposits db4) = 2)
        | _ \<Rightarrow> False)
   | _ \<Rightarrow> False"
  by code_simp

text \<open>
  The checkpoint is raised to the network's latest ledger, so that the backfill of a past range ends with its first
  page, and resumes behind the range when it is run again.
\<close>

lemma backfill_ends_with_first_page:
  assumes "backfill_page sha256 resume final db done_to (eb_events batch) fs = (db', reached_to, reached, None)"
    and "final \<le> eb_latestLedger batch"
  shows "\<exists>seq \<ge> final. backfill_loop sha256 resume final db st cursor done_to ((batch, fs, None) # pages) =
      (db', Some (seq, eb_cursor batch), Backfill_done)"
  using assms by (auto simp: performed_def fails_at_def Let_def)

end
