(* ===== verification/EscrowReconciliation.thy ===== *)
theory EscrowReconciliation
  imports EventIndexer
begin

text \<open>
  The reconciliation of escrow balances of \<^verbatim>\<open>backend/src/jobs/escrowReconciliation.ts\<close>, over the borrowers' rows
  of the indexer. What the remote ledger holds for an address is an argument, and so are the failures of the
  statements. The theorem tells what every row and the answer are after a sweep, whatever fails.
\<close>

section \<open>The balance on the ledger\<close>

text \<open>
  \<open>parseFloat\<close>: leading white space, a sign, and the longest decimal literal; absent where there is none. A number
  that is not finite is absent too: \<open>BigInt\<close> refuses both with the same exception.
\<close>

definition js_parse_float :: "string \<Rightarrow> rat option" where
  "js_parse_float s =
     (let t = dropWhile js_space s;
          neg = (t \<noteq> [] \<and> hd t = CHR ''-'');
          body = (if t \<noteq> [] \<and> hd t \<in> {CHR ''-'', CHR ''+''} then tl t else t);
          whole = takeWhile dec_digit body;
          rest = dropWhile dec_digit body;
          frac = (if rest \<noteq> [] \<and> hd rest = CHR ''.'' then takeWhile dec_digit (tl rest) else []);
          after = (if rest \<noteq> [] \<and> hd rest = CHR ''.'' then dropWhile dec_digit (tl rest) else rest);
          sign = (if 1 < length after \<and> after ! 1 \<in> {CHR ''-'', CHR ''+''} then [after ! 1] else []);
          power = (if after \<noteq> [] \<and> hd after \<in> {CHR ''e'', CHR ''E''} then takeWhile dec_digit (drop (1 + length sign) after) else []);
          e = (case radix_value 10 0 power of None \<Rightarrow> 0 | Some n \<Rightarrow> if sign = [CHR ''-''] then - int n else int n)
      in if whole @ frac = [] then None
         else (case radix_value 10 0 (whole @ frac) of
                 None \<Rightarrow> None
               | Some n \<Rightarrow>
                   (let x = e - int (length frac);
                        v = (if 0 \<le> x then of_nat n * 10 ^ nat x else of_nat n / 10 ^ nat (- x))
                    in Some (if neg then - v else v))))"

text \<open>\<open>Math.round\<close>: the nearest integer, halves upwards.\<close>

definition js_round :: "rat \<Rightarrow> int" where
  "js_round x = \<lfloor>x + 1 / 2\<rfloor>"

record asset_balance =
  as_type :: string
  as_code :: "string option"
  as_balance :: string

datatype horizon_answer = Account "asset_balance list" | Not_found | Horizon_failed js_error

fun sum_usdc :: "int \<Rightarrow> asset_balance list \<Rightarrow> js_error + int" where
  "sum_usdc acc [] = Inr acc"
| "sum_usdc acc (b # bs) =
     (if as_type b \<noteq> ''native'' \<and> as_code b = Some ''USDC''
      then (case js_parse_float (as_balance b) of
              None \<Rightarrow> Inl RangeError
            | Some x \<Rightarrow> sum_usdc (acc + js_round (x * 10000000)) bs)
      else sum_usdc acc bs)"

definition fetchOnChainEscrowBalance :: "horizon_answer \<Rightarrow> js_error + string" where
  "fetchOnChainEscrowBalance answer =
     (case answer of
        Account balances \<Rightarrow> map_sum id show_int (sum_usdc 0 balances)
      | Not_found \<Rightarrow> Inr ''0''
      | Horizon_failed e \<Rightarrow> Inl e)"

section \<open>The sweep\<close>

record mismatch =
  mm_borrowerId :: string
  mm_stellarAddress :: string
  mm_cachedBalance :: string
  mm_onChainBalance :: string
  mm_deltaStoops :: string

record reconciliation =
  rc_scanned :: nat
  rc_mismatches :: "mismatch list"
  rc_corrected :: nat
  rc_errors :: nat

text \<open>The rows, the audit entries written, and the answer so far.\<close>

record sweep_state =
  sw_db :: chain_db
  sw_audit :: "mismatch list"
  sw_result :: reconciliation

text \<open>Which of the two statements on a borrower fail: the audit entry, the update.\<close>

type_synonym sweep_fault = "bool \<times> bool"

definition find_mismatch :: "int \<Rightarrow> horizon_answer \<Rightarrow> string \<Rightarrow> borrower_row \<Rightarrow> js_error + mismatch option" where
  "find_mismatch tolerance answer address b =
     (case fetchOnChainEscrowBalance answer of Inl e \<Rightarrow> Inl e | Inr onChain \<Rightarrow>
      case js_bigint (br_escrowBalance b) of Inl e \<Rightarrow> Inl e | Inr cached \<Rightarrow>
      case js_bigint onChain of Inl e \<Rightarrow> Inl e | Inr live \<Rightarrow>
        (let delta = (if live < cached then cached - live else live - cached)
         in Inr (if tolerance < delta
                 then Some \<lparr>mm_borrowerId = br_id b, mm_stellarAddress = address, mm_cachedBalance = br_escrowBalance b,
                        mm_onChainBalance = onChain, mm_deltaStoops = show_int delta\<rparr>
                 else None)))"

definition overwrite_balance :: "chain_db \<Rightarrow> string \<Rightarrow> string \<Rightarrow> chain_db" where
  "overwrite_balance db address onChain =
     (case map_get (cd_borrowers db) address of
        None \<Rightarrow> db
      | Some b \<Rightarrow> db\<lparr>cd_borrowers := map_set (cd_borrowers db) address (b\<lparr>br_escrowBalance := onChain\<rparr>)\<rparr>)"

definition reconcile_one ::
    "int \<Rightarrow> bool \<Rightarrow> (string \<Rightarrow> horizon_answer) \<Rightarrow> (string \<Rightarrow> sweep_fault) \<Rightarrow> sweep_state \<Rightarrow> string \<times> borrower_row \<Rightarrow> sweep_state" where
  "reconcile_one tolerance autoCorrect horizon fault s p =
     (let address = fst p;
          failed = (\<lambda>s. s\<lparr>sw_result := (sw_result s)\<lparr>rc_errors := rc_errors (sw_result s) + 1\<rparr>\<rparr>)
      in case find_mismatch tolerance (horizon address) address (snd p) of
           Inl e \<Rightarrow> failed s
         | Inr None \<Rightarrow> s
         | Inr (Some m) \<Rightarrow>
             (let s1 = s\<lparr>sw_result := (sw_result s)\<lparr>rc_mismatches := rc_mismatches (sw_result s) @ [m]\<rparr>\<rparr>
              in if fst (fault address) then failed s1
                 else (let s2 = s1\<lparr>sw_audit := sw_audit s1 @ [m]\<rparr>
                       in if \<not> autoCorrect then s2
                          else if snd (fault address) then failed s2
                          else s2\<lparr>sw_db := overwrite_balance (sw_db s2) address (mm_onChainBalance m),
                                 sw_result := (sw_result s2)\<lparr>rc_corrected := rc_corrected (sw_result s2) + 1\<rparr>\<rparr>)))"

definition live_borrowers :: "chain_db \<Rightarrow> (string \<times> borrower_row) list" where
  "live_borrowers db = filter (\<lambda>p. br_deletedAt (snd p) = None) (cd_borrowers db)"

definition runEscrowReconciliation ::
    "string option \<Rightarrow> bool \<Rightarrow> (string \<Rightarrow> horizon_answer) \<Rightarrow> (string \<Rightarrow> sweep_fault) \<Rightarrow> chain_db \<Rightarrow> mismatch list \<Rightarrow> js_error + sweep_state" where
  "runEscrowReconciliation env autoCorrect horizon fault db audit =
     (case js_bigint (or_else env ''1000'') of
        Inl e \<Rightarrow> Inl e
      | Inr tolerance \<Rightarrow>
          Inr (foldl (reconcile_one tolerance autoCorrect horizon fault)
                 \<lparr>sw_db = db, sw_audit = audit,
                  sw_result = \<lparr>rc_scanned = length (live_borrowers db), rc_mismatches = [], rc_corrected = 0, rc_errors = 0\<rparr>\<rparr>
                 (live_borrowers db)))"

text \<open>The alert: sent where there is a hook and something to tell; its text is left out.\<close>

definition sendMismatchAlert :: "string option \<Rightarrow> mismatch list \<Rightarrow> (string \<times> mismatch list) option" where
  "sendMismatchAlert hook mismatches =
     (case truthy_text hook of
        None \<Rightarrow> None
      | Some url \<Rightarrow> if mismatches = [] then None else Some (url, mismatches))"

section \<open>What a sweep does\<close>

definition settle :: "int \<Rightarrow> bool \<Rightarrow> (string \<Rightarrow> horizon_answer) \<Rightarrow> (string \<Rightarrow> sweep_fault) \<Rightarrow> string \<Rightarrow> borrower_row \<Rightarrow> borrower_row" where
  "settle tolerance autoCorrect horizon fault a b =
     (case find_mismatch tolerance (horizon a) a b of
        Inr (Some m) \<Rightarrow> if autoCorrect \<and> fault a = (False, False) then b\<lparr>br_escrowBalance := mm_onChainBalance m\<rparr> else b
      | _ \<Rightarrow> b)"

definition found_mismatch :: "int \<Rightarrow> (string \<Rightarrow> horizon_answer) \<Rightarrow> string \<times> borrower_row \<Rightarrow> mismatch list" where
  "found_mismatch tolerance horizon p =
     (case find_mismatch tolerance (horizon (fst p)) (fst p) (snd p) of Inr (Some m) \<Rightarrow> [m] | _ \<Rightarrow> [])"

lemma reconcile_one_facts:
  assumes "map_get (cd_borrowers (sw_db s)) a = Some b"
  shows "map_get (cd_borrowers (sw_db (reconcile_one tolerance auto horizon fault s (a, b)))) x =
      (if x = a then Some (settle tolerance auto horizon fault a b) else map_get (cd_borrowers (sw_db s)) x)"
    and "rc_mismatches (sw_result (reconcile_one tolerance auto horizon fault s (a, b))) =
      rc_mismatches (sw_result s) @ found_mismatch tolerance horizon (a, b)"
    and "sw_audit (reconcile_one tolerance auto horizon fault s (a, b)) =
      sw_audit s @ (if fst (fault a) then [] else found_mismatch tolerance horizon (a, b))"
  using assms
  by (cases "fault a"; auto simp: reconcile_one_def settle_def found_mismatch_def overwrite_balance_def Let_def
      split: sum.split option.split)+

lemma sweep_facts:
  assumes "distinct (map fst ps)" "\<And>a b. (a, b) \<in> set ps \<Longrightarrow> map_get (cd_borrowers (sw_db s)) a = Some b"
    and t: "t = foldl (reconcile_one tolerance auto horizon fault) s ps"
  shows "map_get (cd_borrowers (sw_db t)) x =
      (case map_of ps x of Some b \<Rightarrow> Some (settle tolerance auto horizon fault x b) | None \<Rightarrow> map_get (cd_borrowers (sw_db s)) x) \<and>
    rc_mismatches (sw_result t) = rc_mismatches (sw_result s) @ concat (map (found_mismatch tolerance horizon) ps) \<and>
    sw_audit t = sw_audit s @ concat (map (found_mismatch tolerance horizon) (filter (\<lambda>p. \<not> fst (fault (fst p))) ps))"
  using assms(1,2) unfolding t
proof (induction ps arbitrary: s)
  case Nil
  then show ?case by simp
next
  case (Cons p ps)
  obtain a b where p: "p = (a, b)" by (cases p)
  have a: "map_get (cd_borrowers (sw_db s)) a = Some b" using Cons.prems(2) p by simp
  let ?s = "reconcile_one tolerance auto horizon fault s p"
  have "map_get (cd_borrowers (sw_db ?s)) a' = Some b'" if "(a', b') \<in> set ps" for a' b'
    using that Cons.prems p reconcile_one_facts(1) [OF a] by force
  from Cons.IH [OF _ this] Cons.prems(1) show ?case
    by (auto simp: p reconcile_one_facts [OF a] dest: map_of_SomeD split: option.split)
      (metis fst_conv image_eqI map_of_SomeD)+
qed

lemma live_borrowers_distinct:
  assumes "wf_map (cd_borrowers db)"
  shows "distinct (map fst (live_borrowers db))"
    and "(a, b) \<in> set (live_borrowers db) \<longleftrightarrow> map_get (cd_borrowers db) a = Some b \<and> br_deletedAt b = None"
    and "map_of (live_borrowers db) a = (case map_get (cd_borrowers db) a of Some b \<Rightarrow> if br_deletedAt b = None then Some b else None | None \<Rightarrow> None)"
proof -
  have d: "distinct (map fst (cd_borrowers db))" using assms by (simp add: wf_map_def)
  then show 1: "distinct (map fst (live_borrowers db))"
    unfolding live_borrowers_def by (rule distinct_map_filter)
  show 2: "(a, b) \<in> set (live_borrowers db) \<longleftrightarrow> map_get (cd_borrowers db) a = Some b \<and> br_deletedAt b = None" for a b
    using map_of_eq_Some_iff [OF d] by (auto simp: live_borrowers_def)
  show "map_of (live_borrowers db) a = (case map_get (cd_borrowers db) a of Some b \<Rightarrow> if br_deletedAt b = None then Some b else None | None \<Rightarrow> None)"
  proof (cases "map_of (live_borrowers db) a")
    case None
    then have "\<not> (map_get (cd_borrowers db) a = Some b \<and> br_deletedAt b = None)" for b
      using 2 [of a b] by (auto simp: map_of_eq_None_iff image_iff)
    then show ?thesis using None by (cases "map_get (cd_borrowers db) a") simp_all
  next
    case (Some b)
    then show ?thesis using 2 [of a b] map_of_eq_Some_iff [OF 1] by simp
  qed
qed

text \<open>A mismatch is one of the values that it reports, beyond the tolerance; without one the balance is within it.\<close>

lemma find_mismatch_values:
  assumes "find_mismatch tolerance answer a b = Inr r" "fetchOnChainEscrowBalance answer = Inr onChain"
    and "js_bigint onChain = Inr live"
  shows "case r of None \<Rightarrow> \<bar>stored_int (br_escrowBalance b) - live\<bar> \<le> tolerance
    | Some m \<Rightarrow> mm_onChainBalance m = onChain \<and> mm_stellarAddress m = a \<and> mm_cachedBalance m = br_escrowBalance b \<and>
        tolerance < \<bar>stored_int (br_escrowBalance b) - live\<bar>"
  using assms by (auto simp: find_mismatch_def stored_int_def Let_def split: sum.splits if_splits)

lemma settle_near:
  assumes "fetchOnChainEscrowBalance (horizon a) = Inr onChain" "js_bigint onChain = Inr live"
    and "js_bigint (br_escrowBalance b) = Inr cached" "fault a = (False, False)" "0 \<le> tolerance"
  shows "\<bar>stored_int (br_escrowBalance (settle tolerance True horizon fault a b)) - live\<bar> \<le> tolerance"
proof -
  have "\<exists>r. find_mismatch tolerance (horizon a) a b = Inr r"
    unfolding find_mismatch_def assms(1-3) by (simp add: assms(2) Let_def)
  then obtain r where r: "find_mismatch tolerance (horizon a) a b = Inr r" ..
  have "stored_int onChain = live" using assms(2) by (simp add: stored_int_def)
  then show ?thesis using find_mismatch_values [OF r assms(1,2)] r assms(4,5)
    by (auto simp: settle_def split: option.splits)
qed

lemma settle_changed:
  assumes "settle tolerance auto horizon fault a b \<noteq> b"
  obtains m where "found_mismatch tolerance horizon (a, b) = [m]" "fault a = (False, False)" "auto" "mm_stellarAddress m = a"
    "mm_cachedBalance m = br_escrowBalance b" "settle tolerance auto horizon fault a b = b\<lparr>br_escrowBalance := mm_onChainBalance m\<rparr>"
proof -
  obtain m where m: "find_mismatch tolerance (horizon a) a b = Inr (Some m)" "fault a = (False, False)" "auto"
    "settle tolerance auto horizon fault a b = b\<lparr>br_escrowBalance := mm_onChainBalance m\<rparr>"
    using assms by (auto simp: settle_def split: sum.splits option.splits if_splits)
  then have "mm_stellarAddress m = a" "mm_cachedBalance m = br_escrowBalance b"
    by (auto simp: find_mismatch_def Let_def split: sum.splits if_splits)
  with m that show ?thesis by (simp add: found_mismatch_def)
qed

section \<open>Property\<close>

text \<open>
  C11. After a sweep that corrects, every borrower that is not deleted, whose two balances can be read and whose
  statements do not fail, is within the tolerance of what the ledger holds for its address, whatever fails for the
  others. A row that the sweep changed has only its escrow balance changed, and the change is reported and audited with
  the old and the new value.
\<close>

theorem sweep_settles_balances:
  assumes "runEscrowReconciliation env auto horizon fault db audit = Inr s" "wf_map (cd_borrowers db)"
    and "js_bigint (or_else env ''1000'') = Inr tolerance" "0 \<le> tolerance"
    and "map_get (cd_borrowers db) a = Some b"
  shows "\<exists>b'. map_get (cd_borrowers (sw_db s)) a = Some b' \<and>
    (auto \<and> br_deletedAt b = None \<and> fetchOnChainEscrowBalance (horizon a) = Inr onChain \<and> js_bigint onChain = Inr live \<and>
       js_bigint (br_escrowBalance b) = Inr cached \<and> fault a = (False, False) \<longrightarrow>
       \<bar>stored_int (br_escrowBalance b') - live\<bar> \<le> tolerance) \<and>
    (b' \<noteq> b \<longrightarrow> auto \<and> br_deletedAt b = None \<and>
       (\<exists>m. m \<in> set (rc_mismatches (sw_result s)) \<and> m \<in> set (sw_audit s) \<and> mm_stellarAddress m = a \<and>
         mm_cachedBalance m = br_escrowBalance b \<and> b' = b\<lparr>br_escrowBalance := mm_onChainBalance m\<rparr>))"
proof -
  let ?s0 = "\<lparr>sw_db = db, sw_audit = audit,
      sw_result = \<lparr>rc_scanned = length (live_borrowers db), rc_mismatches = [], rc_corrected = 0, rc_errors = 0\<rparr>\<rparr>"
  have s: "s = foldl (reconcile_one tolerance auto horizon fault) ?s0 (live_borrowers db)"
    using assms(1,3) by (simp add: runEscrowReconciliation_def)
  have rows: "\<And>a b. (a, b) \<in> set (live_borrowers db) \<Longrightarrow> map_get (cd_borrowers (sw_db ?s0)) a = Some b"
    by (simp add: live_borrowers_distinct(2) [OF assms(2)])
  note facts = sweep_facts [OF live_borrowers_distinct(1) [OF assms(2)] rows s]
  have result: "rc_mismatches (sw_result s) = concat (map (found_mismatch tolerance horizon) (live_borrowers db))"
    "sw_audit s = audit @ concat (map (found_mismatch tolerance horizon) (filter (\<lambda>p. \<not> fst (fault (fst p))) (live_borrowers db)))"
    using facts by simp_all
  let ?b' = "if br_deletedAt b = None then settle tolerance auto horizon fault a b else b"
  have b': "map_get (cd_borrowers (sw_db s)) a = Some ?b'"
    using facts [of a] assms(5) by (simp add: live_borrowers_distinct(3) [OF assms(2)])
  have live: "(a, b) \<in> set (live_borrowers db)" if "br_deletedAt b = None"
    using live_borrowers_distinct(2) [OF assms(2)] assms(5) that by blast
  have changed: "auto \<and> br_deletedAt b = None \<and> (\<exists>m. m \<in> set (rc_mismatches (sw_result s)) \<and> m \<in> set (sw_audit s) \<and>
      mm_stellarAddress m = a \<and> mm_cachedBalance m = br_escrowBalance b \<and> ?b' = b\<lparr>br_escrowBalance := mm_onChainBalance m\<rparr>)"
    if "?b' \<noteq> b"
  proof -
    from that have d: "br_deletedAt b = None" and "settle tolerance auto horizon fault a b \<noteq> b" by (auto split: if_splits)
    from this(2) show ?thesis
    proof (rule settle_changed)
      fix m
      assume m: "found_mismatch tolerance horizon (a, b) = [m]" "fault a = (False, False)" "auto" "mm_stellarAddress m = a"
        "mm_cachedBalance m = br_escrowBalance b" "settle tolerance auto horizon fault a b = b\<lparr>br_escrowBalance := mm_onChainBalance m\<rparr>"
      have "m \<in> set (rc_mismatches (sw_result s))" "m \<in> set (sw_audit s)"
        using live [OF d] m(1,2) by (force simp: result)+
      with m d show ?thesis by auto
    qed
  qed
  have near: "\<bar>stored_int (br_escrowBalance ?b') - live\<bar> \<le> tolerance"
    if "auto \<and> br_deletedAt b = None \<and> fetchOnChainEscrowBalance (horizon a) = Inr onChain \<and> js_bigint onChain = Inr live \<and>
       js_bigint (br_escrowBalance b) = Inr cached \<and> fault a = (False, False)"
    using settle_near [of horizon a onChain live b cached fault tolerance] assms(4) that by simp
  show ?thesis
    by (rule exI [of _ ?b'], intro conjI impI; (rule b' | erule near | drule changed, elim conjE, assumption))
qed

section \<open>Examples\<close>

definition indexed0 :: chain_db where
  "indexed0 = \<lparr>cd_borrowers = [(''GA'', (new_borrower ''GA'')\<lparr>br_escrowBalance := ''1500''\<rparr>), (''GB'', (new_borrower ''GB'')\<lparr>br_escrowBalance := ''x''\<rparr>)],
     cd_escrowDeposits = [], cd_escrowWithdrawals = [], cd_loanDisbursements = [], cd_loanRepayments = []\<rparr>"

text \<open>No account is found for the first borrower, and the second one's balance cannot be read.\<close>

theorem sweep_settles_balances_witness:
  "let s = projr (runEscrowReconciliation None True (\<lambda>_. Not_found) (\<lambda>_. (False, False)) indexed0 [])
   in \<exists>b'. map_get (cd_borrowers (sw_db s)) ''GA'' = Some b' \<and> \<bar>stored_int (br_escrowBalance b')\<bar> \<le> 1000"
proof -
  let ?r = "runEscrowReconciliation None True (\<lambda>_. Not_found) (\<lambda>_. (False, False)) indexed0 []"
  have tolerance: "js_bigint (or_else None ''1000'') = Inr 1000" by code_simp
  have "\<exists>s. ?r = Inr s" unfolding runEscrowReconciliation_def tolerance sum.case by blast
  then obtain s where s: "?r = Inr s" ..
  have cached: "js_bigint ''1500'' = Inr 1500" by code_simp
  have b: "map_get (cd_borrowers indexed0) ''GA'' = Some ((new_borrower ''GA'')\<lparr>br_escrowBalance := ''1500''\<rparr>)"
    "wf_map (cd_borrowers indexed0)" by (simp_all add: indexed0_def wf_map_def)
  show ?thesis
    using sweep_settles_balances [OF s b(2) tolerance _ b(1), of "''0''" 0 1500] cached
    unfolding s Let_def sum.sel by (simp add: new_borrower_def fetchOnChainEscrowBalance_def) blast
qed

end
