(* ===== verification/MilestoneEvidence.thy ===== *)
theory MilestoneEvidence
  imports Lockout
begin

text \<open>
  The evidence of construction milestones: who may upload (\<^verbatim>\<open>backend/src/services/contractorAuth.ts\<close>), the proposals
  that the process holds (\<^verbatim>\<open>milestoneProposalStore.ts\<close>), the tracked files and their references in the database
  (\<^verbatim>\<open>ipfsCidTracker.ts\<close>, \<^verbatim>\<open>ipfsCleanup.ts\<close>), the requests of \<^verbatim>\<open>backend/src/routes/milestone.ts\<close> and the job
  that reclaims orphans (\<^verbatim>\<open>jobs/ipfsOrphanCleanup.ts\<close>). Requests and job are split at their awaits into
  tasks, which run in any order and may fail. The theorem: evidence that a proposal references stays pinned.
\<close>

section \<open>Who may upload\<close>

record upload_input =
  ui_address :: "string option"
  ui_challenge :: "string option"
  ui_signature :: "string option"

datatype upload_auth = Upload_ok string | Upload_refused int string

text \<open>What the wallet library decides: whether an address is valid, and whether a signature of a text is its own.\<close>

record wallet_library =
  wl_valid :: "string \<Rightarrow> bool"
  wl_verify :: "string \<Rightarrow> string \<Rightarrow> string \<Rightarrow> bool"

definition loadWhitelist :: "string option \<Rightarrow> string option \<Rightarrow> string list" where
  "loadWhitelist contractors admin =
     filter (\<lambda>s. s \<noteq> []) (map js_trim (js_split CHR '','' (or_else contractors [])) @ [js_trim (or_else admin [])])"

definition isWhitelistedContractor :: "string list \<Rightarrow> string \<Rightarrow> bool" where
  "isWhitelistedContractor whitelist address \<longleftrightarrow> address \<noteq> [] \<and> address \<in> set whitelist"

definition verifyUploadAuthorization ::
    "wallet_library \<Rightarrow> string list \<Rightarrow> challenge_store \<Rightarrow> upload_input \<Rightarrow> int \<Rightarrow> challenge_store \<times> upload_auth" where
  "verifyUploadAuthorization lib whitelist st i now =
     (let address = js_trim (or_else (ui_address i) []); challenge = js_trim (or_else (ui_challenge i) []);
          signature = js_trim (or_else (ui_signature i) [])
      in if address = [] \<or> challenge = [] \<or> signature = [] then (st, Upload_refused 400 ''missing_auth'')
         else if \<not> wl_valid lib address then (st, Upload_refused 401 ''unauthorized'')
         else if \<not> isWhitelistedContractor whitelist address then (st, Upload_refused 401 ''unauthorized'')
         else (case consumeChallenge st address challenge now of
                 (st', Consumed c) \<Rightarrow>
                   (st', if wl_verify lib address challenge signature then Upload_ok address
                         else Upload_refused 401 ''invalid_signature'')
               | (st', _) \<Rightarrow> (st', Upload_refused 401 ''challenge_invalid'')))"

section \<open>Proposals and files\<close>

datatype milestone_status = Open | Passed | Rejected

record milestone_proposal =
  mp_milestoneId :: string
  mp_evidenceCid :: string
  mp_arweaveTxId :: "string option"
  mp_status :: milestone_status
  mp_reason :: "string option"
  mp_createdAt :: int
  mp_updatedAt :: int

type_synonym proposal_store = "(string, milestone_proposal) js_map"

definition createProposal :: "proposal_store \<Rightarrow> string \<Rightarrow> string \<Rightarrow> string \<Rightarrow> string option \<Rightarrow> int \<Rightarrow> proposal_store" where
  "createProposal st k milestoneId evidenceCid arweaveTxId now =
     map_set st k \<lparr>mp_milestoneId = milestoneId, mp_evidenceCid = evidenceCid, mp_arweaveTxId = arweaveTxId, mp_status = Open,
       mp_reason = None, mp_createdAt = now, mp_updatedAt = now\<rparr>"

definition updateProposal :: "proposal_store \<Rightarrow> string \<Rightarrow> milestone_status \<Rightarrow> string \<Rightarrow> int \<Rightarrow> proposal_store \<times> milestone_proposal option" where
  "updateProposal st k status reason now =
     (case map_get st k of
        None \<Rightarrow> (st, None)
      | Some p \<Rightarrow> (let p' = p\<lparr>mp_status := status, mp_reason := Some reason, mp_updatedAt := now\<rparr> in (map_set st k p', Some p')))"

record tracked_cid =
  tk_cid :: string
  tk_referenceType :: string
  tk_referenceId :: string
  tk_pinnedAt :: int
  tk_unpinnedAt :: "int option"
  tk_markedOrphanAt :: "int option"

record unpin_entry =
  up_cid :: string
  up_proposalId :: "string option"
  up_success :: bool

text \<open>
  The process (proposals, tasks in flight), the database (references, tracked files, the log of unpinned ones) and the
  files that the storage holds pinned.
\<close>

type_synonym cid_tracker = "(string, tracked_cid) js_map"

definition trackCid :: "cid_tracker \<Rightarrow> string \<Rightarrow> string \<Rightarrow> string \<Rightarrow> int \<Rightarrow> cid_tracker" where
  "trackCid t cid referenceType referenceId now =
     map_set t cid \<lparr>tk_cid = cid, tk_referenceType = referenceType, tk_referenceId = referenceId, tk_pinnedAt = now,
       tk_unpinnedAt = None, tk_markedOrphanAt = None\<rparr>"

definition markCidUnpinned :: "cid_tracker \<Rightarrow> string \<Rightarrow> int \<Rightarrow> cid_tracker" where
  "markCidUnpinned t cid now =
     map (\<lambda>(k, r). (k, if k = cid \<and> tk_unpinnedAt r = None then r\<lparr>tk_unpinnedAt := Some now\<rparr> else r)) t"

definition markCidOrphan :: "cid_tracker \<Rightarrow> string \<Rightarrow> int \<Rightarrow> cid_tracker option" where
  "markCidOrphan t cid now =
     (case map_get t cid of None \<Rightarrow> None | Some r \<Rightarrow> Some (map_set t cid (r\<lparr>tk_markedOrphanAt := Some now\<rparr>)))"

definition addMilestoneEvidenceReference :: "(string \<times> string) list \<Rightarrow> string \<Rightarrow> string \<Rightarrow> (string \<times> string) list" where
  "addMilestoneEvidenceReference refs proposalId cid = (if (proposalId, cid) \<in> set refs then refs else refs @ [(proposalId, cid)])"

definition removeMilestoneEvidenceReference :: "(string \<times> string) list \<Rightarrow> string \<Rightarrow> string \<Rightarrow> (string \<times> string) list" where
  "removeMilestoneEvidenceReference refs proposalId cid = filter (\<lambda>r. r \<noteq> (proposalId, cid)) refs"

definition hasMilestoneEvidenceReference :: "(string \<times> string) list \<Rightarrow> string \<Rightarrow> string option \<Rightarrow> bool" where
  "hasMilestoneEvidenceReference refs cid excluding =
     list_ex (\<lambda>(p, c). c = cid \<and> (case truthy_text excluding of None \<Rightarrow> True | Some x \<Rightarrow> p \<noteq> x)) refs"

definition listActiveCids :: "cid_tracker \<Rightarrow> tracked_cid list" where
  "listActiveCids t = sort_key tk_pinnedAt (filter (\<lambda>r. tk_unpinnedAt r = None) (map_values t))"

section \<open>Requests and tasks\<close>

record orphan_result =
  oc_checked :: nat
  oc_skippedGracePeriod :: nat
  oc_referenced :: nat
  oc_orphaned :: nat
  oc_unpinned :: nat
  oc_failed :: nat

text \<open>What waits between two awaits: of an upload, a proposal, a rejection, an unpin request and of the job.\<close>

datatype evidence_task =
    Track_pin string string
  | Add_reference string string
  | Remove_reference string string
  | Check_references string string
  | Unpin_evidence string string
  | Mark_unpinned string
  | Cleanup_next orphan_result "tracked_cid list"
  | Cleanup_mark orphan_result tracked_cid "tracked_cid list"
  | Cleanup_unpin orphan_result tracked_cid "tracked_cid list"
  | Cleanup_done orphan_result tracked_cid "tracked_cid list"

record evidence_world =
  ew_challenges :: challenge_store
  ew_proposals :: proposal_store
  ew_references :: "(string \<times> string) list"
  ew_tracked :: cid_tracker
  ew_log :: "unpin_entry list"
  ew_pinned :: "string list"
  ew_tasks :: "evidence_task list"

datatype evidence_reply = Replied int string

definition ALLOWED_MIME_TYPES :: "string list" where
  "ALLOWED_MIME_TYPES = [''image/jpeg'', ''image/png'', ''image/webp'', ''video/mp4'']"

datatype scan_result = Clean | Infected | Scan_unavailable

text \<open>
  An upload: what the scanner says of the file, if there is one, its type, and the content identifier that the storage
  answers with, if it does.
\<close>

record upload_request =
  uq_input :: upload_input
  uq_file :: "(scan_result \<times> string) option"
  uq_stored :: "string option"

definition upload_handler ::
    "wallet_library \<Rightarrow> string list \<Rightarrow> evidence_world \<Rightarrow> upload_request \<Rightarrow> int \<Rightarrow> evidence_world \<times> evidence_reply" where
  "upload_handler lib whitelist w q now =
     (case map_option fst (uq_file q) of
        Some Infected \<Rightarrow> (w, Replied 422 ''infected_file'')
      | Some Scan_unavailable \<Rightarrow> (w, Replied 503 ''malware_scan_unavailable'')
      | _ \<Rightarrow>
          (case verifyUploadAuthorization lib whitelist (ew_challenges w) (uq_input q) now of
             (st, Upload_refused status code) \<Rightarrow> (w\<lparr>ew_challenges := st\<rparr>, Replied status code)
           | (st, Upload_ok _) \<Rightarrow>
               (let w1 = w\<lparr>ew_challenges := st\<rparr>
                in case uq_file q of
                     None \<Rightarrow> (w1, Replied 400 ''missing_file'')
                   | Some (_, mimetype) \<Rightarrow>
                       if mimetype \<notin> set ALLOWED_MIME_TYPES then (w1, Replied 400 ''invalid_file_type'')
                       else (case uq_stored q of
                               None \<Rightarrow> (w1, Replied 500 ''ipfs_pinning_failed'')
                             | Some cid \<Rightarrow>
                                 (w1\<lparr>ew_pinned := cid # ew_pinned w1, ew_tasks := ew_tasks w1 @ [Track_pin cid (''upload:'' @ cid)]\<rparr>,
                                  Replied 201 cid)))))"

definition propose_handler ::
    "evidence_world \<Rightarrow> string \<Rightarrow> string \<Rightarrow> string \<Rightarrow> string option \<Rightarrow> int \<Rightarrow> evidence_world \<times> evidence_reply" where
  "propose_handler w k milestoneId evidenceCid arweaveTxId now =
     (if milestoneId = [] \<or> evidenceCid = [] then (w, Replied 400 ''missing_fields'')
      else (w\<lparr>ew_proposals := createProposal (ew_proposals w) k milestoneId evidenceCid (truthy_text arweaveTxId) now,
              ew_tasks := ew_tasks w @ [Add_reference k evidenceCid]\<rparr>, Replied 201 k))"

definition reject_proposal_handler :: "evidence_world \<Rightarrow> string \<Rightarrow> string option \<Rightarrow> int \<Rightarrow> evidence_world \<times> evidence_reply" where
  "reject_proposal_handler w k reason now =
     (case map_get (ew_proposals w) k of
        None \<Rightarrow> (w, Replied 404 ''not_found'')
      | Some p \<Rightarrow>
          if mp_status p \<noteq> Open then (w, Replied 400 ''invalid_state'')
          else (let st = fst (updateProposal (ew_proposals w) k Rejected (or_else reason ''Rejected by governance multisig'') now)
                in (w\<lparr>ew_proposals := st,
                       ew_tasks := ew_tasks w @ (if mp_evidenceCid p \<noteq> [] then [Remove_reference k (mp_evidenceCid p)] else [])\<rparr>,
                    Replied 200 k)))"

text \<open>A call fails, takes effect, or, for an unpinning, takes effect without a record of it.\<close>

datatype task_outcome = Fine | Failing | Unlogged

definition log_unpin :: "string \<Rightarrow> string option \<Rightarrow> bool \<Rightarrow> evidence_world \<Rightarrow> evidence_world" where
  "log_unpin cid proposalId success w =
     w\<lparr>ew_log := ew_log w @ [\<lparr>up_cid = cid, up_proposalId = proposalId, up_success = success\<rparr>]\<rparr>"

definition release_pin :: "string \<Rightarrow> evidence_world \<Rightarrow> evidence_world" where
  "release_pin cid w = w\<lparr>ew_pinned := filter (\<lambda>c. c \<noteq> cid) (ew_pinned w)\<rparr>"

text \<open>\<open>unpinEvidenceCid\<close> with \<open>throwOnError\<close>: whether it returned.\<close>

definition unpinEvidenceCid :: "task_outcome \<Rightarrow> string \<Rightarrow> string \<Rightarrow> evidence_world \<Rightarrow> evidence_world \<times> bool" where
  "unpinEvidenceCid outcome cid proposalId w =
     (case outcome of
        Fine \<Rightarrow> (log_unpin cid (Some proposalId) True (release_pin cid w), True)
      | Failing \<Rightarrow> (log_unpin cid (Some proposalId) False w, False)
      | Unlogged \<Rightarrow> (log_unpin cid (Some proposalId) False (release_pin cid w), False))"

definition unpin_handler :: "evidence_world \<Rightarrow> string \<Rightarrow> task_outcome \<Rightarrow> evidence_world \<times> evidence_reply" where
  "unpin_handler w cid outcome =
     (case outcome of
        Failing \<Rightarrow> (log_unpin cid None False w, Replied 500 ''ipfs_unpin_failed'')
      | Unlogged \<Rightarrow> (log_unpin cid None False ((release_pin cid w)\<lparr>ew_tasks := ew_tasks w @ [Mark_unpinned cid]\<rparr>), Replied 500 ''ipfs_unpin_failed'')
      | Fine \<Rightarrow> (log_unpin cid None True ((release_pin cid w)\<lparr>ew_tasks := ew_tasks w @ [Mark_unpinned cid]\<rparr>), Replied 200 cid))"

section \<open>The job\<close>

definition getGracePeriodMs :: "string option \<Rightarrow> int" where
  "getGracePeriodMs env = (case js_parse_int (or_else env ''24'') of None \<Rightarrow> 24 | Some hours \<Rightarrow> max 0 hours) * 60 * 60 * 1000"

definition isCidReferenced :: "evidence_world \<Rightarrow> tracked_cid \<Rightarrow> bool" where
  "isCidReferenced w r =
     (if tk_referenceType r = ''milestone_evidence''
      then hasMilestoneEvidenceReference (ew_references w) (tk_cid r) None \<or>
        (case map_get (ew_proposals w) (tk_referenceId r) of
           None \<Rightarrow> False
         | Some p \<Rightarrow> mp_evidenceCid p = tk_cid r \<and> (mp_status p = Open \<or> mp_status p = Passed))
      else True)"

definition no_result :: "nat \<Rightarrow> orphan_result" where
  "no_result n = \<lparr>oc_checked = n, oc_skippedGracePeriod = 0, oc_referenced = 0, oc_orphaned = 0, oc_unpinned = 0, oc_failed = 0\<rparr>"

definition start_cleanup :: "evidence_world \<Rightarrow> evidence_world" where
  "start_cleanup w =
     (let active = listActiveCids (ew_tracked w) in w\<lparr>ew_tasks := ew_tasks w @ [Cleanup_next (no_result (length active)) active]\<rparr>)"

text \<open>One task up to its next await: the world and what is left to do.\<close>

fun run_task :: "int \<Rightarrow> int \<Rightarrow> task_outcome \<Rightarrow> evidence_world \<Rightarrow> evidence_task \<Rightarrow> evidence_world \<times> evidence_task list" where
  "run_task grace now out w (Track_pin cid k) =
     ((if out = Fine then w\<lparr>ew_tracked := trackCid (ew_tracked w) cid ''milestone_evidence'' k now\<rparr> else w), [])"
| "run_task grace now out w (Add_reference k cid) =
     (if out = Fine then (w\<lparr>ew_references := addMilestoneEvidenceReference (ew_references w) k cid\<rparr>, [Track_pin cid k]) else (w, []))"
| "run_task grace now out w (Remove_reference k cid) =
     (if out = Fine then (w\<lparr>ew_references := removeMilestoneEvidenceReference (ew_references w) k cid\<rparr>, [Check_references k cid]) else (w, []))"
| "run_task grace now out w (Check_references k cid) =
     (w, if out \<noteq> Fine \<or> hasMilestoneEvidenceReference (ew_references w) cid (Some k) then [] else [Unpin_evidence k cid])"
| "run_task grace now out w (Unpin_evidence k cid) =
     (case unpinEvidenceCid out cid k w of (w', done) \<Rightarrow> (w', if done then [Mark_unpinned cid] else []))"
| "run_task grace now out w (Mark_unpinned cid) =
     ((if out = Fine then w\<lparr>ew_tracked := markCidUnpinned (ew_tracked w) cid now\<rparr> else w), [])"
| "run_task grace now out w (Cleanup_next res []) = (w, [])"
| "run_task grace now out w (Cleanup_next res (r # rs)) =
     (w, if now - tk_pinnedAt r < grace then [Cleanup_next (res\<lparr>oc_skippedGracePeriod := oc_skippedGracePeriod res + 1\<rparr>) rs]
         else if out \<noteq> Fine then [Cleanup_next (res\<lparr>oc_failed := oc_failed res + 1\<rparr>) rs]
         else if isCidReferenced w r then [Cleanup_next (res\<lparr>oc_referenced := oc_referenced res + 1\<rparr>) rs]
         else [Cleanup_mark (res\<lparr>oc_orphaned := oc_orphaned res + 1\<rparr>) r rs])"
| "run_task grace now out w (Cleanup_mark res r rs) =
     (case (if out = Fine then markCidOrphan (ew_tracked w) (tk_cid r) now else None) of
        None \<Rightarrow> (w, [Cleanup_next (res\<lparr>oc_failed := oc_failed res + 1\<rparr>) rs])
      | Some t \<Rightarrow> (w\<lparr>ew_tracked := t\<rparr>, [Cleanup_unpin res r rs]))"
| "run_task grace now out w (Cleanup_unpin res r rs) =
     (case unpinEvidenceCid out (tk_cid r) (tk_referenceId r) w of
        (w', done) \<Rightarrow> (w', [if done then Cleanup_done res r rs else Cleanup_next (res\<lparr>oc_failed := oc_failed res + 1\<rparr>) rs]))"
| "run_task grace now out w (Cleanup_done res r rs) =
     (if out = Fine
      then (w\<lparr>ew_tracked := markCidUnpinned (ew_tracked w) (tk_cid r) now\<rparr>, [Cleanup_next (res\<lparr>oc_unpinned := oc_unpinned res + 1\<rparr>) rs])
      else (w, [Cleanup_next (res\<lparr>oc_failed := oc_failed res + 1\<rparr>) rs]))"

datatype evidence_step =
    Upload upload_request int
  | Propose string string string "string option" int
  | Reject_proposal string "string option" int
  | Unpin_request string task_outcome
  | Start_cleanup
  | Restart
  | Run_task nat task_outcome int

definition run_nth_task :: "int \<Rightarrow> int \<Rightarrow> task_outcome \<Rightarrow> evidence_world \<Rightarrow> nat \<Rightarrow> evidence_world" where
  "run_nth_task grace now out w i =
     (if i < length (ew_tasks w)
      then (case run_task grace now out (w\<lparr>ew_tasks := take i (ew_tasks w) @ drop (Suc i) (ew_tasks w)\<rparr>) (ew_tasks w ! i) of
              (w', ts) \<Rightarrow> w'\<lparr>ew_tasks := ew_tasks w' @ ts\<rparr>)
      else w)"

fun do_evidence_step :: "wallet_library \<Rightarrow> string list \<Rightarrow> int \<Rightarrow> evidence_world \<Rightarrow> evidence_step \<Rightarrow> evidence_world" where
  "do_evidence_step lib whitelist grace w (Upload q now) = fst (upload_handler lib whitelist w q now)"
| "do_evidence_step lib whitelist grace w (Propose k m cid tx now) = fst (propose_handler w k m cid tx now)"
| "do_evidence_step lib whitelist grace w (Reject_proposal k reason now) = fst (reject_proposal_handler w k reason now)"
| "do_evidence_step lib whitelist grace w (Unpin_request cid out) = fst (unpin_handler w cid out)"
| "do_evidence_step lib whitelist grace w Start_cleanup = start_cleanup w"
| "do_evidence_step lib whitelist grace w Restart = w\<lparr>ew_challenges := [], ew_proposals := [], ew_tasks := []\<rparr>"
| "do_evidence_step lib whitelist grace w (Run_task i out now) = run_nth_task grace now out w i"

section \<open>What is referenced stays pinned\<close>

text \<open>A task that has already decided against the file, or takes this reference away.\<close>

definition dangerous :: "string \<Rightarrow> string \<Rightarrow> evidence_task \<Rightarrow> bool" where
  "dangerous k cid t =
     (case t of
        Remove_reference p c \<Rightarrow> p = k \<and> c = cid
      | Check_references p c \<Rightarrow> p = k \<and> c = cid
      | Unpin_evidence p c \<Rightarrow> c = cid
      | Cleanup_mark res r rs \<Rightarrow> tk_cid r = cid
      | Cleanup_unpin res r rs \<Rightarrow> tk_cid r = cid
      | _ \<Rightarrow> False)"

definition spares :: "string \<Rightarrow> string \<Rightarrow> evidence_step \<Rightarrow> bool" where
  "spares k cid step = (case step of Reject_proposal p _ _ \<Rightarrow> p \<noteq> k | Unpin_request c _ \<Rightarrow> c \<noteq> cid | _ \<Rightarrow> True)"

definition evidence_safe :: "string \<Rightarrow> string \<Rightarrow> evidence_world \<Rightarrow> bool" where
  "evidence_safe k cid w \<longleftrightarrow> (k, cid) \<in> set (ew_references w) \<and> cid \<in> set (ew_pinned w) \<and> list_all (\<lambda>t. \<not> dangerous k cid t) (ew_tasks w)"

lemma referenced_found:
  "(k, cid) \<in> set refs \<Longrightarrow> p \<noteq> k \<Longrightarrow> hasMilestoneEvidenceReference refs cid (Some p)"
  "(k, cid) \<in> set refs \<Longrightarrow> hasMilestoneEvidenceReference refs cid None"
  by (auto simp: hasMilestoneEvidenceReference_def list_ex_iff truthy_text_def intro!: bexI [of _ "(k, cid)"])

lemma world_parts [simp]:
  "ew_references (log_unpin c p s w) = ew_references w" "ew_pinned (log_unpin c p s w) = ew_pinned w"
  "ew_tasks (log_unpin c p s w) = ew_tasks w" "ew_references (release_pin c w) = ew_references w"
  "ew_tasks (release_pin c w) = ew_tasks w" "set (ew_pinned (release_pin c w)) = set (ew_pinned w) - {c}"
  by (auto simp: log_unpin_def release_pin_def)

lemma unpinEvidenceCid_parts [simp]:
  "ew_references (fst (unpinEvidenceCid out c p w)) = ew_references w" "ew_tasks (fst (unpinEvidenceCid out c p w)) = ew_tasks w"
  "cid \<noteq> c \<Longrightarrow> cid \<in> set (ew_pinned (fst (unpinEvidenceCid out c p w))) \<longleftrightarrow> cid \<in> set (ew_pinned w)"
  by (auto simp: unpinEvidenceCid_def split: task_outcome.split)

lemma run_task_tasks: "ew_tasks (fst (run_task grace now out w t)) = ew_tasks w"
  by (induction grace now out w t rule: run_task.induct) (auto simp: split_beta split: option.split)

lemma run_task_references:
  assumes "(k, cid) \<in> set (ew_references w)" "\<not> dangerous k cid t"
  shows "(k, cid) \<in> set (ew_references (fst (run_task grace now out w t)))"
  using assms
  by (induction grace now out w t rule: run_task.induct)
    (auto simp: dangerous_def addMilestoneEvidenceReference_def removeMilestoneEvidenceReference_def split_beta split: option.split)

lemma run_task_pinned:
  assumes "cid \<in> set (ew_pinned w)" "\<not> dangerous k cid t"
  shows "cid \<in> set (ew_pinned (fst (run_task grace now out w t)))"
  using assms
  by (induction grace now out w t rule: run_task.induct) (auto simp: dangerous_def split_beta split: option.split)

lemma run_task_new_tasks:
  assumes "(k, cid) \<in> set (ew_references w)" "\<not> dangerous k cid t"
  shows "list_all (\<lambda>t. \<not> dangerous k cid t) (snd (run_task grace now out w t))"
proof -
  note found = referenced_found [OF assms(1)]
  have referenced: "isCidReferenced w r" if "tk_cid r = cid" for r
    using found(2) that by (simp add: isCidReferenced_def)
  show ?thesis
    using assms(2) found referenced
    by (induction grace now out w t rule: run_task.induct) (auto simp: dangerous_def split_beta split: option.split)
qed

lemma task_keeps:
  assumes "evidence_safe k cid w" "i < length (ew_tasks w)"
  shows "evidence_safe k cid (run_nth_task grace now out w i)"
proof -
  let ?w = "w\<lparr>ew_tasks := take i (ew_tasks w) @ drop (Suc i) (ew_tasks w)\<rparr>" and ?t = "ew_tasks w ! i"
  have t: "\<not> dangerous k cid ?t" using assms by (auto simp: evidence_safe_def list_all_length)
  moreover have "list_all (\<lambda>t. \<not> dangerous k cid t) (take i (ew_tasks w) @ drop (Suc i) (ew_tasks w))"
    using assms(1) by (auto simp: evidence_safe_def list_all_iff dest: in_set_takeD in_set_dropD)
  ultimately show ?thesis
    using assms run_task_references [of k cid ?w ?t] run_task_pinned [of cid ?w k ?t] run_task_new_tasks [of k cid ?w ?t grace now out]
      run_task_tasks [of grace now out ?w ?t]
    by (simp add: run_nth_task_def evidence_safe_def split_beta)
qed

lemma handlers_keep:
  assumes "evidence_safe k cid w"
  shows "evidence_safe k cid (fst (upload_handler lib whitelist w q now))"
    and "evidence_safe k cid (fst (propose_handler w p m c tx now))"
    and "p \<noteq> k \<Longrightarrow> evidence_safe k cid (fst (reject_proposal_handler w p reason now))"
    and "c \<noteq> cid \<Longrightarrow> evidence_safe k cid (fst (unpin_handler w c out))"
    and "evidence_safe k cid (start_cleanup w)"
proof -
  show "evidence_safe k cid (fst (upload_handler lib whitelist w q now))"
    using assms by (auto simp: upload_handler_def evidence_safe_def dangerous_def Let_def split: option.split scan_result.split prod.split upload_auth.split)
qed (use assms in \<open>auto simp: propose_handler_def reject_proposal_handler_def unpin_handler_def start_cleanup_def evidence_safe_def dangerous_def
    Let_def split: option.split task_outcome.split\<close>)

lemma step_keeps:
  assumes "evidence_safe k cid w" "spares k cid step"
  shows "evidence_safe k cid (do_evidence_step lib whitelist grace w step)"
proof (cases step)
  case (Run_task i out now)
  then show ?thesis using task_keeps [OF assms(1)] assms(1) by (cases "i < length (ew_tasks w)") (simp_all add: run_nth_task_def)
qed (use assms in \<open>auto simp: spares_def intro: handlers_keep\<close>, simp add: evidence_safe_def)

section \<open>Properties\<close>

text \<open>
  C20. Evidence that is pinned and referenced by a proposal, and that no task has already decided to release, stays
  pinned and referenced through any interleaving of uploads, proposals, rejections of other proposals, runs of the
  cleanup, failures of the storage and the database, and restarts, as long as nobody rejects this proposal or asks to
  unpin this file.
\<close>

theorem referenced_evidence_stays:
  assumes "(k, cid) \<in> set (ew_references w)" "cid \<in> set (ew_pinned w)" "list_all (\<lambda>t. \<not> dangerous k cid t) (ew_tasks w)"
    and "list_all (spares k cid) steps" "w' = foldl (do_evidence_step lib whitelist grace) w steps"
  shows "(k, cid) \<in> set (ew_references w') \<and> cid \<in> set (ew_pinned w')"
proof -
  have "evidence_safe k cid w" using assms(1-3) by (simp add: evidence_safe_def)
  from this assms(4) have "evidence_safe k cid (foldl (do_evidence_step lib whitelist grace) w steps)"
    by (induction steps arbitrary: w) (simp_all add: step_keeps)
  then show ?thesis by (simp add: assms(5) evidence_safe_def)
qed

section \<open>Examples\<close>

definition evidence0 :: evidence_world where
  "evidence0 = \<lparr>ew_challenges = [], ew_proposals = createProposal (createProposal [] ''p'' ''m'' ''c'' None 0) ''q'' ''m'' ''c'' None 0,
     ew_references = [(''p'', ''c''), (''q'', ''c'')], ew_tracked = trackCid [] ''c'' ''milestone_evidence'' ''q'' 0,
     ew_log = [], ew_pinned = [''c''], ew_tasks = []\<rparr>"

definition wallets0 :: wallet_library where
  "wallets0 = \<lparr>wl_valid = (\<lambda>_. True), wl_verify = (\<lambda>_ c s. c = s)\<rparr>"

text \<open>The other proposal is rejected, the cleanup looks at the file, and the process is restarted in between.\<close>

definition run0 :: "evidence_step list" where
  "run0 = [Reject_proposal ''q'' None 5, Run_task 0 Fine 6, Start_cleanup, Run_task 0 Fine 7, Run_task 0 Fine 100,
     Restart, Start_cleanup, Run_task 0 Fine 200]"

theorem referenced_evidence_stays_witness:
  "let w' = foldl (do_evidence_step wallets0 [] 10) evidence0 run0 in (''p'', ''c'') \<in> set (ew_references w') \<and> ''c'' \<in> set (ew_pinned w')"
  unfolding Let_def
  by (rule referenced_evidence_stays [OF _ _ _ _ refl, where w = evidence0])
    (simp_all add: evidence0_def run0_def spares_def)

section \<open>Uploads\<close>

text \<open>An upload is admitted for a whitelisted address with its own signature, and its challenge admits no second one.\<close>

lemma upload_admitted:
  assumes "verifyUploadAuthorization lib whitelist st i now = (st', Upload_ok a)"
  shows "a \<in> set whitelist \<and> wl_valid lib a \<and> wl_verify lib a (js_trim (or_else (ui_challenge i) [])) (js_trim (or_else (ui_signature i) []))"
    and "js_trim (or_else (ui_address j) []) = a \<Longrightarrow> js_trim (or_else (ui_challenge j) []) = js_trim (or_else (ui_challenge i) []) \<Longrightarrow>
      snd (verifyUploadAuthorization lib whitelist st' j later) \<noteq> Upload_ok a"
proof -
  let ?c = "js_trim (or_else (ui_challenge i) [])"
  from assms show "a \<in> set whitelist \<and> wl_valid lib a \<and> wl_verify lib a ?c (js_trim (or_else (ui_signature i) []))"
    by (auto simp: verifyUploadAuthorization_def Let_def isWhitelistedContractor_def split: if_splits prod.splits consume_result.splits)
  from assms obtain e where "st' = map_set st a (e\<lparr>ch_used := True\<rparr>)"
    by (auto simp: verifyUploadAuthorization_def Let_def consumeChallenge_def split: if_splits prod.splits consume_result.splits option.splits)
  then show "snd (verifyUploadAuthorization lib whitelist st' j later) \<noteq> Upload_ok a"
    if "js_trim (or_else (ui_address j) []) = a" "js_trim (or_else (ui_challenge j) []) = ?c"
    using that by (auto simp: verifyUploadAuthorization_def Let_def consumeChallenge_def split: if_splits)
qed

section \<open>Deviations\<close>

text \<open>The router stands behind a rate limiter only: whoever knows a file's identifier has it unpinned.\<close>

lemma anyone_unpins_referenced_evidence:
  "snd (unpin_handler w cid Fine) = Replied 200 cid \<and> cid \<notin> set (ew_pinned (fst (unpin_handler w cid Fine))) \<and>
     ew_references (fst (unpin_handler w cid Fine)) = ew_references w"
  by (simp add: unpin_handler_def release_pin_def log_unpin_def)

text \<open>A proposal made between the last check of a rejection and its unpinning is left without its evidence.\<close>

lemma late_proposal_loses_evidence:
  "let w' = foldl (do_evidence_step wallets0 [] 10) (evidence0\<lparr>ew_references := [(''p'', ''c'')]\<rparr>)
     [Reject_proposal ''p'' None 5, Run_task 0 Fine 6, Run_task 0 Fine 7, Propose ''r'' ''m'' ''c'' None 8, Run_task 1 Fine 9, Run_task 0 Fine 10]
   in (''r'', ''c'') \<in> set (ew_references w') \<and> ''c'' \<notin> set (ew_pinned w')"
  by code_simp

text \<open>Proposals live in the process and their references in the database: after a restart no request takes a reference away.\<close>

lemma restart_strands_evidence:
  assumes "(k, tk_cid r) \<in> set (ew_references w)"
  shows "snd (reject_proposal_handler (do_evidence_step lib whitelist grace w Restart) k reason now) = Replied 404 ''not_found'' \<and>
    isCidReferenced (do_evidence_step lib whitelist grace w Restart) r"
  using referenced_found(2) [OF assms] by (simp add: reject_proposal_handler_def isCidReferenced_def)

text \<open>A file that was unpinned without a record of it stays active in the tracker, and every later run asks to unpin it again.\<close>

lemma unlogged_unpin_stays_active:
  "case run_task grace now Unlogged w (Cleanup_unpin res r rs) of
     (w', ts) \<Rightarrow> tk_cid r \<notin> set (ew_pinned w') \<and> ew_tracked w' = ew_tracked w \<and> ts = [Cleanup_next (res\<lparr>oc_failed := oc_failed res + 1\<rparr>) rs]"
  by (simp add: unpinEvidenceCid_def release_pin_def log_unpin_def)

end
