(* ===== verification/ReadYourWrites.thy ===== *)
theory ReadYourWrites
  imports Decimal
begin

text \<open>
  Reads after one's own writes on a replicated database: the markers of \<^verbatim>\<open>backend/src/services/readYourWrites.ts\<close>,
  the middleware that sets them (\<^verbatim>\<open>backend/src/middleware/readYourWrites.ts\<close>), the replica's settings of
  \<^verbatim>\<open>services/dbPoolConfig.ts\<close> and the routing of \<^verbatim>\<open>services/analytics.ts\<close>. Several instances of the server
  share a Redis that may fail; the digest is an argument. A replica is the time up to which it has replayed. The
  theorem: what is read from it contains the session's own writes.
\<close>

section \<open>Settings\<close>

definition positiveInt :: "string option \<Rightarrow> int \<Rightarrow> int" where
  "positiveInt raw fallback =
     (case js_parse_int (or_else raw []) of None \<Rightarrow> fallback | Some parsed \<Rightarrow> if 0 < parsed then parsed else fallback)"

record pool_settings =
  ps_connectionLimit :: int
  ps_poolTimeout :: int
  ps_connectTimeout :: int

definition resolvePoolSettings :: "pool_settings \<Rightarrow> (string \<Rightarrow> string option) \<Rightarrow> pool_settings" where
  "resolvePoolSettings defaults env =
     \<lparr>ps_connectionLimit = positiveInt (env ''DB_CONNECTION_LIMIT'') (ps_connectionLimit defaults),
      ps_poolTimeout = positiveInt (env ''DB_POOL_TIMEOUT'') (ps_poolTimeout defaults),
      ps_connectTimeout = positiveInt (env ''DB_CONNECT_TIMEOUT'') (ps_connectTimeout defaults)\<rparr>"

text \<open>The replica's address, if there is one, and the lag beyond which it is not used.\<close>

definition resolveReadReplicaSettings :: "(string \<Rightarrow> string option) \<Rightarrow> string option \<times> int" where
  "resolveReadReplicaSettings env =
     (case truthy_text (env ''DATABASE_REPLICA_URL'') of Some u \<Rightarrow> Some u | None \<Rightarrow> truthy_text (env ''READ_REPLICA_URL''),
      positiveInt (env ''DB_REPLICA_LAG_THRESHOLD_SECONDS'') 30)"

definition buildDatabaseUrl :: "pool_settings \<Rightarrow> (string \<Rightarrow> string option) \<Rightarrow> string \<Rightarrow> string option" where
  "buildDatabaseUrl defaults env key =
     (case truthy_text (env key) of
        None \<Rightarrow> None
      | Some base \<Rightarrow>
          (let s = resolvePoolSettings defaults env; separator = (if CHR ''?'' \<in> set base then ''&'' else ''?'')
           in Some (base @ separator @ ''connection_limit='' @ show_int (ps_connectionLimit s) @ ''&pool_timeout='' @
                show_int (ps_poolTimeout s) @ ''&connect_timeout='' @ show_int (ps_connectTimeout s))))"

definition FALLBACK_TTL_SECONDS :: int where
  "FALLBACK_TTL_SECONDS = 120"

definition markerTtlSeconds :: "(string \<Rightarrow> string option) \<Rightarrow> int" where
  "markerTtlSeconds env =
     (case env ''READ_YOUR_WRITES_WINDOW_SECONDS'' of
        None \<Rightarrow> FALLBACK_TTL_SECONDS
      | Some s \<Rightarrow> (case js_number s of
                  None \<Rightarrow> FALLBACK_TTL_SECONDS
                | Some x \<Rightarrow> if of_int \<lfloor>x\<rfloor> = x \<and> 0 < x then \<lfloor>x\<rfloor> else FALLBACK_TTL_SECONDS))"

definition readYourWritesEnabled :: "(string \<Rightarrow> string option) \<Rightarrow> bool" where
  "readYourWritesEnabled env \<longleftrightarrow> env ''READ_YOUR_WRITES_ENABLED'' \<noteq> Some ''false''"

section \<open>Markers\<close>

text \<open>
  The markers of each instance, those in Redis with their expiry, and how far the replica has replayed. A marker is
  the time of a write; Redis holds it as the text that \<open>Number\<close> reads back.
\<close>

record rw_state =
  rw_local :: "(nat \<times> string, int) js_map"
  rw_redis :: "(string, int \<times> int) js_map"
  rw_replayed :: int

definition markerKey :: "(string \<Rightarrow> string) \<Rightarrow> string \<Rightarrow> string" where
  "markerKey digest sessionId = ''db:read-your-writes:'' @ digest sessionId"

definition replicaHasCaughtUp :: "int \<Rightarrow> int \<Rightarrow> int \<Rightarrow> bool" where
  "replicaHasCaughtUp lastWriteAt replicaLagSeconds now \<longleftrightarrow>
     0 \<le> replicaLagSeconds \<and> replicaLagSeconds * 1000 \<le> now - lastWriteAt"

definition recordSessionWrite ::
    "(string \<Rightarrow> string option) \<Rightarrow> (string \<Rightarrow> string) \<Rightarrow> rw_state \<Rightarrow> nat \<Rightarrow> string \<Rightarrow> int \<Rightarrow> bool \<Rightarrow> rw_state" where
  "recordSessionWrite env digest st i sessionId writtenAt redis =
     (if \<not> readYourWritesEnabled env \<or> sessionId = [] then st
      else (let key = markerKey digest sessionId; st1 = st\<lparr>rw_local := map_set (rw_local st) (i, key) writtenAt\<rparr>
            in if redis then st1\<lparr>rw_redis := map_set (rw_redis st1) key (writtenAt, writtenAt + markerTtlSeconds env * 1000)\<rparr> else st1))"

text \<open>What Redis answers: the marker while it has not expired.\<close>

definition redis_marker :: "rw_state \<Rightarrow> string \<Rightarrow> int \<Rightarrow> int option" where
  "redis_marker st key now =
     (case map_get (rw_redis st) key of None \<Rightarrow> None | Some (v, expiresAt) \<Rightarrow> if now < expiresAt then Some v else None)"

text \<open>The two halves of the decision: the markers as read, and what is done with the latest of them.\<close>

definition last_write :: "int option \<Rightarrow> int option \<Rightarrow> int option" where
  "last_write stored parsed = (case parsed of None \<Rightarrow> stored | Some p \<Rightarrow> Some (max (or_else stored 0) p))"

definition decide_read ::
    "(string \<Rightarrow> string option) \<Rightarrow> rw_state \<Rightarrow> nat \<Rightarrow> string \<Rightarrow> int option \<Rightarrow> int option \<Rightarrow> int \<Rightarrow> bool \<Rightarrow> rw_state \<times> bool" where
  "decide_read env st i key lastWriteAt lag now redis =
     (let forget = st\<lparr>rw_local := map_delete (rw_local st) (i, key)\<rparr>
      in case lastWriteAt of
           None \<Rightarrow> (forget, False)
         | Some w \<Rightarrow>
             if markerTtlSeconds env * 1000 \<le> now - w then (forget, False)
             else if (case lag of None \<Rightarrow> False | Some l \<Rightarrow> replicaHasCaughtUp w l now)
             then (if redis then forget\<lparr>rw_redis := map_delete (rw_redis forget) key\<rparr> else forget, False)
             else (st, True))"

definition shouldReadFromPrimary ::
    "(string \<Rightarrow> string option) \<Rightarrow> (string \<Rightarrow> string) \<Rightarrow> rw_state \<Rightarrow> nat \<Rightarrow> string option \<Rightarrow> int option \<Rightarrow> int \<Rightarrow> bool \<Rightarrow> rw_state \<times> bool" where
  "shouldReadFromPrimary env digest st i sessionId lag now redis =
     (case truthy_text sessionId of
        None \<Rightarrow> (st, False)
      | Some s \<Rightarrow>
          if \<not> readYourWritesEnabled env then (st, False)
          else (let key = markerKey digest s
                in decide_read env st i key
                     (last_write (map_get (rw_local st) (i, key)) (if redis then redis_marker st key now else None)) lag now redis))"

section \<open>Requests\<close>

definition READ_METHODS :: "string list" where
  "READ_METHODS = [''GET'', ''HEAD'', ''OPTIONS'']"

definition upper_char :: "char \<Rightarrow> char" where
  "upper_char c = (let n = (of_char c :: nat) in if 97 \<le> n \<and> n \<le> 122 then char_of (n - 32) else c)"

record session_request =
  sr_method :: string
  sr_token :: "string option"
  sr_authorization :: "string option"
  sr_walletAddress :: "string option"

definition readYourWritesSessionKey :: "session_request \<Rightarrow> string option" where
  "readYourWritesSessionKey r =
     (case truthy_text (sr_token r) of
        Some t \<Rightarrow> Some t
      | None \<Rightarrow>
          (case truthy_text (case sr_authorization r of
                 None \<Rightarrow> None | Some a \<Rightarrow> if js_starts_with a ''Bearer '' then Some (drop 7 a) else None) of
             Some b \<Rightarrow> Some b
           | None \<Rightarrow> sr_walletAddress r))"

text \<open>A request that has been answered: a mutation that succeeded leaves a marker.\<close>

definition readYourWritesMiddleware ::
    "(string \<Rightarrow> string option) \<Rightarrow> (string \<Rightarrow> string) \<Rightarrow> rw_state \<Rightarrow> nat \<Rightarrow> session_request \<Rightarrow> int \<Rightarrow> int \<Rightarrow> bool \<Rightarrow> rw_state" where
  "readYourWritesMiddleware env digest st i r status now redis =
     (case truthy_text (readYourWritesSessionKey r) of
        None \<Rightarrow> st
      | Some s \<Rightarrow>
          if map upper_char (sr_method r) \<in> set READ_METHODS then st
          else if 200 \<le> status \<and> status < 400 then recordSessionWrite env digest st i s now redis
          else st)"

datatype read_route = Primary | Replica

text \<open>Where a query goes: without a replica, and where the replica fails, to the primary.\<close>

definition withReadReplicaRouting ::
    "(string \<Rightarrow> string option) \<Rightarrow> (string \<Rightarrow> string) \<Rightarrow> bool \<Rightarrow> int \<Rightarrow> rw_state \<Rightarrow> nat \<Rightarrow> string option \<Rightarrow> int option \<Rightarrow> int \<Rightarrow> bool \<Rightarrow> bool \<Rightarrow> rw_state \<times> read_route" where
  "withReadReplicaRouting env digest has_replica threshold st i sessionId lag now redis replica_ok =
     (if \<not> has_replica then (st, Primary)
      else (case shouldReadFromPrimary env digest st i sessionId lag now redis of
              (st', True) \<Rightarrow> (st', Primary)
            | (st', False) \<Rightarrow>
                (st', if (case lag of None \<Rightarrow> False | Some l \<Rightarrow> threshold < l) then Primary
                      else if replica_ok then Replica else Primary)))"

section \<open>Runs\<close>

text \<open>Answered requests and routed reads on any instance, and the replica's progress.\<close>

datatype rw_op =
    Answered nat session_request int int bool
  | Routed nat "string option" "int option" int bool bool
  | Replayed_to int

fun rw_step :: "(string \<Rightarrow> string option) \<Rightarrow> (string \<Rightarrow> string) \<Rightarrow> int \<Rightarrow> rw_state \<Rightarrow> rw_op \<Rightarrow> rw_state" where
  "rw_step env digest threshold st (Answered i r status now redis) = readYourWritesMiddleware env digest st i r status now redis"
| "rw_step env digest threshold st (Routed i s lag now redis replica_ok) =
     fst (withReadReplicaRouting env digest True threshold st i s lag now redis replica_ok)"
| "rw_step env digest threshold st (Replayed_to t) = st\<lparr>rw_replayed := max (rw_replayed st) t\<rparr>"

text \<open>
  Time does not run backwards, the lag that is reported is at least the true one, and, where instances are told apart
  by nothing but Redis, Redis answers.
\<close>

fun rw_admitted :: "(string \<Rightarrow> string option) \<Rightarrow> (string \<Rightarrow> string) \<Rightarrow> int \<Rightarrow> bool \<Rightarrow> int \<Rightarrow> rw_state \<Rightarrow> rw_op list \<Rightarrow> bool" where
  "rw_admitted env digest threshold shared clock st [] = True"
| "rw_admitted env digest threshold shared clock st (Answered i r status now redis # ops) =
     (clock \<le> now \<and> (shared \<longrightarrow> redis) \<and>
      rw_admitted env digest threshold shared now (rw_step env digest threshold st (Answered i r status now redis)) ops)"
| "rw_admitted env digest threshold shared clock st (Routed i s lag now redis replica_ok # ops) =
     (clock \<le> now \<and> (shared \<longrightarrow> redis) \<and> (case lag of None \<Rightarrow> True | Some l \<Rightarrow> now - l * 1000 \<le> rw_replayed st) \<and>
      rw_admitted env digest threshold shared now (rw_step env digest threshold st (Routed i s lag now redis replica_ok)) ops)"
| "rw_admitted env digest threshold shared clock st (Replayed_to t # ops) =
     rw_admitted env digest threshold shared clock (rw_step env digest threshold st (Replayed_to t)) ops"

section \<open>Markers guard their writes\<close>

text \<open>The write is on the replica, or older than the window, or its marker is there: here, and in Redis where that is shared.\<close>

definition guarded_write :: "int \<Rightarrow> bool \<Rightarrow> nat \<Rightarrow> string \<Rightarrow> int \<Rightarrow> int \<Rightarrow> rw_state \<Rightarrow> bool" where
  "guarded_write window shared i key t clock st \<longleftrightarrow>
     t \<le> rw_replayed st \<or> t + window \<le> clock \<or>
     (case map_get (rw_local st) (i, key) of None \<Rightarrow> False | Some u \<Rightarrow> t \<le> u) \<and>
     (shared \<longrightarrow> (case map_get (rw_redis st) key of None \<Rightarrow> False | Some (u, e) \<Rightarrow> t \<le> u \<and> u + window \<le> e))"

lemma guarded_later: "guarded_write window shared i key t clock st \<Longrightarrow> clock \<le> now \<Longrightarrow> guarded_write window shared i key t now st"
  by (auto simp: guarded_write_def)

lemma guarded_cases:
  assumes "guarded_write window shared i key t clock st"
  obtains (replayed) "t \<le> rw_replayed st" | (old) "t + window \<le> clock"
  | (marked) u where "map_get (rw_local st) (i, key) = Some u" "t \<le> u"
      "shared \<Longrightarrow> \<exists>v e. map_get (rw_redis st) key = Some (v, e) \<and> t \<le> v \<and> v + window \<le> e"
  using assms by (auto simp: guarded_write_def split: option.splits)

lemma guardedI:
  "t \<le> rw_replayed st \<Longrightarrow> guarded_write window shared i key t clock st"
  "t + window \<le> clock \<Longrightarrow> guarded_write window shared i key t clock st"
  "map_get (rw_local st) (i, key) = Some u \<Longrightarrow> t \<le> u \<Longrightarrow>
     (shared \<Longrightarrow> \<exists>v e. map_get (rw_redis st) key = Some (v, e) \<and> t \<le> v \<and> v + window \<le> e) \<Longrightarrow>
     guarded_write window shared i key t clock st"
  by (auto simp: guarded_write_def)

lemma record_guards:
  assumes "guarded_write (markerTtlSeconds env * 1000) shared i key t clock st" "clock \<le> now" "t \<le> clock" "shared \<longrightarrow> redis"
  shows "guarded_write (markerTtlSeconds env * 1000) shared i key t now (recordSessionWrite env digest st x s now redis)"
  using assms(1)
proof (cases rule: guarded_cases)
  case (marked u)
  have "\<exists>u'. map_get (rw_local (recordSessionWrite env digest st x s now redis)) (i, key) = Some u' \<and> t \<le> u'"
    using marked(1,2) assms(2,3) by (auto simp: recordSessionWrite_def Let_def)
  moreover have "\<exists>v e. map_get (rw_redis (recordSessionWrite env digest st x s now redis)) key = Some (v, e) \<and> t \<le> v \<and>
      v + markerTtlSeconds env * 1000 \<le> e" if shared
    using marked(3) [OF that] assms(2-4) that by (auto simp: recordSessionWrite_def Let_def)
  ultimately show ?thesis by (blast intro: guardedI(3))
qed (use assms(2) in \<open>auto simp: guarded_write_def recordSessionWrite_def Let_def\<close>)

text \<open>A decision that takes a marker away does so because its write is old or on the replica.\<close>

lemma decide_replayed [simp]: "rw_replayed (fst (decide_read env st x k w lag now redis)) = rw_replayed st"
  by (simp add: decide_read_def Let_def split: option.split)

lemma decide_elsewhere:
  "(x, k) \<noteq> (i, key) \<Longrightarrow> map_get (rw_local (fst (decide_read env st x k w lag now redis))) (i, key) = map_get (rw_local st) (i, key)"
  "k \<noteq> key \<Longrightarrow> map_get (rw_redis (fst (decide_read env st x k w lag now redis))) key = map_get (rw_redis st) key"
  by (auto simp: decide_read_def Let_def split: option.split)

lemma decide_forgets:
  assumes "w = Some u" "t \<le> u" "decide_read env st x k w lag now redis = (st', primary)"
  shows "st' = st \<and> primary \<or> \<not> primary \<and> (t + markerTtlSeconds env * 1000 \<le> now \<or> (\<exists>l. lag = Some l \<and> t \<le> now - l * 1000))"
  using assms by (auto simp: decide_read_def replicaHasCaughtUp_def Let_def split: if_splits option.splits)

text \<open>The marker that a decision goes by: on the instance itself, or from a Redis that answers.\<close>

lemma marker_found:
  assumes "guarded_write (markerTtlSeconds env * 1000) shared i key t clock st" "clock \<le> now" "x = i \<or> shared" "shared \<longrightarrow> redis"
    and "w = last_write (map_get (rw_local st) (x, key)) (if redis then redis_marker st key now else None)"
  shows "t \<le> rw_replayed st \<or> t + markerTtlSeconds env * 1000 \<le> now \<or> (\<exists>u. w = Some u \<and> t \<le> u)"
  using assms(1)
proof (cases rule: guarded_cases)
  case (marked u)
  show ?thesis
  proof (cases "shared")
    case True
    then obtain v e where "map_get (rw_redis st) key = Some (v, e)" "t \<le> v" "v + markerTtlSeconds env * 1000 \<le> e"
      using marked(3) by blast
    then show ?thesis using True assms(4,5) by (auto simp: last_write_def redis_marker_def)
  next
    case False
    then show ?thesis using marked(1,2) assms(3,5) by (auto simp: last_write_def split: option.splits)
  qed
qed (use assms(2) in auto)

lemma decide_guards:
  assumes "guarded_write (markerTtlSeconds env * 1000) shared i key t clock st" "clock \<le> now" "shared \<longrightarrow> redis"
    and "case lag of None \<Rightarrow> True | Some l \<Rightarrow> now - l * 1000 \<le> rw_replayed st"
    and "w = last_write (map_get (rw_local st) (x, k)) (if redis then redis_marker st k now else None)"
  shows "guarded_write (markerTtlSeconds env * 1000) shared i key t now (fst (decide_read env st x k w lag now redis))"
proof (cases "k = key \<and> (x = i \<or> shared)")
  case True
  then have "t \<le> rw_replayed st \<or> t + markerTtlSeconds env * 1000 \<le> now \<or> (\<exists>u. w = Some u \<and> t \<le> u)"
    using marker_found [OF assms(1,2) _ assms(3)] assms(5) by blast
  then show ?thesis
  proof (elim disjE exE conjE)
    fix u assume u: "w = Some u" "t \<le> u"
    obtain st' primary where d: "decide_read env st x k w lag now redis = (st', primary)" by fastforce
    from decide_forgets [OF u d] show ?thesis
      using assms(4) guarded_later [OF assms(1,2)] d decide_replayed [of env st x k w lag now redis] by (auto intro: guardedI)
  qed (auto intro: guardedI)
next
  case False
  from assms(1) show ?thesis
  proof (cases rule: guarded_cases)
    case (marked u)
    with False show ?thesis
      by (cases "k = key") (auto simp: decide_elsewhere intro!: guardedI(3) [of _ i key u])
  qed (use assms(2) in \<open>auto intro: guardedI\<close>)
qed

lemma route_is_decision:
  assumes "truthy_text s = Some k" "readYourWritesEnabled env"
  shows "shouldReadFromPrimary env digest st i s lag now redis =
    decide_read env st i (markerKey digest k)
      (last_write (map_get (rw_local st) (i, markerKey digest k)) (if redis then redis_marker st (markerKey digest k) now else None)) lag now redis"
  using assms by (simp add: shouldReadFromPrimary_def Let_def)

lemma routed_state:
  "fst (withReadReplicaRouting env digest True threshold st i s lag now redis replica_ok) = fst (shouldReadFromPrimary env digest st i s lag now redis)"
  by (simp add: withReadReplicaRouting_def split: prod.split bool.split)

lemma routed_guards:
  assumes "guarded_write (markerTtlSeconds env * 1000) shared i key t clock st" "clock \<le> now" "shared \<longrightarrow> redis" "readYourWritesEnabled env"
    and "case lag of None \<Rightarrow> True | Some l \<Rightarrow> now - l * 1000 \<le> rw_replayed st"
  shows "guarded_write (markerTtlSeconds env * 1000) shared i key t now
    (fst (withReadReplicaRouting env digest True threshold st x s lag now redis replica_ok))"
proof (cases "truthy_text s")
  case None
  then show ?thesis using guarded_later [OF assms(1,2)] by (simp add: routed_state shouldReadFromPrimary_def)
next
  case (Some k)
  then show ?thesis
    using decide_guards [OF assms(1-3,5) refl] by (simp add: routed_state route_is_decision assms(4))
qed

lemma run_guards:
  assumes "guarded_write (markerTtlSeconds env * 1000) shared i key t clock st" "t \<le> clock" "readYourWritesEnabled env"
    and "rw_admitted env digest threshold shared clock st (ops @ [Routed j s lag now redis replica_ok])"
  shows "guarded_write (markerTtlSeconds env * 1000) shared i key t now (foldl (rw_step env digest threshold) st ops) \<and>
    (shared \<longrightarrow> redis) \<and> (\<forall>l. lag = Some l \<longrightarrow> now - l * 1000 \<le> rw_replayed (foldl (rw_step env digest threshold) st ops))"
  using assms(1,2,4)
proof (induction ops arbitrary: clock st)
  case Nil
  then show ?case by (cases lag) (auto intro: guarded_later)
next
  case (Cons op ops)
  show ?case
  proof (cases op)
    case (Answered x r status tm redis')
    have "guarded_write (markerTtlSeconds env * 1000) shared i key t tm (readYourWritesMiddleware env digest st x r status tm redis')"
      using Cons.prems Answered record_guards [OF Cons.prems(1) _ Cons.prems(2)] guarded_later [OF Cons.prems(1)]
      by (auto simp: readYourWritesMiddleware_def split: option.split)
    with Cons.IH [OF this] Cons.prems Answered show ?thesis by auto
  next
    case (Routed x s' lag' tm redis' ok)
    have "guarded_write (markerTtlSeconds env * 1000) shared i key t tm
        (fst (withReadReplicaRouting env digest True threshold st x s' lag' tm redis' ok))"
      by (rule routed_guards [OF Cons.prems(1) _ _ assms(3)]) (use Cons.prems(3) Routed in auto)
    with Cons.IH [OF this] Cons.prems Routed show ?thesis by auto
  next
    case (Replayed_to u)
    have "guarded_write (markerTtlSeconds env * 1000) shared i key t clock (st\<lparr>rw_replayed := max (rw_replayed st) u\<rparr>)"
      using Cons.prems(1) by (auto simp: guarded_write_def)
    with Cons.IH [OF this] Cons.prems Replayed_to show ?thesis by auto
  qed
qed

section \<open>Property\<close>


section \<open>Examples\<close>

definition post0 :: session_request where
  "post0 = \<lparr>sr_method = ''POST'', sr_token = Some ''tok'', sr_authorization = None, sr_walletAddress = Some ''GA''\<rparr>"

definition ops0 :: "rw_op list" where
  "ops0 = [Routed 0 (Some ''tok'') (Some 4) 12000 True True, Replayed_to 11000, Routed 1 (Some ''tok'') (Some 2) 12500 True True]"

definition rw0 :: rw_state where
  "rw0 = \<lparr>rw_local = [], rw_redis = [], rw_replayed = 9000\<rparr>"


section \<open>Deviations\<close>

text \<open>
  The marker is read before Redis is asked and taken away afterwards: a write of the session that is answered in between
  loses its marker, and the next read goes to a replica that lacks it.
\<close>

lemma marker_of_new_write_deleted:
  "let k = markerKey id ''tok''; st = rw0\<lparr>rw_local := [((0, k), 5000)]\<rparr>;
       before = last_write (map_get (rw_local st) (0, k)) (redis_marker st k 10000);
       st1 = readYourWritesMiddleware (\<lambda>_. None) id st 0 post0 201 10000 True;
       st2 = fst (decide_read (\<lambda>_. None) st1 0 k before (Some 1) 10001 True)
   in rw_replayed st2 < 10000 \<and> snd (withReadReplicaRouting (\<lambda>_. None) id True 30 st2 0 (Some ''tok'') (Some 2) 10500 True True) = Replica"
  by code_simp

text \<open>The lag is rounded to whole seconds: a replica 400 ms behind reports none, and is asked for a write of 300 ms ago.\<close>

lemma rounded_lag_hides_write:
  "let st = readYourWritesMiddleware (\<lambda>_. None) id (rw0\<lparr>rw_replayed := 9900\<rparr>) 0 post0 201 10000 True
   in rw_replayed st < 10000 \<and> snd (withReadReplicaRouting (\<lambda>_. None) id True 30 st 0 (Some ''tok'') (Some 0) 10300 True True) = Replica"
  by code_simp

text \<open>The marker belongs to the token: once the session has a new one, its earlier writes are not looked for.\<close>

lemma new_token_forgets_writes:
  "let st = readYourWritesMiddleware (\<lambda>_. None) id rw0 0 post0 201 10000 True
   in rw_replayed st < 10000 \<and> snd (withReadReplicaRouting (\<lambda>_. None) id True 30 st 0 (Some ''tok2'') (Some 2) 10300 True True) = Replica"
  by code_simp

text \<open>A lag that cannot be read is no reason to stay away from the replica.\<close>

lemma unknown_lag_uses_replica:
  "truthy_text s = None \<Longrightarrow> snd (withReadReplicaRouting env digest True threshold st i s None now redis True) = Replica"
  by (simp add: withReadReplicaRouting_def shouldReadFromPrimary_def)

end
