(* ===== verification/KycDocuments.thy ===== *)
theory KycDocuments
  imports AccessTokens
begin

text \<open>
  Identity documents. Requests of \<^verbatim>\<open>backend/src/routes/kyc.ts\<close>: an upload is scanned
  (\<^verbatim>\<open>services/malwareScanner.ts\<close>), encrypted (\<^verbatim>\<open>middleware/kycEncryption.ts\<close>, \<^verbatim>\<open>services/kmsEncryption.ts\<close>), stored
  (\<^verbatim>\<open>services/kycStorage.ts\<close>), read by a machine (\<^verbatim>\<open>services/kycOcrStore.ts\<close>) and looked at for forgery
  (\<^verbatim>\<open>services/kycDocumentForensics.ts\<close>); its owner confirms what the machine read and submits; an operator
  gets a token (\<^verbatim>\<open>services/kycAccessToken.ts\<close>) and reads it. The theorems: a submission that is accepted was
  confirmed by the owner of the document, field by field, and an operator reads the bytes that were uploaded,
  whatever was requested in between and whichever key is active by then. A byte is a character; the cipher, the
  token library, the reading machine and the analysis are arguments.
\<close>

section \<open>Base 64\<close>

text \<open>\<open>buffer.toString("base64")\<close> and \<open>Buffer.from(text, "base64")\<close>, which skips what is not of the alphabet.\<close>

definition b64_char :: "nat \<Rightarrow> char" where
  "b64_char n =
     (if n < 26 then char_of (n + 65) else if n < 52 then char_of (n + 71) else if n < 62 then char_of (n - 4)
      else if n = 62 then CHR ''+'' else CHR ''/'')"

definition b64_value :: "char \<Rightarrow> nat option" where
  "b64_value c =
     (let n = (of_char c :: nat)
      in if 65 \<le> n \<and> n \<le> 90 then Some (n - 65) else if 97 \<le> n \<and> n \<le> 122 then Some (n - 71)
         else if 48 \<le> n \<and> n \<le> 57 then Some (n + 4)
         else if n = 43 \<or> n = 45 then Some 62 else if n = 47 \<or> n = 95 then Some 63 else None)"

definition byte :: "char \<Rightarrow> nat" where
  "byte c = of_char c"

fun b64_encode :: "string \<Rightarrow> string" where
  "b64_encode [] = []"
| "b64_encode [a] = [b64_char (byte a div 4), b64_char (byte a mod 4 * 16), CHR ''='', CHR ''='']"
| "b64_encode [a, b] =
     [b64_char (byte a div 4), b64_char (byte a mod 4 * 16 + byte b div 16), b64_char (byte b mod 16 * 4), CHR ''='']"
| "b64_encode (a # b # c # s) =
     b64_char (byte a div 4) # b64_char (byte a mod 4 * 16 + byte b div 16) #
     b64_char (byte b mod 16 * 4 + byte c div 64) # b64_char (byte c mod 64) # b64_encode s"

fun b64_sextets :: "string \<Rightarrow> nat list" where
  "b64_sextets [] = []"
| "b64_sextets (c # s) =
     (if c = CHR ''='' then [] else case b64_value c of None \<Rightarrow> b64_sextets s | Some n \<Rightarrow> n # b64_sextets s)"

fun b64_bytes :: "nat list \<Rightarrow> string" where
  "b64_bytes (w # x # y # z # r) =
     char_of (w * 4 + x div 16) # char_of (x mod 16 * 16 + y div 4) # char_of (y mod 4 * 64 + z) # b64_bytes r"
| "b64_bytes [w, x, y] = [char_of (w * 4 + x div 16), char_of (x mod 16 * 16 + y div 4)]"
| "b64_bytes [w, x] = [char_of (w * 4 + x div 16)]"
| "b64_bytes _ = []"

definition b64_decode :: "string \<Rightarrow> string" where
  "b64_decode s = b64_bytes (b64_sextets s)"

lemma byte_less: "byte c < 256"
  by (simp add: byte_def of_char_lt_256)

lemma char_of_byte: "char_of (byte c) = c"
  by (simp add: byte_def)

lemma of_char_b64: "n < 64 \<Longrightarrow> (of_char (b64_char n) :: nat) =
     (if n < 26 then n + 65 else if n < 52 then n + 71 else if n < 62 then n - 4 else if n = 62 then 43 else 47)"
  by (simp add: b64_char_def)

lemma b64_value_char: "n < 64 \<Longrightarrow> b64_value (b64_char n) = Some n"
  by (simp add: b64_value_def of_char_b64 Let_def; arith)

lemma b64_char_no_padding: "n < 64 \<Longrightarrow> b64_char n \<noteq> CHR ''=''"
  using of_char_b64 [of n] by (auto split: if_splits)

lemma b64_sextets_char: "n < 64 \<Longrightarrow> b64_sextets (b64_char n # s) = n # b64_sextets s"
  using b64_value_char [of n] b64_char_no_padding [of n] by simp

lemma b64_sextets_padding: "b64_sextets (CHR ''='' # s) = []"
  by simp

lemma unpack: "y < k \<Longrightarrow> (x * k + y) div k = x" "y < k \<Longrightarrow> (x * k + y) mod k = y" for x y k :: nat
  by auto

lemma sextet_bounds:
  "byte a div 4 < 64" "byte a mod 4 * 16 + byte b div 16 < 64" "byte b mod 16 * 4 + byte c div 64 < 64"
  "byte a mod 4 * 16 < 64" "byte b mod 16 * 4 < 64" "byte c mod 64 < 64" "byte b div 16 < 16" "byte c div 64 < 4"
  using byte_less [of a] byte_less [of b] byte_less [of c] by auto

lemmas b64_reading = b64_decode_def b64_sextets_char b64_sextets_padding char_of_byte sextet_bounds unpack

lemma b64_round_trip: "b64_decode (b64_encode s) = s"
  by (induction s rule: b64_encode.induct) (simp_all add: b64_reading del: b64_sextets.simps(2))


section \<open>Encryption\<close>

text \<open>\<open>Buffer.from(text, "hex")\<close>: the pairs up to the first that is not of two digits.\<close>

fun buffer_from_hex :: "string \<Rightarrow> string" where
  "buffer_from_hex (a # b # s) =
     (case (digit_value a, digit_value b) of
        (Some x, Some y) \<Rightarrow> if x < 16 \<and> y < 16 then char_of (x * 16 + y) # buffer_from_hex s else []
      | _ \<Rightarrow> [])"
| "buffer_from_hex _ = []"

text \<open>The cipher: from a key, an initial vector and a text the tag and the enciphered text, and back.\<close>

record aes_library =
  ae_encrypt :: "string \<Rightarrow> string \<Rightarrow> string \<Rightarrow> string \<times> string"
  ae_decrypt :: "string \<Rightarrow> string \<Rightarrow> string \<Rightarrow> string \<Rightarrow> string option"

record kyc_config =
  kg_adminApiKey :: string
  kg_kmsKeyVersions :: "(string, string) js_map"
  kg_kmsActiveKeyVersion :: string
  kg_kycOperatorSecret :: string
  kg_kycAccessTokenTtlSeconds :: int

record envelope =
  ev_ciphertext :: string
  ev_wrappedDataKey :: string
  ev_keyVersion :: string

definition IV_LENGTH :: nat where
  "IV_LENGTH = 16"

definition AUTH_TAG_LENGTH :: nat where
  "AUTH_TAG_LENGTH = 16"

definition DATA_KEY_LENGTH :: nat where
  "DATA_KEY_LENGTH = 32"

definition getKeyEncryptionKey :: "kyc_config \<Rightarrow> string \<Rightarrow> js_error + string" where
  "getKeyEncryptionKey cfg keyVersion =
     (case truthy_text (map_get (kg_kmsKeyVersions cfg) keyVersion) of
        None \<Rightarrow> Inl (ErrorMsg ''No KMS key material configured'')
      | Some hexKey \<Rightarrow>
          (let buf = buffer_from_hex hexKey
           in if length buf \<noteq> DATA_KEY_LENGTH then Inl (ErrorMsg ''KMS key must be 32 bytes'') else Inr buf))"

definition aesGcmEncrypt :: "aes_library \<Rightarrow> string \<Rightarrow> string \<Rightarrow> string \<Rightarrow> string" where
  "aesGcmEncrypt aes key iv plaintext =
     (case ae_encrypt aes key iv plaintext of (authTag, encrypted) \<Rightarrow> iv @ authTag @ encrypted)"

definition aesGcmDecrypt :: "aes_library \<Rightarrow> string \<Rightarrow> string \<Rightarrow> js_error + string" where
  "aesGcmDecrypt aes key sealed =
     (case ae_decrypt aes key (take IV_LENGTH sealed) (take AUTH_TAG_LENGTH (drop IV_LENGTH sealed))
             (drop (IV_LENGTH + AUTH_TAG_LENGTH) sealed) of
        None \<Rightarrow> Inl (ErrorMsg ''Unsupported state or unable to authenticate data'')
      | Some text \<Rightarrow> Inr text)"

text \<open>The data key and the two initial vectors are the random bytes of the call.\<close>

record random_bytes =
  rb_dataKey :: string
  rb_iv :: string
  rb_keyIv :: string

definition encryptBuffer :: "aes_library \<Rightarrow> kyc_config \<Rightarrow> random_bytes \<Rightarrow> string \<Rightarrow> js_error + envelope" where
  "encryptBuffer aes cfg rnd plaintext =
     (let keyVersion = kg_kmsActiveKeyVersion cfg
      in case getKeyEncryptionKey cfg keyVersion of
           Inl e \<Rightarrow> Inl e
         | Inr kek \<Rightarrow>
             Inr \<lparr>ev_ciphertext = b64_encode (aesGcmEncrypt aes (rb_dataKey rnd) (rb_iv rnd) plaintext),
                  ev_wrappedDataKey = b64_encode (aesGcmEncrypt aes kek (rb_keyIv rnd) (rb_dataKey rnd)),
                  ev_keyVersion = keyVersion\<rparr>)"

definition decryptBuffer :: "aes_library \<Rightarrow> kyc_config \<Rightarrow> envelope \<Rightarrow> js_error + string" where
  "decryptBuffer aes cfg payload =
     (case getKeyEncryptionKey cfg (ev_keyVersion payload) of
        Inl e \<Rightarrow> Inl e
      | Inr kek \<Rightarrow>
          (case aesGcmDecrypt aes kek (b64_decode (ev_wrappedDataKey payload)) of
             Inl e \<Rightarrow> Inl e
           | Inr dataKey \<Rightarrow> aesGcmDecrypt aes dataKey (b64_decode (ev_ciphertext payload))))"

section \<open>The scanner\<close>

datatype malware_scan_result = Clean | Infected string

text \<open>What the socket reports.\<close>

datatype socket_event = Socket_data string | Socket_error string | Socket_timeout

text \<open>The first report that settles the promise, and with what; none while it waits.\<close>

fun follow_scan :: "string \<Rightarrow> socket_event list \<Rightarrow> (js_error + malware_scan_result) option" where
  "follow_scan response [] = None"
| "follow_scan response (Socket_error m # es) = Some (Inl (ErrorMsg m))"
| "follow_scan response (Socket_timeout # es) = Some (Inl (ErrorMsg ''Malware scan timed out''))"
| "follow_scan response (Socket_data chunk # es) =
     (let response' = response @ chunk
      in if CHR 0x00 \<notin> set response' \<and> CHR 0x0A \<notin> set response' then follow_scan response' es
         else if js_includes response' '' FOUND'' then Some (Inr (Infected (js_trim (last (js_split CHR '':'' response')))))
         else if js_includes response' '' OK'' then Some (Inr Clean)
         else Some (Inl (ErrorMsg ''Unexpected malware scanner response'')))"

definition scanForMalware ::
    "string option \<Rightarrow> string option \<Rightarrow> socket_event list \<Rightarrow> (js_error + malware_scan_result) option" where
  "scanForMalware host port es =
     (case (truthy_text host, js_number (or_else port ''3310'')) of
        (Some _, Some p) \<Rightarrow>
          if of_int \<lfloor>p\<rfloor> = p \<and> 1 \<le> p \<and> p \<le> 65535 then follow_scan [] es
          else Some (Inl (ErrorMsg ''Malware scanner is not configured''))
      | _ \<Rightarrow> Some (Inl (ErrorMsg ''Malware scanner is not configured'')))"

section \<open>What is kept\<close>

datatype kyc_document_status = Uploaded | Under_review | Accepted | Rejected

text \<open>A stored document; \<open>scanStatus\<close> has the one value \<^verbatim>\<open>clean\<close>.\<close>

record kyc_document =
  kd_documentId :: string
  kd_applicantAddress :: string
  kd_documentType :: string
  kd_status :: kyc_document_status
  kd_reviewMessage :: "string option"
  kd_originalName :: string
  kd_mimeType :: string
  kd_uploadedAt :: int
  kd_envelope :: envelope

record ocr_outcome =
  os_name :: "string option"
  os_idNumber :: "string option"
  os_address :: "string option"
  os_success :: bool
  os_error :: "string option"

record ocr_record =
  oc_documentId :: string
  oc_applicantAddress :: string
  oc_extractedName :: "string option"
  oc_nameConfirmed :: bool
  oc_extractedIdNumber :: "string option"
  oc_idNumberConfirmed :: bool
  oc_extractedAddress :: "string option"
  oc_addressConfirmed :: bool
  oc_ocrFailed :: bool
  oc_ocrError :: "string option"

record forensics_row =
  fr_applicantAddress :: string
  fr_format :: string
  fr_flagged :: bool
  fr_signals :: "string list"
  fr_analyzedAt :: int
  fr_reviewedAt :: "int option"
  fr_reviewedBy :: "string option"
  fr_reviewOutcome :: "string option"
  fr_reviewNote :: "string option"

text \<open>
  The directory of documents and the tables, by the identifier of the document; the quarantine, by file; the
  audit entries about flags.
\<close>

record kyc_world =
  kw_documents :: "(string, kyc_document) js_map"
  kw_ocr :: "(string, ocr_record) js_map"
  kw_forensics :: "(string, forensics_row) js_map"
  kw_quarantine :: "(string \<times> string) list"
  kw_flagAudit :: "(string \<times> string \<times> string list) list"

definition storeEncryptedDocument ::
    "kyc_world \<Rightarrow> string \<Rightarrow> string \<Rightarrow> string \<Rightarrow> string \<Rightarrow> envelope \<Rightarrow> string \<Rightarrow> int \<Rightarrow> kyc_world \<times> kyc_document" where
  "storeEncryptedDocument w applicantAddress documentType originalName mimeType env uuid now =
     (let r = \<lparr>kd_documentId = uuid, kd_applicantAddress = applicantAddress, kd_documentType = documentType,
            kd_status = Uploaded, kd_reviewMessage = None, kd_originalName = originalName, kd_mimeType = mimeType,
            kd_uploadedAt = now, kd_envelope = env\<rparr>
      in (w\<lparr>kw_documents := map_set (kw_documents w) uuid r\<rparr>, r))"

definition getEncryptedDocument :: "kyc_world \<Rightarrow> string \<Rightarrow> kyc_document option" where
  "getEncryptedDocument w documentId = map_get (kw_documents w) documentId"

text \<open>An empty message counts as none.\<close>

definition updateDocumentReview ::
    "kyc_world \<Rightarrow> string \<Rightarrow> kyc_document_status \<Rightarrow> string option \<Rightarrow> kyc_world \<times> kyc_document option" where
  "updateDocumentReview w documentId status reviewMessage =
     (case getEncryptedDocument w documentId of
        None \<Rightarrow> (w, None)
      | Some r \<Rightarrow>
          (let updated = r\<lparr>kd_status := status, kd_reviewMessage := truthy_text reviewMessage\<rparr>
           in (w\<lparr>kw_documents := map_set (kw_documents w) documentId updated\<rparr>, Some updated)))"

definition createOcrResult :: "kyc_world \<Rightarrow> string \<Rightarrow> string \<Rightarrow> ocr_outcome \<Rightarrow> js_error + kyc_world \<times> ocr_record" where
  "createOcrResult w documentId applicantAddress result =
     (if map_get (kw_ocr w) documentId \<noteq> None then Inl (ErrorMsg ''Unique constraint failed'')
      else (let r = \<lparr>oc_documentId = documentId, oc_applicantAddress = applicantAddress, oc_extractedName = os_name result,
                  oc_nameConfirmed = False, oc_extractedIdNumber = os_idNumber result, oc_idNumberConfirmed = False,
                  oc_extractedAddress = os_address result, oc_addressConfirmed = False,
                  oc_ocrFailed = (\<not> os_success result), oc_ocrError = os_error result\<rparr>
            in Inr (w\<lparr>kw_ocr := map_set (kw_ocr w) documentId r\<rparr>, r)))"

definition getOcrResult :: "kyc_world \<Rightarrow> string \<Rightarrow> ocr_record option" where
  "getOcrResult w documentId = map_get (kw_ocr w) documentId"

record confirmation_patch =
  cp_confirmName :: bool
  cp_confirmIdNumber :: bool
  cp_confirmAddress :: bool

definition confirm_record :: "confirmation_patch \<Rightarrow> ocr_record \<Rightarrow> ocr_record" where
  "confirm_record patch r =
     (let r1 = (if cp_confirmName patch then r\<lparr>oc_nameConfirmed := True\<rparr> else r);
          r2 = (if cp_confirmIdNumber patch then r1\<lparr>oc_idNumberConfirmed := True\<rparr> else r1)
      in if cp_confirmAddress patch then r2\<lparr>oc_addressConfirmed := True\<rparr> else r2)"

definition confirmOcrFields :: "kyc_world \<Rightarrow> string \<Rightarrow> confirmation_patch \<Rightarrow> js_error + kyc_world \<times> ocr_record" where
  "confirmOcrFields w documentId patch =
     (case map_get (kw_ocr w) documentId of
        None \<Rightarrow> Inl (ErrorMsg ''Record to update not found'')
      | Some r \<Rightarrow>
          (let updated = confirm_record patch r
           in Inr (w\<lparr>kw_ocr := map_set (kw_ocr w) documentId updated\<rparr>, updated)))"

definition getUnconfirmedFields :: "ocr_record \<Rightarrow> string list" where
  "getUnconfirmedFields r =
     (if oc_extractedName r \<noteq> None \<and> \<not> oc_nameConfirmed r then [''name''] else []) @
     (if oc_extractedIdNumber r \<noteq> None \<and> \<not> oc_idNumberConfirmed r then [''idNumber''] else []) @
     (if oc_extractedAddress r \<noteq> None \<and> \<not> oc_addressConfirmed r then [''address''] else [])"

section \<open>The analysis\<close>

text \<open>
  What the analysis finds: a format, whether to look closer, and the codes of its signals; none when it throws. Of the two
  inserts the one named may fail.
\<close>

type_synonym forensic_analysis = "string \<times> bool \<times> string list"

definition analyzeAndRecordDocument ::
    "kyc_world \<Rightarrow> forensic_analysis option \<Rightarrow> string \<Rightarrow> string \<Rightarrow> nat option \<Rightarrow> int \<Rightarrow> kyc_world" where
  "analyzeAndRecordDocument w analysis documentId applicantAddress fault now =
     (case analysis of
        None \<Rightarrow> w
      | Some (format, flagged, signals) \<Rightarrow>
          if fault = Some 0 \<or> map_get (kw_forensics w) documentId \<noteq> None then w
          else (let row = \<lparr>fr_applicantAddress = applicantAddress, fr_format = format, fr_flagged = flagged, fr_signals = signals,
                      fr_analyzedAt = now, fr_reviewedAt = None, fr_reviewedBy = None, fr_reviewOutcome = None,
                      fr_reviewNote = None\<rparr>;
                    w1 = w\<lparr>kw_forensics := map_set (kw_forensics w) documentId row\<rparr>
                in if flagged \<and> fault \<noteq> Some 1
                   then w1\<lparr>kw_flagAudit := kw_flagAudit w @ [(documentId, applicantAddress, signals)]\<rparr> else w1))"

definition listFlaggedDocuments :: "kyc_world \<Rightarrow> nat \<Rightarrow> (string \<times> forensics_row) list" where
  "listFlaggedDocuments w limit =
     take limit (sort_key (\<lambda>(d, r). fr_analyzedAt r)
       (filter (\<lambda>(d, r). fr_flagged r \<and> fr_reviewedAt r = None) (kw_forensics w)))"

datatype forensics_review_error = Invalid_outcome | Not_found | Not_flagged | Already_reviewed

record review_input =
  ri_documentId :: string
  ri_reviewedBy :: string
  ri_outcome :: js_value
  ri_note :: "string option"

definition REVIEW_OUTCOMES :: "string list" where
  "REVIEW_OUTCOMES = [''CLEARED'', ''CONFIRMED_TAMPERED'']"

text \<open>The checks, up to the await of the update, and the update.\<close>

definition check_review :: "kyc_world \<Rightarrow> review_input \<Rightarrow> forensics_review_error option" where
  "check_review w i =
     (if ri_outcome i \<notin> set (map JStr REVIEW_OUTCOMES) then Some Invalid_outcome
      else case map_get (kw_forensics w) (ri_documentId i) of
        None \<Rightarrow> Some Not_found
      | Some r \<Rightarrow> if \<not> fr_flagged r then Some Not_flagged
                  else if fr_reviewedAt r \<noteq> None then Some Already_reviewed else None)"

definition write_review :: "kyc_world \<Rightarrow> review_input \<Rightarrow> int \<Rightarrow> kyc_world" where
  "write_review w i now =
     (case map_get (kw_forensics w) (ri_documentId i) of
        None \<Rightarrow> w
      | Some r \<Rightarrow>
          w\<lparr>kw_forensics := map_set (kw_forensics w) (ri_documentId i)
             (r\<lparr>fr_reviewedAt := Some now, fr_reviewedBy := Some (ri_reviewedBy i),
                fr_reviewOutcome := (case ri_outcome i of JStr s \<Rightarrow> Some s | _ \<Rightarrow> None), fr_reviewNote := ri_note i\<rparr>)\<rparr>)"

definition reviewFlaggedDocument :: "kyc_world \<Rightarrow> review_input \<Rightarrow> int \<Rightarrow> kyc_world \<times> forensics_review_error option" where
  "reviewFlaggedDocument w i now =
     (case check_review w i of Some e \<Rightarrow> (w, Some e) | None \<Rightarrow> (write_review w i now, None))"

section \<open>Requests\<close>

definition js_truthy :: "js_value \<Rightarrow> bool" where
  "js_truthy v =
     (case v of JUndefined \<Rightarrow> False | JNull \<Rightarrow> False | JBool b \<Rightarrow> b | JNum x \<Rightarrow> x \<noteq> 0 | JStr s \<Rightarrow> s \<noteq> [] | _ \<Rightarrow> True)"

record kyc_claims =
  kc_operatorId :: string
  kc_documentId :: string
  kc_scope :: string

text \<open>
  What belongs to packages: the cipher, the token library (signing until a time, verifying at a time), the machine that
  reads a document, the analysis of its metadata, and \<open>String(v)\<close>.
\<close>

record kyc_library =
  kl_aes :: aes_library
  kl_sign :: "kyc_claims \<Rightarrow> string \<Rightarrow> int \<Rightarrow> string"
  kl_verify :: "string \<Rightarrow> string \<Rightarrow> int \<Rightarrow> js_error + kyc_claims"
  kl_extract :: "string \<Rightarrow> string \<Rightarrow> js_error + ocr_outcome"
  kl_analyze :: "string \<Rightarrow> string \<Rightarrow> forensic_analysis option"
  kl_text :: "js_value \<Rightarrow> string"

definition SCOPE :: string where
  "SCOPE = ''kyc:decrypt''"

definition issueKycAccessToken :: "kyc_library \<Rightarrow> kyc_config \<Rightarrow> string \<Rightarrow> string \<Rightarrow> int \<Rightarrow> string \<times> int" where
  "issueKycAccessToken lib cfg operatorId documentId now =
     (kl_sign lib \<lparr>kc_operatorId = operatorId, kc_documentId = documentId, kc_scope = SCOPE\<rparr> (kg_kycOperatorSecret cfg)
        (now + kg_kycAccessTokenTtlSeconds cfg), kg_kycAccessTokenTtlSeconds cfg)"

definition verifyKycAccessToken :: "kyc_library \<Rightarrow> kyc_config \<Rightarrow> string \<Rightarrow> string \<Rightarrow> int \<Rightarrow> js_error + kyc_claims" where
  "verifyKycAccessToken lib cfg token documentId now =
     (case kl_verify lib token (kg_kycOperatorSecret cfg) now of
        Inl e \<Rightarrow> Inl e
      | Inr decoded \<Rightarrow>
          if kc_scope decoded \<noteq> SCOPE \<or> kc_documentId decoded \<noteq> documentId
          then Inl (ErrorMsg ''Token is not authorized for this document'') else Inr decoded)"

definition KYC_DOCUMENT_TYPES :: "string list" where
  "KYC_DOCUMENT_TYPES = [''identity'', ''income'', ''bank_statement'', ''property_contract'', ''construction_plan'']"

definition ALLOWED_KYC_MIME_TYPES :: "string list" where
  "ALLOWED_KYC_MIME_TYPES = [''application/pdf'', ''image/jpeg'', ''image/png'']"

record uploaded_file =
  uf_buffer :: string
  uf_originalname :: string
  uf_mimetype :: string

text \<open>What the multipart parser makes of the body.\<close>

datatype parsed_upload = Parsed "uploaded_file option" | Multer_error string string | Parse_error string

text \<open>
  An upload: the authenticated wallet and the address of the path, the body, and what happens around it: the
  environment and the reports of the scanner, the name of the quarantine file (none if it cannot be written), the random
  bytes, the identifier, the clock, and which of the writes fail.
\<close>

record kyc_upload =
  ur_wallet :: "string option"
  ur_address :: string
  ur_parsed :: parsed_upload
  ur_documentType :: js_value
  ur_clamHost :: "string option"
  ur_clamPort :: "string option"
  ur_scan :: "socket_event list"
  ur_quarantine :: "string option"
  ur_random :: random_bytes
  ur_uuid :: string
  ur_now :: int
  ur_storeFails :: bool
  ur_forensicsFault :: "nat option"
  ur_ocrFails :: bool

record ocr_view =
  ov_extractedName :: "string option"
  ov_extractedIdNumber :: "string option"
  ov_extractedAddress :: "string option"
  ov_ocrFailed :: bool

datatype kyc_reply =
    Kyc_error int string
  | Kyc_waiting
  | Kyc_stored string ocr_view
  | Kyc_confirmed ocr_record "string list"
  | Kyc_submitted string
  | Kyc_ocr ocr_record "string list"
  | Kyc_token string int
  | Kyc_plaintext string string string
  | Kyc_reviewed

text \<open>\<open>next\<close> is no reply.\<close>

definition scanKycUpload :: "kyc_upload \<Rightarrow> kyc_world \<Rightarrow> uploaded_file option \<Rightarrow> kyc_world \<times> kyc_reply option" where
  "scanKycUpload u w f =
     (case f of
        None \<Rightarrow> (w, None)
      | Some f \<Rightarrow>
          (case scanForMalware (ur_clamHost u) (ur_clamPort u) (ur_scan u) of
             None \<Rightarrow> (w, Some Kyc_waiting)
           | Some (Inl e) \<Rightarrow> (w, Some (Kyc_error 503 ''malware_scan_unavailable''))
           | Some (Inr Clean) \<Rightarrow> (w, None)
           | Some (Inr (Infected signature)) \<Rightarrow>
               (case ur_quarantine u of
                  None \<Rightarrow> (w, Some (Kyc_error 503 ''malware_scan_unavailable''))
                | Some q \<Rightarrow> (w\<lparr>kw_quarantine := kw_quarantine w @ [(q, uf_buffer f)]\<rparr>, Some (Kyc_error 422 ''infected_file'')))))"

text \<open>The copy that is kept for the reading machine; an empty buffer is not copied.\<close>

definition captureBufferForOcr :: "uploaded_file option \<Rightarrow> (string \<times> string) option" where
  "captureBufferForOcr f =
     (case f of None \<Rightarrow> None | Some f \<Rightarrow> if uf_buffer f \<noteq> [] then Some (uf_buffer f, uf_mimetype f) else None)"

text \<open>The envelope of the request, and the file without its bytes.\<close>

definition encryptKycUpload ::
    "kyc_library \<Rightarrow> kyc_config \<Rightarrow> kyc_upload \<Rightarrow> uploaded_file option \<Rightarrow> js_error + uploaded_file option \<times> envelope option" where
  "encryptKycUpload lib cfg u f =
     (case f of
        None \<Rightarrow> Inr (None, None)
      | Some f \<Rightarrow>
          (case encryptBuffer (kl_aes lib) cfg (ur_random u) (uf_buffer f) of
             Inl e \<Rightarrow> Inl e
           | Inr e \<Rightarrow> Inr (Some (f\<lparr>uf_buffer := []\<rparr>), Some e)))"

definition ocr_response :: "ocr_record option \<Rightarrow> ocr_view" where
  "ocr_response r =
     (case r of
        None \<Rightarrow> \<lparr>ov_extractedName = None, ov_extractedIdNumber = None, ov_extractedAddress = None, ov_ocrFailed = True\<rparr>
      | Some r \<Rightarrow> \<lparr>ov_extractedName = oc_extractedName r, ov_extractedIdNumber = oc_extractedIdNumber r,
                   ov_extractedAddress = oc_extractedAddress r, ov_ocrFailed = oc_ocrFailed r\<rparr>)"

text \<open>The part of the handler after the document is stored.\<close>

definition read_stored_document ::
    "kyc_library \<Rightarrow> kyc_upload \<Rightarrow> kyc_world \<Rightarrow> kyc_document \<Rightarrow> string \<Rightarrow> string \<Rightarrow> kyc_world \<times> kyc_reply" where
  "read_stored_document lib u w r ocrBuffer ocrMime =
     (case kl_extract lib ocrBuffer ocrMime of
        Inl e \<Rightarrow> (w, Kyc_error 500 ''upload_failed'')
      | Inr ocrResult \<Rightarrow>
          (let w1 = analyzeAndRecordDocument w (kl_analyze lib ocrBuffer ocrMime) (kd_documentId r) (ur_address u)
                 (ur_forensicsFault u) (ur_now u)
           in case (if ur_ocrFails u then Inl (ErrorMsg ''database'')
                    else createOcrResult w1 (kd_documentId r) (ur_address u) ocrResult) of
                Inl e \<Rightarrow> (w1, Kyc_stored (kd_documentId r) (ocr_response None))
              | Inr (w2, ocr) \<Rightarrow> (w2, Kyc_stored (kd_documentId r) (ocr_response (Some ocr)))))"

definition store_upload ::
    "kyc_library \<Rightarrow> kyc_upload \<Rightarrow> kyc_world \<Rightarrow> uploaded_file option \<Rightarrow> envelope option \<Rightarrow> (string \<times> string) option \<Rightarrow>
     kyc_world \<times> kyc_reply" where
  "store_upload lib u w f env captured =
     (if ur_wallet u \<noteq> Some (ur_address u) then (w, Kyc_error 403 ''forbidden'')
      else case (f, env) of
        (Some f, Some env) \<Rightarrow>
          (let documentType = (if js_absent (ur_documentType u) then [] else kl_text lib (ur_documentType u))
           in if uf_mimetype f \<notin> set ALLOWED_KYC_MIME_TYPES then (w, Kyc_error 400 ''invalid_file_type'')
              else if documentType \<notin> set KYC_DOCUMENT_TYPES then (w, Kyc_error 400 ''invalid_document_type'')
              else if ur_storeFails u then (w, Kyc_error 500 ''upload_failed'')
              else (case storeEncryptedDocument w (ur_address u) documentType (uf_originalname f) (uf_mimetype f) env
                           (ur_uuid u) (ur_now u) of
                      (w1, r) \<Rightarrow> read_stored_document lib u w1 r (or_else (map_option fst captured) [])
                                   (or_else (map_option snd captured) (uf_mimetype f))))
      | _ \<Rightarrow> (w, Kyc_error 400 ''missing_file''))"

definition upload_route :: "kyc_library \<Rightarrow> kyc_config \<Rightarrow> kyc_world \<Rightarrow> kyc_upload \<Rightarrow> kyc_world \<times> kyc_reply" where
  "upload_route lib cfg w u =
     (if ur_wallet u = None then (w, Kyc_error 401 ''unauthorized'')
      else case ur_parsed u of
        Multer_error code message \<Rightarrow>
          (w, Kyc_error 400 (if code = ''LIMIT_FILE_SIZE'' then ''file_too_large'' else ''upload_failed''))
      | Parse_error message \<Rightarrow> (w, Kyc_error 500 ''upload_failed'')
      | Parsed f \<Rightarrow>
          (case scanKycUpload u w f of
             (w1, Some answer) \<Rightarrow> (w1, answer)
           | (w1, None) \<Rightarrow>
               (case encryptKycUpload lib cfg u f of
                  Inl e \<Rightarrow> (w1, Kyc_error 500 ''internal'')
                | Inr (f', env) \<Rightarrow> store_upload lib u w1 f' env (captureBufferForOcr f))))"

text \<open>
  A database that fails on the read (0), on the update without making it (1), or after making it (2).
\<close>

definition confirm_route :: "kyc_world \<Rightarrow> string option \<Rightarrow> string \<Rightarrow> js_value \<Rightarrow> nat option \<Rightarrow> kyc_world \<times> kyc_reply" where
  "confirm_route w wallet documentId body fault =
     (let confirmName = js_field body ''confirmName''; confirmIdNumber = js_field body ''confirmIdNumber'';
          confirmAddress = js_field body ''confirmAddress''
      in if wallet = None then (w, Kyc_error 401 ''unauthorized'')
         else if \<not> js_truthy confirmName \<and> \<not> js_truthy confirmIdNumber \<and> \<not> js_truthy confirmAddress
         then (w, Kyc_error 400 ''missing_field'')
         else if fault = Some 0 then (w, Kyc_error 500 ''internal'')
         else (case getOcrResult w documentId of
                 None \<Rightarrow> (w, Kyc_error 404 ''ocr_result_not_found'')
               | Some r \<Rightarrow>
                   if wallet \<noteq> Some (oc_applicantAddress r) then (w, Kyc_error 403 ''forbidden'')
                   else if fault = Some 1 then (w, Kyc_error 500 ''internal'')
                   else (case confirmOcrFields w documentId
                                \<lparr>cp_confirmName = (confirmName = JBool True), cp_confirmIdNumber = (confirmIdNumber = JBool True),
                                 cp_confirmAddress = (confirmAddress = JBool True)\<rparr> of
                           Inl e \<Rightarrow> (w, Kyc_error 500 ''internal'')
                         | Inr (w', updated) \<Rightarrow>
                             (w', if fault = Some 2 then Kyc_error 500 ''internal''
                                  else Kyc_confirmed updated (getUnconfirmedFields updated)))))"

definition submit_route :: "kyc_world \<Rightarrow> string option \<Rightarrow> string \<Rightarrow> kyc_reply" where
  "submit_route w wallet documentId =
     (if wallet = None then Kyc_error 401 ''unauthorized''
      else case getOcrResult w documentId of
        Some r \<Rightarrow>
          if oc_ocrFailed r then
            (case getEncryptedDocument w documentId of
               None \<Rightarrow> Kyc_error 404 ''document_not_found''
             | Some stored \<Rightarrow>
                 if wallet \<noteq> Some (kd_applicantAddress stored) then Kyc_error 403 ''forbidden'' else Kyc_submitted documentId)
          else if wallet \<noteq> Some (oc_applicantAddress r) then Kyc_error 403 ''forbidden''
          else if length (getUnconfirmedFields r) > 0 then Kyc_error 400 ''unconfirmed_ocr_fields''
          else Kyc_submitted documentId
      | None \<Rightarrow>
          (case getEncryptedDocument w documentId of
             None \<Rightarrow> Kyc_error 404 ''document_not_found''
           | Some stored \<Rightarrow>
               if wallet \<noteq> Some (kd_applicantAddress stored) then Kyc_error 403 ''forbidden'' else Kyc_submitted documentId))"

definition ocr_route :: "kyc_world \<Rightarrow> string option \<Rightarrow> string \<Rightarrow> kyc_reply" where
  "ocr_route w wallet documentId =
     (if wallet = None then Kyc_error 401 ''unauthorized''
      else case getOcrResult w documentId of
        None \<Rightarrow> Kyc_error 404 ''ocr_result_not_found''
      | Some r \<Rightarrow>
          if wallet \<noteq> Some (oc_applicantAddress r) then Kyc_error 403 ''forbidden''
          else Kyc_ocr r (getUnconfirmedFields r))"

text \<open>The header \<^verbatim>\<open>x-admin-api-key\<close> against the shared key.\<close>

definition requireOperatorKey :: "kyc_config \<Rightarrow> string option \<Rightarrow> bool" where
  "requireOperatorKey cfg key \<longleftrightarrow> truthy_text key \<noteq> None \<and> key = Some (kg_adminApiKey cfg)"

definition access_token_route ::
    "kyc_library \<Rightarrow> kyc_config \<Rightarrow> kyc_world \<Rightarrow> string option \<Rightarrow> js_value \<Rightarrow> int \<Rightarrow> kyc_reply" where
  "access_token_route lib cfg w key body now =
     (let documentId = js_field body ''documentId''; operatorId = js_field body ''operatorId''
      in if \<not> requireOperatorKey cfg key then Kyc_error 401 ''unauthorized''
         else if \<not> js_truthy documentId \<or> \<not> js_truthy operatorId then Kyc_error 400 ''missing_field''
         else (case getEncryptedDocument w (kl_text lib documentId) of
                 None \<Rightarrow> Kyc_error 404 ''document_not_found''
               | Some r \<Rightarrow>
                   (case issueKycAccessToken lib cfg (kl_text lib operatorId) (kl_text lib documentId) now of
                      (token, expiresIn) \<Rightarrow> Kyc_token token expiresIn)))"

definition decrypt_route ::
    "kyc_library \<Rightarrow> kyc_config \<Rightarrow> kyc_world \<Rightarrow> string option \<Rightarrow> string option \<Rightarrow> string \<Rightarrow> int \<Rightarrow> kyc_reply" where
  "decrypt_route lib cfg w key authHeader documentId now =
     (let token = (case authHeader of None \<Rightarrow> None | Some h \<Rightarrow> if js_starts_with h ''Bearer '' then Some (drop 7 h) else None)
      in if \<not> requireOperatorKey cfg key then Kyc_error 401 ''unauthorized''
         else (case truthy_text token of
                 None \<Rightarrow> Kyc_error 401 ''unauthorized''
               | Some token \<Rightarrow>
                   (case verifyKycAccessToken lib cfg token documentId now of
                      Inl e \<Rightarrow> Kyc_error 401 ''unauthorized''
                    | Inr claims \<Rightarrow>
                        (case getEncryptedDocument w documentId of
                           None \<Rightarrow> Kyc_error 404 ''document_not_found''
                         | Some r \<Rightarrow>
                             (case decryptBuffer (kl_aes lib) cfg (kd_envelope r) of
                                Inl e \<Rightarrow> Kyc_error 500 ''decrypt_failed''
                              | Inr plaintext \<Rightarrow> Kyc_plaintext (kd_mimeType r) (kd_originalName r) plaintext)))))"

definition review_status :: "forensics_review_error \<Rightarrow> int" where
  "review_status e = (if e = Not_found then 404 else if e = Invalid_outcome then 400 else 409)"

definition review_error_code :: "forensics_review_error \<Rightarrow> string" where
  "review_error_code e =
     (case e of Invalid_outcome \<Rightarrow> ''invalid_outcome'' | Not_found \<Rightarrow> ''not_found'' | Not_flagged \<Rightarrow> ''not_flagged''
      | Already_reviewed \<Rightarrow> ''already_reviewed'')"

definition review_route :: "kyc_world \<Rightarrow> review_input \<Rightarrow> int \<Rightarrow> kyc_world \<times> kyc_reply" where
  "review_route w i now =
     (case reviewFlaggedDocument w i now of
        (w', Some e) \<Rightarrow> (w', Kyc_error (review_status e) (review_error_code e))
      | (w', None) \<Rightarrow> (w', Kyc_reviewed))"

datatype kyc_event =
    Upload_document kyc_upload
  | Confirm_fields "string option" string js_value "nat option"
  | Submit_document "string option" string
  | Read_ocr_result "string option" string
  | Request_access_token "string option" js_value int
  | Decrypt_document "string option" "string option" string int
  | Review_flagged review_input int
  | Review_document string kyc_document_status "string option"

fun kyc_step :: "kyc_library \<Rightarrow> kyc_config \<Rightarrow> kyc_world \<Rightarrow> kyc_event \<Rightarrow> kyc_world \<times> kyc_reply" where
  "kyc_step lib cfg w (Upload_document u) = upload_route lib cfg w u"
| "kyc_step lib cfg w (Confirm_fields wallet d body fault) = confirm_route w wallet d body fault"
| "kyc_step lib cfg w (Submit_document wallet d) = (w, submit_route w wallet d)"
| "kyc_step lib cfg w (Read_ocr_result wallet d) = (w, ocr_route w wallet d)"
| "kyc_step lib cfg w (Request_access_token key body now) = (w, access_token_route lib cfg w key body now)"
| "kyc_step lib cfg w (Decrypt_document key header d now) = (w, decrypt_route lib cfg w key header d now)"
| "kyc_step lib cfg w (Review_flagged i now) = review_route w i now"
| "kyc_step lib cfg w (Review_document d status m) = (fst (updateDocumentReview w d status m), Kyc_reviewed)"

text \<open>The requests of a process, each under the configuration of its time, with what was answered.\<close>

definition kyc_record ::
    "kyc_library \<Rightarrow> kyc_world \<times> (kyc_event \<times> kyc_reply) list \<Rightarrow> kyc_config \<times> kyc_event \<Rightarrow> kyc_world \<times> (kyc_event \<times> kyc_reply) list" where
  "kyc_record lib s ce = (case s of (w, h) \<Rightarrow> case kyc_step lib (fst ce) w (snd ce) of (w', r) \<Rightarrow> (w', h @ [(snd ce, r)]))"

definition no_documents :: kyc_world where
  "no_documents = \<lparr>kw_documents = [], kw_ocr = [], kw_forensics = [], kw_quarantine = [], kw_flagAudit = []\<rparr>"

section \<open>What a submission rests on\<close>

datatype kyc_field = The_name | The_id_number | The_address

primrec confirm_key :: "kyc_field \<Rightarrow> string" where
  "confirm_key The_name = ''confirmName''"
| "confirm_key The_id_number = ''confirmIdNumber''"
| "confirm_key The_address = ''confirmAddress''"

primrec shown :: "ocr_view \<Rightarrow> kyc_field \<Rightarrow> string option" where
  "shown v The_name = ov_extractedName v"
| "shown v The_id_number = ov_extractedIdNumber v"
| "shown v The_address = ov_extractedAddress v"

primrec extracted :: "ocr_record \<Rightarrow> kyc_field \<Rightarrow> string option" where
  "extracted r The_name = oc_extractedName r"
| "extracted r The_id_number = oc_extractedIdNumber r"
| "extracted r The_address = oc_extractedAddress r"

primrec field_confirmed :: "ocr_record \<Rightarrow> kyc_field \<Rightarrow> bool" where
  "field_confirmed r The_name = oc_nameConfirmed r"
| "field_confirmed r The_id_number = oc_idNumberConfirmed r"
| "field_confirmed r The_address = oc_addressConfirmed r"

text \<open>A wallet's upload of a document for itself, found clean; and its confirmation of a field.\<close>

definition own_clean_upload :: "kyc_upload \<Rightarrow> string \<Rightarrow> string \<Rightarrow> bool" where
  "own_clean_upload u me d \<longleftrightarrow>
     ur_wallet u = Some me \<and> ur_address u = me \<and> ur_uuid u = d \<and> (\<exists>f. ur_parsed u = Parsed (Some f)) \<and>
     scanForMalware (ur_clamHost u) (ur_clamPort u) (ur_scan u) = Some (Inr Clean)"

definition uploaded_by :: "kyc_event set \<Rightarrow> string \<Rightarrow> string \<Rightarrow> bool" where
  "uploaded_by E me d \<longleftrightarrow> (\<exists>u. Upload_document u \<in> E \<and> own_clean_upload u me d)"

definition confirmed_by :: "kyc_event set \<Rightarrow> string \<Rightarrow> string \<Rightarrow> kyc_field \<Rightarrow> bool" where
  "confirmed_by E me d fld \<longleftrightarrow>
     (\<exists>body fault. Confirm_fields (Some me) d body fault \<in> E \<and> js_field body (confirm_key fld) = JBool True)"

definition kyc_ok :: "kyc_world \<times> (kyc_event \<times> kyc_reply) list \<Rightarrow> bool" where
  "kyc_ok s \<longleftrightarrow> (case s of (w, h) \<Rightarrow>
     (\<forall>d r. map_get (kw_documents w) d = Some r \<longrightarrow> uploaded_by (fst ` set h) (kd_applicantAddress r) d) \<and>
     (\<forall>d r. map_get (kw_ocr w) d = Some r \<longrightarrow> uploaded_by (fst ` set h) (oc_applicantAddress r) d \<and>
        (\<forall>fld. field_confirmed r fld \<longrightarrow> confirmed_by (fst ` set h) (oc_applicantAddress r) d fld)) \<and>
     (\<forall>u d v. (Upload_document u, Kyc_stored d v) \<in> set h \<longrightarrow> \<not> ov_ocrFailed v \<longrightarrow>
        (\<exists>r. map_get (kw_ocr w) d = Some r \<and> \<not> oc_ocrFailed r \<and> (\<forall>fld. extracted r fld = shown v fld))))"

lemma kyc_okD:
  assumes "kyc_ok (w, h)"
  shows "map_get (kw_documents w) d = Some x \<Longrightarrow> uploaded_by (fst ` set h) (kd_applicantAddress x) d"
    and "map_get (kw_ocr w) d = Some r \<Longrightarrow> uploaded_by (fst ` set h) (oc_applicantAddress r) d"
    and "map_get (kw_ocr w) d = Some r \<Longrightarrow> field_confirmed r fld \<Longrightarrow> confirmed_by (fst ` set h) (oc_applicantAddress r) d fld"
    and "(Upload_document u, Kyc_stored d v) \<in> set h \<Longrightarrow> \<not> ov_ocrFailed v \<Longrightarrow>
      \<exists>r. map_get (kw_ocr w) d = Some r \<and> \<not> oc_ocrFailed r \<and> (\<forall>fld. extracted r fld = shown v fld)"
  using assms by (simp_all add: kyc_ok_def)

lemma more_evidence:
  "uploaded_by E me d \<Longrightarrow> uploaded_by (insert e E) me d" "confirmed_by E me d fld \<Longrightarrow> confirmed_by (insert e E) me d fld"
  by (auto simp: uploaded_by_def confirmed_by_def)

lemma analysis_keeps [simp]:
  "kw_documents (analyzeAndRecordDocument w a d addr f now) = kw_documents w"
  "kw_ocr (analyzeAndRecordDocument w a d addr f now) = kw_ocr w"
  by (auto simp: analyzeAndRecordDocument_def Let_def split: option.splits)

lemma review_keeps [simp]:
  "kw_documents (write_review w i now) = kw_documents w" "kw_ocr (write_review w i now) = kw_ocr w"
  by (auto simp: write_review_def split: option.splits)

text \<open>What an upload does: nothing to documents and readings, or one document, with or without a reading.\<close>

definition fresh_reading :: "kyc_upload \<Rightarrow> ocr_record \<Rightarrow> bool" where
  "fresh_reading u r \<longleftrightarrow> oc_applicantAddress r = ur_address u \<and> (\<forall>fld. \<not> field_confirmed r fld)"

lemma all_fields: "(\<forall>fld. P fld) \<longleftrightarrow> P The_name \<and> P The_id_number \<and> P The_address"
  by (metis kyc_field.exhaust)

lemma stored_cases:
  assumes "read_stored_document lib u w r b m = (w', reply)"
  shows "kw_documents w' = kw_documents w"
    and "kw_ocr w' = kw_ocr w \<and> (\<forall>d v. reply = Kyc_stored d v \<longrightarrow> ov_ocrFailed v) \<or>
      (\<exists>ocr. map_get (kw_ocr w) (kd_documentId r) = None \<and> kw_ocr w' = map_set (kw_ocr w) (kd_documentId r) ocr \<and>
         fresh_reading u ocr \<and> reply = Kyc_stored (kd_documentId r) (ocr_response (Some ocr)))"
  using assms
  by (auto simp: read_stored_document_def createOcrResult_def Let_def ocr_response_def fresh_reading_def all_fields
      split: sum.splits if_splits)

definition same_papers :: "kyc_world \<Rightarrow> kyc_world \<Rightarrow> bool" where
  "same_papers w w' \<longleftrightarrow> kw_documents w' = kw_documents w \<and> kw_ocr w' = kw_ocr w"

definition no_receipt :: "kyc_reply \<Rightarrow> bool" where
  "no_receipt r \<longleftrightarrow> (\<forall>d v. r \<noteq> Kyc_stored d v)"

lemma no_receipt_simps [simp]: "no_receipt (Kyc_error n m)" "no_receipt Kyc_waiting"
  by (simp_all add: no_receipt_def)

lemma same_papers_refl [simp]: "same_papers w w"
  by (simp add: same_papers_def)

lemma scan_cases:
  assumes "scanKycUpload u w f = (w1, answer)"
  obtains (stopped) a where "answer = Some a" "same_papers w w1" "no_receipt a"
  | (no_file) "answer = None" "f = None" "w1 = w"
  | (scanned_clean) g where "answer = None" "f = Some g" "w1 = w"
      "scanForMalware (ur_clamHost u) (ur_clamPort u) (ur_scan u) = Some (Inr Clean)"
  using assms
  by (auto simp: scanKycUpload_def same_papers_def split: option.splits sum.splits malware_scan_result.splits)

lemma handler_cases:
  assumes "store_upload lib u w (Some f) (Some env) c = (w', reply)"
  obtains (refused) "w' = w" "no_receipt reply"
  | (goes_on) r b m where "kd_documentId r = ur_uuid u" "kd_applicantAddress r = ur_address u" "ur_wallet u = Some (ur_address u)"
      "read_stored_document lib u (w\<lparr>kw_documents := map_set (kw_documents w) (ur_uuid u) r\<rparr>) r b m = (w', reply)"
      "kd_mimeType r = uf_mimetype f" "kd_originalName r = uf_originalname f" "kd_envelope r = env"
proof (cases "ur_wallet u \<noteq> Some (ur_address u) \<or> uf_mimetype f \<notin> set ALLOWED_KYC_MIME_TYPES \<or>
    (if js_absent (ur_documentType u) then [] else kl_text lib (ur_documentType u)) \<notin> set KYC_DOCUMENT_TYPES \<or> ur_storeFails u")
  case True
  then show ?thesis using assms by (intro refused) (auto simp: store_upload_def Let_def split: if_splits)
next
  case False
  then show ?thesis
    using assms by (intro goes_on) (auto simp: store_upload_def storeEncryptedDocument_def Let_def)
qed

lemma route_cases:
  assumes "upload_route lib cfg w u = (w', reply)"
  obtains (stopped) "same_papers w w'" "no_receipt reply"
  | (handled) f env c where "ur_parsed u = Parsed (Some f)"
      "scanForMalware (ur_clamHost u) (ur_clamPort u) (ur_scan u) = Some (Inr Clean)"
      "encryptBuffer (kl_aes lib) cfg (ur_random u) (uf_buffer f) = Inr env"
      "store_upload lib u w (Some (f\<lparr>uf_buffer := []\<rparr>)) (Some env) c = (w', reply)"
proof (cases "\<exists>g. ur_wallet u \<noteq> None \<and> ur_parsed u = Parsed g")
  case False
  then show ?thesis
    using assms by (intro stopped) (auto simp: upload_route_def split: if_splits parsed_upload.splits)
next
  case True
  then obtain g where g: "ur_wallet u \<noteq> None" "ur_parsed u = Parsed g" by auto
  obtain w1 answer where scan: "scanKycUpload u w g = (w1, answer)" by fastforce
  show ?thesis
  proof (rule scan_cases [OF scan])
    fix a
    assume "answer = Some a" "same_papers w w1" "no_receipt a"
    then show ?thesis using assms g scan by (intro stopped) (auto simp: upload_route_def)
  next
    assume "answer = None" "g = None" "w1 = w"
    then show ?thesis
      using assms g scan by (intro stopped) (auto simp: upload_route_def encryptKycUpload_def store_upload_def split: if_splits)
  next
    fix f
    assume f: "answer = None" "g = Some f" "w1 = w"
      and clean: "scanForMalware (ur_clamHost u) (ur_clamPort u) (ur_scan u) = Some (Inr Clean)"
    show ?thesis
    proof (cases "encryptBuffer (kl_aes lib) cfg (ur_random u) (uf_buffer f)")
      case (Inl e)
      then show ?thesis using assms g scan f by (intro stopped) (auto simp: upload_route_def encryptKycUpload_def)
    next
      case (Inr env)
      then show ?thesis
        using assms g scan f clean by (intro handled) (auto simp: upload_route_def encryptKycUpload_def)
    qed
  qed
qed

lemma upload_cases:
  assumes "upload_route lib cfg w u = (w', reply)"
  obtains (nothing) "same_papers w w'" "no_receipt reply"
  | (only_document) doc where "own_clean_upload u (ur_address u) (ur_uuid u)" "kd_applicantAddress doc = ur_address u"
      "kw_documents w' = map_set (kw_documents w) (ur_uuid u) doc" "kw_ocr w' = kw_ocr w"
      "\<forall>d v. reply = Kyc_stored d v \<longrightarrow> ov_ocrFailed v"
  | (with_reading) doc ocr where "own_clean_upload u (ur_address u) (ur_uuid u)" "kd_applicantAddress doc = ur_address u"
      "kw_documents w' = map_set (kw_documents w) (ur_uuid u) doc"
      "map_get (kw_ocr w) (ur_uuid u) = None" "kw_ocr w' = map_set (kw_ocr w) (ur_uuid u) ocr" "fresh_reading u ocr"
      "reply = Kyc_stored (ur_uuid u) (ocr_response (Some ocr))"
proof (rule route_cases [OF assms])
  assume "same_papers w w'" "no_receipt reply"
  then show thesis by (rule nothing)
next
  fix f env c
  assume f: "ur_parsed u = Parsed (Some f)" and scan: "scanForMalware (ur_clamHost u) (ur_clamPort u) (ur_scan u) = Some (Inr Clean)"
    and "store_upload lib u w (Some (f\<lparr>uf_buffer := []\<rparr>)) (Some env) c = (w', reply)"
  from this(3) show thesis
  proof (rule handler_cases)
    assume a: "w' = w" "no_receipt reply"
    show thesis by (rule nothing) (use a in simp_all)
  next
    fix r b m
    assume r: "kd_documentId r = ur_uuid u" "kd_applicantAddress r = ur_address u" "ur_wallet u = Some (ur_address u)"
      "read_stored_document lib u (w\<lparr>kw_documents := map_set (kw_documents w) (ur_uuid u) r\<rparr>) r b m = (w', reply)"
    have own: "own_clean_upload u (ur_address u) (ur_uuid u)" using f scan r(3) by (auto simp: own_clean_upload_def)
    show thesis using stored_cases [OF r(4)] r(1,2) own only_document [of r] with_reading [of r] by auto
  qed
qed

lemma confirm_cases:
  assumes "confirm_route w wallet d body fault = (w', reply)"
  shows "kw_documents w' = kw_documents w \<and> (kw_ocr w' = kw_ocr w \<or>
    (\<exists>r. map_get (kw_ocr w) d = Some r \<and> wallet = Some (oc_applicantAddress r) \<and>
       kw_ocr w' = map_set (kw_ocr w) d (confirm_record \<lparr>cp_confirmName = (js_field body ''confirmName'' = JBool True),
          cp_confirmIdNumber = (js_field body ''confirmIdNumber'' = JBool True),
          cp_confirmAddress = (js_field body ''confirmAddress'' = JBool True)\<rparr> r)))"
    and "reply \<noteq> Kyc_stored x v"
  using assms
  by (auto simp: confirm_route_def getOcrResult_def confirmOcrFields_def Let_def split: if_splits option.splits)

lemma confirm_record_simps [simp]:
  "oc_applicantAddress (confirm_record p r) = oc_applicantAddress r" "oc_ocrFailed (confirm_record p r) = oc_ocrFailed r"
  "extracted (confirm_record p r) fld = extracted r fld"
  by (cases fld; auto simp: confirm_record_def Let_def)+

lemma confirmed_by_patch:
  "field_confirmed (confirm_record \<lparr>cp_confirmName = (js_field body ''confirmName'' = JBool True),
      cp_confirmIdNumber = (js_field body ''confirmIdNumber'' = JBool True),
      cp_confirmAddress = (js_field body ''confirmAddress'' = JBool True)\<rparr> r) fld \<longleftrightarrow>
   js_field body (confirm_key fld) = JBool True \<or> field_confirmed r fld"
  by (cases fld) (auto simp: confirm_record_def Let_def)

lemma uploaded_here: "own_clean_upload u me d \<Longrightarrow> uploaded_by (insert (Upload_document u) E) me d"
  by (auto simp: uploaded_by_def)

lemma confirmed_here:
  "js_field body (confirm_key fld) = JBool True \<Longrightarrow> confirmed_by (insert (Confirm_fields (Some me) d body f) E) me d fld"
  by (auto simp: confirmed_by_def)

lemma shown_response [simp]: "shown (ocr_response (Some r)) fld = extracted r fld" "ov_ocrFailed (ocr_response (Some r)) = oc_ocrFailed r"
  by (cases fld; simp add: ocr_response_def)+

text \<open>A step that keeps the papers and gives no receipt keeps the invariant.\<close>

lemma kyc_ok_idle:
  assumes "kyc_ok (w, h)" "same_papers w w'" "no_receipt r"
  shows "kyc_ok (w', h @ [(e, r)])"
  using assms by (auto simp: kyc_ok_def same_papers_def no_receipt_def intro: more_evidence)

lemma kyc_ok_upload:
  assumes ok: "kyc_ok (w, h)" and step: "upload_route lib cfg w u = (w', r)"
  shows "kyc_ok (w', h @ [(Upload_document u, r)])"
  using step
proof (rule upload_cases)
  assume "same_papers w w'" "no_receipt r"
  then show ?thesis by (rule kyc_ok_idle [OF ok])
next
  fix doc
  assume "own_clean_upload u (ur_address u) (ur_uuid u)" "kd_applicantAddress doc = ur_address u"
    "kw_documents w' = map_set (kw_documents w) (ur_uuid u) doc" "kw_ocr w' = kw_ocr w"
    "\<forall>d v. r = Kyc_stored d v \<longrightarrow> ov_ocrFailed v"
  then show ?thesis
    using ok by (auto simp: kyc_ok_def split: if_splits intro: more_evidence uploaded_here)
next
  fix doc ocr
  assume a: "own_clean_upload u (ur_address u) (ur_uuid u)" "kd_applicantAddress doc = ur_address u"
    "kw_documents w' = map_set (kw_documents w) (ur_uuid u) doc"
    "map_get (kw_ocr w) (ur_uuid u) = None" "kw_ocr w' = map_set (kw_ocr w) (ur_uuid u) ocr" "fresh_reading u ocr"
    "r = Kyc_stored (ur_uuid u) (ocr_response (Some ocr))"
  have "\<exists>x. map_get (kw_ocr w') d = Some x \<and> \<not> oc_ocrFailed x \<and> (\<forall>fld. extracted x fld = shown v fld)"
    if seen: "(Upload_document u', Kyc_stored d v) \<in> set h" "\<not> ov_ocrFailed v" for u' d v
  proof -
    obtain x where x: "map_get (kw_ocr w) d = Some x" "\<not> oc_ocrFailed x" "\<forall>fld. extracted x fld = shown v fld"
      using kyc_okD(4) [OF ok seen] by blast
    then have "d \<noteq> ur_uuid u" using a(4) by auto
    then show ?thesis using x a(5) by simp
  qed
  then show ?thesis
    using ok a by (auto simp: kyc_ok_def fresh_reading_def split: if_splits intro: more_evidence uploaded_here)
qed

lemma kyc_ok_confirm:
  assumes ok: "kyc_ok (w, h)" and step: "confirm_route w wallet d body fault = (w', r)"
  shows "kyc_ok (w', h @ [(Confirm_fields wallet d body fault, r)])"
proof -
  let ?p = "\<lparr>cp_confirmName = (js_field body ''confirmName'' = JBool True),
      cp_confirmIdNumber = (js_field body ''confirmIdNumber'' = JBool True),
      cp_confirmAddress = (js_field body ''confirmAddress'' = JBool True)\<rparr>"
  have r: "no_receipt r" using confirm_cases(2) [OF step] by (auto simp: no_receipt_def)
  consider "same_papers w w'" | x where "kw_documents w' = kw_documents w" "map_get (kw_ocr w) d = Some x"
    "wallet = Some (oc_applicantAddress x)" "kw_ocr w' = map_set (kw_ocr w) d (confirm_record ?p x)"
    using confirm_cases(1) [OF step] by (auto simp: same_papers_def)
  then show ?thesis
  proof cases
    case 1
    then show ?thesis using ok r by (blast intro: kyc_ok_idle)
  next
    case 2
    let ?E = "insert (Confirm_fields wallet d body fault) (fst ` set h)"
    have old: "\<forall>fld. field_confirmed x fld \<longrightarrow> confirmed_by (fst ` set h) (oc_applicantAddress x) d fld"
      "uploaded_by (fst ` set h) (oc_applicantAddress x) d"
      using kyc_okD(2,3) [OF ok 2(2)] by auto
    have new: "confirmed_by ?E (oc_applicantAddress x) d fld" if "field_confirmed (confirm_record ?p x) fld" for fld
      using that old(1) unfolding confirmed_by_patch 2(3) by (blast intro: more_evidence(2) confirmed_here)
    have kept: "\<exists>y. map_get (kw_ocr w') d' = Some y \<and> \<not> oc_ocrFailed y \<and> (\<forall>fld. extracted y fld = shown v fld)"
      if seen: "(Upload_document u, Kyc_stored d' v) \<in> set h" "\<not> ov_ocrFailed v" for u d' v
    proof -
      obtain y where "map_get (kw_ocr w) d' = Some y" "\<not> oc_ocrFailed y" "\<forall>fld. extracted y fld = shown v fld"
        using kyc_okD(4) [OF ok seen] by blast
      then show ?thesis using 2(2,4) by (cases "d' = d") auto
    qed
    show ?thesis
      using ok 2 r old new kept
      by (auto simp: kyc_ok_def no_receipt_def split: if_splits intro: more_evidence)
  qed
qed

lemma kyc_ok_step:
  assumes "kyc_ok s"
  shows "kyc_ok (kyc_record lib s ce)"
proof -
  obtain w h cfg e where s: "s = (w, h)" "ce = (cfg, e)" by (cases s; cases ce) auto
  obtain w' r where step: "kyc_step lib cfg w e = (w', r)" by fastforce
  have "kyc_ok (w', h @ [(e, r)])"
  proof (cases e)
    case (Upload_document u)
    then show ?thesis using assms step s(1) kyc_ok_upload by simp
  next
    case (Confirm_fields wallet d body fault)
    then show ?thesis using assms step s(1) kyc_ok_confirm by simp
  next
    case (Review_document d st m)
    then have r: "r = Kyc_reviewed" and w': "w' = fst (updateDocumentReview w d st m)" using step by auto
    have "kw_ocr w' = kw_ocr w \<and> (kw_documents w' = kw_documents w \<or>
        (\<exists>x y. map_get (kw_documents w) d = Some x \<and> kd_applicantAddress y = kd_applicantAddress x \<and>
           kw_documents w' = map_set (kw_documents w) d y))"
    proof (cases "map_get (kw_documents w) d")
      case None
      then show ?thesis by (simp add: w' updateDocumentReview_def getEncryptedDocument_def)
    next
      case (Some x)
      then have "kd_applicantAddress (x\<lparr>kd_status := st, kd_reviewMessage := truthy_text m\<rparr>) = kd_applicantAddress x \<and>
          kw_documents w' = map_set (kw_documents w) d (x\<lparr>kd_status := st, kd_reviewMessage := truthy_text m\<rparr>) \<and>
          kw_ocr w' = kw_ocr w"
        by (simp add: w' updateDocumentReview_def getEncryptedDocument_def Let_def)
      then show ?thesis using Some by blast
    qed
    note this r
    then show ?thesis
      using assms unfolding s by (auto simp: kyc_ok_def split: if_splits intro: more_evidence)
  next
    case (Review_flagged i now)
    then show ?thesis using assms step s(1)
      by (intro kyc_ok_idle [of w])
        (auto simp: review_route_def reviewFlaggedDocument_def same_papers_def no_receipt_def split: option.splits)
  next
    case (Submit_document wallet d)
    then show ?thesis using assms step s(1)
      by (intro kyc_ok_idle [of w]) (auto simp: submit_route_def no_receipt_def split: option.splits if_splits)
  next
    case (Read_ocr_result wallet d)
    then show ?thesis using assms step s(1)
      by (intro kyc_ok_idle [of w]) (auto simp: ocr_route_def no_receipt_def split: option.splits if_splits)
  next
    case (Request_access_token key body now)
    then show ?thesis using assms step s(1)
      by (intro kyc_ok_idle [of w]) (auto simp: access_token_route_def Let_def no_receipt_def split: option.splits if_splits prod.splits)
  next
    case (Decrypt_document key header d now)
    then show ?thesis using assms step s(1)
      by (intro kyc_ok_idle [of w])
        (auto simp: decrypt_route_def Let_def no_receipt_def split: option.splits if_splits sum.splits)
  qed
  then show ?thesis using step by (simp add: kyc_record_def s)
qed

interpretation kyc: machine "(no_documents, [])" "kyc_record lib" kyc_ok "\<lambda>_. True" for lib
  by unfold_locales (simp add: kyc_ok_def no_documents_def, rule kyc_ok_step)

lemma submit_accepted:
  assumes "submit_route w wallet d = Kyc_submitted d'"
  shows "d' = d" "case getOcrResult w d of
     Some r \<Rightarrow> if oc_ocrFailed r then \<exists>x. map_get (kw_documents w) d = Some x \<and> wallet = Some (kd_applicantAddress x)
               else wallet = Some (oc_applicantAddress r) \<and> getUnconfirmedFields r = []
   | None \<Rightarrow> \<exists>x. map_get (kw_documents w) d = Some x \<and> wallet = Some (kd_applicantAddress x)"
  using assms by (auto simp: submit_route_def getEncryptedDocument_def split: option.splits if_splits)

lemma no_unconfirmed_fields: "getUnconfirmedFields r = [] \<Longrightarrow> extracted r fld \<noteq> None \<Longrightarrow> field_confirmed r fld"
  by (cases fld) (auto simp: getUnconfirmedFields_def split: if_splits)


section \<open>What an operator reads\<close>

text \<open>
  The packages: what was enciphered under a key and an initial vector is deciphered under them, with a tag of sixteen
  bytes; a token is not empty, and what was signed until a time is verified before it, under the same secret.
\<close>

definition kyc_laws :: "kyc_library \<Rightarrow> bool" where
  "kyc_laws lib \<longleftrightarrow>
     (\<forall>k iv m tag c. ae_encrypt (kl_aes lib) k iv m = (tag, c) \<longrightarrow>
        length tag = AUTH_TAG_LENGTH \<and> ae_decrypt (kl_aes lib) k iv tag c = Some m) \<and>
     (\<forall>c s e now. kl_sign lib c s e \<noteq> [] \<and> (now < e \<longrightarrow> kl_verify lib (kl_sign lib c s e) s now = Inr c))"

definition right_sizes :: "random_bytes \<Rightarrow> bool" where
  "right_sizes r \<longleftrightarrow> length (rb_dataKey r) = DATA_KEY_LENGTH \<and> length (rb_iv r) = IV_LENGTH \<and> length (rb_keyIv r) = IV_LENGTH"

lemma aes_round_trip:
  assumes "kyc_laws lib" "length iv = IV_LENGTH"
  shows "aesGcmDecrypt (kl_aes lib) k (aesGcmEncrypt (kl_aes lib) k iv m) = Inr m"
proof -
  obtain tag c where e: "ae_encrypt (kl_aes lib) k iv m = (tag, c)" by fastforce
  then have "length tag = AUTH_TAG_LENGTH" "ae_decrypt (kl_aes lib) k iv tag c = Some m"
    using assms(1) unfolding kyc_laws_def by blast+
  then show ?thesis using assms(2) by (simp add: aesGcmDecrypt_def aesGcmEncrypt_def e)
qed

text \<open>The key of the version recorded on the envelope, not the active one, is what it takes.\<close>

lemma envelope_opens:
  assumes "kyc_laws lib" "right_sizes rnd" "encryptBuffer (kl_aes lib) cfg rnd m = Inr env"
    and "map_get (kg_kmsKeyVersions cfg') (ev_keyVersion env) = map_get (kg_kmsKeyVersions cfg) (ev_keyVersion env)"
  shows "decryptBuffer (kl_aes lib) cfg' env = Inr m"
proof -
  obtain kek where kek: "getKeyEncryptionKey cfg (kg_kmsActiveKeyVersion cfg) = Inr kek"
    and env: "env = \<lparr>ev_ciphertext = b64_encode (aesGcmEncrypt (kl_aes lib) (rb_dataKey rnd) (rb_iv rnd) m),
        ev_wrappedDataKey = b64_encode (aesGcmEncrypt (kl_aes lib) kek (rb_keyIv rnd) (rb_dataKey rnd)),
        ev_keyVersion = kg_kmsActiveKeyVersion cfg\<rparr>"
    using assms(3) by (auto simp: encryptBuffer_def Let_def split: sum.splits)
  have "getKeyEncryptionKey cfg' (kg_kmsActiveKeyVersion cfg) = Inr kek"
    using kek assms(4) env by (simp add: getKeyEncryptionKey_def)
  then show ?thesis
    using assms(2) by (simp add: decryptBuffer_def env b64_round_trip aes_round_trip [OF assms(1)] right_sizes_def)
qed

text \<open>A document that was stored keeps its envelope and what else is told of it, until its identifier is used again.\<close>

definition holds_file :: "kyc_world \<Rightarrow> string \<Rightarrow> string \<Rightarrow> string \<Rightarrow> envelope \<Rightarrow> bool" where
  "holds_file w d mime name env \<longleftrightarrow>
     (\<exists>r. map_get (kw_documents w) d = Some r \<and> kd_mimeType r = mime \<and> kd_originalName r = name \<and> kd_envelope r = env)"

definition reuses :: "string \<Rightarrow> kyc_event \<Rightarrow> bool" where
  "reuses d e \<longleftrightarrow> (case e of Upload_document u \<Rightarrow> ur_uuid u = d | _ \<Rightarrow> False)"

lemma holds_file_same: "kw_documents w' = kw_documents w \<Longrightarrow> holds_file w d mime name env \<Longrightarrow> holds_file w' d mime name env"
  by (simp add: holds_file_def)

lemma updated_review_keeps_file:
  assumes "holds_file w d mime name env"
  shows "holds_file (fst (updateDocumentReview w d' st m)) d mime name env"
proof (cases "map_get (kw_documents w) d'")
  case None
  then show ?thesis using assms by (simp add: updateDocumentReview_def getEncryptedDocument_def)
next
  case (Some r)
  then show ?thesis using assms by (auto simp: holds_file_def updateDocumentReview_def getEncryptedDocument_def Let_def)
qed

lemma review_route_keeps: "kw_documents (fst (review_route w i now)) = kw_documents w"
  by (cases "check_review w i") (simp_all add: review_route_def reviewFlaggedDocument_def)

lemma file_stays:
  assumes "holds_file w d mime name env" "\<not> reuses d e"
  shows "holds_file (fst (kyc_step lib cfg w e)) d mime name env"
proof (cases e)
  case (Upload_document u)
  obtain w' r where step: "upload_route lib cfg w u = (w', r)" by fastforce
  have other: "ur_uuid u \<noteq> d" using assms(2) Upload_document by (simp add: reuses_def)
  have "map_get (kw_documents w') d = map_get (kw_documents w) d"
    by (rule upload_cases [OF step]) (use other in \<open>simp_all add: same_papers_def\<close>)
  then show ?thesis using assms(1) step Upload_document by (simp add: holds_file_def)
next
  case (Confirm_fields wallet d' body fault)
  obtain w' r where step: "confirm_route w wallet d' body fault = (w', r)" by fastforce
  have "kw_documents w' = kw_documents w" using confirm_cases(1) [OF step] by blast
  then show ?thesis using assms(1) step Confirm_fields by (simp add: holds_file_same)
next
  case (Review_document d' st m)
  then show ?thesis using assms(1) by (simp add: updated_review_keeps_file)
next
  case (Review_flagged i now)
  then show ?thesis using assms(1) by (simp add: holds_file_same [OF review_route_keeps])
qed (use assms(1) in simp_all)

abbreviation kyc_after :: "kyc_library \<Rightarrow> kyc_world \<Rightarrow> (kyc_config \<times> kyc_event) list \<Rightarrow> kyc_world" where
  "kyc_after lib \<equiv> foldl (\<lambda>w ce. fst (kyc_step lib (fst ce) w (snd ce)))"

lemma file_stays_through:
  assumes "holds_file w d mime name env" "list_all (\<lambda>ce. \<not> reuses d (snd ce)) ces"
  shows "holds_file (kyc_after lib w ces) d mime name env"
  using assms by (induction ces arbitrary: w) (simp_all add: file_stays)

lemma stored_as_encrypted:
  assumes "upload_route lib cfg w u = (w', Kyc_stored d v)"
  shows "\<exists>f env. ur_parsed u = Parsed (Some f) \<and> encryptBuffer (kl_aes lib) cfg (ur_random u) (uf_buffer f) = Inr env \<and>
    holds_file w' d (uf_mimetype f) (uf_originalname f) env"
  using assms
proof (rule route_cases)
  assume "same_papers w w'" "no_receipt (Kyc_stored d v)"
  then show ?thesis by (simp add: no_receipt_def)
next
  fix f env c
  assume f: "ur_parsed u = Parsed (Some f)" "encryptBuffer (kl_aes lib) cfg (ur_random u) (uf_buffer f) = Inr env"
    and h: "store_upload lib u w (Some (f\<lparr>uf_buffer := []\<rparr>)) (Some env) c = (w', Kyc_stored d v)"
  obtain r b m where r: "kd_documentId r = ur_uuid u" "kd_mimeType r = uf_mimetype f" "kd_originalName r = uf_originalname f"
      "kd_envelope r = env"
    and s: "read_stored_document lib u (w\<lparr>kw_documents := map_set (kw_documents w) (ur_uuid u) r\<rparr>) r b m = (w', Kyc_stored d v)"
    by (rule handler_cases [OF h]) (simp_all add: no_receipt_def)
  have "d = ur_uuid u" using s r(1) by (auto simp: read_stored_document_def Let_def split: sum.splits if_splits)
  then have "holds_file w' d (uf_mimetype f) (uf_originalname f) env"
    using stored_cases(1) [OF s] r by (auto simp: holds_file_def)
  then show ?thesis using f by blast
qed

text \<open>
  C29. The bytes that were uploaded are what an operator reads: after a document was stored, after any further requests that
  do not use its identifier again, under any configurations, an operator who shows the shared key gets a token for it, and
  with this token, after further requests of this kind, as long as it has not expired and the operators' secret is the
  same, the shared key of the time opens the document, even if another key encryption key has become active since,
  so long as the one it was wrapped under is still configured.
\<close>

theorem operator_reads_what_was_uploaded:
  assumes laws: "kyc_laws lib" "right_sizes (ur_random u)"
    and upload: "kyc_step lib cfg w (Upload_document u) = (w1, Kyc_stored d v)"
    and between: "list_all (\<lambda>ce. \<not> reuses d (snd ce)) ces" "list_all (\<lambda>ce. \<not> reuses d (snd ce)) ces'"
    and asked: "kyc_step lib cfg1 (kyc_after lib w1 ces) (Request_access_token key body t1) = (w2, Kyc_token token ttl)"
      "kl_text lib (js_field body ''documentId'') = d"
    and later: "t2 < t1 + ttl" "kg_kycOperatorSecret cfg2 = kg_kycOperatorSecret cfg1" "kg_adminApiKey cfg2 \<noteq> []"
      "map_get (kg_kmsKeyVersions cfg2) (kg_kmsActiveKeyVersion cfg) = map_get (kg_kmsKeyVersions cfg) (kg_kmsActiveKeyVersion cfg)"
  shows "\<exists>f. ur_parsed u = Parsed (Some f) \<and>
    kyc_step lib cfg2 (kyc_after lib w2 ces') (Decrypt_document (Some (kg_adminApiKey cfg2)) (Some (''Bearer '' @ token)) d t2) =
      (kyc_after lib w2 ces', Kyc_plaintext (uf_mimetype f) (uf_originalname f) (uf_buffer f))"
proof -
  obtain f env where f: "ur_parsed u = Parsed (Some f)"
      "encryptBuffer (kl_aes lib) cfg (ur_random u) (uf_buffer f) = Inr env"
    and held: "holds_file w1 d (uf_mimetype f) (uf_originalname f) env"
    using stored_as_encrypted upload by fastforce
  have version: "ev_keyVersion env = kg_kmsActiveKeyVersion cfg"
    using f(2) by (auto simp: encryptBuffer_def Let_def split: sum.splits)
  have opens: "decryptBuffer (kl_aes lib) cfg2 env = Inr (uf_buffer f)"
    by (rule envelope_opens [OF laws f(2)]) (simp add: version later(4))
  have w2: "w2 = kyc_after lib w1 ces" and ttl: "ttl = kg_kycAccessTokenTtlSeconds cfg1"
    and token: "token = kl_sign lib \<lparr>kc_operatorId = kl_text lib (js_field body ''operatorId''), kc_documentId = d, kc_scope = SCOPE\<rparr>
        (kg_kycOperatorSecret cfg1) (t1 + ttl)"
    using asked by (auto simp: access_token_route_def issueKycAccessToken_def Let_def split: if_splits option.splits)
  have admitted: "verifyKycAccessToken lib cfg2 token d t2 =
      Inr \<lparr>kc_operatorId = kl_text lib (js_field body ''operatorId''), kc_documentId = d, kc_scope = SCOPE\<rparr>" "token \<noteq> []"
    using laws(1) later(1,2) unfolding token kyc_laws_def by (simp_all add: verifyKycAccessToken_def)
  obtain r where r: "map_get (kw_documents (kyc_after lib w2 ces')) d = Some r" "kd_mimeType r = uf_mimetype f"
      "kd_originalName r = uf_originalname f" "kd_envelope r = env"
    using file_stays_through [OF file_stays_through [OF held between(1)] between(2)] w2 unfolding holds_file_def by blast
  have "decrypt_route lib cfg2 (kyc_after lib w2 ces') (Some (kg_adminApiKey cfg2)) (Some (''Bearer '' @ token)) d t2 =
      Kyc_plaintext (uf_mimetype f) (uf_originalname f) (uf_buffer f)"
    using admitted later(3) r opens
    by (simp add: decrypt_route_def requireOperatorKey_def truthy_text_def getEncryptedDocument_def js_starts_with_append)
  then show ?thesis using f(1) by simp
qed

section \<open>Examples\<close>

text \<open>
  A cipher that leaves the text as it is under a fixed tag, a token library that writes its arguments one after the
  other, a machine that reads one name, and an analysis that flags all.
\<close>

definition spell_token :: "kyc_claims \<Rightarrow> string \<Rightarrow> int \<Rightarrow> string" where
  "spell_token c s e =
     put_text s @ put_text (kc_operatorId c) @ put_text (kc_documentId c) @ put_text (kc_scope c) @
     put_text (replicate (nat e) CHR ''x'') @ put_text (replicate (nat (- e)) CHR ''x'') @ ''z''"

definition read_token :: "string \<Rightarrow> string \<Rightarrow> int \<Rightarrow> js_error + kyc_claims" where
  "read_token token s now =
     (case get_text token of (s', t1) \<Rightarrow> case get_text t1 of (op, t2) \<Rightarrow> case get_text t2 of (d, t3) \<Rightarrow>
      case get_text t3 of (sc, t4) \<Rightarrow> case get_text t4 of (up, t5) \<Rightarrow> case get_text t5 of (down, t6) \<Rightarrow>
        if s' = s \<and> now < int (length up) - int (length down)
        then Inr \<lparr>kc_operatorId = op, kc_documentId = d, kc_scope = sc\<rparr> else Inl (ErrorMsg ''invalid token''))"

definition kyc_library0 :: kyc_library where
  "kyc_library0 =
     \<lparr>kl_aes = \<lparr>ae_encrypt = (\<lambda>k iv m. (replicate 16 CHR ''t'', m)),
                ae_decrypt = (\<lambda>k iv tag c. if tag = replicate 16 CHR ''t'' then Some c else None)\<rparr>,
      kl_sign = spell_token, kl_verify = read_token,
      kl_extract = (\<lambda>b m. Inr \<lparr>os_name = Some ''Ada'', os_idNumber = None, os_address = None, os_success = True, os_error = None\<rparr>),
      kl_analyze = (\<lambda>b m. Some (''pdf'', True, [''EDITOR''])),
      kl_text = (\<lambda>v. case v of JStr s \<Rightarrow> s | _ \<Rightarrow> ''?'')\<rparr>"

lemma kyc_library0_laws: "kyc_laws kyc_library0"
  by (auto simp: kyc_laws_def kyc_library0_def AUTH_TAG_LENGTH_def spell_token_def read_token_def get_put_text
      simp del: put_text.simps)

definition kyc_config0 :: kyc_config where
  "kyc_config0 =
     \<lparr>kg_adminApiKey = ''op'', kg_kmsKeyVersions = [(''v1'', replicate 64 CHR ''0'')], kg_kmsActiveKeyVersion = ''v1'',
      kg_kycOperatorSecret = ''s'', kg_kycAccessTokenTtlSeconds = 300\<rparr>"

text \<open>After a rotation.\<close>

definition kyc_config1 :: kyc_config where
  "kyc_config1 = kyc_config0\<lparr>kg_kmsKeyVersions := [(''v1'', replicate 64 CHR ''0''), (''v2'', replicate 64 CHR ''1'')],
     kg_kmsActiveKeyVersion := ''v2''\<rparr>"

definition random0 :: random_bytes where
  "random0 = \<lparr>rb_dataKey = replicate 32 CHR ''k'', rb_iv = replicate 16 CHR ''i'', rb_keyIv = replicate 16 CHR ''j''\<rparr>"

definition upload0 :: kyc_upload where
  "upload0 =
     \<lparr>ur_wallet = Some ''GA'', ur_address = ''GA'',
      ur_parsed = Parsed (Some \<lparr>uf_buffer = ''scan'', uf_originalname = ''a.pdf'', uf_mimetype = ''application/pdf''\<rparr>),
      ur_documentType = JStr ''identity'', ur_clamHost = Some ''clam'', ur_clamPort = Some ''9'',
      ur_scan = [Socket_data ''stream: OK'', Socket_data [CHR 0x00]], ur_quarantine = None, ur_random = random0, ur_uuid = ''d'',
      ur_now = 0, ur_storeFails = False, ur_forensicsFault = None, ur_ocrFails = False\<rparr>"

lemma key_of_zeros: "getKeyEncryptionKey kyc_config0 ''v1'' = Inr (replicate 32 (CHR 0x00))"
  by code_simp

lemma port0: "js_number ''9'' = Some 9"
  by (simp add: js_number_def unsigned_decimal_def decimal_exponent_def dec_digit_def js_trim_def js_space_def digit_value_def)

lemma follow0: "follow_scan [] [Socket_data ''stream: OK'', Socket_data [CHR 0x00]] = Some (Inr Clean)"
  by code_simp

lemma scan0: "scanForMalware (Some ''clam'') (Some ''9'') [Socket_data ''stream: OK'', Socket_data [CHR 0x00]] = Some (Inr Clean)"
  unfolding scanForMalware_def follow0 by (simp add: truthy_text_def port0)

definition view0 :: ocr_view where
  "view0 = \<lparr>ov_extractedName = Some ''Ada'', ov_extractedIdNumber = None, ov_extractedAddress = None, ov_ocrFailed = False\<rparr>"

definition reading0 :: ocr_record where
  "reading0 =
     \<lparr>oc_documentId = ''d'', oc_applicantAddress = ''GA'', oc_extractedName = Some ''Ada'', oc_nameConfirmed = False,
      oc_extractedIdNumber = None, oc_idNumberConfirmed = False, oc_extractedAddress = None, oc_addressConfirmed = False,
      oc_ocrFailed = False, oc_ocrError = None\<rparr>"

lemma encrypts0: "\<exists>env. encryptBuffer (kl_aes kyc_library0) kyc_config0 r m = Inr env"
proof -
  have key: "kg_kmsActiveKeyVersion kyc_config0 = ''v1''" by (simp add: kyc_config0_def)
  show ?thesis by (simp add: encryptBuffer_def key key_of_zeros)
qed

lemmas upload0_evaluation = store_upload_def js_absent_def ALLOWED_KYC_MIME_TYPES_def KYC_DOCUMENT_TYPES_def
  storeEncryptedDocument_def read_stored_document_def analyzeAndRecordDocument_def createOcrResult_def ocr_response_def Let_def

lemma upload0_stored:
  "\<exists>w1. kyc_step kyc_library0 kyc_config0 no_documents (Upload_document upload0) = (w1, Kyc_stored ''d'' view0) \<and>
     kw_ocr w1 = [(''d'', reading0)] \<and> map_get (kw_documents w1) ''d'' \<noteq> None \<and>
     map_get (kw_forensics w1) ''d'' =
       Some \<lparr>fr_applicantAddress = ''GA'', fr_format = ''pdf'', fr_flagged = True, fr_signals = [''EDITOR''], fr_analyzedAt = 0,
         fr_reviewedAt = None, fr_reviewedBy = None, fr_reviewOutcome = None, fr_reviewNote = None\<rparr>"
proof -
  obtain env where env: "encryptBuffer (kl_aes kyc_library0) kyc_config0 random0 ''scan'' = Inr env"
    using encrypts0 by blast
  have route: "upload_route kyc_library0 kyc_config0 no_documents upload0 =
      store_upload kyc_library0 upload0 no_documents
        (Some \<lparr>uf_buffer = [], uf_originalname = ''a.pdf'', uf_mimetype = ''application/pdf''\<rparr>) (Some env)
        (Some (''scan'', ''application/pdf''))"
    by (simp add: upload0_def upload_route_def scanKycUpload_def scan0 encryptKycUpload_def env captureBufferForOcr_def)
  show ?thesis
    unfolding kyc_step.simps route
    by (simp add: upload0_evaluation upload0_def kyc_library0_def no_documents_def view0_def reading0_def)
qed

definition confirm0 :: kyc_event where
  "confirm0 = Confirm_fields (Some ''GA'') ''d'' (JObj [(''confirmName'', JBool True)]) None"

lemma confirmed0:
  assumes "kw_ocr w = [(''d'', reading0)]"
  shows "\<exists>w' r. kyc_step lib cfg w confirm0 = (w', r) \<and> submit_route w' (Some ''GA'') ''d'' = Kyc_submitted ''d''"
proof -
  let ?r = "reading0\<lparr>oc_nameConfirmed := True\<rparr>"
  have "kyc_step lib cfg w confirm0 = (w\<lparr>kw_ocr := [(''d'', ?r)]\<rparr>, Kyc_confirmed ?r (getUnconfirmedFields ?r))"
    using assms
    by (simp add: confirm0_def confirm_route_def js_field_def js_truthy_def getOcrResult_def reading0_def confirmOcrFields_def
        confirm_record_def Let_def)
  moreover have "submit_route (w\<lparr>kw_ocr := [(''d'', ?r)]\<rparr>) (Some ''GA'') ''d'' = Kyc_submitted ''d''"
    by (simp add: submit_route_def getOcrResult_def reading0_def getUnconfirmedFields_def)
  ultimately show ?thesis by blast
qed


lemma token_request0:
  assumes "map_get (kw_documents w) ''d'' \<noteq> None"
  shows "kyc_step kyc_library0 kyc_config0 w
      (Request_access_token (Some ''op'') (JObj [(''documentId'', JStr ''d''), (''operatorId'', JStr ''o'')]) 10) =
    (w, Kyc_token (spell_token \<lparr>kc_operatorId = ''o'', kc_documentId = ''d'', kc_scope = SCOPE\<rparr> ''s'' 310) 300)"
  using assms
  by (auto simp: access_token_route_def requireOperatorKey_def truthy_text_def kyc_config0_def kyc_library0_def js_field_def
      js_truthy_def getEncryptedDocument_def issueKycAccessToken_def)

theorem operator_reads_what_was_uploaded_witness:
  "\<exists>w1 token. (\<exists>v. kyc_step kyc_library0 kyc_config0 no_documents (Upload_document upload0) = (w1, Kyc_stored ''d'' v)) \<and>
     (\<exists>f. ur_parsed upload0 = Parsed (Some f) \<and>
       kyc_step kyc_library0 kyc_config1 w1 (Decrypt_document (Some ''op'') (Some (''Bearer '' @ token)) ''d'' 300) =
         (w1, Kyc_plaintext (uf_mimetype f) (uf_originalname f) (uf_buffer f)))"
proof -
  obtain w1 where w1: "kyc_step kyc_library0 kyc_config0 no_documents (Upload_document upload0) = (w1, Kyc_stored ''d'' view0)"
    "map_get (kw_documents w1) ''d'' \<noteq> None" using upload0_stored by blast
  let ?token = "spell_token \<lparr>kc_operatorId = ''o'', kc_documentId = ''d'', kc_scope = SCOPE\<rparr> ''s'' 310"
  have sizes: "right_sizes (ur_random upload0)"
    by (simp add: right_sizes_def upload0_def random0_def DATA_KEY_LENGTH_def IV_LENGTH_def)
  have keys: "kg_adminApiKey kyc_config1 = ''op''" "kg_kycOperatorSecret kyc_config1 = kg_kycOperatorSecret kyc_config0"
    "map_get (kg_kmsKeyVersions kyc_config1) (kg_kmsActiveKeyVersion kyc_config0) =
     map_get (kg_kmsKeyVersions kyc_config0) (kg_kmsActiveKeyVersion kyc_config0)"
    by (simp_all add: kyc_config0_def kyc_config1_def)
  have "\<exists>f. ur_parsed upload0 = Parsed (Some f) \<and>
      kyc_step kyc_library0 kyc_config1 (kyc_after kyc_library0 w1 []) (Decrypt_document (Some (kg_adminApiKey kyc_config1))
        (Some (''Bearer '' @ ?token)) ''d'' 300) =
      (kyc_after kyc_library0 w1 [], Kyc_plaintext (uf_mimetype f) (uf_originalname f) (uf_buffer f))"
    by (rule operator_reads_what_was_uploaded [OF kyc_library0_laws sizes w1(1), where ces = "[]" and ?t1.0 = 10 and ttl = 300
          and body = "JObj [(''documentId'', JStr ''d''), (''operatorId'', JStr ''o'')]" and key = "Some ''op''"
          and ?cfg1.0 = kyc_config0])
      (use token_request0 [OF w1(2)] keys in
        \<open>simp_all add: kyc_library0_def js_field_def del: kyc_step.simps\<close>)
  then have "\<exists>f. ur_parsed upload0 = Parsed (Some f) \<and>
      kyc_step kyc_library0 kyc_config1 w1 (Decrypt_document (Some ''op'') (Some (''Bearer '' @ ?token)) ''d'' 300) =
      (w1, Kyc_plaintext (uf_mimetype f) (uf_originalname f) (uf_buffer f))"
    by (simp only: keys(1) foldl.simps)
  then show ?thesis using w1(1) by blast
qed

section \<open>What the code does not keep\<close>

text \<open>Two reviewers who are checked before either has written both decide: the later one stands.\<close>

lemma two_reviewers_decide:
  assumes "check_review w i = None" "check_review w j = None" "ri_documentId j = ri_documentId i"
  shows "\<exists>r. map_get (kw_forensics (write_review (write_review w i t1) j t2)) (ri_documentId i) = Some r \<and>
    fr_reviewedBy r = Some (ri_reviewedBy j) \<and> JStr (the (fr_reviewOutcome r)) = ri_outcome j"
  using assms
  by (auto simp: check_review_def write_review_def REVIEW_OUTCOMES_def split: option.splits if_splits)

text \<open>
  The write of the reading fails: the answer to the upload says that nothing was read, and the document can be submitted
  without a confirmation.
\<close>

lemma lost_reading_needs_no_confirmation:
  "\<exists>w1. kyc_step kyc_library0 kyc_config0 no_documents (Upload_document (upload0\<lparr>ur_ocrFails := True\<rparr>)) =
      (w1, Kyc_stored ''d'' (ocr_response None)) \<and> submit_route w1 (Some ''GA'') ''d'' = Kyc_submitted ''d''"
proof -
  obtain env where env: "encryptBuffer (kl_aes kyc_library0) kyc_config0 random0 ''scan'' = Inr env"
    using encrypts0 by blast
  let ?u = "upload0\<lparr>ur_ocrFails := True\<rparr>"
  have route: "upload_route kyc_library0 kyc_config0 no_documents ?u =
      store_upload kyc_library0 ?u no_documents
        (Some \<lparr>uf_buffer = [], uf_originalname = ''a.pdf'', uf_mimetype = ''application/pdf''\<rparr>) (Some env)
        (Some (''scan'', ''application/pdf''))"
    by (simp add: upload0_def upload_route_def scanKycUpload_def scan0 encryptKycUpload_def env captureBufferForOcr_def)
  show ?thesis
    unfolding kyc_step.simps route
    by (simp add: upload0_evaluation upload0_def kyc_library0_def no_documents_def submit_route_def getOcrResult_def
        getEncryptedDocument_def)
qed

text \<open>A confirmation with a truthy value that is not \<^verbatim>\<open>true\<close> is answered as one and confirms nothing.\<close>

lemma truthy_confirmation_confirms_nothing:
  assumes "map_get (kw_ocr w) d = Some r" "oc_applicantAddress r = me"
  shows "snd (confirm_route w (Some me) d (JObj [(''confirmName'', JStr ''yes'')]) None) = Kyc_confirmed r (getUnconfirmedFields r)"
  using assms
  by (simp add: confirm_route_def js_field_def js_truthy_def getOcrResult_def confirmOcrFields_def confirm_record_def Let_def)

text \<open>What the scanner reports as the signature keeps the word of the verdict and the final zero byte.\<close>

lemma signature_keeps_verdict:
  "follow_scan [] [Socket_data (''stream: Eicar FOUND'' @ [CHR 0x00])] = Some (Inr (Infected (''Eicar FOUND'' @ [CHR 0x00])))"
  by code_simp

end
