(* ===== verification/ApplicantMerge.thy ===== *)
theory ApplicantMerge
  imports LoanStore AuditChain
begin

text \<open>
  The merge of a duplicate applicant into another one, \<^verbatim>\<open>backend/src/services/applicantMerge.ts\<close> and its route
  in \<^verbatim>\<open>backend/src/routes/admin.ts\<close>, on the tables it touches: applicants, the loans of \<open>LoanStore\<close>, what else is
  owned by an applicant, and the log of \<open>AuditChain\<close>. The checks come before the transaction; a transaction
  that fails at any of its calls changes nothing. The theorem says where every row is after a merge; the lemmas at the end,
  what a merge does to the log and what two of them do to each other.
\<close>

section \<open>Tables\<close>

record merge_applicant =
  mg_stellarAddress :: string
  mg_deletedAt :: "int option"
  mg_updatedAt :: int

text \<open>Rows that only say whose they are, by identifier.\<close>

type_synonym owned_rows = "(string, string) js_map"

record merge_db =
  md_applicants :: "(string, merge_applicant) js_map"
  md_loans :: "(string, loan_row) js_map"
  md_verifications :: owned_rows
  md_documents :: owned_rows
  md_credentials :: owned_rows
  md_employment :: owned_rows
  md_communication :: owned_rows
  md_preferences :: "(string, string) js_map"
  md_log :: "chain_entry list"

record merge_context =
  mc_actorAddress :: "string option"
  mc_ipAddress :: "string option"
  mc_reason :: "string option"

record moved_counts =
  mv_loanApplications :: nat
  mv_verificationResults :: nat
  mv_kycDocuments :: nat
  mv_borrowerCredentials :: nat

record merge_result =
  mr_primaryApplicantId :: string
  mr_duplicateApplicantId :: string
  mr_moved :: moved_counts
  mr_duplicateDeletedAt :: int

datatype merge_error = Merge_invalid int string | Merge_failed

section \<open>Checks\<close>

definition uuid_digit :: "char \<Rightarrow> bool" where
  "uuid_digit c = (let n = (of_char c :: nat) in 48 \<le> n \<and> n \<le> 57 \<or> 65 \<le> n \<and> n \<le> 70 \<or> 97 \<le> n \<and> n \<le> 102)"

text \<open>Five groups of eight, four, four, four and twelve digits, with dashes between them.\<close>

definition UUID_RE :: "string \<Rightarrow> bool" where
  "UUID_RE s \<longleftrightarrow> map length (js_split CHR ''-'' s) = [8, 4, 4, 4, 12] \<and> list_all (list_all uuid_digit) (js_split CHR ''-'' s)"

definition merge_check :: "merge_db \<Rightarrow> string \<Rightarrow> string \<Rightarrow> merge_error + merge_applicant \<times> merge_applicant" where
  "merge_check db p d =
     (if p = [] \<or> d = [] then Inl (Merge_invalid 400 ''invalid_request'')
      else if \<not> UUID_RE p \<or> \<not> UUID_RE d then Inl (Merge_invalid 400 ''invalid_request'')
      else if p = d then Inl (Merge_invalid 400 ''invalid_request'')
      else case map_get (md_applicants db) p of
        None \<Rightarrow> Inl (Merge_invalid 404 ''applicant_not_found'')
      | Some prim \<Rightarrow>
          (case map_get (md_applicants db) d of
             None \<Rightarrow> Inl (Merge_invalid 404 ''applicant_not_found'')
           | Some dup \<Rightarrow>
               if mg_deletedAt prim \<noteq> None \<or> mg_deletedAt dup \<noteq> None then Inl (Merge_invalid 409 ''conflict'') else Inr (prim, dup)))"

section \<open>The transaction\<close>

definition repoint :: "string \<Rightarrow> string \<Rightarrow> owned_rows \<Rightarrow> owned_rows" where
  "repoint d p rows = map (\<lambda>(k, a). (k, if a = d then p else a)) rows"

definition repoint_loan :: "string \<Rightarrow> string \<Rightarrow> loan_row \<Rightarrow> loan_row" where
  "repoint_loan d p r = (if lo_applicantId r = d then r\<lparr>lo_applicantId := p, lo_version := lo_version r + 1\<rparr> else r)"

definition repoint_loans :: "string \<Rightarrow> string \<Rightarrow> (string, loan_row) js_map \<Rightarrow> (string, loan_row) js_map" where
  "repoint_loans d p rows = map (\<lambda>(k, r). (k, repoint_loan d p r)) rows"

definition count_of :: "string \<Rightarrow> owned_rows \<Rightarrow> nat" where
  "count_of d rows = length (filter (\<lambda>(k, a). a = d) rows)"

text \<open>The preference is unique for an applicant: the primary's is kept, or else the duplicate's moves.\<close>

definition merge_preferences :: "string \<Rightarrow> string \<Rightarrow> (string, string) js_map \<Rightarrow> (string, string) js_map" where
  "merge_preferences d p prefs =
     (case (map_get prefs d, map_get prefs p) of
        (Some x, None) \<Rightarrow> map (\<lambda>(k, y). (if k = d then p else k, y)) prefs
      | (Some x, Some y) \<Rightarrow> map_delete prefs d
      | _ \<Rightarrow> prefs)"

definition repoint_log :: "string \<Rightarrow> string \<Rightarrow> chain_entry list \<Rightarrow> chain_entry list" where
  "repoint_log from to rows =
     (if from = [] then rows
      else map (\<lambda>e. if ae_actorAddress e = Some from then e\<lparr>ae_actorAddress := Some to\<rparr> else e) rows)"

definition mark_deleted :: "string \<Rightarrow> int \<Rightarrow> (string, merge_applicant) js_map \<Rightarrow> (string, merge_applicant) js_map" where
  "mark_deleted d now rows = map (\<lambda>(k, a). (k, if k = d then a\<lparr>mg_deletedAt := Some now, mg_updatedAt := now\<rparr> else a)) rows"

definition merge_metadata ::
    "string \<Rightarrow> string \<Rightarrow> merge_applicant \<Rightarrow> merge_applicant \<Rightarrow> moved_counts \<Rightarrow> merge_context \<Rightarrow> string \<Rightarrow> entry_metadata" where
  "merge_metadata p d prim dup moved ctx mergedAt =
     [(''primaryApplicantId'', JStr p), (''duplicateApplicantId'', JStr d),
      (''primaryStellarAddress'', JStr (mg_stellarAddress prim)), (''duplicateStellarAddress'', JStr (mg_stellarAddress dup)),
      (''moved'', JObj [(''loanApplications'', JNum (of_nat (mv_loanApplications moved))),
         (''verificationResults'', JNum (of_nat (mv_verificationResults moved))),
         (''kycDocuments'', JNum (of_nat (mv_kycDocuments moved))),
         (''borrowerCredentials'', JNum (of_nat (mv_borrowerCredentials moved)))]),
      (''reason'', nullable_text (mc_reason ctx)), (''mergedAt'', JStr mergedAt)]"

text \<open>The text of the time and the identifier of the row are arguments.\<close>

definition merge_write ::
    "merge_db \<Rightarrow> string \<Rightarrow> string \<Rightarrow> merge_applicant \<Rightarrow> merge_applicant \<Rightarrow> merge_context \<Rightarrow> (int \<Rightarrow> string) \<Rightarrow> string \<Rightarrow> int \<Rightarrow>
     merge_db \<times> merge_result" where
  "merge_write db p d prim dup ctx timeText rowId now =
     (let moved = \<lparr>mv_loanApplications = length (filter (\<lambda>(k, r). lo_applicantId r = d) (md_loans db)),
            mv_verificationResults = count_of d (md_verifications db), mv_kycDocuments = count_of d (md_documents db),
            mv_borrowerCredentials = count_of d (md_credentials db)\<rparr>;
          row = \<lparr>ae_id = rowId, ae_action = ''applicant.merge'', ae_actorAddress = mc_actorAddress ctx,
            ae_ipAddress = mc_ipAddress ctx, ae_metadata = Some (merge_metadata p d prim dup moved ctx (timeText now)),
            ae_createdAt = now\<rparr>
      in (db\<lparr>md_loans := repoint_loans d p (md_loans db), md_verifications := repoint d p (md_verifications db),
             md_documents := repoint d p (md_documents db), md_credentials := repoint d p (md_credentials db),
             md_preferences := merge_preferences d p (md_preferences db),
             md_applicants := mark_deleted d now (md_applicants db),
             md_log := repoint_log (mg_stellarAddress dup) (mg_stellarAddress prim) (md_log db) @ [row]\<rparr>,
          \<lparr>mr_primaryApplicantId = p, mr_duplicateApplicantId = d, mr_moved = moved, mr_duplicateDeletedAt = now\<rparr>))"

definition mergeApplicants ::
    "merge_db \<Rightarrow> string \<Rightarrow> string \<Rightarrow> merge_context \<Rightarrow> (int \<Rightarrow> string) \<Rightarrow> string \<Rightarrow> bool \<Rightarrow> int \<Rightarrow>
     merge_db \<times> (merge_error + merge_result)" where
  "mergeApplicants db p d ctx timeText rowId fails now =
     (case merge_check db p d of
        Inl e \<Rightarrow> (db, Inl e)
      | Inr (prim, dup) \<Rightarrow>
          if fails then (db, Inl Merge_failed)
          else (case merge_write db p d prim dup ctx timeText rowId now of (db', result) \<Rightarrow> (db', Inr result)))"

text \<open>
  The route, behind \<open>requireAdmin\<close>. An identifier in the body that is no text is refused, here always as an empty one is (a list
  of one identifier passes the pattern and is refused by the database client instead).
\<close>

datatype merge_reply = Merged merge_result | Merge_refused int string

definition body_text :: "js_value \<Rightarrow> string" where
  "body_text v = (case v of JStr s \<Rightarrow> s | _ \<Rightarrow> [])"

definition merge_route ::
    "merge_db \<Rightarrow> js_value \<Rightarrow> string option \<Rightarrow> string option \<Rightarrow> (int \<Rightarrow> string) \<Rightarrow> string \<Rightarrow> bool \<Rightarrow> int \<Rightarrow> merge_db \<times> merge_reply" where
  "merge_route db body wallet ip timeText rowId fails now =
     (case mergeApplicants db (body_text (js_field body ''primaryApplicantId'')) (body_text (js_field body ''duplicateApplicantId''))
             \<lparr>mc_actorAddress = wallet, mc_ipAddress = ip,
              mc_reason = (case js_field body ''reason'' of JStr s \<Rightarrow> Some s | _ \<Rightarrow> None)\<rparr> timeText rowId fails now of
        (db', Inr result) \<Rightarrow> (db', Merged result)
      | (db', Inl (Merge_invalid status code)) \<Rightarrow> (db', Merge_refused status code)
      | (db', Inl Merge_failed) \<Rightarrow> (db', Merge_refused 500 ''merge_failed''))"

section \<open>Where the rows are\<close>

lemma map_get_repoint [simp]:
  "map_get (repoint d p rows) k = map_option (\<lambda>a. if a = d then p else a) (map_get rows k)"
  by (simp add: repoint_def map_of_map)

lemma map_get_repoint_loans [simp]: "map_get (repoint_loans d p rows) k = map_option (repoint_loan d p) (map_get rows k)"
  by (simp add: repoint_loans_def map_of_map)

lemma none_left: "d \<noteq> p \<Longrightarrow> count_of d (repoint d p rows) = 0"
  by (auto simp: count_of_def repoint_def filter_empty_conv split: if_splits)

lemma all_there: "d \<noteq> p \<Longrightarrow> count_of p (repoint d p rows) = count_of p rows + count_of d rows"
  by (induction rows) (auto simp: count_of_def repoint_def)

lemma map_get_rename:
  assumes "map_get prefs p = None" "d \<noteq> p"
  shows "map_get (map (\<lambda>(k, y). (if k = d then p else k, y)) prefs) q =
    (if q = p then map_get prefs d else if q = d then None else map_get prefs q)"
  using assms
proof (induction prefs)
  case (Cons x prefs)
  obtain k y where x: "x = (k, y)" by (cases x)
  have "k \<noteq> p" "map_get prefs p = None" using Cons(2) by (auto simp: x split: if_splits)
  then show ?case using Cons(1,3) by (cases "k = d") (auto simp: x)
qed simp

lemma preferences_merged:
  assumes "d \<noteq> p"
  shows "map_get (merge_preferences d p prefs) q =
    (if q = d then None
     else if q = p then (case map_get prefs p of Some y \<Rightarrow> Some y | None \<Rightarrow> map_get prefs d) else map_get prefs q)"
  using assms
  by (cases "map_get prefs d"; cases "map_get prefs p") (auto simp: merge_preferences_def map_get_rename)

lemma map_get_mark [simp]:
  "map_get (mark_deleted d now m) q =
     (if q = d then map_option (\<lambda>a. a\<lparr>mg_deletedAt := Some now, mg_updatedAt := now\<rparr>) (map_get m q) else map_get m q)"
  by (induction m) (auto simp: mark_deleted_def)


text \<open>A client that saw a loan before it moved is told so when it updates it.\<close>

lemma moved_loan_refuses_stale_update:
  assumes "map_get (st_loans st) k = Some (repoint_loan d p r)" "lo_applicantId r = d" "lo_deletedAt r = None"
  shows "guarded_update lib st k (Some (lo_version r)) patch existing now =
    Inl (Stale_version (mapLoanApplication lib st k (repoint_loan d p r)) (lo_version r))"
  using assms by (simp add: guarded_update_def live_row_def stale_version_def repoint_loan_def)

section \<open>Examples\<close>

definition uuid_a :: string where
  "uuid_a = ''aaaaaaaa-0000-0000-0000-000000000000''"

definition uuid_b :: string where
  "uuid_b = ''bbbbbbbb-0000-0000-0000-000000000000''"

lemma uuids: "UUID_RE uuid_a" "UUID_RE uuid_b" "uuid_a \<noteq> uuid_b" "uuid_b \<noteq> uuid_a" "uuid_a \<noteq> []" "uuid_b \<noteq> []"
  by (simp_all add: UUID_RE_def uuid_digit_def uuid_a_def uuid_b_def)

definition merge_db0 :: merge_db where
  "merge_db0 =
     \<lparr>md_applicants = [(uuid_a, \<lparr>mg_stellarAddress = ''GA'', mg_deletedAt = None, mg_updatedAt = 0\<rparr>),
                       (uuid_b, \<lparr>mg_stellarAddress = ''GB'', mg_deletedAt = None, mg_updatedAt = 0\<rparr>)],
      md_loans = [(''l'', new_row uuid_b 100 None None 0)], md_verifications = [(''v'', uuid_b), (''w'', uuid_a)],
      md_documents = [], md_credentials = [(''c'', uuid_b)], md_employment = [(''e'', uuid_b)], md_communication = [],
      md_preferences = [(uuid_b, ''digest'')], md_log = []\<rparr>"

definition merge_context0 :: merge_context where
  "merge_context0 = \<lparr>mc_actorAddress = Some ''GX'', mc_ipAddress = None, mc_reason = None\<rparr>"

lemma merge0:
  "\<exists>db' result. mergeApplicants merge_db0 uuid_a uuid_b merge_context0 (\<lambda>t. ''t'') ''r'' False 5 = (db', Inr result)"
  by (simp add: mergeApplicants_def merge_check_def merge_db0_def uuids merge_write_def Let_def)


section \<open>What a merge breaks\<close>

text \<open>
  The merge writes its own entry without the hashes of the chain, so the log no longer verifies after it, whatever
  it held before.
\<close>

lemma unlinked_entry_breaks_chain:
  "e \<in> set es \<Longrightarrow> storedChainPrevHash e = None \<Longrightarrow> \<not> cv_ok (verify_from env i prev es)"
  by (induction es arbitrary: i prev) auto

lemma merge_breaks_the_audit_chain:
  assumes "mergeApplicants db p d ctx timeText rowId fails now = (db', Inr result)"
  shows "\<not> cv_ok (verifyAuditRange env (md_log db') None None)"
proof -
  obtain prim dup where wrote: "merge_write db p d prim dup ctx timeText rowId now = (db', result)"
    using assms by (auto simp: mergeApplicants_def split: sum.splits if_splits prod.splits)
  define row where "row = last (md_log db')"
  have "row \<in> set (md_log db') \<and> storedChainPrevHash row = None"
    using wrote
    by (auto simp: row_def merge_write_def Let_def storedChainPrevHash_def stored_text_def merge_metadata_def CHAIN_PREV_KEY_def)
  moreover have "set (oldest_first (md_log db')) = set (md_log db')" by (simp add: oldest_first_def)
  ultimately have "\<not> cv_ok (verify_from env 0 GENESIS_PREV_HASH (oldest_first (md_log db')))"
    using unlinked_entry_breaks_chain [of row] by simp
  then show ?thesis unfolding verifyAuditRange_def by (simp add: verifyChain_def)
qed

text \<open>The entries of the duplicate are rewritten in place, under the hash they were given.\<close>

lemma merge_rewrites_entries:
  assumes "mergeApplicants db p d ctx timeText rowId fails now = (db', Inr result)" "i < length (md_log db)"
    "map_get (md_applicants db) d = Some dup" "map_get (md_applicants db) p = Some prim"
    "ae_actorAddress (md_log db ! i) = Some (mg_stellarAddress dup)" "mg_stellarAddress dup \<noteq> []"
  shows "md_log db' ! i = (md_log db ! i)\<lparr>ae_actorAddress := Some (mg_stellarAddress prim)\<rparr>"
  using assms
  by (auto simp: mergeApplicants_def merge_check_def merge_write_def Let_def repoint_log_def nth_append
      split: sum.splits if_splits prod.splits option.splits)

text \<open>Records of employment and preferences of communication stay with the deleted duplicate.\<close>

lemma merge_leaves_employment:
  "md_employment (fst (mergeApplicants db p d ctx timeText rowId fails now)) = md_employment db"
  "md_communication (fst (mergeApplicants db p d ctx timeText rowId fails now)) = md_communication db"
  by (auto simp: mergeApplicants_def merge_write_def Let_def split: sum.splits prod.splits)

text \<open>Two merges in opposite directions that are both checked before either is written delete both applicants.\<close>

lemma crossed_merges_delete_both:
  assumes "merge_check db a b = Inr (x, y)" "merge_check db b a = Inr (y', x')"
  shows "\<exists>u v. map_get (md_applicants (fst (merge_write (fst (merge_write db a b x y c1 i1 r1 t1)) b a y' x' c2 i2 r2 t2))) a = Some u \<and>
    mg_deletedAt u = Some t2 \<and>
    map_get (md_applicants (fst (merge_write (fst (merge_write db a b x y c1 i1 r1 t1)) b a y' x' c2 i2 r2 t2))) b = Some v \<and>
    mg_deletedAt v = Some t1"
  using assms
  by (auto simp: merge_check_def merge_write_def Let_def split: if_splits option.splits)

end
