(* ===== verification/SafeRedirect.thy ===== *)
theory SafeRedirect
  imports Prelude
begin

text \<open>
  Where a redirect named by a request may lead: \<^verbatim>\<open>frontend/src/lib/safeRedirect.ts\<close> and its twin
  \<^verbatim>\<open>backend/src/security/redirectValidation.ts\<close>, which also picks the parameter. A browser is modelled as far as the
  URL standard says how a reference is read against a page of the site: blanks and controls around it are cut off, tabs and
  line ends inside are dropped, a backslash counts as a slash, and two slashes at the front name another host. The theorem:
  what the guard returns leads to an allowed path of the site.
\<close>

section \<open>The guard of the web client\<close>

definition DEFAULT_SAFE_REDIRECT :: string where
  "DEFAULT_SAFE_REDIRECT = ''/''"

definition ALLOWED_REDIRECT_PREFIXES :: "string list" where
  "ALLOWED_REDIRECT_PREFIXES =
     [''/dashboard'', ''/onboarding'', ''/application'', ''/invest'', ''/governance'', ''/settings'', ''/history'', ''/contractor'',
      ''/repay'', ''/verify'', ''/tx'', ''/share'', ''/admin'', ''/'']"

definition pathname_of :: "string \<Rightarrow> string" where
  "pathname_of target = takeWhile (\<lambda>c. c \<noteq> CHR ''?'' \<and> c \<noteq> CHR ''#'') target"

definition isSafeRedirectTarget :: "js_value \<Rightarrow> bool" where
  "isSafeRedirectTarget raw =
     (case raw of
        JStr s \<Rightarrow>
          (let target = js_trim s; lower = js_lower target; pathname = pathname_of target
           in if length target = 0 \<or> 2048 < length target then False
              else if CHR 0x0D \<in> set target \<or> CHR 0x0A \<in> set target \<or> CHR 0x00 \<in> set target then False
              else if \<not> js_starts_with target ''/'' then False
              else if js_starts_with target ''//'' \<or> js_starts_with target [CHR ''/'', CHR 0x5C] then False
              else if js_starts_with lower ''javascript:'' \<or> js_starts_with lower ''data:'' \<or> js_starts_with lower ''vbscript:''
              then False
              else if js_lower (take 3 (drop 1 target)) \<in> {''%2f'', ''%5c''} then False
              else if js_includes target ''://'' then False
              else pathname = ''/'' \<or>
                list_ex (\<lambda>prefix. prefix \<noteq> ''/'' \<and> (pathname = prefix \<or> js_starts_with pathname (prefix @ ''/'')))
                  ALLOWED_REDIRECT_PREFIXES)
      | _ \<Rightarrow> False)"

definition text_value :: "js_value \<Rightarrow> string" where
  "text_value v = (case v of JStr s \<Rightarrow> s | _ \<Rightarrow> [])"

definition resolveSafeRedirect :: "js_value \<Rightarrow> string \<Rightarrow> string" where
  "resolveSafeRedirect raw fallback =
     (if isSafeRedirectTarget raw then js_trim (text_value raw)
      else if isSafeRedirectTarget (JStr fallback) then fallback
      else DEFAULT_SAFE_REDIRECT)"

section \<open>The twin of the backend\<close>

definition BACKEND_REDIRECT_PREFIXES :: "string list" where
  "BACKEND_REDIRECT_PREFIXES =
     [''/dashboard'', ''/onboarding'', ''/application'', ''/invest'', ''/governance'', ''/settings'', ''/history'', ''/contractor'',
      ''/repay'', ''/verify'', ''/tx'', ''/share'', ''/admin'', ''/'']"

definition backend_isSafeRedirectTarget :: "js_value \<Rightarrow> bool" where
  "backend_isSafeRedirectTarget raw =
     (case raw of
        JStr s \<Rightarrow>
          (let target = js_trim s; lower = js_lower target; pathname = pathname_of target
           in if length target = 0 \<or> 2048 < length target then False
              else if CHR 0x0D \<in> set target \<or> CHR 0x0A \<in> set target \<or> CHR 0x00 \<in> set target then False
              else if \<not> js_starts_with target ''/'' then False
              else if js_starts_with target ''//'' \<or> js_starts_with target [CHR ''/'', CHR 0x5C] then False
              else if js_starts_with lower ''javascript:'' \<or> js_starts_with lower ''data:'' \<or> js_starts_with lower ''vbscript:''
              then False
              else if js_lower (take 3 (drop 1 target)) \<in> {''%2f'', ''%5c''} then False
              else if js_includes target ''://'' then False
              else pathname = ''/'' \<or>
                list_ex (\<lambda>prefix. prefix \<noteq> ''/'' \<and> (pathname = prefix \<or> js_starts_with pathname (prefix @ ''/'')))
                  BACKEND_REDIRECT_PREFIXES)
      | _ \<Rightarrow> False)"

definition backend_resolveSafeRedirect :: "js_value \<Rightarrow> string \<Rightarrow> string" where
  "backend_resolveSafeRedirect raw fallback =
     (if backend_isSafeRedirectTarget raw then js_trim (text_value raw)
      else if backend_isSafeRedirectTarget (JStr fallback) then fallback
      else DEFAULT_SAFE_REDIRECT)"

definition REDIRECT_FIELDS :: "string list" where
  "REDIRECT_FIELDS = [''redirect'', ''returnTo'', ''return_to'', ''next'', ''callbackUrl'', ''redirectUrl'']"

text \<open>\<open>req.query?.[field] ?? req.body?.[field]\<close>; \<open>show\<close> is \<open>String(v)\<close>.\<close>

definition redirect_field :: "js_value \<Rightarrow> js_value \<Rightarrow> string \<Rightarrow> js_value" where
  "redirect_field query body field =
     (let q = js_field query field in if js_absent q then js_field body field else q)"

fun getSafeRedirectTarget ::
    "(js_value \<Rightarrow> string) \<Rightarrow> js_value \<Rightarrow> js_value \<Rightarrow> string list \<Rightarrow> string \<Rightarrow> string \<times> string option" where
  "getSafeRedirectTarget show query body [] fallback = (fallback, None)"
| "getSafeRedirectTarget show query body (f # fs) fallback =
     (let raw = redirect_field query body f
      in if raw = JUndefined then getSafeRedirectTarget show query body fs fallback
         else if backend_isSafeRedirectTarget raw then (js_trim (text_value raw), None)
         else (fallback, Some (take 256 (show raw))))"

lemma same_prefixes: "BACKEND_REDIRECT_PREFIXES = ALLOWED_REDIRECT_PREFIXES"
  unfolding BACKEND_REDIRECT_PREFIXES_def ALLOWED_REDIRECT_PREFIXES_def ..

lemma twins_agree:
  "backend_isSafeRedirectTarget raw = isSafeRedirectTarget raw"
  "backend_resolveSafeRedirect raw fallback = resolveSafeRedirect raw fallback"
  unfolding backend_isSafeRedirectTarget_def isSafeRedirectTarget_def backend_resolveSafeRedirect_def
    resolveSafeRedirect_def same_prefixes by (rule refl)+

section \<open>A browser\<close>

text \<open>Where a reference leads from a page of the site: to another place, or to a path of the site.\<close>

datatype navigation = Elsewhere | On_site string

definition c0_or_space :: "char \<Rightarrow> bool" where
  "c0_or_space c \<longleftrightarrow> (of_char c :: nat) \<le> 32"

definition strip_url :: "string \<Rightarrow> string" where
  "strip_url s = rev (dropWhile c0_or_space (rev (dropWhile c0_or_space s)))"

definition url_kept :: "char \<Rightarrow> bool" where
  "url_kept c \<longleftrightarrow> c \<notin> {CHR 0x09, CHR 0x0A, CHR 0x0D}"

definition url_slash :: "char \<Rightarrow> bool" where
  "url_slash c \<longleftrightarrow> c \<in> {CHR ''/'', CHR 0x5C}"

definition navigate :: "string \<Rightarrow> navigation" where
  "navigate s =
     (case filter url_kept (strip_url s) of
        a # b # t \<Rightarrow> if url_slash a then (if url_slash b then Elsewhere else On_site (pathname_of (a # b # t))) else Elsewhere
      | [a] \<Rightarrow> if url_slash a then On_site [a] else Elsewhere
      | [] \<Rightarrow> Elsewhere)"

definition inner_prefixes :: "string list" where
  "inner_prefixes = filter (\<lambda>prefix. prefix \<noteq> ''/'') ALLOWED_REDIRECT_PREFIXES"

definition allowed_path :: "string \<Rightarrow> bool" where
  "allowed_path path \<longleftrightarrow>
     path = ''/'' \<or> list_ex (\<lambda>prefix. path = prefix \<or> js_starts_with path (prefix @ ''/'')) inner_prefixes"

lemma filter_takeWhile: "(\<And>x. \<not> Q x \<Longrightarrow> P x) \<Longrightarrow> filter P (takeWhile Q xs) = takeWhile Q (filter P xs)"
  by (induction xs) auto

lemma pathname_filter: "pathname_of (filter url_kept s) = filter url_kept (pathname_of s)"
  unfolding pathname_of_def by (rule filter_takeWhile [symmetric]) (auto simp: url_kept_def)

definition plain_prefix :: "string \<Rightarrow> bool" where
  "plain_prefix prefix \<longleftrightarrow> 2 \<le> length prefix \<and> hd prefix = CHR ''/'' \<and> \<not> url_slash (prefix ! 1) \<and> \<not> c0_or_space (last prefix) \<and>
     filter url_kept prefix = prefix"

lemma prefixes_checked: "list_all plain_prefix inner_prefixes"
  by code_simp

lemma inner_prefix:
  assumes "prefix \<in> set inner_prefixes"
  obtains b t where "prefix = CHR ''/'' # b # t" "\<not> url_slash b" "prefix \<noteq> []" "\<not> c0_or_space (last prefix)" "filter url_kept prefix = prefix"
proof -
  have plain: "plain_prefix prefix" using prefixes_checked assms unfolding list_all_iff by blast
  then obtain a b t where "prefix = a # b # t"
    unfolding plain_prefix_def by (cases prefix; cases "tl prefix") auto
  then have p: "prefix = CHR ''/'' # b # t" "\<not> url_slash b" using plain by (simp_all add: plain_prefix_def)
  show thesis by (rule that [OF p]) (use p plain in \<open>auto simp: plain_prefix_def simp del: filter.simps last.simps\<close>)
qed

text \<open>Cutting off controls at the end does not reach into the prefix of a path, nor past a question mark.\<close>

definition strip_end :: "string \<Rightarrow> string" where
  "strip_end s = rev (dropWhile c0_or_space (rev s))"

lemma strip_end_append: "\<not> c0_or_space c \<Longrightarrow> strip_end (p @ c # r) = p @ c # strip_end r"
  by (induction r rule: rev_induct) (simp_all add: strip_end_def)

lemma strip_end_nothing: "s \<noteq> [] \<Longrightarrow> \<not> c0_or_space (last s) \<Longrightarrow> strip_end s = s"
  by (cases s rule: rev_cases) (simp_all add: strip_end_def)

lemma set_strip_end: "set (strip_end s) \<subseteq> set s"
  by (auto simp: strip_end_def dest: set_dropWhileD)

lemma pathname_all: "(\<And>c. c \<in> set s \<Longrightarrow> c \<noteq> CHR ''?'' \<and> c \<noteq> CHR ''#'') \<Longrightarrow> pathname_of (s @ r) = s @ pathname_of r"
  by (induction s) (auto simp: pathname_of_def)

lemma pathname_Nil: "pathname_of [] = []"
  by (simp add: pathname_of_def)

lemma pathname_strip_end: "pathname_of (strip_end t) = strip_end (pathname_of t) \<or> pathname_of (strip_end t) = pathname_of t"
proof -
  let ?Q = "\<lambda>c. c \<noteq> CHR ''?'' \<and> c \<noteq> CHR ''#''"
  have path: "c \<noteq> CHR ''?'' \<and> c \<noteq> CHR ''#''" if "c \<in> set (pathname_of t)" for c
    using that unfolding pathname_of_def by (drule_tac set_takeWhileD) blast
  have split: "t = pathname_of t @ dropWhile ?Q t" unfolding pathname_of_def by (rule takeWhile_dropWhile_id [symmetric])
  show ?thesis
  proof (cases "dropWhile ?Q t")
    case Nil
    have t: "t = pathname_of t" using split unfolding Nil append_Nil2 .
    have "c \<noteq> CHR ''?'' \<and> c \<noteq> CHR ''#''" if "c \<in> set (strip_end (pathname_of t))" for c
      using path set_strip_end that by blast
    then have "pathname_of (strip_end (pathname_of t)) = strip_end (pathname_of t)"
      by (rule pathname_all [where r = "[]", simplified append_Nil2 pathname_Nil])
    then show ?thesis using t by simp
  next
    case (Cons c r)
    have "\<not> ?Q c" using hd_dropWhile [of ?Q t] Cons by simp
    then have c: "c = CHR ''?'' \<or> c = CHR ''#''" by blast
    then have "\<not> c0_or_space c" by (auto simp: c0_or_space_def)
    then have "strip_end (pathname_of t @ c # r) = pathname_of t @ c # strip_end r" by (rule strip_end_append)
    moreover have "pathname_of (pathname_of t @ c # strip_end r) = pathname_of t"
    proof -
      have "pathname_of (c # strip_end r) = []" using c by (auto simp: pathname_of_def)
      then show ?thesis using pathname_all [of "pathname_of t" "c # strip_end r", OF path] by simp
    qed
    moreover have "t = pathname_of t @ c # r" using split unfolding Cons .
    ultimately show ?thesis by metis
  qed
qed

lemma allowed_path_cases:
  assumes "allowed_path path"
  obtains (root) "path = ''/''"
  | (prefix) prefix rest where "prefix \<in> set inner_prefixes" "path = prefix @ rest" "rest = [] \<or> (\<exists>r. rest = CHR ''/'' # r)"
proof (cases "path = ''/''")
  case False
  then obtain prefix where p: "prefix \<in> set inner_prefixes" "path = prefix \<or> js_starts_with path (prefix @ ''/'')"
    using assms unfolding allowed_path_def list_ex_iff by blast
  from p(2) show thesis
  proof
    assume "path = prefix"
    then show thesis using prefix [OF p(1), of "[]"] by simp
  next
    assume "js_starts_with path (prefix @ ''/'')"
    then obtain r where "path = prefix @ CHR ''/'' # r" by (auto simp: js_starts_with_append)
    then show thesis using prefix [OF p(1), of "CHR ''/'' # r"] by simp
  qed
qed (rule root)

lemma allowed_pathI:
  assumes "prefix \<in> set inner_prefixes" "rest = [] \<or> (\<exists>r. rest = CHR ''/'' # r)"
  shows "allowed_path (prefix @ rest)"
proof -
  have "prefix @ rest = prefix \<or> js_starts_with (prefix @ rest) (prefix @ ''/'')"
    using assms(2) by (auto simp: js_starts_with_append)
  then show ?thesis using assms(1) unfolding allowed_path_def list_ex_iff by blast
qed

lemma not_c0_slash: "\<not> c0_or_space CHR ''/''"
  by (simp add: c0_or_space_def)

lemma allowed_strip_end:
  assumes "allowed_path path"
  shows "allowed_path (strip_end path)"
  using assms
proof (cases rule: allowed_path_cases)
  case root
  then show ?thesis using assms strip_end_nothing [of path] not_c0_slash by simp
next
  case (prefix prefix rest)
  show ?thesis
  proof (cases rest)
    case Nil
    have "strip_end path = path"
      using prefix(1,2) Nil by (auto elim!: inner_prefix intro!: strip_end_nothing)
    then show ?thesis using assms by simp
  next
    case (Cons c r)
    then have "strip_end path = prefix @ CHR ''/'' # strip_end r"
      using prefix(2,3) strip_end_append [OF not_c0_slash, of prefix r] by auto
    then show ?thesis using allowed_pathI [OF prefix(1), of "CHR ''/'' # strip_end r"] by simp
  qed
qed

lemma allowed_kept:
  assumes "allowed_path path"
  shows "allowed_path (filter url_kept path)"
  using assms
proof (cases rule: allowed_path_cases)
  case root
  then show ?thesis by (simp add: allowed_path_def url_kept_def)
next
  case (prefix prefix rest)
  have "filter url_kept path = prefix @ filter url_kept rest"
    using prefix(1,2) by (auto elim!: inner_prefix)
  moreover have "filter url_kept rest = [] \<or> (\<exists>r. filter url_kept rest = CHR ''/'' # r)"
    using prefix(3) by (auto simp: url_kept_def)
  ultimately show ?thesis using allowed_pathI [OF prefix(1)] by simp
qed

lemma allowed_stays:
  assumes "allowed_path (pathname_of k)" "k = filter url_kept (strip_url s)"
  shows "navigate s = On_site (pathname_of k)"
  using assms(1)
proof (cases rule: allowed_path_cases)
  case root
  then show ?thesis
    unfolding navigate_def assms(2) [symmetric]
    by (cases k rule: remdups_adj.cases) (auto simp: pathname_of_def url_slash_def split: if_splits)
next
  case (prefix prefix rest)
  obtain b t where p: "prefix = CHR ''/'' # b # t" "\<not> url_slash b" using prefix(1) by (auto elim!: inner_prefix)
  have "\<exists>x. k = pathname_of k @ x" unfolding pathname_of_def by (metis takeWhile_dropWhile_id)
  then obtain x where "k = CHR ''/'' # b # t @ rest @ x" using p prefix(2) by auto
  then show ?thesis
    unfolding navigate_def assms(2) [symmetric] using p(2) by (simp add: url_slash_def)
qed

lemma strip_url_slash: "js_starts_with t ''/'' \<Longrightarrow> strip_url t = strip_end t"
  using not_c0_slash by (auto simp: js_starts_with_append strip_url_def strip_end_def)

lemma safe_target_allowed:
  assumes "isSafeRedirectTarget (JStr s)"
  shows "js_starts_with (js_trim s) ''/'' \<and> allowed_path (pathname_of (js_trim s))"
proof -
  let ?path = "pathname_of (js_trim s)"
  have "js_starts_with (js_trim s) ''/''" and path: "?path = ''/'' \<or> list_ex (\<lambda>prefix. prefix \<noteq> ''/'' \<and>
      (?path = prefix \<or> js_starts_with ?path (prefix @ ''/''))) ALLOWED_REDIRECT_PREFIXES"
    using assms unfolding isSafeRedirectTarget_def Let_def js_value.case by (metis (no_types, lifting))+
  moreover have "allowed_path ?path"
    using path unfolding allowed_path_def inner_prefixes_def list_ex_iff by (simp only: set_filter mem_Collect_eq) blast
  ultimately show ?thesis by blast
qed

lemma safe_target_stays:
  assumes "isSafeRedirectTarget (JStr s)"
  shows "\<exists>path. navigate (js_trim s) = On_site path \<and> allowed_path path"
proof -
  let ?t = "js_trim s" let ?k = "filter url_kept (strip_url ?t)"
  have t: "strip_url ?t = strip_end ?t" "allowed_path (pathname_of ?t)"
    using safe_target_allowed [OF assms] strip_url_slash by auto
  have "allowed_path (pathname_of (strip_end ?t))"
    using pathname_strip_end [of ?t] t(2) allowed_strip_end by auto
  then have "allowed_path (pathname_of ?k)" unfolding t(1) pathname_filter by (rule allowed_kept)
  then show ?thesis using allowed_stays by blast
qed

lemma default_stays: "navigate DEFAULT_SAFE_REDIRECT = On_site ''/'' \<and> allowed_path ''/''"
  by (simp add: navigate_def strip_url_def DEFAULT_SAFE_REDIRECT_def c0_or_space_def url_kept_def url_slash_def allowed_path_def)

lemma safe_value: "isSafeRedirectTarget raw \<Longrightarrow> \<exists>s. raw = JStr s"
  by (simp add: isSafeRedirectTarget_def split: js_value.splits)

lemma resolved_stays:
  assumes "js_trim fallback = fallback"
  shows "\<exists>path. navigate (resolveSafeRedirect raw fallback) = On_site path \<and> allowed_path path"
  using safe_target_stays safe_value assms default_stays by (fastforce simp: resolveSafeRedirect_def text_value_def)



section \<open>What passes\<close>

text \<open>The segments of a path as the browser resolves them: a dot stands for nothing and two for a step back.\<close>

fun resolve_dots :: "string list \<Rightarrow> string list \<Rightarrow> string list" where
  "resolve_dots done [] = rev done"
| "resolve_dots done (s # ss) =
     (if s = ''.'' then resolve_dots done ss else if s = ''..'' then resolve_dots (tl done) ss else resolve_dots (s # done) ss)"

definition requested_path :: "string \<Rightarrow> string" where
  "requested_path path = ''/'' @ js_join ''/'' (resolve_dots [] (tl (js_split CHR ''/'' path)))"

text \<open>Two dots lead out of the allowed prefix, to any path of the site.\<close>

lemma dots_leave_the_prefix:
  "isSafeRedirectTarget (JStr ''/dashboard/../api/auth'')" "requested_path ''/dashboard/../api/auth'' = ''/api/auth''"
  "\<not> isSafeRedirectTarget (JStr ''/api/auth'')"
  by code_simp+

text \<open>A fallback with a no-break space before it passes, is returned as it is, and is read as a path relative to the page.\<close>

lemma padded_fallback_is_not_trimmed:
  "resolveSafeRedirect JUndefined (CHR 0xA0 # ''/dashboard'') = CHR 0xA0 # ''/dashboard''"
  "navigate (CHR 0xA0 # ''/dashboard'') = Elsewhere"
  by code_simp+

text \<open>The fallback of the backend's picker is not looked at.\<close>

lemma picker_trusts_fallback:
  "fst (getSafeRedirectTarget show JNull JNull REDIRECT_FIELDS ''https://evil.example'') = ''https://evil.example''"
  by (simp add: REDIRECT_FIELDS_def redirect_field_def js_field_def js_absent_def)

section \<open>The middleware of the web client\<close>

definition PROTECTED_ROUTES :: "string list" where
  "PROTECTED_ROUTES = [''/dashboard'', ''/invest'', ''/contractor'', ''/admin'', ''/governance'', ''/settings'', ''/history'']"

definition isProtectedRoute :: "string \<Rightarrow> bool" where
  "isProtectedRoute pathname = list_ex (\<lambda>prefix. pathname = prefix \<or> js_starts_with pathname (prefix @ ''/'')) PROTECTED_ROUTES"

text \<open>The page goes on, or the browser is sent to the start page with the path as a parameter.\<close>

datatype page_answer = Page_next | To_start string

definition page_middleware :: "string \<Rightarrow> (string \<Rightarrow> string option) \<Rightarrow> page_answer" where
  "page_middleware pathname cookie =
     (if \<not> isProtectedRoute pathname then Page_next
      else case cookie ''session'' of
        Some token \<Rightarrow> if token \<noteq> [] then Page_next else To_start (resolveSafeRedirect (JStr pathname) ''/'')
      | None \<Rightarrow> To_start (resolveSafeRedirect (JStr pathname) ''/''))"

text \<open>The parameter it names passes the guard again.\<close>

lemma start_page_parameter_stays:
  assumes "page_middleware pathname cookie = To_start target"
  shows "\<exists>path. navigate target = On_site path \<and> allowed_path path"
proof -
  have "target = resolveSafeRedirect (JStr pathname) ''/''"
    using assms by (auto simp: page_middleware_def split: if_splits option.splits)
  then show ?thesis using resolved_stays [of "''/''"] by (simp add: js_trim_def js_space_def)
qed

text \<open>Signing in with a wallet sets a cookie of another name, so a signed-in wallet is sent to the start page.\<close>

lemma wallet_session_is_sent_away:
  "page_middleware ''/dashboard'' (\<lambda>c. if c = ''token'' then Some t else None) = To_start ''/dashboard''"
proof -
  have "isProtectedRoute ''/dashboard''" "resolveSafeRedirect (JStr ''/dashboard'') ''/'' = ''/dashboard''" by code_simp+
  then show ?thesis by (simp add: page_middleware_def)
qed

end
