(* ===== verification/DraftCleanup.thy ===== *)
theory DraftCleanup
  imports LoanStore
begin

text \<open>
  The job that clears away forgotten drafts, \<^verbatim>\<open>backend/src/jobs/staleDraftCleanup.ts\<close>, over the applications of
  \<open>LoanStore\<close>. A sweep reads the idle drafts, then sends one notice and writes one row after the other, and at last
  discards the drafts whose notice is old enough; requests and other sweeps go on in between, mail and database
  may fail. The theorem: no draft is discarded by a sweep without a notice, written at least the days of grace before for a
  draft that was found idle, and without a resumption or an edit since.
\<close>

section \<open>Sweeps\<close>

record cleanup_config =
  dc_staleThresholdDays :: int
  dc_staleExpiryGraceDays :: int

definition MS_PER_DAY :: int where
  "MS_PER_DAY = 24 * 60 * 60 * 1000"

datatype sweep_end = Sweeping | Swept nat nat | Sweep_broke

text \<open>A sweep under way: the time it started, the drafts it has yet to notify, with the address they were read with.\<close>

record sweep =
  sw_now :: int
  sw_config :: cleanup_config
  sw_todo :: "(string \<times> string) list"
  sw_flagged :: nat
  sw_end :: sweep_end

record cleanup_world =
  cw_store :: loan_store
  cw_sweeps :: "(nat, sweep) js_map"
  cw_mails :: "(string \<times> string) list"

definition idle_draft :: "int \<Rightarrow> loan_row \<Rightarrow> bool" where
  "idle_draft cutoff r \<longleftrightarrow>
     lo_status r = Draft \<and> lo_deletedAt r = None \<and> lo_draftStaleNotifiedAt r = None \<and> lo_lastActivityAt r < cutoff"

definition newly_stale :: "loan_store \<Rightarrow> int \<Rightarrow> (string \<times> string) list" where
  "newly_stale st cutoff = map (\<lambda>(k, r). (k, address_of st r)) (filter (\<lambda>(k, r). idle_draft cutoff r) (st_loans st))"

definition start_sweep :: "loan_store \<Rightarrow> cleanup_config \<Rightarrow> int \<Rightarrow> sweep" where
  "start_sweep st cfg now =
     \<lparr>sw_now = now, sw_config = cfg, sw_todo = newly_stale st (now - dc_staleThresholdDays cfg * MS_PER_DAY), sw_flagged = 0,
      sw_end = Sweeping\<rparr>"

text \<open>The address a notice goes to is made of the wallet's.\<close>

definition notice_mail :: "string \<Rightarrow> string option" where
  "notice_mail address = (if address = [] then None else Some (address @ ''@example.com''))"

definition mark_notified :: "loan_store \<Rightarrow> string \<Rightarrow> int \<Rightarrow> loan_store option" where
  "mark_notified st k now =
     (case map_get (st_loans st) k of
        None \<Rightarrow> None
      | Some r \<Rightarrow> Some (st\<lparr>st_loans := map_set (st_loans st) k (r\<lparr>lo_draftStaleNotifiedAt := Some now, lo_version := lo_version r + 1\<rparr>)\<rparr>))"

definition expires :: "int \<Rightarrow> loan_row \<Rightarrow> bool" where
  "expires cutoff r \<longleftrightarrow> lo_status r = Draft \<and> lo_deletedAt r = None \<and>
     (case lo_draftStaleNotifiedAt r of None \<Rightarrow> False | Some t \<Rightarrow> t < cutoff)"

definition expire_row :: "int \<Rightarrow> int \<Rightarrow> loan_row \<Rightarrow> loan_row" where
  "expire_row cutoff now r = (if expires cutoff r then r\<lparr>lo_deletedAt := Some now, lo_version := lo_version r + 1\<rparr> else r)"

definition expire_drafts :: "loan_store \<Rightarrow> int \<Rightarrow> int \<Rightarrow> loan_store \<times> nat" where
  "expire_drafts st cutoff now =
     (st\<lparr>st_loans := map (\<lambda>(k, r). (k, expire_row cutoff now r)) (st_loans st)\<rparr>,
      length (filter (\<lambda>(k, r). expires cutoff r) (st_loans st)))"

text \<open>
  The next piece of a sweep: one notice and its row, or the last query. A failure to send is caught; a failure of the
  database ends the job.
\<close>

definition advance_sweep :: "cleanup_world \<Rightarrow> sweep \<Rightarrow> bool \<Rightarrow> bool \<Rightarrow> cleanup_world \<times> sweep" where
  "advance_sweep w s mail_ok db_ok =
     (if sw_end s \<noteq> Sweeping then (w, s)
      else case sw_todo s of
        (k, address) # rest \<Rightarrow>
          (let w1 = (case notice_mail address of
                 Some email \<Rightarrow> if mail_ok then w\<lparr>cw_mails := cw_mails w @ [(email, k)]\<rparr> else w
               | None \<Rightarrow> w)
           in case (if db_ok then mark_notified (cw_store w) k (sw_now s) else None) of
                None \<Rightarrow> (w1, s\<lparr>sw_end := Sweep_broke\<rparr>)
              | Some st \<Rightarrow> (w1\<lparr>cw_store := st\<rparr>, s\<lparr>sw_todo := rest, sw_flagged := sw_flagged s + 1\<rparr>))
      | [] \<Rightarrow>
          if \<not> db_ok then (w, s\<lparr>sw_end := Sweep_broke\<rparr>)
          else (case expire_drafts (cw_store w) (sw_now s - dc_staleExpiryGraceDays (sw_config s) * MS_PER_DAY) (sw_now s) of
                  (st, n) \<Rightarrow> (w\<lparr>cw_store := st\<rparr>, s\<lparr>sw_end := Swept (sw_flagged s) n\<rparr>)))"

datatype cleanup_event = Store_op store_op | Start_sweep nat cleanup_config | Advance_sweep nat bool bool

fun cleanup_step :: "'db store_library \<Rightarrow> cleanup_world \<Rightarrow> cleanup_event \<times> int \<Rightarrow> cleanup_world" where
  "cleanup_step lib w (Store_op op, now) = w\<lparr>cw_store := apply_op lib (cw_store w) (op, now)\<rparr>"
| "cleanup_step lib w (Start_sweep n cfg, now) = w\<lparr>cw_sweeps := map_set (cw_sweeps w) n (start_sweep (cw_store w) cfg now)\<rparr>"
| "cleanup_step lib w (Advance_sweep n mail_ok db_ok, now) =
     (case map_get (cw_sweeps w) n of
        None \<Rightarrow> w
      | Some s \<Rightarrow> (case advance_sweep w s mail_ok db_ok of (w', s') \<Rightarrow> w'\<lparr>cw_sweeps := map_set (cw_sweeps w') n s'\<rparr>))"

abbreviation cleanup_run :: "'db store_library \<Rightarrow> cleanup_world \<Rightarrow> (cleanup_event \<times> int) list \<Rightarrow> cleanup_world" where
  "cleanup_run lib \<equiv> foldl (cleanup_step lib)"

text \<open>Left to itself, a sweep ends after one piece for each draft and one for the last query.\<close>

lemma sweep_ends:
  assumes "map_get (cw_sweeps w) n = Some s" "sw_end s = Sweeping" "length (sw_todo s) = m"
  shows "\<exists>s'. map_get (cw_sweeps (cleanup_run lib w (replicate (Suc m) (Advance_sweep n a b, t)))) n = Some s' \<and> sw_end s' \<noteq> Sweeping"
proof -
  have ended: "\<exists>s'. map_get (cw_sweeps (cleanup_run lib w (replicate m (Advance_sweep n a b, t)))) n = Some s' \<and> sw_end s' \<noteq> Sweeping"
    if "map_get (cw_sweeps w) n = Some s" "sw_end s \<noteq> Sweeping" for w s m
    using that by (induction m arbitrary: w s) (simp_all add: advance_sweep_def)
  show ?thesis
    using assms
  proof (induction m arbitrary: w s)
    case 0
    then show ?case by (auto simp: advance_sweep_def split: prod.splits)
  next
    case (Suc m)
    obtain k address rest where todo: "sw_todo s = (k, address) # rest" using Suc(4) by (cases "sw_todo s") auto
    obtain w' s' where step: "advance_sweep w s a b = (w', s')" by fastforce
    let ?w = "w'\<lparr>cw_sweeps := map_set (cw_sweeps w') n s'\<rparr>"
    have first: "cleanup_step lib w (Advance_sweep n a b, t) = ?w" using Suc(2) step by simp
    have next_sweep: "sw_end s' \<noteq> Sweeping \<or> sw_end s' = Sweeping \<and> length (sw_todo s') = m"
      using step todo Suc(3,4) by (auto simp: advance_sweep_def Let_def split: option.splits if_splits)
    show ?case
    proof (cases "sw_end s' = Sweeping")
      case True
      then show ?thesis using Suc(1) [of ?w s'] next_sweep first by (simp add: replicate_Suc [of "Suc m"] del: replicate_Suc cleanup_step.simps)
    next
      case False
      then show ?thesis using ended [of ?w s' "Suc m"] first
        by (simp add: replicate_Suc [of "Suc m"] del: replicate_Suc cleanup_step.simps)
    qed
  qed
qed

section \<open>Notices\<close>

text \<open>Activity on a draft: a resumption, or an edit of its fields that leaves it a draft.\<close>

definition renews :: "'db store_library \<Rightarrow> loan_store \<Rightarrow> cleanup_event \<times> int \<Rightarrow> string \<Rightarrow> bool" where
  "renews lib st e k \<longleftrightarrow> (case e of
      (Store_op (Resume j), now) \<Rightarrow> j = k \<and> snd (resumeDraftApplication lib st j now) \<noteq> None
    | (Store_op (Update j patch expected), now) \<Rightarrow> j = k \<and> hasFieldChanges patch \<and>
        (\<exists>app. snd (updateApplication lib st j patch expected now) = Inr (Some app) \<and> la_status app = Draft)
    | _ \<Rightarrow> False)"

definition notice_of :: "loan_store \<Rightarrow> string \<Rightarrow> int option" where
  "notice_of st k = (case map_get (st_loans st) k of None \<Rightarrow> None | Some r \<Rightarrow> lo_draftStaleNotifiedAt r)"

definition no_new_notice :: "loan_store \<Rightarrow> loan_store \<Rightarrow> bool" where
  "no_new_notice st st' \<longleftrightarrow> (\<forall>k t. notice_of st' k = Some t \<longrightarrow> notice_of st k = Some t)"

lemma no_new_notice_refl [simp]: "no_new_notice st st" "st_loans st' = st_loans st \<Longrightarrow> no_new_notice st st'"
  by (simp_all add: no_new_notice_def notice_of_def)

lemma no_new_notice_trans: "no_new_notice a b \<Longrightarrow> no_new_notice b c \<Longrightarrow> no_new_notice a c"
  by (auto simp: no_new_notice_def)

lemma no_new_notice_set:
  "st_loans st' = map_set (st_loans st) k r' \<Longrightarrow> lo_draftStaleNotifiedAt r' = None \<or> lo_draftStaleNotifiedAt r' = notice_of st k \<Longrightarrow>
     no_new_notice st st'"
  by (auto simp: no_new_notice_def notice_of_def)

lemma assignment_no_notice:
  "no_new_notice st (assignment_put st (fst (autoAssignApplicationReviewer (assignment_view st) enabled k now)))"
proof -
  have "lo_draftStaleNotifiedAt (assigned_row db j r) = lo_draftStaleNotifiedAt r" for db j r
    by (simp add: assigned_row_def split: option.splits)
  then show ?thesis
    by (auto simp: no_new_notice_def notice_of_def assignment_put_def map_get_map_snd split: option.splits)
qed

lemma create_no_notice: "no_new_notice st (fst (createApplication lib st address amount guarantor newId newApplicantId now))"
proof (cases rule: create_cases [of lib st address amount guarantor newId newApplicantId now])
  case (refused e)
  then show ?thesis by simp
next
  case (dropped e st1 i a)
  then show ?thesis using findOrCreate_rest(1) by simp
next
  case (created st1 i a r st2 st3)
  have "no_new_notice st st3"
    using findOrCreate_rest(1) [OF created(1)]
    by (intro no_new_notice_set [of st3 newId r st]) (simp_all add: created(2,5,6) new_row_def)
  then show ?thesis unfolding created(7) by (auto intro: no_new_notice_trans [OF _ assignment_no_notice])
qed

lemma apply_patch_notice:
  assumes "apply_patch patch existing now r = Some r'"
  shows "lo_draftStaleNotifiedAt r' = None \<or> lo_draftStaleNotifiedAt r' = lo_draftStaleNotifiedAt r"
    and "hasFieldChanges patch \<Longrightarrow> lo_status existing = lo_status r \<Longrightarrow> lo_status r' = Draft \<Longrightarrow> lo_draftStaleNotifiedAt r' = None"
  using assms by (auto simp: apply_patch_def Let_def split: option.splits if_splits)

lemma update_cases:
  assumes "updateApplication lib st k patch expected now = (st', result)"
  obtains (unchanged) "st_loans st' = st_loans st" "\<And>app. result \<noteq> Inr (Some app)"
  | (written) r r' where "map_get (st_loans st) k = Some r" "apply_patch patch r now r = Some r'"
      "st_loans st' = map_set (st_loans st) k r'" "\<And>app. result = Inr (Some app) \<Longrightarrow> la_status app = lo_status r'"
proof (cases "\<exists>existing before st1 st2 r'. read_existing lib st k expected = Inr (Some (existing, before)) \<and>
    write_address st existing patch = Inr st1 \<and> guarded_update lib st1 k expected patch existing now = Inr (st2, r')")
  case True
  then obtain existing before st1 st2 r' where u: "read_existing lib st k expected = Inr (Some (existing, before))"
    "write_address st existing patch = Inr st1" "guarded_update lib st1 k expected patch existing now = Inr (st2, r')" by blast
  have live: "map_get (st_loans st) k = Some existing"
    using u(1) by (auto simp: read_existing_def dest: live_get split: option.splits)
  have "st_loans st1 = st_loans st"
    using u(2) by (auto simp: write_address_def split: option.splits if_splits)
  with guarded_newer [OF u(3)] live have "apply_patch patch existing now existing = Some r'"
    "st_loans st2 = map_set (st_loans st) k r'" by auto
  moreover have "st_loans st' = st_loans st2" "result = Inr (Some (mapLoanApplication lib st2 k r'))"
    using assms u by (auto simp: updateApplication_def record_update_def Let_def)
  ultimately show thesis using written [OF live, of r'] by (simp add: mapLoanApplication_def)
next
  case False
  then show thesis
    using assms unchanged
    by (auto simp: updateApplication_def write_address_def split: sum.splits option.splits prod.splits if_splits)
qed

lemma update_no_notice: "no_new_notice st (fst (updateApplication lib st k patch expected now))"
proof -
  obtain st' result where u: "updateApplication lib st k patch expected now = (st', result)" by fastforce
  show ?thesis
  proof (cases rule: update_cases [OF u])
    case 1
    then show ?thesis by (simp add: u)
  next
    case (2 r r')
    then show ?thesis
      using apply_patch_notice(1) [OF 2(2)] by (auto simp: u notice_of_def intro!: no_new_notice_set [OF 2(3)])
  qed
qed

lemma draft_no_notice:
  "no_new_notice st (fst (resumeDraftApplication lib st k now))" "no_new_notice st (fst (discardDraftApplication lib st k now))"
  by (auto simp: resumeDraftApplication_def discardDraftApplication_def Let_def notice_of_def dest!: draft_get split: option.splits
      intro!: no_new_notice_set [where k = k])

lemma review_no_notice: "no_new_notice st (fst (review_item lib st item reviewer ip now))"
  by (auto simp: review_item_def bulk_write_def Let_def notice_of_def split: sum.splits option.splits
      intro!: no_new_notice_set [where k = "bi_applicationId item"])

lemma bulk_no_notice: "no_new_notice st (fst (bulkReviewApplications lib st items reviewer ip now))"
proof (induction items arbitrary: st)
  case (Cons item items)
  then show ?case
    unfolding bulk_fst using no_new_notice_trans [OF review_no_notice] by blast
qed simp

lemma op_no_notice: "no_new_notice st (apply_op lib st (op, now))"
  by (cases op) (simp_all add: create_no_notice draft_no_notice bulk_no_notice update_no_notice)

text \<open>No request writes a notice, and one that renews a draft takes its notice away.\<close>

lemma renewed_has_no_notice:
  assumes "renews lib st (Store_op op, now) k"
  shows "notice_of (apply_op lib st (op, now)) k = None"
proof (cases op)
  case (Resume j)
  then show ?thesis
    using assms by (auto simp: renews_def resumeDraftApplication_def Let_def notice_of_def split: option.splits)
next
  case (Update j patch expected)
  obtain st' result where u: "updateApplication lib st j patch expected now = (st', result)" by fastforce
  then have r: "j = k" "hasFieldChanges patch" "\<exists>app. result = Inr (Some app) \<and> la_status app = Draft"
    using assms Update by (auto simp: renews_def)
  show ?thesis
  proof (cases rule: update_cases [OF u])
    case 1
    then show ?thesis using r(3) by auto
  next
    case (2 x x')
    have "lo_status x' = Draft" using 2(4) r(3) by auto
    then have "lo_draftStaleNotifiedAt x' = None" using apply_patch_notice(2) [OF 2(2) r(2)] by simp
    then show ?thesis using Update u 2(3) r(1) by (simp add: notice_of_def)
  qed
qed (use assms in \<open>simp_all add: renews_def\<close>)

lemma expire_no_notice: "no_new_notice st (fst (expire_drafts st cutoff now))"
proof -
  have "lo_draftStaleNotifiedAt (expire_row cutoff now r) = lo_draftStaleNotifiedAt r" for r by (simp add: expire_row_def)
  then show ?thesis
    by (auto simp: no_new_notice_def notice_of_def expire_drafts_def map_get_map_snd split: option.splits)
qed

lemma mark_notified_notice:
  "mark_notified st k t = Some st' \<Longrightarrow> notice_of st' j = (if j = k then Some t else notice_of st j)"
  by (auto simp: mark_notified_def notice_of_def split: option.splits)

lemma mark_notified_keeps:
  "mark_notified st j t = Some st' \<Longrightarrow> map_get (st_loans st') k = Some r' \<Longrightarrow> map_get (st_loans st) k = Some r \<Longrightarrow>
     lo_deletedAt r' = lo_deletedAt r"
  by (auto simp: mark_notified_def split: option.splits if_splits)

text \<open>A piece of a sweep: the notice it is about to write, if any.\<close>

definition writes_notice :: "cleanup_world \<Rightarrow> cleanup_event \<Rightarrow> string \<Rightarrow> sweep \<Rightarrow> bool" where
  "writes_notice w e k s \<longleftrightarrow> (\<exists>n mail_ok address rest. e = Advance_sweep n mail_ok True \<and> map_get (cw_sweeps w) n = Some s \<and>
     sw_end s = Sweeping \<and> sw_todo s = (k, address) # rest)"

lemma step_notice:
  assumes "notice_of (cw_store (cleanup_step lib w (e, now))) k = Some t"
  shows "(\<exists>s. writes_notice w e k s \<and> sw_now s = t) \<or>
    notice_of (cw_store w) k = Some t \<and> \<not> renews lib (cw_store w) (e, now) k"
proof (cases e)
  case (Store_op op)
  then have n: "notice_of (apply_op lib (cw_store w) (op, now)) k = Some t" using assms by simp
  then have "notice_of (cw_store w) k = Some t" using op_no_notice unfolding no_new_notice_def by blast
  moreover have "\<not> renews lib (cw_store w) (e, now) k"
    using n renewed_has_no_notice [of lib "cw_store w" op now k] Store_op by auto
  ultimately show ?thesis by blast
next
  case (Start_sweep n cfg)
  then show ?thesis using assms by (simp add: renews_def)
next
  case (Advance_sweep n mail_ok db_ok)
  show ?thesis
  proof (cases "map_get (cw_sweeps w) n")
    case None
    then show ?thesis using assms Advance_sweep by (simp add: renews_def)
  next
    case (Some s)
    obtain w' s' where a: "advance_sweep w s mail_ok db_ok = (w', s')" by fastforce
    then have n: "notice_of (cw_store w') k = Some t" using assms Advance_sweep Some by simp
    have quiet: "\<not> renews lib (cw_store w) (e, now) k" by (simp add: Advance_sweep renews_def)
    have "writes_notice w e k s \<and> sw_now s = t \<or> notice_of (cw_store w) k = Some t"
    proof (cases "sw_end s = Sweeping")
      case False
      then show ?thesis using a n by (simp add: advance_sweep_def)
    next
      case going: True
      show ?thesis
      proof (cases "sw_todo s")
        case Nil
        then have "cw_store w' = cw_store w \<or> cw_store w' = fst (expire_drafts (cw_store w)
            (sw_now s - dc_staleExpiryGraceDays (sw_config s) * MS_PER_DAY) (sw_now s))"
          using a going by (auto simp: advance_sweep_def case_prod_beta split: if_splits)
        then show ?thesis using n expire_no_notice unfolding no_new_notice_def by metis
      next
        case (Cons x rest)
        obtain j address where x: "x = (j, address)" by (cases x) auto
        have "cw_store w' = cw_store w \<or> db_ok \<and> mark_notified (cw_store w) j (sw_now s) = Some (cw_store w')"
          using a going Cons x by (auto simp: advance_sweep_def Let_def split: option.splits if_splits)
        then show ?thesis
          using n going Cons x Some Advance_sweep
          by (auto simp: mark_notified_notice writes_notice_def split: if_splits)
      qed
    qed
    then show ?thesis using quiet by blast
  qed
qed

section \<open>Histories\<close>

text \<open>
  A history in which a sweep found a draft idle, wrote its notice at a later piece, and no activity renewed
  the draft since.
\<close>

definition found_idle :: "'db store_library \<Rightarrow> cleanup_world \<Rightarrow> (cleanup_event \<times> int) list \<Rightarrow> nat \<Rightarrow> sweep \<Rightarrow> string \<Rightarrow> bool" where
  "found_idle lib w0 es n s k \<longleftrightarrow> (\<exists>es1 es2 r. es = es1 @ (Start_sweep n (sw_config s), sw_now s) # es2 \<and>
     map_get (st_loans (cw_store (cleanup_run lib w0 es1))) k = Some r \<and>
     idle_draft (sw_now s - dc_staleThresholdDays (sw_config s) * MS_PER_DAY) r)"

definition noticed :: "'db store_library \<Rightarrow> cleanup_world \<Rightarrow> (cleanup_event \<times> int) list \<Rightarrow> string \<Rightarrow> int \<Rightarrow> bool" where
  "noticed lib w0 es k t \<longleftrightarrow> (\<exists>es1 e at_time es2 n s. es = es1 @ (e, at_time) # es2 \<and>
     writes_notice (cleanup_run lib w0 es1) e k s \<and> sw_now s = t \<and> found_idle lib w0 es1 n s k \<and>
     (\<forall>a x b. es2 = a @ x # b \<longrightarrow> \<not> renews lib (cw_store (cleanup_run lib w0 (es1 @ (e, at_time) # a))) x k))"

lemma found_idle_later: "found_idle lib w0 es n s k \<Longrightarrow> found_idle lib w0 (es @ es') n s k"
  unfolding found_idle_def by fastforce

lemma noticed_later:
  assumes "noticed lib w0 es k t" "\<not> renews lib (cw_store (cleanup_run lib w0 es)) x k"
  shows "noticed lib w0 (es @ [x]) k t"
proof -
  obtain es1 e at_time es2 n s where h: "es = es1 @ (e, at_time) # es2" "writes_notice (cleanup_run lib w0 es1) e k s"
      "sw_now s = t" "found_idle lib w0 es1 n s k"
    and quiet: "\<And>a x b. es2 = a @ x # b \<Longrightarrow> \<not> renews lib (cw_store (cleanup_run lib w0 (es1 @ (e, at_time) # a))) x k"
    using assms(1) unfolding noticed_def by blast
  have "\<not> renews lib (cw_store (cleanup_run lib w0 (es1 @ (e, at_time) # a))) y k" if "es2 @ [x] = a @ y # b" for a y b
  proof (cases b rule: rev_cases)
    case Nil
    then have "a = es2" "y = x" using that by auto
    then show ?thesis using assms(2) h(1) by simp
  next
    case (snoc b' z)
    then have "es2 = a @ y # b'" using that by auto
    then show ?thesis by (rule quiet)
  qed
  then show ?thesis unfolding noticed_def using h by (intro exI [of _ es1] exI [of _ e] exI [of _ at_time] exI [of _ "es2 @ [x]"]
      exI [of _ n] exI [of _ s]) auto
qed

definition cleanup_ok :: "'db store_library \<Rightarrow> cleanup_world \<Rightarrow> (cleanup_event \<times> int) list \<Rightarrow> bool" where
  "cleanup_ok lib w0 es \<longleftrightarrow>
     (\<forall>k t. notice_of (cw_store (cleanup_run lib w0 es)) k = Some t \<longrightarrow> noticed lib w0 es k t) \<and>
     (\<forall>n s k address. map_get (cw_sweeps (cleanup_run lib w0 es)) n = Some s \<longrightarrow> (k, address) \<in> set (sw_todo s) \<longrightarrow>
        found_idle lib w0 es n s k)"

lemma newly_stale_idle: "(k, address) \<in> set (newly_stale st cutoff) \<Longrightarrow> wf_map (st_loans st) \<Longrightarrow>
    \<exists>r. map_get (st_loans st) k = Some r \<and> idle_draft cutoff r"
  by (auto simp: newly_stale_def wf_map_def)

lemma op_wf:
  assumes "wf_map (st_loans st)"
  shows "wf_map (st_loans (apply_op lib st (op, now)))"
proof (cases op)
  case (Apply address amount guarantor newId newApplicantId)
  show ?thesis
  proof (cases rule: create_cases [of lib st address amount guarantor newId newApplicantId now])
    case (refused e)
    then show ?thesis using assms Apply by simp
  next
    case (dropped e st1 i a)
    then show ?thesis using assms Apply findOrCreate_rest(1) by simp
  next
    case (created st1 i a r st2 st3)
    have "wf_map (st_loans st3)" using assms findOrCreate_rest(1) [OF created(1)] by (simp add: created(5,6))
    then show ?thesis
      unfolding Apply apply_op.simps created(7) by (simp add: assignment_put_def wf_map_def case_prod_beta comp_def)
  qed
next
  case (Update k patch expected)
  obtain st' result where u: "updateApplication lib st k patch expected now = (st', result)" by fastforce
  show ?thesis by (cases rule: update_cases [OF u]) (use assms Update u in simp_all)
next
  case (Resume k)
  then show ?thesis using assms by (simp add: resumeDraftApplication_def Let_def split: option.splits)
next
  case (Discard k)
  then show ?thesis using assms by (simp add: discardDraftApplication_def Let_def split: option.splits)
next
  case (Review items reviewer ip)
  have item: "wf_map (st_loans (fst (review_item lib st item reviewer ip now)))" if "wf_map (st_loans st)" for st item
    using that by (simp add: review_item_def bulk_write_def Let_def split: sum.splits option.splits)
  have "wf_map (st_loans (fst (bulkReviewApplications lib st items reviewer ip now)))" if "wf_map (st_loans st)" for st
    using that
  proof (induction items arbitrary: st)
    case (Cons x items)
    then show ?case unfolding bulk_fst using item by blast
  qed simp
  then show ?thesis using assms Review by simp
qed

lemma step_wf:
  assumes "wf_map (st_loans (cw_store w))"
  shows "wf_map (st_loans (cw_store (cleanup_step lib w x)))"
proof -
  obtain e now where x: "x = (e, now)" by (cases x) auto
  have piece: "wf_map (st_loans (cw_store (fst (advance_sweep w s a b))))" for s a b
    using assms by (auto simp: advance_sweep_def Let_def mark_notified_def expire_drafts_def wf_map_def case_prod_beta comp_def
        distinct_update split: list.splits option.splits)
  show ?thesis
    using assms op_wf piece
    by (cases e) (auto simp: x case_prod_beta split: option.splits)
qed

lemma run_wf: "wf_map (st_loans (cw_store w)) \<Longrightarrow> wf_map (st_loans (cw_store (cleanup_run lib w es)))"
  by (induction es arbitrary: w) (simp_all add: step_wf del: cleanup_step.simps)

definition fresh_drafts :: "cleanup_world \<Rightarrow> bool" where
  "fresh_drafts w \<longleftrightarrow> wf_map (st_loans (cw_store w)) \<and> (\<forall>k. notice_of (cw_store w) k = None) \<and> cw_sweeps w = []"

lemma sweeps_step:
  assumes "map_get (cw_sweeps (cleanup_step lib w (e, now))) n = Some s" "(k, address) \<in> set (sw_todo s)"
  shows "(\<exists>s0. map_get (cw_sweeps w) n = Some s0 \<and> (k, address) \<in> set (sw_todo s0) \<and> sw_now s0 = sw_now s \<and> sw_config s0 = sw_config s) \<or>
    e = Start_sweep n (sw_config s) \<and> now = sw_now s \<and>
    (k, address) \<in> set (newly_stale (cw_store w) (sw_now s - dc_staleThresholdDays (sw_config s) * MS_PER_DAY))"
proof (cases e)
  case (Store_op op)
  then show ?thesis using assms by auto
next
  case (Start_sweep m cfg)
  then show ?thesis using assms by (auto simp: start_sweep_def split: if_splits)
next
  case (Advance_sweep m a b)
  have kept: "cw_sweeps (fst (advance_sweep w s0 a b)) = cw_sweeps w" "set (sw_todo (snd (advance_sweep w s0 a b))) \<subseteq> set (sw_todo s0)"
    "sw_now (snd (advance_sweep w s0 a b)) = sw_now s0" "sw_config (snd (advance_sweep w s0 a b)) = sw_config s0" for s0
    by (auto simp: advance_sweep_def Let_def expire_drafts_def split: list.splits option.splits)
  show ?thesis
    using assms kept unfolding Advance_sweep
    by (auto simp: case_prod_beta split: option.splits if_splits)
qed

lemma cleanup_ok_run:
  assumes "fresh_drafts w0"
  shows "cleanup_ok lib w0 es"
proof (induction es rule: rev_induct)
  case Nil
  then show ?case using assms by (simp add: cleanup_ok_def fresh_drafts_def)
next
  case (snoc x es)
  obtain e now where x: "x = (e, now)" by (cases x) auto
  let ?w = "cleanup_run lib w0 es"
  have run: "cleanup_run lib w0 (es @ [x]) = cleanup_step lib ?w (e, now)" by (simp add: x)
  have "noticed lib w0 (es @ [x]) k t" if n: "notice_of (cw_store (cleanup_run lib w0 (es @ [x]))) k = Some t" for k t
  proof -
    from step_notice [OF n [unfolded run]] show ?thesis
    proof
      assume "\<exists>s. writes_notice ?w e k s \<and> sw_now s = t"
      then obtain s where s: "writes_notice ?w e k s" "sw_now s = t" by blast
      then obtain m address where "map_get (cw_sweeps ?w) m = Some s" "(k, address) \<in> set (sw_todo s)"
        unfolding writes_notice_def by (metis list.set_intros(1))
      then have "found_idle lib w0 es m s k" using snoc unfolding cleanup_ok_def by blast
      then show ?thesis
        unfolding noticed_def using s
        by (intro exI [of _ es] exI [of _ e] exI [of _ now] exI [of _ "[]"] exI [of _ m] exI [of _ s]) (simp add: x)
    next
      assume h: "notice_of (cw_store ?w) k = Some t \<and> \<not> renews lib (cw_store ?w) (e, now) k"
      then have "noticed lib w0 es k t" using snoc unfolding cleanup_ok_def by blast
      then show ?thesis using h noticed_later x by blast
    qed
  qed
  moreover have "found_idle lib w0 (es @ [x]) n s k"
    if "map_get (cw_sweeps (cleanup_run lib w0 (es @ [x]))) n = Some s" "(k, address) \<in> set (sw_todo s)" for n s k address
  proof -
    from sweeps_step [OF that [unfolded run]] show ?thesis
    proof
      assume "\<exists>s0. map_get (cw_sweeps ?w) n = Some s0 \<and> (k, address) \<in> set (sw_todo s0) \<and> sw_now s0 = sw_now s \<and> sw_config s0 = sw_config s"
      then obtain s0 where s0: "map_get (cw_sweeps ?w) n = Some s0" "(k, address) \<in> set (sw_todo s0)" "sw_now s0 = sw_now s"
        "sw_config s0 = sw_config s" by blast
      then have "found_idle lib w0 es n s0 k" using snoc unfolding cleanup_ok_def by blast
      then have "found_idle lib w0 es n s k" using s0(3,4) by (simp add: found_idle_def)
      then show ?thesis by (rule found_idle_later)
    next
      assume h: "e = Start_sweep n (sw_config s) \<and> now = sw_now s \<and>
        (k, address) \<in> set (newly_stale (cw_store ?w) (sw_now s - dc_staleThresholdDays (sw_config s) * MS_PER_DAY))"
      have "wf_map (st_loans (cw_store ?w))" using assms run_wf unfolding fresh_drafts_def by blast
      with h newly_stale_idle obtain r where "map_get (st_loans (cw_store ?w)) k = Some r"
        "idle_draft (sw_now s - dc_staleThresholdDays (sw_config s) * MS_PER_DAY) r" by blast
      then show ?thesis unfolding found_idle_def using h x by blast
    qed
  qed
  ultimately show ?case unfolding cleanup_ok_def by blast
qed


section \<open>Examples and deviations\<close>

definition draft_world0 :: cleanup_world where
  "draft_world0 = \<lparr>cw_store = store1\<lparr>st_loans := [(''l'', row0\<lparr>lo_status := Draft\<rparr>)]\<rparr>, cw_sweeps = [], cw_mails = []\<rparr>"

definition cleanup_config0 :: cleanup_config where
  "cleanup_config0 = \<lparr>dc_staleThresholdDays = 90, dc_staleExpiryGraceDays = 7\<rparr>"

definition draft_events0 :: "(cleanup_event \<times> int) list" where
  "draft_events0 = [(Start_sweep 0 cleanup_config0, 100 * MS_PER_DAY), (Advance_sweep 0 True True, 100 * MS_PER_DAY),
     (Advance_sweep 0 True True, 100 * MS_PER_DAY), (Start_sweep 1 cleanup_config0, 108 * MS_PER_DAY)]"

lemmas draft_examples = draft_world0_def cleanup_config0_def draft_events0_def store1_def row0_def new_row_def MS_PER_DAY_def
  start_sweep_def newly_stale_def idle_draft_def address_of_def advance_sweep_def notice_mail_def mark_notified_def
  expire_drafts_def expire_row_def expires_def

lemma draft_run0:
  "cw_mails (cleanup_run lib draft_world0 draft_events0) = [(''GA@example.com'', ''l'')]"
  "map_get (cw_sweeps (cleanup_run lib draft_world0 draft_events0)) 1 = Some (start_sweep no_applications cleanup_config0 (108 * MS_PER_DAY))"
  "map_get (st_loans (cw_store (cleanup_run lib draft_world0 draft_events0))) ''l'' =
     Some (row0\<lparr>lo_status := Draft, lo_draftStaleNotifiedAt := Some (100 * MS_PER_DAY), lo_version := 2\<rparr>)"
  by (simp_all add: draft_examples no_applications_def)

lemma draft_discarded0:
  "map_get (st_loans (cw_store (cleanup_step lib (cleanup_run lib draft_world0 draft_events0)
      (Advance_sweep 1 True True, 108 * MS_PER_DAY)))) ''l'' =
   Some (row0\<lparr>lo_status := Draft, lo_draftStaleNotifiedAt := Some (100 * MS_PER_DAY), lo_version := 3,
      lo_deletedAt := Some (108 * MS_PER_DAY)\<rparr>)"
  by (simp add: draft_examples)


text \<open>
  A sweep does not look at a draft again when it writes the notice: a draft that is resumed after the query gets its
  notice all the same, and may be discarded after the days of grace though it was in use.
\<close>

lemma resumed_draft_is_flagged:
  assumes "map_get (cw_sweeps w) n = Some s" "sw_end s = Sweeping" "sw_todo s = (k, address) # rest" "draft_row (cw_store w) k = Some r"
  shows "let w1 = cleanup_step lib w (Store_op (Resume k), now) in
    renews lib (cw_store w) (Store_op (Resume k), now) k \<and> notice_of (cw_store w1) k = None \<and>
    notice_of (cw_store (cleanup_step lib w1 (Advance_sweep n mail_ok True, now))) k = Some (sw_now s)"
proof -
  let ?w = "cleanup_step lib w (Store_op (Resume k), now)"
  have r: "renews lib (cw_store w) (Store_op (Resume k), now) k"
    using assms(4) by (simp add: renews_def resumeDraftApplication_def Let_def)
  have row: "map_get (st_loans (cw_store ?w)) k \<noteq> None" and sweep: "map_get (cw_sweeps ?w) n = Some s"
    using assms(1,4) by (simp_all add: resumeDraftApplication_def Let_def)
  have "notice_of (cw_store (cleanup_step lib ?w (Advance_sweep n mail_ok True, now))) k = Some (sw_now s)"
    using row sweep assms(2,3)
    by (auto simp: advance_sweep_def mark_notified_def notice_of_def Let_def simp del: cleanup_step.simps(1) split: option.splits)
  then show ?thesis using r renewed_has_no_notice [OF r] by (simp add: Let_def)
qed

text \<open>A notice that could not be sent is written like one that was.\<close>

lemma unsent_notice_counts:
  assumes "sw_end s = Sweeping" "sw_todo s = (k, address) # rest" "map_get (st_loans (cw_store w)) k \<noteq> None"
  shows "notice_of (cw_store (fst (advance_sweep w s False True))) k = Some (sw_now s) \<and>
    cw_mails (fst (advance_sweep w s False True)) = cw_mails w"
  using assms by (auto simp: advance_sweep_def mark_notified_def notice_of_def Let_def split: option.splits)

end
