(* ===== verification/Spec2Isabelle.thy ===== *)
theory Spec2Isabelle
  imports Tranche Amortization FairQueue Balances Stuffing Payload LoanHistory Signing Failover Lockout
    Totp LogSampling IpAllowlist Captcha FourEyes RateSheet AuditChain KeyRing Outbox Erasure Assignment
    Servicing FeeWaiver RepaymentAudit LeaderElection ApiKeyQuota Entitlements SafeObject
    Intake FuzzyMatch EmailSuppression DeviceBinding WebhookKeys WebhookDelivery WebhookReplay LoanStore
    AutoRejection LoanRoutes AccessTokens Idempotency EventIndexer EscrowReconciliation MilestoneEvidence
    ReadYourWrites KycDocuments ApplicantMerge SafeRedirect DraftCleanup
begin

text \<open>
  \<^bold>\<open>The program.\<close> RemitMortgage lends against a record of remittances. A TypeScript backend
  (\<^verbatim>\<open>backend/src\<close>) keeps applications, loans, balances and audit trails behind HTTP routes, guards them
  with middleware and runs scheduled jobs; a web client (\<^verbatim>\<open>frontend/src\<close>) computes schedules and keeps
  signature queues; contracts in Rust hold the escrow. This development models the logic of the
  TypeScript code, one theory per component, and proves what makes each component correct. The paths below
  are relative to the repository.

  \<^bold>\<open>Theories and code.\<close> Every definition has the name of the function, method, type or constant it
  models, or names a block of one.

  Money. \<open>Tranche\<close> (\<^verbatim>\<open>backend/src/services/trancheDistribution.ts\<close>): the waterfall split and the dust ledger;
  nothing is lost by a split and the ledger accounts for all it is given. \<open>Amortization\<close>
  (\<^verbatim>\<open>frontend/src/lib/amortization.ts\<close>): the schedule of a loan; the rows close exactly. \<open>Balances\<close>
  (\<^verbatim>\<open>backend/src/services/balanceStore.ts\<close>): balances as decimal text; the store refines integer accounts.
  \<open>EventIndexer\<close> (\<^verbatim>\<open>eventListener.ts\<close>, \<^verbatim>\<open>eventIndexer.ts\<close>, the \<^verbatim>\<open>record\<close> functions of \<^verbatim>\<open>services/db.ts\<close>,
  \<^verbatim>\<open>scripts/soroban-event-backfill.ts\<close>): the events of the contracts become rows and balances, each once.
  \<open>EscrowReconciliation\<close> (\<^verbatim>\<open>jobs/escrowReconciliation.ts\<close>): a sweep sets the cached balances right.
  \<open>FeeWaiver\<close> (\<^verbatim>\<open>backend/src/services/feeWaiver.ts\<close>): what is owed and what is waived add up.
  \<open>RateSheet\<close> (\<^verbatim>\<open>backend/src/services/rateSheet.ts\<close>): versions of the interest rates; a publication never changes
  the past.

  Loans. \<open>LoanStore\<close> (\<^verbatim>\<open>backend/src/services/loanStore.ts\<close>): the versioned store of applications, composed with
  the rate sheets, the audit trail and the reviewer queue; no guarded update is lost, and the trail reconstructs
  every row. \<open>AutoRejection\<close> (\<^verbatim>\<open>autoRejectionRules.ts\<close>, \<^verbatim>\<open>autoRejectionRuleStore.ts\<close> and the administration in
  \<^verbatim>\<open>routes/admin.ts\<close>): which submissions the rules reject. \<open>LoanRoutes\<close> (\<^verbatim>\<open>routes/loan.ts\<close>, \<^verbatim>\<open>security/requireResourceOwnership.ts\<close>, \<^verbatim>\<open>taxIdDedup.ts\<close>): the requests that
  submit, decide, resume and discard, and what they can change. \<open>LoanHistory\<close> (\<^verbatim>\<open>backend/src/services/loanHistory.ts\<close>): replaying the trail gives back any past state.
  \<open>Servicing\<close> (\<^verbatim>\<open>backend/src/services/loanServicing.ts\<close>): transfers form a chain of servicers. \<open>Assignment\<close>
  (\<^verbatim>\<open>backend/src/services/assignmentQueue.ts\<close>): applications go round the active reviewers. \<open>RepaymentAudit\<close>
  (\<^verbatim>\<open>backend/src/jobs/repaymentAudit.ts\<close>): grace periods, missed payments and the earliest default.
  \<open>FuzzyMatch\<close> (\<^verbatim>\<open>backend/src/utils/fuzzyMatch.ts\<close>): duplicate applicants by edit distance.
  \<open>Erasure\<close> (\<^verbatim>\<open>backend/src/services/erasureWorkflow.ts\<close>): nothing is erased under an active hold.
  \<open>ApplicantMerge\<close> (\<^verbatim>\<open>backend/src/services/applicantMerge.ts\<close>): the rows of a duplicate applicant move to the one that
  is kept. \<open>DraftCleanup\<close> (\<^verbatim>\<open>backend/src/jobs/staleDraftCleanup.ts\<close>): a draft is discarded after a notice and a
  period of grace.

  Decisions by several people. \<open>Signing\<close> (\<^verbatim>\<open>frontend/src/lib/signatureQueueStore.ts\<close>,
  \<^verbatim>\<open>frontend/src/lib/milestoneSigningStore.ts\<close>): a proposal passes on signed weight. \<open>FourEyes\<close>
  (\<^verbatim>\<open>backend/src/services/fourEyesPolicy.ts\<close>, \<^verbatim>\<open>fourEyesApproval.ts\<close>): a second administrator decides. \<open>MilestoneEvidence\<close> (\<^verbatim>\<open>contractorAuth.ts\<close>,
  \<^verbatim>\<open>milestoneProposalStore.ts\<close>, \<^verbatim>\<open>ipfsCidTracker.ts\<close>, \<^verbatim>\<open>ipfsCleanup.ts\<close>, \<^verbatim>\<open>ipfsAudit.ts\<close>, \<^verbatim>\<open>jobs/ipfsOrphanCleanup.ts\<close>,
  \<^verbatim>\<open>routes/milestone.ts\<close>): the signatures of a contractor and the life of the evidence a milestone rests on.

  Access. \<open>Stuffing\<close> (\<^verbatim>\<open>credentialStuffing.ts\<close>, service and middleware), \<open>Lockout\<close> (\<^verbatim>\<open>lockoutService.ts\<close>,
  \<^verbatim>\<open>middleware/lockout.ts\<close>, \<^verbatim>\<open>challengeStore.ts\<close>), \<open>Totp\<close> (\<^verbatim>\<open>totpAuth.ts\<close>), \<open>Captcha\<close> (\<^verbatim>\<open>adaptiveCaptcha.ts\<close>,
  service and middleware), \<open>IpAllowlist\<close> (\<^verbatim>\<open>middleware/adminIpAllowlist.ts\<close>), \<open>KeyRing\<close> (\<^verbatim>\<open>jwtKeyRing.ts\<close>),
  \<open>ApiKeyQuota\<close> (\<^verbatim>\<open>middleware/apiKeyQuota.ts\<close>), \<open>Entitlements\<close> (\<^verbatim>\<open>entitlements.ts\<close>), \<open>Payload\<close>
  (\<^verbatim>\<open>middleware/payloadLimits.ts\<close>), \<open>SafeObject\<close> (\<^verbatim>\<open>utils/safeObject.ts\<close>) and \<open>Intake\<close>
  (\<^verbatim>\<open>middleware/prototypePollutionGuard.ts\<close>), \<open>AccessTokens\<close> (\<^verbatim>\<open>middleware/auth.ts\<close>,
  \<^verbatim>\<open>services/impersonation.ts\<close>) and \<open>DeviceBinding\<close> (\<^verbatim>\<open>adminDeviceBinding.ts\<close>, service and middleware, its
  enrolment in \<^verbatim>\<open>routes/adminDevices.ts\<close> and its client \<^verbatim>\<open>frontend/src/lib/admin-device-key.ts\<close>): who and what gets in, how often, and what a hostile request can
  leave behind.
  \<open>KycDocuments\<close> (\<^verbatim>\<open>routes/kyc.ts\<close>, \<^verbatim>\<open>kycStorage.ts\<close>, \<^verbatim>\<open>kycOcrStore.ts\<close>, \<^verbatim>\<open>kycAccessToken.ts\<close>,
  \<^verbatim>\<open>malwareScanner.ts\<close>, \<^verbatim>\<open>kycEncryption.ts\<close>, \<^verbatim>\<open>kmsEncryption.ts\<close>, \<^verbatim>\<open>kycDocumentForensics.ts\<close>): identity documents from
  the upload to the reviewer. \<open>SafeRedirect\<close> (\<^verbatim>\<open>frontend/src/lib/safeRedirect.ts\<close>, \<^verbatim>\<open>frontend/src/middleware.ts\<close>,
  \<^verbatim>\<open>backend/src/security/redirectValidation.ts\<close>): a redirect after the login stays on the site.

  Delivery. \<open>WebhookKeys\<close> (\<^verbatim>\<open>services/webhook.ts\<close>, \<^verbatim>\<open>jobs/webhookKeyRotation.ts\<close>): subscriptions and the
  rotation of their keys; \<open>WebhookDelivery\<close> (\<^verbatim>\<open>services/webhook.ts\<close>, \<^verbatim>\<open>workers/webhookWorker.ts\<close>,
  \<^verbatim>\<open>jobs/webhookAutoDisable.ts\<close>): every dispatch ends, and dead subscribers are paused; \<open>WebhookReplay\<close>
  (\<^verbatim>\<open>services/webhookReplayWindow.ts\<close>): replays are bounded. \<open>Idempotency\<close> (\<^verbatim>\<open>middleware/idempotency.ts\<close>): a
  repeated request changes nothing.

  Operation. \<open>FairQueue\<close> (\<^verbatim>\<open>queueFairness.ts\<close>), \<open>Failover\<close> (\<^verbatim>\<open>kycProviderFailover.ts\<close>, \<^verbatim>\<open>rpcFailover.ts\<close>),
  \<open>Outbox\<close> (\<^verbatim>\<open>transactionalOutbox.ts\<close>), \<open>LeaderElection\<close> (\<^verbatim>\<open>jobLeaderElection.ts\<close>), \<open>ReadYourWrites\<close>
  (\<^verbatim>\<open>readYourWrites.ts\<close>, service and middleware, \<^verbatim>\<open>dbPoolConfig.ts\<close>), \<open>AuditChain\<close> (\<^verbatim>\<open>auditChain.ts\<close>, \<^verbatim>\<open>audit.ts\<close>), \<open>LogSampling\<close> (\<^verbatim>\<open>utils/logSampling.ts\<close>) and \<open>EmailSuppression\<close>
  (\<^verbatim>\<open>emailSuppression.ts\<close>): no tenant starves the others, no event is lost, at most one instance runs a job, a session reads what it wrote,
  the log cannot be rewritten unnoticed, and an address that bounces is left alone.

  \<open>Prelude\<close> and \<open>Decimal\<close> hold what the components share: the run time's values and the locales
  \<open>machine\<close>, \<open>ledger\<close> and \<open>refinement\<close>, each interpreted on components; \<open>weighted_quorum\<close>, the
  contract of the two signature stores, is in \<open>Signing\<close>.

  \<^bold>\<open>How components meet.\<close> \<open>Captcha\<close> asks the stuffing detector of \<open>Stuffing\<close> whether a source is locked.
  \<open>Balances\<close>, \<open>KeyRing\<close>, \<open>Lockout\<close>, \<open>LogSampling\<close> and \<open>ApiKeyQuota\<close> read numbers through \<open>Decimal\<close>.
  \<open>Intake\<close> composes \<open>Payload\<close> and \<open>SafeObject\<close>: stripping is complete up to a nesting of thirty-three containers,
  more than the limits of \<open>Payload\<close> let through by default, so what reaches the handlers is clean.
  The jobs of \<open>RepaymentAudit\<close>, \<open>Servicing\<close> and \<open>AuditChain\<close> are started under \<open>LeaderElection\<close>; their theorems
  are about one pass at a time, which is what mutual exclusion gives them. \<open>FeeWaiver\<close> takes away what
  \<open>RepaymentAudit\<close> charges. \<open>EventIndexer\<close> keeps its rows with the accounts of \<open>Balances\<close>, and \<open>EscrowReconciliation\<close>
  works on the rows it leaves. The signatures of \<open>MilestoneEvidence\<close> are over the challenges of \<open>Lockout\<close>.
  \<open>ApplicantMerge\<close> and \<open>DraftCleanup\<close> work on the rows of \<open>LoanStore\<close>, the former also on the log of \<open>AuditChain\<close>,
  whose chain it breaks; the routes of \<open>KycDocuments\<close> stand behind the tokens of \<open>AccessTokens\<close>.

  \<^bold>\<open>Conventions.\<close> A class or module is the record or map of its state, and a method a function from state to
  state and result. A map is an association list in insertion order; a table is the list or map of its
  rows, under the queries the code makes of it. A thrown exception is the left side of a sum; a failing
  library call is an outcome of its model. A \<^verbatim>\<open>bigint\<close> is an \<open>int\<close>; a number is an \<open>int\<close> where the code keeps
  integers and a \<open>rat\<close> where it divides or stores amounts, so rounding of doubles is not modelled.
  Unsigned shifts are on words. Text is Latin-1, so that its length and its case are those of the code. A
  value of unknown type is a \<open>js_value\<close>. The clock is an argument. What belongs to packages is an argument
  too: hash functions, the token library, the JSON parser, the database client (where its rows are not
  spelled out), the Redis client, providers and nodes; where a theorem relies on their behaviour, the
  hypothesis is named and its witness instantiates it. Calls that can interleave are split at their
  awaits: \<open>Outbox\<close>, \<open>LeaderElection\<close>, \<open>Failover\<close>, \<open>FourEyes\<close>, \<open>RateSheet\<close>. All functions are total; there is no fuel,
  and where the code retries, its own bound is the measure.

  \<^bold>\<open>What the lemmas show.\<close> Invariants over all sequences of calls, from the empty or an arbitrary good
  state; the functional behaviour of an operation on each of its branches; equivalence with a reference
  (the scanner of \<open>Payload\<close> against the value of a text, the stripper of \<open>SafeObject\<close> against the
  JSON reviver, the rows of \<open>FuzzyMatch\<close> against the least number of edits); refinement (\<open>Balances\<close>); round
  trips (\<open>LoanHistory\<close>, \<open>Decimal\<close>); bounds (\<open>Totp\<close>, \<open>ApiKeyQuota\<close>, \<open>RepaymentAudit\<close>); liveness under stated conditions (\<open>Outbox\<close>, \<open>LeaderElection\<close>). Lemmas that
  exhibit a state the code should not reach stand at the end of their theory and are named for
  what happens: for instance \<open>Erasure.completed_executed_again\<close>, \<open>RepaymentAudit.third_miss_refused\<close>,
  \<open>SafeObject.merge_keeps_keys_in_arrays\<close>.

  \<^bold>\<open>Not modelled.\<close> HTTP routing and rendering, React components, the database client and its queries beyond
  those named, the Stellar and Soroban clients, the sending of mail, metrics and log lines; the
  floating-point scoring and yield estimates; the Rust contracts. In modelled files: the average wait and
  worker weights of \<open>FairQueue\<close>, the QR image of \<open>Totp\<close>, the timer and signing options of \<open>KeyRing\<close>, the
  cron wrapper and instance names of \<open>LeaderElection\<close>, the freezing of prototypes in \<open>SafeObject\<close>.
\<close>

end
